(* ===== verification/Prelude.thy ===== *)
theory Prelude
  imports Main "HOL-Library.Char_ord" "HOL-Library.List_Lexorder"
begin

text \<open>
  Shared material of the development.
  \<^item> The result type \<open>'e + 'a\<close> of fallible Go functions (\<open>Inl\<close> is the returned error) with
    its sequencing operator \<open>rbind\<close>; the early returns \<open>if err != nil\<close> of the source are
    its \<open>Inl\<close> branch.
  \<^item> SQL tables as lists of rows: \<open>SELECT\<close> is \<open>filter\<close> or \<open>List.find\<close>, \<open>UPDATE\<close> is
    \<open>tbl_update\<close>, \<open>DELETE\<close> is \<open>tbl_delete\<close>, and \<open>INSERT\<close> is \<open>tbl_insert\<close>, which fails when
    the new row violates a \<open>PRIMARY KEY\<close> or \<open>UNIQUE\<close> constraint.
  \<^item> The interface \<open>keyed_table\<close>: what a uniqueness constraint promises to the code above it.
  Strings are Go strings, that is byte sequences; \<^theory_text>\<open>Char_ord\<close> and
  \<^theory_text>\<open>List_Lexorder\<close> give them the byte-wise lexicographic order that both Go's \<open><\<close> and
  SQLite's BINARY collation use.
\<close>

named_theorems result_simps \<open>inversion of sequenced fallible computations\<close>
named_theorems tbl_simps \<open>reading a table after a write\<close>

section \<open>Fallible computations\<close>

definition rbind :: "'e + 'a \<Rightarrow> ('a \<Rightarrow> 'e + 'b) \<Rightarrow> 'e + 'b" where
  "rbind m f = (case m of Inl e \<Rightarrow> Inl e | Inr x \<Rightarrow> f x)"

definition guard :: "bool \<Rightarrow> 'e \<Rightarrow> 'e + unit" where
  "guard ok e = (if ok then Inr () else Inl e)"

definition of_opt :: "'e \<Rightarrow> 'a option \<Rightarrow> 'e + 'a" where
  "of_opt e m = (case m of None \<Rightarrow> Inl e | Some x \<Rightarrow> Inr x)"

definition map_err :: "('e \<Rightarrow> 'f) \<Rightarrow> 'e + 'a \<Rightarrow> 'f + 'a" where
  "map_err f m = (case m of Inl e \<Rightarrow> Inl (f e) | Inr x \<Rightarrow> Inr x)"

fun fold_res :: "('a \<Rightarrow> 's \<Rightarrow> 'e + 's) \<Rightarrow> 'a list \<Rightarrow> 's \<Rightarrow> 'e + 's" where
  "fold_res f [] s = Inr s"
| "fold_res f (x # xs) s = rbind (f x s) (fold_res f xs)"

lemma rbind_Inr_iff [result_simps]: "rbind m f = Inr y \<longleftrightarrow> (\<exists>x. m = Inr x \<and> f x = Inr y)"
  by (cases m) (auto simp: rbind_def)

lemma rbind_Inl_iff [result_simps]:
  "rbind m f = Inl e \<longleftrightarrow> m = Inl e \<or> (\<exists>x. m = Inr x \<and> f x = Inl e)"
  by (cases m) (auto simp: rbind_def)

lemma rbind_simps [simp]: "rbind (Inl e) f = Inl e" "rbind (Inr x) f = f x"
  by (simp_all add: rbind_def)

lemma guard_Inr_iff [result_simps]: "guard ok e = Inr u \<longleftrightarrow> ok"
  by (simp add: guard_def)

lemma guard_Inl_iff [result_simps]: "guard ok e = Inl e' \<longleftrightarrow> \<not> ok \<and> e' = e"
  by (auto simp: guard_def)

lemma guard_simps [simp]: "guard True e = Inr ()" "guard False e = Inl e"
  by (simp_all add: guard_def)

lemma of_opt_Inr_iff [result_simps]: "of_opt e m = Inr x \<longleftrightarrow> m = Some x"
  by (cases m) (auto simp: of_opt_def)

lemma of_opt_Inl_iff [result_simps]: "of_opt e m = Inl e' \<longleftrightarrow> m = None \<and> e' = e"
  by (cases m) (auto simp: of_opt_def)

lemma of_opt_simps [simp]: "of_opt e None = Inl e" "of_opt e (Some x) = Inr x"
  by (simp_all add: of_opt_def)

lemma map_err_Inr_iff [result_simps]: "map_err f m = Inr x \<longleftrightarrow> m = Inr x"
  by (cases m) (auto simp: map_err_def)

lemma map_err_Inl_iff [result_simps]: "map_err f m = Inl e \<longleftrightarrow> (\<exists>e'. m = Inl e' \<and> e = f e')"
  by (cases m) (auto simp: map_err_def)

lemma map_err_simps [simp]: "map_err f (Inl e) = Inl (f e)" "map_err f (Inr x) = Inr x"
  by (simp_all add: map_err_def)

text \<open>Elimination rules for a successful run, for long handlers.\<close>

lemma rbind_InrE: "rbind m f = Inr y \<Longrightarrow> (\<And>x. m = Inr x \<Longrightarrow> f x = Inr y \<Longrightarrow> P) \<Longrightarrow> P"
  by (auto simp: result_simps)

lemma guard_InrE: "guard ok e = Inr u \<Longrightarrow> (ok \<Longrightarrow> P) \<Longrightarrow> P"
  by (auto simp: result_simps)

lemma of_opt_InrE: "of_opt e m = Inr x \<Longrightarrow> (m = Some x \<Longrightarrow> P) \<Longrightarrow> P"
  by (auto simp: result_simps)

lemma map_err_InrE: "map_err f m = Inr x \<Longrightarrow> (m = Inr x \<Longrightarrow> P) \<Longrightarrow> P"
  by (auto simp: result_simps)

lemma Inr_InrE: "Inr x = (Inr y :: 'e + 'a) \<Longrightarrow> (y = x \<Longrightarrow> P) \<Longrightarrow> P"
  by auto

lemmas run_elims = rbind_InrE guard_InrE of_opt_InrE map_err_InrE Inr_InrE

text \<open>An invariant of the loop body is an invariant of the whole loop.\<close>

lemma fold_res_invariant:
  assumes "fold_res f xs s = Inr s'" and "P s"
    and "\<And>x s s'. x \<in> set xs \<Longrightarrow> P s \<Longrightarrow> f x s = Inr s' \<Longrightarrow> P s'"
  shows "P s'"
  using assms
proof (induction xs arbitrary: s)
  case Nil
  then show ?case by simp
next
  case (Cons x xs)
  from Cons.prems(1) obtain s1 where s1: "f x s = Inr s1" "fold_res f xs s1 = Inr s'"
    by (auto simp: result_simps)
  have "P s1" using Cons.prems(2) s1(1) by (rule Cons.prems(3)[rotated]) simp
  with s1(2) show ?case using Cons.prems(3) by (intro Cons.IH) auto
qed

lemma fold_res_append:
  "fold_res f (xs @ ys) s = rbind (fold_res f xs s) (fold_res f ys)"
  by (induction xs arbitrary: s) (auto simp: rbind_def split: sum.splits)

section \<open>Tables as lists of rows\<close>

definition tbl_update :: "('r \<Rightarrow> bool) \<Rightarrow> ('r \<Rightarrow> 'r) \<Rightarrow> 'r list \<Rightarrow> 'r list" where
  "tbl_update p f rows = map (\<lambda>r. if p r then f r else r) rows"

definition tbl_delete :: "('r \<Rightarrow> bool) \<Rightarrow> 'r list \<Rightarrow> 'r list" where
  "tbl_delete p rows = filter (\<lambda>r. \<not> p r) rows"

definition tbl_insert :: "('r \<Rightarrow> 'r \<Rightarrow> bool) \<Rightarrow> 'r \<Rightarrow> 'r list \<Rightarrow> 'r list option" where
  "tbl_insert clash r rows = (if list_ex (clash r) rows then None else Some (rows @ [r]))"

definition tbl_affected :: "('r \<Rightarrow> bool) \<Rightarrow> 'r list \<Rightarrow> nat" where
  "tbl_affected p rows = length (filter p rows)"

lemma set_tbl_update [tbl_simps]:
  "set (tbl_update p f rows) = {r \<in> set rows. \<not> p r} \<union> f ` {r \<in> set rows. p r}"
  by (auto simp: tbl_update_def)

lemma set_tbl_delete [tbl_simps]: "set (tbl_delete p rows) = {r \<in> set rows. \<not> p r}"
  by (auto simp: tbl_delete_def)

lemma tbl_insert_Some [tbl_simps]:
  "tbl_insert clash r rows = Some rows' \<longleftrightarrow>
     (\<forall>r'\<in>set rows. \<not> clash r r') \<and> rows' = rows @ [r]"
  by (auto simp: tbl_insert_def list_ex_iff)

lemma tbl_insert_None [tbl_simps]:
  "tbl_insert clash r rows = None \<longleftrightarrow> (\<exists>r'\<in>set rows. clash r r')"
  by (auto simp: tbl_insert_def list_ex_iff)

lemma length_tbl_update [simp]: "length (tbl_update p f rows) = length rows"
  by (simp add: tbl_update_def)

lemma tbl_update_Nil [simp]: "tbl_update p f [] = []"
  by (simp add: tbl_update_def)

lemma tbl_update_Cons [simp]:
  "tbl_update p f (r # rows) = (if p r then f r else r) # tbl_update p f rows"
  by (simp add: tbl_update_def)

lemma tbl_update_append [simp]:
  "tbl_update p f (rows @ rows') = tbl_update p f rows @ tbl_update p f rows'"
  by (simp add: tbl_update_def)

lemma tbl_update_none: "(\<And>r. r \<in> set rows \<Longrightarrow> \<not> p r) \<Longrightarrow> tbl_update p f rows = rows"
  by (induction rows) auto

lemma map_tbl_update: "(\<And>r. key (f r) = key r) \<Longrightarrow> map key (tbl_update p f rows) = map key rows"
  by (induction rows) auto

lemma find_Some_iff2: "List.find p xs = Some x \<Longrightarrow> x \<in> set xs \<and> p x"
  by (induction xs) (auto split: if_splits)

lemma find_None_append [simp]:
  "List.find p (xs @ ys) = (case List.find p xs of None \<Rightarrow> List.find p ys | Some x \<Rightarrow> Some x)"
  by (induction xs) auto

lemma find_tbl_update_stable:
  "(\<And>r. p (f r) = p r) \<Longrightarrow>
   List.find p (tbl_update q f rows) = map_option (\<lambda>r. if q r then f r else r) (List.find p rows)"
  by (induction rows) auto

lemma list_ex_Bex: "list_ex p xs \<longleftrightarrow> (\<exists>x\<in>set xs. p x)"
  by (simp add: list_ex_iff)

section \<open>Uniqueness constraints\<close>

text \<open>
  \<open>keyed_table key clash\<close> is the contract of a \<open>PRIMARY KEY\<close> or \<open>UNIQUE\<close> constraint: the
  conflict test of an insert contains equality of the key. Its lemmas are what the components
  use: keys stay distinct, and a row is found again by its key.
\<close>

locale keyed_table =
  fixes key :: "'r \<Rightarrow> 'k"
    and clash :: "'r \<Rightarrow> 'r \<Rightarrow> bool"
  assumes clash_key: "key r = key r' \<Longrightarrow> clash r r'"
begin

lemma insert_distinct:
  assumes "tbl_insert clash r rows = Some rows'" and "distinct (map key rows)"
  shows "distinct (map key rows')"
  using assms by (auto simp: tbl_insert_Some dest: clash_key)

lemma insert_fresh:
  assumes "tbl_insert clash r rows = Some rows'"
  shows "key r \<notin> key ` set rows"
  using assms by (auto simp: tbl_insert_Some dest: clash_key)

lemma update_distinct:
  assumes "distinct (map key rows)" and "\<And>r. key (f r) = key r"
  shows "distinct (map key (tbl_update p f rows))"
  using assms by (simp add: map_tbl_update)

lemma delete_distinct:
  assumes "distinct (map key rows)"
  shows "distinct (map key (tbl_delete p rows))"
  using assms by (simp add: tbl_delete_def distinct_map_filter)

lemma key_unique:
  assumes "distinct (map key rows)" "r \<in> set rows" "r' \<in> set rows" "key r = key r'"
  shows "r = r'"
  using assms by (metis distinct_map inj_onD)

lemma find_key:
  assumes "distinct (map key rows)" and "r \<in> set rows"
  shows "List.find (\<lambda>x. key x = key r) rows = Some r"
proof -
  obtain r' where r': "List.find (\<lambda>x. key x = key r) rows = Some r'"
    using assms(2) by (cases "List.find (\<lambda>x. key x = key r) rows") (auto simp: find_None_iff)
  then have "r' \<in> set rows" "key r' = key r" by (auto dest: find_Some_iff2)
  with assms r' show ?thesis by (metis key_unique)
qed

lemma find_inserted:
  assumes "tbl_insert clash r rows = Some rows'"
  shows "List.find (\<lambda>x. key x = key r) rows' = Some r"
proof -
  have "key x \<noteq> key r" if "x \<in> set rows" for x
    using insert_fresh[OF assms] that by (metis image_eqI)
  then have "List.find (\<lambda>x. key x = key r) rows = None"
    by (simp add: find_None_iff)
  with assms show ?thesis by (auto simp: tbl_insert_Some)
qed

lemma find_other:
  assumes "tbl_insert clash r rows = Some rows'" and "k \<noteq> key r"
  shows "List.find (\<lambda>x. key x = k) rows' = List.find (\<lambda>x. key x = k) rows"
  using assms by (auto simp: tbl_insert_Some split: option.splits)

end

end
