(* ===== verification/Go_Text.thy ===== *)
theory Go_Text
  imports Prelude
begin

text \<open>
  The parts of Go's text libraries the program relies on, on byte strings: UTF-8 decoding and
  encoding (\<open>unicode/utf8\<close>, \<open>range\<close> over a string, \<open>[]rune\<close> conversion), \<open>strings.TrimSpace\<close>,
  \<open>unicode.IsSpace\<close> and \<open>unicode.IsControl\<close>, \<open>encoding/json\<close> output with HTML escaping,
  \<open>encoding/hex\<close>, \<open>encoding/base64\<close> (raw URL alphabet) and decimal numbers. The main fact is the
  UTF-8 round trip: decoding the encoding of a list of Unicode scalar values gives the list back.
\<close>

section \<open>UTF-8\<close>

definition byte_at :: "nat \<Rightarrow> string \<Rightarrow> nat" where
  "byte_at i s = (if i < length s then of_char (s ! i) else 0)"

definition in_range :: "nat \<Rightarrow> nat \<Rightarrow> nat \<Rightarrow> bool" where
  "in_range lo hi b \<longleftrightarrow> lo \<le> b \<and> b \<le> hi"

text \<open>\<open>decode_rune s\<close> is Go's \<open>utf8.DecodeRuneInString\<close>: the rune and its width; an invalid
  sequence is \<open>(RuneError, 1)\<close>. A missing byte reads as 0, which no continuation range holds.\<close>

definition rune_error :: nat where "rune_error = 65533"

definition decode_rune :: "string \<Rightarrow> nat \<times> nat" where
  "decode_rune s =
    (let b0 = byte_at 0 s; b1 = byte_at 1 s; b2 = byte_at 2 s; b3 = byte_at 3 s in
     if s = [] then (rune_error, 0)
     else if b0 < 128 then (b0, 1)
     else if in_range 194 223 b0 \<and> in_range 128 191 b1 then ((b0 - 192) * 64 + (b1 - 128), 2)
     else if in_range 224 239 b0
        \<and> in_range (if b0 = 224 then 160 else 128) (if b0 = 237 then 159 else 191) b1
        \<and> in_range 128 191 b2
       then ((b0 - 224) * 4096 + (b1 - 128) * 64 + (b2 - 128), 3)
     else if in_range 240 244 b0
        \<and> in_range (if b0 = 240 then 144 else 128) (if b0 = 244 then 143 else 191) b1
        \<and> in_range 128 191 b2 \<and> in_range 128 191 b3
       then ((b0 - 240) * 262144 + (b1 - 128) * 4096 + (b2 - 128) * 64 + (b3 - 128), 4)
     else (rune_error, 1))"

definition valid_rune :: "nat \<Rightarrow> bool" where
  "valid_rune r \<longleftrightarrow> r < 55296 \<or> 57343 < r \<and> r \<le> 1114111"

definition encode_rune :: "nat \<Rightarrow> string" where
  "encode_rune r0 =
    (let r = (if valid_rune r0 then r0 else rune_error) in
     if r < 128 then [char_of r]
     else if r < 2048 then [char_of (192 + r div 64), char_of (128 + r mod 64)]
     else if r < 65536 then
       [char_of (224 + r div 4096), char_of (128 + r div 64 mod 64), char_of (128 + r mod 64)]
     else [char_of (240 + r div 262144), char_of (128 + r div 4096 mod 64),
           char_of (128 + r div 64 mod 64), char_of (128 + r mod 64)])"

text \<open>\<open>range_string s\<close> is the loop \<open>for _, r := range s\<close>: every rune with the bytes it was decoded from.\<close>

function range_string :: "string \<Rightarrow> (nat \<times> string) list" where
  "range_string s =
    (if s = [] then []
     else let (r, w) = decode_rune s in (r, take w s) # range_string (drop (max 1 w) s))"
  by pat_completeness auto
termination
  by (relation "measure length") auto

declare range_string.simps [simp del]

definition runes_of :: "string \<Rightarrow> nat list" where
  "runes_of s = map fst (range_string s)"

definition string_of_runes :: "nat list \<Rightarrow> string" where
  "string_of_runes rs = concat (map encode_rune rs)"

definition valid_utf8 :: "string \<Rightarrow> bool" where
  "valid_utf8 s \<longleftrightarrow> list_all (\<lambda>(r, bs). \<not> (r = rune_error \<and> length bs = 1)) (range_string s)"

section \<open>Spaces and control characters\<close>

definition is_space_rune :: "nat \<Rightarrow> bool" where
  "is_space_rune r \<longleftrightarrow> in_range 9 13 r \<or> r = 32 \<or> r = 133 \<or> r = 160 \<or> r = 5760 \<or>
     in_range 8192 8202 r \<or> r = 8232 \<or> r = 8233 \<or> r = 8239 \<or> r = 8287 \<or> r = 12288"

definition is_control_rune :: "nat \<Rightarrow> bool" where
  "is_control_rune r \<longleftrightarrow> r < 32 \<or> in_range 127 159 r"

definition trim_space :: "string \<Rightarrow> string" where
  "trim_space s =
    (let sp = (\<lambda>(r, bs). is_space_rune r);
         front = dropWhile sp (range_string s)
     in concat (map snd (rev (dropWhile sp (rev front)))))"

definition contains_any :: "string \<Rightarrow> string \<Rightarrow> bool" where
  "contains_any s cs \<longleftrightarrow> list_ex (\<lambda>c. c \<in> set cs) s"

section \<open>Numbers, hex and base64\<close>

function dec_digits :: "nat \<Rightarrow> string" where
  "dec_digits n = (if n < 10 then [char_of (48 + n)] else dec_digits (n div 10) @ [char_of (48 + n mod 10)])"
  by pat_completeness auto
termination
  by (relation "measure id") auto

declare dec_digits.simps [simp del]

definition format_int :: "int \<Rightarrow> string" where
  "format_int i = (if i < 0 then CHR ''-'' # dec_digits (nat (- i)) else dec_digits (nat i))"

definition hex_digit :: "nat \<Rightarrow> char" where
  "hex_digit n = (if n < 10 then char_of (48 + n) else char_of (87 + n))"

definition hex_encode :: "string \<Rightarrow> string" where
  "hex_encode s = concat (map (\<lambda>c. [hex_digit (of_char c div 16), hex_digit (of_char c mod 16)]) s)"

definition base64url_char :: "nat \<Rightarrow> char" where
  "base64url_char n =
    (if n < 26 then char_of (65 + n) else if n < 52 then char_of (71 + n)
     else if n < 62 then char_of (n - 4) else if n = 62 then CHR ''-'' else CHR ''_'')"

fun base64url :: "string \<Rightarrow> string" where
  "base64url [] = []"
| "base64url [a] =
     [base64url_char (of_char a div 4), base64url_char (of_char a mod 4 * 16)]"
| "base64url [a, b] =
     [base64url_char (of_char a div 4), base64url_char (of_char a mod 4 * 16 + of_char b div 16),
      base64url_char (of_char b mod 16 * 4)]"
| "base64url (a # b # c # rest) =
     [base64url_char (of_char a div 4), base64url_char (of_char a mod 4 * 16 + of_char b div 16),
      base64url_char (of_char b mod 16 * 4 + of_char c div 64), base64url_char (of_char c mod 64)]
     @ base64url rest"

section \<open>JSON output\<close>

datatype json = JStr string | JInt int | JBool bool | JNull | JArr "json list" | JObj "(string \<times> json) list"

definition json_escape_rune :: "nat \<Rightarrow> string \<Rightarrow> string" where
  "json_escape_rune r bs =
    (if r < 128 then
       (if r = 34 \<or> r = 92 then CHR 0x5C # bs
        else if r = 8 then [CHR 0x5C, CHR ''b''] else if r = 12 then [CHR 0x5C, CHR ''f'']
        else if r = 10 then [CHR 0x5C, CHR ''n''] else if r = 13 then [CHR 0x5C, CHR ''r'']
        else if r = 9 then [CHR 0x5C, CHR ''t'']
        else if r < 32 \<or> r = 60 \<or> r = 62 \<or> r = 38
          then CHR 0x5C # ''u00'' @ [hex_digit (r div 16), hex_digit (r mod 16)]
        else bs)
     else if r = rune_error \<and> length bs = 1 then CHR 0x5C # ''ufffd''
     else if r = 8232 then CHR 0x5C # ''u2028'' else if r = 8233 then CHR 0x5C # ''u2029''
     else bs)"

definition json_string :: "string \<Rightarrow> string" where
  "json_string s = CHR 0x22 # concat (map (\<lambda>(r, bs). json_escape_rune r bs) (range_string s)) @ [CHR 0x22]"

fun join_with :: "string \<Rightarrow> string list \<Rightarrow> string" where
  "join_with sep [] = []"
| "join_with sep [x] = x"
| "join_with sep (x # y # ys) = x @ sep @ join_with sep (y # ys)"

fun json_encode :: "json \<Rightarrow> string" where
  "json_encode (JStr s) = json_string s"
| "json_encode (JInt i) = format_int i"
| "json_encode (JBool b) = (if b then ''true'' else ''false'')"
| "json_encode JNull = ''null''"
| "json_encode (JArr xs) = ''['' @ join_with '','' (map json_encode xs) @ '']''"
| "json_encode (JObj kvs) =
     ''{'' @ join_with '','' (map (\<lambda>(k, v). json_string k @ '':'' @ json_encode v) kvs) @ ''}''"

text \<open>The \<open>omitempty\<close> tag drops a field that holds its zero value.\<close>

definition omit_str :: "string \<Rightarrow> string \<Rightarrow> (string \<times> json) list" where
  "omit_str k s = (if s = [] then [] else [(k, JStr s)])"

definition omit_nat :: "string \<Rightarrow> nat \<Rightarrow> (string \<times> json) list" where
  "omit_nat k n = (if n = 0 then [] else [(k, JInt (int n))])"

definition omit_arr :: "string \<Rightarrow> json list \<Rightarrow> (string \<times> json) list" where
  "omit_arr k xs = (if xs = [] then [] else [(k, JArr xs)])"

section \<open>The UTF-8 round trip\<close>

lemma of_char_char_of_small: "n < 256 \<Longrightarrow> of_char (char_of n :: char) = (n::nat)"
  by (simp add: of_char_of)

lemma byte_at_simps [simp]:
  "byte_at 0 (c # s) = of_char c" "byte_at (Suc 0) (c # d # s) = of_char d"
  "byte_at 2 (c # d # e # s) = of_char e" "byte_at 3 (c # d # e # f # s) = of_char f"
  by (simp_all add: byte_at_def)

lemma decode_encode_1:
  assumes "r < 128"
  shows "decode_rune (encode_rune r @ s) = (r, length (encode_rune r))"
  using assms by (simp add: decode_rune_def encode_rune_def valid_rune_def of_char_char_of_small Let_def)

lemma decode_encode_2:
  assumes "128 \<le> r" "r < 2048"
  shows "decode_rune (encode_rune r @ s) = (r, length (encode_rune r))"
proof -
  have "194 \<le> 192 + r div 64" "192 + r div 64 \<le> 223" using assms by linarith+
  moreover have "r mod 64 < 64" by simp
  moreover have "r div 64 * 64 + r mod 64 = r" by simp
  moreover have "encode_rune r = [char_of (192 + r div 64), char_of (128 + r mod 64)]"
    using assms by (simp add: encode_rune_def valid_rune_def)
  ultimately show ?thesis
    by (simp add: decode_rune_def of_char_char_of_small Let_def in_range_def)
qed

lemma div_chain: "(r::nat) div 4096 = r div 64 div 64" "r div 262144 = r div 64 div 64 div 64"
  by (simp_all add: div_mult2_eq[symmetric])

lemma decode_encode_3:
  assumes "2048 \<le> r" "r < 65536" "valid_rune r"
  shows "decode_rune (encode_rune r @ s) = (r, length (encode_rune r))"
proof -
  define q a where "q = r div 64" and "a = r mod 64"
  define t b where "t = q div 64" and "b = q mod 64"
  have r: "r = q * 64 + a" and a: "a < 64" by (simp_all add: q_def a_def)
  have q: "q = t * 64 + b" and b: "b < 64" by (simp_all add: t_def b_def)
  have t: "t \<le> 15" using assms(2) r q a b by linarith
  have e: "encode_rune r = [char_of (224 + t), char_of (128 + b), char_of (128 + a)]"
    using assms by (simp add: encode_rune_def div_chain q_def a_def t_def b_def Let_def)
  have low: "t = 0 \<Longrightarrow> 160 \<le> 128 + b" using assms(1) r q a by simp
  have sur: "t = 13 \<Longrightarrow> 128 + b \<le> 159"
    using assms(3) r q a b by (auto simp: valid_rune_def)
  show ?thesis
    using a b t low sur unfolding e
    by (auto simp: decode_rune_def of_char_char_of_small Let_def in_range_def r q algebra_simps)
qed

lemma decode_encode_4:
  assumes "65536 \<le> r" "valid_rune r"
  shows "decode_rune (encode_rune r @ s) = (r, length (encode_rune r))"
proof -
  define q a where "q = r div 64" and "a = r mod 64"
  define t b where "t = q div 64" and "b = q mod 64"
  define u c where "u = t div 64" and "c = t mod 64"
  have r: "r = q * 64 + a" and a: "a < 64" by (simp_all add: q_def a_def)
  have q: "q = t * 64 + b" and b: "b < 64" by (simp_all add: t_def b_def)
  have tt: "t = u * 64 + c" and c: "c < 64" by (simp_all add: u_def c_def)
  have ub: "r \<le> 1114111" using assms by (auto simp: valid_rune_def)
  have u: "u \<le> 4" using ub r q tt a b c by linarith
  have e: "encode_rune r = [char_of (240 + u), char_of (128 + c), char_of (128 + b), char_of (128 + a)]"
    using assms by (simp add: encode_rune_def div_chain q_def a_def t_def b_def u_def c_def Let_def)
  have low: "u = 0 \<Longrightarrow> 144 \<le> 128 + c" using assms(1) r q tt a b c by simp
  have high: "u = 4 \<Longrightarrow> 128 + c \<le> 143" using ub r q tt a b c by simp
  show ?thesis
    using a b c u low high unfolding e
    by (auto simp: decode_rune_def of_char_char_of_small Let_def in_range_def r q tt algebra_simps)
qed

lemma decode_encode_rune:
  assumes "valid_rune r"
  shows "decode_rune (encode_rune r @ s) = (r, length (encode_rune r))"
  using decode_encode_1[of r s] decode_encode_2[of r s] decode_encode_3[of r s]
    decode_encode_4[of r s] assms by (cases "r < 128"; cases "r < 2048"; cases "r < 65536") auto

lemma encode_rune_nonempty [simp]: "encode_rune r \<noteq> []"
  by (simp add: encode_rune_def Let_def)

lemma range_string_Nil [simp]: "range_string [] = []"
  by (simp add: range_string.simps)

lemma range_string_encode:
  assumes "valid_rune r"
  shows "range_string (encode_rune r @ s) = (r, encode_rune r) # range_string s"
proof -
  have "length (encode_rune r) \<ge> 1"
    by (cases "encode_rune r") auto
  then show ?thesis
    by (subst range_string.simps) (simp add: decode_encode_rune[OF assms])
qed

lemma range_string_of_runes:
  assumes "list_all valid_rune rs"
  shows "range_string (string_of_runes rs) = map (\<lambda>r. (r, encode_rune r)) rs"
  using assms by (induction rs) (simp_all add: string_of_runes_def range_string_encode)

lemma valid_rune_decode: "s \<noteq> [] \<Longrightarrow> valid_rune (fst (decode_rune s))"
  by (auto simp: decode_rune_def Let_def rune_error_def valid_rune_def in_range_def)

lemma runes_of_valid: "list_all valid_rune (runes_of s)"
proof (induction s rule: range_string.induct)
  case (1 s)
  show ?case
  proof (cases "s = []")
    case True
    then show ?thesis by (simp add: runes_of_def)
  next
    case False
    with 1 valid_rune_decode[of s] show ?thesis
      by (auto simp: runes_of_def range_string.simps[of s] split: prod.splits)
  qed
qed

lemma byte_at_pos_length: "0 < byte_at i s \<Longrightarrow> i < length s"
  by (auto simp: byte_at_def split: if_splits)

lemma char_of_byte_at: "i < length s \<Longrightarrow> char_of (byte_at i s) = s ! i"
  by (simp add: byte_at_def)

lemma take_1_2_3_4:
  "0 < length s \<Longrightarrow> take (Suc 0) s = [s ! 0]"
  "Suc 0 < length s \<Longrightarrow> take 2 s = [s ! 0, s ! Suc 0]"
  "2 < length s \<Longrightarrow> take 3 s = [s ! 0, s ! Suc 0, s ! 2]"
  "3 < length s \<Longrightarrow> take 4 s = [s ! 0, s ! Suc 0, s ! 2, s ! 3]"
  by (auto simp: numeral_eq_Suc Suc_le_length_iff simp flip: Suc_le_eq)

lemma split_base_64: "z < 64 \<Longrightarrow> (q * 64 + z) div 64 = q \<and> (q * 64 + z) mod 64 = (z :: nat)"
  by simp

lemma encode_decode_rune:
  assumes "s \<noteq> []" "decode_rune s = (r, w)" "\<not> (r = rune_error \<and> w = 1)"
  shows "encode_rune r = take w s"
proof -
  define b0 b1 b2 b3 where b: "b0 = byte_at 0 s" "b1 = byte_at 1 s" "b2 = byte_at 2 s" "b3 = byte_at 3 s"
  have len0: "0 < length s" using assms(1) by simp
  have val: "valid_rune r" using valid_rune_decode[OF assms(1)] assms(2) by simp
  consider (one) "b0 < 128" "r = b0" "w = 1"
    | (two) "in_range 194 223 b0" "in_range 128 191 b1" "r = (b0 - 192) * 64 + (b1 - 128)" "w = 2"
    | (three) "in_range 224 239 b0" "in_range 128 191 b1" "in_range 128 191 b2"
        "b0 = 224 \<longrightarrow> 160 \<le> b1" "r = (b0 - 224) * 4096 + (b1 - 128) * 64 + (b2 - 128)" "w = 3"
    | (four) "in_range 240 244 b0" "in_range 128 191 b1" "in_range 128 191 b2" "in_range 128 191 b3"
        "b0 = 240 \<longrightarrow> 144 \<le> b1"
        "r = (b0 - 240) * 262144 + (b1 - 128) * 4096 + (b2 - 128) * 64 + (b3 - 128)" "w = 4"
    using assms unfolding decode_rune_def b[symmetric] Let_def
    by (auto simp: in_range_def split: if_splits)
  then show ?thesis
  proof cases
    case one
    then show ?thesis
      using len0 b by (simp add: encode_rune_def valid_rune_def take_1_2_3_4 char_of_byte_at)
  next
    case two
    define x y where xy: "x = b0 - 192" "y = b1 - 128"
    have x: "2 \<le> x" "x \<le> 31" "b0 = 192 + x" and y: "y < 64" "b1 = 128 + y"
      using two xy by (auto simp: in_range_def)
    have l: "1 < length s" using byte_at_pos_length[of 1 s] y b by simp
    have "r = x * 64 + y" using two xy by simp
    then have "encode_rune r = [char_of b0, char_of b1]"
      using x y val by (simp add: encode_rune_def)
    then show ?thesis
      using two(4) l len0 b char_of_byte_at[of 0 s] char_of_byte_at[of 1 s] by (simp add: take_1_2_3_4)
  next
    case three
    define x y z where xyz: "x = b0 - 224" "y = b1 - 128" "z = b2 - 128"
    have x: "x \<le> 15" "b0 = 224 + x" and y: "y < 64" "b1 = 128 + y" and z: "z < 64" "b2 = 128 + z"
      and xy: "x = 0 \<longrightarrow> 32 \<le> y"
      using three xyz by (auto simp: in_range_def)
    have l: "2 < length s" using byte_at_pos_length[of 2 s] z b by simp
    have r: "r = (x * 64 + y) * 64 + z" using three xyz by simp
    then have rq: "r div 64 = x * 64 + y" "r mod 64 = z" using split_base_64[OF z(1)] by blast+
    have big: "2048 \<le> r" "r < 65536" using r x y z xy by (cases "x = 0"; simp)+
    have "encode_rune r = [char_of b0, char_of b1, char_of b2]"
      using x y z big val by (simp add: encode_rune_def div_chain rq)
    then show ?thesis
      using three(6) l len0 b char_of_byte_at[of 0 s] char_of_byte_at[of 1 s] char_of_byte_at[of 2 s]
      by (simp add: take_1_2_3_4)
  next
    case four
    define x y z v where xyz: "x = b0 - 240" "y = b1 - 128" "z = b2 - 128" "v = b3 - 128"
    have x: "x \<le> 4" "b0 = 240 + x" and y: "y < 64" "b1 = 128 + y" and z: "z < 64" "b2 = 128 + z"
      and v: "v < 64" "b3 = 128 + v" and xy: "x = 0 \<longrightarrow> 16 \<le> y"
      using four xyz by (auto simp: in_range_def)
    have l: "3 < length s" using byte_at_pos_length[of 3 s] v b by simp
    have r: "r = ((x * 64 + y) * 64 + z) * 64 + v" using four xyz by simp
    then have rq: "r div 64 = (x * 64 + y) * 64 + z" "r mod 64 = v" using split_base_64[OF v(1)] by blast+
    have big: "65536 \<le> r" using r x y z xy by (cases "x = 0"; simp)
    have "encode_rune r = [char_of b0, char_of b1, char_of b2, char_of b3]"
      using x y z v big val split_base_64[OF z(1), of "x * 64 + y"] split_base_64[OF y(1), of x]
      by (simp add: encode_rune_def div_chain rq del: add_mult_distrib add_mult_distrib2 distrib_left_numeral distrib_right_numeral)
    then show ?thesis
      using four(7) l len0 b char_of_byte_at[of 0 s] char_of_byte_at[of 1 s] char_of_byte_at[of 2 s]
        char_of_byte_at[of 3 s] by (simp add: take_1_2_3_4)
  qed
qed

lemma decode_rune_width: "s \<noteq> [] \<Longrightarrow> 1 \<le> snd (decode_rune s) \<and> snd (decode_rune s) \<le> length s"
  using byte_at_pos_length[of 1 s] byte_at_pos_length[of 2 s] byte_at_pos_length[of 3 s]
  by (auto simp: decode_rune_def Let_def in_range_def Suc_le_eq)

lemma runes_roundtrip:
  assumes "valid_utf8 s"
  shows "string_of_runes (runes_of s) = s"
  using assms
proof (induction s rule: range_string.induct)
  case (1 s)
  show ?case
  proof (cases "s = []")
    case True
    then show ?thesis by (simp add: runes_of_def string_of_runes_def)
  next
    case False
    obtain r w where rw: "decode_rune s = (r, w)" by (cases "decode_rune s")
    have w: "1 \<le> w" "w \<le> length s" using decode_rune_width[OF False] rw by auto
    have step: "range_string s = (r, take w s) # range_string (drop w s)"
      using False rw w by (simp add: range_string.simps[of s] max_def)
    have ok: "\<not> (r = rune_error \<and> w = 1)" and rest: "valid_utf8 (drop w s)"
      using "1.prems" w by (auto simp: valid_utf8_def step)
    have "string_of_runes (runes_of (drop w s)) = drop w s"
      using "1.IH"[OF False rw[symmetric]] rest w by (simp add: max_def)
    then show ?thesis
      using encode_decode_rune[OF False rw ok]
      by (simp add: runes_of_def string_of_runes_def step)
  qed
qed

section \<open>ASCII strings\<close>

definition ascii :: "string \<Rightarrow> bool" where
  "ascii s \<longleftrightarrow> list_all (\<lambda>c. of_char c < (128 :: nat)) s"

lemma range_string_ascii_Cons:
  assumes "of_char c < (128 :: nat)"
  shows "range_string (c # s) = (of_char c, [c]) # range_string s"
proof -
  have "decode_rune (c # s) = (of_char c, 1)" using assms by (simp add: decode_rune_def)
  then show ?thesis by (subst range_string.simps) simp
qed

lemma range_string_ascii: "ascii s \<Longrightarrow> range_string s = map (\<lambda>c. (of_char c, [c])) s"
  by (induction s) (auto simp: ascii_def range_string_ascii_Cons)

lemma ascii_valid_utf8: "ascii s \<Longrightarrow> valid_utf8 s"
  by (simp add: valid_utf8_def range_string_ascii ascii_def list_all_iff rune_error_def)
     fastforce

lemma ascii_runes_of: "ascii s \<Longrightarrow> runes_of s = map of_char s"
  by (simp add: runes_of_def range_string_ascii o_def)

lemma ascii_trim_space:
  assumes "ascii s" "s \<noteq> []" "\<not> is_space_rune (of_char (hd s))" "\<not> is_space_rune (of_char (last s))"
  shows "trim_space s = s"
proof -
  obtain c r where s: "s = c # r" using assms(2) by (cases s) auto
  obtain r' d where s': "s = r' @ [d]" using assms(2) by (cases s rule: rev_cases) auto
  have "dropWhile (\<lambda>(r, bs). is_space_rune r) (range_string s) = range_string s"
    using assms by (simp add: range_string_ascii s)
  moreover have "dropWhile (\<lambda>(r, bs). is_space_rune r) (rev (range_string s)) = rev (range_string s)"
    using assms by (simp add: range_string_ascii s')
  ultimately show ?thesis
    using assms(1) by (simp add: trim_space_def Let_def range_string_ascii o_def)
qed

text \<open>The facts that evaluate the text checks on a literal.\<close>

lemma ascii_simps [simp]: "ascii []" "ascii (c # s) \<longleftrightarrow> of_char c < (128 :: nat) \<and> ascii s"
  by (simp_all add: ascii_def)

lemmas text_eval = ascii_valid_utf8 ascii_runes_of ascii_trim_space is_space_rune_def
  is_control_rune_def in_range_def

end
