(* ===== verification/Go_Time.thy ===== *)
theory Go_Time
  imports Go_Text
begin

text \<open>
  Instants and their text encodings. An instant is the number of nanoseconds since the Unix
  epoch (UTC), which is what \<open>time.Time\<close> compares; a timestamp column of the database is
  modelled by the instant its text denotes, and wherever SQLite itself compares two such texts
  the model compares the texts produced here. \<open>formatTime\<close> is RFC3339Nano, which drops trailing
  zeros of the fraction; \<open>formatScheduleTime\<close> is the fixed-width layout of the scheduler columns.
  The calendar is the proleptic Gregorian one, as in Go. The main results: the schedule encoding
  is order preserving on the years 0..9999, RFC3339Nano is not.
\<close>

type_synonym instant = int
type_synonym duration = int

definition second_ns :: int where "second_ns = 1000000000"
definition day_ns :: int where "day_ns = 86400 * 1000000000"

definition year_start :: "int \<Rightarrow> int" where
  "year_start y = 365 * y + (y + 3) div 4 - (y + 99) div 100 + (y + 399) div 400"

definition year_of_day :: "int \<Rightarrow> int" where
  "year_of_day d =
    (let e = d * 400 div 146097 in
     if d < year_start e then e - 1 else if year_start (e + 1) \<le> d then e + 1 else e)"

definition leap_year :: "int \<Rightarrow> bool" where
  "leap_year y \<longleftrightarrow> y mod 4 = 0 \<and> (y mod 100 \<noteq> 0 \<or> y mod 400 = 0)"

definition month_start :: "bool \<Rightarrow> int \<Rightarrow> int" where
  "month_start leap m =
    (if m \<le> 1 then 0 else if m = 2 then 31
     else (if m = 3 then 59 else if m = 4 then 90 else if m = 5 then 120 else if m = 6 then 151
           else if m = 7 then 181 else if m = 8 then 212 else if m = 9 then 243 else if m = 10 then 273
           else if m = 11 then 304 else 334) + (if leap then 1 else 0))"

definition month_of_yday :: "bool \<Rightarrow> int \<Rightarrow> int" where
  "month_of_yday leap yd =
    (if yd < month_start leap 2 then 1 else if yd < month_start leap 3 then 2
     else if yd < month_start leap 4 then 3 else if yd < month_start leap 5 then 4
     else if yd < month_start leap 6 then 5 else if yd < month_start leap 7 then 6
     else if yd < month_start leap 8 then 7 else if yd < month_start leap 9 then 8
     else if yd < month_start leap 10 then 9 else if yd < month_start leap 11 then 10
     else if yd < month_start leap 12 then 11 else 12)"

text \<open>Days are counted from 0000-01-01, which is 719528 days before the Unix epoch.\<close>

definition day_number :: "instant \<Rightarrow> int" where
  "day_number t = t div day_ns + 719528"

definition civil_of :: "instant \<Rightarrow> int \<times> int \<times> int" where
  "civil_of t =
    (let d = day_number t; y = year_of_day d; yd = d - year_start y; m = month_of_yday (leap_year y) yd
     in (y, m, yd - month_start (leap_year y) m + 1))"

definition clock_of :: "instant \<Rightarrow> int \<times> int \<times> int \<times> int" where
  "clock_of t =
    (let n = t mod day_ns
     in (n div (3600 * second_ns), n div (60 * second_ns) mod 60, n div second_ns mod 60, n mod second_ns))"

fun pad_digits :: "nat \<Rightarrow> int \<Rightarrow> string" where
  "pad_digits 0 n = []"
| "pad_digits (Suc w) n = pad_digits w (n div 10) @ [char_of (48 + nat (n mod 10))]"

text \<open>A year needs more than four digits from 10000 on, and a sign below 0.\<close>

definition year_digits :: "int \<Rightarrow> string" where
  "year_digits y = (if 0 \<le> y \<and> y \<le> 9999 then pad_digits 4 y
     else if y < 0 then CHR ''-'' # pad_digits 4 (- y) else format_int y)"

definition date_text :: "instant \<Rightarrow> string" where
  "date_text t = (let (y, m, d) = civil_of t; (hh, mm, ss, ns) = clock_of t in
     year_digits y @ ''-'' @ pad_digits 2 m @ ''-'' @ pad_digits 2 d @ ''T'' @
     pad_digits 2 hh @ '':'' @ pad_digits 2 mm @ '':'' @ pad_digits 2 ss)"

definition fraction_text :: "instant \<Rightarrow> string" where
  "fraction_text t = pad_digits 9 (t mod second_ns)"

definition formatScheduleTime :: "instant \<Rightarrow> string" where
  "formatScheduleTime value = date_text value @ ''.'' @ fraction_text value @ ''Z''"

definition formatTime :: "instant \<Rightarrow> string" where
  "formatTime value =
    (let frac = rev (dropWhile (\<lambda>c. c = CHR ''0'') (rev (fraction_text value)))
     in date_text value @ (if frac = [] then [] else ''.'' @ frac) @ ''Z'')"

definition in_years :: "instant \<Rightarrow> bool" where
  "in_years t \<longleftrightarrow> 0 \<le> day_number t \<and> day_number t < year_start 10000"

section \<open>The calendar\<close>

lemma int_div_bounds:
  fixes y k :: int
  assumes "0 < k"
  shows "k * (y div k) \<le> y" "y < k * (y div k) + k"
  using mult_div_mod_eq[of k y] pos_mod_bound[OF assms, of y] pos_mod_sign[OF assms, of y] by linarith+

lemma year_start_bounds:
  "146097 * y - 396 \<le> 400 * year_start y" "400 * year_start y \<le> 146097 * y + 699"
proof -
  note b = int_div_bounds[of 4 "y + 3"] int_div_bounds[of 100 "y + 99"] int_div_bounds[of 400 "y + 399"]
  show "146097 * y - 396 \<le> 400 * year_start y" using b unfolding year_start_def by simp
  show "400 * year_start y \<le> 146097 * y + 699" using b unfolding year_start_def by simp
qed

lemma year_of_day_bounds:
  "year_start (year_of_day d) \<le> d" "d < year_start (year_of_day d + 1)"
proof -
  define e where "e = d * 400 div 146097"
  have e: "146097 * e \<le> 400 * d" "400 * d < 146097 * (e + 1)" using int_div_bounds[of 146097 "d * 400"] unfolding e_def by simp_all
  have "year_start (e - 1) \<le> d" using year_start_bounds(2)[of "e - 1"] e by (simp add: algebra_simps)
  moreover have "d < year_start (e + 2)" using year_start_bounds(1)[of "e + 2"] e by (simp add: algebra_simps)
  ultimately show "year_start (year_of_day d) \<le> d" "d < year_start (year_of_day d + 1)"
    unfolding year_of_day_def e_def[symmetric] Let_def by (auto simp: algebra_simps)
qed

lemma div_step:
  fixes y j k :: int
  assumes k: "k = j + 1" "0 < k"
  shows "(y + 1 + j) div k = (y + j) div k + (if y mod k = 0 then 1 else 0)"
proof -
  obtain q r where qr: "y = k * q + r" "0 \<le> r" "r < k"
    using k by (metis mult_div_mod_eq pos_mod_bound pos_mod_sign)
  have a: "(y + 1 + j) div k = q + 1"
    by (rule int_div_pos_eq[of _ _ _ r]) (use qr k in \<open>auto simp: algebra_simps\<close>)
  have b: "(y + j) div k = (if r = 0 then q else q + 1)"
  proof (cases "r = 0")
    case True
    have "(y + j) div k = q" by (rule int_div_pos_eq[of _ _ _ j]) (use True qr k in auto)
    with True show ?thesis by simp
  next
    case False
    have "(y + j) div k = q + 1"
      by (rule int_div_pos_eq[of _ _ _ "r - 1"]) (use False qr k in \<open>auto simp: algebra_simps\<close>)
    with False show ?thesis by simp
  qed
  have "y mod k = r" by (rule int_mod_pos_eq[of _ _ q]) (use qr in auto)
  with a b show ?thesis by simp
qed

lemma year_length: "year_start (y + 1) = year_start y + 365 + (if leap_year y then 1 else 0)"
proof -
  have m: "y mod 400 = 0 \<Longrightarrow> y mod 100 = 0" "y mod 100 = 0 \<Longrightarrow> y mod 4 = 0"
    using dvd_trans[of 100 400 y] dvd_trans[of 4 100 y] by (simp_all add: mod_eq_0_iff_dvd)
  have d: "(y + 1 + 3) div 4 = (y + 3) div 4 + (if y mod 4 = 0 then 1 else 0)"
    "(y + 1 + 99) div 100 = (y + 99) div 100 + (if y mod 100 = 0 then 1 else 0)"
    "(y + 1 + 399) div 400 = (y + 399) div 400 + (if y mod 400 = 0 then 1 else 0)"
    by (rule div_step; simp)+
  show ?thesis
    unfolding year_start_def leap_year_def d using m
    by (cases "y mod 400 = 0"; cases "y mod 100 = 0"; cases "y mod 4 = 0") simp_all
qed

lemma year_start_mono: "y \<le> y' \<Longrightarrow> year_start y \<le> year_start y'"
proof (induction y' rule: int_ge_induct)
  case (step i)
  then show ?case using year_length[of i] by simp
qed simp

lemma year_of_day_mono:
  assumes "d \<le> d'"
  shows "year_of_day d \<le> year_of_day d'"
proof (rule ccontr)
  assume "\<not> ?thesis"
  then have "year_start (year_of_day d' + 1) \<le> year_start (year_of_day d)" by (simp add: year_start_mono)
  with year_of_day_bounds(1)[of d] year_of_day_bounds(2)[of d'] assms show False by linarith
qed

lemma month_of_yday_mono: "yd \<le> yd' \<Longrightarrow> month_of_yday l yd \<le> month_of_yday l yd'"
  unfolding month_of_yday_def by (auto simp: month_start_def)

lemma month_of_yday_range:
  assumes "0 \<le> yd" "yd < 365 + (if l then 1 else 0)"
  shows "1 \<le> month_of_yday l yd \<and> month_of_yday l yd \<le> 12 \<and>
    month_start l (month_of_yday l yd) \<le> yd \<and> yd < 31 + month_start l (month_of_yday l yd)"
proof (cases l)
  case True
  then show ?thesis using assms unfolding month_of_yday_def
    by (simp add: month_start_def)
next
  case False
  then show ?thesis using assms unfolding month_of_yday_def
    by (simp add: month_start_def)
qed

section \<open>Fixed-width numbers\<close>

lemma length_pad_digits [simp]: "length (pad_digits w n) = w"
  by (induction w arbitrary: n) auto

lemma lex_append:
  fixes a b a' b' :: string
  assumes "length a = length a'"
  shows "a @ b < a' @ b' \<longleftrightarrow> a < a' \<or> a = a' \<and> b < b'"
  using assms by (induction a a' rule: list_induct2) auto

lemma digit_less: "0 \<le> i \<Longrightarrow> i < 10 \<Longrightarrow> 0 \<le> j \<Longrightarrow> j < 10 \<Longrightarrow>
  char_of (48 + nat i) < (char_of (48 + nat j) :: char) \<longleftrightarrow> i < j"
  by (auto simp: less_char_def of_char_of nat_less_iff)

lemma pad_digits_less:
  "0 \<le> n \<Longrightarrow> n < n' \<Longrightarrow> n' < 10 ^ w \<Longrightarrow> pad_digits w n < pad_digits w n'"
proof (induction w arbitrary: n n')
  case 0
  then show ?case by simp
next
  case (Suc w)
  have le: "n div 10 \<le> n' div 10" using Suc.prems by (simp add: zdiv_mono1)
  have top: "n' div 10 < 10 ^ w" using Suc.prems by (simp add: div_less_iff_less_mult)
  show ?case
  proof (cases "n div 10 = n' div 10")
    case True
    then have "n mod 10 < n' mod 10" using Suc.prems(2) by presburger
    with True show ?thesis by (simp add: lex_append digit_less)
  next
    case False
    with le have "pad_digits w (n div 10) < pad_digits w (n' div 10)"
      using Suc.prems top by (intro Suc.IH) auto
    then show ?thesis by (simp add: lex_append)
  qed
qed

section \<open>Text order\<close>

lemma civil_of_range:
  assumes "in_years t" and "civil_of t = (y, m, d)"
  shows "0 \<le> y" "y \<le> 9999" "1 \<le> m" "m \<le> 12" "1 \<le> d" "d \<le> 31"
proof -
  define n where "n = day_number t"
  have y: "y = year_of_day n" using assms(2) by (simp add: civil_of_def Let_def n_def)
  have b: "year_start y \<le> n" "n < year_start (y + 1)" using year_of_day_bounds y by auto
  have n: "0 \<le> n" "n < year_start 10000" using assms(1) by (auto simp: in_years_def n_def)
  have "year_start 0 = 0" by (simp add: year_start_def)
  then have "\<not> y < 0" using b(2) n(1) year_start_mono[of "y + 1" 0] by auto
  moreover have "\<not> 10000 \<le> y" using b(1) n(2) year_start_mono[of 10000 y] by auto
  ultimately show "0 \<le> y" "y \<le> 9999" by auto
  have yd: "0 \<le> n - year_start y" "n - year_start y < 365 + (if leap_year y then 1 else 0)"
    using b year_length[of y] by auto
  show "1 \<le> m" "m \<le> 12" "1 \<le> d" "d \<le> 31"
    using month_of_yday_range[OF yd] assms(2) y by (auto simp: civil_of_def Let_def n_def)
qed

lemma civil_of_lex:
  assumes "day_number t < day_number t'" "civil_of t = (y, m, d)" "civil_of t' = (y', m', d')"
  shows "y < y' \<or> y = y' \<and> (m < m' \<or> m = m' \<and> d < d')"
  using assms year_of_day_mono[of "day_number t" "day_number t'"]
    month_of_yday_mono[of "day_number t - year_start y" "day_number t' - year_start y" "leap_year y"]
  by (auto simp: civil_of_def Let_def)

lemma clock_of_range:
  assumes "clock_of t = (hh, mm, ss, ns)"
  shows "0 \<le> hh" "hh < 24" "0 \<le> mm" "mm < 60" "0 \<le> ss" "ss < 60" "0 \<le> ns" "ns < 1000000000"
    "t mod day_ns = ((hh * 60 + mm) * 60 + ss) * 1000000000 + ns"
proof -
  define n where "n = t mod day_ns"
  define s where "s = n div second_ns"
  have n: "0 \<le> n" "n < 86400 * 1000000000" by (auto simp: n_def day_ns_def)
  have nd: "n = s * 1000000000 + n mod second_ns" by (simp add: s_def second_ns_def)
  have s: "0 \<le> s" "s < 86400"
    using n by (auto simp: s_def second_ns_def pos_imp_zdiv_nonneg_iff div_less_iff_less_mult)
  have hh: "hh = s div 60 div 60" and mm: "mm = s div 60 mod 60" and ss: "ss = s mod 60"
    and ns: "ns = n mod second_ns"
    using assms by (auto simp: clock_of_def Let_def n_def s_def second_ns_def zdiv_zmult2_eq[symmetric])
  show "0 \<le> hh" "hh < 24" using s by (auto simp: hh pos_imp_zdiv_nonneg_iff)
  show "0 \<le> mm" "mm < 60" "0 \<le> ss" "ss < 60" by (auto simp: mm ss)
  show "0 \<le> ns" "ns < 1000000000" by (auto simp: ns second_ns_def)
  have "s = (hh * 60 + mm) * 60 + ss" unfolding hh mm ss by simp
  with nd ns show "t mod day_ns = ((hh * 60 + mm) * 60 + ss) * 1000000000 + ns"
    by (simp add: n_def)
qed

lemma radix_less:
  fixes q q' r r' k :: int
  assumes "q * k + r < q' * k + r'" "0 \<le> r" "r < k" "0 \<le> r'" "r' < k"
  shows "q < q' \<or> q = q' \<and> r < r'"
proof (cases "q < q'")
  case False
  have "\<not> q' < q"
  proof
    assume "q' < q"
    then have "(q' + 1) * k \<le> q * k" using assms(2,3) by (intro mult_right_mono) auto
    with assms show False by (simp add: algebra_simps)
  qed
  with False assms(1) show ?thesis by auto
qed simp

lemma radix_eq:
  fixes q q' r r' k :: int
  assumes "q * k + r = q' * k + r'" "0 \<le> r" "r < k" "0 \<le> r'" "r' < k"
  shows "q = q' \<and> r = r'"
proof -
  have "(q * k + r) div k = q" by (rule int_div_pos_eq[of _ _ _ r]) (use assms(2,3) in \<open>auto simp: mult.commute\<close>)
  moreover have "(q' * k + r') div k = q'" by (rule int_div_pos_eq[of _ _ _ r']) (use assms(4,5) in \<open>auto simp: mult.commute\<close>)
  ultimately have "q = q'" using assms(1) by simp
  with assms(1) show ?thesis by simp
qed

lemma clock_of_lex:
  assumes "t mod day_ns < t' mod day_ns" "clock_of t = (hh, mm, ss, ns)" "clock_of t' = (hh', mm', ss', ns')"
  shows "hh < hh' \<or> hh = hh' \<and> (mm < mm' \<or> mm = mm' \<and> (ss < ss' \<or> ss = ss' \<and> ns < ns'))"
proof -
  note r = clock_of_range[OF assms(2)] and r' = clock_of_range[OF assms(3)]
  have "(hh * 60 + mm) * 60 + ss < (hh' * 60 + mm') * 60 + ss' \<or>
    (hh * 60 + mm) * 60 + ss = (hh' * 60 + mm') * 60 + ss' \<and> ns < ns'"
    by (rule radix_less[of _ 1000000000]) (use assms(1) r r' in simp_all)
  moreover have "(hh * 60 + mm) * 60 + ss < (hh' * 60 + mm') * 60 + ss' \<Longrightarrow>
    hh * 60 + mm < hh' * 60 + mm' \<or> hh * 60 + mm = hh' * 60 + mm' \<and> ss < ss'"
    by (rule radix_less[of _ 60]) (use r r' in simp_all)
  moreover have "hh * 60 + mm < hh' * 60 + mm' \<Longrightarrow> hh < hh' \<or> hh = hh' \<and> mm < mm'"
    by (rule radix_less[of _ 60]) (use r r' in simp_all)
  moreover have "(hh * 60 + mm) * 60 + ss = (hh' * 60 + mm') * 60 + ss' \<Longrightarrow>
    hh * 60 + mm = hh' * 60 + mm' \<and> ss = ss'"
    by (rule radix_eq[of _ 60]) (use r r' in simp_all)
  moreover have "hh * 60 + mm = hh' * 60 + mm' \<Longrightarrow> hh = hh' \<and> mm = mm'"
    by (rule radix_eq[of _ 60]) (use r r' in simp_all)
  ultimately show ?thesis by blast
qed

lemma fraction_clock: "clock_of t = (hh, mm, ss, ns) \<Longrightarrow> fraction_text t = pad_digits 9 ns"
proof -
  have "t mod day_ns mod second_ns = t mod second_ns"
    by (rule mod_mod_cancel) (simp add: day_ns_def second_ns_def)
  then show "clock_of t = (hh, mm, ss, ns) \<Longrightarrow> ?thesis"
    by (auto simp: clock_of_def Let_def fraction_text_def)
qed

lemma formatScheduleTime_mono:
  assumes "t < t'" "in_years t" "in_years t'"
  shows "formatScheduleTime t < formatScheduleTime t'"
proof -
  obtain y m d where c: "civil_of t = (y, m, d)" by (cases "civil_of t")
  obtain y' m' d' where c': "civil_of t' = (y', m', d')" by (cases "civil_of t'")
  obtain hh mm ss ns where k: "clock_of t = (hh, mm, ss, ns)" by (cases "clock_of t")
  obtain hh' mm' ss' ns' where k': "clock_of t' = (hh', mm', ss', ns')" by (cases "clock_of t'")
  note r = civil_of_range[OF assms(2) c] civil_of_range[OF assms(3) c']
    clock_of_range[OF k] clock_of_range[OF k']
  have le: "day_number t \<le> day_number t'"
    using assms(1) by (simp add: day_number_def day_ns_def zdiv_mono1)
  have key: "y < y' \<or> y = y' \<and> (m < m' \<or> m = m' \<and> (d < d' \<or> d = d' \<and>
    (hh < hh' \<or> hh = hh' \<and> (mm < mm' \<or> mm = mm' \<and> (ss < ss' \<or> ss = ss' \<and> ns < ns')))))"
  proof (cases "day_number t = day_number t'")
    case True
    then have "t div day_ns = t' div day_ns" by (simp add: day_number_def)
    then have "t mod day_ns < t' mod day_ns"
      using assms(1) mult_div_mod_eq[of day_ns t] mult_div_mod_eq[of day_ns t']
      by (metis add_less_cancel_left)
    moreover have "civil_of t = civil_of t'" using True by (simp add: civil_of_def)
    ultimately show ?thesis using clock_of_lex[OF _ k k'] c c' by auto
  next
    case False
    with le have "day_number t < day_number t'" by simp
    from civil_of_lex[OF this c c'] show ?thesis by auto
  qed
  have pad: "\<And>w i j. 0 \<le> i \<Longrightarrow> i < j \<Longrightarrow> j < 10 ^ w \<Longrightarrow> pad_digits w i < pad_digits w j"
    by (rule pad_digits_less)
  show ?thesis
    using key r pad[of y y' 4] pad[of m m' 2] pad[of d d' 2] pad[of hh hh' 2] pad[of mm mm' 2]
      pad[of ss ss' 2] pad[of ns ns' 9]
    by (auto simp: formatScheduleTime_def date_text_def c c' k k' fraction_clock[OF k]
        fraction_clock[OF k'] year_digits_def lex_append)
qed

text \<open>
  On the years 0..9999 the text order SQLite applies to the scheduler columns is the
  order of the instants: the fixed-width encoding of \<open>formatScheduleTime\<close> is faithful, so
  \<open>available_at <= now\<close> and \<open>lease_expires_at <= now\<close> in SQL mean what they say.
\<close>

theorem schedule_order_faithful:
  assumes "in_years t" "in_years t'"
  shows "formatScheduleTime t \<le> formatScheduleTime t' \<longleftrightarrow> t \<le> t'"
  using formatScheduleTime_mono[of t t'] formatScheduleTime_mono[of t' t] assms
  by (cases t t' rule: linorder_cases) auto

theorem schedule_order_faithful_witness:
  "formatScheduleTime 1758412345120000000 \<le> formatScheduleTime 1758412345123000000
   \<longleftrightarrow> (1758412345120000000 :: int) \<le> 1758412345123000000"
proof -
  have "in_years 1758412345120000000" "in_years 1758412345123000000"
    by (simp_all add: in_years_def day_number_def day_ns_def year_start_def)
  then show ?thesis by (rule schedule_order_faithful)
qed

section \<open>RFC3339Nano\<close>

text \<open>What \<open>formatTime\<close> keeps of the fraction: the digits without their trailing zeros.\<close>

definition trim_zeros :: "string \<Rightarrow> string" where
  "trim_zeros s = rev (dropWhile (\<lambda>c. c = CHR ''0'') (rev s))"

definition digits :: "string \<Rightarrow> bool" where
  "digits s \<longleftrightarrow> list_all (\<lambda>c. CHR ''0'' \<le> c \<and> c \<le> CHR ''9'') s"

lemma trim_zeros_simps [simp]:
  "trim_zeros [] = []"
  "trim_zeros (c # s) = (if trim_zeros s = [] \<and> c = CHR ''0'' then [] else c # trim_zeros s)"
  by (auto simp: trim_zeros_def dropWhile_append dropWhile_eq_Nil_conv)

lemma digits_simps [simp]:
  "digits []" "digits (c # s) \<longleftrightarrow> CHR ''0'' \<le> c \<and> c \<le> CHR ''9'' \<and> digits s"
  "digits (s @ r) \<longleftrightarrow> digits s \<and> digits r"
  by (auto simp: digits_def)

lemma digit_below_Z: "c \<le> CHR ''9'' \<Longrightarrow> c < CHR ''Z''" "CHR ''.'' < CHR ''Z''"
  by (auto simp: less_eq_char_def less_char_def)

lemma digits_pad: "digits (pad_digits w n)"
  by (induction w arbitrary: n) (auto simp: less_eq_char_def of_char_of)

lemma trim_zeros_larger:
  assumes "length a = length b" "digits a" "digits b" "a < b"
  shows "trim_zeros b \<noteq> []"
  using assms by (induction a b rule: list_induct2) auto

lemma trimmed_order:
  assumes "length a = length b" "digits a" "digits b" "a < b"
  shows "trim_zeros b @ ''Z'' < trim_zeros a @ ''Z'' \<longleftrightarrow> (\<exists>z. trim_zeros b = trim_zeros a @ z)"
  using assms
proof (induction a b rule: list_induct2)
  case (Cons x xs y ys)
  show ?case
  proof (cases "x = y")
    case True
    with Cons.prems have tails: "digits xs" "digits ys" "xs < ys" by auto
    from Cons.IH[OF this] trim_zeros_larger[OF Cons.hyps this] Cons.prems True digit_below_Z
    show ?thesis by auto
  next
    case False
    with Cons.prems have "x < y" "y \<noteq> CHR ''0''" by auto
    with Cons.prems digit_below_Z show ?thesis by auto
  qed
qed simp

lemma fraction_order:
  assumes "t div second_ns = t' div second_ns" "t < t'"
  shows "fraction_text t < fraction_text t'"
proof -
  have "t mod second_ns < t' mod second_ns"
    using assms mult_div_mod_eq[of second_ns t] mult_div_mod_eq[of second_ns t'] by (metis add_less_cancel_left)
  then show ?thesis
    unfolding fraction_text_def by (rule pad_digits_less[rotated]) (auto simp: second_ns_def)
qed

lemma date_text_second: "t div second_ns = t' div second_ns \<Longrightarrow> date_text t = date_text t'"
proof -
  have "t div day_ns = t div second_ns div 86400" for t :: int
    by (simp add: day_ns_def second_ns_def zdiv_zmult2_eq[symmetric])
  moreover have "t mod day_ns div second_ns = t div second_ns mod 86400" for t :: int
    using zmod_zmult2_eq[of 86400 t second_ns] by (simp add: day_ns_def second_ns_def)
  moreover have "n div (3600 * second_ns) = n div second_ns div 3600"
      "n div (60 * second_ns) = n div second_ns div 60" for n :: int
    by (simp_all add: second_ns_def zdiv_zmult2_eq[symmetric])
  ultimately show "t div second_ns = t' div second_ns \<Longrightarrow> ?thesis"
    by (simp add: date_text_def civil_of_def clock_of_def day_number_def Let_def)
qed

lemma length_date_text: "in_years t \<Longrightarrow> length (date_text t) = 19"
  by (cases "civil_of t"; cases "clock_of t")
     (auto simp: date_text_def year_digits_def dest: civil_of_range)

lemma date_text_mono:
  assumes "t div second_ns < t' div second_ns" "in_years t" "in_years t'"
  shows "date_text t < date_text t'"
proof -
  define u u' where "u = second_ns * (t div second_ns)" and "u' = second_ns * (t' div second_ns)"
  have q: "u div second_ns = t div second_ns" "u' div second_ns = t' div second_ns" and "u < u'"
    using assms(1) by (simp_all add: u_def u'_def second_ns_def)
  have "u div day_ns = t div day_ns" "u' div day_ns = t' div day_ns"
    unfolding u_def u'_def by (simp_all add: day_ns_def second_ns_def zdiv_zmult2_eq)
  then have y: "in_years u" "in_years u'" using assms(2,3) by (simp_all add: in_years_def day_number_def)
  have "fraction_text u = fraction_text u'" by (simp add: fraction_text_def u_def u'_def)
  moreover have "formatScheduleTime u < formatScheduleTime u'" by (rule formatScheduleTime_mono) fact+
  ultimately have "date_text u < date_text u'"
    by (simp add: formatScheduleTime_def lex_append length_date_text y)
  then show ?thesis using date_text_second[OF q(1)] date_text_second[OF q(2)] by simp
qed

lemma formatTime_trim:
  "formatTime t = date_text t @ (if trim_zeros (fraction_text t) = [] then ''Z'' else CHR ''.'' # trim_zeros (fraction_text t) @ ''Z'')"
  by (simp add: formatTime_def trim_zeros_def Let_def)

text \<open>
  Claim C40. The RFC3339Nano encoding of \<open>formatTime\<close>, which the immutable columns such as
  \<open>steward_jobs.created_at\<close> use, is not order preserving, and this is exactly where: of two
  instants of the years 0..9999 the later one has the smaller text if and only if both lie in the
  same second and the trimmed fraction of the earlier one is a prefix of the trimmed fraction of
  the later one. In particular every whole second sorts after all the instants inside it, because
  trailing zeros are dropped and \<open>'.'\<close> and the digits are smaller than \<open>'Z'\<close>.
\<close>

theorem formatTime_order_unfaithful:
  assumes "in_years t" "in_years t'" "t < t'"
  shows "formatTime t' < formatTime t \<longleftrightarrow>
    t div second_ns = t' div second_ns \<and>
    (\<exists>z. trim_zeros (fraction_text t') = trim_zeros (fraction_text t) @ z)"
proof (cases "t div second_ns = t' div second_ns")
  case True
  note f = fraction_order[OF True assms(3)]
  have d: "length (fraction_text t) = length (fraction_text t')" "digits (fraction_text t)" "digits (fraction_text t')"
    by (simp_all add: fraction_text_def digits_pad)
  note order = trimmed_order[OF d f] and larger = trim_zeros_larger[OF d f]
  show ?thesis
    using True order larger digit_below_Z
    by (cases "trim_zeros (fraction_text t) = []")
       (simp_all add: formatTime_trim date_text_second[OF True] lex_append)
next
  case False
  have "t div second_ns \<le> t' div second_ns" using assms(3) by (simp add: zdiv_mono1 second_ns_def)
  with False have "date_text t < date_text t'" by (intro date_text_mono assms) simp
  then have "\<not> formatTime t' < formatTime t"
    by (auto simp: formatTime_trim lex_append length_date_text assms)
  with False show ?thesis by simp
qed

theorem formatTime_order_unfaithful_witness:
  "(100000000 :: int) < 150000000 \<and> formatTime 150000000 < formatTime 100000000 \<and>
   \<not> formatTime 250000000 < formatTime 150000000"
proof -
  have y: "in_years 100000000" "in_years 150000000" "in_years 250000000"
    by (simp_all add: in_years_def day_number_def day_ns_def year_start_def)
  have f: "trim_zeros (fraction_text 100000000) = ''1''" "trim_zeros (fraction_text 150000000) = ''15''"
    "trim_zeros (fraction_text 250000000) = ''25''"
    by code_simp+
  show ?thesis
    using formatTime_order_unfaithful[OF y(1,2)] formatTime_order_unfaithful[OF y(2,3)]
    by (simp add: f second_ns_def)
qed

end
