(* ===== verification/Sha256.thy ===== *)
theory Sha256
  imports Go_Text "HOL-Library.Word"
begin

text \<open>
  \<open>crypto/sha256\<close> as FIPS 180-4 defines it, on 32-bit words, and the two digest helpers of
  \<open>internal/appliance/store.go\<close>. The proofs of the other theories never unfold the hash: they
  hold for the function as a black box, and no collision freedom is assumed anywhere. It is
  executable, so a digest written as a constant in the source can be compared with the function.
\<close>

unbundle bit_operations_syntax

type_synonym u32 = "32 word"

definition rotr :: "nat \<Rightarrow> u32 \<Rightarrow> u32" where
  "rotr n x = drop_bit n x OR push_bit (32 - n) x"

definition sha_ch :: "u32 \<Rightarrow> u32 \<Rightarrow> u32 \<Rightarrow> u32" where
  "sha_ch x y z = (x AND y) XOR (NOT x AND z)"

definition sha_maj :: "u32 \<Rightarrow> u32 \<Rightarrow> u32 \<Rightarrow> u32" where
  "sha_maj x y z = (x AND y) XOR (x AND z) XOR (y AND z)"

definition big_sigma0 :: "u32 \<Rightarrow> u32" where
  "big_sigma0 x = rotr 2 x XOR rotr 13 x XOR rotr 22 x"

definition big_sigma1 :: "u32 \<Rightarrow> u32" where
  "big_sigma1 x = rotr 6 x XOR rotr 11 x XOR rotr 25 x"

definition small_sigma0 :: "u32 \<Rightarrow> u32" where
  "small_sigma0 x = rotr 7 x XOR rotr 18 x XOR drop_bit 3 x"

definition small_sigma1 :: "u32 \<Rightarrow> u32" where
  "small_sigma1 x = rotr 17 x XOR rotr 19 x XOR drop_bit 10 x"

definition sha_k :: "u32 list" where
  "sha_k = [
    1116352408, 1899447441, 3049323471, 3921009573, 961987163, 1508970993, 2453635748, 2870763221,
    3624381080, 310598401, 607225278, 1426881987, 1925078388, 2162078206, 2614888103, 3248222580,
    3835390401, 4022224774, 264347078, 604807628, 770255983, 1249150122, 1555081692, 1996064986,
    2554220882, 2821834349, 2952996808, 3210313671, 3336571891, 3584528711, 113926993, 338241895,
    666307205, 773529912, 1294757372, 1396182291, 1695183700, 1986661051, 2177026350, 2456956037,
    2730485921, 2820302411, 3259730800, 3345764771, 3516065817, 3600352804, 4094571909, 275423344,
    430227734, 506948616, 659060556, 883997877, 958139571, 1322822218, 1537002063, 1747873779,
    1955562222, 2024104815, 2227730452, 2361852424, 2428436474, 2756734187, 3204031479, 3329325298]"

text \<open>The message schedule keeps the last sixteen words, oldest first, and runs 64 rounds.\<close>

type_synonym sha_state = "u32 \<times> u32 \<times> u32 \<times> u32 \<times> u32 \<times> u32 \<times> u32 \<times> u32"

definition sha_init :: sha_state where
  "sha_init = (1779033703, 3144134277, 1013904242, 2773480762, 1359893119, 2600822924, 528734635, 1541459225)"

fun sha_round :: "u32 \<Rightarrow> u32 \<Rightarrow> sha_state \<Rightarrow> sha_state" where
  "sha_round k w (a, b, c, d, e, f, g, h) =
    (let t1 = h + big_sigma1 e + sha_ch e f g + k + w;
         t2 = big_sigma0 a + sha_maj a b c
     in (t1 + t2, a, b, c, d + t1, e, f, g))"

fun sha_rounds :: "u32 list \<Rightarrow> u32 list \<Rightarrow> sha_state \<Rightarrow> sha_state" where
  "sha_rounds [] ws st = st"
| "sha_rounds (k # ks) [] st = st"
| "sha_rounds (k # ks) (w # ws) st =
     (let st' = sha_round k w st;
          next_w = small_sigma1 (ws ! 13) + ws ! 8 + small_sigma0 (ws ! 0) + w
      in sha_rounds ks (ws @ [next_w]) st')"

fun sha_add :: "sha_state \<Rightarrow> sha_state \<Rightarrow> sha_state" where
  "sha_add (a, b, c, d, e, f, g, h) (a', b', c', d', e', f', g', h') =
    (a + a', b + b', c + c', d + d', e + e', f + f', g + g', h + h')"

definition byte_word :: "char \<Rightarrow> u32" where
  "byte_word c = of_char c"

fun be_words :: "string \<Rightarrow> u32 list" where
  "be_words (a # b # c # d # rest) =
    (byte_word a * 0x1000000 + byte_word b * 0x10000 + byte_word c * 0x100 + byte_word d) # be_words rest"
| "be_words rest = []"

fun sha_blocks :: "u32 list \<Rightarrow> nat \<Rightarrow> sha_state \<Rightarrow> sha_state" where
  "sha_blocks ws 0 st = st"
| "sha_blocks ws (Suc n) st = sha_blocks (drop 16 ws) n (sha_add st (sha_rounds sha_k (take 16 ws) st))"

definition be_bytes64 :: "int \<Rightarrow> string" where
  "be_bytes64 n = map (\<lambda>i. char_of (drop_bit i n)) [56, 48, 40, 32, 24, 16, 8, 0]"

definition sha_pad :: "string \<Rightarrow> string" where
  "sha_pad s = s @ [CHR 0x80] @ replicate ((55 + 64 - length s mod 64) mod 64) (CHR 0x00) @ be_bytes64 (8 * int (length s))"

definition word_bytes :: "u32 \<Rightarrow> string" where
  "word_bytes w = map (\<lambda>i. char_of (drop_bit i (uint w))) [24, 16, 8, 0]"

fun state_bytes :: "sha_state \<Rightarrow> string" where
  "state_bytes (a, b, c, d, e, f, g, h) = concat (map word_bytes [a, b, c, d, e, f, g, h])"

definition sha256 :: "string \<Rightarrow> string" where
  "sha256 s = (let p = sha_pad s in state_bytes (sha_blocks (be_words p) (length p div 64) sha_init))"

definition digestBytes :: "string \<Rightarrow> string" where
  "digestBytes value = sha256 value"

definition digestString :: "string \<Rightarrow> string" where
  "digestString value = hex_encode (digestBytes value)"

end
