(* ===== verification/Contracts.thy ===== *)
theory Contracts
  imports Go_Time Sha256 "HOL-Library.Multiset"
begin

text \<open>
  The public contract of the data plane, \<open>api/memory/v1alpha1\<close>: the error codes of
  \<open>service.go\<close>, the request and response types of \<open>types.go\<close>, the bounds of \<open>validate.go\<close> and
  the canonical label sets of \<open>labels.go\<close>, with the stored form of a label set of
  \<open>internal/appliance/labelset.go\<close>. A Go error is a value of \<open>error\<close>; the request identifier of
  a service error is a process-local counter that no code reads and is left out. A string type
  with a fixed vocabulary is a datatype whose last constructor holds any other value, so that the
  rejection of an unsupported value stays visible.
\<close>

section \<open>Errors\<close>

datatype error_code =
  ErrorCodeInvalidArgument | ErrorCodeUnauthorized | ErrorCodeIncompatible | ErrorCodeNotFound
| ErrorCodeConflict | ErrorCodeDeadline | ErrorCodeUnavailable | ErrorCodeUnknownOutcome
| ErrorCodeStaleConsistencyToken | ErrorCodeInternal

text \<open>\<open>ServiceError code message retryable\<close> is the stable envelope; the other constructors are the
  sentinel errors of \<open>internal/appliance\<close> and a plain \<open>fmt.Errorf\<close>.\<close>

datatype error =
  ServiceError error_code string bool
| ErrStewardProposalInvalid string
| ErrStewardLeaseLost
| ErrStewardConflict string
| ErrStewardUnknownOutcome
| ErrCapabilityIssueInvalid string
| ErrCapabilityIssueUnauthorized
| Errorf string

definition ErrorCodeOf :: "error \<Rightarrow> error_code option" where
  "ErrorCodeOf err = (case err of ServiceError c _ _ \<Rightarrow> Some c | _ \<Rightarrow> None)"

definition IsCode :: "error \<Rightarrow> error_code \<Rightarrow> bool" where
  "IsCode err code \<longleftrightarrow> ErrorCodeOf err = Some code"

section \<open>Types\<close>

datatype audience = AudiencePrivate | AudienceShared | AudienceOther string
datatype space_class = SpaceClassPrivate | SpaceClassShared | SpaceClassOther string
datatype operation = OperationRemember | OperationRecall | OperationReceiptStatus | OperationOther string
datatype processing_state =
  ProcessingStateAccepted | ProcessingStateProcessing | ProcessingStateOrganized | ProcessingStateFailed

record source_context =
  sc_actor_ref :: string
  sc_session_ref :: string
  sc_workspace_ref :: string
  sc_task_ref :: string
  sc_tool_call_ref :: string
  sc_source_type :: string
  sc_extension_labels :: "(string \<times> string) list"

definition no_source :: source_context where
  "no_source = \<lparr>sc_actor_ref = [], sc_session_ref = [], sc_workspace_ref = [], sc_task_ref = [],
     sc_tool_call_ref = [], sc_source_type = [], sc_extension_labels = []\<rparr>"

record remember_request =
  rem_text :: string
  rem_source_context :: source_context
  rem_occurred_at :: "instant option"
  rem_idempotency_key :: string

record remember_response =
  rsp_accepted :: bool
  rsp_receipt_id :: string
  rsp_consistency_token :: string
  rsp_deduplicated_retry :: bool
  rsp_processing_state :: processing_state

record receipt_status =
  st_receipt_id :: string
  st_state :: processing_state
  st_accepted_at :: instant
  st_last_attempt_at :: "instant option"
  st_terminal_error_code :: string
  st_semantic_generation :: string

record recall_budget =
  bud_max_fragments :: int
  bud_max_bytes :: int
  bud_deadline_ms :: int

record recall_request =
  rec_query :: string
  rec_source_context :: source_context
  rec_min_consistency_token :: string
  rec_budget :: recall_budget

record recall_fragment =
  frag_id :: string
  frag_text :: string
  frag_evidence_refs :: "string list"
  frag_record_refs :: "string list"
  frag_space_class :: space_class

record recall_response =
  rcl_fragments :: "recall_fragment list"
  rcl_consistency_token :: string
  rcl_degraded :: bool
  rcl_truncated :: bool

record call_authorization =
  auth_capability :: string
  auth_actor_ref :: string
  auth_audience :: audience

section \<open>JSON of a source context\<close>

definition json_source_context :: "source_context \<Rightarrow> json" where
  "json_source_context s = JObj
    (omit_str ''actor_ref'' (sc_actor_ref s) @ omit_str ''session_ref'' (sc_session_ref s) @
     omit_str ''workspace_ref'' (sc_workspace_ref s) @ omit_str ''task_ref'' (sc_task_ref s) @
     omit_str ''tool_call_ref'' (sc_tool_call_ref s) @ omit_str ''source_type'' (sc_source_type s) @
     (if sc_extension_labels s = [] then []
      else [(''extension_labels'', JObj (map (\<lambda>(k, v). (k, JStr v)) (sort_key fst (sc_extension_labels s))))]))"

section \<open>Request bounds\<close>

definition maxSourceScalarBytes :: nat where "maxSourceScalarBytes = 256"
definition maxSourceLabels :: nat where "maxSourceLabels = 16"
definition maxLabelKeyBytes :: nat where "maxLabelKeyBytes = 64"
definition maxSourceContextBytes :: nat where "maxSourceContextBytes = 4096"
definition maxRememberTextBytes :: nat where "maxRememberTextBytes = 65536"
definition maxRecallQueryBytes :: nat where "maxRecallQueryBytes = 8192"
definition maxIdempotencyBytes :: nat where "maxIdempotencyBytes = 128"
definition MinRecallProjectionBytes :: int where
  "MinRecallProjectionBytes = int (length (''{'' @ json_string ''fragments'' @ '':[]}''))"

definition validate_scalar :: "string \<times> string \<Rightarrow> unit \<Rightarrow> string + unit" where
  "validate_scalar scalar u =
    (case scalar of (name, value) \<Rightarrow>
     rbind (guard (valid_utf8 value) (name @ '' must be valid UTF-8'')) (\<lambda>_.
     guard (length value \<le> maxSourceScalarBytes) (name @ '' exceeds 256 bytes'')))"

definition validate_extension_label :: "string \<times> string \<Rightarrow> unit \<Rightarrow> string + unit" where
  "validate_extension_label label u =
    (case label of (key, value) \<Rightarrow>
     rbind (guard (key \<noteq> [] \<and> valid_utf8 key \<and> length key \<le> maxLabelKeyBytes)
       ''extension label key must be valid UTF-8 and 1..64 bytes'') (\<lambda>_.
     guard (valid_utf8 value \<and> length value \<le> maxSourceScalarBytes)
       ''extension label value exceeds 256 bytes or is invalid UTF-8''))"

definition validate_source_context :: "source_context \<Rightarrow> string + unit" where
  "validate_source_context s =
    rbind (fold_res validate_scalar
      [(''actor_ref'', sc_actor_ref s), (''session_ref'', sc_session_ref s),
       (''workspace_ref'', sc_workspace_ref s), (''task_ref'', sc_task_ref s),
       (''tool_call_ref'', sc_tool_call_ref s), (''source_type'', sc_source_type s)] ()) (\<lambda>_.
    rbind (guard (length (sc_extension_labels s) \<le> maxSourceLabels)
      ''extension_labels exceeds 16 entries'') (\<lambda>_.
    rbind (fold_res validate_extension_label (sc_extension_labels s) ()) (\<lambda>_.
    guard (length (json_encode (json_source_context s)) \<le> maxSourceContextBytes)
      ''source_context exceeds 4096 normalized bytes'')))"

definition validate_remember :: "remember_request \<Rightarrow> string + unit" where
  "validate_remember r =
    rbind (guard (valid_utf8 (rem_text r) \<and> rem_text r \<noteq> [] \<and> length (rem_text r) \<le> maxRememberTextBytes)
      ''text must be valid UTF-8 and 1..65536 bytes'') (\<lambda>_.
    rbind (guard (valid_utf8 (rem_idempotency_key r) \<and> rem_idempotency_key r \<noteq> [] \<and>
        length (rem_idempotency_key r) \<le> maxIdempotencyBytes)
      ''idempotency_key must be valid UTF-8 and 1..128 bytes'') (\<lambda>_.
    rbind (guard (case rem_occurred_at r of None \<Rightarrow> True | Some t \<Rightarrow> in_years t)
      ''occurred_at must be an RFC 3339 timestamp'') (\<lambda>_.
    validate_source_context (rem_source_context r))))"

definition validate_recall_budget :: "recall_budget \<Rightarrow> string + unit" where
  "validate_recall_budget b =
    rbind (guard (1 \<le> bud_max_fragments b \<and> bud_max_fragments b \<le> 64)
      ''max_fragments must be within 1..64'') (\<lambda>_.
    rbind (guard (MinRecallProjectionBytes \<le> bud_max_bytes b \<and> bud_max_bytes b \<le> 65536)
      ''max_bytes must be within 16..65536'') (\<lambda>_.
    guard (1 \<le> bud_deadline_ms b \<and> bud_deadline_ms b \<le> 30000)
      ''deadline_ms must be within 1..30000''))"

definition validate_recall :: "recall_request \<Rightarrow> string + unit" where
  "validate_recall r =
    rbind (guard (valid_utf8 (rec_query r) \<and> rec_query r \<noteq> [] \<and> length (rec_query r) \<le> maxRecallQueryBytes)
      ''query must be valid UTF-8 and 1..8192 bytes'') (\<lambda>_.
    rbind (validate_source_context (rec_source_context r)) (\<lambda>_.
    validate_recall_budget (rec_budget r)))"

section \<open>Label sets\<close>

definition MaxLabelsPerSet :: nat where "MaxLabelsPerSet = 16"
definition MaxLabelBytes :: nat where "MaxLabelBytes = 128"

definition validate_label :: "string \<Rightarrow> unit \<Rightarrow> string + unit" where
  "validate_label value u =
    rbind (guard (valid_utf8 value \<and> value \<noteq> [] \<and> length value \<le> MaxLabelBytes \<and> trim_space value = value)
      ''label must be valid UTF-8 and 1..128 bytes without surrounding whitespace'') (\<lambda>_.
    guard (\<not> list_ex is_control_rune (runes_of value)) ''label cannot contain control characters'')"

fun adjacent_duplicate :: "string list \<Rightarrow> bool" where
  "adjacent_duplicate (x # y # rest) = (y = x \<or> adjacent_duplicate (y # rest))"
| "adjacent_duplicate rest = False"

definition CanonicalLabelSet :: "string list \<Rightarrow> string + string list" where
  "CanonicalLabelSet labels =
    rbind (guard (length labels \<le> MaxLabelsPerSet) ''label set exceeds 16 labels'') (\<lambda>_.
    rbind (fold_res validate_label labels ()) (\<lambda>_.
    (let canonical = sort labels in
     rbind (guard (\<not> adjacent_duplicate canonical) ''label set cannot contain duplicates'') (\<lambda>_.
     Inr canonical))))"

record stored_label_set =
  ls_labels :: "string list"
  ls_encoded :: string
  ls_digest :: string

definition encode_label_set :: "string list \<Rightarrow> string" where
  "encode_label_set labels = json_encode (JArr (map JStr labels))"

definition normalizeLabelSet :: "string list \<Rightarrow> string + stored_label_set" where
  "normalizeLabelSet labels =
    rbind (CanonicalLabelSet labels) (\<lambda>canonical.
    (let encoded = encode_label_set canonical in
     Inr \<lparr>ls_labels = canonical, ls_encoded = encoded, ls_digest = digestString encoded\<rparr>))"

text \<open>A JSON column is modelled by the value it decodes to; the comparison of the encoded texts
  stays.\<close>

definition decodeStoredLabelSet :: "string list \<Rightarrow> string \<Rightarrow> string + stored_label_set" where
  "decodeStoredLabelSet labels expectedDigest =
    rbind (normalizeLabelSet labels) (\<lambda>stored.
    rbind (guard (ls_encoded stored = encode_label_set labels \<and> ls_digest stored = expectedDigest)
      ''stored LabelSet is not canonical'') (\<lambda>_.
    Inr stored))"

definition emptyLabelSetDigest :: string where
  "emptyLabelSetDigest = ''4f53cda18c2baa0c0354bb5f9a3ecbe5ed12ab4d8e11ba873c2f11161202b945''"

section \<open>Canonical label sets\<close>

lemma fold_res_unit_ok:
  "fold_res f xs () = Inr u \<longleftrightarrow> (\<forall>x\<in>set xs. f x () = Inr ())"
  by (induction xs) (auto simp: result_simps)

lemma adjacent_duplicate_sorted:
  "sorted xs \<Longrightarrow> adjacent_duplicate xs \<longleftrightarrow> \<not> distinct xs"
  by (induction xs rule: adjacent_duplicate.induct) fastforce+

lemma CanonicalLabelSet_Inr:
  "CanonicalLabelSet labels = Inr c \<longleftrightarrow>
     length labels \<le> MaxLabelsPerSet \<and> (\<forall>l\<in>set labels. validate_label l () = Inr ()) \<and>
     distinct labels \<and> c = sort labels"
  by (auto simp: CanonicalLabelSet_def Let_def result_simps fold_res_unit_ok adjacent_duplicate_sorted)

text \<open>
  A label set names one partition whatever order the caller wrote it in: a permutation
  of an accepted label set is accepted with the same canonical form, stored text and digest.
\<close>

theorem label_set_order_irrelevant:
  assumes "normalizeLabelSet labels = Inr st" and "mset labels' = mset labels"
  shows "normalizeLabelSet labels' = Inr st"
proof -
  have "set labels' = set labels" "length labels' = length labels" "distinct labels' = distinct labels"
    using assms(2) by (auto dest: mset_eq_setD mset_eq_length mset_eq_imp_distinct_iff)
  moreover have "sort labels' = sort labels"
    by (rule properties_for_sort) (simp_all add: assms(2))
  ultimately have "CanonicalLabelSet labels = Inr c \<longleftrightarrow> CanonicalLabelSet labels' = Inr c" for c
    by (simp add: CanonicalLabelSet_Inr)
  with assms(1) show ?thesis by (auto simp: normalizeLabelSet_def result_simps)
qed

theorem label_set_order_irrelevant_witness:
  "\<exists>st. normalizeLabelSet [''a'', ''b''] = Inr st \<and> normalizeLabelSet [''b'', ''a''] = Inr st"
proof -
  have v: "validate_label ''a'' () = Inr ()" "validate_label ''b'' () = Inr ()" 
    by (simp_all add: validate_label_def MaxLabelBytes_def text_eval)
  have "CanonicalLabelSet [''a'', ''b''] = Inr [''a'', ''b'']"
    using v by (simp add: CanonicalLabelSet_Inr MaxLabelsPerSet_def)
  then obtain st where st: "normalizeLabelSet [''a'', ''b''] = Inr st"
    by (simp add: normalizeLabelSet_def Let_def)
  from label_set_order_irrelevant[OF st, of "[''b'', ''a'']"] have "normalizeLabelSet [''b'', ''a''] = Inr st"
    by (simp add: add_mset_commute)
  with st show ?thesis by blast
qed

text \<open>
  What \<open>IssueCapability\<close> stores, \<open>authorize\<close> reads back: the stored labels and digest
  of a normalised label set decode to exactly that label set.
\<close>

theorem stored_label_set_roundtrip:
  assumes "normalizeLabelSet labels = Inr st"
  shows "decodeStoredLabelSet (ls_labels st) (ls_digest st) = Inr st"
proof -
  from assms obtain c where c: "CanonicalLabelSet labels = Inr c"
    and st: "st = \<lparr>ls_labels = c, ls_encoded = encode_label_set c, ls_digest = digestString (encode_label_set c)\<rparr>"
    by (auto simp: normalizeLabelSet_def result_simps Let_def)
  have "CanonicalLabelSet c = Inr c" using c by (auto simp: CanonicalLabelSet_Inr sorted_sort_id)
  then show ?thesis using st by (simp add: decodeStoredLabelSet_def normalizeLabelSet_def Let_def)
qed

theorem stored_label_set_roundtrip_witness:
  "\<exists>st. normalizeLabelSet [''w''] = Inr st \<and> decodeStoredLabelSet (ls_labels st) (ls_digest st) = Inr st"
proof -
  have v: "validate_label ''w'' () = Inr ()"
    by (simp add: validate_label_def MaxLabelBytes_def text_eval)
  obtain st where st: "normalizeLabelSet [''w''] = Inr st"
    using v by (simp add: normalizeLabelSet_def CanonicalLabelSet_def MaxLabelsPerSet_def Let_def)
  with stored_label_set_roundtrip[OF st] show ?thesis by blast
qed

end
