(* ===== verification/Worker_Contract.thy ===== *)
theory Worker_Contract
  imports Contracts
begin

text \<open>
  The Worker contract of \<open>api/memory/steward/v1alpha1/types.go\<close> and the fact contract of
  \<open>api/memory/facts/v1alpha1\<close> (\<open>types.go\<close>, \<open>validate.go\<close>): profiles, work requests, proposals,
  records and revisions, trusted sources, fact metadata and mutations, with the validation
  functions that run before any stored state is read. The unsupported value of a string enum is
  kept as the constructor \<open>\<dots>Other\<close>; the Go zero value of the operation is \<open>StewardOpOther []\<close>.
\<close>

section \<open>Profiles\<close>

record profile_spec =
  pf_profile_id :: string
  pf_version :: nat
  pf_system_prompt :: string
  pf_max_context_records :: int
  pf_max_input_bytes :: int
  pf_max_output_bytes :: int

definition boundedReference :: "string \<Rightarrow> nat \<Rightarrow> bool" where
  "boundedReference value limit \<longleftrightarrow>
    valid_utf8 value \<and> value \<noteq> [] \<and> trim_space value = value \<and> length value \<le> limit \<and>
    \<not> contains_any value [CHR 0x0D, CHR 0x0A, CHR 0x09]"

definition validate_profile_spec :: "profile_spec \<Rightarrow> string + unit" where
  "validate_profile_spec p =
    rbind (guard (boundedReference (pf_profile_id p) 128 \<and> pf_version p \<noteq> 0)
      ''profile ID and non-zero version are required'') (\<lambda>_.
    rbind (guard (valid_utf8 (pf_system_prompt p) \<and> trim_space (pf_system_prompt p) \<noteq> [] \<and>
        length (pf_system_prompt p) \<le> 32768)
      ''system prompt must be 1..32768 UTF-8 bytes'') (\<lambda>_.
    rbind (guard (0 \<le> pf_max_context_records p \<and> pf_max_context_records p \<le> 64)
      ''max context Records must be 0..64'') (\<lambda>_.
    rbind (guard (131072 \<le> pf_max_input_bytes p \<and> pf_max_input_bytes p \<le> 1048576)
      ''max input bytes must be 131072..1048576'') (\<lambda>_.
    guard (1024 \<le> pf_max_output_bytes p \<and> pf_max_output_bytes p \<le> 131072)
      ''max output bytes must be 1024..131072''))))"

section \<open>Trusted sources\<close>

datatype role = RoleUserQuote | RoleConfirmation | RoleObservation | RoleInference | RoleOther string

primrec role_text :: "role \<Rightarrow> string" where
  "role_text RoleUserQuote = ''user_quote''"
| "role_text RoleConfirmation = ''structured_confirmation''"
| "role_text RoleObservation = ''observation''"
| "role_text RoleInference = ''inference''"
| "role_text (RoleOther s) = s"

record source =
  src_producer :: string
  src_event_id :: string
  src_revision :: string
  src_fragment :: string
  src_subject :: string
  src_fact_key :: string
  src_role :: role

definition bounded :: "string \<Rightarrow> nat \<Rightarrow> bool \<Rightarrow> bool" where
  "bounded s n required \<longleftrightarrow>
    valid_utf8 s \<and> length s \<le> n \<and> (\<not> required \<or> s \<noteq> []) \<and> trim_space s = s \<and>
    \<not> contains_any s [CHR 0x0D, CHR 0x0A, CHR 0x00]"

definition validate_source :: "source \<Rightarrow> string + unit" where
  "validate_source s =
    rbind (guard (list_all (\<lambda>v. bounded v 256 True)
        [src_producer s, src_event_id s, src_revision s, src_fragment s, src_subject s])
      ''source identity and subject must be 1..256 bounded UTF-8 bytes'') (\<lambda>_.
    rbind (guard (bounded (src_fact_key s) 128 False) ''invalid source fact key'') (\<lambda>_.
    guard (src_role s \<in> {RoleUserQuote, RoleConfirmation, RoleObservation, RoleInference})
      ''unsupported source role''))"

section \<open>Work requests\<close>

record receipt_input =
  ri_receipt_id :: string
  ri_text :: string
  ri_occurred_at :: "instant option"
  ri_received_at :: instant
  ri_subject :: string
  ri_fact_key :: string
  ri_sources :: "source list"

record record_context =
  rc_record_id :: string
  rc_revision :: nat
  rc_kind :: string
  rc_text :: string
  rc_evidence_refs :: "string list"
  rc_subject :: string
  rc_fact_key :: string

text \<open>\<open>LexiconCandidates\<close> belongs to the experimental lexicon and stays empty without it.\<close>

record work_request =
  wr_protocol :: string
  wr_profile :: profile_spec
  wr_receipt :: receipt_input
  wr_records :: "record_context list"

definition StewardProtocolVersion :: string where
  "StewardProtocolVersion = ''memory.steward.v1alpha1''"

definition json_time :: "instant \<Rightarrow> json" where
  "json_time t = JStr (formatTime t)"

definition json_profile_spec :: "profile_spec \<Rightarrow> json" where
  "json_profile_spec p = JObj
    [(''profile_id'', JStr (pf_profile_id p)), (''version'', JInt (int (pf_version p))),
     (''system_prompt'', JStr (pf_system_prompt p)),
     (''max_context_records'', JInt (pf_max_context_records p)),
     (''max_input_bytes'', JInt (pf_max_input_bytes p)),
     (''max_output_bytes'', JInt (pf_max_output_bytes p))]"

definition json_source_ref :: "source \<Rightarrow> json" where
  "json_source_ref s = JObj
    ([(''producer'', JStr (src_producer s)), (''event_id'', JStr (src_event_id s))] @
     omit_str ''revision'' (src_revision s) @ omit_str ''fragment'' (src_fragment s) @
     omit_str ''subject'' (src_subject s) @ omit_str ''fact_key'' (src_fact_key s) @
     [(''role'', JStr (role_text (src_role s)))])"

definition json_receipt_input :: "receipt_input \<Rightarrow> json" where
  "json_receipt_input r = JObj
    ([(''receipt_id'', JStr (ri_receipt_id r)), (''text'', JStr (ri_text r))] @
     (case ri_occurred_at r of None \<Rightarrow> [] | Some t \<Rightarrow> [(''occurred_at'', json_time t)]) @
     [(''received_at'', json_time (ri_received_at r))] @
     omit_str ''subject'' (ri_subject r) @ omit_str ''fact_key'' (ri_fact_key r) @
     omit_arr ''sources'' (map json_source_ref (ri_sources r)))"

text \<open>A record without evidence rows has the nil slice, which is encoded as \<open>null\<close>.\<close>

definition json_record_context :: "record_context \<Rightarrow> json" where
  "json_record_context r = JObj
    ([(''record_id'', JStr (rc_record_id r)), (''revision'', JInt (int (rc_revision r))),
      (''kind'', JStr (rc_kind r)), (''text'', JStr (rc_text r)),
      (''evidence_refs'', if rc_evidence_refs r = [] then JNull else JArr (map JStr (rc_evidence_refs r)))] @
     omit_str ''subject'' (rc_subject r) @ omit_str ''fact_key'' (rc_fact_key r))"

definition json_work_request :: "work_request \<Rightarrow> json" where
  "json_work_request r = JObj
    [(''protocol'', JStr (wr_protocol r)), (''profile'', json_profile_spec (wr_profile r)),
     (''receipt'', json_receipt_input (wr_receipt r)),
     (''records'', JArr (map json_record_context (wr_records r)))]"

definition EncodedSize :: "work_request \<Rightarrow> int" where
  "EncodedSize r = int (length (json_encode (json_work_request r)))"

section \<open>Proposals\<close>

datatype steward_op =
  OperationAdd | OperationMerge | OperationSupersede | OperationIgnore | StewardOpOther string

primrec steward_op_text :: "steward_op \<Rightarrow> string" where
  "steward_op_text OperationAdd = ''ADD''"
| "steward_op_text OperationMerge = ''MERGE''"
| "steward_op_text OperationSupersede = ''SUPERSEDE''"
| "steward_op_text OperationIgnore = ''IGNORE''"
| "steward_op_text (StewardOpOther s) = s"

record proposal_op =
  op_operation :: steward_op
  op_target_record_id :: string
  op_expected_revision :: nat
  op_kind :: string
  op_text :: string
  op_evidence_refs :: "string list"

record proposal =
  pr_op :: proposal_op
  pr_lexicon_terms :: "string list"
  pr_policy :: string
  pr_ops :: "proposal_op list"

definition MaxRecordTextBytes :: nat where "MaxRecordTextBytes = 32768"
definition MaxRecordKindBytes :: nat where "MaxRecordKindBytes = 64"
definition MaxProposalEvidence :: nat where "MaxProposalEvidence = 32"
definition MaxLexiconTerms :: nat where "MaxLexiconTerms = 16"
definition MaxProposalOps :: nat where "MaxProposalOps = 8"
definition PolicyBoundedBatch :: string where "PolicyBoundedBatch = ''bounded_batch''"

definition IsBatch :: "proposal \<Rightarrow> bool" where
  "IsBatch p \<longleftrightarrow> pr_ops p \<noteq> []"

definition BatchOps :: "proposal \<Rightarrow> proposal_op list" where
  "BatchOps p = (if IsBatch p then pr_ops p else [pr_op p])"

definition json_proposal_op_fields :: "proposal_op \<Rightarrow> (string \<times> json) list" where
  "json_proposal_op_fields p =
    [(''operation'', JStr (steward_op_text (op_operation p)))] @
    omit_str ''target_record_id'' (op_target_record_id p) @
    omit_nat ''expected_revision'' (op_expected_revision p) @
    omit_str ''kind'' (op_kind p) @ omit_str ''text'' (op_text p) @
    omit_arr ''evidence_refs'' (map JStr (op_evidence_refs p))"

definition json_proposal :: "proposal \<Rightarrow> json" where
  "json_proposal p = JObj
    (json_proposal_op_fields (pr_op p) @ omit_arr ''lexicon_terms'' (map JStr (pr_lexicon_terms p)) @
     omit_str ''policy'' (pr_policy p) @
     omit_arr ''ops'' (map (\<lambda>op. JObj (json_proposal_op_fields op)) (pr_ops p)))"

fun validate_evidence_refs :: "string list \<Rightarrow> string list \<Rightarrow> string + unit" where
  "validate_evidence_refs seen [] = Inr ()"
| "validate_evidence_refs seen (r # rest) =
    rbind (guard (r \<noteq> []) ''proposal evidence reference is empty'') (\<lambda>_.
    rbind (guard (r \<notin> set seen) ''proposal evidence references must be unique'') (\<lambda>_.
    validate_evidence_refs (r # seen) rest))"

definition validateProposalMutation :: "proposal_op \<Rightarrow> string + unit" where
  "validateProposalMutation p =
    rbind (case op_operation p of
        OperationIgnore \<Rightarrow>
          guard (op_target_record_id p = [] \<and> op_expected_revision p = 0 \<and> op_kind p = [] \<and>
              op_text p = [] \<and> op_evidence_refs p = []) ''IGNORE cannot contain mutation fields''
      | OperationAdd \<Rightarrow>
          guard (op_target_record_id p = [] \<and> op_expected_revision p = 0)
            ''ADD cannot target an existing Record''
      | StewardOpOther s \<Rightarrow> Inl (''unsupported proposal operation '' @ s)
      | _ \<Rightarrow>
          guard (op_target_record_id p \<noteq> [] \<and> op_expected_revision p \<noteq> 0)
            (steward_op_text (op_operation p) @ '' requires a target Record and expected revision'')) (\<lambda>_.
    if op_operation p = OperationIgnore then Inr () else
    rbind (guard (valid_utf8 (op_kind p) \<and> op_kind p \<noteq> [] \<and> trim_space (op_kind p) = op_kind p \<and>
        length (op_kind p) \<le> MaxRecordKindBytes \<and>
        \<not> contains_any (op_kind p) [CHR 0x0D, CHR 0x0A, CHR 0x09])
      ''record kind must be bounded non-whitespace UTF-8'') (\<lambda>_.
    rbind (guard (valid_utf8 (op_text p) \<and> trim_space (op_text p) \<noteq> [] \<and>
        length (op_text p) \<le> MaxRecordTextBytes)
      ''record text must be 1..32768 UTF-8 bytes'') (\<lambda>_.
    rbind (guard (op_evidence_refs p \<noteq> [] \<and> length (op_evidence_refs p) \<le> MaxProposalEvidence)
      ''proposal evidence count must be 1..32'') (\<lambda>_.
    validate_evidence_refs [] (op_evidence_refs p)))))"

fun validate_lexicon_terms_from :: "string list \<Rightarrow> string list \<Rightarrow> string + unit" where
  "validate_lexicon_terms_from seen [] = Inr ()"
| "validate_lexicon_terms_from seen (t # rest) =
    rbind (guard (valid_utf8 t \<and> trim_space t = t \<and> t \<noteq> [] \<and> length t \<le> 128 \<and>
        \<not> contains_any t [CHR 0x0D, CHR 0x0A, CHR 0x09, CHR 0x20])
      ''lexicon term must be bounded non-whitespace UTF-8'') (\<lambda>_.
    rbind (guard (t \<notin> set seen) ''lexicon terms must be unique'') (\<lambda>_.
    validate_lexicon_terms_from (t # seen) rest))"

definition validateLexiconTerms :: "string list \<Rightarrow> string + unit" where
  "validateLexiconTerms terms =
    rbind (guard (length terms \<le> MaxLexiconTerms) ''lexicon term count must be 0..16'') (\<lambda>_.
    validate_lexicon_terms_from [] terms)"

fun validate_batch_ops :: "string list \<Rightarrow> proposal_op list \<Rightarrow> string + unit" where
  "validate_batch_ops targets [] = Inr ()"
| "validate_batch_ops targets (op # rest) =
    rbind (validateProposalMutation op) (\<lambda>_.
    rbind (guard (op_target_record_id op = [] \<or> op_target_record_id op \<notin> set targets)
      ''bounded batch may target each Record once'') (\<lambda>_.
    validate_batch_ops
      (if op_target_record_id op = [] then targets else op_target_record_id op # targets) rest))"

definition validateBatchShape :: "proposal \<Rightarrow> string + unit" where
  "validateBatchShape p =
    rbind (guard (pr_policy p = PolicyBoundedBatch) ''multi-op proposal requires policy bounded_batch'') (\<lambda>_.
    rbind (guard (op_operation (pr_op p) = StewardOpOther [] \<and> op_target_record_id (pr_op p) = [] \<and>
        op_expected_revision (pr_op p) = 0 \<and> op_kind (pr_op p) = [] \<and> op_text (pr_op p) = [] \<and>
        op_evidence_refs (pr_op p) = [])
      ''bounded batch cannot also carry single-op fields'') (\<lambda>_.
    rbind (guard (pr_ops p \<noteq> [] \<and> length (pr_ops p) \<le> MaxProposalOps)
      ''bounded batch op count must be 1..8'') (\<lambda>_.
    rbind (validate_batch_ops [] (pr_ops p)) (\<lambda>_.
    validateLexiconTerms (pr_lexicon_terms p)))))"

definition ValidateShape :: "proposal \<Rightarrow> string + unit" where
  "ValidateShape p =
    (if IsBatch p then validateBatchShape p
     else rbind (guard (pr_policy p = []) ''proposal policy requires a bounded ops batch'') (\<lambda>_.
          rbind (validateProposalMutation (pr_op p)) (\<lambda>_.
          validateLexiconTerms (pr_lexicon_terms p))))"

section \<open>Records, revisions and results\<close>

datatype record_status = RecordStatusActive | RecordStatusInvalidated

record steward_record =
  sr_record_id :: string
  sr_space_id :: string
  sr_labels :: "string list"
  sr_kind :: string
  sr_status :: record_status
  sr_current_revision :: nat
  sr_invalidated_reason :: string
  sr_created_at :: instant
  sr_updated_at :: instant

record steward_revision =
  sv_record_id :: string
  sv_revision :: nat
  sv_space_id :: string
  sv_kind :: string
  sv_text :: string
  sv_operation :: steward_op
  sv_job_id :: string
  sv_evidence :: "(string \<times> string) list"
  sv_created_at :: instant

record apply_result_op =
  aro_operation :: steward_op
  aro_record_id :: string
  aro_revision :: nat

record apply_result =
  ar_operation :: steward_op
  ar_record_id :: string
  ar_revision :: nat
  ar_ops :: "apply_result_op list"
  ar_lexicon_activated :: nat
  ar_deduplicated_retry :: bool

record lease =
  ls_job_id :: string
  ls_token :: string

record fail_request =
  fr_lease :: lease
  fr_code :: string
  fr_retryable :: bool

section \<open>Fact metadata and mutations\<close>

datatype adoption = AdoptionPending | AdoptionConfirmed | AdoptionDenied | AdoptionOther string

datatype transition =
  TransitionEstablish | TransitionChange | TransitionException | TransitionCorrect
| TransitionConfirm | TransitionDeny | TransitionOther string

record condition =
  cn_key :: string
  cn_value :: string

record metadata =
  md_subject :: string
  md_key :: string
  md_adoption :: adoption
  md_valid_from :: "instant option"
  md_valid_until :: "instant option"
  md_conditions :: "condition list"
  md_transition :: transition
  md_related_record_id :: string

record mutation =
  mu_transition :: transition
  mu_target_record_id :: string
  mu_expected_revision :: nat
  mu_subject :: string
  mu_key :: string
  mu_text :: string
  mu_valid_from :: "instant option"
  mu_valid_until :: "instant option"
  mu_conditions :: "condition list"

record submit_request =
  sub_source :: source
  sub_text :: string
  sub_occurred_at :: "instant option"
  sub_idempotency_key :: string
  sub_mutations :: "mutation list"

definition MaxMutations :: nat where "MaxMutations = 8"

text \<open>\<open>time.Time{}\<close>, the zero time, is the first instant of year 1.\<close>

definition zero_time :: instant where "zero_time = - 62135596800000000000"

fun validate_conditions :: "string list \<Rightarrow> condition list \<Rightarrow> bool" where
  "validate_conditions seen [] = True"
| "validate_conditions seen (c # rest) =
    (bounded (cn_key c) 128 True \<and> bounded (cn_value c) 256 True \<and> cn_key c \<notin> set seen \<and>
     validate_conditions (cn_key c # seen) rest)"

definition validate_mutation :: "mutation \<Rightarrow> string + unit" where
  "validate_mutation m =
    rbind (guard (bounded (mu_subject m) 256 True \<and> bounded (mu_key m) 128 False \<and>
        bounded (mu_target_record_id m) 256 False) ''invalid subject, key or target'') (\<lambda>_.
    rbind (guard (valid_utf8 (mu_text m) \<and> trim_space (mu_text m) \<noteq> [] \<and> length (mu_text m) \<le> 32768)
      ''fact text must be 1..32768 UTF-8 bytes'') (\<lambda>_.
    rbind (case mu_transition m of
        TransitionEstablish \<Rightarrow>
          guard (mu_target_record_id m = [] \<and> mu_expected_revision m = 0) ''establish cannot target a record''
      | TransitionOther s \<Rightarrow> Inl ''unsupported fact transition''
      | _ \<Rightarrow> guard (mu_target_record_id m \<noteq> [] \<and> mu_expected_revision m \<noteq> 0)
          ''lifecycle edit requires target and revision'') (\<lambda>_.
    rbind (guard (mu_valid_from m \<noteq> Some zero_time \<and> mu_valid_until m \<noteq> Some zero_time)
      ''zero effective time is invalid'') (\<lambda>_.
    rbind (guard (case (mu_valid_from m, mu_valid_until m) of (Some f, Some u) \<Rightarrow> f < u | _ \<Rightarrow> True)
      ''valid_until must follow valid_from'') (\<lambda>_.
    rbind (guard (mu_transition m = TransitionChange \<longrightarrow> mu_valid_from m \<noteq> None)
      ''change requires explicit effective time'') (\<lambda>_.
    rbind (guard (mu_transition m = TransitionException \<longrightarrow>
        mu_valid_from m \<noteq> None \<and> mu_valid_until m \<noteq> None \<and> mu_key m \<noteq> [])
      ''exception requires fact key and finite interval'') (\<lambda>_.
    rbind (guard (length (mu_conditions m) \<le> 8) ''at most 8 exact conditions'') (\<lambda>_.
    guard (validate_conditions [] (mu_conditions m))
      ''conditions require unique bounded keys and exact values''))))))))"

definition safelyValidateEvidence :: "submit_request \<Rightarrow> string + unit" where
  "safelyValidateEvidence r =
    rbind (validate_source (sub_source r)) (\<lambda>_.
    validate_remember \<lparr>rem_text = sub_text r, rem_source_context = no_source,
      rem_occurred_at = sub_occurred_at r, rem_idempotency_key = sub_idempotency_key r\<rparr>)"

fun validate_mutations :: "source \<Rightarrow> string list \<Rightarrow> mutation list \<Rightarrow> string + unit" where
  "validate_mutations s targets [] = Inr ()"
| "validate_mutations s targets (m # rest) =
    rbind (validate_mutation m) (\<lambda>_.
    rbind (guard (mu_subject m = src_subject s) ''mutation subject must equal trusted source subject'') (\<lambda>_.
    rbind (guard (mu_target_record_id m = [] \<or> mu_target_record_id m \<notin> set targets)
      ''batch cannot target a record twice'') (\<lambda>_.
    rbind (guard (mu_transition m = TransitionEstablish \<or> src_role s = RoleConfirmation)
      ''lifecycle edits require structured confirmation'') (\<lambda>_.
    validate_mutations s (mu_target_record_id m # targets) rest))))"

definition validate_submit :: "submit_request \<Rightarrow> string + unit" where
  "validate_submit r =
    rbind (safelyValidateEvidence r) (\<lambda>_.
    rbind (guard (length (sub_mutations r) \<le> MaxMutations) ''at most 8 mutations are supported'') (\<lambda>_.
    validate_mutations (sub_source r) [] (sub_mutations r)))"

end
