(* ===== verification/Management_Contract.thy ===== *)
theory Management_Contract
  imports Worker_Contract
begin

text \<open>
  The owner's management contract, \<open>api/memory/management/v1alpha1\<close> (\<open>types.go\<close>, \<open>records.go\<close>,
  \<open>validate.go\<close>) and the issuer-plane requests of \<open>internal/appliance/types.go\<close>: the topology
  of a bootstrap, capability issuance, receipt correction and deletion, and the record views.
\<close>

section \<open>Topology\<close>

record realm =
  rm_id :: string

record identity_def =
  id_id :: string
  id_realm_id :: string

record space_def =
  sd_id :: string
  sd_realm_id :: string
  sd_identity_id :: string
  sd_class :: space_class

record view_definition =
  vd_id :: string
  vd_realm_id :: string
  vd_read_space_ids :: "string list"
  vd_write_space_id :: string
  vd_max_disclosure_class :: space_class
  vd_recall_policy_ref :: string
  vd_version :: nat

record grant_def =
  gd_id :: string
  gd_principal_ref :: string
  gd_actor_ref :: string
  gd_view_ref :: string
  gd_allowed_operations :: "operation list"
  gd_allowed_audiences :: "audience list"
  gd_expires_at :: instant
  gd_revoked :: bool
  gd_version :: nat

record bootstrap_request =
  bs_realms :: "realm list"
  bs_identities :: "identity_def list"
  bs_spaces :: "space_def list"
  bs_views :: "view_definition list"
  bs_grants :: "grant_def list"
  bs_issuer_principals :: "string list"

section \<open>Capability issuance\<close>

record issuer_authorization =
  ia_principal_ref :: string
  ia_credential :: string

record capability_authority_request =
  ca_authorization :: issuer_authorization
  ca_grant_ref :: string
  ca_view_ref :: string
  ca_actor_ref :: string
  ca_audience :: audience
  ca_operations :: "operation list"

record issue_capability_request =
  ic_authorization :: issuer_authorization
  ic_grant_ref :: string
  ic_actor_ref :: string
  ic_audience :: audience
  ic_operations :: "operation list"
  ic_labels :: "string list"
  ic_ttl :: int
  ic_ttl_seconds :: int

record runtime_capability =
  cap_token :: string
  cap_expires_at :: instant

section \<open>Receipt governance\<close>

datatype receipt_state = ReceiptStateActive | ReceiptStateCorrected | ReceiptStateDeleted
datatype record_state = RecordStateActive | RecordStateInvalidated | RecordStateForgetting | RecordStateForgotten
datatype cleanup_state = CleanupStateNone | CleanupStatePending | CleanupStateCompleted

record mgmt_receipt =
  mr_receipt_id :: string
  mr_space_id :: string
  mr_labels :: "string list"
  mr_text :: string
  mr_source_context :: source_context
  mr_occurred_at :: "instant option"
  mr_received_at :: instant
  mr_commit_sequence :: nat
  mr_processing_state :: processing_state
  mr_corrected_by :: string
  mr_correction_of :: string

record tombstone =
  ts_tombstone_id :: string
  ts_receipt_id :: string
  ts_space_id :: string
  ts_deleted_at :: instant
  ts_reason :: string

datatype trace_receipt_response = TracedReceipt receipt_state mgmt_receipt | TracedTombstone tombstone

record correct_request =
  cq_receipt_id :: string
  cq_replacement_text :: string
  cq_reason :: string
  cq_idempotency_key :: string

record correct_response =
  cr_original_receipt_id :: string
  cr_replacement_receipt_id :: string
  cr_consistency_token :: string
  cr_deduplicated_retry :: bool

record delete_request =
  dq_receipt_id :: string
  dq_reason :: string
  dq_idempotency_key :: string

record delete_response =
  dr_deleted :: bool
  dr_receipt_id :: string
  dr_tombstone_id :: string
  dr_deduplicated_retry :: bool
  dr_session_copy_boundary :: string
  dr_invalidation_version :: nat
  dr_cleanup :: cleanup_state

record record_summary =
  sum_record :: steward_record
  sum_state :: record_state

record list_records_request =
  lr_space_id :: string
  lr_limit :: int
  lr_cursor :: string

record list_records_response =
  lrr_records :: "record_summary list"
  lrr_next_cursor :: string
  lrr_truncated :: bool

record trace_record_response =
  tr_state :: record_state
  tr_record :: steward_record
  tr_revisions :: "steward_revision list"
  tr_invalidation_version :: nat
  tr_cleanup :: cleanup_state

record cleanup_status_response =
  cs_receipt_id :: string
  cs_state :: cleanup_state
  cs_invalidation_version :: nat
  cs_pending_barriers :: nat
  cs_started_at :: string
  cs_completed_at :: string

definition json_correct_request :: "correct_request \<Rightarrow> json" where
  "json_correct_request r = JObj
    [(''receipt_id'', JStr (cq_receipt_id r)), (''replacement_text'', JStr (cq_replacement_text r)),
     (''reason'', JStr (cq_reason r)), (''idempotency_key'', JStr (cq_idempotency_key r))]"

definition json_delete_request :: "delete_request \<Rightarrow> json" where
  "json_delete_request r = JObj
    [(''receipt_id'', JStr (dq_receipt_id r)), (''reason'', JStr (dq_reason r)),
     (''idempotency_key'', JStr (dq_idempotency_key r))]"

section \<open>Validation\<close>

definition maxReplacementTextBytes :: nat where "maxReplacementTextBytes = 65536"
definition maxReasonBytes :: nat where "maxReasonBytes = 1024"
definition maxIdempotencyKeyBytes :: nat where "maxIdempotencyKeyBytes = 128"
definition maxRecordListLimit :: int where "maxRecordListLimit = 100"
definition maxRecordCursorBytes :: nat where "maxRecordCursorBytes = 512"

definition validateMutation :: "string \<Rightarrow> string \<Rightarrow> string + unit" where
  "validateMutation reason key =
    rbind (guard (valid_utf8 reason \<and> reason \<noteq> [] \<and> length reason \<le> maxReasonBytes)
      ''reason must be valid UTF-8 and 1..1024 bytes'') (\<lambda>_.
    guard (valid_utf8 key \<and> key \<noteq> [] \<and> length key \<le> maxIdempotencyKeyBytes)
      ''idempotency_key must be valid UTF-8 and 1..128 bytes'')"

definition validate_correct_request :: "correct_request \<Rightarrow> string + unit" where
  "validate_correct_request r =
    rbind (guard (cq_receipt_id r \<noteq> []) ''receipt_id is required'') (\<lambda>_.
    rbind (guard (valid_utf8 (cq_replacement_text r) \<and> cq_replacement_text r \<noteq> [] \<and>
        length (cq_replacement_text r) \<le> maxReplacementTextBytes)
      ''replacement_text must be valid UTF-8 and 1..65536 bytes'') (\<lambda>_.
    validateMutation (cq_reason r) (cq_idempotency_key r)))"

definition validate_delete_request :: "delete_request \<Rightarrow> string + unit" where
  "validate_delete_request r =
    rbind (guard (dq_receipt_id r \<noteq> []) ''receipt_id is required'') (\<lambda>_.
    validateMutation (dq_reason r) (dq_idempotency_key r))"

definition validate_list_records :: "list_records_request \<Rightarrow> string + unit" where
  "validate_list_records r =
    rbind (guard (lr_space_id r \<noteq> []) ''space_id is required'') (\<lambda>_.
    rbind (guard (1 \<le> lr_limit r \<and> lr_limit r \<le> maxRecordListLimit) ''limit must be within 1..100'') (\<lambda>_.
    guard (valid_utf8 (lr_cursor r) \<and> length (lr_cursor r) \<le> maxRecordCursorBytes)
      ''cursor must be valid UTF-8 and at most 512 bytes''))"

end
