(* ===== verification/Schema.thy ===== *)
theory Schema
  imports Management_Contract
begin

text \<open>
  The durable state: one row type per table of \<open>schema_baseline.go\<close>, \<open>facts_schema.go\<close>,
  \<open>steward_migration.go\<close> and \<open>governanceMigrationSQL\<close>, and the database as the record of its
  tables. An \<open>INSERT\<close> is a partial operation \<open>insert_\<dots>\<close> that is \<open>None\<close> when a \<open>PRIMARY KEY\<close>,
  \<open>UNIQUE\<close>, \<open>CHECK\<close> or \<open>REFERENCES\<close> clause of the table rejects the row; the code turns
  \<open>None\<close> into its database error and rolls back. \<open>AUTOINCREMENT\<close> columns draw from a counter that
  never goes back, as SQLite's sequence table does.

  A column that holds a time holds the instant; where a statement compares the stored texts the
  model compares the texts of the instants. A column that holds JSON holds the decoded value, and
  the empty text is \<open>None\<close>. Columns with a \<open>CHECK (\<dots> IN \<dots>)\<close> vocabulary are datatypes. The FTS5
  tables of all Spaces are one list whose rows carry the table name. The tables of the
  experimental adaptive lexicon are left out.
\<close>

section \<open>Rows\<close>

record realm_row =
  rlm_id :: string
  rlm_created_at :: instant

record identity_row =
  idn_id :: string
  idn_realm_id :: string
  idn_created_at :: instant

record space_row =
  sp_id :: string
  sp_realm_id :: string
  sp_identity_id :: "string option"
  sp_class :: space_class
  sp_created_at :: instant

record view_row =
  vw_id :: string
  vw_realm_id :: string
  vw_write_space_id :: "string option"
  vw_max_disclosure_class :: space_class
  vw_recall_policy_ref :: string
  vw_version :: nat
  vw_created_at :: instant

record view_read_space_row =
  vr_view_id :: string
  vr_space_id :: string
  vr_ordinal :: nat

record grant_row =
  gr_id :: string
  gr_principal_ref :: string
  gr_actor_ref :: string
  gr_view_id :: string
  gr_expires_at :: instant
  gr_revoked :: bool
  gr_version :: nat
  gr_created_at :: instant

record issuer_row =
  is_principal_ref :: string
  is_credential_digest :: string
  is_created_at :: instant

record capability_row =
  cp_token_digest :: string
  cp_grant_id :: string
  cp_principal_ref :: string
  cp_view_version :: nat
  cp_actor_ref :: string
  cp_audience :: audience
  cp_expires_at :: instant
  cp_created_at :: instant
  cp_label_set :: "string list"
  cp_label_set_digest :: string

record receipt_row =
  rt_commit_sequence :: nat
  rt_receipt_id :: string
  rt_space_id :: string
  rt_text :: string
  rt_source_context :: source_context
  rt_occurred_at :: "instant option"
  rt_received_at :: instant
  rt_idempotency_key :: string
  rt_request_digest :: string
  rt_consistency_token :: string
  rt_label_set :: "string list"
  rt_label_set_digest :: string

record processing_row =
  pc_receipt_id :: string
  pc_state :: processing_state
  pc_attempts :: nat
  pc_last_attempt_at :: "instant option"
  pc_terminal_error_code :: string
  pc_semantic_generation :: string

record cursor_row =
  cu_token :: string
  cu_generation :: string
  cu_space_id :: string
  cu_commit_sequence :: nat
  cu_label_set_digest :: string

record tombstone_row =
  tb_tombstone_id :: string
  tb_receipt_id :: string
  tb_space_id :: string
  tb_idempotency_key :: string
  tb_request_digest :: string
  tb_deleted_at :: instant
  tb_reason :: string

record correction_row =
  co_original_receipt_id :: string
  co_replacement_receipt_id :: string
  co_space_id :: string
  co_created_at :: instant
  co_reason :: string

datatype effect_result = CorrectEffect correct_response | DeleteEffect delete_response

record effect_row =
  ef_operation :: string
  ef_idempotency_key :: string
  ef_request_digest :: string
  ef_result :: effect_result
  ef_created_at :: instant

record profile_row =
  pfr_spec :: profile_spec
  pfr_created_at :: instant

record binding_row =
  bd_space_id :: string
  bd_profile_id :: string
  bd_profile_version :: nat
  bd_bound_at :: instant

datatype job_state = JobPending | JobLeased | JobCompleted | JobFailed

record job_row =
  jb_job_id :: string
  jb_receipt_id :: string
  jb_space_id :: string
  jb_profile_id :: string
  jb_profile_version :: nat
  jb_state :: job_state
  jb_attempts :: nat
  jb_available_at :: instant
  jb_lease_expires_at :: "instant option"
  jb_lease_token_digest :: string
  jb_proposal_digest :: string
  jb_result :: "apply_result option"
  jb_terminal_error_code :: string
  jb_created_at :: instant
  jb_updated_at :: instant
  jb_label_set :: "string list"
  jb_label_set_digest :: string

record read_set_row =
  rs_job_id :: string
  rs_attempt :: nat
  rs_ordinal :: nat
  rs_record_id :: string
  rs_revision :: nat
  rs_receipt_id :: string

record semantic_row =
  sm_record_id :: string
  sm_space_id :: string
  sm_kind :: string
  sm_status :: record_status
  sm_current_revision :: nat
  sm_invalidated_reason :: string
  sm_created_at :: instant
  sm_updated_at :: instant
  sm_label_set :: "string list"
  sm_label_set_digest :: string
  sm_subject :: string
  sm_fact_key :: string

record revision_row =
  rv_record_id :: string
  rv_revision :: nat
  rv_space_id :: string
  rv_kind :: string
  rv_text :: string
  rv_operation :: steward_op
  rv_job_id :: "string option"
  rv_created_at :: instant
  rv_fact :: "metadata option"

record evidence_row =
  ev_record_id :: string
  ev_revision :: nat
  ev_ordinal :: nat
  ev_receipt_id :: string
  ev_space_id :: string

record evidence_source_row =
  es_space_id :: string
  es_label_set_digest :: string
  es_source_key :: string
  es_receipt_id :: string
  es_source :: "source option"
  es_request_digest :: string
  es_suppressed :: bool

record policy_row =
  ip_space_id :: string
  ip_label_set_digest :: string
  ip_producer :: string
  ip_subject :: string
  ip_denied :: bool
  ip_reason :: string

record change_row =
  mc_sequence :: nat
  mc_space_id :: string
  mc_label_set_digest :: string
  mc_kind :: string
  mc_receipt_id :: string
  mc_record_id :: string
  mc_changed_at :: instant

datatype barrier_kind = BarrierReceiptDeleted | BarrierReceiptCorrected
datatype barrier_status = BarrierPending | BarrierCleaned

record barrier_row =
  fb_sequence :: nat
  fb_space_id :: string
  fb_label_set_digest :: string
  fb_kind :: barrier_kind
  fb_receipt_id :: string
  fb_status :: barrier_status
  fb_created_at :: instant
  fb_cleaned_at :: "instant option"

record barrier_record_row =
  br_sequence :: nat
  br_record_id :: string
  br_space_id :: string

record receipt_fts_row =
  ft_table :: string
  ft_receipt_id :: string
  ft_text :: string
  ft_terms :: string
  ft_ngrams :: string

record semantic_fts_row =
  sf_table :: string
  sf_record_id :: string
  sf_revision :: nat
  sf_text :: string
  sf_terms :: string
  sf_ngrams :: string

section \<open>The database\<close>

record db =
  realms :: "realm_row list"
  identities :: "identity_row list"
  spaces :: "space_row list"
  views :: "view_row list"
  view_read_spaces :: "view_read_space_row list"
  grants :: "grant_row list"
  grant_operations :: "(string \<times> operation) list"
  grant_audiences :: "(string \<times> audience) list"
  issuer_credentials :: "issuer_row list"
  capabilities :: "capability_row list"
  capability_operations :: "(string \<times> operation) list"
  receipts :: "receipt_row list"
  receipts_seq :: nat
  receipt_processing :: "processing_row list"
  consistency_cursors :: "cursor_row list"
  space_indexes :: "(string \<times> string) list"
  receipt_tombstones :: "tombstone_row list"
  receipt_corrections :: "correction_row list"
  management_effects :: "effect_row list"
  steward_profiles :: "profile_row list"
  space_steward_bindings :: "binding_row list"
  steward_jobs :: "job_row list"
  steward_read_set :: "read_set_row list"
  semantic_records :: "semantic_row list"
  semantic_revisions :: "revision_row list"
  semantic_evidence :: "evidence_row list"
  semantic_space_indexes :: "(string \<times> string) list"
  evidence_sources :: "evidence_source_row list"
  ingestion_policies :: "policy_row list"
  memory_changes :: "change_row list"
  memory_changes_seq :: nat
  forgetting_barriers :: "barrier_row list"
  forgetting_barriers_seq :: nat
  forgetting_barrier_records :: "barrier_record_row list"
  governance_legacy_revisions :: "(string \<times> nat) list"
  receipt_fts :: "receipt_fts_row list"
  semantic_fts :: "semantic_fts_row list"

definition empty_db :: db where
  "empty_db = \<lparr>realms = [], identities = [], spaces = [], views = [], view_read_spaces = [],
     grants = [], grant_operations = [], grant_audiences = [], issuer_credentials = [],
     capabilities = [], capability_operations = [], receipts = [], receipts_seq = 0,
     receipt_processing = [], consistency_cursors = [], space_indexes = [], receipt_tombstones = [],
     receipt_corrections = [], management_effects = [], steward_profiles = [],
     space_steward_bindings = [], steward_jobs = [], steward_read_set = [], semantic_records = [],
     semantic_revisions = [], semantic_evidence = [], semantic_space_indexes = [],
     evidence_sources = [], ingestion_policies = [], memory_changes = [], memory_changes_seq = 0,
     forgetting_barriers = [], forgetting_barriers_seq = 0, forgetting_barrier_records = [],
     governance_legacy_revisions = [], receipt_fts = [], semantic_fts = []\<rparr>"

section \<open>Lookups by key\<close>

definition space_of :: "string \<Rightarrow> db \<Rightarrow> space_row option" where
  "space_of k d = List.find (\<lambda>r. sp_id r = k) (spaces d)"

definition view_of :: "string \<Rightarrow> db \<Rightarrow> view_row option" where
  "view_of k d = List.find (\<lambda>r. vw_id r = k) (views d)"

definition grant_of :: "string \<Rightarrow> db \<Rightarrow> grant_row option" where
  "grant_of k d = List.find (\<lambda>r. gr_id r = k) (grants d)"

definition receipt_of :: "string \<Rightarrow> db \<Rightarrow> receipt_row option" where
  "receipt_of k d = List.find (\<lambda>r. rt_receipt_id r = k) (receipts d)"

definition processing_of :: "string \<Rightarrow> db \<Rightarrow> processing_row option" where
  "processing_of k d = List.find (\<lambda>r. pc_receipt_id r = k) (receipt_processing d)"

definition job_of :: "string \<Rightarrow> db \<Rightarrow> job_row option" where
  "job_of k d = List.find (\<lambda>r. jb_job_id r = k) (steward_jobs d)"

definition record_of :: "string \<Rightarrow> db \<Rightarrow> semantic_row option" where
  "record_of k d = List.find (\<lambda>r. sm_record_id r = k) (semantic_records d)"

definition revision_of :: "string \<Rightarrow> nat \<Rightarrow> db \<Rightarrow> revision_row option" where
  "revision_of k n d = List.find (\<lambda>r. (rv_record_id r, rv_revision r) = (k, n)) (semantic_revisions d)"

definition barrier_of :: "nat \<Rightarrow> db \<Rightarrow> barrier_row option" where
  "barrier_of k d = List.find (\<lambda>r. fb_sequence r = k) (forgetting_barriers d)"

section \<open>Constraint tests\<close>

definition clash_receipt :: "receipt_row \<Rightarrow> receipt_row \<Rightarrow> bool" where
  "clash_receipt a b \<longleftrightarrow> rt_receipt_id a = rt_receipt_id b \<or>
     rt_consistency_token a = rt_consistency_token b \<or>
     (rt_space_id a, rt_idempotency_key a) = (rt_space_id b, rt_idempotency_key b)"

definition clash_tombstone :: "tombstone_row \<Rightarrow> tombstone_row \<Rightarrow> bool" where
  "clash_tombstone a b \<longleftrightarrow> tb_tombstone_id a = tb_tombstone_id b \<or> tb_receipt_id a = tb_receipt_id b \<or>
     (tb_space_id a, tb_idempotency_key a) = (tb_space_id b, tb_idempotency_key b)"

definition clash_job :: "job_row \<Rightarrow> job_row \<Rightarrow> bool" where
  "clash_job a b \<longleftrightarrow> jb_job_id a = jb_job_id b \<or> jb_receipt_id a = jb_receipt_id b"

definition clash_evidence :: "evidence_row \<Rightarrow> evidence_row \<Rightarrow> bool" where
  "clash_evidence a b \<longleftrightarrow>
     (ev_record_id a, ev_revision a, ev_ordinal a) = (ev_record_id b, ev_revision b, ev_ordinal b) \<or>
     (ev_record_id a, ev_revision a, ev_receipt_id a) = (ev_record_id b, ev_revision b, ev_receipt_id b)"

definition clash_barrier :: "barrier_row \<Rightarrow> barrier_row \<Rightarrow> bool" where
  "clash_barrier a b \<longleftrightarrow> fb_sequence a = fb_sequence b \<or>
     (fb_kind a, fb_receipt_id a) = (fb_kind b, fb_receipt_id b)"

definition clash_source :: "evidence_source_row \<Rightarrow> evidence_source_row \<Rightarrow> bool" where
  "clash_source a b \<longleftrightarrow> es_receipt_id a = es_receipt_id b \<or>
     (es_space_id a, es_label_set_digest a, es_source_key a)
       = (es_space_id b, es_label_set_digest b, es_source_key b)"

definition clash_on :: "('r \<Rightarrow> 'k) \<Rightarrow> 'r \<Rightarrow> 'r \<Rightarrow> bool" where
  "clash_on key a b \<longleftrightarrow> key a = key b"

definition has_space :: "string \<Rightarrow> db \<Rightarrow> bool" where
  "has_space k d \<longleftrightarrow> list_ex (\<lambda>r. sp_id r = k) (spaces d)"

definition has_profile :: "string \<Rightarrow> nat \<Rightarrow> db \<Rightarrow> bool" where
  "has_profile k v d \<longleftrightarrow>
     list_ex (\<lambda>r. pf_profile_id (pfr_spec r) = k \<and> pf_version (pfr_spec r) = v) (steward_profiles d)"

text \<open>\<open>insert_into\<close> is an \<open>INSERT\<close>: the row constraints \<open>ok\<close> (checks and references) and the
  uniqueness test of the table, then the write.\<close>

definition insert_into ::
  "bool \<Rightarrow> ('r \<Rightarrow> 'r \<Rightarrow> bool) \<Rightarrow> 'r \<Rightarrow> 'r list \<Rightarrow> ('r list \<Rightarrow> db) \<Rightarrow> db option" where
  "insert_into ok clash r rows put =
     (if ok then map_option put (tbl_insert clash r rows) else None)"

lemma insert_into_Some [tbl_simps]:
  "insert_into ok clash r rows put = Some d' \<longleftrightarrow>
     ok \<and> (\<forall>r'\<in>set rows. \<not> clash r r') \<and> d' = put (rows @ [r])"
  by (auto simp: insert_into_def tbl_insert_Some)

section \<open>Inserts\<close>

definition insert_realm :: "realm_row \<Rightarrow> db \<Rightarrow> db option" where
  "insert_realm r d = insert_into True (clash_on rlm_id) r (realms d) (\<lambda>t. d\<lparr>realms := t\<rparr>)"

definition insert_identity :: "identity_row \<Rightarrow> db \<Rightarrow> db option" where
  "insert_identity r d = insert_into (list_ex (\<lambda>m. rlm_id m = idn_realm_id r) (realms d))
     (clash_on idn_id) r (identities d) (\<lambda>t. d\<lparr>identities := t\<rparr>)"

definition insert_space :: "space_row \<Rightarrow> db \<Rightarrow> db option" where
  "insert_space r d = insert_into
     (list_ex (\<lambda>m. rlm_id m = sp_realm_id r) (realms d) \<and>
      (case sp_identity_id r of
         None \<Rightarrow> sp_class r = SpaceClassShared
       | Some i \<Rightarrow> sp_class r = SpaceClassPrivate \<and> list_ex (\<lambda>m. idn_id m = i) (identities d)))
     (clash_on sp_id) r (spaces d) (\<lambda>t. d\<lparr>spaces := t\<rparr>)"

definition insert_view :: "view_row \<Rightarrow> db \<Rightarrow> db option" where
  "insert_view r d = insert_into
     (list_ex (\<lambda>m. rlm_id m = vw_realm_id r) (realms d) \<and>
      (case vw_write_space_id r of None \<Rightarrow> True | Some s \<Rightarrow> has_space s d) \<and>
      vw_max_disclosure_class r \<in> {SpaceClassPrivate, SpaceClassShared} \<and> vw_version r > 0)
     (clash_on vw_id) r (views d) (\<lambda>t. d\<lparr>views := t\<rparr>)"

definition insert_view_read_space :: "view_read_space_row \<Rightarrow> db \<Rightarrow> db option" where
  "insert_view_read_space r d = insert_into
     (list_ex (\<lambda>m. vw_id m = vr_view_id r) (views d) \<and> has_space (vr_space_id r) d)
     (\<lambda>a b. vr_view_id a = vr_view_id b \<and> (vr_space_id a = vr_space_id b \<or> vr_ordinal a = vr_ordinal b))
     r (view_read_spaces d) (\<lambda>t. d\<lparr>view_read_spaces := t\<rparr>)"

definition insert_grant :: "grant_row \<Rightarrow> db \<Rightarrow> db option" where
  "insert_grant r d = insert_into
     (list_ex (\<lambda>m. vw_id m = gr_view_id r) (views d) \<and> gr_version r > 0)
     (clash_on gr_id) r (grants d) (\<lambda>t. d\<lparr>grants := t\<rparr>)"

definition known_operation :: "operation \<Rightarrow> bool" where
  "known_operation p \<longleftrightarrow> p \<in> {OperationRemember, OperationRecall, OperationReceiptStatus}"

definition insert_grant_operation :: "string \<Rightarrow> operation \<Rightarrow> db \<Rightarrow> db option" where
  "insert_grant_operation g p d = insert_into
     (list_ex (\<lambda>m. gr_id m = g) (grants d) \<and> known_operation p)
     (clash_on id) (g, p) (grant_operations d) (\<lambda>t. d\<lparr>grant_operations := t\<rparr>)"

definition insert_grant_audience :: "string \<Rightarrow> audience \<Rightarrow> db \<Rightarrow> db option" where
  "insert_grant_audience g a d = insert_into
     (list_ex (\<lambda>m. gr_id m = g) (grants d) \<and> a \<in> {AudiencePrivate, AudienceShared})
     (clash_on id) (g, a) (grant_audiences d) (\<lambda>t. d\<lparr>grant_audiences := t\<rparr>)"

definition insert_issuer_credential :: "issuer_row \<Rightarrow> db \<Rightarrow> db option" where
  "insert_issuer_credential r d = insert_into True (clash_on is_principal_ref) r
     (issuer_credentials d) (\<lambda>t. d\<lparr>issuer_credentials := t\<rparr>)"

definition insert_capability :: "capability_row \<Rightarrow> db \<Rightarrow> db option" where
  "insert_capability r d = insert_into
     (list_ex (\<lambda>m. gr_id m = cp_grant_id r) (grants d) \<and> cp_audience r \<in> {AudiencePrivate, AudienceShared})
     (clash_on cp_token_digest) r (capabilities d) (\<lambda>t. d\<lparr>capabilities := t\<rparr>)"

definition insert_capability_operation :: "string \<Rightarrow> operation \<Rightarrow> db \<Rightarrow> db option" where
  "insert_capability_operation c p d = insert_into
     (list_ex (\<lambda>m. cp_token_digest m = c) (capabilities d) \<and> known_operation p)
     (clash_on id) (c, p) (capability_operations d) (\<lambda>t. d\<lparr>capability_operations := t\<rparr>)"

text \<open>The sequence column of the row is overwritten by the next \<open>AUTOINCREMENT\<close> value.\<close>

definition insert_receipt :: "receipt_row \<Rightarrow> db \<Rightarrow> db option" where
  "insert_receipt r d =
    (let n = receipts_seq d + 1 in
     insert_into (has_space (rt_space_id r) d) clash_receipt (r\<lparr>rt_commit_sequence := n\<rparr>)
       (receipts d) (\<lambda>t. d\<lparr>receipts := t, receipts_seq := n\<rparr>))"

definition insert_processing :: "processing_row \<Rightarrow> db \<Rightarrow> db option" where
  "insert_processing r d = insert_into
     (list_ex (\<lambda>m. rt_receipt_id m = pc_receipt_id r) (receipts d))
     (clash_on pc_receipt_id) r (receipt_processing d) (\<lambda>t. d\<lparr>receipt_processing := t\<rparr>)"

definition insert_cursor :: "cursor_row \<Rightarrow> db \<Rightarrow> db option" where
  "insert_cursor r d = insert_into (has_space (cu_space_id r) d)
     (clash_on cu_token) r (consistency_cursors d) (\<lambda>t. d\<lparr>consistency_cursors := t\<rparr>)"

definition insert_space_index :: "string \<Rightarrow> string \<Rightarrow> db \<Rightarrow> db option" where
  "insert_space_index s t d = insert_into (has_space s d)
     (\<lambda>a b. fst a = fst b \<or> snd a = snd b) (s, t) (space_indexes d) (\<lambda>x. d\<lparr>space_indexes := x\<rparr>)"

definition insert_semantic_space_index :: "string \<Rightarrow> string \<Rightarrow> db \<Rightarrow> db option" where
  "insert_semantic_space_index s t d = insert_into (has_space s d)
     (\<lambda>a b. fst a = fst b \<or> snd a = snd b) (s, t) (semantic_space_indexes d)
     (\<lambda>x. d\<lparr>semantic_space_indexes := x\<rparr>)"

definition insert_tombstone :: "tombstone_row \<Rightarrow> db \<Rightarrow> db option" where
  "insert_tombstone r d = insert_into (has_space (tb_space_id r) d) clash_tombstone r
     (receipt_tombstones d) (\<lambda>t. d\<lparr>receipt_tombstones := t\<rparr>)"

definition insert_correction :: "correction_row \<Rightarrow> db \<Rightarrow> db option" where
  "insert_correction r d = insert_into (has_space (co_space_id r) d)
     (\<lambda>a b. co_original_receipt_id a = co_original_receipt_id b \<or>
            co_replacement_receipt_id a = co_replacement_receipt_id b)
     r (receipt_corrections d) (\<lambda>t. d\<lparr>receipt_corrections := t\<rparr>)"

definition insert_effect :: "effect_row \<Rightarrow> db \<Rightarrow> db option" where
  "insert_effect r d = insert_into True (clash_on (\<lambda>x. (ef_operation x, ef_idempotency_key x))) r
     (management_effects d) (\<lambda>t. d\<lparr>management_effects := t\<rparr>)"

definition insert_profile :: "profile_row \<Rightarrow> db \<Rightarrow> db option" where
  "insert_profile r d = insert_into
     (pf_version (pfr_spec r) > 0 \<and>
      0 \<le> pf_max_context_records (pfr_spec r) \<and> pf_max_context_records (pfr_spec r) \<le> 64 \<and>
      1024 \<le> pf_max_input_bytes (pfr_spec r) \<and> pf_max_input_bytes (pfr_spec r) \<le> 1048576 \<and>
      1024 \<le> pf_max_output_bytes (pfr_spec r) \<and> pf_max_output_bytes (pfr_spec r) \<le> 131072)
     (clash_on (\<lambda>x. (pf_profile_id (pfr_spec x), pf_version (pfr_spec x)))) r
     (steward_profiles d) (\<lambda>t. d\<lparr>steward_profiles := t\<rparr>)"

definition insert_job :: "job_row \<Rightarrow> db \<Rightarrow> db option" where
  "insert_job r d = insert_into
     (has_space (jb_space_id r) d \<and> has_profile (jb_profile_id r) (jb_profile_version r) d)
     clash_job r (steward_jobs d) (\<lambda>t. d\<lparr>steward_jobs := t\<rparr>)"

definition insert_read_set :: "read_set_row \<Rightarrow> db \<Rightarrow> db option" where
  "insert_read_set r d = insert_into (rs_revision r > 0)
     (clash_on (\<lambda>x. (rs_job_id x, rs_attempt x, rs_ordinal x))) r
     (steward_read_set d) (\<lambda>t. d\<lparr>steward_read_set := t\<rparr>)"

definition insert_record :: "semantic_row \<Rightarrow> db \<Rightarrow> db option" where
  "insert_record r d = insert_into (has_space (sm_space_id r) d \<and> sm_current_revision r > 0)
     (clash_on sm_record_id) r (semantic_records d) (\<lambda>t. d\<lparr>semantic_records := t\<rparr>)"

text \<open>\<open>facts_schema.go\<close> drops the \<open>NOT NULL UNIQUE\<close> of \<open>job_id\<close>: one bounded-batch job may write
  several revisions, and a fact revision has no job.\<close>

definition insert_revision :: "revision_row \<Rightarrow> db \<Rightarrow> db option" where
  "insert_revision r d = insert_into
     (rv_revision r > 0 \<and> rv_operation r \<in> {OperationAdd, OperationMerge, OperationSupersede} \<and>
      list_ex (\<lambda>m. sm_record_id m = rv_record_id r \<and> sm_space_id m = rv_space_id r) (semantic_records d) \<and>
      (case rv_job_id r of None \<Rightarrow> True
       | Some j \<Rightarrow> list_ex (\<lambda>m. jb_job_id m = j \<and> jb_space_id m = rv_space_id r) (steward_jobs d)))
     (clash_on (\<lambda>x. (rv_record_id x, rv_revision x))) r
     (semantic_revisions d) (\<lambda>t. d\<lparr>semantic_revisions := t\<rparr>)"

definition insert_evidence :: "evidence_row \<Rightarrow> db \<Rightarrow> db option" where
  "insert_evidence r d = insert_into
     (list_ex (\<lambda>m. rv_record_id m = ev_record_id r \<and> rv_revision m = ev_revision r \<and>
        rv_space_id m = ev_space_id r) (semantic_revisions d))
     clash_evidence r (semantic_evidence d) (\<lambda>t. d\<lparr>semantic_evidence := t\<rparr>)"

definition insert_evidence_source :: "evidence_source_row \<Rightarrow> db \<Rightarrow> db option" where
  "insert_evidence_source r d = insert_into (has_space (es_space_id r) d) clash_source r
     (evidence_sources d) (\<lambda>t. d\<lparr>evidence_sources := t\<rparr>)"

definition insert_change :: "change_row \<Rightarrow> db \<Rightarrow> db option" where
  "insert_change r d =
    (let n = memory_changes_seq d + 1 in
     insert_into (has_space (mc_space_id r) d) (clash_on mc_sequence) (r\<lparr>mc_sequence := n\<rparr>)
       (memory_changes d) (\<lambda>t. d\<lparr>memory_changes := t, memory_changes_seq := n\<rparr>))"

definition insert_barrier :: "barrier_row \<Rightarrow> db \<Rightarrow> db option" where
  "insert_barrier r d =
    (let n = forgetting_barriers_seq d + 1 in
     insert_into (has_space (fb_space_id r) d) clash_barrier (r\<lparr>fb_sequence := n\<rparr>)
       (forgetting_barriers d) (\<lambda>t. d\<lparr>forgetting_barriers := t, forgetting_barriers_seq := n\<rparr>))"

definition insert_barrier_record :: "barrier_record_row \<Rightarrow> db \<Rightarrow> db option" where
  "insert_barrier_record r d = insert_into
     (list_ex (\<lambda>b. fb_sequence b = br_sequence r) (forgetting_barriers d) \<and> has_space (br_space_id r) d)
     (clash_on (\<lambda>x. (br_sequence x, br_record_id x))) r
     (forgetting_barrier_records d) (\<lambda>t. d\<lparr>forgetting_barrier_records := t\<rparr>)"

section \<open>The uniqueness contracts of the model's tables\<close>

interpretation receipt_key: keyed_table rt_receipt_id clash_receipt
  by unfold_locales (simp add: clash_receipt_def)

interpretation effect_identity: keyed_table "\<lambda>r. (rt_space_id r, rt_idempotency_key r)" clash_receipt
  by unfold_locales (simp add: clash_receipt_def)

interpretation tombstone_key: keyed_table tb_receipt_id clash_tombstone
  by unfold_locales (simp add: clash_tombstone_def)

interpretation job_key: keyed_table jb_job_id clash_job
  by unfold_locales (simp add: clash_job_def)

interpretation job_receipt: keyed_table jb_receipt_id clash_job
  by unfold_locales (simp add: clash_job_def)

interpretation barrier_key: keyed_table fb_sequence clash_barrier
  by unfold_locales (simp add: clash_barrier_def)

interpretation source_key: keyed_table es_receipt_id clash_source
  by unfold_locales (simp add: clash_source_def)

interpretation plain_key: keyed_table key "clash_on key" for key
  by unfold_locales (simp add: clash_on_def)

end
