(* ===== verification/Topology.thy ===== *)
theory Topology
  imports Schema
begin

text \<open>
  The authority plane of \<open>internal/appliance/config.go\<close>: \<open>Bootstrap\<close> creates realms, identities,
  Spaces, Views, Grants and issuer credentials in one transaction; \<open>IssueCapability\<close> turns a
  Grant into a random bearer; \<open>authorize\<close> is the check every data-plane call makes;
  \<open>RevokeGrant\<close> and \<open>RotateIssuerCredential\<close> withdraw authority. The lemmas show what a returned
  View guarantees, that revocation is immediate, that an issued capability works and never
  outlives its Grant, and the disclosure invariant: a shared audience never reaches a private
  Space.

  A call reads the clock once (\<open>Options.Clock\<close> does not move during a call), and its random
  source is the byte string it may still read; \<open>io.ReadFull\<close> fails when it is too short.
\<close>

section \<open>The store\<close>

record store =
  sto_generation :: string
  sto_closing :: bool
  sto_restore_pending :: bool

definition serviceError :: "error_code \<Rightarrow> string \<Rightarrow> bool \<Rightarrow> error" where
  "serviceError code message retryable = ServiceError code message retryable"

text \<open>The only database failure of the model is a rejected statement, never a context error.\<close>

definition databaseError :: "string \<Rightarrow> error" where
  "databaseError message = serviceError ErrorCodeUnavailable message True"

definition requireMutableGeneration :: "store \<Rightarrow> error + unit" where
  "requireMutableGeneration s =
    rbind (guard (\<not> sto_closing s)
      (serviceError ErrorCodeUnavailable ''appliance is shutting down'' False)) (\<lambda>_.
    guard (\<not> sto_restore_pending s)
      (serviceError ErrorCodeUnavailable ''restored generation awaits operator commit'' False))"

definition read_random :: "nat \<Rightarrow> string \<Rightarrow> (string \<times> string) option" where
  "read_random n rnd = (if n \<le> length rnd then Some (take n rnd, drop n rnd) else None)"

definition randomHex :: "nat \<Rightarrow> string \<Rightarrow> (string \<times> string) option" where
  "randomHex n rnd = map_option (\<lambda>(raw, rest). (hex_encode raw, rest)) (read_random n rnd)"

definition randomToken :: "nat \<Rightarrow> string \<Rightarrow> (string \<times> string) option" where
  "randomToken n rnd = map_option (\<lambda>(raw, rest). (base64url raw, rest)) (read_random n rnd)"

section \<open>Bootstrap\<close>

definition realmExists :: "db \<Rightarrow> string \<Rightarrow> bool" where
  "realmExists d realmID \<longleftrightarrow> list_ex (\<lambda>r. rlm_id r = realmID) (realms d)"

definition readSpaceScope :: "db \<Rightarrow> string \<Rightarrow> (space_class \<times> string) option" where
  "readSpaceScope d spaceID = map_option (\<lambda>r. (sp_class r, sp_realm_id r)) (space_of spaceID d)"

definition create_realm :: "instant \<Rightarrow> realm \<Rightarrow> db \<Rightarrow> error + db" where
  "create_realm now r d =
    rbind (guard (rm_id r \<noteq> []) (Errorf ''realm ID is required'')) (\<lambda>_.
    of_opt (Errorf ''create Realm'') (insert_realm \<lparr>rlm_id = rm_id r, rlm_created_at = now\<rparr> d))"

definition create_identity :: "instant \<Rightarrow> identity_def \<Rightarrow> db \<Rightarrow> error + db" where
  "create_identity now i d =
    rbind (guard (id_id i \<noteq> [] \<and> id_realm_id i \<noteq> []) (Errorf ''identity and realm IDs are required'')) (\<lambda>_.
    rbind (guard (realmExists d (id_realm_id i)) (Errorf ''Realm does not exist'')) (\<lambda>_.
    of_opt (Errorf ''create Identity'')
      (insert_identity \<lparr>idn_id = id_id i, idn_realm_id = id_realm_id i, idn_created_at = now\<rparr> d)))"

definition validateSpace :: "db \<Rightarrow> space_def \<Rightarrow> error + unit" where
  "validateSpace d s =
    rbind (guard (sd_id s \<noteq> [] \<and> sd_realm_id s \<noteq> []) (Errorf ''space and realm IDs are required'')) (\<lambda>_.
    rbind (guard (realmExists d (sd_realm_id s)) (Errorf ''Realm does not exist'')) (\<lambda>_.
    (case sd_class s of
       SpaceClassPrivate \<Rightarrow>
         rbind (guard (sd_identity_id s \<noteq> []) (Errorf ''private Space requires an Identity'')) (\<lambda>_.
         guard (case List.find (\<lambda>r. idn_id r = sd_identity_id s) (identities d) of
                  None \<Rightarrow> False | Some r \<Rightarrow> idn_realm_id r = sd_realm_id s)
           (Errorf ''private Space requires an Identity in the same Realm''))
     | SpaceClassShared \<Rightarrow>
         guard (sd_identity_id s = []) (Errorf ''shared Space cannot be owned by one Identity'')
     | SpaceClassOther c \<Rightarrow> Inl (Errorf ''unsupported Space class''))))"

definition spaceIndexTable :: "string \<Rightarrow> string" where
  "spaceIndexTable spaceID = ''receipt_fts_'' @ digestString spaceID"

definition semanticSpaceIndexTable :: "string \<Rightarrow> string" where
  "semanticSpaceIndexTable spaceID = ''semantic_fts_'' @ digestString spaceID"

definition createSpaceIndex :: "string \<Rightarrow> db \<Rightarrow> error + db" where
  "createSpaceIndex spaceID d =
    rbind (of_opt (Errorf ''record Space index'')
      (insert_space_index spaceID (spaceIndexTable spaceID) d)) (\<lambda>d.
    of_opt (Errorf ''record Space semantic index'')
      (insert_semantic_space_index spaceID (semanticSpaceIndexTable spaceID) d))"

definition create_space :: "instant \<Rightarrow> space_def \<Rightarrow> db \<Rightarrow> error + db" where
  "create_space now s d =
    rbind (validateSpace d s) (\<lambda>_.
    rbind (of_opt (Errorf ''create Space'')
      (insert_space \<lparr>sp_id = sd_id s, sp_realm_id = sd_realm_id s,
         sp_identity_id = (if sd_identity_id s = [] then None else Some (sd_identity_id s)),
         sp_class = sd_class s, sp_created_at = now\<rparr> d)) (\<lambda>d.
    createSpaceIndex (sd_id s) d))"

fun check_read_spaces ::
  "db \<Rightarrow> string \<Rightarrow> string list \<Rightarrow> space_class \<Rightarrow> string list \<Rightarrow> error + (string list \<times> space_class)" where
  "check_read_spaces d realmID seen mostRestrictive [] = Inr (seen, mostRestrictive)"
| "check_read_spaces d realmID seen mostRestrictive (spaceID # rest) =
    (case readSpaceScope d spaceID of
       None \<Rightarrow> Inl (Errorf ''read Space is absent or belongs to another Realm'')
     | Some (class, spaceRealm) \<Rightarrow>
         rbind (guard (spaceRealm = realmID)
           (Errorf ''read Space is absent or belongs to another Realm'')) (\<lambda>_.
         rbind (guard (spaceID \<notin> set seen) (Errorf ''read Space is duplicated'')) (\<lambda>_.
         check_read_spaces d realmID (spaceID # seen)
           (if class = SpaceClassPrivate then SpaceClassPrivate else mostRestrictive) rest)))"

definition check_write_space ::
  "db \<Rightarrow> string \<Rightarrow> string list \<Rightarrow> space_class \<Rightarrow> string \<Rightarrow> error + space_class" where
  "check_write_space d realmID seen mostRestrictive spaceID =
    (if spaceID = [] then Inr mostRestrictive
     else (case readSpaceScope d spaceID of
       None \<Rightarrow> Inl (Errorf ''write Space is absent or belongs to another Realm'')
     | Some (class, spaceRealm) \<Rightarrow>
         rbind (guard (spaceRealm = realmID)
           (Errorf ''write Space is absent or belongs to another Realm'')) (\<lambda>_.
         rbind (guard (spaceID \<in> set seen) (Errorf ''write Space must also be readable'')) (\<lambda>_.
         Inr (if class = SpaceClassPrivate then SpaceClassPrivate else mostRestrictive)))))"

fun insert_view_spaces :: "string \<Rightarrow> nat \<Rightarrow> string list \<Rightarrow> db \<Rightarrow> error + db" where
  "insert_view_spaces viewID ordinal [] d = Inr d"
| "insert_view_spaces viewID ordinal (spaceID # rest) d =
    rbind (of_opt (Errorf ''create View read Space'')
      (insert_view_read_space \<lparr>vr_view_id = viewID, vr_space_id = spaceID, vr_ordinal = ordinal\<rparr> d))
      (insert_view_spaces viewID (Suc ordinal) rest)"

definition createView :: "instant \<Rightarrow> view_definition \<Rightarrow> db \<Rightarrow> error + db" where
  "createView now v d =
    rbind (guard (vd_id v \<noteq> [] \<and> vd_realm_id v \<noteq> [] \<and> vd_version v \<noteq> 0)
      (Errorf ''view ID, realm ID, and non-zero version are required'')) (\<lambda>_.
    rbind (guard (vd_read_space_ids v \<noteq> []) (Errorf ''View requires at least one readable Space'')) (\<lambda>_.
    rbind (check_read_spaces d (vd_realm_id v) [] SpaceClassShared (vd_read_space_ids v)) (\<lambda>(seen, readClass).
    rbind (check_write_space d (vd_realm_id v) seen readClass (vd_write_space_id v)) (\<lambda>mostRestrictive.
    rbind (guard (vd_max_disclosure_class v = mostRestrictive)
      (Errorf ''View disclosure class does not match accessible data class'')) (\<lambda>_.
    rbind (of_opt (Errorf ''create View'')
      (insert_view \<lparr>vw_id = vd_id v, vw_realm_id = vd_realm_id v,
         vw_write_space_id = (if vd_write_space_id v = [] then None else Some (vd_write_space_id v)),
         vw_max_disclosure_class = vd_max_disclosure_class v,
         vw_recall_policy_ref = vd_recall_policy_ref v, vw_version = vd_version v,
         vw_created_at = now\<rparr> d)) (\<lambda>d.
    insert_view_spaces (vd_id v) 0 (vd_read_space_ids v) d))))))"

definition validOperation :: "operation \<Rightarrow> bool" where
  "validOperation p = (case p of OperationOther _ \<Rightarrow> False | _ \<Rightarrow> True)"

definition validAudience :: "audience \<Rightarrow> bool" where
  "validAudience a \<longleftrightarrow> a = AudiencePrivate \<or> a = AudienceShared"

definition check_grant_audience ::
  "db \<Rightarrow> grant_def \<Rightarrow> view_row \<Rightarrow> audience \<Rightarrow> unit \<Rightarrow> error + unit" where
  "check_grant_audience d g v a u =
    rbind (guard (validAudience a) (Errorf ''unsupported audience'')) (\<lambda>_.
    rbind (guard (\<not> (a = AudienceShared \<and> vw_max_disclosure_class v = SpaceClassPrivate))
      (Errorf ''private View cannot be granted to shared audience'')) (\<lambda>_.
    guard (a = AudiencePrivate \<and> OperationRemember \<in> set (gd_allowed_operations g) \<longrightarrow>
        (case vw_write_space_id v of None \<Rightarrow> False
         | Some s \<Rightarrow> map_option fst (readSpaceScope d s) = Some SpaceClassPrivate))
      (Errorf ''private audience Remember requires a private write Space'')))"

definition createGrant :: "instant \<Rightarrow> grant_def \<Rightarrow> db \<Rightarrow> error + db" where
  "createGrant now g d =
    rbind (guard (gd_id g \<noteq> [] \<and> gd_principal_ref g \<noteq> [] \<and> gd_actor_ref g \<noteq> [] \<and> gd_view_ref g \<noteq> [] \<and>
        gd_version g \<noteq> 0)
      (Errorf ''grant identity, principal, actor, View, and version are required'')) (\<lambda>_.
    rbind (guard (now < gd_expires_at g) (Errorf ''Grant expiration must be in the future'')) (\<lambda>_.
    rbind (guard (gd_allowed_operations g \<noteq> [] \<and> gd_allowed_audiences g \<noteq> [])
      (Errorf ''Grant requires operations and audiences'')) (\<lambda>_.
    rbind (of_opt (Errorf ''View does not exist'') (view_of (gd_view_ref g) d)) (\<lambda>v.
    rbind (guard (list_all validOperation (gd_allowed_operations g)) (Errorf ''unsupported operation'')) (\<lambda>_.
    rbind (fold_res (check_grant_audience d g v) (gd_allowed_audiences g) ()) (\<lambda>_.
    rbind (of_opt (Errorf ''create Grant'')
      (insert_grant \<lparr>gr_id = gd_id g, gr_principal_ref = gd_principal_ref g,
         gr_actor_ref = gd_actor_ref g, gr_view_id = gd_view_ref g, gr_expires_at = gd_expires_at g,
         gr_revoked = gd_revoked g, gr_version = gd_version g, gr_created_at = now\<rparr> d)) (\<lambda>d.
    rbind (fold_res (\<lambda>p d. of_opt (Errorf ''create Grant operation'') (insert_grant_operation (gd_id g) p d))
      (gd_allowed_operations g) d) (\<lambda>d.
    fold_res (\<lambda>a d. of_opt (Errorf ''create Grant audience'') (insert_grant_audience (gd_id g) a d))
      (gd_allowed_audiences g) d))))))))"

definition create_issuer ::
  "instant \<Rightarrow> string \<Rightarrow> (string \<times> string) list \<times> string \<times> db \<Rightarrow>
   error + ((string \<times> string) list \<times> string \<times> db)" where
  "create_issuer now prin state =
    (case state of (credentials, rnd, d) \<Rightarrow>
     rbind (guard (prin \<noteq> []) (Errorf ''issuer principal is required'')) (\<lambda>_.
     rbind (of_opt (Errorf ''create issuer credential'') (randomToken 32 rnd)) (\<lambda>(credential, rnd).
     rbind (of_opt (Errorf ''create issuer credential for principal'')
       (insert_issuer_credential \<lparr>is_principal_ref = prin,
          is_credential_digest = digestBytes credential, is_created_at = now\<rparr> d)) (\<lambda>d.
     Inr (credentials @ [(prin, credential)], rnd, d)))))"

definition Bootstrap ::
  "store \<Rightarrow> instant \<Rightarrow> string \<Rightarrow> bootstrap_request \<Rightarrow> db \<Rightarrow> error + ((string \<times> string) list \<times> db)" where
  "Bootstrap s now rnd request d =
    rbind (requireMutableGeneration s) (\<lambda>_.
    rbind (fold_res (create_realm now) (bs_realms request) d) (\<lambda>d.
    rbind (fold_res (create_identity now) (bs_identities request) d) (\<lambda>d.
    rbind (fold_res (create_space now) (bs_spaces request) d) (\<lambda>d.
    rbind (fold_res (createView now) (bs_views request) d) (\<lambda>d.
    rbind (fold_res (createGrant now) (bs_grants request) d) (\<lambda>d.
    rbind (fold_res (create_issuer now) (bs_issuer_principals request) ([], rnd, d)) (\<lambda>(credentials, rnd, d).
    Inr (credentials, d))))))))"

section \<open>Capability issuance\<close>

record validated_authority =
  va_principal :: string
  va_actor :: string
  va_view_version :: nat
  va_grant_expires :: instant

definition validateCapabilityAuthority ::
  "instant \<Rightarrow> db \<Rightarrow> capability_authority_request \<Rightarrow> error + validated_authority" where
  "validateCapabilityAuthority now d r =
    rbind (guard (ia_principal_ref (ca_authorization r) \<noteq> [] \<and> ia_credential (ca_authorization r) \<noteq> [])
      (ErrCapabilityIssueInvalid ''issuer authorization is required'')) (\<lambda>_.
    rbind (of_opt ErrCapabilityIssueUnauthorized
      (List.find (\<lambda>i. is_principal_ref i = ia_principal_ref (ca_authorization r)) (issuer_credentials d))) (\<lambda>issuer.
    rbind (guard (is_credential_digest issuer = digestBytes (ia_credential (ca_authorization r)))
      ErrCapabilityIssueUnauthorized) (\<lambda>_.
    rbind (of_opt ErrCapabilityIssueUnauthorized (grant_of (ca_grant_ref r) d)) (\<lambda>g.
    rbind (guard (\<not> gr_revoked g \<and> now < gr_expires_at g \<and>
        gr_principal_ref g = ia_principal_ref (ca_authorization r)) ErrCapabilityIssueUnauthorized) (\<lambda>_.
    rbind (guard (ca_actor_ref r = gr_actor_ref g \<and> (ca_view_ref r = [] \<or> ca_view_ref r = gr_view_id g))
      ErrCapabilityIssueUnauthorized) (\<lambda>_.
    rbind (guard ((ca_grant_ref r, ca_audience r) \<in> set (grant_audiences d)) ErrCapabilityIssueUnauthorized) (\<lambda>_.
    rbind (guard (ca_operations r \<noteq> []) (ErrCapabilityIssueInvalid ''at least one operation is required'')) (\<lambda>_.
    rbind (guard (list_all (\<lambda>p. validOperation p \<and> (ca_grant_ref r, p) \<in> set (grant_operations d)) (ca_operations r))
      ErrCapabilityIssueUnauthorized) (\<lambda>_.
    rbind (of_opt ErrCapabilityIssueUnauthorized (view_of (gr_view_id g) d)) (\<lambda>v.
    Inr \<lparr>va_principal = gr_principal_ref g, va_actor = gr_actor_ref g, va_view_version = vw_version v,
      va_grant_expires = gr_expires_at g\<rparr>))))))))))"

definition ValidateCapabilityAuthority ::
  "store \<Rightarrow> instant \<Rightarrow> db \<Rightarrow> capability_authority_request \<Rightarrow> error + unit" where
  "ValidateCapabilityAuthority s now d r =
    rbind (requireMutableGeneration s) (\<lambda>_.
    rbind (guard (ca_view_ref r \<noteq> []) (ErrCapabilityIssueInvalid ''expected View is required'')) (\<lambda>_.
    rbind (validateCapabilityAuthority now d r) (\<lambda>_. Inr ())))"

definition maxCapabilityTTL :: int where "maxCapabilityTTL = 24 * 3600 * second_ns"

definition capability_ttl :: "issue_capability_request \<Rightarrow> error + int" where
  "capability_ttl r =
    rbind (if ic_ttl r = 0 \<and> ic_ttl_seconds r > 0
      then (if ic_ttl_seconds r > maxCapabilityTTL div second_ns
            then Inl (ErrCapabilityIssueInvalid ''capability TTL exceeds 24 hours'')
            else Inr (ic_ttl_seconds r * second_ns))
      else Inr (ic_ttl r)) (\<lambda>ttl.
    rbind (guard (0 < ttl \<and> ttl \<le> maxCapabilityTTL)
      (ErrCapabilityIssueInvalid ''capability TTL must be between 1 nanosecond and 24 hours'')) (\<lambda>_.
    Inr ttl))"

definition IssueCapability ::
  "store \<Rightarrow> instant \<Rightarrow> string \<Rightarrow> issue_capability_request \<Rightarrow> db \<Rightarrow> error + (runtime_capability \<times> db)" where
  "IssueCapability s now rnd r d =
    rbind (requireMutableGeneration s) (\<lambda>_.
    rbind (guard (ia_principal_ref (ic_authorization r) \<noteq> [] \<and> ia_credential (ic_authorization r) \<noteq> [])
      (ErrCapabilityIssueInvalid ''issuer authorization is required'')) (\<lambda>_.
    rbind (map_err ErrCapabilityIssueInvalid (normalizeLabelSet (ic_labels r))) (\<lambda>labels.
    rbind (capability_ttl r) (\<lambda>ttl.
    rbind (validateCapabilityAuthority now d
      \<lparr>ca_authorization = ic_authorization r, ca_grant_ref = ic_grant_ref r, ca_view_ref = [],
       ca_actor_ref = ic_actor_ref r, ca_audience = ic_audience r, ca_operations = ic_operations r\<rparr>) (\<lambda>authority.
    (let expiresAt = (if va_grant_expires authority < now + ttl then va_grant_expires authority else now + ttl) in
    rbind (of_opt (Errorf ''create capability'') (randomToken 32 rnd)) (\<lambda>(token, rnd).
    (let tokenDigest = digestBytes token in
    rbind (of_opt (Errorf ''store capability'')
      (insert_capability \<lparr>cp_token_digest = tokenDigest, cp_grant_id = ic_grant_ref r,
         cp_principal_ref = va_principal authority, cp_view_version = va_view_version authority,
         cp_actor_ref = va_actor authority, cp_audience = ic_audience r, cp_expires_at = expiresAt,
         cp_created_at = now, cp_label_set = ls_labels labels, cp_label_set_digest = ls_digest labels\<rparr> d)) (\<lambda>d.
    rbind (fold_res (\<lambda>p d. of_opt (Errorf ''store capability operation'')
        (insert_capability_operation tokenDigest p d)) (ic_operations r) d) (\<lambda>d.
    Inr (\<lparr>cap_token = token, cap_expires_at = expiresAt\<rparr>, d)))))))))))"

definition RotateIssuerCredential ::
  "store \<Rightarrow> instant \<Rightarrow> string \<Rightarrow> string \<Rightarrow> db \<Rightarrow> error + (issuer_authorization \<times> db)" where
  "RotateIssuerCredential s now rnd principalRef d =
    rbind (requireMutableGeneration s) (\<lambda>_.
    rbind (guard (principalRef \<noteq> []) (Errorf ''issuer principal is required'')) (\<lambda>_.
    rbind (of_opt (Errorf ''create issuer credential'') (randomToken 32 rnd)) (\<lambda>(credential, rnd).
    (let p = (\<lambda>i. is_principal_ref i = principalRef) in
     if tbl_affected p (issuer_credentials d) = 0 then Inl (Errorf ''issuer principal does not exist'')
     else Inr (\<lparr>ia_principal_ref = principalRef, ia_credential = credential\<rparr>,
       d\<lparr>issuer_credentials := tbl_update p
           (\<lambda>i. i\<lparr>is_credential_digest := digestBytes credential, is_created_at := now\<rparr>)
           (issuer_credentials d)\<rparr>)))))"

definition RevokeGrant :: "store \<Rightarrow> string \<Rightarrow> db \<Rightarrow> error + db" where
  "RevokeGrant s grantID d =
    rbind (requireMutableGeneration s) (\<lambda>_.
    (let p = (\<lambda>g. gr_id g = grantID) in
     if tbl_affected p (grants d) = 0 then Inl (Errorf ''Grant does not exist'')
     else Inr (d\<lparr>grants := tbl_update p (\<lambda>g. g\<lparr>gr_revoked := True\<rparr>) (grants d)\<rparr>)))"

section \<open>Authorization\<close>

record authorized_view =
  av_id :: string
  av_version :: nat
  av_read_space_ids :: "string list"
  av_write_space_id :: string
  av_max_disclosure_class :: space_class
  av_labels :: "string list"
  av_label_set_digest :: string

definition unauthorized :: "string \<Rightarrow> error" where
  "unauthorized message = serviceError ErrorCodeUnauthorized message False"

definition read_view_spaces :: "string \<Rightarrow> db \<Rightarrow> string list" where
  "read_view_spaces viewID d =
    map vr_space_id (sort_key vr_ordinal (filter (\<lambda>r. vr_view_id r = viewID) (view_read_spaces d)))"

definition authorize ::
  "instant \<Rightarrow> db \<Rightarrow> call_authorization \<Rightarrow> operation \<Rightarrow> error + authorized_view" where
  "authorize now d auth operation =
    rbind (guard (auth_capability auth \<noteq> []) (unauthorized ''capability is missing or unknown'')) (\<lambda>_.
    (let tokenDigest = digestBytes (auth_capability auth) in
    rbind (of_opt (unauthorized ''capability is missing or unknown'')
      (List.find (\<lambda>c. cp_token_digest c = tokenDigest) (capabilities d))) (\<lambda>c.
    rbind (guard (now < cp_expires_at c) (unauthorized ''capability is expired or revoked'')) (\<lambda>_.
    rbind (map_err (\<lambda>_. serviceError ErrorCodeInternal ''stored capability LabelSet is invalid'' False)
      (decodeStoredLabelSet (cp_label_set c) (cp_label_set_digest c))) (\<lambda>labels.
    rbind (of_opt (unauthorized ''capability is expired or revoked'') (grant_of (cp_grant_id c) d)) (\<lambda>g.
    rbind (guard (\<not> gr_revoked g \<and> now < gr_expires_at g \<and> cp_principal_ref c = gr_principal_ref g)
      (unauthorized ''capability is expired or revoked'')) (\<lambda>_.
    rbind (guard (auth_actor_ref auth = cp_actor_ref c \<and> auth_actor_ref auth = gr_actor_ref g)
      (unauthorized ''capability actor mismatch'')) (\<lambda>_.
    rbind (guard (auth_audience auth = cp_audience c \<and>
        (cp_grant_id c, auth_audience auth) \<in> set (grant_audiences d))
      (unauthorized ''capability audience mismatch'')) (\<lambda>_.
    rbind (guard ((tokenDigest, operation) \<in> set (capability_operations d) \<and>
        (cp_grant_id c, operation) \<in> set (grant_operations d))
      (unauthorized ''capability operation mismatch'')) (\<lambda>_.
    rbind (of_opt (unauthorized ''capability View is stale'') (view_of (gr_view_id g) d)) (\<lambda>v.
    rbind (guard (vw_version v = cp_view_version c) (unauthorized ''capability View is stale'')) (\<lambda>_.
    rbind (guard (\<not> (auth_audience auth = AudienceShared \<and> vw_max_disclosure_class v = SpaceClassPrivate))
      (unauthorized ''private View is incompatible with shared audience'')) (\<lambda>_.
    (let writeSpaceID = (case vw_write_space_id v of None \<Rightarrow> [] | Some w \<Rightarrow> w) in
    rbind (guard (operation = OperationRemember \<and> auth_audience auth = AudiencePrivate \<longrightarrow>
        map_option fst (readSpaceScope d writeSpaceID) = Some SpaceClassPrivate)
      (unauthorized ''private Runtime cannot write shared memory'')) (\<lambda>_.
    Inr \<lparr>av_id = gr_view_id g, av_version = vw_version v,
      av_read_space_ids = read_view_spaces (gr_view_id g) d, av_write_space_id = writeSpaceID,
      av_max_disclosure_class = vw_max_disclosure_class v, av_labels = ls_labels labels,
      av_label_set_digest = ls_digest labels\<rparr>)))))))))))))))"

section \<open>What authorization guarantees\<close>

text \<open>\<open>authorize_spec\<close> is the specification: the rows a granted call rests on.\<close>

definition authorize_spec ::
  "instant \<Rightarrow> db \<Rightarrow> call_authorization \<Rightarrow> operation \<Rightarrow> capability_row \<Rightarrow> grant_row \<Rightarrow> view_row \<Rightarrow> bool" where
  "authorize_spec now d auth operation c g v \<longleftrightarrow>
     c \<in> set (capabilities d) \<and> g \<in> set (grants d) \<and> v \<in> set (views d) \<and>
     cp_token_digest c = digestBytes (auth_capability auth) \<and> gr_id g = cp_grant_id c \<and>
     vw_id v = gr_view_id g \<and> vw_version v = cp_view_version c \<and>
     now < cp_expires_at c \<and> now < gr_expires_at g \<and> \<not> gr_revoked g \<and>
     cp_principal_ref c = gr_principal_ref g \<and>
     auth_actor_ref auth = cp_actor_ref c \<and> auth_actor_ref auth = gr_actor_ref g \<and>
     auth_audience auth = cp_audience c \<and>
     (gr_id g, auth_audience auth) \<in> set (grant_audiences d) \<and>
     (gr_id g, operation) \<in> set (grant_operations d) \<and>
     (cp_token_digest c, operation) \<in> set (capability_operations d) \<and>
     \<not> (auth_audience auth = AudienceShared \<and> vw_max_disclosure_class v = SpaceClassPrivate) \<and>
     (operation = OperationRemember \<and> auth_audience auth = AudiencePrivate \<longrightarrow>
        map_option fst (readSpaceScope d (case vw_write_space_id v of None \<Rightarrow> [] | Some w \<Rightarrow> w)) = Some SpaceClassPrivate)"

lemma authorize_Inr:
  assumes "authorize now d auth operation = Inr av"
  obtains c g v where "authorize_spec now d auth operation c g v"
    and "List.find (\<lambda>c. cp_token_digest c = digestBytes (auth_capability auth)) (capabilities d) = Some c"
    and "grant_of (cp_grant_id c) d = Some g" and "view_of (gr_view_id g) d = Some v"
    and "av_read_space_ids av = read_view_spaces (vw_id v) d"
    and "av_write_space_id av = (case vw_write_space_id v of None \<Rightarrow> [] | Some w \<Rightarrow> w)"
    and "av_max_disclosure_class av = vw_max_disclosure_class v"
    and "decodeStoredLabelSet (cp_label_set c) (cp_label_set_digest c)
           = Inr \<lparr>ls_labels = av_labels av, ls_encoded = encode_label_set (av_labels av),
                  ls_digest = av_label_set_digest av\<rparr>"
proof -
  from assms obtain c l g v where
    c: "List.find (\<lambda>c. cp_token_digest c = digestBytes (auth_capability auth)) (capabilities d) = Some c"
    and l: "decodeStoredLabelSet (cp_label_set c) (cp_label_set_digest c) = Inr l"
    and g: "grant_of (cp_grant_id c) d = Some g" and v: "view_of (gr_view_id g) d = Some v"
    and guards: "now < cp_expires_at c" "\<not> gr_revoked g" "now < gr_expires_at g"
      "cp_principal_ref c = gr_principal_ref g" "auth_actor_ref auth = cp_actor_ref c"
      "auth_actor_ref auth = gr_actor_ref g" "auth_audience auth = cp_audience c"
      "(cp_grant_id c, auth_audience auth) \<in> set (grant_audiences d)"
      "(digestBytes (auth_capability auth), operation) \<in> set (capability_operations d)"
      "(cp_grant_id c, operation) \<in> set (grant_operations d)" "vw_version v = cp_view_version c"
      "\<not> (auth_audience auth = AudienceShared \<and> vw_max_disclosure_class v = SpaceClassPrivate)"
      "operation = OperationRemember \<and> auth_audience auth = AudiencePrivate \<longrightarrow>
        map_option fst (readSpaceScope d (case vw_write_space_id v of None \<Rightarrow> [] | Some w \<Rightarrow> w)) = Some SpaceClassPrivate"
    and av: "av = \<lparr>av_id = gr_view_id g, av_version = vw_version v,
        av_read_space_ids = read_view_spaces (gr_view_id g) d,
        av_write_space_id = (case vw_write_space_id v of None \<Rightarrow> [] | Some w \<Rightarrow> w),
        av_max_disclosure_class = vw_max_disclosure_class v, av_labels = ls_labels l,
        av_label_set_digest = ls_digest l\<rparr>"
    unfolding authorize_def Let_def
    apply (elim run_elims conjE)
    apply (rule that)
    apply assumption+
    done
  have keys: "c \<in> set (capabilities d)" "cp_token_digest c = digestBytes (auth_capability auth)"
    "g \<in> set (grants d)" "gr_id g = cp_grant_id c" "v \<in> set (views d)" "vw_id v = gr_view_id g"
    using c g v by (auto simp: grant_of_def view_of_def dest: find_Some_iff2)
  have "authorize_spec now d auth operation c g v"
    using guards keys by (simp add: authorize_spec_def)
  moreover have "l = \<lparr>ls_labels = av_labels av, ls_encoded = encode_label_set (av_labels av),
      ls_digest = av_label_set_digest av\<rparr>"
    using l by (auto simp: av decodeStoredLabelSet_def normalizeLabelSet_def result_simps Let_def)
  ultimately show thesis using that[OF _ c g v] l keys by (simp add: av)
qed

text \<open>
  Claim C5. A call is authorised only on live, unrevoked authority: the presented bearer's digest
  is a stored capability that has not expired, its Grant is neither revoked nor expired, the
  capability and the Grant name the same principal and both name the calling actor, the audience
  and the operation are in the capability and in the Grant, the View has the version the capability
  was issued for, a shared audience never gets a View whose disclosure class is private, and a
  private audience remembers only into a private Space. The view handed on is that View's read
  Spaces, write Space and disclosure class with the LabelSet the capability stores.
\<close>

theorem authorize_sound:
  assumes "authorize now d auth operation = Inr av"
  shows "\<exists>c g v. authorize_spec now d auth operation c g v \<and>
           av_read_space_ids av = read_view_spaces (vw_id v) d \<and>
           av_write_space_id av = (case vw_write_space_id v of None \<Rightarrow> [] | Some w \<Rightarrow> w) \<and>
           av_max_disclosure_class av = vw_max_disclosure_class v \<and>
           (\<exists>l. decodeStoredLabelSet (cp_label_set c) (cp_label_set_digest c) = Inr l \<and>
              ls_labels l = av_labels av \<and> ls_digest l = av_label_set_digest av)"
proof -
  from assms obtain c g v where "authorize_spec now d auth operation c g v"
    "av_read_space_ids av = read_view_spaces (vw_id v) d"
    "av_write_space_id av = (case vw_write_space_id v of None \<Rightarrow> [] | Some w \<Rightarrow> w)"
    "av_max_disclosure_class av = vw_max_disclosure_class v"
    "decodeStoredLabelSet (cp_label_set c) (cp_label_set_digest c)
       = Inr \<lparr>ls_labels = av_labels av, ls_encoded = encode_label_set (av_labels av),
              ls_digest = av_label_set_digest av\<rparr>"
    by (elim authorize_Inr)
  then show ?thesis by (intro exI[of _ c] exI[of _ g] exI[of _ v]) simp
qed

section \<open>Revocation\<close>

lemma grant_of_revoked:
  assumes "RevokeGrant s grantID d = Inr d'" and "grant_of grantID d' = Some g"
  shows "gr_revoked g"
proof -
  have "grants d' = tbl_update (\<lambda>g. gr_id g = grantID) (\<lambda>g. g\<lparr>gr_revoked := True\<rparr>) (grants d)"
    using assms(1) by (auto simp: RevokeGrant_def result_simps Let_def split: if_splits)
  with assms(2) have "map_option (\<lambda>r. if gr_id r = grantID then r\<lparr>gr_revoked := True\<rparr> else r)
      (List.find (\<lambda>r. gr_id r = grantID) (grants d)) = Some g"
    by (simp add: grant_of_def find_tbl_update_stable)
  then show ?thesis by (auto dest: find_Some_iff2)
qed

text \<open>
  Claim C6. Revocation is immediate and covers every capability derived from the Grant: after
  \<open>RevokeGrant\<close> no bearer whose capability names that Grant is authorised for anything, at any
  time and for any actor or audience.
\<close>

theorem revoked_grant_never_authorizes:
  assumes "RevokeGrant s grantID d = Inr d'"
    and "List.find (\<lambda>c. cp_token_digest c = digestBytes (auth_capability auth)) (capabilities d) = Some c"
    and "cp_grant_id c = grantID"
  shows "\<exists>err. authorize now d' auth operation = Inl err"
proof (cases "authorize now d' auth operation")
  case (Inl err)
  then show ?thesis by blast
next
  case (Inr av)
  have "capabilities d' = capabilities d"
    using assms(1) by (auto simp: RevokeGrant_def result_simps Let_def split: if_splits)
  then obtain g where "grant_of grantID d' = Some g" "\<not> gr_revoked g"
    using Inr assms(2,3) by (elim authorize_Inr) (auto simp: authorize_spec_def)
  with grant_of_revoked[OF assms(1)] show ?thesis by blast
qed

section \<open>The disclosure invariant\<close>

definition class_of :: "db \<Rightarrow> string \<Rightarrow> space_class option" where
  "class_of d s = map_option sp_class (space_of s d)"

definition disclosure_ok :: "db \<Rightarrow> bool" where
  "disclosure_ok d \<longleftrightarrow>
     distinct (map sp_id (spaces d)) \<and> distinct (map vw_id (views d)) \<and>
     (\<forall>r\<in>set (view_read_spaces d). has_space (vr_space_id r) d \<and> vr_view_id r \<in> vw_id ` set (views d)) \<and>
     (\<forall>v\<in>set (views d). \<forall>r\<in>set (view_read_spaces d).
        vr_view_id r = vw_id v \<and> class_of d (vr_space_id r) = Some SpaceClassPrivate \<longrightarrow>
        vw_max_disclosure_class v = SpaceClassPrivate)"

lemma disclosure_frame:
  "spaces d' = spaces d \<Longrightarrow> views d' = views d \<Longrightarrow> view_read_spaces d' = view_read_spaces d \<Longrightarrow>
   disclosure_ok d' = disclosure_ok d"
  by (simp add: disclosure_ok_def has_space_def class_of_def space_of_def)

lemma class_of_append:
  assumes "has_space s d" and "spaces d' = spaces d @ [r]"
  shows "class_of d' s = class_of d s" and "has_space s d'"
  using assms by (auto simp: class_of_def space_of_def has_space_def list_ex_iff find_None_iff split: option.splits)

lemma create_space_disclosure:
  assumes "create_space now s d = Inr d'" and "disclosure_ok d"
  shows "disclosure_ok d'"
proof -
  from assms(1) obtain r where r: "spaces d' = spaces d @ [r]" "sp_id r \<notin> sp_id ` set (spaces d)"
    "views d' = views d" "view_read_spaces d' = view_read_spaces d"
    by (auto simp: create_space_def createSpaceIndex_def insert_space_def insert_space_index_def
        insert_semantic_space_index_def clash_on_def result_simps tbl_simps)
  have keep: "has_space (vr_space_id x) d' \<and> class_of d' (vr_space_id x) = class_of d (vr_space_id x)"
    if "x \<in> set (view_read_spaces d)" for x
    using that assms(2) class_of_append[OF _ r(1)] by (simp add: disclosure_ok_def)
  then show ?thesis
    using assms(2) r by (simp add: disclosure_ok_def)
qed

lemma check_read_spaces_Inr:
  assumes "check_read_spaces d realm seen c ids = Inr (seen', c')"
  shows "(\<exists>i\<in>set ids. class_of d i = Some SpaceClassPrivate) \<or> c = SpaceClassPrivate \<longrightarrow> c' = SpaceClassPrivate"
    and "set seen' = set seen \<union> set ids" and "\<forall>i\<in>set ids. has_space i d"
  using assms
  by (induction d realm seen c ids rule: check_read_spaces.induct)
     (auto simp: result_simps readSpaceScope_def class_of_def has_space_def space_of_def list_ex_iff
       split: option.splits if_splits dest!: find_Some_iff2)

lemma insert_view_spaces_Inr:
  assumes "insert_view_spaces viewID n ids d = Inr d'"
  shows "spaces d' = spaces d \<and> views d' = views d \<and>
    (\<forall>r\<in>set (view_read_spaces d'). r \<in> set (view_read_spaces d) \<or>
       vr_view_id r = viewID \<and> vr_space_id r \<in> set ids)"
  using assms
  by (induction viewID n ids d rule: insert_view_spaces.induct)
     (fastforce simp: result_simps insert_view_read_space_def tbl_simps)+

lemma createView_disclosure:
  assumes "createView now v d = Inr d'" and "disclosure_ok d"
  shows "disclosure_ok d'"
proof -
  define row where "row = \<lparr>vw_id = vd_id v, vw_realm_id = vd_realm_id v,
    vw_write_space_id = (if vd_write_space_id v = [] then None else Some (vd_write_space_id v)),
    vw_max_disclosure_class = vd_max_disclosure_class v, vw_recall_policy_ref = vd_recall_policy_ref v,
    vw_version = vd_version v, vw_created_at = now\<rparr>"
  have row: "vw_id row = vd_id v" "vw_max_disclosure_class row = vd_max_disclosure_class v"
    by (simp_all add: row_def)
  from assms(1) obtain seen c d1 where
    reads: "check_read_spaces d (vd_realm_id v) [] SpaceClassShared (vd_read_space_ids v) = Inr (seen, c)"
    and writes: "check_write_space d (vd_realm_id v) seen c (vd_write_space_id v) = Inr (vd_max_disclosure_class v)"
    and d1: "insert_view row d = Some d1" and d': "insert_view_spaces (vd_id v) 0 (vd_read_space_ids v) d1 = Inr d'"
    by (auto simp: createView_def result_simps row_def)
  have fresh: "vd_id v \<notin> vw_id ` set (views d)" and d1v: "views d1 = views d @ [row]"
    and d1s: "spaces d1 = spaces d" "view_read_spaces d1 = view_read_spaces d"
    using d1 row by (auto simp: insert_view_def tbl_simps clash_on_def)
  have priv: "vd_max_disclosure_class v = SpaceClassPrivate"
    if "i \<in> set (vd_read_space_ids v)" "class_of d i = Some SpaceClassPrivate" for i
  proof -
    have "c = SpaceClassPrivate" using check_read_spaces_Inr(1)[OF reads] that by blast
    with writes show ?thesis
      by (auto simp: check_write_space_def result_simps split: if_splits option.splits)
  qed
  note after = insert_view_spaces_Inr[OF d'] d1v d1s
  have sp: "spaces d' = spaces d" and vw: "views d' = views d @ [row]" using after by auto
  have cls: "class_of d' s = class_of d s" "has_space s d' = has_space s d" for s
    by (simp_all add: class_of_def space_of_def has_space_def sp)
  have rows: "r \<in> set (view_read_spaces d) \<or> vr_view_id r = vd_id v \<and> vr_space_id r \<in> set (vd_read_space_ids v)"
    if "r \<in> set (view_read_spaces d')" for r
    using insert_view_spaces_Inr[OF d'] that by (simp add: d1s(2))
  have ok: "distinct (map sp_id (spaces d))" "distinct (map vw_id (views d))"
    "\<And>r. r \<in> set (view_read_spaces d) \<Longrightarrow> has_space (vr_space_id r) d \<and> vr_view_id r \<in> vw_id ` set (views d)"
    "\<And>w r. w \<in> set (views d) \<Longrightarrow> r \<in> set (view_read_spaces d) \<Longrightarrow> vr_view_id r = vw_id w \<Longrightarrow>
       class_of d (vr_space_id r) = Some SpaceClassPrivate \<Longrightarrow> vw_max_disclosure_class w = SpaceClassPrivate"
    using assms(2) by (auto simp: disclosure_ok_def)
  have "has_space (vr_space_id r) d \<and> vr_view_id r \<in> vw_id ` set (views d')" if "r \<in> set (view_read_spaces d')" for r
    using rows[OF that] ok(3) check_read_spaces_Inr(3)[OF reads] row(1) by (auto simp: vw)
  moreover have "vw_max_disclosure_class w = SpaceClassPrivate"
    if "w \<in> set (views d')" "r \<in> set (view_read_spaces d')" "vr_view_id r = vw_id w"
      "class_of d (vr_space_id r) = Some SpaceClassPrivate" for w r
  proof (cases "w = row")
    case True
    then have "r \<notin> set (view_read_spaces d)" using that(3) ok(3)[of r] fresh row(1) by auto
    with that rows[OF that(2)] priv row True show ?thesis by auto
  next
    case False
    then have w: "w \<in> set (views d)" using that(1) by (simp add: vw)
    then have "vr_view_id r \<noteq> vd_id v" using that(3) fresh by (metis image_eqI)
    with rows[OF that(2)] ok(4)[OF w] that show ?thesis by blast
  qed
  ultimately show ?thesis
    unfolding disclosure_ok_def cls using ok(1,2) fresh row(1) by (simp add: sp vw)
qed

lemma createGrant_disclosure:
  assumes "createGrant now g d = Inr d'"
  shows "spaces d' = spaces d \<and> views d' = views d \<and> view_read_spaces d' = view_read_spaces d"
proof -
  let ?frame = "\<lambda>x. spaces x = spaces d \<and> views x = views d \<and> view_read_spaces x = view_read_spaces d"
  from assms obtain row d1 d2 where d1: "insert_grant row d = Some d1"
    and d2: "fold_res (\<lambda>p d. of_opt (Errorf ''create Grant operation'') (insert_grant_operation (gd_id g) p d))
      (gd_allowed_operations g) d1 = Inr d2"
    and d': "fold_res (\<lambda>a d. of_opt (Errorf ''create Grant audience'') (insert_grant_audience (gd_id g) a d))
      (gd_allowed_audiences g) d2 = Inr d'"
    by (auto simp: createGrant_def result_simps)
  have "?frame d1" using d1 by (auto simp: insert_grant_def tbl_simps)
  with d2 have "?frame d2"
    by (rule fold_res_invariant) (auto simp: result_simps insert_grant_operation_def tbl_simps)
  with d' show ?thesis
    by (rule fold_res_invariant) (auto simp: result_simps insert_grant_audience_def tbl_simps)
qed

text \<open>
  \<open>Bootstrap\<close> keeps the disclosure invariant: every View's disclosure class is private
  as soon as one of the Spaces it reads is private, whatever topology the request asks for.
\<close>

theorem Bootstrap_disclosure:
  assumes "Bootstrap s now rnd request d = Inr (credentials, d')" and "disclosure_ok d"
  shows "disclosure_ok d'"
proof -
  from assms(1) obtain d1 d2 d3 d4 d5 rnd' where steps:
    "fold_res (create_realm now) (bs_realms request) d = Inr d1"
    "fold_res (create_identity now) (bs_identities request) d1 = Inr d2"
    "fold_res (create_space now) (bs_spaces request) d2 = Inr d3"
    "fold_res (createView now) (bs_views request) d3 = Inr d4"
    "fold_res (createGrant now) (bs_grants request) d4 = Inr d5"
    "fold_res (create_issuer now) (bs_issuer_principals request) ([], rnd, d5) = Inr (credentials, rnd', d')"
    by (auto simp: Bootstrap_def result_simps)
  have 1: "disclosure_ok d1" using steps(1) assms(2)
    by (rule fold_res_invariant) (auto simp: create_realm_def insert_realm_def result_simps tbl_simps
      intro: disclosure_frame[THEN iffD2, rotated -1])
  have 2: "disclosure_ok d2" using steps(2) 1
    by (rule fold_res_invariant) (auto simp: create_identity_def insert_identity_def result_simps tbl_simps
      intro: disclosure_frame[THEN iffD2, rotated -1])
  have 3: "disclosure_ok d3" using steps(3) 2
    by (rule fold_res_invariant) (rule create_space_disclosure)
  have 4: "disclosure_ok d4" using steps(4) 3
    by (rule fold_res_invariant) (rule createView_disclosure)
  have 5: "disclosure_ok d5" using steps(5) 4
    by (rule fold_res_invariant) (metis createGrant_disclosure disclosure_frame)
  have "disclosure_ok (snd (snd (credentials, rnd', d')))" using steps(6)
    by (rule fold_res_invariant[where P = "\<lambda>st. disclosure_ok (snd (snd st))"])
       (auto simp: 5 create_issuer_def insert_issuer_credential_def result_simps tbl_simps split: prod.splits
        intro: disclosure_frame[THEN iffD2, rotated -1])
  then show ?thesis by simp
qed

text \<open>
  Claim C35. A shared audience never reads a private Space: under the disclosure invariant no
  Space of a View authorised for a shared audience has the private class.
\<close>

theorem shared_audience_reads_no_private_space:
  assumes "disclosure_ok d" and "authorize now d auth operation = Inr av"
    and "auth_audience auth = AudienceShared" and "spaceID \<in> set (av_read_space_ids av)"
  shows "class_of d spaceID \<noteq> Some SpaceClassPrivate"
proof -
  from assms(2) obtain c g v where spec: "authorize_spec now d auth operation c g v"
    and reads: "av_read_space_ids av = read_view_spaces (vw_id v) d"
    by (elim authorize_Inr) blast
  from assms(4) obtain r where "r \<in> set (view_read_spaces d)" "vr_view_id r = vw_id v" "spaceID = vr_space_id r"
    by (auto simp: reads read_view_spaces_def)
  with assms(1,3) spec show ?thesis
    by (auto simp: disclosure_ok_def authorize_spec_def)
qed

section \<open>Issued capabilities\<close>

text \<open>
  A capability never outlives its authority: it expires no later than its Grant and no
  later than 24 hours after it was issued, and it is still alive when it is handed out.
\<close>

theorem issued_capability_bounded:
  assumes "IssueCapability s now rnd r d = Inr (cap, d')"
  shows "\<exists>g. grant_of (ic_grant_ref r) d = Some g \<and> now < cap_expires_at cap \<and>
           cap_expires_at cap \<le> gr_expires_at g \<and> cap_expires_at cap \<le> now + maxCapabilityTTL"
proof -
  from assms obtain ttl a where ttl: "capability_ttl r = Inr ttl"
    and a: "validateCapabilityAuthority now d
      \<lparr>ca_authorization = ic_authorization r, ca_grant_ref = ic_grant_ref r, ca_view_ref = [],
       ca_actor_ref = ic_actor_ref r, ca_audience = ic_audience r, ca_operations = ic_operations r\<rparr> = Inr a"
    and cap: "cap_expires_at cap = (if va_grant_expires a < now + ttl then va_grant_expires a else now + ttl)"
    by (auto simp: IssueCapability_def result_simps Let_def)
  have "0 < ttl" "ttl \<le> maxCapabilityTTL"
    using ttl by (auto simp: capability_ttl_def result_simps)
  moreover obtain g where "grant_of (ic_grant_ref r) d = Some g" "now < gr_expires_at g"
    "va_grant_expires a = gr_expires_at g"
    using a by (auto simp: validateCapabilityAuthority_def result_simps)
  ultimately show ?thesis using cap by (auto split: if_splits)
qed

section \<open>A concrete topology\<close>

text \<open>One realm with one Space \<open>s\<close> of a given class, one View that reads and writes it, one Grant
  and one capability with the bearer \<open>t\<close>; the properties are exercised on it.\<close>

definition demo_class_identity :: "space_class \<Rightarrow> string option" where
  "demo_class_identity cls = (if cls = SpaceClassPrivate then Some ''i'' else None)"

definition demo_db :: "space_class \<Rightarrow> audience \<Rightarrow> db" where
  "demo_db cls aud = empty_db\<lparr>
     realms := [\<lparr>rlm_id = ''r'', rlm_created_at = 0\<rparr>],
     identities := [\<lparr>idn_id = ''i'', idn_realm_id = ''r'', idn_created_at = 0\<rparr>],
     spaces := [\<lparr>sp_id = ''s'', sp_realm_id = ''r'', sp_identity_id = demo_class_identity cls,
        sp_class = cls, sp_created_at = 0\<rparr>],
     views := [\<lparr>vw_id = ''v'', vw_realm_id = ''r'', vw_write_space_id = Some ''s'',
        vw_max_disclosure_class = cls, vw_recall_policy_ref = [], vw_version = 1, vw_created_at = 0\<rparr>],
     view_read_spaces := [\<lparr>vr_view_id = ''v'', vr_space_id = ''s'', vr_ordinal = 0\<rparr>],
     grants := [\<lparr>gr_id = ''g'', gr_principal_ref = ''p'', gr_actor_ref = ''a'', gr_view_id = ''v'',
        gr_expires_at = 100, gr_revoked = False, gr_version = 1, gr_created_at = 0\<rparr>],
     grant_operations := [(''g'', OperationRemember), (''g'', OperationRecall), (''g'', OperationReceiptStatus)],
     grant_audiences := [(''g'', aud)],
     issuer_credentials := [\<lparr>is_principal_ref = ''p'', is_credential_digest = digestBytes ''c'', is_created_at = 0\<rparr>],
     capabilities := [\<lparr>cp_token_digest = digestBytes ''t'', cp_grant_id = ''g'', cp_principal_ref = ''p'',
        cp_view_version = 1, cp_actor_ref = ''a'', cp_audience = aud, cp_expires_at = 50,
        cp_created_at = 0, cp_label_set = [], cp_label_set_digest = digestString (encode_label_set [])\<rparr>],
     capability_operations := [(digestBytes ''t'', OperationRemember), (digestBytes ''t'', OperationRecall),
        (digestBytes ''t'', OperationReceiptStatus)],
     space_indexes := [(''s'', spaceIndexTable ''s'')],
     semantic_space_indexes := [(''s'', semanticSpaceIndexTable ''s'')]\<rparr>"

definition demo_auth :: "audience \<Rightarrow> call_authorization" where
  "demo_auth aud = \<lparr>auth_capability = ''t'', auth_actor_ref = ''a'', auth_audience = aud\<rparr>"

definition demo_view :: "space_class \<Rightarrow> authorized_view" where
  "demo_view cls = \<lparr>av_id = ''v'', av_version = 1, av_read_space_ids = [''s''], av_write_space_id = ''s'',
     av_max_disclosure_class = cls, av_labels = [], av_label_set_digest = digestString (encode_label_set [])\<rparr>"

definition demo_store :: store where
  "demo_store = \<lparr>sto_generation = ''gen'', sto_closing = False, sto_restore_pending = False\<rparr>"

lemma CanonicalLabelSet_Nil [simp]: "CanonicalLabelSet [] = Inr []"
  by (simp add: CanonicalLabelSet_Inr)

lemma decode_empty_label_set [simp]:
  "decodeStoredLabelSet [] (digestString (encode_label_set []))
     = Inr \<lparr>ls_labels = [], ls_encoded = encode_label_set [], ls_digest = digestString (encode_label_set [])\<rparr>"
  by (simp add: decodeStoredLabelSet_def normalizeLabelSet_def Let_def)

lemmas demo_defs = demo_db_def demo_auth_def demo_view_def demo_store_def empty_db_def
  demo_class_identity_def

lemma demo_authorize:
  assumes "(cls, aud) \<in> {(SpaceClassPrivate, AudiencePrivate), (SpaceClassShared, AudienceShared)}"
    and "p \<in> {OperationRemember, OperationRecall, OperationReceiptStatus}"
  shows "authorize 5 (demo_db cls aud) (demo_auth aud) p = Inr (demo_view cls)"
  using assms
  by (auto simp: authorize_def demo_defs grant_of_def view_of_def readSpaceScope_def space_of_def
      read_view_spaces_def Let_def)

lemma demo_disclosure: "disclosure_ok (demo_db cls aud)"
  by (simp add: disclosure_ok_def demo_defs has_space_def class_of_def space_of_def)

theorem authorize_sound_witness:
  "\<exists>c g v. authorize_spec 5 (demo_db SpaceClassPrivate AudiencePrivate) (demo_auth AudiencePrivate)
     OperationRecall c g v"
  using authorize_sound[OF demo_authorize[of SpaceClassPrivate AudiencePrivate OperationRecall]] by auto

theorem revoked_grant_never_authorizes_witness:
  "\<exists>d'. RevokeGrant demo_store ''g'' (demo_db SpaceClassPrivate AudiencePrivate) = Inr d' \<and>
     (\<exists>err. authorize 5 d' (demo_auth AudiencePrivate) OperationRecall = Inl err)"
proof -
  obtain d' where d': "RevokeGrant demo_store ''g'' (demo_db SpaceClassPrivate AudiencePrivate) = Inr d'"
    by (simp add: RevokeGrant_def requireMutableGeneration_def demo_defs tbl_affected_def)
  show ?thesis
    using revoked_grant_never_authorizes[OF d', where auth = "demo_auth AudiencePrivate" and now = 5
        and operation = OperationRecall] d'
    by (simp add: demo_defs)
qed

definition demo_bootstrap :: bootstrap_request where
  "demo_bootstrap = \<lparr>bs_realms = [\<lparr>rm_id = ''r2''\<rparr>], bs_identities = [], bs_spaces = [],
     bs_views = [\<lparr>vd_id = ''w'', vd_realm_id = ''r'', vd_read_space_ids = [''s''], vd_write_space_id = [],
       vd_max_disclosure_class = SpaceClassPrivate, vd_recall_policy_ref = [], vd_version = 1\<rparr>],
     bs_grants = [], bs_issuer_principals = []\<rparr>"

theorem Bootstrap_disclosure_witness:
  "\<exists>c d'. Bootstrap demo_store 5 [] demo_bootstrap (demo_db SpaceClassPrivate AudiencePrivate) = Inr (c, d') \<and>
     disclosure_ok d'"
proof -
  obtain c d' where d': "Bootstrap demo_store 5 [] demo_bootstrap (demo_db SpaceClassPrivate AudiencePrivate) = Inr (c, d')"
    by (simp add: Bootstrap_def requireMutableGeneration_def demo_bootstrap_def create_realm_def createView_def
        readSpaceScope_def space_of_def check_write_space_def insert_realm_def insert_view_def
        insert_view_read_space_def insert_into_def tbl_insert_def clash_on_def has_space_def demo_defs)
  from Bootstrap_disclosure[OF d' demo_disclosure] d' show ?thesis by blast
qed

theorem shared_audience_reads_no_private_space_witness:
  "class_of (demo_db SpaceClassShared AudienceShared) ''s'' \<noteq> Some SpaceClassPrivate"
  by (rule shared_audience_reads_no_private_space[OF demo_disclosure
        demo_authorize[of SpaceClassShared AudienceShared OperationRecall]])
     (simp_all add: demo_auth_def demo_view_def)

definition demo_issue :: issue_capability_request where
  "demo_issue = \<lparr>ic_authorization = \<lparr>ia_principal_ref = ''p'', ia_credential = ''c''\<rparr>, ic_grant_ref = ''g'',
     ic_actor_ref = ''a'', ic_audience = AudiencePrivate, ic_operations = [], ic_labels = [],
     ic_ttl = 7, ic_ttl_seconds = 0\<rparr>"

theorem issued_capability_bounded_witness:
  "\<exists>cap d'. IssueCapability demo_store 5 (replicate 32 CHR ''x'') (demo_issue\<lparr>ic_operations := [OperationRecall]\<rparr>)
      ((demo_db SpaceClassPrivate AudiencePrivate)\<lparr>capabilities := [], capability_operations := []\<rparr>) = Inr (cap, d') \<and>
     cap_expires_at cap \<le> 100"
proof -
  let ?d = "(demo_db SpaceClassPrivate AudiencePrivate)\<lparr>capabilities := [], capability_operations := []\<rparr>"
  let ?r = "demo_issue\<lparr>ic_operations := [OperationRecall]\<rparr>"
  obtain cap d' where issued: "IssueCapability demo_store 5 (replicate 32 CHR ''x'') ?r ?d = Inr (cap, d')"
    by (simp add: IssueCapability_def requireMutableGeneration_def demo_issue_def normalizeLabelSet_def
        capability_ttl_def maxCapabilityTTL_def second_ns_def validateCapabilityAuthority_def grant_of_def
        view_of_def validOperation_def randomToken_def read_random_def insert_capability_def
        insert_capability_operation_def known_operation_def insert_into_def tbl_insert_def Let_def demo_defs)
  have "grant_of ''g'' ?d = Some g \<Longrightarrow> gr_expires_at g = 100" for g
    by (auto simp: grant_of_def demo_defs)
  with issued_capability_bounded[OF issued] issued show ?thesis by (auto simp: demo_issue_def)
qed

end
