(* ===== verification/Lexical.thy ===== *)
theory Lexical
  imports Topology Complex_Main
begin

text \<open>
  The lexical projection of \<open>lexical.go\<close> and \<open>lexical_schema.go\<close>, in the production composition
  without a lexicon policy (the private term list of every call is empty, but stays a parameter as
  in the source). The Chinese segmenter is the third-party package \<open>gse\<close> and the Unicode tables are
  data of the Go library: both are string_fields of the parameter \<open>analyzer\<close>. Ranks are exact rationals
  where Go computes in \<open>float64\<close>.
\<close>

record analyzer =
  an_cut_search :: "(string \<Rightarrow> string list) option"
  an_is_letter :: "nat \<Rightarrow> bool"
  an_is_number :: "nat \<Rightarrow> bool"
  an_is_punct :: "nat \<Rightarrow> bool"
  an_is_symbol :: "nat \<Rightarrow> bool"
  an_is_han :: "nat \<Rightarrow> bool"
  an_to_lower :: "nat \<Rightarrow> nat"

section \<open>The string functions of the Go library the projection uses\<close>

definition to_lower :: "analyzer \<Rightarrow> string \<Rightarrow> string" where
  "to_lower A s = string_of_runes (map (an_to_lower A) (runes_of s))"

fun starts_with :: "string \<Rightarrow> string \<Rightarrow> bool" where
  "starts_with [] s = True"
| "starts_with (c # cs) [] = False"
| "starts_with (c # cs) (x # xs) = (c = x \<and> starts_with cs xs)"

fun contains_string :: "string \<Rightarrow> string \<Rightarrow> bool" where
  "contains_string [] sub = (sub = [])"
| "contains_string (c # s) sub = (starts_with sub (c # s) \<or> contains_string s sub)"

text \<open>\<open>FieldsFunc\<close>: the maximal runs of runes that satisfy \<open>keep\<close>.\<close>

fun rune_runs :: "(nat \<Rightarrow> bool) \<Rightarrow> string \<Rightarrow> (nat \<times> string) list \<Rightarrow> string list" where
  "rune_runs keep cur [] = (if cur = [] then [] else [cur])"
| "rune_runs keep cur ((r, bs) # rest) =
    (if keep r then rune_runs keep (cur @ bs) rest
     else if cur = [] then rune_runs keep [] rest else cur # rune_runs keep [] rest)"

definition string_fields :: "string \<Rightarrow> string list" where
  "string_fields s = rune_runs (\<lambda>r. \<not> is_space_rune r) [] (range_string s)"

fun replace_char :: "char \<Rightarrow> string \<Rightarrow> string \<Rightarrow> string" where
  "replace_char c to [] = []"
| "replace_char c to (x # xs) = (if x = c then to else [x]) @ replace_char c to xs"

section \<open>Projection\<close>

definition maxLexicalTerms :: nat where "maxLexicalTerms = 256"
definition maxLexicalNGrams :: nat where "maxLexicalNGrams = 512"

definition normalizeLexicalToken :: "analyzer \<Rightarrow> string \<Rightarrow> string" where
  "normalizeLexicalToken A value =
    (let v = to_lower A (trim_space value); rs = runes_of v in
     if v = [] \<or> \<not> list_ex (\<lambda>r. an_is_letter A r \<or> an_is_number A r) rs then []
     else if length rs = 1 \<and> list_ex (\<lambda>r. an_is_punct A r \<or> is_space_rune r \<or> an_is_symbol A r) rs then []
     else v)"

definition ordered_add :: "analyzer \<Rightarrow> nat \<Rightarrow> string \<Rightarrow> string list \<Rightarrow> string list" where
  "ordered_add A limit value values =
    (if length values = limit then values
     else let v = normalizeLexicalToken A value in
          if v = [] \<or> v \<in> set values then values else values @ [v])"

definition lexicalAtoms :: "analyzer \<Rightarrow> string \<Rightarrow> string list" where
  "lexicalAtoms A value = rune_runs (\<lambda>r. an_is_letter A r \<or> an_is_number A r) [] (range_string value)"

definition hanRuns :: "analyzer \<Rightarrow> string \<Rightarrow> string list" where
  "hanRuns A value = rune_runs (an_is_han A) [] (map (\<lambda>(r, bs). (r, encode_rune r)) (range_string value))"

definition rune_ngrams :: "nat \<Rightarrow> nat list \<Rightarrow> string list" where
  "rune_ngrams n rs = map (\<lambda>start. string_of_runes (take n (drop start rs))) [0..<length rs + 1 - n]"

record lexical_document =
  ld_terms :: string
  ld_ngrams :: string

definition project_terms :: "analyzer \<Rightarrow> (string \<Rightarrow> string list) \<Rightarrow> string \<Rightarrow> string list \<Rightarrow> string list" where
  "project_terms A seg text privateTerms =
    (let terms = fold (ordered_add A maxLexicalTerms) (seg text) [];
         terms = fold (ordered_add A maxLexicalTerms) (lexicalAtoms A text) terms in
     fold (\<lambda>term. let t = normalizeLexicalToken A term in
            if t \<noteq> [] \<and> contains_string (to_lower A text) t then ordered_add A maxLexicalTerms t else id)
       privateTerms terms)"

definition project_ngrams :: "analyzer \<Rightarrow> string \<Rightarrow> string list" where
  "project_ngrams A text =
    fold (ordered_add A maxLexicalNGrams)
      (concat (map (\<lambda>run. rune_ngrams 2 (runes_of run) @ rune_ngrams 3 (runes_of run)) (hanRuns A text))) []"

definition projectLexical :: "analyzer \<Rightarrow> string \<Rightarrow> string list \<Rightarrow> lexical_document option" where
  "projectLexical A text privateTerms =
    map_option (\<lambda>seg. \<lparr>ld_terms = join_with '' '' (project_terms A seg text privateTerms),
                       ld_ngrams = join_with '' '' (project_ngrams A text)\<rparr>) (an_cut_search A)"

definition lexicalFTSQuery :: "analyzer \<Rightarrow> string \<Rightarrow> string list \<Rightarrow> string option" where
  "lexicalFTSQuery A query privateTerms =
    map_option (\<lambda>doc.
      let terms = fold (ordered_add A 128) (string_fields (ld_terms doc) @ string_fields (ld_ngrams doc)) [] in
      join_with '' OR ''
        (map (\<lambda>term. [CHR 0x22] @ replace_char (CHR 0x22) [CHR 0x22, CHR 0x22] term @ [CHR 0x22]) terms))
      (projectLexical A query privateTerms)"

definition lexicalRank :: "analyzer \<Rightarrow> string \<Rightarrow> string \<Rightarrow> string list \<Rightarrow> rat \<Rightarrow> rat option" where
  "lexicalRank A query text privateTerms bm25 =
    Option.bind (projectLexical A query privateTerms) (\<lambda>queryDocument.
    Option.bind (projectLexical A text privateTerms) (\<lambda>textDocument.
    (let textTerms = string_fields (ld_terms textDocument);
         textNGrams = string_fields (ld_ngrams textDocument);
         termScore = sum_list (map (\<lambda>(i, term).
            if term \<in> set textTerms then (if i = (0::nat) then 2 else 1) else 0)
            (enumerate 0 (string_fields (ld_terms queryDocument))));
         ngramScore = sum_list (map (\<lambda>term. if term \<in> set textNGrams then 1 / 4 else 0)
            (string_fields (ld_ngrams queryDocument)));
         normalizedQuery = to_lower A (trim_space query);
         phraseScore = (if normalizedQuery \<noteq> [] \<and> contains_string (to_lower A text) normalizedQuery then 4 else 0);
         privateScore = sum_list (map (\<lambda>term. let t = normalizeLexicalToken A term in
            if t \<noteq> [] \<and> contains_string normalizedQuery t \<and> contains_string (to_lower A text) t then 3 else 0)
            privateTerms)
     in Some (- (termScore + ngramScore + phraseScore + privateScore) + bm25 / 1000))))"

section \<open>Index rows\<close>

definition readSpaceIndex :: "db \<Rightarrow> string \<Rightarrow> string option" where
  "readSpaceIndex d spaceID =
    (case List.find (\<lambda>r. fst r = spaceID) (space_indexes d) of
       None \<Rightarrow> None
     | Some (_, tableName) \<Rightarrow> if tableName = spaceIndexTable spaceID then Some tableName else None)"

definition readSemanticSpaceIndex :: "db \<Rightarrow> string \<Rightarrow> string option" where
  "readSemanticSpaceIndex d spaceID =
    (case List.find (\<lambda>r. fst r = spaceID) (semantic_space_indexes d) of
       None \<Rightarrow> None
     | Some (_, tableName) \<Rightarrow> if tableName = semanticSpaceIndexTable spaceID then Some tableName else None)"

definition indexReceiptProjection ::
  "analyzer \<Rightarrow> string \<Rightarrow> string \<Rightarrow> string \<Rightarrow> string list \<Rightarrow> db \<Rightarrow> db option" where
  "indexReceiptProjection A tableName receiptID text privateTerms d =
    map_option (\<lambda>p. d\<lparr>receipt_fts := receipt_fts d @
        [\<lparr>ft_table = tableName, ft_receipt_id = receiptID, ft_text = text,
          ft_terms = ld_terms p, ft_ngrams = ld_ngrams p\<rparr>]\<rparr>)
      (projectLexical A text privateTerms)"

definition indexSemanticProjection ::
  "analyzer \<Rightarrow> string \<Rightarrow> string \<Rightarrow> nat \<Rightarrow> string \<Rightarrow> string list \<Rightarrow> db \<Rightarrow> db option" where
  "indexSemanticProjection A tableName recordID revision text privateTerms d =
    map_option (\<lambda>p. d\<lparr>semantic_fts := semantic_fts d @
        [\<lparr>sf_table = tableName, sf_record_id = recordID, sf_revision = revision, sf_text = text,
          sf_terms = ld_terms p, sf_ngrams = ld_ngrams p\<rparr>]\<rparr>)
      (projectLexical A text privateTerms)"

definition delete_semantic_projection :: "string \<Rightarrow> string \<Rightarrow> db \<Rightarrow> db" where
  "delete_semantic_projection tableName recordID d =
    d\<lparr>semantic_fts := tbl_delete (\<lambda>r. sf_table r = tableName \<and> sf_record_id r = recordID) (semantic_fts d)\<rparr>"

definition delete_receipt_projection :: "string \<Rightarrow> string \<Rightarrow> db \<Rightarrow> db" where
  "delete_receipt_projection tableName receiptID d =
    d\<lparr>receipt_fts := tbl_delete (\<lambda>r. ft_table r = tableName \<and> ft_receipt_id r = receiptID) (receipt_fts d)\<rparr>"

section \<open>Bounds of the projection\<close>

text \<open>\<open>terms_ok\<close>: at most \<open>limit\<close> terms, no term twice, none empty.\<close>

definition terms_ok :: "nat \<Rightarrow> string list \<Rightarrow> bool" where
  "terms_ok limit ts \<longleftrightarrow> length ts \<le> limit \<and> distinct ts \<and> [] \<notin> set ts"

lemma ordered_add_ok: "terms_ok limit ts \<Longrightarrow> terms_ok limit (ordered_add A limit v ts)"
  by (auto simp: terms_ok_def ordered_add_def Let_def)

lemma fold_ok: "(\<And>x ts. terms_ok n ts \<Longrightarrow> terms_ok n (f x ts)) \<Longrightarrow> terms_ok n ts \<Longrightarrow> terms_ok n (fold f xs ts)"
  by (induction xs arbitrary: ts) auto

text \<open>
  The index projection of any text is bounded: whatever the segmenter returns, the
  projection holds at most 256 distinct non-empty terms and at most 512 distinct non-empty n-grams.
\<close>

theorem projection_bounded:
  "terms_ok 256 (project_terms A seg text privateTerms) \<and> terms_ok 512 (project_ngrams A text)"
proof -
  have "terms_ok 256 (project_terms A seg text privateTerms)"
    unfolding project_terms_def Let_def maxLexicalTerms_def
    by (intro fold_ok) (auto simp: ordered_add_ok terms_ok_def[of _ "[]"])
  moreover have "terms_ok 512 (project_ngrams A text)"
    unfolding project_ngrams_def maxLexicalNGrams_def
    by (intro fold_ok) (auto simp: ordered_add_ok terms_ok_def[of _ "[]"])
  ultimately show ?thesis ..
qed

end
