(* ===== verification/Profiles.thy ===== *)
theory Profiles
  imports Lexical
begin

text \<open>
  Steward configuration, \<open>steward_profile.go\<close>: immutable prompt profiles, their binding to Spaces,
  disabling a Space, and the job that every accepted receipt of a bound Space enqueues. The lemmas
  show that a stored profile version never changes, what disabling leaves behind, and that an
  enqueued job is pending, available at once and unattempted.

  A transaction whose commit fails has either happened or not; \<open>commit_outcome\<close> is the environment's
  choice, and the code reports both failures as an unknown outcome.
\<close>

datatype commit_outcome = Committed | CommitErrorApplied | CommitErrorLost

text \<open>\<open>commit_tx out err before after result\<close>: the answer and the durable state.\<close>

definition commit_tx :: "commit_outcome \<Rightarrow> error \<Rightarrow> db \<Rightarrow> db \<Rightarrow> 'a \<Rightarrow> (error + 'a) \<times> db" where
  "commit_tx out err before after result =
    (case out of Committed \<Rightarrow> (Inr result, after)
     | CommitErrorApplied \<Rightarrow> (Inl err, after)
     | CommitErrorLost \<Rightarrow> (Inl err, before))"

section \<open>Profiles\<close>

definition readStewardProfile :: "db \<Rightarrow> string \<Rightarrow> nat \<Rightarrow> profile_row option" where
  "readStewardProfile d profileID version =
    List.find (\<lambda>r. (pf_profile_id (pfr_spec r), pf_version (pfr_spec r)) = (profileID, version)) (steward_profiles d)"

text \<open>The answer is the stored profile and whether this call created it.\<close>

definition PutStewardProfile ::
  "store \<Rightarrow> instant \<Rightarrow> commit_outcome \<Rightarrow> profile_spec \<Rightarrow> db \<Rightarrow> (error + (profile_row \<times> bool)) \<times> db" where
  "PutStewardProfile s now out spec d =
    (case rbind (requireMutableGeneration s) (\<lambda>_.
          map_err (\<lambda>m. serviceError ErrorCodeInvalidArgument m False) (validate_profile_spec spec)) of
       Inl e \<Rightarrow> (Inl e, d)
     | Inr _ \<Rightarrow>
        (case readStewardProfile d (pf_profile_id spec) (pf_version spec) of
           Some existing \<Rightarrow>
             (if pfr_spec existing \<noteq> spec
              then (Inl (serviceError ErrorCodeConflict ''Steward profile version is immutable'' False), d)
              else (Inr (existing, False), d))
         | None \<Rightarrow>
             (let row = \<lparr>pfr_spec = spec, pfr_created_at = now\<rparr> in
              case insert_profile row d of
                None \<Rightarrow> (Inl (databaseError ''store Steward profile''), d)
              | Some d' \<Rightarrow> commit_tx out
                  (serviceError ErrorCodeUnknownOutcome ''Steward profile commit outcome is unknown; inspect before retry'' True)
                  d d' (row, True))))"

fun hasDuplicateSpaceIDs_from :: "string list \<Rightarrow> string list \<Rightarrow> bool" where
  "hasDuplicateSpaceIDs_from seen [] = False"
| "hasDuplicateSpaceIDs_from seen (s # rest) =
    (s = [] \<or> s \<in> set seen \<or> hasDuplicateSpaceIDs_from (seen @ [s]) rest)"

definition hasDuplicateSpaceIDs :: "string list \<Rightarrow> bool" where
  "hasDuplicateSpaceIDs spaceIDs = hasDuplicateSpaceIDs_from [] spaceIDs"

text \<open>\<open>INSERT \<dots> ON CONFLICT(space_id) DO UPDATE\<close>.\<close>

definition upsert_binding :: "binding_row \<Rightarrow> db \<Rightarrow> db" where
  "upsert_binding r d =
    (let p = (\<lambda>b. bd_space_id b = bd_space_id r) in
     d\<lparr>space_steward_bindings :=
        (if list_ex p (space_steward_bindings d)
         then tbl_update p (\<lambda>_. r) (space_steward_bindings d)
         else space_steward_bindings d @ [r])\<rparr>)"

definition bind_space :: "instant \<Rightarrow> string \<Rightarrow> nat \<Rightarrow> string \<Rightarrow> db \<Rightarrow> error + db" where
  "bind_space now profileID version spaceID d =
    rbind (guard (has_space spaceID d)
      (serviceError ErrorCodeNotFound ''Steward binding Space not found'' False)) (\<lambda>_.
    Inr (upsert_binding \<lparr>bd_space_id = spaceID, bd_profile_id = profileID, bd_profile_version = version,
      bd_bound_at = now\<rparr> d))"

definition BindStewardProfile ::
  "store \<Rightarrow> instant \<Rightarrow> commit_outcome \<Rightarrow> string \<Rightarrow> nat \<Rightarrow> string list \<Rightarrow> db \<Rightarrow> (error + nat) \<times> db" where
  "BindStewardProfile s now out profileID version spaceIDs d =
    (case rbind (requireMutableGeneration s) (\<lambda>_.
          rbind (guard (profileID \<noteq> [] \<and> version \<noteq> 0 \<and> spaceIDs \<noteq> [] \<and> length spaceIDs \<le> 256)
            (serviceError ErrorCodeInvalidArgument ''profile, version, and 1..256 Spaces are required'' False)) (\<lambda>_.
          rbind (guard (\<not> hasDuplicateSpaceIDs spaceIDs)
            (serviceError ErrorCodeInvalidArgument ''Steward binding Spaces must be unique'' False)) (\<lambda>_.
          rbind (of_opt (serviceError ErrorCodeNotFound ''Steward profile not found'' False)
            (readStewardProfile d profileID version)) (\<lambda>_.
          fold_res (bind_space now profileID version) spaceIDs d)))) of
       Inl e \<Rightarrow> (Inl e, d)
     | Inr d' \<Rightarrow> commit_tx out
         (serviceError ErrorCodeUnknownOutcome ''Steward binding commit outcome is unknown; inspect before retry'' True)
         d d' (length spaceIDs))"

section \<open>Disabling\<close>

definition open_job :: "job_row \<Rightarrow> bool" where
  "open_job j \<longleftrightarrow> jb_state j = JobPending \<or> jb_state j = JobLeased"

definition fail_job :: "instant \<Rightarrow> string \<Rightarrow> job_row \<Rightarrow> job_row" where
  "fail_job now code j =
    j\<lparr>jb_state := JobFailed, jb_lease_expires_at := None, jb_lease_token_digest := [],
      jb_terminal_error_code := code, jb_updated_at := now\<rparr>"

definition fail_processing :: "instant \<Rightarrow> string \<Rightarrow> processing_row \<Rightarrow> processing_row" where
  "fail_processing now code p =
    p\<lparr>pc_state := ProcessingStateFailed, pc_last_attempt_at := Some now, pc_terminal_error_code := code\<rparr>"

definition disable_space :: "instant \<Rightarrow> string \<Rightarrow> (nat \<times> nat) \<times> db \<Rightarrow> (nat \<times> nat) \<times> db" where
  "disable_space now spaceID state =
    (case state of ((disabled, canceled), d) \<Rightarrow>
      let binding = (\<lambda>b. bd_space_id b = spaceID);
          job = (\<lambda>j. jb_space_id j = spaceID \<and> open_job j);
          receiptIDs = map jb_receipt_id (filter job (steward_jobs d)) in
      ((disabled + tbl_affected binding (space_steward_bindings d),
        canceled + tbl_affected job (steward_jobs d)),
       d\<lparr>space_steward_bindings := tbl_delete binding (space_steward_bindings d),
         receipt_processing := tbl_update (\<lambda>p. pc_receipt_id p \<in> set receiptIDs)
           (fail_processing now ''steward_disabled'') (receipt_processing d),
         steward_jobs := tbl_update job (fail_job now ''steward_disabled'') (steward_jobs d)\<rparr>))"

definition DisableSteward ::
  "store \<Rightarrow> instant \<Rightarrow> commit_outcome \<Rightarrow> string list \<Rightarrow> db \<Rightarrow> (error + (nat \<times> nat)) \<times> db" where
  "DisableSteward s now out spaceIDs d =
    (case rbind (requireMutableGeneration s) (\<lambda>_.
          guard (spaceIDs \<noteq> [] \<and> length spaceIDs \<le> 256 \<and> \<not> hasDuplicateSpaceIDs spaceIDs)
            (serviceError ErrorCodeInvalidArgument ''1..256 unique Spaces are required'' False)) of
       Inl e \<Rightarrow> (Inl e, d)
     | Inr _ \<Rightarrow>
        (case fold (disable_space now) spaceIDs ((0, 0), d) of (counts, d') \<Rightarrow>
          commit_tx out
            (serviceError ErrorCodeUnknownOutcome ''Steward disable commit outcome is unknown; inspect before retry'' True)
            d d' counts))"

definition GetStewardConfiguration :: "db \<Rightarrow> profile_row list \<times> binding_row list" where
  "GetStewardConfiguration d =
    (sort_key (\<lambda>r. pf_profile_id (pfr_spec r)) (sort_key (\<lambda>r. pf_version (pfr_spec r)) (steward_profiles d)),
     sort_key bd_space_id (space_steward_bindings d))"

section \<open>Enqueueing\<close>

definition enqueueStewardJob ::
  "instant \<Rightarrow> string \<Rightarrow> string \<Rightarrow> string list \<Rightarrow> string \<Rightarrow> db \<Rightarrow> db option" where
  "enqueueStewardJob now receiptID spaceID labels labelSetDigest d =
    (case List.find (\<lambda>b. bd_space_id b = spaceID) (space_steward_bindings d) of
       None \<Rightarrow> Some d
     | Some b \<Rightarrow> insert_job
         \<lparr>jb_job_id = ''job-'' @ take 32 (digestString receiptID), jb_receipt_id = receiptID,
          jb_space_id = spaceID, jb_profile_id = bd_profile_id b, jb_profile_version = bd_profile_version b,
          jb_state = JobPending, jb_attempts = 0, jb_available_at = now, jb_lease_expires_at = None,
          jb_lease_token_digest = [], jb_proposal_digest = [], jb_result = None,
          jb_terminal_error_code = [], jb_created_at = now, jb_updated_at = now,
          jb_label_set = labels, jb_label_set_digest = labelSetDigest\<rparr> d)"

section \<open>Profile versions are immutable\<close>

lemma commit_tx_state: "snd (commit_tx out err d d' r) = d \<or> snd (commit_tx out err d d' r) = d'"
  by (cases out) (auto simp: commit_tx_def)

lemma PutStewardProfile_profiles:
  "snd (PutStewardProfile s now out spec d) = d \<or>
   (\<exists>row. steward_profiles (snd (PutStewardProfile s now out spec d)) = steward_profiles d @ [row])"
  by (auto simp: PutStewardProfile_def insert_profile_def tbl_simps Let_def commit_tx_def
      split: sum.splits option.splits commit_outcome.splits)

text \<open>
  A profile version, once stored, never changes: no later call of
  \<open>PutStewardProfile\<close>, with any specification, alters what a lookup of that version returns,
  and a call that carries a different specification for it is refused as a conflict.
\<close>

theorem profile_version_immutable:
  assumes "readStewardProfile d profileID version = Some row"
  shows "readStewardProfile (snd (PutStewardProfile s now out spec d)) profileID version = Some row \<and>
    (requireMutableGeneration s = Inr () \<and> validate_profile_spec spec = Inr () \<and>
     pf_profile_id spec = profileID \<and> pf_version spec = version \<and> spec \<noteq> pfr_spec row \<longrightarrow>
     fst (PutStewardProfile s now out spec d)
       = Inl (serviceError ErrorCodeConflict ''Steward profile version is immutable'' False))"
proof (intro conjI impI)
  show "readStewardProfile (snd (PutStewardProfile s now out spec d)) profileID version = Some row"
    using PutStewardProfile_profiles[of s now out spec d] assms
    by (elim disjE exE) (simp_all add: readStewardProfile_def)
next
  assume "requireMutableGeneration s = Inr () \<and> validate_profile_spec spec = Inr () \<and>
    pf_profile_id spec = profileID \<and> pf_version spec = version \<and> spec \<noteq> pfr_spec row"
  with assms show "fst (PutStewardProfile s now out spec d)
      = Inl (serviceError ErrorCodeConflict ''Steward profile version is immutable'' False)"
    by (auto simp: PutStewardProfile_def)
qed

definition demo_profile :: profile_spec where
  "demo_profile = \<lparr>pf_profile_id = ''q'', pf_version = 1, pf_system_prompt = ''p'',
     pf_max_context_records = 4, pf_max_input_bytes = 131072, pf_max_output_bytes = 1024\<rparr>"

theorem profile_version_immutable_witness:
  "fst (PutStewardProfile demo_store 9 Committed (demo_profile\<lparr>pf_system_prompt := ''z''\<rparr>)
     (empty_db\<lparr>steward_profiles := [\<lparr>pfr_spec = demo_profile, pfr_created_at = 1\<rparr>]\<rparr>))
   = Inl (serviceError ErrorCodeConflict ''Steward profile version is immutable'' False)"
proof -
  let ?d = "empty_db\<lparr>steward_profiles := [\<lparr>pfr_spec = demo_profile, pfr_created_at = 1\<rparr>]\<rparr>"
  have r: "readStewardProfile ?d ''q'' 1 = Some \<lparr>pfr_spec = demo_profile, pfr_created_at = 1\<rparr>"
    by (simp add: readStewardProfile_def demo_profile_def empty_db_def)
  have v: "validate_profile_spec (demo_profile\<lparr>pf_system_prompt := ''z''\<rparr>) = Inr ()"
    by (simp add: validate_profile_spec_def demo_profile_def boundedReference_def contains_any_def text_eval)
  show ?thesis
    using profile_version_immutable[OF r, of demo_store 9 Committed "demo_profile\<lparr>pf_system_prompt := ''z''\<rparr>"] v
    by (simp add: demo_profile_def demo_store_def requireMutableGeneration_def)
qed

section \<open>Disabling settles every open job\<close>

lemma disable_space_tables:
  "steward_jobs (snd (disable_space now spaceID state)) =
     tbl_update (\<lambda>j. jb_space_id j = spaceID \<and> open_job j) (fail_job now ''steward_disabled'') (steward_jobs (snd state))"
  "space_steward_bindings (snd (disable_space now spaceID state)) =
     tbl_delete (\<lambda>b. bd_space_id b = spaceID) (space_steward_bindings (snd state))"
  by (simp_all add: disable_space_def Let_def split_beta)

lemma fail_job_closed [simp]: "\<not> open_job (fail_job now code j)"
  by (simp add: open_job_def fail_job_def)

lemma disable_space_no_open:
  "let d' = snd (disable_space now spaceID state) in
   (\<forall>j\<in>set (steward_jobs d'). jb_space_id j = spaceID \<longrightarrow> \<not> open_job j) \<and>
   (\<forall>j'\<in>set (steward_jobs d'). open_job j' \<longrightarrow> j' \<in> set (steward_jobs (snd state))) \<and>
   (\<forall>b\<in>set (space_steward_bindings d'). bd_space_id b \<noteq> spaceID \<and> b \<in> set (space_steward_bindings (snd state)))"
  unfolding Let_def disable_space_tables set_tbl_update set_tbl_delete by auto

lemma fold_disable_no_open:
  "let d' = snd (fold (disable_space now) ids state) in
   (\<forall>s\<in>set ids. \<forall>j\<in>set (steward_jobs d'). jb_space_id j = s \<longrightarrow> \<not> open_job j) \<and>
   (\<forall>j\<in>set (steward_jobs d'). open_job j \<longrightarrow> j \<in> set (steward_jobs (snd state))) \<and>
   (\<forall>b\<in>set (space_steward_bindings d'). bd_space_id b \<notin> set ids \<and> b \<in> set (space_steward_bindings (snd state)))"
proof (induction ids arbitrary: state)
  case Nil
  then show ?case by simp
next
  case (Cons s ids)
  show ?case
    using Cons.IH[of "disable_space now s state"] disable_space_no_open[of now s state]
    by (fastforce simp: Let_def)
qed

text \<open>
  Disabling the Steward leaves nothing to lease in the named Spaces: after a successful
  call no job of those Spaces is pending or leased and none of them has a binding, so no new job
  can be enqueued either.
\<close>

theorem disabled_space_has_no_work:
  assumes "DisableSteward s now out spaceIDs d = (Inr counts, d')" and "spaceID \<in> set spaceIDs"
  shows "(\<forall>j\<in>set (steward_jobs d'). jb_space_id j = spaceID \<longrightarrow> \<not> open_job j) \<and>
         enqueueStewardJob now' receiptID spaceID labels digest d' = Some d'"
proof -
  have "d' = snd (fold (disable_space now) spaceIDs ((0, 0), d))"
    using assms(1) by (auto simp: DisableSteward_def commit_tx_def
        split: sum.splits prod.splits commit_outcome.splits)
  then have jobs: "\<forall>j\<in>set (steward_jobs d'). jb_space_id j = spaceID \<longrightarrow> \<not> open_job j"
    and bindings: "\<forall>b\<in>set (space_steward_bindings d'). bd_space_id b \<noteq> spaceID"
    using fold_disable_no_open[of now spaceIDs "((0, 0), d)"] assms(2) by (auto simp: Let_def)
  from bindings have "List.find (\<lambda>b. bd_space_id b = spaceID) (space_steward_bindings d') = None"
    by (auto simp: find_None_iff)
  with jobs show ?thesis by (simp add: enqueueStewardJob_def)
qed

theorem disabled_space_has_no_work_witness:
  "\<exists>counts d'. DisableSteward demo_store 5 Committed [''s''] (demo_db SpaceClassPrivate AudiencePrivate)
     = (Inr counts, d') \<and> enqueueStewardJob 6 ''x'' ''s'' [] [] d' = Some d'"
proof -
  obtain counts d' where d: "DisableSteward demo_store 5 Committed [''s''] (demo_db SpaceClassPrivate AudiencePrivate)
     = (Inr counts, d')"
    by (simp add: DisableSteward_def requireMutableGeneration_def demo_defs hasDuplicateSpaceIDs_def
        disable_space_def commit_tx_def Let_def)
  from disabled_space_has_no_work[OF d, of "''s''"] d show ?thesis by auto
qed

end
