(* ===== verification/Data_Plane.thy ===== *)
theory Data_Plane
  imports Profiles
begin

text \<open>
  Acceptance of evidence, \<open>dataplane.go\<close>: \<open>Remember\<close> commits an immutable receipt with its
  processing row, Steward job, consistency cursor and index row in one transaction, and
  \<open>GetReceiptStatus\<close> reads its state. The properties are the effect contract of the data plane: a
  Space holds at most one receipt per idempotency key; a retry after any outcome returns the first
  receipt and changes nothing; a key used for other content is a conflict; a deleted effect does
  not come back; a failed call leaves the database as it was; and the status of a receipt outside
  the caller's View is indistinguishable from an absent one.
\<close>

section \<open>Remember\<close>

text \<open>The environment of one call: whether its context has expired, the fault hooks of
  \<open>Options.Faults\<close>, and what becomes of the commit.\<close>

record remember_env =
  en_context_done :: bool
  en_before_commit_fault :: bool
  en_commit :: commit_outcome
  en_after_commit_fault :: bool

definition json_remember :: "remember_request \<Rightarrow> json" where
  "json_remember r = JObj
    ([(''text'', JStr (rem_text r)), (''source_context'', json_source_context (rem_source_context r))] @
     (case rem_occurred_at r of None \<Rightarrow> [] | Some t \<Rightarrow> omit_str ''occurred_at'' (formatTime t)))"

definition rememberRequestDigest :: "remember_request \<Rightarrow> string list \<Rightarrow> string" where
  "rememberRequestDigest r labels =
    (let value = json_remember r in
     digestString (json_encode
       (if labels = [] then value
        else JObj [(''request'', value), (''labels'', JArr (map JStr labels))])))"

definition lookupIdempotentReceipt :: "db \<Rightarrow> string \<Rightarrow> string \<Rightarrow> (receipt_row \<times> processing_state) option" where
  "lookupIdempotentReceipt d spaceID key =
    Option.bind (List.find (\<lambda>r. (rt_space_id r, rt_idempotency_key r) = (spaceID, key) \<and>
        processing_of (rt_receipt_id r) d \<noteq> None) (receipts d)) (\<lambda>r.
    map_option (\<lambda>p. (r, pc_state p)) (processing_of (rt_receipt_id r) d))"

definition resolveIdempotent :: "receipt_row \<times> processing_state \<Rightarrow> string \<Rightarrow> error + remember_response" where
  "resolveIdempotent previous digest =
    rbind (guard (rt_request_digest (fst previous) = digest)
      (serviceError ErrorCodeConflict ''idempotency key conflicts with an existing effect'' False)) (\<lambda>_.
    Inr \<lparr>rsp_accepted = True, rsp_receipt_id = rt_receipt_id (fst previous),
      rsp_consistency_token = rt_consistency_token (fst previous), rsp_deduplicated_retry = True,
      rsp_processing_state = snd previous\<rparr>)"

definition resolveRememberInsertFailure :: "db \<Rightarrow> string \<Rightarrow> string \<Rightarrow> string \<Rightarrow> error + remember_response" where
  "resolveRememberInsertFailure d spaceID key digest =
    (case lookupIdempotentReceipt d spaceID key of
       Some previous \<Rightarrow> resolveIdempotent previous digest
     | None \<Rightarrow> Inl (databaseError ''store Remember receipt''))"

definition accepted_processing :: "string \<Rightarrow> processing_row" where
  "accepted_processing receiptID =
    \<lparr>pc_receipt_id = receiptID, pc_state = ProcessingStateAccepted, pc_attempts = 0,
     pc_last_attempt_at = None, pc_terminal_error_code = [], pc_semantic_generation = []\<rparr>"

definition remember_checks :: "store \<Rightarrow> remember_env \<Rightarrow> remember_request \<Rightarrow> error + unit" where
  "remember_checks s env request =
    rbind (guard (\<not> en_context_done env)
      (serviceError ErrorCodeDeadline ''request deadline exceeded'' False)) (\<lambda>_.
    rbind (guard (\<not> sto_closing s)
      (serviceError ErrorCodeUnavailable ''memoryd is shutting down'' True)) (\<lambda>_.
    rbind (guard (\<not> sto_restore_pending s)
      (serviceError ErrorCodeUnavailable ''restored generation awaits operator commit'' False)) (\<lambda>_.
    map_err (\<lambda>m. serviceError ErrorCodeInvalidArgument m False) (validate_remember request))))"

text \<open>The new receipt's row; its commit sequence is assigned by the insert.\<close>

definition remember_row ::
  "instant \<Rightarrow> authorized_view \<Rightarrow> remember_request \<Rightarrow> string \<Rightarrow> string \<Rightarrow> receipt_row" where
  "remember_row now view request receiptID token =
    \<lparr>rt_commit_sequence = 0, rt_receipt_id = receiptID, rt_space_id = av_write_space_id view,
     rt_text = rem_text request, rt_source_context = rem_source_context request,
     rt_occurred_at = rem_occurred_at request, rt_received_at = now,
     rt_idempotency_key = rem_idempotency_key request,
     rt_request_digest = rememberRequestDigest request (av_labels view),
     rt_consistency_token = token, rt_label_set = av_labels view,
     rt_label_set_digest = av_label_set_digest view\<rparr>"

text \<open>The writes that follow the receipt insert, in the order of the source.\<close>

definition remember_writes ::
  "store \<Rightarrow> analyzer \<Rightarrow> instant \<Rightarrow> authorized_view \<Rightarrow> remember_request \<Rightarrow> string \<Rightarrow> string \<Rightarrow> db \<Rightarrow> error + db" where
  "remember_writes s A now view request receiptID token d =
    rbind (of_opt (databaseError ''store receipt processing state'')
      (insert_processing (accepted_processing receiptID) d)) (\<lambda>d.
    rbind (of_opt (databaseError ''enqueue Steward job'')
      (enqueueStewardJob now receiptID (av_write_space_id view) (av_labels view) (av_label_set_digest view) d)) (\<lambda>d.
    rbind (of_opt (databaseError ''store consistency cursor'')
      (insert_cursor \<lparr>cu_token = token, cu_generation = sto_generation s, cu_space_id = av_write_space_id view,
         cu_commit_sequence = receipts_seq d, cu_label_set_digest = av_label_set_digest view\<rparr> d)) (\<lambda>d.
    rbind (of_opt (databaseError ''resolve Space index'') (readSpaceIndex d (av_write_space_id view))) (\<lambda>tableName.
    of_opt (databaseError ''index accepted receipt'')
      (indexReceiptProjection A tableName receiptID (rem_text request) [] d)))))"

text \<open>The transaction up to its commit: a replayed answer without effect, or a new answer with the
  database to commit.\<close>

definition remember_tx ::
  "store \<Rightarrow> analyzer \<Rightarrow> instant \<Rightarrow> string \<Rightarrow> call_authorization \<Rightarrow> remember_request \<Rightarrow> db \<Rightarrow>
   error + (remember_response \<times> db option)" where
  "remember_tx s A now rnd auth request d =
    rbind (authorize now d auth OperationRemember) (\<lambda>view.
    rbind (guard (av_write_space_id view \<noteq> []) (unauthorized ''View has no writable Space'')) (\<lambda>_.
    (let digest = rememberRequestDigest request (av_labels view); key = rem_idempotency_key request in
    rbind (guard (\<not> list_ex (\<lambda>t. (tb_space_id t, tb_idempotency_key t) = (av_write_space_id view, key)) (receipt_tombstones d))
      (serviceError ErrorCodeConflict ''idempotent effect was deleted by management; use a new effect identity to remember it again'' False)) (\<lambda>_.
    (case lookupIdempotentReceipt d (av_write_space_id view) key of
       Some previous \<Rightarrow> rbind (resolveIdempotent previous digest) (\<lambda>r. Inr (r, None))
     | None \<Rightarrow>
        rbind (of_opt (serviceError ErrorCodeInternal ''failed to create receipt identity'' False) (randomHex 16 rnd)) (\<lambda>(suffix, rnd).
        rbind (of_opt (serviceError ErrorCodeInternal ''failed to create consistency cursor'' False) (randomToken 24 rnd)) (\<lambda>(token, rnd).
        (let receiptID = ''receipt-'' @ suffix in
         case insert_receipt (remember_row now view request receiptID token) d of
           None \<Rightarrow> rbind (resolveRememberInsertFailure d (av_write_space_id view) key digest) (\<lambda>r. Inr (r, None))
         | Some d' \<Rightarrow>
             rbind (remember_writes s A now view request receiptID token d') (\<lambda>d'.
             Inr (\<lparr>rsp_accepted = True, rsp_receipt_id = receiptID, rsp_consistency_token = token,
               rsp_deduplicated_retry = False, rsp_processing_state = ProcessingStateAccepted\<rparr>, Some d'))))))))))"

definition remember_unknown :: "string \<Rightarrow> error" where
  "remember_unknown message = serviceError ErrorCodeUnknownOutcome message True"

definition Remember ::
  "store \<Rightarrow> analyzer \<Rightarrow> instant \<Rightarrow> string \<Rightarrow> remember_env \<Rightarrow> call_authorization \<Rightarrow> remember_request \<Rightarrow> db \<Rightarrow>
   (error + remember_response) \<times> db" where
  "Remember s A now rnd env auth request d =
    (case rbind (remember_checks s env request) (\<lambda>_. remember_tx s A now rnd auth request d) of
       Inl e \<Rightarrow> (Inl e, d)
     | Inr (response, None) \<Rightarrow> (Inr response, d)
     | Inr (response, Some d') \<Rightarrow>
        (if en_before_commit_fault env
         then (Inl (serviceError ErrorCodeUnavailable ''Remember could not commit'' True), d)
         else case commit_tx (en_commit env)
              (remember_unknown ''Remember commit outcome is unknown; retry the same effect identity'') d d' response of
           (Inl e, d'') \<Rightarrow> (Inl e, d'')
         | (Inr r, d'') \<Rightarrow>
             (if en_after_commit_fault env
              then (Inl (remember_unknown ''Remember committed but the response outcome is unknown; retry the same effect identity''), d'')
              else (Inr r, d''))))"

section \<open>Receipt status\<close>

definition GetReceiptStatus ::
  "store \<Rightarrow> instant \<Rightarrow> call_authorization \<Rightarrow> string \<Rightarrow> db \<Rightarrow> error + receipt_status" where
  "GetReceiptStatus s now auth receiptID d =
    rbind (guard (receiptID \<noteq> []) (serviceError ErrorCodeInvalidArgument ''receipt_id is required'' False)) (\<lambda>_.
    rbind (guard (\<not> sto_closing s) (serviceError ErrorCodeUnavailable ''memoryd is shutting down'' True)) (\<lambda>_.
    rbind (guard (\<not> sto_restore_pending s)
      (serviceError ErrorCodeUnavailable ''restored generation awaits operator commit'' False)) (\<lambda>_.
    rbind (authorize now d auth OperationReceiptStatus) (\<lambda>view.
    (case (receipt_of receiptID d, processing_of receiptID d) of
       (Some r, Some p) \<Rightarrow>
         (if rt_space_id r \<in> set (av_read_space_ids view) \<and> rt_label_set_digest r = av_label_set_digest view
          then Inr \<lparr>st_receipt_id = rt_receipt_id r, st_state = pc_state p, st_accepted_at = rt_received_at r,
                 st_last_attempt_at = pc_last_attempt_at p, st_terminal_error_code = pc_terminal_error_code p,
                 st_semantic_generation = pc_semantic_generation p\<rparr>
          else Inl (serviceError ErrorCodeNotFound ''receipt not found'' False))
     | _ \<Rightarrow> Inl (serviceError ErrorCodeNotFound ''receipt not found'' False))))))"

section \<open>Frames\<close>

definition same_authority :: "db \<Rightarrow> db \<Rightarrow> bool" where
  "same_authority d d' \<longleftrightarrow>
     capabilities d' = capabilities d \<and> capability_operations d' = capability_operations d \<and>
     grants d' = grants d \<and> grant_operations d' = grant_operations d \<and> grant_audiences d' = grant_audiences d \<and>
     views d' = views d \<and> view_read_spaces d' = view_read_spaces d \<and> spaces d' = spaces d"

lemma authorize_frame: "same_authority d d' \<Longrightarrow> authorize now d' auth p = authorize now d auth p"
  by (simp add: same_authority_def authorize_def grant_of_def view_of_def readSpaceScope_def space_of_def
      read_view_spaces_def)

lemma authorize_time_irrelevant:
  assumes "authorize now d auth p = Inr v" and "authorize now' d auth p = Inr v'"
  shows "v' = v"
  using assms unfolding authorize_def Let_def by (elim run_elims conjE) simp

lemma insert_receipt_Some:
  assumes "insert_receipt r d = Some d'"
  shows "receipts d' = receipts d @ [r\<lparr>rt_commit_sequence := Suc (receipts_seq d)\<rparr>]"
    and "tbl_insert clash_receipt (r\<lparr>rt_commit_sequence := Suc (receipts_seq d)\<rparr>) (receipts d) = Some (receipts d')"
    and "same_authority d d'" and "receipt_processing d' = receipt_processing d"
    and "receipt_tombstones d' = receipt_tombstones d" and "receipt_fts d' = receipt_fts d"
  using assms by (auto simp: insert_receipt_def Let_def insert_into_def tbl_insert_Some same_authority_def split: if_splits)

lemma enqueue_frame:
  assumes "enqueueStewardJob now rid sp labels dg d = Some d'"
  shows "receipts d' = receipts d" "same_authority d d'" "receipt_processing d' = receipt_processing d"
    "receipt_tombstones d' = receipt_tombstones d" "receipt_fts d' = receipt_fts d"
  using assms by (auto simp: enqueueStewardJob_def insert_job_def tbl_simps same_authority_def split: option.splits)

lemma insert_cursor_frame:
  assumes "insert_cursor c d = Some d'"
  shows "receipts d' = receipts d" "same_authority d d'" "receipt_processing d' = receipt_processing d"
    "receipt_tombstones d' = receipt_tombstones d" "receipt_fts d' = receipt_fts d"
  using assms by (auto simp: insert_cursor_def tbl_simps same_authority_def)

lemma index_receipt_frame:
  assumes "indexReceiptProjection A t rid text priv d = Some d'"
  shows "receipts d' = receipts d" "same_authority d d'" "receipt_processing d' = receipt_processing d"
    "receipt_tombstones d' = receipt_tombstones d"
    "\<exists>f. receipt_fts d' = receipt_fts d @ [f] \<and> ft_table f = t \<and> ft_receipt_id f = rid \<and> ft_text f = text"
  using assms by (auto simp: indexReceiptProjection_def same_authority_def)

lemma same_authority_trans: "same_authority d d' \<Longrightarrow> same_authority d' d'' \<Longrightarrow> same_authority d d''"
  by (simp add: same_authority_def)

lemma remember_writes_Inr:
  assumes "remember_writes s A now view request rid tok d = Inr d'"
  shows "receipts d' = receipts d" "same_authority d d'" "receipt_tombstones d' = receipt_tombstones d"
    "receipt_processing d' = receipt_processing d @ [accepted_processing rid]"
    "\<forall>p\<in>set (receipt_processing d). pc_receipt_id p \<noteq> rid"
    "\<exists>f. receipt_fts d' = receipt_fts d @ [f] \<and> ft_table f = spaceIndexTable (av_write_space_id view) \<and>
         ft_receipt_id f = rid \<and> ft_text f = rem_text request"
proof -
  from assms obtain d1 d2 d3 c t where
    1: "insert_processing (accepted_processing rid) d = Some d1"
    and 2: "enqueueStewardJob now rid (av_write_space_id view) (av_labels view) (av_label_set_digest view) d1 = Some d2"
    and 3: "insert_cursor c d2 = Some d3" and t: "readSpaceIndex d3 (av_write_space_id view) = Some t"
    and 4: "indexReceiptProjection A t rid (rem_text request) [] d3 = Some d'"
    unfolding remember_writes_def by (elim run_elims) blast
  have f1: "receipts d1 = receipts d" "same_authority d d1" "receipt_tombstones d1 = receipt_tombstones d"
    "receipt_processing d1 = receipt_processing d @ [accepted_processing rid]" "receipt_fts d1 = receipt_fts d"
    "\<forall>p\<in>set (receipt_processing d). pc_receipt_id p \<noteq> rid"
    using 1 by (auto simp: insert_processing_def tbl_simps same_authority_def clash_on_def accepted_processing_def)
  have t': "t = spaceIndexTable (av_write_space_id view)"
    using t by (auto simp: readSpaceIndex_def split: option.splits if_splits)
  note fs = f1 enqueue_frame[OF 2] insert_cursor_frame[OF 3] index_receipt_frame[OF 4]
  show "receipts d' = receipts d" "receipt_tombstones d' = receipt_tombstones d"
    "receipt_processing d' = receipt_processing d @ [accepted_processing rid]"
    "\<forall>p\<in>set (receipt_processing d). pc_receipt_id p \<noteq> rid"
    using fs by simp_all
  show "same_authority d d'" using fs(2,8,13,18) by (meson same_authority_trans)
  show "\<exists>f. receipt_fts d' = receipt_fts d @ [f] \<and> ft_table f = spaceIndexTable (av_write_space_id view) \<and>
         ft_receipt_id f = rid \<and> ft_text f = rem_text request"
    using fs t' by simp
qed

section \<open>What a new effect writes\<close>

text \<open>\<open>new_effect\<close> relates the databases around a committed \<open>Remember\<close>.\<close>

definition new_effect ::
  "authorized_view \<Rightarrow> remember_request \<Rightarrow> remember_response \<Rightarrow> db \<Rightarrow> db \<Rightarrow> bool" where
  "new_effect view request response d d' \<longleftrightarrow>
    (\<exists>row f. tbl_insert clash_receipt row (receipts d) = Some (receipts d') \<and>
       rt_receipt_id row = rsp_receipt_id response \<and> rt_consistency_token row = rsp_consistency_token response \<and>
       rt_space_id row = av_write_space_id view \<and> rt_text row = rem_text request \<and>
       rt_idempotency_key row = rem_idempotency_key request \<and>
       rt_request_digest row = rememberRequestDigest request (av_labels view) \<and>
       rt_label_set_digest row = av_label_set_digest view \<and>
       receipt_processing d' = receipt_processing d @ [accepted_processing (rsp_receipt_id response)] \<and>
       (\<forall>p\<in>set (receipt_processing d). pc_receipt_id p \<noteq> rsp_receipt_id response) \<and>
       receipt_fts d' = receipt_fts d @ [f] \<and> ft_table f = spaceIndexTable (av_write_space_id view) \<and>
       ft_receipt_id f = rsp_receipt_id response \<and> ft_text f = rem_text request) \<and>
    same_authority d d' \<and> receipt_tombstones d' = receipt_tombstones d \<and>
    (\<forall>t\<in>set (receipt_tombstones d). (tb_space_id t, tb_idempotency_key t)
        \<noteq> (av_write_space_id view, rem_idempotency_key request)) \<and>
    rsp_accepted response \<and> \<not> rsp_deduplicated_retry response \<and>
    rsp_processing_state response = ProcessingStateAccepted"

lemma remember_tx_new:
  assumes "remember_tx s A now rnd auth request d = Inr (response, Some d')"
  obtains view where "authorize now d auth OperationRemember = Inr view" "av_write_space_id view \<noteq> []"
    "new_effect view request response d d'"
proof -
  from assms obtain view suffix rnd1 token rnd2 d1 where
    view: "authorize now d auth OperationRemember = Inr view" "av_write_space_id view \<noteq> []"
    and ts: "\<not> list_ex (\<lambda>t. (tb_space_id t, tb_idempotency_key t) = (av_write_space_id view, rem_idempotency_key request)) (receipt_tombstones d)"
    and ins: "insert_receipt (remember_row now view request (''receipt-'' @ suffix) token) d = Some d1"
    and writes: "remember_writes s A now view request (''receipt-'' @ suffix) token d1 = Inr d'"
    and response: "response = \<lparr>rsp_accepted = True, rsp_receipt_id = ''receipt-'' @ suffix, rsp_consistency_token = token,
               rsp_deduplicated_retry = False, rsp_processing_state = ProcessingStateAccepted\<rparr>"
    unfolding remember_tx_def Let_def
    by (elim run_elims) (auto simp: result_simps split: option.splits)
  note i = insert_receipt_Some[OF ins] and w = remember_writes_Inr[OF writes]
  let ?row = "(remember_row now view request (''receipt-'' @ suffix) token)\<lparr>rt_commit_sequence := Suc (receipts_seq d)\<rparr>"
  have "tbl_insert clash_receipt ?row (receipts d) = Some (receipts d')" using i(2) w(1) by simp
  moreover have "same_authority d d'" using i(3) w(2) by (rule same_authority_trans)
  moreover obtain f where "receipt_fts d' = receipt_fts d @ [f]" "ft_table f = spaceIndexTable (av_write_space_id view)"
    "ft_receipt_id f = ''receipt-'' @ suffix" "ft_text f = rem_text request"
    using i(6) w(6) by auto
  ultimately have "new_effect view request response d d'"
    unfolding new_effect_def using i w ts
    by (auto simp: response remember_row_def list_ex_iff intro!: exI[of _ ?row] exI[of _ f])
  with view that show thesis by blast
qed

text \<open>The same transaction seen from its cursor and its queue: the token answered resolves to the
  commit sequence of the stored row, and a Space with a steward binding gets a pending job.\<close>

lemma remember_writes_cursor:
  assumes "remember_writes s A now view request rid tok d = Inr d'"
  shows "\<lparr>cu_token = tok, cu_generation = sto_generation s, cu_space_id = av_write_space_id view,
      cu_commit_sequence = receipts_seq d, cu_label_set_digest = av_label_set_digest view\<rparr> \<in> set (consistency_cursors d')"
    and "List.find (\<lambda>b. bd_space_id b = av_write_space_id view) (space_steward_bindings d) = Some b \<Longrightarrow>
      \<exists>j\<in>set (steward_jobs d'). jb_receipt_id j = rid \<and> jb_space_id j = av_write_space_id view \<and>
        jb_state j = JobPending \<and> jb_label_set_digest j = av_label_set_digest view"
proof -
  from assms obtain d1 d2 d3 t where
    1: "insert_processing (accepted_processing rid) d = Some d1"
    and 2: "enqueueStewardJob now rid (av_write_space_id view) (av_labels view) (av_label_set_digest view) d1 = Some d2"
    and 3: "insert_cursor \<lparr>cu_token = tok, cu_generation = sto_generation s, cu_space_id = av_write_space_id view,
        cu_commit_sequence = receipts_seq d2, cu_label_set_digest = av_label_set_digest view\<rparr> d2 = Some d3"
    and 4: "indexReceiptProjection A t rid (rem_text request) [] d3 = Some d'"
    unfolding remember_writes_def by (elim run_elims) blast
  have f1: "receipts_seq d1 = receipts_seq d" "space_steward_bindings d1 = space_steward_bindings d"
    using 1 by (auto simp: insert_processing_def tbl_simps)
  have f2: "receipts_seq d2 = receipts_seq d1"
    using 2 by (auto simp: enqueueStewardJob_def insert_job_def tbl_simps split: option.splits)
  have f4: "consistency_cursors d' = consistency_cursors d3" "steward_jobs d' = steward_jobs d2"
    using 3 4 by (auto simp: indexReceiptProjection_def insert_cursor_def tbl_simps)
  show "\<lparr>cu_token = tok, cu_generation = sto_generation s, cu_space_id = av_write_space_id view,
      cu_commit_sequence = receipts_seq d, cu_label_set_digest = av_label_set_digest view\<rparr> \<in> set (consistency_cursors d')"
    using 3 f1 f2 f4 by (auto simp: insert_cursor_def tbl_simps)
  show "\<exists>j\<in>set (steward_jobs d'). jb_receipt_id j = rid \<and> jb_space_id j = av_write_space_id view \<and>
        jb_state j = JobPending \<and> jb_label_set_digest j = av_label_set_digest view"
    if "List.find (\<lambda>b. bd_space_id b = av_write_space_id view) (space_steward_bindings d) = Some b"
    using 2 f1 f4 that by (auto simp: enqueueStewardJob_def insert_job_def tbl_simps)
qed

lemma remember_tx_cursor:
  assumes "remember_tx s A now rnd auth request d = Inr (response, Some d')"
    and "authorize now d auth OperationRemember = Inr view"
  obtains row where "receipt_of (rsp_receipt_id response) d' = Some row"
    "\<lparr>cu_token = rsp_consistency_token response, cu_generation = sto_generation s, cu_space_id = av_write_space_id view,
      cu_commit_sequence = rt_commit_sequence row, cu_label_set_digest = av_label_set_digest view\<rparr> \<in> set (consistency_cursors d')"
    "\<forall>b. List.find (\<lambda>b. bd_space_id b = av_write_space_id view) (space_steward_bindings d) = Some b \<longrightarrow>
      (\<exists>j\<in>set (steward_jobs d'). jb_receipt_id j = rsp_receipt_id response \<and> jb_space_id j = av_write_space_id view \<and>
        jb_state j = JobPending \<and> jb_label_set_digest j = av_label_set_digest view)"
proof -
  from assms obtain suffix token d1 where
    ins: "insert_receipt (remember_row now view request (''receipt-'' @ suffix) token) d = Some d1"
    and writes: "remember_writes s A now view request (''receipt-'' @ suffix) token d1 = Inr d'"
    and response: "rsp_receipt_id response = ''receipt-'' @ suffix" "rsp_consistency_token response = token"
    unfolding remember_tx_def Let_def
    by (elim run_elims) (auto simp: result_simps split: option.splits)
  note i = insert_receipt_Some[OF ins] and w = remember_writes_Inr[OF writes] and c = remember_writes_cursor[OF writes]
  have q: "receipts_seq d1 = Suc (receipts_seq d)" "space_steward_bindings d1 = space_steward_bindings d"
    using ins by (auto simp: insert_receipt_def Let_def insert_into_def tbl_insert_Some split: if_splits)
  let ?row = "(remember_row now view request (''receipt-'' @ suffix) token)\<lparr>rt_commit_sequence := Suc (receipts_seq d)\<rparr>"
  have "receipt_of (rsp_receipt_id response) d' = Some ?row"
    using receipt_key.find_inserted[OF i(2)] w(1) by (simp add: receipt_of_def response remember_row_def)
  from that[OF this] c q show thesis by (auto simp: response)
qed

lemma remember_tx_replay:
  assumes "remember_tx s A now rnd auth request d = Inr (response, None)"
  obtains view previous where "authorize now d auth OperationRemember = Inr view"
    "lookupIdempotentReceipt d (av_write_space_id view) (rem_idempotency_key request) = Some previous"
    "resolveIdempotent previous (rememberRequestDigest request (av_labels view)) = Inr response"
  using assms unfolding remember_tx_def Let_def resolveRememberInsertFailure_def
  by (elim run_elims) (auto simp: result_simps split: option.splits)

lemma processing_of_new:
  assumes "receipt_processing d' = rows @ [accepted_processing rid]" and "\<forall>p\<in>set rows. pc_receipt_id p \<noteq> rid"
  shows "processing_of rid d' = Some (accepted_processing rid)"
proof -
  have "List.find (\<lambda>r. pc_receipt_id r = rid) rows = None" using assms(2) by (simp add: find_None_iff)
  then show ?thesis by (simp add: processing_of_def assms(1) accepted_processing_def)
qed

lemma new_effect_lookup:
  assumes "new_effect view request response d d'"
  obtains row where
    "lookupIdempotentReceipt d' (av_write_space_id view) (rem_idempotency_key request) = Some (row, ProcessingStateAccepted)"
    "rt_receipt_id row = rsp_receipt_id response" "rt_consistency_token row = rsp_consistency_token response"
    "rt_request_digest row = rememberRequestDigest request (av_labels view)"
    "receipt_of (rsp_receipt_id response) d' = Some row" "rt_text row = rem_text request"
    "rt_space_id row = av_write_space_id view" "rt_label_set_digest row = av_label_set_digest view"
proof -
  from assms obtain row where row: "tbl_insert clash_receipt row (receipts d) = Some (receipts d')"
    "rt_receipt_id row = rsp_receipt_id response" "rt_consistency_token row = rsp_consistency_token response"
    "rt_space_id row = av_write_space_id view" "rt_text row = rem_text request"
    "rt_idempotency_key row = rem_idempotency_key request"
    "rt_request_digest row = rememberRequestDigest request (av_labels view)"
    "rt_label_set_digest row = av_label_set_digest view"
    and proc: "receipt_processing d' = receipt_processing d @ [accepted_processing (rsp_receipt_id response)]"
      "\<forall>p\<in>set (receipt_processing d). pc_receipt_id p \<noteq> rsp_receipt_id response"
    by (auto simp: new_effect_def)
  note p = processing_of_new[OF proc]
  have rows: "receipts d' = receipts d @ [row]" and clash: "\<forall>r\<in>set (receipts d). \<not> clash_receipt row r"
    using row(1) by (auto simp: tbl_insert_Some)
  have none: "List.find (\<lambda>r. (rt_space_id r, rt_idempotency_key r) = (av_write_space_id view, rem_idempotency_key request) \<and>
      processing_of (rt_receipt_id r) d' \<noteq> None) (receipts d) = None"
    using clash row(4,6) by (auto simp: find_None_iff clash_receipt_def)
  have "lookupIdempotentReceipt d' (av_write_space_id view) (rem_idempotency_key request)
      = Some (row, ProcessingStateAccepted)"
    unfolding lookupIdempotentReceipt_def rows
    using none row(2,4,6) p by (simp add: accepted_processing_def)
  moreover have "receipt_of (rsp_receipt_id response) d' = Some row"
    using receipt_key.find_inserted[OF row(1)] row(2) by (simp add: receipt_of_def)
  ultimately show thesis using that row by blast
qed

section \<open>The effect contract\<close>

lemma Remember_cases:
  assumes "Remember s A now rnd env auth request d = (out, d')"
  obtains (failed) e where "out = Inl e" "d' = d"
  | (replay) r where "out = Inr r" "d' = d" "remember_tx s A now rnd auth request d = Inr (r, None)"
  | (unknown) r m where "out = Inl (remember_unknown m)" "remember_tx s A now rnd auth request d = Inr (r, Some d')"
  | (new) r where "out = Inr r" "remember_tx s A now rnd auth request d = Inr (r, Some d')"
proof (cases "rbind (remember_checks s env request) (\<lambda>_. remember_tx s A now rnd auth request d)")
  case (Inl e)
  then show thesis using assms by (intro failed[of e]) (simp_all add: Remember_def)
next
  case (Inr x)
  then have tx: "remember_tx s A now rnd auth request d = Inr x" by (auto simp: result_simps)
  show thesis
  proof (cases "snd x")
    case None
    then show thesis using assms Inr tx by (intro replay[of "fst x"]) (cases x; simp add: Remember_def)+
  next
    case (Some d2)
    then have x: "x = (fst x, Some d2)" by (cases x) simp
    have "out = Inl (serviceError ErrorCodeUnavailable ''Remember could not commit'' True) \<and> d' = d \<or>
        (\<exists>m. out = Inl (remember_unknown m) \<and> (d' = d \<or> d' = d2)) \<or> out = Inr (fst x) \<and> d' = d2"
      using assms Inr unfolding Remember_def
      by (subst (asm) x) (cases "en_commit env"; auto simp: commit_tx_def split: if_splits)
    then show thesis using tx x failed unknown new by metis
  qed
qed

text \<open>A stored effect with the request's digest answers every retry.\<close>

definition effect_stored :: "authorized_view \<Rightarrow> remember_request \<Rightarrow> receipt_row \<Rightarrow> db \<Rightarrow> bool" where
  "effect_stored view request row d \<longleftrightarrow>
     av_write_space_id view \<noteq> [] \<and>
     (\<forall>t\<in>set (receipt_tombstones d). (tb_space_id t, tb_idempotency_key t)
        \<noteq> (av_write_space_id view, rem_idempotency_key request)) \<and>
     (\<exists>state. lookupIdempotentReceipt d (av_write_space_id view) (rem_idempotency_key request) = Some (row, state)) \<and>
     rt_request_digest row = rememberRequestDigest request (av_labels view)"

lemma remember_replays:
  assumes "effect_stored view request row d" and "authorize now d auth OperationRemember = Inr view"
    and "remember_checks s env request = Inr ()"
  shows "\<exists>r. Remember s A now rnd env auth request d = (Inr r, d) \<and> rsp_deduplicated_retry r \<and>
           rsp_receipt_id r = rt_receipt_id row \<and> rsp_consistency_token r = rt_consistency_token row"
proof -
  from assms(1) obtain state where
    prev: "lookupIdempotentReceipt d (av_write_space_id view) (rem_idempotency_key request) = Some (row, state)"
    by (auto simp: effect_stored_def)
  have "remember_tx s A now rnd auth request d =
      rbind (resolveIdempotent (row, state) (rememberRequestDigest request (av_labels view))) (\<lambda>r. Inr (r, None))"
    using assms(1,2) prev by (auto simp: remember_tx_def Let_def list_ex_iff effect_stored_def)
  then show ?thesis
    using assms(1,3) by (auto simp: Remember_def resolveIdempotent_def effect_stored_def)
qed

lemma remember_tx_stored:
  assumes "remember_tx s A now rnd auth request d = Inr (r, upd)" and "d' = (case upd of None \<Rightarrow> d | Some x \<Rightarrow> x)"
  shows "\<exists>view row. authorize now d auth OperationRemember = Inr view \<and> same_authority d d' \<and>
    effect_stored view request row d' \<and> rsp_receipt_id r = rt_receipt_id row \<and>
    rsp_consistency_token r = rt_consistency_token row"
proof (cases upd)
  case None
  with assms(1) obtain view previous where p: "authorize now d auth OperationRemember = Inr view"
    "lookupIdempotentReceipt d (av_write_space_id view) (rem_idempotency_key request) = Some previous"
    "resolveIdempotent previous (rememberRequestDigest request (av_labels view)) = Inr r"
    using remember_tx_replay by metis
  moreover have "av_write_space_id view \<noteq> []"
    "\<not> list_ex (\<lambda>t. (tb_space_id t, tb_idempotency_key t) = (av_write_space_id view, rem_idempotency_key request)) (receipt_tombstones d)"
    using assms(1) p(1) by (auto simp: remember_tx_def result_simps Let_def)
  ultimately have "effect_stored view request (fst previous) d"
    by (cases previous) (auto simp: effect_stored_def resolveIdempotent_def result_simps list_ex_iff)
  with p None assms(2) show ?thesis
    by (auto simp: same_authority_def resolveIdempotent_def result_simps)
next
  case (Some x)
  with assms have x: "remember_tx s A now rnd auth request d = Inr (r, Some d')" by simp
  then obtain view where view: "authorize now d auth OperationRemember = Inr view" "av_write_space_id view \<noteq> []"
    and ne: "new_effect view request r d d'" by (rule remember_tx_new)
  from ne obtain row where row:
    "lookupIdempotentReceipt d' (av_write_space_id view) (rem_idempotency_key request) = Some (row, ProcessingStateAccepted)"
    "rt_receipt_id row = rsp_receipt_id r" "rt_consistency_token row = rsp_consistency_token r"
    "rt_request_digest row = rememberRequestDigest request (av_labels view)"
    by (elim new_effect_lookup) blast
  have "effect_stored view request row d'" using ne row view(2) by (auto simp: effect_stored_def new_effect_def)
  with view row ne show ?thesis by (auto simp: new_effect_def)
qed

text \<open>
  Claim C7. Exactly once: whatever became of a \<open>Remember\<close> (answered, or its outcome left unknown
  after the effect was committed), a retry with the same request under the same bearer returns the
  receipt of the first call, marked as a deduplicated retry, and changes nothing, at any later time
  and with any random source and faults, as long as the bearer is still authorised.
\<close>

theorem remember_retry_idempotent:
  assumes "Remember s A now rnd env auth request d = (out, d')"
    and "out = Inr response \<or> d' \<noteq> d"
    and "authorize now' d' auth OperationRemember = Inr view'"
    and "remember_checks s' env' request = Inr ()"
  shows "\<exists>r. Remember s' A' now' rnd' env' auth request d' = (Inr r, d') \<and> rsp_deduplicated_retry r \<and>
           (\<forall>x. out = Inr x \<longrightarrow> rsp_receipt_id r = rsp_receipt_id x \<and>
                rsp_consistency_token r = rsp_consistency_token x)"
proof -
  from assms(1,2) obtain r upd where tx: "remember_tx s A now rnd auth request d = Inr (r, upd)"
    "d' = (case upd of None \<Rightarrow> d | Some x \<Rightarrow> x)" "\<forall>x. out = Inr x \<longrightarrow> x = r"
    by (elim Remember_cases) force+
  then obtain view row where st: "authorize now d auth OperationRemember = Inr view" "same_authority d d'"
    "effect_stored view request row d'" "rsp_receipt_id r = rt_receipt_id row"
    "rsp_consistency_token r = rt_consistency_token row"
    using remember_tx_stored[OF tx(1,2)] by blast
  have "authorize now' d' auth OperationRemember = Inr view"
    using assms(3) authorize_time_irrelevant st(1) authorize_frame[OF st(2)] by metis
  from remember_replays[OF st(3) this assms(4)] st tx(3) show ?thesis by metis
qed

text \<open>
  One receipt per effect identity: \<open>Remember\<close> keeps the receipts of a Space distinct in
  their idempotency keys, and adds at most one receipt.
\<close>

theorem remember_keeps_effect_identity:
  assumes "Remember s A now rnd env auth request d = (out, d')"
    and "distinct (map (\<lambda>r. (rt_space_id r, rt_idempotency_key r)) (receipts d))"
  shows "distinct (map (\<lambda>r. (rt_space_id r, rt_idempotency_key r)) (receipts d')) \<and>
         (receipts d' = receipts d \<or> (\<exists>row. receipts d' = receipts d @ [row] \<and>
            rt_text row = rem_text request \<and> rt_idempotency_key row = rem_idempotency_key request))"
proof -
  have "receipts d' = receipts d \<or> (\<exists>row. tbl_insert clash_receipt row (receipts d) = Some (receipts d') \<and>
      rt_text row = rem_text request \<and> rt_idempotency_key row = rem_idempotency_key request)"
    using assms(1) by (elim Remember_cases) (auto elim!: remember_tx_new simp: new_effect_def)
  then show ?thesis
  proof
    assume "receipts d' = receipts d"
    with assms(2) show ?thesis by simp
  next
    assume "\<exists>row. tbl_insert clash_receipt row (receipts d) = Some (receipts d') \<and>
      rt_text row = rem_text request \<and> rt_idempotency_key row = rem_idempotency_key request"
    then obtain row where row: "tbl_insert clash_receipt row (receipts d) = Some (receipts d')"
      "rt_text row = rem_text request" "rt_idempotency_key row = rem_idempotency_key request" by blast
    from effect_identity.insert_distinct[OF row(1) assms(2)] row show ?thesis
      by (auto simp: tbl_insert_Some)
  qed
qed

text \<open>
  A failed \<open>Remember\<close> has no effect: if the call returns an error and the database
  changed, the error says that the outcome is unknown.
\<close>

theorem remember_atomic:
  assumes "Remember s A now rnd env auth request d = (Inl e, d')"
  shows "d' = d \<or> IsCode e ErrorCodeUnknownOutcome"
  using assms by (elim Remember_cases) (auto simp: IsCode_def ErrorCodeOf_def remember_unknown_def serviceError_def)

text \<open>
  Claim C8. Accepted means durable and indexed: a new acceptance is backed by a stored receipt
  with the request's text in the View's write Space and label partition, a processing row in the
  accepted state, a consistency cursor that resolves the answered token to the commit sequence of
  that receipt in that Space, partition and store generation, an index row of that Space's own
  table, and, when the Space has a steward binding, a pending job for the receipt.
\<close>

theorem remember_accepts_durably:
  assumes "Remember s A now rnd env auth request d = (Inr response, d')"
    and "\<not> rsp_deduplicated_retry response"
  shows "\<exists>view row f. authorize now d auth OperationRemember = Inr view \<and>
    receipt_of (rsp_receipt_id response) d' = Some row \<and> rt_text row = rem_text request \<and>
    rt_space_id row = av_write_space_id view \<and> rt_label_set_digest row = av_label_set_digest view \<and>
    processing_of (rsp_receipt_id response) d' = Some (accepted_processing (rsp_receipt_id response)) \<and>
    f \<in> set (receipt_fts d') \<and> ft_table f = spaceIndexTable (av_write_space_id view) \<and>
    ft_receipt_id f = rsp_receipt_id response \<and> ft_text f = rem_text request \<and>
    \<lparr>cu_token = rsp_consistency_token response, cu_generation = sto_generation s, cu_space_id = av_write_space_id view,
      cu_commit_sequence = rt_commit_sequence row, cu_label_set_digest = av_label_set_digest view\<rparr> \<in> set (consistency_cursors d') \<and>
    (\<forall>b. List.find (\<lambda>b. bd_space_id b = av_write_space_id view) (space_steward_bindings d) = Some b \<longrightarrow>
      (\<exists>j\<in>set (steward_jobs d'). jb_receipt_id j = rsp_receipt_id response \<and> jb_space_id j = av_write_space_id view \<and>
        jb_state j = JobPending \<and> jb_label_set_digest j = av_label_set_digest view))"
proof -
  from assms have tx: "remember_tx s A now rnd auth request d = Inr (response, Some d')"
    by (elim Remember_cases) (auto elim!: remember_tx_replay simp: resolveIdempotent_def result_simps)
  then obtain view where view: "authorize now d auth OperationRemember = Inr view"
    and ne: "new_effect view request response d d'" by (rule remember_tx_new)
  obtain row where r: "receipt_of (rsp_receipt_id response) d' = Some row"
    and cursor: "\<lparr>cu_token = rsp_consistency_token response, cu_generation = sto_generation s,
        cu_space_id = av_write_space_id view, cu_commit_sequence = rt_commit_sequence row,
        cu_label_set_digest = av_label_set_digest view\<rparr> \<in> set (consistency_cursors d')"
    and job: "\<forall>b. List.find (\<lambda>b. bd_space_id b = av_write_space_id view) (space_steward_bindings d) = Some b \<longrightarrow>
      (\<exists>j\<in>set (steward_jobs d'). jb_receipt_id j = rsp_receipt_id response \<and> jb_space_id j = av_write_space_id view \<and>
        jb_state j = JobPending \<and> jb_label_set_digest j = av_label_set_digest view)"
    by (rule remember_tx_cursor[OF tx view])
  have "processing_of (rsp_receipt_id response) d' = Some (accepted_processing (rsp_receipt_id response))"
    using ne by (intro processing_of_new[where rows = "receipt_processing d"]) (auto simp: new_effect_def)
  moreover from ne obtain f where "f \<in> set (receipt_fts d')" "ft_table f = spaceIndexTable (av_write_space_id view)"
    "ft_receipt_id f = rsp_receipt_id response" "ft_text f = rem_text request"
    unfolding new_effect_def by force
  moreover from ne r have "rt_text row = rem_text request" "rt_space_id row = av_write_space_id view"
    "rt_label_set_digest row = av_label_set_digest view"
    by (elim new_effect_lookup, simp)+
  ultimately show ?thesis using view r cursor job by blast
qed

text \<open>
  A deleted effect is never resurrected: while a tombstone holds the idempotency key of
  the View's write Space, \<open>Remember\<close> with that key returns a conflict and stores nothing.
\<close>

theorem remember_no_resurrection:
  assumes "remember_checks s env request = Inr ()" and "authorize now d auth OperationRemember = Inr view"
    and "av_write_space_id view \<noteq> []" and "t \<in> set (receipt_tombstones d)"
    and "tb_space_id t = av_write_space_id view" and "tb_idempotency_key t = rem_idempotency_key request"
  shows "\<exists>e. Remember s A now rnd env auth request d = (Inl e, d) \<and> IsCode e ErrorCodeConflict"
proof -
  have "list_ex (\<lambda>t. (tb_space_id t, tb_idempotency_key t) = (av_write_space_id view, rem_idempotency_key request))
      (receipt_tombstones d)"
    using assms(4-6) by (auto simp: list_ex_iff)
  with assms(1-3) show ?thesis
    by (simp add: Remember_def remember_tx_def Let_def IsCode_def ErrorCodeOf_def serviceError_def)
qed

section \<open>Status isolation\<close>

text \<open>
  The status of a receipt outside the caller's View is indistinguishable from that of a
  receipt that does not exist: removing it from the database does not change the answer.
\<close>

theorem status_hides_unreadable:
  assumes "\<And>view r. authorize now d auth OperationReceiptStatus = Inr view \<Longrightarrow> receipt_of receiptID d = Some r \<Longrightarrow>
      rt_space_id r \<notin> set (av_read_space_ids view) \<or> rt_label_set_digest r \<noteq> av_label_set_digest view"
  shows "GetReceiptStatus s now auth receiptID d =
         GetReceiptStatus s now auth receiptID (d\<lparr>receipts := filter (\<lambda>r. rt_receipt_id r \<noteq> receiptID) (receipts d)\<rparr>)"
proof -
  let ?d = "d\<lparr>receipts := filter (\<lambda>r. rt_receipt_id r \<noteq> receiptID) (receipts d)\<rparr>"
  have auth: "authorize now ?d auth OperationReceiptStatus = authorize now d auth OperationReceiptStatus"
    by (rule authorize_frame) (simp add: same_authority_def)
  have none: "receipt_of receiptID ?d = None" by (simp add: receipt_of_def find_None_iff)
  have proc: "processing_of receiptID ?d = processing_of receiptID d" by (simp add: processing_of_def)
  show ?thesis
    using assms by (cases "authorize now d auth OperationReceiptStatus")
      (auto simp: GetReceiptStatus_def auth none proc split: option.splits)
qed

section \<open>A concrete run\<close>

definition demo_analyzer :: analyzer where
  "demo_analyzer = \<lparr>an_cut_search = Some (\<lambda>s. [s]), an_is_letter = (\<lambda>r. 97 \<le> r \<and> r \<le> 122),
     an_is_number = (\<lambda>r. 48 \<le> r \<and> r \<le> 57), an_is_punct = (\<lambda>r. r = 46), an_is_symbol = (\<lambda>r. False),
     an_is_han = (\<lambda>r. False), an_to_lower = id\<rparr>"

definition demo_request :: remember_request where
  "demo_request = \<lparr>rem_text = ''hi'', rem_source_context = no_source, rem_occurred_at = None,
     rem_idempotency_key = ''k''\<rparr>"

definition demo_env :: remember_env where
  "demo_env = \<lparr>en_context_done = False, en_before_commit_fault = False, en_commit = Committed,
     en_after_commit_fault = False\<rparr>"

abbreviation demo_private :: db where
  "demo_private \<equiv> demo_db SpaceClassPrivate AudiencePrivate"

lemma demo_checks: "remember_checks demo_store (demo_env\<lparr>en_commit := c\<rparr>) demo_request = Inr ()"
  by (simp add: remember_checks_def demo_env_def demo_store_def validate_remember_def demo_request_def
      maxRememberTextBytes_def maxIdempotencyBytes_def no_source_def validate_source_context_def
      validate_scalar_def maxSourceScalarBytes_def maxSourceLabels_def json_source_context_def omit_str_def
      maxSourceContextBytes_def text_eval)

lemma demo_checks0: "remember_checks demo_store demo_env demo_request = Inr ()"
  using demo_checks[of Committed] by (simp add: demo_env_def)

lemma demo_remember:
  assumes "authorize now d (demo_auth AudiencePrivate) OperationRemember = Inr (demo_view SpaceClassPrivate)"
    and "receipts d = []" "receipt_processing d = []" "receipt_tombstones d = []" "consistency_cursors d = []"
    "space_steward_bindings d = []" "space_indexes d = [(''s'', spaceIndexTable ''s'')]" "has_space ''s'' d"
  shows "\<exists>response d'. remember_tx demo_store demo_analyzer now (replicate 40 CHR ''x'') (demo_auth AudiencePrivate) demo_request d
      = Inr (response, Some d') \<and> \<not> rsp_deduplicated_retry response \<and> length (receipts d') = 1"
  using assms
  by (simp add: remember_tx_def Let_def lookupIdempotentReceipt_def randomHex_def randomToken_def read_random_def
      insert_receipt_def insert_into_def tbl_insert_def remember_row_def remember_writes_def insert_processing_def
      accepted_processing_def enqueueStewardJob_def insert_cursor_def readSpaceIndex_def
      indexReceiptProjection_def projectLexical_def demo_analyzer_def demo_view_def has_space_def)

lemma demo_remember_private:
  obtains response d' where
    "remember_tx demo_store demo_analyzer 5 (replicate 40 CHR ''x'') (demo_auth AudiencePrivate) demo_request demo_private
       = Inr (response, Some d')" "\<not> rsp_deduplicated_retry response" "length (receipts d') = 1"
  using demo_remember[OF demo_authorize[of SpaceClassPrivate AudiencePrivate OperationRemember]]
  by (fastforce simp: demo_defs has_space_def)

text \<open>The first call commits but its response is lost; the retry finds the receipt.\<close>

theorem remember_retry_idempotent_witness:
  "\<exists>e d' r. Remember demo_store demo_analyzer 5 (replicate 40 CHR ''x'') (demo_env\<lparr>en_commit := CommitErrorApplied\<rparr>)
       (demo_auth AudiencePrivate) demo_request demo_private = (Inl e, d') \<and> length (receipts d') = 1 \<and>
     Remember demo_store demo_analyzer 6 [] demo_env (demo_auth AudiencePrivate) demo_request d' = (Inr r, d')"
proof -
  obtain response d' where tx: "remember_tx demo_store demo_analyzer 5 (replicate 40 CHR ''x'') (demo_auth AudiencePrivate) demo_request demo_private
       = Inr (response, Some d')" "length (receipts d') = 1"
    by (rule demo_remember_private)
  have first: "Remember demo_store demo_analyzer 5 (replicate 40 CHR ''x'') (demo_env\<lparr>en_commit := CommitErrorApplied\<rparr>)
       (demo_auth AudiencePrivate) demo_request demo_private
     = (Inl (remember_unknown ''Remember commit outcome is unknown; retry the same effect identity''), d')"
    using tx(1) by (simp add: Remember_def demo_checks commit_tx_def) (simp add: demo_env_def)
  have "same_authority demo_private d'" using tx(1) by (elim remember_tx_new) (simp add: new_effect_def)
  then have a: "authorize 6 d' (demo_auth AudiencePrivate) OperationRemember
      = authorize 6 demo_private (demo_auth AudiencePrivate) OperationRemember"
    by (rule authorize_frame)
  have a6: "authorize 6 d' (demo_auth AudiencePrivate) OperationRemember = Inr (demo_view SpaceClassPrivate)"
    unfolding a by (simp add: authorize_def demo_defs grant_of_def view_of_def readSpaceScope_def space_of_def
      read_view_spaces_def Let_def)
  have ne: "d' \<noteq> demo_private" using tx(2) by (auto simp: demo_defs)
  have "\<exists>r. Remember demo_store demo_analyzer 6 [] demo_env (demo_auth AudiencePrivate) demo_request d' = (Inr r, d')"
    using remember_retry_idempotent[OF first disjI2[OF ne] a6 demo_checks0] by blast
  with first tx(2) show ?thesis by blast
qed

lemma demo_remember_ok:
  obtains response d' where
    "Remember demo_store demo_analyzer 5 (replicate 40 CHR ''x'') demo_env (demo_auth AudiencePrivate) demo_request demo_private
       = (Inr response, d')" "\<not> rsp_deduplicated_retry response"
proof (rule demo_remember_private)
  fix response d'
  assume tx: "remember_tx demo_store demo_analyzer 5 (replicate 40 CHR ''x'') (demo_auth AudiencePrivate) demo_request demo_private
      = Inr (response, Some d')" and new: "\<not> rsp_deduplicated_retry response"
  have "Remember demo_store demo_analyzer 5 (replicate 40 CHR ''x'') demo_env (demo_auth AudiencePrivate) demo_request demo_private
      = (Inr response, d')"
    using tx by (simp add: Remember_def demo_checks0) (simp add: demo_env_def commit_tx_def)
  then show thesis using new that by blast
qed

theorem remember_keeps_effect_identity_witness:
  "\<exists>out d'. Remember demo_store demo_analyzer 5 (replicate 40 CHR ''x'') demo_env (demo_auth AudiencePrivate) demo_request demo_private
       = (Inr out, d') \<and> distinct (map (\<lambda>r. (rt_space_id r, rt_idempotency_key r)) (receipts d'))"
proof -
  obtain out d' where r: "Remember demo_store demo_analyzer 5 (replicate 40 CHR ''x'') demo_env (demo_auth AudiencePrivate) demo_request demo_private
       = (Inr out, d')" by (rule demo_remember_ok)
  from remember_keeps_effect_identity[OF r] r show ?thesis by (simp add: demo_defs)
qed

theorem remember_atomic_witness:
  "snd (Remember demo_store demo_analyzer 5 [] demo_env (demo_auth AudienceShared) demo_request demo_private) = demo_private"
proof -
  have r: "Remember demo_store demo_analyzer 5 [] demo_env (demo_auth AudienceShared) demo_request demo_private
      = (Inl (unauthorized ''capability audience mismatch''), demo_private)"
    by (simp add: Remember_def demo_checks0 remember_tx_def)
       (simp add: authorize_def demo_defs grant_of_def Let_def)
  from remember_atomic[OF r] r show ?thesis by (simp add: IsCode_def ErrorCodeOf_def unauthorized_def serviceError_def)
qed

theorem remember_accepts_durably_witness:
  "\<exists>response d' row. Remember demo_store demo_analyzer 5 (replicate 40 CHR ''x'') demo_env (demo_auth AudiencePrivate) demo_request demo_private
       = (Inr response, d') \<and> receipt_of (rsp_receipt_id response) d' = Some row \<and> rt_text row = ''hi''"
proof -
  obtain response d' where r: "Remember demo_store demo_analyzer 5 (replicate 40 CHR ''x'') demo_env (demo_auth AudiencePrivate) demo_request demo_private
       = (Inr response, d')" "\<not> rsp_deduplicated_retry response" by (rule demo_remember_ok)
  from remember_accepts_durably[OF r] r(1) show ?thesis by (auto simp: demo_request_def)
qed

definition demo_tombstone :: tombstone_row where
  "demo_tombstone = \<lparr>tb_tombstone_id = ''ts'', tb_receipt_id = ''r0'', tb_space_id = ''s'', tb_idempotency_key = ''k'',
     tb_request_digest = [], tb_deleted_at = 1, tb_reason = ''x''\<rparr>"

theorem remember_no_resurrection_witness:
  "\<exists>e. Remember demo_store demo_analyzer 5 [] demo_env (demo_auth AudiencePrivate) demo_request
     (demo_private\<lparr>receipt_tombstones := [demo_tombstone]\<rparr>) = (Inl e, demo_private\<lparr>receipt_tombstones := [demo_tombstone]\<rparr>)"
proof -
  let ?d = "demo_private\<lparr>receipt_tombstones := [demo_tombstone]\<rparr>"
  have "authorize 5 ?d (demo_auth AudiencePrivate) OperationRemember
      = authorize 5 demo_private (demo_auth AudiencePrivate) OperationRemember"
    by (rule authorize_frame) (simp add: same_authority_def)
  then have "authorize 5 ?d (demo_auth AudiencePrivate) OperationRemember = Inr (demo_view SpaceClassPrivate)"
    by (simp add: demo_authorize)
  from remember_no_resurrection[OF demo_checks0 this, of demo_tombstone demo_analyzer "[]"] show ?thesis
    by (simp add: demo_view_def demo_tombstone_def demo_request_def) blast
qed

theorem status_hides_unreadable_witness:
  "GetReceiptStatus demo_store 5 (demo_auth AudiencePrivate) ''r0'' demo_private =
   GetReceiptStatus demo_store 5 (demo_auth AudiencePrivate) ''r0''
     (demo_private\<lparr>receipts := filter (\<lambda>r. rt_receipt_id r \<noteq> ''r0'') (receipts demo_private)\<rparr>)"
  by (rule status_hides_unreadable) (simp add: receipt_of_def demo_defs)

end
