(* ===== verification/Recall.thy ===== *)
theory Recall
  imports Data_Plane
begin

text \<open>
  \<open>Recall\<close> of \<open>dataplane.go\<close> with the semantic candidates and the merge of
  \<open>semantic_recall.go\<close>: per authorised Space the lexical index is queried, the two candidate
  streams are ranked, merged by normalised text and cut to the caller's budget. The lemmas show that
  a response stays inside its budget, that the cut text is the longest prefix that fits, and that
  every evidence reference of a fragment is an uncorrected receipt of an authorised Space in the
  caller's label partition, whatever the index returns.

  SQLite's full-text engine is not under \<open>src/\<close>: \<open>fts\<close> gives, for the rows of an index table and a
  query, the matching rows with their \<open>bm25\<close> rank. The k-th test of the call's context is
  \<open>expired k\<close>.
\<close>

record fts =
  fts_receipts :: "receipt_fts_row list \<Rightarrow> string \<Rightarrow> (receipt_fts_row \<times> rat) list"
  fts_semantic :: "semantic_fts_row list \<Rightarrow> string \<Rightarrow> (semantic_fts_row \<times> rat) list"

record recall_candidate =
  cd_fragment_id :: string
  cd_text :: string
  cd_evidence_refs :: "string list"
  cd_record_refs :: "string list"
  cd_record_revision :: nat
  cd_class :: space_class
  cd_rank :: rat
  cd_commit_sequence :: nat
  cd_observed_at :: instant
  cd_semantic :: bool

section \<open>Fitting text into the budget\<close>

definition projectedRecallSize :: "string list \<Rightarrow> string \<Rightarrow> int" where
  "projectedRecallSize existing nxt =
    int (length (json_encode (JObj [(''fragments'',
      JArr (map JStr (existing @ (if nxt = [] then [] else [nxt]))))])))"

function fit_search :: "string list \<Rightarrow> nat list \<Rightarrow> int \<Rightarrow> int \<Rightarrow> int \<Rightarrow> string \<Rightarrow> string" where
  "fit_search existing runes maxBytes low high best =
    (if low \<le> high then
       (let middle = low + (high - low) div 2;
            candidate = string_of_runes (take (nat middle) runes) in
        if projectedRecallSize existing candidate \<le> maxBytes
        then fit_search existing runes maxBytes (middle + 1) high candidate
        else fit_search existing runes maxBytes low (middle - 1) best)
     else best)"
  by pat_completeness auto
termination
  by (relation "measure (\<lambda>(existing, runes, maxBytes, low, high, best). nat (high + 1 - low))") auto

declare fit_search.simps [simp del]

text \<open>The result is the text, whether it was cut, and whether it fits at all.\<close>

definition fitProjectedText :: "string list \<Rightarrow> string \<Rightarrow> int \<Rightarrow> string \<times> bool \<times> bool" where
  "fitProjectedText existing value maxBytes =
    (if projectedRecallSize existing value \<le> maxBytes then (value, False, True)
     else let runes = runes_of value;
              best = fit_search existing runes maxBytes 0 (int (length runes)) [] in
          if best = [] then ([], True, False) else (best, True, True))"

section \<open>Candidates\<close>

definition is_corrected :: "db \<Rightarrow> string \<Rightarrow> bool" where
  "is_corrected d receiptID \<longleftrightarrow> list_ex (\<lambda>c. co_original_receipt_id c = receiptID) (receipt_corrections d)"

text \<open>\<open>ORDER BY bm25, commit_sequence DESC, receipt_id LIMIT 512\<close> as stable sorts.\<close>

definition receipt_matches ::
  "fts \<Rightarrow> db \<Rightarrow> string \<Rightarrow> string \<Rightarrow> string \<Rightarrow> string \<Rightarrow> (receipt_row \<times> rat) list" where
  "receipt_matches F d tableName spaceID labelSetDigest ftsQuery =
    take 512 (sort_key snd (sort_key (\<lambda>x. - int (rt_commit_sequence (fst x))) (sort_key (\<lambda>x. rt_receipt_id (fst x))
      (concat (map (\<lambda>(f, bm25). map (\<lambda>r. (r, bm25))
         (filter (\<lambda>r. rt_receipt_id r = ft_receipt_id f \<and> rt_space_id r = spaceID \<and>
            rt_label_set_digest r = labelSetDigest \<and> \<not> is_corrected d (rt_receipt_id r)) (receipts d)))
        (fts_receipts F (filter (\<lambda>f. ft_table f = tableName) (receipt_fts d)) ftsQuery))))))"

definition receipt_candidate ::
  "analyzer \<Rightarrow> string \<Rightarrow> string list \<Rightarrow> space_class \<Rightarrow> receipt_row \<times> rat \<Rightarrow> recall_candidate option" where
  "receipt_candidate A query privateTerms class m =
    (case m of (r, bm25) \<Rightarrow>
     map_option (\<lambda>rank. \<lparr>cd_fragment_id = ''fragment:'' @ rt_receipt_id r, cd_text = rt_text r,
       cd_evidence_refs = [rt_receipt_id r], cd_record_refs = [], cd_record_revision = 0, cd_class = class,
       cd_rank = rank, cd_commit_sequence = rt_commit_sequence r, cd_observed_at = rt_received_at r,
       cd_semantic = False\<rparr>) (lexicalRank A query (rt_text r) privateTerms bm25))"

definition outstanding_job :: "string \<Rightarrow> string \<Rightarrow> job_row \<Rightarrow> bool" where
  "outstanding_job spaceID labelSetDigest j \<longleftrightarrow>
     jb_space_id j = spaceID \<and> jb_label_set_digest j = labelSetDigest \<and>
     (open_job j \<or> jb_state j = JobFailed \<and>
        jb_terminal_error_code j \<notin> {''steward_disabled'', ''receipt_corrected'', ''receipt_deleted''})"

definition projection_incomplete :: "db \<Rightarrow> string \<Rightarrow> string \<Rightarrow> string \<Rightarrow> bool" where
  "projection_incomplete d tableName spaceID labelSetDigest =
    (let active = (\<lambda>r. sm_space_id r = spaceID \<and> sm_label_set_digest r = labelSetDigest \<and> sm_status r = RecordStatusActive);
         expected = length (filter active (semantic_records d));
         joined = concat (map (\<lambda>f. map (\<lambda>r. (f, r)) (filter (\<lambda>r. sm_record_id r = sf_record_id f \<and>
            sm_space_id r = spaceID \<and> sm_label_set_digest r = labelSetDigest) (semantic_records d)))
           (filter (\<lambda>f. sf_table f = tableName) (semantic_fts d)));
         projected = length joined;
         usable = length (filter (\<lambda>(f, r). sm_status r = RecordStatusActive \<and> sm_current_revision r = sf_revision f) joined)
     in expected \<noteq> projected \<or> expected \<noteq> usable)"

definition semantic_matches ::
  "fts \<Rightarrow> db \<Rightarrow> string \<Rightarrow> string \<Rightarrow> string \<Rightarrow> string \<Rightarrow> (semantic_row \<times> revision_row \<times> rat) list" where
  "semantic_matches F d tableName spaceID labelSetDigest ftsQuery =
    take 512 (sort_key (\<lambda>x. snd (snd x)) (rev (sort_key (\<lambda>x. formatTime (sm_updated_at (fst x))) (rev
      (sort_key (\<lambda>x. sm_record_id (fst x))
      (concat (map (\<lambda>(f, bm25). concat (map (\<lambda>r.
          map (\<lambda>v. (r, v, bm25)) (filter (\<lambda>v. rv_record_id v = sm_record_id r \<and> rv_revision v = sm_current_revision r)
            (semantic_revisions d)))
          (filter (\<lambda>r. sm_record_id r = sf_record_id f \<and> sm_space_id r = spaceID \<and>
             sm_label_set_digest r = labelSetDigest \<and> sm_status r = RecordStatusActive \<and>
             sm_current_revision r = sf_revision f) (semantic_records d))))
        (fts_semantic F (filter (\<lambda>f. sf_table f = tableName) (semantic_fts d)) ftsQuery))))))))"

definition semantic_candidate ::
  "analyzer \<Rightarrow> string \<Rightarrow> string list \<Rightarrow> space_class \<Rightarrow> semantic_row \<times> revision_row \<times> rat \<Rightarrow> recall_candidate option" where
  "semantic_candidate A query privateTerms class m =
    (case m of (r, v, bm25) \<Rightarrow>
     map_option (\<lambda>rank. \<lparr>cd_fragment_id = ''fragment:record:'' @ sm_record_id r @ '':'' @ dec_digits (sm_current_revision r),
       cd_text = rv_text v, cd_evidence_refs = [], cd_record_refs = [sm_record_id r],
       cd_record_revision = sm_current_revision r, cd_class = class, cd_rank = rank, cd_commit_sequence = 0,
       cd_observed_at = sm_updated_at r, cd_semantic = True\<rparr>) (lexicalRank A query (rv_text v) privateTerms bm25))"

definition readSemanticEvidenceIDs :: "db \<Rightarrow> string \<Rightarrow> nat \<Rightarrow> string list" where
  "readSemanticEvidenceIDs d recordID revision =
    map ev_receipt_id (sort_key ev_ordinal
      (filter (\<lambda>e. ev_record_id e = recordID \<and> ev_revision e = revision) (semantic_evidence d)))"

definition readRecallSemanticEvidence ::
  "db \<Rightarrow> string \<Rightarrow> nat \<Rightarrow> string \<Rightarrow> string \<Rightarrow> string list \<times> bool" where
  "readRecallSemanticEvidence d recordID revision spaceID labelSetDigest =
    (let evidence = readSemanticEvidenceIDs d recordID revision in
     (evidence, evidence \<noteq> [] \<and> list_all (\<lambda>e.
        (case receipt_of e d of None \<Rightarrow> False
         | Some r \<Rightarrow> rt_space_id r = spaceID \<and> rt_label_set_digest r = labelSetDigest) \<and>
        \<not> is_corrected d e) evidence))"

text \<open>Attach the evidence of each candidate; a candidate with unusable evidence is dropped and the
  answer degraded.\<close>

definition with_evidence :: "db \<Rightarrow> string \<Rightarrow> string \<Rightarrow> recall_candidate \<Rightarrow> recall_candidate option" where
  "with_evidence d spaceID labelSetDigest c =
    (case readRecallSemanticEvidence d (hd (cd_record_refs c)) (cd_record_revision c) spaceID labelSetDigest of
       (evidence, valid) \<Rightarrow> if valid then Some (c\<lparr>cd_evidence_refs := evidence\<rparr>) else None)"

text \<open>A semantic-only fault gives no candidates and a degraded answer; only an expired context is an
  error (\<open>None\<close>). The context is tested on entry and after the projection counts.\<close>

definition semanticRecallCandidates ::
  "analyzer \<Rightarrow> fts \<Rightarrow> (nat \<Rightarrow> bool) \<Rightarrow> nat \<Rightarrow> db \<Rightarrow> string \<Rightarrow> string \<Rightarrow> space_class \<Rightarrow> string \<Rightarrow> string \<Rightarrow> string list \<Rightarrow>
   (recall_candidate list \<times> bool) option" where
  "semanticRecallCandidates A F expired tick d spaceID labelSetDigest class query ftsQuery privateTerms =
    (if expired tick then None else
     let degraded = list_ex (outstanding_job spaceID labelSetDigest) (steward_jobs d) in
     case readSemanticSpaceIndex d spaceID of
       None \<Rightarrow> if expired (Suc tick) then None else Some ([], True)
     | Some tableName \<Rightarrow>
        if expired (Suc tick) then None else
        let degraded = (degraded \<or> projection_incomplete d tableName spaceID labelSetDigest);
            found = map (semantic_candidate A query privateTerms class)
              (semantic_matches F d tableName spaceID labelSetDigest ftsQuery) in
        if None \<in> set found then Some ([], True)
        else let checked = map (with_evidence d spaceID labelSetDigest) (map the found) in
             Some (map the (filter (\<lambda>c. c \<noteq> None) checked), degraded \<or> None \<in> set checked))"

definition recall_space ::
  "analyzer \<Rightarrow> fts \<Rightarrow> (nat \<Rightarrow> bool) \<Rightarrow> db \<Rightarrow> string \<Rightarrow> string \<Rightarrow> string \<Rightarrow>
   nat \<times> recall_candidate list \<times> bool \<Rightarrow> error + (nat \<times> recall_candidate list \<times> bool)" where
  "recall_space A F expired d labelSetDigest query spaceID state =
    (case state of (tick, candidates, degraded) \<Rightarrow>
     rbind (guard (\<not> expired tick) (serviceError ErrorCodeDeadline ''request deadline exceeded'' True)) (\<lambda>_.
     rbind (of_opt (serviceError ErrorCodeInternal ''lexical analyzer is unavailable'' True)
       (lexicalFTSQuery A query [])) (\<lambda>ftsQuery.
     if ftsQuery = [] then Inr (Suc tick, candidates, degraded) else
     rbind (of_opt (databaseError ''resolve Space index'') (readSpaceIndex d spaceID)) (\<lambda>tableName.
     rbind (of_opt (databaseError ''read Space class'') (readSpaceScope d spaceID)) (\<lambda>(class, _).
     (let found = map (receipt_candidate A query [] class)
           (receipt_matches F d tableName spaceID labelSetDigest ftsQuery) in
      rbind (guard (None \<notin> set found)
        (serviceError ErrorCodeInternal ''lexical analyzer is unavailable'' True)) (\<lambda>_.
      rbind (of_opt (serviceError ErrorCodeDeadline ''request deadline exceeded'' True)
        (semanticRecallCandidates A F expired (Suc tick) d spaceID labelSetDigest class query ftsQuery [])) (\<lambda>(semantic, semanticDegraded).
      Inr (tick + 3, candidates @ map the found @ semantic, degraded \<or> semanticDegraded)))))))))"

section \<open>Ranking and merging\<close>

text \<open>The comparator of \<open>sort.Slice\<close>: rank, newest commit, newest observation, receipts before
  records, fragment identity.\<close>

definition sort_candidates :: "recall_candidate list \<Rightarrow> recall_candidate list" where
  "sort_candidates cs =
    sort_key cd_rank (sort_key (\<lambda>c. - int (cd_commit_sequence c)) (sort_key (\<lambda>c. - cd_observed_at c)
      (sort_key cd_semantic (sort_key cd_fragment_id cs))))"

definition normalizedRecallText :: "analyzer \<Rightarrow> string \<Rightarrow> string" where
  "normalizedRecallText A value = to_lower A (join_with '' '' (string_fields value))"

fun appendUnique :: "string list \<Rightarrow> string list \<Rightarrow> string list" where
  "appendUnique existing [] = existing"
| "appendUnique existing (v # vs) =
    appendUnique (if v \<noteq> [] \<and> v \<notin> set existing then existing @ [v] else existing) vs"

definition recallCandidatesShareEvidence :: "recall_candidate \<Rightarrow> recall_candidate \<Rightarrow> bool" where
  "recallCandidatesShareEvidence a b \<longleftrightarrow> list_ex (\<lambda>e. e \<in> set (cd_evidence_refs b)) (cd_evidence_refs a)"

definition merge_target :: "analyzer \<Rightarrow> recall_candidate \<Rightarrow> recall_candidate \<Rightarrow> bool" where
  "merge_target A c m \<longleftrightarrow>
     normalizedRecallText A (cd_text m) = normalizedRecallText A (cd_text c) \<and>
     (cd_semantic c \<and> cd_semantic m \<or>
      cd_semantic c \<noteq> cd_semantic m \<and> recallCandidatesShareEvidence c m)"

definition absorb :: "recall_candidate \<Rightarrow> recall_candidate \<Rightarrow> recall_candidate" where
  "absorb c m =
    (let m1 = m\<lparr>cd_evidence_refs := appendUnique (cd_evidence_refs m) (cd_evidence_refs c),
                cd_record_refs := appendUnique (cd_record_refs m) (cd_record_refs c),
                cd_class := (if cd_class m = SpaceClassShared \<and> cd_class c = SpaceClassPrivate
                             then SpaceClassPrivate else cd_class m)\<rparr> in
     if cd_semantic m \<and> \<not> cd_semantic c
     then m1\<lparr>cd_fragment_id := cd_fragment_id c, cd_text := cd_text c, cd_semantic := False\<rparr>
     else m1)"

fun merge_one :: "analyzer \<Rightarrow> recall_candidate \<Rightarrow> recall_candidate list \<Rightarrow> recall_candidate list" where
  "merge_one A c [] =
    [c\<lparr>cd_evidence_refs := appendUnique [] (cd_evidence_refs c), cd_record_refs := appendUnique [] (cd_record_refs c)\<rparr>]"
| "merge_one A c (m # ms) = (if merge_target A c m then absorb c m # ms else m # merge_one A c ms)"

definition mergeRecallCandidates :: "analyzer \<Rightarrow> recall_candidate list \<Rightarrow> recall_candidate list" where
  "mergeRecallCandidates A cs =
    map (\<lambda>c. c\<lparr>cd_evidence_refs := sort (cd_evidence_refs c), cd_record_refs := sort (cd_record_refs c)\<rparr>)
      (fold (merge_one A) cs [])"

section \<open>The call\<close>

fun recall_fragments ::
  "(nat \<Rightarrow> bool) \<Rightarrow> nat \<Rightarrow> int \<Rightarrow> int \<Rightarrow> recall_candidate list \<Rightarrow> recall_fragment list \<Rightarrow> bool \<Rightarrow>
   error + (recall_fragment list \<times> bool)" where
  "recall_fragments expired tick maxFragments maxBytes [] fragments truncated = Inr (fragments, truncated)"
| "recall_fragments expired tick maxFragments maxBytes (c # rest) fragments truncated =
    (if expired tick then Inl (serviceError ErrorCodeDeadline ''request deadline exceeded'' True)
     else if int (length fragments) = maxFragments then Inr (fragments, True)
     else case fitProjectedText (map frag_text fragments) (cd_text c) maxBytes of (text, wasCut, fits) \<Rightarrow>
       if \<not> fits then Inr (fragments, True)
       else let fragments' = fragments @ [\<lparr>frag_id = cd_fragment_id c, frag_text = text,
                  frag_evidence_refs = cd_evidence_refs c, frag_record_refs = cd_record_refs c,
                  frag_space_class = cd_class c\<rparr>];
                truncated' = (truncated \<or> wasCut \<or> rest \<noteq> [] \<and> int (length fragments') = maxFragments) in
            if wasCut then Inr (fragments', truncated')
            else recall_fragments expired (Suc tick) maxFragments maxBytes rest fragments' truncated')"

definition check_consistency_token ::
  "store \<Rightarrow> db \<Rightarrow> authorized_view \<Rightarrow> string \<Rightarrow> error + unit" where
  "check_consistency_token s d view token =
    (if token = [] then Inr () else
     case List.find (\<lambda>c. cu_token c = token) (consistency_cursors d) of
       None \<Rightarrow> Inl (serviceError ErrorCodeStaleConsistencyToken ''consistency token is stale or unknown'' False)
     | Some c \<Rightarrow>
        rbind (guard (cu_generation c = sto_generation s)
          (serviceError ErrorCodeStaleConsistencyToken ''consistency token is stale or unknown'' False)) (\<lambda>_.
        guard (cu_space_id c \<in> set (av_read_space_ids view) \<and> cu_label_set_digest c = av_label_set_digest view)
          (unauthorized ''consistency token partition is not readable'')))"

definition Recall ::
  "store \<Rightarrow> analyzer \<Rightarrow> fts \<Rightarrow> instant \<Rightarrow> (nat \<Rightarrow> bool) \<Rightarrow> call_authorization \<Rightarrow> recall_request \<Rightarrow> db \<Rightarrow>
   error + recall_response" where
  "Recall s A F now expired auth request d =
    rbind (guard (\<not> expired 0) (serviceError ErrorCodeDeadline ''request deadline exceeded'' False)) (\<lambda>_.
    rbind (guard (\<not> sto_closing s) (serviceError ErrorCodeUnavailable ''memoryd is shutting down'' True)) (\<lambda>_.
    rbind (guard (\<not> sto_restore_pending s)
      (serviceError ErrorCodeUnavailable ''restored generation awaits operator commit'' False)) (\<lambda>_.
    rbind (map_err (\<lambda>m. serviceError ErrorCodeInvalidArgument m False) (validate_recall request)) (\<lambda>_.
    rbind (authorize now d auth OperationRecall) (\<lambda>view.
    rbind (check_consistency_token s d view (rec_min_consistency_token request)) (\<lambda>_.
    rbind (fold_res (recall_space A F expired d (av_label_set_digest view) (rec_query request))
      (av_read_space_ids view) (1, [], False)) (\<lambda>(tick, candidates, degraded).
    rbind (recall_fragments expired tick (bud_max_fragments (rec_budget request)) (bud_max_bytes (rec_budget request))
      (mergeRecallCandidates A (sort_candidates candidates)) [] False) (\<lambda>(fragments, truncated).
    Inr \<lparr>rcl_fragments = fragments, rcl_consistency_token = rec_min_consistency_token request,
      rcl_degraded = degraded, rcl_truncated = truncated\<rparr>))))))))"

section \<open>The longest prefix that fits\<close>

lemma length_join_snoc:
  "length (join_with sep (xs @ [a])) = length (join_with sep xs) + (if xs = [] then 0 else length sep) + length a"
  by (induction sep xs rule: join_with.induct) auto

lemma projected_append:
  "nxt \<noteq> [] \<Longrightarrow> projectedRecallSize existing nxt = projectedRecallSize (existing @ [nxt]) []"
  by (simp add: projectedRecallSize_def)

lemma projected_snoc:
  "projectedRecallSize (existing @ [nxt]) [] =
     projectedRecallSize existing [] + (if existing = [] then 0 else 1) + int (length (json_string nxt))"
  by (simp add: projectedRecallSize_def length_join_snoc)

lemma json_string_runes:
  assumes "list_all valid_rune rs"
  shows "json_string (string_of_runes rs) =
    CHR 0x22 # concat (map (\<lambda>r. json_escape_rune r (encode_rune r)) rs) @ [CHR 0x22]"
  using range_string_of_runes[OF assms] by (simp add: json_string_def o_def)

lemma string_of_runes_Nil_iff: "string_of_runes rs = [] \<longleftrightarrow> rs = []"
  by (cases rs) (simp_all add: string_of_runes_def)

lemma projected_prefix_mono:
  assumes "list_all valid_rune rs" and "i \<le> j"
  shows "projectedRecallSize existing (string_of_runes (take i rs))
       \<le> projectedRecallSize existing (string_of_runes (take j rs))"
proof -
  have valid: "list_all valid_rune (take k rs)" for k
    using assms(1) by (auto simp: list_all_iff dest: in_set_takeD)
  have sub: "length (concat (map f (take i rs))) \<le> length (concat (map f (take j rs)))" for f :: "nat \<Rightarrow> string"
  proof -
    have "take j rs = take i rs @ drop i (take j rs)"
      using assms(2) by (metis append_take_drop_id min.absorb1 take_take)
    then show ?thesis by (metis concat_append length_append map_append le_add1)
  qed
  have size: "projectedRecallSize existing (string_of_runes xs) =
      projectedRecallSize existing [] + (if xs = [] then 0 else (if existing = [] then 0 else 1) +
        int (length (json_string (string_of_runes xs))))" for xs
    by (cases "xs = []") (simp_all add: string_of_runes_Nil_iff projected_append projected_snoc string_of_runes_def[of "[]"])
  show ?thesis
    using sub[of "\<lambda>r. json_escape_rune r (encode_rune r)"] assms(2)
    by (auto simp: size json_string_runes[OF valid])
qed

definition prefix_fits :: "string list \<Rightarrow> nat list \<Rightarrow> int \<Rightarrow> nat \<Rightarrow> bool" where
  "prefix_fits existing runes maxBytes k \<longleftrightarrow>
     projectedRecallSize existing (string_of_runes (take k runes)) \<le> maxBytes"

lemma fit_search_correct:
  assumes "list_all valid_rune rs"
    and "0 \<le> low" "low \<le> high + 1" "high \<le> int (length rs)"
    and "\<And>k. int k < low \<Longrightarrow> prefix_fits existing rs maxBytes k"
    and "\<And>k. high < int k \<Longrightarrow> k \<le> length rs \<Longrightarrow> \<not> prefix_fits existing rs maxBytes k"
    and "best = (if low = 0 then [] else string_of_runes (take (nat (low - 1)) rs))"
  shows "\<exists>n. fit_search existing rs maxBytes low high best = (if n = 0 then [] else string_of_runes (take (n - 1) rs)) \<and>
     n \<le> length rs + 1 \<and> (\<forall>k\<le>length rs. prefix_fits existing rs maxBytes k \<longleftrightarrow> k < n)"
  using assms
proof (induction existing rs maxBytes low high best rule: fit_search.induct)
  case (1 existing rs maxBytes low high best)
  note prems = "1.prems"
  show ?case
  proof (cases "low \<le> high")
    case False
    then have high: "high = low - 1" using prems(3) by simp
    have iff: "prefix_fits existing rs maxBytes k \<longleftrightarrow> k < nat low" if "k \<le> length rs" for k
    proof (cases "int k < low")
      case True
      then show ?thesis using prems(5)[of k] by simp
    next
      case False
      then show ?thesis using prems(6)[of k] that high by auto
    qed
    have "fit_search existing rs maxBytes low high best = (if nat low = 0 then [] else string_of_runes (take (nat low - 1) rs))"
      using False prems(2,7) by (subst fit_search.simps) (simp add: nat_diff_distrib)
    moreover have "nat low \<le> length rs + 1" using high prems(4) by linarith
    ultimately show ?thesis using iff by blast
  next
    case True
    define m where "m = low + (high - low) div 2"
    have m: "low \<le> m" "m \<le> high" "0 \<le> m" using True prems(2) by (auto simp: m_def)
    have mono: "prefix_fits existing rs maxBytes i" if "prefix_fits existing rs maxBytes j" "i \<le> j" for i j
      using projected_prefix_mono[OF prems(1) that(2)] that(1) unfolding prefix_fits_def by (meson order_trans)
    show ?thesis
    proof (cases "prefix_fits existing rs maxBytes (nat m)")
      case fits: True
      have step: "fit_search existing rs maxBytes low high best =
          fit_search existing rs maxBytes (m + 1) high (string_of_runes (take (nat m) rs))"
        using True fits by (subst fit_search.simps) (simp add: Let_def m_def prefix_fits_def)
      show ?thesis
        unfolding step using True fits m prems mono
        by (intro "1.IH"(1)[OF True m_def refl]) (auto simp: prefix_fits_def Let_def m_def[symmetric])
    next
      case fits: False
      have step: "fit_search existing rs maxBytes low high best = fit_search existing rs maxBytes low (m - 1) best"
        using True fits by (subst fit_search.simps) (simp add: Let_def m_def prefix_fits_def)
      show ?thesis
        unfolding step using True fits m prems mono
        by (intro "1.IH"(2)[OF True m_def refl]) (auto simp: prefix_fits_def Let_def m_def[symmetric])
    qed
  qed
qed

text \<open>
  Claim C11. The binary search cuts a fragment to the longest prefix that fits: an uncut text fits
  as it is; a cut text is the longest rune prefix whose encoded response stays within the budget;
  and only when not even the first rune fits is the fragment refused.
\<close>

theorem fit_longest_prefix:
  assumes "fitProjectedText existing value maxBytes = (text, wasCut, fits)"
  shows "if \<not> wasCut then fits \<and> text = value \<and> projectedRecallSize existing value \<le> maxBytes
    else if fits then (\<exists>k. 0 < k \<and> k \<le> length (runes_of value) \<and> text = string_of_runes (take k (runes_of value)) \<and>
        (\<forall>j\<le>length (runes_of value). prefix_fits existing (runes_of value) maxBytes j \<longleftrightarrow> j \<le> k))
    else (\<forall>j\<le>length (runes_of value). 0 < j \<longrightarrow> \<not> prefix_fits existing (runes_of value) maxBytes j)"
proof (cases "projectedRecallSize existing value \<le> maxBytes")
  case True
  then show ?thesis using assms by (auto simp: fitProjectedText_def)
next
  case False
  let ?rs = "runes_of value"
  obtain n where n: "fit_search existing ?rs maxBytes 0 (int (length ?rs)) [] =
      (if n = 0 then [] else string_of_runes (take (n - 1) ?rs))" "n \<le> length ?rs + 1"
      "\<forall>k\<le>length ?rs. prefix_fits existing ?rs maxBytes k \<longleftrightarrow> k < n"
    using fit_search_correct[OF runes_of_valid, of 0 "int (length ?rs)" "value" existing maxBytes "[]"] by auto
  have cutting: "wasCut" and fits: "fits \<longleftrightarrow> 2 \<le> n"
    and result: "fits \<Longrightarrow> text = string_of_runes (take (n - 1) ?rs)"
    using assms False n(1,2)
    by (cases "n = 1"; auto simp: fitProjectedText_def Let_def string_of_runes_Nil_iff split: if_splits)+
  show ?thesis
  proof (cases fits)
    case True
    with fits n(2,3) result cutting show ?thesis
      by (auto intro!: exI[of _ "n - 1"])
  next
    case nofit: False
    with fits n(3) cutting show ?thesis by auto
  qed
qed

section \<open>What a candidate carries\<close>

text \<open>A property of texts and one of evidence references, kept by ranking, merging and cutting.\<close>

definition candidate_ok :: "(string \<Rightarrow> bool) \<Rightarrow> (string \<Rightarrow> bool) \<Rightarrow> recall_candidate \<Rightarrow> bool" where
  "candidate_ok P Q c \<longleftrightarrow> P (cd_text c) \<and> (\<forall>e\<in>set (cd_evidence_refs c). Q e)"

lemma set_appendUnique: "set (appendUnique existing vs) \<subseteq> set existing \<union> set vs"
  by (induction existing vs rule: appendUnique.induct) (auto split: if_splits)

lemma appendUnique_all:
  assumes "\<forall>e\<in>set existing. Q e" and "\<forall>e\<in>set vs. Q e"
  shows "\<forall>e\<in>set (appendUnique existing vs). Q e"
  using assms set_appendUnique by fastforce

lemma absorb_ok: "candidate_ok P Q c \<Longrightarrow> candidate_ok P Q m \<Longrightarrow> candidate_ok P Q (absorb c m)"
  using appendUnique_all[of "cd_evidence_refs m" Q "cd_evidence_refs c"]
  by (simp add: candidate_ok_def absorb_def Let_def)

lemma merge_one_ok:
  assumes "candidate_ok P Q c" and "\<forall>m\<in>set ms. candidate_ok P Q m"
  shows "\<forall>m\<in>set (merge_one A c ms). candidate_ok P Q m"
  using assms
proof (induction ms)
  case Nil
  have "\<forall>e\<in>set (appendUnique [] (cd_evidence_refs c)). Q e"
    by (rule appendUnique_all) (use Nil in \<open>simp_all add: candidate_ok_def\<close>)
  then show ?case using Nil(1) unfolding merge_one.simps candidate_ok_def by simp
next
  case (Cons m ms)
  from Cons.IH Cons.prems absorb_ok[OF Cons.prems(1), of m] show ?case by (cases "merge_target A c m") simp_all
qed

lemma fold_merge_ok:
  assumes "\<forall>c\<in>set cs. candidate_ok P Q c" and "\<forall>m\<in>set ms. candidate_ok P Q m"
  shows "\<forall>m\<in>set (fold (merge_one A) cs ms). candidate_ok P Q m"
  using assms
proof (induction cs arbitrary: ms)
  case (Cons c cs)
  have "\<forall>m\<in>set (merge_one A c ms). candidate_ok P Q m" by (rule merge_one_ok) (use Cons.prems in auto)
  then show ?case using Cons.IH[of "merge_one A c ms"] Cons.prems(1) by simp
qed simp

lemma merged_ok:
  assumes "\<forall>c\<in>set cs. candidate_ok P Q c"
  shows "\<forall>c\<in>set (mergeRecallCandidates A (sort_candidates cs)). candidate_ok P Q c"
proof -
  have "\<forall>c\<in>set (fold (merge_one A) (sort_candidates cs) []). candidate_ok P Q c"
    by (rule fold_merge_ok) (use assms in \<open>simp_all add: sort_candidates_def\<close>)
  then show ?thesis by (simp add: mergeRecallCandidates_def candidate_ok_def)
qed

definition receipt_visible :: "db \<Rightarrow> string \<Rightarrow> string \<Rightarrow> string \<Rightarrow> bool" where
  "receipt_visible d spaceID labelSetDigest e \<longleftrightarrow>
     (\<exists>r\<in>set (receipts d). rt_receipt_id r = e \<and> rt_space_id r = spaceID \<and> rt_label_set_digest r = labelSetDigest) \<and>
     \<not> is_corrected d e"

definition texts_stored :: "(string \<Rightarrow> bool) \<Rightarrow> db \<Rightarrow> bool" where
  "texts_stored P d \<longleftrightarrow> (\<forall>r\<in>set (receipts d). P (rt_text r)) \<and>
     (\<forall>r\<in>set (semantic_records d). \<forall>v\<in>set (semantic_revisions d).
        sm_status r = RecordStatusActive \<and> rv_record_id v = sm_record_id r \<and> rv_revision v = sm_current_revision r \<longrightarrow>
        P (rv_text v))"

lemma receipt_matches_sound:
  assumes "(r, b) \<in> set (receipt_matches F d t spaceID digest q)"
  shows "r \<in> set (receipts d) \<and> receipt_visible d spaceID digest (rt_receipt_id r)"
  using assms unfolding receipt_matches_def receipt_visible_def by (fastforce dest!: in_set_takeD)

lemma semantic_matches_sound:
  assumes "(r, v, b) \<in> set (semantic_matches F d t spaceID digest q)"
  shows "r \<in> set (semantic_records d) \<and> v \<in> set (semantic_revisions d) \<and> sm_status r = RecordStatusActive \<and>
    rv_record_id v = sm_record_id r \<and> rv_revision v = sm_current_revision r"
  using assms unfolding semantic_matches_def by (fastforce dest!: in_set_takeD)

lemma receipt_candidates_ok:
  assumes "texts_stored P d" and "m \<in> set (receipt_matches F d t spaceID digest q)"
    and "receipt_candidate A query terms class m = Some c"
  shows "candidate_ok P (receipt_visible d spaceID digest) c"
proof (cases m)
  case (Pair r b)
  with assms(2) have "r \<in> set (receipts d) \<and> receipt_visible d spaceID digest (rt_receipt_id r)"
    using receipt_matches_sound by blast
  then show ?thesis using assms(1,3) Pair by (auto simp: receipt_candidate_def candidate_ok_def texts_stored_def)
qed

lemma receipt_of_stored: "receipt_of e d = Some r \<Longrightarrow> r \<in> set (receipts d) \<and> rt_receipt_id r = e"
  unfolding receipt_of_def by (auto simp: find_Some_iff)

lemma semantic_evidence_visible:
  assumes "readRecallSemanticEvidence d recordID revision spaceID digest = (evidence, True)" and "e \<in> set evidence"
  shows "receipt_visible d spaceID digest e"
proof -
  have "(case receipt_of e d of None \<Rightarrow> False | Some r \<Rightarrow> rt_space_id r = spaceID \<and> rt_label_set_digest r = digest) \<and>
      \<not> is_corrected d e"
    using assms by (auto simp: readRecallSemanticEvidence_def Let_def list_all_iff)
  then show ?thesis
    unfolding receipt_visible_def by (cases "receipt_of e d") (auto dest: receipt_of_stored)
qed

lemma with_evidence_ok:
  assumes "with_evidence d spaceID digest c = Some c'" and "P (cd_text c)"
  shows "candidate_ok P (receipt_visible d spaceID digest) c'"
  using assms semantic_evidence_visible
  by (fastforce simp: with_evidence_def candidate_ok_def split: if_splits prod.splits)

lemma semantic_candidates_ok:
  assumes "semanticRecallCandidates A F expired tick d spaceID digest class query q terms = Some (cs, degraded)"
    and "texts_stored P d" and "c \<in> set cs"
  shows "candidate_ok P (receipt_visible d spaceID digest) c"
proof -
  have "\<exists>t. cs = map the (filter (\<lambda>c. c \<noteq> None) (map (with_evidence d spaceID digest)
      (map the (map (semantic_candidate A query terms class) (semantic_matches F d t spaceID digest q))))) \<and>
      None \<notin> set (map (semantic_candidate A query terms class) (semantic_matches F d t spaceID digest q))"
    if "cs \<noteq> []"
    using assms(1) that unfolding semanticRecallCandidates_def Let_def
    by (auto simp del: set_map map_map split: if_splits option.splits)
  then obtain t where t: "cs = map the (filter (\<lambda>c. c \<noteq> None) (map (with_evidence d spaceID digest)
      (map the (map (semantic_candidate A query terms class) (semantic_matches F d t spaceID digest q)))))"
    and ok: "None \<notin> set (map (semantic_candidate A query terms class) (semantic_matches F d t spaceID digest q))"
    using assms(3) by fastforce
  from assms(3) obtain m where "m \<in> set (semantic_matches F d t spaceID digest q)"
      "with_evidence d spaceID digest (the (semantic_candidate A query terms class m)) = Some c"
    unfolding t by auto
  with ok obtain c0 where m: "m \<in> set (semantic_matches F d t spaceID digest q)"
      "semantic_candidate A query terms class m = Some c0" "with_evidence d spaceID digest c0 = Some c"
    by (cases "semantic_candidate A query terms class m") (auto simp: image_iff)
  obtain r v b where rvb: "m = (r, v, b)" by (cases m)
  have "P (rv_text v)" using semantic_matches_sound[of r v b] m(1) rvb assms(2) unfolding texts_stored_def by blast
  moreover have "cd_text c0 = rv_text v" using m(2) rvb by (auto simp: semantic_candidate_def)
  ultimately show ?thesis using with_evidence_ok[OF m(3)] by simp
qed

lemma candidate_ok_mono: "candidate_ok P Q c \<Longrightarrow> (\<And>e. Q e \<Longrightarrow> Q' e) \<Longrightarrow> candidate_ok P Q' c"
  by (auto simp: candidate_ok_def)

lemma recall_space_ok:
  assumes "recall_space A F expired d digest query spaceID (tick, cs, degraded) = Inr (tick', cs', degraded')"
    and "texts_stored P d" and "\<forall>c\<in>set cs. candidate_ok P Q c"
    and "\<And>e. receipt_visible d spaceID digest e \<Longrightarrow> Q e"
  shows "\<forall>c\<in>set cs'. candidate_ok P Q c"
proof
  fix c assume c: "c \<in> set cs'"
  from assms(1) consider "cs' = cs"
    | q t cls semantic sd where "None \<notin> set (map (receipt_candidate A query [] cls) (receipt_matches F d t spaceID digest q))"
      "semanticRecallCandidates A F expired (Suc tick) d spaceID digest cls query q [] = Some (semantic, sd)"
      "cs' = cs @ map the (map (receipt_candidate A query [] cls) (receipt_matches F d t spaceID digest q)) @ semantic"
    unfolding recall_space_def Let_def prod.case
    by (elim run_elims) (auto simp del: set_map map_map split: if_splits elim!: run_elims; blast)
  then show "candidate_ok P Q c"
  proof cases
    case 1
    then show ?thesis using assms(3) c by blast
  next
    case 2
    consider "c \<in> set cs" | "c \<in> set semantic"
      | m where "m \<in> set (receipt_matches F d t spaceID digest q)" "receipt_candidate A query [] cls m = Some c"
      using c 2(1,3) by (auto simp: image_iff)
    then show ?thesis
    proof cases
      case 1
      then show ?thesis using assms(3) by blast
    next
      case 2
      show ?thesis
        by (rule candidate_ok_mono[OF semantic_candidates_ok[OF \<open>_ = Some (semantic, sd)\<close> assms(2) 2] assms(4)])
    next
      case 3
      show ?thesis by (rule candidate_ok_mono[OF receipt_candidates_ok[OF assms(2) 3] assms(4)])
    qed
  qed
qed

lemma Recall_InrE:
  assumes "Recall s A F now expired auth request d = Inr response"
  obtains view tick candidates degraded truncated where
    "validate_recall request = Inr ()" "authorize now d auth OperationRecall = Inr view"
    "check_consistency_token s d view (rec_min_consistency_token request) = Inr ()"
    "fold_res (recall_space A F expired d (av_label_set_digest view) (rec_query request))
      (av_read_space_ids view) (1, [], False) = Inr (tick, candidates, degraded)"
    "recall_fragments expired tick (bud_max_fragments (rec_budget request)) (bud_max_bytes (rec_budget request))
      (mergeRecallCandidates A (sort_candidates candidates)) [] False = Inr (rcl_fragments response, truncated)"
  using assms unfolding Recall_def
  by (elim run_elims) (auto elim!: run_elims split: prod.splits intro: that)

lemma recall_candidates_ok:
  assumes "fold_res (recall_space A F expired d digest query) spaceIDs (1, [], False) = Inr (tick, cs, degraded)"
    and "texts_stored P d" and "\<And>spaceID e. spaceID \<in> set spaceIDs \<Longrightarrow> receipt_visible d spaceID digest e \<Longrightarrow> Q e"
  shows "\<forall>c\<in>set (mergeRecallCandidates A (sort_candidates cs)). candidate_ok P Q c"
proof (rule merged_ok)
  have "\<forall>c\<in>set (fst (snd (tick, cs, degraded))). candidate_ok P Q c"
  proof (rule fold_res_invariant[OF assms(1)])
    fix x s s' assume "x \<in> set spaceIDs" "\<forall>c\<in>set (fst (snd s)). candidate_ok P Q c"
      "recall_space A F expired d digest query x s = Inr s'"
    then show "\<forall>c\<in>set (fst (snd s')). candidate_ok P Q c"
      using recall_space_ok[OF _ assms(2), where spaceID = x and Q = Q] assms(3) by (cases s; cases s') fastforce
  qed simp
  then show "\<forall>c\<in>set cs. candidate_ok P Q c" by simp
qed

section \<open>What a response holds\<close>

lemma recall_fragments_evidence:
  assumes "recall_fragments expired tick maxFragments maxBytes cs fragments truncated = Inr (fragments', truncated')"
    and "\<forall>c\<in>set cs. candidate_ok P Q c" and "\<forall>f\<in>set fragments. \<forall>e\<in>set (frag_evidence_refs f). Q e"
  shows "\<forall>f\<in>set fragments'. \<forall>e\<in>set (frag_evidence_refs f). Q e"
  using assms
proof (induction expired tick maxFragments maxBytes cs fragments truncated rule: recall_fragments.induct)
  case (2 expired tick maxFragments maxBytes c rest fragments truncated)
  obtain t wasCut ok where fit: "fitProjectedText (map frag_text fragments) (cd_text c) maxBytes = (t, wasCut, ok)"
    by (cases "fitProjectedText (map frag_text fragments) (cd_text c) maxBytes")
  then show ?case
    using "2.prems" "2.IH"[OF _ _ fit[symmetric] refl _ refl refl]
    by (auto simp: Let_def candidate_ok_def split: if_splits)
qed simp

lemma fit_within:
  assumes "fitProjectedText existing value maxBytes = (t, wasCut, True)" and "value \<noteq> []"
  shows "t \<noteq> [] \<and> projectedRecallSize (existing @ [t]) [] \<le> maxBytes"
proof (cases "projectedRecallSize existing value \<le> maxBytes")
  case True
  then show ?thesis using assms projected_append[of "value" existing] by (auto simp: fitProjectedText_def)
next
  case False
  let ?rs = "runes_of value"
  have best: "t = fit_search existing ?rs maxBytes 0 (int (length ?rs)) []" "t \<noteq> []"
    using assms False by (auto simp: fitProjectedText_def Let_def split: if_splits)
  obtain n where "fit_search existing ?rs maxBytes 0 (int (length ?rs)) [] =
      (if n = 0 then [] else string_of_runes (take (n - 1) ?rs))" "n \<le> length ?rs + 1"
      "\<forall>k\<le>length ?rs. prefix_fits existing ?rs maxBytes k \<longleftrightarrow> k < n"
    using fit_search_correct[OF runes_of_valid, of 0 "int (length ?rs)" "value" existing maxBytes "[]"] by auto
  then have "projectedRecallSize existing t \<le> maxBytes"
    using best by (cases n) (auto simp: prefix_fits_def)
  then show ?thesis using best(2) projected_append[of t existing] by simp
qed

lemma recall_fragments_budget:
  assumes "recall_fragments expired tick maxFragments maxBytes cs fragments truncated = Inr (fragments', truncated')"
    and "\<forall>c\<in>set cs. cd_text c \<noteq> []"
    and "int (length fragments) \<le> maxFragments" and "projectedRecallSize (map frag_text fragments) [] \<le> maxBytes"
  shows "int (length fragments') \<le> maxFragments \<and> projectedRecallSize (map frag_text fragments') [] \<le> maxBytes"
  using assms
proof (induction expired tick maxFragments maxBytes cs fragments truncated rule: recall_fragments.induct)
  case (2 expired tick maxFragments maxBytes c rest fragments truncated)
  obtain t wasCut ok where fit: "fitProjectedText (map frag_text fragments) (cd_text c) maxBytes = (t, wasCut, ok)"
    by (cases "fitProjectedText (map frag_text fragments) (cd_text c) maxBytes")
  show ?case
    using "2.prems" fit "2.IH"[OF _ _ fit[symmetric] refl _ refl refl] fit_within[of "map frag_text fragments" "cd_text c" maxBytes t wasCut]
    by (auto simp: Let_def split: if_splits)
qed simp

text \<open>
  Claim C9. Recall discloses nothing outside the caller's view: every evidence reference of every
  fragment of a successful answer is an uncorrected receipt that is stored in a Space the capability
  may read, in the capability's own label partition, whatever rows the full-text index returns.
\<close>

theorem recall_evidence_isolated:
  assumes "Recall s A F now expired auth request d = Inr response"
    and "f \<in> set (rcl_fragments response)" and "e \<in> set (frag_evidence_refs f)"
  shows "\<exists>view. authorize now d auth OperationRecall = Inr view \<and> \<not> is_corrected d e \<and>
    (\<exists>r\<in>set (receipts d). rt_receipt_id r = e \<and> rt_space_id r \<in> set (av_read_space_ids view) \<and>
       rt_label_set_digest r = av_label_set_digest view)"
  using assms(1)
proof (rule Recall_InrE)
  fix view :: authorized_view and tick candidates degraded truncated
  let ?Q = "\<lambda>e. \<exists>spaceID\<in>set (av_read_space_ids view). receipt_visible d spaceID (av_label_set_digest view) e"
  assume a: "authorize now d auth OperationRecall = Inr view"
    and cs: "fold_res (recall_space A F expired d (av_label_set_digest view) (rec_query request))
      (av_read_space_ids view) (1, [], False) = Inr (tick, candidates, degraded)"
    and fs: "recall_fragments expired tick (bud_max_fragments (rec_budget request)) (bud_max_bytes (rec_budget request))
      (mergeRecallCandidates A (sort_candidates candidates)) [] False = Inr (rcl_fragments response, truncated)"
  have "\<forall>c\<in>set (mergeRecallCandidates A (sort_candidates candidates)). candidate_ok (\<lambda>_. True) ?Q c"
    by (rule recall_candidates_ok[OF cs]) (auto simp: texts_stored_def)
  from recall_fragments_evidence[OF fs this] assms(2,3) have "?Q e" by simp
  then show ?thesis using a by (auto simp: receipt_visible_def)
qed

text \<open>
  Claim C10. A Recall answer stays inside the caller's budget: it holds at most \<open>max_fragments\<close>
  fragments, and the JSON encoding of their texts is at most \<open>max_bytes\<close> long, for a store whose
  receipts and active records have the non-empty texts that validation demands.
\<close>

theorem recall_within_budget:
  assumes "Recall s A F now expired auth request d = Inr response" and "texts_stored (\<lambda>t. t \<noteq> []) d"
  shows "int (length (rcl_fragments response)) \<le> bud_max_fragments (rec_budget request) \<and>
    projectedRecallSize (map frag_text (rcl_fragments response)) [] \<le> bud_max_bytes (rec_budget request)"
  using assms(1)
proof (rule Recall_InrE)
  fix view :: authorized_view and tick candidates degraded truncated
  assume v: "validate_recall request = Inr ()"
    and cs: "fold_res (recall_space A F expired d (av_label_set_digest view) (rec_query request))
      (av_read_space_ids view) (1, [], False) = Inr (tick, candidates, degraded)"
    and fs: "recall_fragments expired tick (bud_max_fragments (rec_budget request)) (bud_max_bytes (rec_budget request))
      (mergeRecallCandidates A (sort_candidates candidates)) [] False = Inr (rcl_fragments response, truncated)"
  have "\<forall>c\<in>set (mergeRecallCandidates A (sort_candidates candidates)). candidate_ok (\<lambda>t. t \<noteq> []) (\<lambda>_. True) c"
    by (rule recall_candidates_ok[OF cs assms(2)]) simp
  moreover have "1 \<le> bud_max_fragments (rec_budget request)" "MinRecallProjectionBytes \<le> bud_max_bytes (rec_budget request)"
    using v by (auto simp: validate_recall_def validate_recall_budget_def elim!: run_elims)
  moreover have "projectedRecallSize [] [] = MinRecallProjectionBytes"
    by (simp add: projectedRecallSize_def MinRecallProjectionBytes_def)
  ultimately show ?thesis using recall_fragments_budget[OF fs] by (auto simp: candidate_ok_def)
qed

section \<open>Witnesses\<close>

definition demo_receipt :: receipt_row where
  "demo_receipt = \<lparr>rt_commit_sequence = 1, rt_receipt_id = ''r1'', rt_space_id = ''s'', rt_text = ''hi'',
     rt_source_context = no_source, rt_occurred_at = None, rt_received_at = 4, rt_idempotency_key = ''k'',
     rt_request_digest = [], rt_consistency_token = [], rt_label_set = [],
     rt_label_set_digest = digestString (encode_label_set [])\<rparr>"

definition demo_indexed :: db where
  "demo_indexed = demo_private\<lparr>receipts := [demo_receipt], receipt_fts := [\<lparr>ft_table = spaceIndexTable ''s'',
     ft_receipt_id = ''r1'', ft_text = ''hi'', ft_terms = ''hi'', ft_ngrams = []\<rparr>]\<rparr>"

definition demo_fts :: fts where
  "demo_fts = \<lparr>fts_receipts = (\<lambda>rows q. map (\<lambda>r. (r, 0)) rows), fts_semantic = (\<lambda>rows q. map (\<lambda>r. (r, 0)) rows)\<rparr>"

definition demo_query :: recall_request where
  "demo_query = \<lparr>rec_query = ''hi'', rec_source_context = no_source, rec_min_consistency_token = [],
     rec_budget = \<lparr>bud_max_fragments = 1, bud_max_bytes = 64, bud_deadline_ms = 1000\<rparr>\<rparr>"

lemma demo_range: "range_string ''hi'' = [(104, ''h''), (105, ''i'')]"
  by code_simp

lemma demo_runes: "runes_of ''hi'' = [104, 105]" by (simp add: text_eval)

lemma demo_lower: "to_lower demo_analyzer ''hi'' = ''hi''" unfolding to_lower_def demo_runes by (simp add: demo_analyzer_def string_of_runes_def encode_rune_def valid_rune_def char_of_def bit_0)

lemma demo_trim: "trim_space ''hi'' = ''hi''" by (simp add: text_eval)

lemma demo_norm: "normalizeLexicalToken demo_analyzer ''hi'' = ''hi''"
  by (simp add: normalizeLexicalToken_def demo_trim demo_lower demo_runes Let_def) (simp add: demo_analyzer_def)

lemma demo_proj: "projectLexical demo_analyzer ''hi'' [] = Some \<lparr>ld_terms = ''hi'', ld_ngrams = []\<rparr>"
proof -
  have "lexicalAtoms demo_analyzer ''hi'' = [''hi'']" "hanRuns demo_analyzer ''hi'' = []"
    by (simp_all add: lexicalAtoms_def hanRuns_def demo_range demo_analyzer_def)
  moreover have "an_cut_search demo_analyzer = Some (\<lambda>s. [s])" by (simp add: demo_analyzer_def)
  ultimately show ?thesis
    by (simp add: projectLexical_def project_terms_def project_ngrams_def ordered_add_def demo_norm maxLexicalTerms_def)
qed

lemma demo_fts_query: "lexicalFTSQuery demo_analyzer ''hi'' [] = Some [CHR 0x22, CHR ''h'', CHR ''i'', CHR 0x22]"
  by (simp add: lexicalFTSQuery_def demo_proj string_fields_def demo_range is_space_rune_def in_range_def ordered_add_def demo_norm)

lemma demo_rank: "lexicalRank demo_analyzer ''hi'' ''hi'' [] 0 = Some (- 6)"
  by (simp add: lexicalRank_def demo_proj string_fields_def demo_range is_space_rune_def in_range_def demo_trim demo_lower Let_def)

lemma MinRecallProjectionBytes_16: "MinRecallProjectionBytes = 16"
  by code_simp

lemma demo_text_size: "projectedRecallSize [] ''hi'' = 20"
  by code_simp

lemmas demo_projection = demo_fts_query demo_rank demo_text_size MinRecallProjectionBytes_16

lemma demo_validate_recall: "validate_recall demo_query = Inr ()"
  by (simp add: validate_recall_def validate_recall_budget_def demo_query_def demo_projection maxRecallQueryBytes_def
      no_source_def validate_source_context_def validate_scalar_def maxSourceScalarBytes_def maxSourceLabels_def
      json_source_context_def omit_str_def maxSourceContextBytes_def text_eval)

lemma demo_authorize_indexed:
  "authorize 5 demo_indexed (demo_auth AudiencePrivate) OperationRecall = Inr (demo_view SpaceClassPrivate)"
  using authorize_frame[of demo_private demo_indexed] demo_authorize[of SpaceClassPrivate AudiencePrivate OperationRecall]
  by (simp add: same_authority_def demo_indexed_def)

lemma demo_candidates:
  "fold_res (recall_space demo_analyzer demo_fts (\<lambda>_. False) demo_indexed (digestString (encode_label_set [])) ''hi'')
     [''s''] (1, [], False) =
   Inr (4, [\<lparr>cd_fragment_id = ''fragment:r1'', cd_text = ''hi'', cd_evidence_refs = [''r1''], cd_record_refs = [],
      cd_record_revision = 0, cd_class = SpaceClassPrivate, cd_rank = - 6, cd_commit_sequence = 1, cd_observed_at = 4,
      cd_semantic = False\<rparr>], False)"
  by (simp add: recall_space_def demo_projection readSpaceIndex_def readSpaceScope_def space_of_def
      receipt_matches_def is_corrected_def receipt_candidate_def semanticRecallCandidates_def readSemanticSpaceIndex_def
      projection_incomplete_def semantic_matches_def demo_fts_def demo_receipt_def demo_indexed_def demo_defs Let_def)

lemma demo_recall:
  "Recall demo_store demo_analyzer demo_fts 5 (\<lambda>_. False) (demo_auth AudiencePrivate) demo_query demo_indexed =
   Inr \<lparr>rcl_fragments = [\<lparr>frag_id = ''fragment:r1'', frag_text = ''hi'', frag_evidence_refs = [''r1''],
      frag_record_refs = [], frag_space_class = SpaceClassPrivate\<rparr>], rcl_consistency_token = [],
      rcl_degraded = False, rcl_truncated = False\<rparr>"
proof -
  have q: "rec_query demo_query = ''hi''" "rec_min_consistency_token demo_query = []"
      "bud_max_fragments (rec_budget demo_query) = 1" "bud_max_bytes (rec_budget demo_query) = 64"
    by (simp_all add: demo_query_def)
  have v: "av_read_space_ids (demo_view SpaceClassPrivate) = [''s'']"
      "av_label_set_digest (demo_view SpaceClassPrivate) = digestString (encode_label_set [])"
    by (simp_all add: demo_view_def)
  have s: "\<not> sto_closing demo_store" "\<not> sto_restore_pending demo_store" by (simp_all add: demo_store_def)
  show ?thesis
    unfolding Recall_def demo_validate_recall demo_authorize_indexed q
    by (simp add: v s check_consistency_token_def demo_candidates del: fold_res.simps One_nat_def)
       (simp add: mergeRecallCandidates_def sort_candidates_def fitProjectedText_def demo_projection)
qed

theorem fit_longest_prefix_witness:
  "fst (fitProjectedText [] ''hi'' 64) = ''hi''"
  using fit_longest_prefix[of "[]" "''hi''" 64 "''hi''" False True]
  by (simp add: fitProjectedText_def demo_projection)

theorem recall_evidence_isolated_witness:
  "\<exists>view. authorize 5 demo_indexed (demo_auth AudiencePrivate) OperationRecall = Inr view \<and> \<not> is_corrected demo_indexed ''r1'' \<and>
    (\<exists>r\<in>set (receipts demo_indexed). rt_receipt_id r = ''r1'' \<and> rt_space_id r \<in> set (av_read_space_ids view) \<and>
       rt_label_set_digest r = av_label_set_digest view)"
  using recall_evidence_isolated[OF demo_recall, where e = "''r1''"] by simp

theorem recall_within_budget_witness:
  "projectedRecallSize [''hi''] [] \<le> 64"
proof -
  have "texts_stored (\<lambda>t. t \<noteq> []) demo_indexed"
    by (simp add: texts_stored_def demo_indexed_def demo_receipt_def demo_defs)
  from recall_within_budget[OF demo_recall this] show ?thesis by (simp add: demo_query_def)
qed

end
