(* ===== verification/Steward_Queue.thy ===== *)
theory Steward_Queue
  imports Recall
begin

text \<open>
  The Steward's work queue, \<open>steward_jobs.go\<close> with the context readers of \<open>steward_context.go\<close>:
  claiming a job under a lease, the bounded request a Worker is shown, the persisted read set, and
  the retry and failure transitions. The lemmas show what a claim hands out, that a live lease is
  never taken over, that attempts are bounded, that only the holder of a live lease can report a
  failure, and the bounds of the retry schedule.

  Scheduler columns are compared as the texts of \<open>formatScheduleTime\<close>, every other time column as the
  text of \<open>formatTime\<close>, as SQLite compares them. \<open>clock k\<close> is the k-th reading of the clock in a call.
\<close>

definition minStewardLease :: duration where "minStewardLease = second_ns"
definition maxStewardLease :: duration where "maxStewardLease = 600 * second_ns"
definition maxStewardAttempts :: nat where "maxStewardAttempts = 5"
definition stewardRetryBase :: duration where "stewardRetryBase = second_ns"
definition hour_ns :: duration where "hour_ns = 3600 * second_ns"

record steward_work =
  sw_lease :: lease
  sw_attempt :: nat
  sw_request :: work_request

record steward_failure =
  sf_code :: string
  sf_retry_after :: duration
  sf_terminal :: bool

section \<open>The context a Worker is shown\<close>

definition readStewardHostSource :: "db \<Rightarrow> string \<Rightarrow> source option" where
  "readStewardHostSource d receiptID =
    (case List.find (\<lambda>e. es_receipt_id e = receiptID \<and> \<not> es_suppressed e) (evidence_sources d) of
       None \<Rightarrow> None | Some e \<Rightarrow> es_source e)"

definition stewardSourceRef :: "source option \<Rightarrow> source list" where
  "stewardSourceRef src = (case src of None \<Rightarrow> [] | Some s \<Rightarrow> [s])"

text \<open>The active heads of a Space and label partition, joined with their current revision.\<close>

definition active_heads :: "db \<Rightarrow> string \<Rightarrow> string \<Rightarrow> (semantic_row \<times> revision_row) list" where
  "active_heads d spaceID labelSetDigest =
    concat (map (\<lambda>r. map (\<lambda>v. (r, v))
        (filter (\<lambda>v. rv_record_id v = sm_record_id r \<and> rv_revision v = sm_current_revision r) (semantic_revisions d)))
      (filter (\<lambda>r. sm_space_id r = spaceID \<and> sm_label_set_digest r = labelSetDigest \<and>
         sm_status r = RecordStatusActive) (semantic_records d)))"

text \<open>\<open>ORDER BY r.updated_at DESC, r.record_id\<close>.\<close>

definition order_recent :: "(semantic_row \<times> revision_row) list \<Rightarrow> (semantic_row \<times> revision_row) list" where
  "order_recent rows =
    rev (sort_key (\<lambda>x. formatTime (sm_updated_at (fst x))) (rev (sort_key (\<lambda>x. sm_record_id (fst x)) rows)))"

definition scanStewardContextRecords :: "(semantic_row \<times> revision_row) list \<Rightarrow> record_context list" where
  "scanStewardContextRecords rows =
    map (\<lambda>(r, v). \<lparr>rc_record_id = sm_record_id r, rc_revision = sm_current_revision r, rc_kind = rv_kind v,
      rc_text = rv_text v, rc_evidence_refs = [], rc_subject = sm_subject r, rc_fact_key = sm_fact_key r\<rparr>) rows"

definition readStewardSubjectContext ::
  "db \<Rightarrow> string \<Rightarrow> string \<Rightarrow> string \<Rightarrow> string \<Rightarrow> nat \<Rightarrow> record_context list" where
  "readStewardSubjectContext d spaceID labelSetDigest subject factKey limit =
    scanStewardContextRecords (take limit (order_recent
      (filter (\<lambda>(r, v). sm_subject r = subject \<and> (factKey = [] \<or> sm_fact_key r = factKey))
        (active_heads d spaceID labelSetDigest))))"

definition readStewardLexicalContext ::
  "fts \<Rightarrow> db \<Rightarrow> string \<Rightarrow> string \<Rightarrow> string \<Rightarrow> string \<Rightarrow> nat \<Rightarrow> record_context list" where
  "readStewardLexicalContext F d tableName spaceID labelSetDigest ftsQuery limit =
    (let matched = concat (map (\<lambda>(f, bm25). map (\<lambda>x. (x, bm25))
           (filter (\<lambda>(r, v). sm_record_id r = sf_record_id f \<and> sm_current_revision r = sf_revision f)
             (active_heads d spaceID labelSetDigest)))
         (fts_semantic F (filter (\<lambda>f. sf_table f = tableName) (semantic_fts d)) ftsQuery));
         recent = rev (sort_key (\<lambda>x. formatTime (sm_updated_at (fst (fst x))))
           (rev (sort_key (\<lambda>x. sm_record_id (fst (fst x))) matched)))
     in scanStewardContextRecords (take limit (map fst (sort_key snd recent))))"

definition readStewardRecentContext :: "db \<Rightarrow> string \<Rightarrow> string \<Rightarrow> nat \<Rightarrow> record_context list" where
  "readStewardRecentContext d spaceID labelSetDigest limit =
    scanStewardContextRecords (take limit (order_recent (active_heads d spaceID labelSetDigest)))"

text \<open>\<open>appendRecords\<close>: first come, first served, each record once, up to the limit.\<close>

fun append_records :: "nat \<Rightarrow> record_context list \<Rightarrow> record_context list \<Rightarrow> record_context list" where
  "append_records limit records [] = records"
| "append_records limit records (c # rest) =
    (if length records \<ge> limit then records
     else if rc_record_id c \<in> set (map rc_record_id records) then append_records limit records rest
     else append_records limit (records @ [c]) rest)"

definition readStewardContextRecords ::
  "analyzer \<Rightarrow> fts \<Rightarrow> db \<Rightarrow> string \<Rightarrow> string \<Rightarrow> source option \<Rightarrow> string \<Rightarrow> int \<Rightarrow> error + record_context list" where
  "readStewardContextRecords A F d spaceID labelSetDigest src receiptText maxRecords =
    (if maxRecords \<le> 0 then Inr [] else
     let limit = nat maxRecords;
         keyed = (case src of Some s \<Rightarrow> if src_subject s \<noteq> [] \<and> src_fact_key s \<noteq> []
                    then readStewardSubjectContext d spaceID labelSetDigest (src_subject s) (src_fact_key s) limit else []
                  | None \<Rightarrow> []);
         records = append_records limit [] keyed in
     rbind (if length records < limit then
        rbind (of_opt (Errorf ''resolve semantic Space index'') (readSemanticSpaceIndex d spaceID)) (\<lambda>tableName.
        rbind (of_opt (Errorf ''build context lexical query'') (lexicalFTSQuery A receiptText [])) (\<lambda>ftsQuery.
        Inr (if ftsQuery = [] then records
             else append_records limit records
               (readStewardLexicalContext F d tableName spaceID labelSetDigest ftsQuery limit))))
      else Inr records) (\<lambda>records.
     let records = (case src of Some s \<Rightarrow> if length records < limit \<and> src_subject s \<noteq> [] \<and> src_fact_key s = []
             then append_records limit records (readStewardSubjectContext d spaceID labelSetDigest (src_subject s) [] limit)
             else records
           | None \<Rightarrow> records);
         records = (if length records < limit
           then append_records limit records (readStewardRecentContext d spaceID labelSetDigest limit) else records)
     in Inr (map (\<lambda>r. r\<lparr>rc_evidence_refs := readSemanticEvidenceIDs d (rc_record_id r) (rc_revision r)\<rparr>) records)))"

definition readStewardWorkRequest ::
  "analyzer \<Rightarrow> fts \<Rightarrow> db \<Rightarrow> profile_spec \<Rightarrow> string \<Rightarrow> string \<Rightarrow> string \<Rightarrow> error + work_request" where
  "readStewardWorkRequest A F d profile receiptID spaceID labelSetDigest =
    rbind (of_opt (Errorf ''read Steward receipt'')
      (List.find (\<lambda>r. rt_receipt_id r = receiptID \<and> rt_space_id r = spaceID \<and>
         rt_label_set_digest r = labelSetDigest) (receipts d))) (\<lambda>r.
    let src = readStewardHostSource d receiptID in
    rbind (readStewardContextRecords A F d spaceID labelSetDigest src (rt_text r) (pf_max_context_records profile)) (\<lambda>records.
    Inr \<lparr>wr_protocol = StewardProtocolVersion, wr_profile = profile,
      wr_receipt = \<lparr>ri_receipt_id = rt_receipt_id r, ri_text = rt_text r, ri_occurred_at = rt_occurred_at r,
        ri_received_at = rt_received_at r,
        ri_subject = (case src of None \<Rightarrow> [] | Some s \<Rightarrow> src_subject s),
        ri_fact_key = (case src of None \<Rightarrow> [] | Some s \<Rightarrow> src_fact_key s),
        ri_sources = stewardSourceRef src\<rparr>,
      wr_records = records\<rparr>))"

section \<open>The read set\<close>

definition read_set_entries :: "record_context list \<Rightarrow> (string \<times> nat \<times> string) list" where
  "read_set_entries records =
    concat (map (\<lambda>r. map (\<lambda>e. (rc_record_id r, rc_revision r, e)) (rc_evidence_refs r)) records)"

definition persistStewardReadSet :: "string \<Rightarrow> nat \<Rightarrow> record_context list \<Rightarrow> db \<Rightarrow> error + db" where
  "persistStewardReadSet jobID attempt records d =
    fold_res (\<lambda>(ordinal, recordID, revision, receiptID) d.
        of_opt (Errorf ''record Steward read set'')
          (insert_read_set \<lparr>rs_job_id = jobID, rs_attempt = attempt, rs_ordinal = ordinal, rs_record_id = recordID,
             rs_revision = revision, rs_receipt_id = receiptID\<rparr> d))
      (enumerate 0 (read_set_entries records)) d"

definition readStewardReadSet :: "db \<Rightarrow> string \<Rightarrow> nat \<Rightarrow> (string \<times> nat \<times> string) list" where
  "readStewardReadSet d jobID attempt =
    map (\<lambda>r. (rs_record_id r, rs_revision r, rs_receipt_id r))
      (sort_key rs_ordinal (filter (\<lambda>r. rs_job_id r = jobID \<and> rs_attempt r = attempt) (steward_read_set d)))"

section \<open>Claiming\<close>

definition sched_reached :: "instant \<Rightarrow> instant \<Rightarrow> bool" where
  "sched_reached now t \<longleftrightarrow> formatScheduleTime t \<le> formatScheduleTime now"

definition job_due :: "instant \<Rightarrow> job_row \<Rightarrow> bool" where
  "job_due now j \<longleftrightarrow> jb_state j = JobPending \<and> sched_reached now (jb_available_at j)"

definition lease_lapsed :: "instant \<Rightarrow> job_row \<Rightarrow> bool" where
  "lease_lapsed now j \<longleftrightarrow> jb_state j = JobLeased \<and>
     (case jb_lease_expires_at j of None \<Rightarrow> False | Some t \<Rightarrow> sched_reached now t)"

definition forgotten_job :: "db \<Rightarrow> job_row \<Rightarrow> bool" where
  "forgotten_job d j \<longleftrightarrow> list_ex (\<lambda>b. fb_kind b = BarrierReceiptDeleted \<and> fb_space_id b = jb_space_id j \<and>
     fb_receipt_id b = jb_receipt_id j) (forgetting_barriers d)"

definition fail_jobs :: "instant \<Rightarrow> string \<Rightarrow> (job_row \<Rightarrow> bool) \<Rightarrow> db \<Rightarrow> db" where
  "fail_jobs now code p d = d\<lparr>steward_jobs := tbl_update p (fail_job now code) (steward_jobs d)\<rparr>"

text \<open>The receipts whose job failed with \<open>code\<close> at this very time text fail with it.\<close>

definition fail_receipts_of :: "instant \<Rightarrow> string \<Rightarrow> db \<Rightarrow> db" where
  "fail_receipts_of now code d =
    (let failed = map jb_receipt_id (filter (\<lambda>j. jb_state j = JobFailed \<and> jb_terminal_error_code j = code \<and>
        formatTime (jb_updated_at j) = formatTime now) (steward_jobs d)) in
     d\<lparr>receipt_processing := tbl_update (\<lambda>p. pc_receipt_id p \<in> set failed) (fail_processing now code) (receipt_processing d)\<rparr>)"

definition release_job :: "instant \<Rightarrow> instant \<Rightarrow> job_row \<Rightarrow> job_row" where
  "release_job now available j = j\<lparr>jb_state := JobPending, jb_available_at := available, jb_lease_expires_at := None,
     jb_lease_token_digest := [], jb_terminal_error_code := [], jb_updated_at := now\<rparr>"

definition requeue_receipts :: "db \<Rightarrow> db" where
  "requeue_receipts d =
    (let waiting = map jb_receipt_id (filter (\<lambda>j. jb_state j = JobPending) (steward_jobs d)) in
     d\<lparr>receipt_processing := tbl_update (\<lambda>p. pc_receipt_id p \<in> set waiting)
        (\<lambda>p. p\<lparr>pc_state := ProcessingStateAccepted, pc_terminal_error_code := []\<rparr>) (receipt_processing d)\<rparr>)"

text \<open>The statements before the selection, in the order the transaction runs them.\<close>

definition sweep_jobs :: "instant \<Rightarrow> db \<Rightarrow> db" where
  "sweep_jobs now d0 =
    (let d1 = fail_jobs now ''attempts_exhausted''
           (\<lambda>j. maxStewardAttempts \<le> jb_attempts j \<and> (lease_lapsed now j \<or> job_due now j)) d0;
         d2 = fail_jobs now ''receipt_forgotten'' (\<lambda>j. open_job j \<and> forgotten_job d1 j) d1;
         d3 = fail_receipts_of now ''receipt_forgotten'' d2;
         d4 = fail_receipts_of now ''attempts_exhausted'' d3;
         d5 = d4\<lparr>steward_jobs := tbl_update (lease_lapsed now) (release_job now now) (steward_jobs d4)\<rparr>
     in requeue_receipts d5)"

text \<open>\<open>ORDER BY created_at, job_id LIMIT 1\<close>: the creation times are compared as texts.\<close>

definition select_job :: "instant \<Rightarrow> db \<Rightarrow> job_row option" where
  "select_job now d =
    (case sort_key (\<lambda>j. formatTime (jb_created_at j)) (sort_key jb_job_id
        (filter (\<lambda>j. job_due now j \<and> jb_attempts j < maxStewardAttempts \<and> \<not> forgotten_job d j) (steward_jobs d))) of
       [] \<Rightarrow> None | j # _ \<Rightarrow> Some j)"

definition lease_job :: "instant \<Rightarrow> duration \<Rightarrow> string \<Rightarrow> job_row \<Rightarrow> job_row" where
  "lease_job now leaseDuration leaseToken j =
    j\<lparr>jb_state := JobLeased, jb_attempts := jb_attempts j + 1, jb_lease_expires_at := Some (now + leaseDuration),
      jb_lease_token_digest := digestString leaseToken, jb_updated_at := now\<rparr>"

definition failStewardJobTx :: "instant \<Rightarrow> string \<Rightarrow> string \<Rightarrow> string \<Rightarrow> db \<Rightarrow> db" where
  "failStewardJobTx now jobID receiptID code d =
    d\<lparr>steward_jobs := tbl_update (\<lambda>j. jb_job_id j = jobID) (fail_job now code) (steward_jobs d),
      receipt_processing := tbl_update (\<lambda>p. pc_receipt_id p = receiptID) (fail_processing now code) (receipt_processing d)\<rparr>"

text \<open>Records are dropped from the end until the encoded request fits the profile's bound.\<close>

function fit_request :: "int \<Rightarrow> work_request \<Rightarrow> work_request option" where
  "fit_request maxInputBytes request =
    (if EncodedSize request \<le> maxInputBytes then Some request
     else if wr_records request = [] then None
     else fit_request maxInputBytes (request\<lparr>wr_records := butlast (wr_records request)\<rparr>))"
  by pat_completeness auto
termination
  by (relation "measure (\<lambda>(maxInputBytes, request). length (wr_records request))") auto

declare fit_request.simps [simp del]

datatype claim_step =
  Claimed steward_work | NoJob | Oversized | LostRace

definition claim_tx ::
  "analyzer \<Rightarrow> fts \<Rightarrow> instant \<Rightarrow> duration \<Rightarrow> string \<Rightarrow> db \<Rightarrow> error + (claim_step \<times> db)" where
  "claim_tx A F now leaseDuration leaseToken d0 =
    (let d = sweep_jobs now d0 in
     case select_job now d of None \<Rightarrow> Inr (NoJob, d)
     | Some job \<Rightarrow>
       (let target = (\<lambda>j. jb_job_id j = jb_job_id job \<and> job_due now j);
            d1 = d\<lparr>steward_jobs := tbl_update target (lease_job now leaseDuration leaseToken) (steward_jobs d)\<rparr>;
            d2 = d1\<lparr>receipt_processing := tbl_update (\<lambda>p. pc_receipt_id p = jb_receipt_id job)
              (\<lambda>p. p\<lparr>pc_state := ProcessingStateProcessing, pc_attempts := pc_attempts p + 1,
                 pc_last_attempt_at := Some now, pc_terminal_error_code := []\<rparr>) (receipt_processing d1)\<rparr> in
        if tbl_affected target (steward_jobs d) \<noteq> 1 then Inr (LostRace, d) else
        rbind (of_opt (Errorf ''read claimed Steward profile'')
          (readStewardProfile d2 (jb_profile_id job) (jb_profile_version job))) (\<lambda>profile.
        rbind (readStewardWorkRequest A F d2 (pfr_spec profile) (jb_receipt_id job) (jb_space_id job)
          (jb_label_set_digest job)) (\<lambda>request.
        case fit_request (pf_max_input_bytes (pfr_spec profile)) request of
          None \<Rightarrow> Inr (Oversized, failStewardJobTx now (jb_job_id job) (jb_receipt_id job) ''input_too_large'' d2)
        | Some request \<Rightarrow>
            rbind (persistStewardReadSet (jb_job_id job) (jb_attempts job + 1) (wr_records request) d2) (\<lambda>d3.
            Inr (Claimed \<lparr>sw_lease = \<lparr>ls_job_id = jb_job_id job, ls_token = leaseToken\<rparr>,
              sw_attempt = jb_attempts job + 1, sw_request = request\<rparr>, d3))))))"

text \<open>The result is the work or none, and whether to try again.\<close>

definition claimStewardJob ::
  "analyzer \<Rightarrow> fts \<Rightarrow> instant \<Rightarrow> commit_outcome \<Rightarrow> duration \<Rightarrow> string \<Rightarrow> db \<Rightarrow>
   (error + (steward_work option \<times> bool)) \<times> db" where
  "claimStewardJob A F now out leaseDuration leaseToken d =
    (case claim_tx A F now leaseDuration leaseToken d of
       Inl e \<Rightarrow> (Inl e, d)
     | Inr (NoJob, d') \<Rightarrow> commit_tx out (Errorf ''commit Steward reclaim'') d d' (None, False)
     | Inr (Oversized, d') \<Rightarrow> commit_tx out (Errorf ''commit oversized Steward job'') d d' (None, False)
     | Inr (LostRace, _) \<Rightarrow> (Inr (None, True), d)
     | Inr (Claimed work, d') \<Rightarrow> commit_tx out (Errorf ''commit Steward lease'') d d' (Some work, False))"

fun claim_attempts ::
  "nat \<Rightarrow> analyzer \<Rightarrow> fts \<Rightarrow> (nat \<Rightarrow> instant) \<Rightarrow> commit_outcome \<Rightarrow> duration \<Rightarrow> string \<Rightarrow> nat \<Rightarrow> db \<Rightarrow>
   (error + steward_work option) \<times> db" where
  "claim_attempts 0 A F clock out leaseDuration leaseToken k d = (Inr None, d)"
| "claim_attempts (Suc n) A F clock out leaseDuration leaseToken k d =
    (case claimStewardJob A F (clock k) out leaseDuration leaseToken d of
       (Inl e, d') \<Rightarrow> (Inl e, d')
     | (Inr (work, again), d') \<Rightarrow>
         if again then claim_attempts n A F clock out leaseDuration leaseToken (Suc k) d' else (Inr work, d'))"

definition ClaimStewardJob ::
  "store \<Rightarrow> analyzer \<Rightarrow> fts \<Rightarrow> (nat \<Rightarrow> instant) \<Rightarrow> string \<Rightarrow> commit_outcome \<Rightarrow> duration \<Rightarrow> db \<Rightarrow>
   (error + steward_work option) \<times> db" where
  "ClaimStewardJob s A F clock rnd out leaseDuration d =
    (case rbind (requireMutableGeneration s) (\<lambda>_.
          guard (minStewardLease \<le> leaseDuration \<and> leaseDuration \<le> maxStewardLease)
            (Errorf ''Steward lease duration must be within 1s..10m0s'')) of
       Inl e \<Rightarrow> (Inl e, d)
     | Inr _ \<Rightarrow>
        if \<not> list_ex (\<lambda>j. (job_due (clock 0) j \<or> lease_lapsed (clock 0) j) \<and> \<not> forgotten_job d j) (steward_jobs d)
        then (Inr None, d)
        else (case randomToken 32 rnd of
                None \<Rightarrow> (Inl (Errorf ''create Steward lease''), d)
              | Some (leaseToken, _) \<Rightarrow> claim_attempts 4 A F clock out leaseDuration leaseToken 1 d))"

section \<open>Failing and retrying\<close>

definition validStewardFailureCode :: "string \<Rightarrow> bool" where
  "validStewardFailureCode code \<longleftrightarrow> valid_utf8 code \<and> code \<noteq> [] \<and> length code \<le> 64 \<and> trim_space code = code \<and>
     list_all (\<lambda>r. 97 \<le> r \<and> r \<le> 122 \<or> 48 \<le> r \<and> r \<le> 57 \<or> r = 95) (runes_of code)"

definition lease_live :: "instant \<Rightarrow> string \<Rightarrow> job_row \<Rightarrow> bool" where
  "lease_live now token j \<longleftrightarrow> jb_state j = JobLeased \<and> jb_lease_token_digest j = digestString token \<and>
     (case jb_lease_expires_at j of None \<Rightarrow> False | Some t \<Rightarrow> now < t)"

definition FailStewardJob ::
  "store \<Rightarrow> instant \<Rightarrow> commit_outcome \<Rightarrow> lease \<Rightarrow> steward_failure \<Rightarrow> db \<Rightarrow> (error + unit) \<times> db" where
  "FailStewardJob s now out held failure d =
    (case rbind (requireMutableGeneration s) (\<lambda>_.
          rbind (guard (ls_job_id held \<noteq> [] \<and> ls_token held \<noteq> [] \<and> validStewardFailureCode (sf_code failure))
            (Errorf ''invalid Steward failure'')) (\<lambda>_.
          rbind (guard (0 \<le> sf_retry_after failure \<and> sf_retry_after failure \<le> hour_ns)
            (Errorf ''Steward retry delay must be within 0..1h'')) (\<lambda>_.
          rbind (of_opt ErrStewardLeaseLost (job_of (ls_job_id held) d)) (\<lambda>job.
          rbind (guard (lease_live now (ls_token held) job) ErrStewardLeaseLost) (\<lambda>_.
          Inr job))))) of
       Inl e \<Rightarrow> (Inl e, d)
     | Inr job \<Rightarrow>
        commit_tx out (Errorf ''commit Steward failure'') d
          (if sf_terminal failure then failStewardJobTx now (ls_job_id held) (jb_receipt_id job) (sf_code failure) d
           else d\<lparr>steward_jobs := tbl_update (\<lambda>j. jb_job_id j = ls_job_id held)
                    (release_job now (now + sf_retry_after failure)) (steward_jobs d),
                  receipt_processing := tbl_update (\<lambda>p. pc_receipt_id p = jb_receipt_id job)
                    (\<lambda>p. p\<lparr>pc_state := ProcessingStateAccepted, pc_terminal_error_code := []\<rparr>) (receipt_processing d)\<rparr>) ())"

definition stewardRetryDelay :: "int \<Rightarrow> duration" where
  "stewardRetryDelay attempt =
    (let shift = attempt - 1;
         shift = (if shift < 0 then 0 else shift);
         shift = (if shift > 11 then 11 else shift);
         delay = stewardRetryBase * 2 ^ nat shift
     in if delay > hour_ns then hour_ns else delay)"

definition ReportStewardFailure ::
  "store \<Rightarrow> instant \<Rightarrow> commit_outcome \<Rightarrow> fail_request \<Rightarrow> db \<Rightarrow> (error + unit) \<times> db" where
  "ReportStewardFailure s now out request d =
    (case rbind (requireMutableGeneration s) (\<lambda>_.
          rbind (guard (ls_job_id (fr_lease request) \<noteq> [] \<and> ls_token (fr_lease request) \<noteq> [] \<and>
              validStewardFailureCode (fr_code request))
            (serviceError ErrorCodeInvalidArgument ''invalid Steward failure'' False)) (\<lambda>_.
          of_opt ErrStewardLeaseLost (job_of (ls_job_id (fr_lease request)) d))) of
       Inl e \<Rightarrow> (Inl e, d)
     | Inr job \<Rightarrow>
        (let terminal = (\<not> fr_retryable request \<or> maxStewardAttempts \<le> jb_attempts job) in
         FailStewardJob s now out (fr_lease request)
           \<lparr>sf_code = fr_code request,
            sf_retry_after = (if terminal then 0 else stewardRetryDelay (int (jb_attempts job))),
            sf_terminal = terminal\<rparr> d))"

section \<open>The retry schedule\<close>

lemma retry_delay_closed_form: "stewardRetryDelay b = stewardRetryBase * 2 ^ nat (max 0 (min 11 (b - 1)))"
  and retry_delay_bounds: "stewardRetryBase \<le> stewardRetryDelay b \<and> stewardRetryDelay b \<le> 2048 * second_ns \<and>
    stewardRetryDelay b \<le> hour_ns"
proof -
  have shift: "(if 11 < (if b - 1 < 0 then 0 else b - 1) then 11 else if b - 1 < 0 then 0 else b - 1)
      = max 0 (min 11 (b - 1))" by auto
  have "nat (max 0 (min 11 (b - 1))) \<le> 11" by simp
  then have pow: "(2 :: int) ^ nat (max 0 (min 11 (b - 1))) \<le> 2048"
    using power_increasing[of "nat (max 0 (min 11 (b - 1)))" 11 "2 :: int"] by simp
  then show eq: "stewardRetryDelay b = stewardRetryBase * 2 ^ nat (max 0 (min 11 (b - 1)))"
    unfolding stewardRetryDelay_def Let_def shift stewardRetryBase_def hour_ns_def second_ns_def by simp
  have "(1 :: int) \<le> 2 ^ nat (max 0 (min 11 (b - 1)))" by simp
  with pow show "stewardRetryBase \<le> stewardRetryDelay b \<and> stewardRetryDelay b \<le> 2048 * second_ns \<and>
    stewardRetryDelay b \<le> hour_ns"
    unfolding eq stewardRetryBase_def hour_ns_def second_ns_def by linarith
qed

text \<open>
  The retry schedule is bounded and monotone: the delay after any attempt lies between
  the one-second base and 2048 s, below the hour that \<open>FailStewardJob\<close> accepts, it never shrinks
  from one attempt to the next, and it doubles on every attempt up to the twelfth.
\<close>

theorem retry_delay_schedule:
  "stewardRetryBase \<le> stewardRetryDelay a \<and> stewardRetryDelay a \<le> 2048 * second_ns \<and>
   stewardRetryDelay a \<le> hour_ns \<and> stewardRetryDelay a \<le> stewardRetryDelay (a + 1) \<and>
   stewardRetryDelay a = stewardRetryBase * 2 ^ nat (max 0 (min 11 (a - 1)))"
proof -
  have "(2 :: int) ^ nat (max 0 (min 11 (a - 1))) \<le> 2 ^ nat (max 0 (min 11 (a + 1 - 1)))"
    by (rule power_increasing) auto
  then have "stewardRetryDelay a \<le> stewardRetryDelay (a + 1)"
    unfolding retry_delay_closed_form stewardRetryBase_def second_ns_def by linarith
  then show ?thesis using retry_delay_bounds[of a] retry_delay_closed_form[of a] by blast
qed

section \<open>What a claim does to the jobs\<close>

text \<open>\<open>claim_evolves\<close> relates a job before a claim to the same job after it.\<close>

definition same_job :: "job_row \<Rightarrow> job_row \<Rightarrow> bool" where
  "same_job j j' \<longleftrightarrow> jb_job_id j' = jb_job_id j \<and> jb_receipt_id j' = jb_receipt_id j \<and> jb_space_id j' = jb_space_id j \<and>
     jb_label_set_digest j' = jb_label_set_digest j \<and> jb_profile_id j' = jb_profile_id j \<and>
     jb_profile_version j' = jb_profile_version j \<and> jb_created_at j' = jb_created_at j"

definition claim_evolves :: "instant \<Rightarrow> db \<Rightarrow> job_row \<Rightarrow> job_row \<Rightarrow> bool" where
  "claim_evolves now d j j' \<longleftrightarrow> same_job j j' \<and>
     (\<not> open_job j \<longrightarrow> j' = j) \<and>
     (jb_state j = JobLeased \<and> \<not> lease_lapsed now j \<and> \<not> forgotten_job d j \<longrightarrow> j' = j) \<and>
     jb_attempts j \<le> jb_attempts j' \<and>
     (jb_attempts j \<le> maxStewardAttempts \<longrightarrow> jb_attempts j' \<le> maxStewardAttempts)"

definition sweep_job :: "instant \<Rightarrow> db \<Rightarrow> job_row \<Rightarrow> job_row" where
  "sweep_job now d j0 =
    (let j1 = (if maxStewardAttempts \<le> jb_attempts j0 \<and> (lease_lapsed now j0 \<or> job_due now j0)
               then fail_job now ''attempts_exhausted'' j0 else j0);
         j2 = (if open_job j1 \<and> forgotten_job d j1 then fail_job now ''receipt_forgotten'' j1 else j1)
     in if lease_lapsed now j2 then release_job now now j2 else j2)"

lemma fail_receipts_of_tables [simp]:
  "steward_jobs (fail_receipts_of now code d) = steward_jobs d"
  "forgetting_barriers (fail_receipts_of now code d) = forgetting_barriers d"
  "steward_read_set (fail_receipts_of now code d) = steward_read_set d"
  by (simp_all add: fail_receipts_of_def Let_def)

lemma requeue_receipts_tables [simp]:
  "steward_jobs (requeue_receipts d) = steward_jobs d"
  "forgetting_barriers (requeue_receipts d) = forgetting_barriers d"
  "steward_read_set (requeue_receipts d) = steward_read_set d"
  by (simp_all add: requeue_receipts_def Let_def)

lemma forgotten_job_cong: "forgetting_barriers d = forgetting_barriers d' \<Longrightarrow> forgotten_job d j = forgotten_job d' j"
  by (simp add: forgotten_job_def)

lemma sweep_jobs_tables:
  "steward_jobs (sweep_jobs now d) = map (sweep_job now d) (steward_jobs d)"
  "forgetting_barriers (sweep_jobs now d) = forgetting_barriers d"
  "steward_read_set (sweep_jobs now d) = steward_read_set d"
proof -
  have "forgotten_job (fail_jobs now c p d) j = forgotten_job d j" for c p j
    by (rule forgotten_job_cong) (simp add: fail_jobs_def)
  then show "steward_jobs (sweep_jobs now d) = map (sweep_job now d) (steward_jobs d)"
    by (simp add: sweep_jobs_def fail_jobs_def tbl_update_def sweep_job_def Let_def)
qed (simp_all add: sweep_jobs_def Let_def fail_jobs_def)

lemmas job_defs = fail_job_def release_job_def lease_job_def same_job_def

lemma sweep_job_evolves: "claim_evolves now d j (sweep_job now d j)"
  by (auto simp: claim_evolves_def sweep_job_def Let_def job_defs lease_lapsed_def job_due_def open_job_def
      forgotten_job_def split: option.splits)

lemma sweep_job_leased: "jb_state (sweep_job now d j) = JobLeased \<Longrightarrow> sweep_job now d j = j"
  by (auto simp: sweep_job_def Let_def job_defs split: if_splits)

lemma sweep_job_open: "open_job (sweep_job now d j) \<Longrightarrow> open_job j"
  by (auto simp: sweep_job_def Let_def job_defs open_job_def lease_lapsed_def split: if_splits)

lemma select_job_Some:
  assumes "select_job now d = Some job"
  shows "job \<in> set (steward_jobs d) \<and> job_due now job \<and> jb_attempts job < maxStewardAttempts \<and> \<not> forgotten_job d job"
proof -
  have "job \<in> set (sort_key (\<lambda>j. formatTime (jb_created_at j)) (sort_key jb_job_id
      (filter (\<lambda>j. job_due now j \<and> jb_attempts j < maxStewardAttempts \<and> \<not> forgotten_job d j) (steward_jobs d))))"
    using assms unfolding select_job_def by (auto split: list.splits simp del: set_sort)
  then show ?thesis by simp
qed

lemma persistStewardReadSet_tables:
  assumes "persistStewardReadSet jobID attempt records d = Inr d'"
  shows "steward_jobs d' = steward_jobs d \<and> forgetting_barriers d' = forgetting_barriers d"
  using assms unfolding persistStewardReadSet_def
  by (rule fold_res_invariant[where P = "\<lambda>x. steward_jobs x = steward_jobs d \<and> forgetting_barriers x = forgetting_barriers d"])
     (auto simp: insert_read_set_def tbl_simps elim!: of_opt_InrE)

section \<open>Leases\<close>

lemma claim_evolves_trans_lease:
  assumes "claim_evolves now d j j1" and "job_due now j1" and "jb_attempts j1 < maxStewardAttempts"
    and "same_job j1 j2" and "jb_attempts j2 = jb_attempts j1 + 1"
  shows "claim_evolves now d j j2"
  using assms by (auto simp: claim_evolves_def same_job_def job_due_def open_job_def)

lemma claim_tx_jobs:
  assumes "claim_tx A F now dur token d = Inr (step, d')" and "step \<noteq> LostRace"
    and "distinct (map jb_job_id (steward_jobs d))"
  shows "\<exists>f. steward_jobs d' = map f (steward_jobs d) \<and> (\<forall>j\<in>set (steward_jobs d). claim_evolves now d j (f j)) \<and>
    forgetting_barriers d' = forgetting_barriers d"
proof (cases "select_job now (sweep_jobs now d)")
  case None
  then have "d' = sweep_jobs now d" using assms(1) by (auto simp: claim_tx_def Let_def)
  then show ?thesis using sweep_job_evolves by (auto simp: sweep_jobs_tables)
next
  case (Some job)
  note sel = select_job_Some[OF Some]
  let ?d = "sweep_jobs now d"
  let ?t = "\<lambda>j. jb_job_id j = jb_job_id job \<and> job_due now j"
  let ?g = "\<lambda>j. if ?t j then lease_job now dur token j else j"
  let ?h = "\<lambda>j. if jb_job_id j = jb_job_id job then fail_job now ''input_too_large'' (?g j) else ?g j"
  have jobs: "steward_jobs d' = map ?g (steward_jobs ?d) \<or> steward_jobs d' = map ?h (steward_jobs ?d)"
    and bars: "forgetting_barriers d' = forgetting_barriers d"
    using assms(1,2) Some persistStewardReadSet_tables
    by (auto simp: claim_tx_def Let_def failStewardJobTx_def tbl_update_def lease_job_def fail_job_def
        sweep_jobs_tables(2) split: if_splits option.splits elim!: run_elims)
  have ids: "distinct (map jb_job_id (steward_jobs ?d))"
  proof -
    have "map jb_job_id (steward_jobs ?d) = map jb_job_id (steward_jobs d)"
      using sweep_job_evolves by (auto simp: sweep_jobs_tables claim_evolves_def same_job_def)
    with assms(3) show ?thesis by simp
  qed
  have step: "claim_evolves now d j (?g (sweep_job now d j)) \<and> claim_evolves now d j (?h (sweep_job now d j))"
    if "j \<in> set (steward_jobs d)" for j
  proof (cases "jb_job_id (sweep_job now d j) = jb_job_id job")
    case True
    then have eq: "sweep_job now d j = job"
      using job_key.key_unique[OF ids] sel that by (auto simp: sweep_jobs_tables)
    show ?thesis
      using sel claim_evolves_trans_lease[OF sweep_job_evolves[of now d j]] unfolding eq
      by (auto simp: same_job_def lease_job_def fail_job_def)
  next
    case False
    then show ?thesis using sweep_job_evolves by simp
  qed
  from jobs show ?thesis
  proof
    assume "steward_jobs d' = map ?g (steward_jobs ?d)"
    with step bars show ?thesis by (intro exI[of _ "?g \<circ> sweep_job now d"]) (simp add: sweep_jobs_tables)
  next
    assume "steward_jobs d' = map ?h (steward_jobs ?d)"
    with step bars show ?thesis by (intro exI[of _ "?h \<circ> sweep_job now d"]) (simp add: sweep_jobs_tables)
  qed
qed

lemma claimStewardJob_cases:
  assumes "claimStewardJob A F now out dur token d = (res, d')"
  shows "(d' = d \<or> (\<exists>step. claim_tx A F now dur token d = Inr (step, d') \<and> step \<noteq> LostRace)) \<and>
    (\<forall>w again. res = Inr (Some w, again) \<longrightarrow> claim_tx A F now dur token d = Inr (Claimed w, d')) \<and>
    (\<forall>w. res = Inr (w, True) \<longrightarrow> d' = d)"
  using assms unfolding claimStewardJob_def
  by (auto simp: commit_tx_def split: sum.splits claim_step.splits commit_outcome.splits)

lemma claim_attempts_cases:
  assumes "claim_attempts n A F clock out dur token k d = (res, d')"
  shows "(d' = d \<or> (\<exists>i step. claim_tx A F (clock i) dur token d = Inr (step, d') \<and> step \<noteq> LostRace)) \<and>
    (\<forall>w. res = Inr (Some w) \<longrightarrow> (\<exists>i. claim_tx A F (clock i) dur token d = Inr (Claimed w, d')))"
  using assms
proof (induction n arbitrary: k)
  case 0
  then show ?case by auto
next
  case (Suc n)
  obtain r d1 where r: "claimStewardJob A F (clock k) out dur token d = (r, d1)" by fastforce
  note c = claimStewardJob_cases[OF r]
  show ?case
  proof (cases r)
    case (Inl e)
    then show ?thesis using Suc.prems r c by auto
  next
    case (Inr x)
    obtain w again where x: "x = (w, again)" by (cases x)
    show ?thesis
    proof (cases again)
      case True
      then have "d1 = d" using c Inr x by auto
      then show ?thesis using Suc.IH[of "Suc k"] Suc.prems r Inr x True by simp
    next
      case False
      then show ?thesis using Suc.prems r Inr x c by auto
    qed
  qed
qed

lemma ClaimStewardJob_cases:
  assumes "ClaimStewardJob s A F clock rnd out dur d = (res, d')"
  shows "(d' = d \<or> (\<exists>i token step. claim_tx A F (clock i) dur token d = Inr (step, d') \<and> step \<noteq> LostRace)) \<and>
    (\<forall>w. res = Inr (Some w) \<longrightarrow> minStewardLease \<le> dur \<and> dur \<le> maxStewardLease \<and>
       (\<exists>i token. claim_tx A F (clock i) dur token d = Inr (Claimed w, d')))"
  using assms claim_attempts_cases[of 4 A F clock out dur _ 1 d res d']
  unfolding ClaimStewardJob_def
  by (fastforce split: if_splits option.splits sum.splits elim!: run_elims)

lemma ClaimStewardJob_jobs:
  assumes "ClaimStewardJob s A F clock rnd out dur d = (res, d')" and "distinct (map jb_job_id (steward_jobs d))"
  obtains f k where "steward_jobs d' = map f (steward_jobs d)"
    and "\<forall>j\<in>set (steward_jobs d). claim_evolves (clock k) d j (f j)"
    and "forgetting_barriers d' = forgetting_barriers d"
proof -
  have refl: "claim_evolves (clock 0) d j j" for j by (simp add: claim_evolves_def same_job_def)
  from ClaimStewardJob_cases[OF assms(1)] consider "d' = d"
    | i token step where "claim_tx A F (clock i) dur token d = Inr (step, d')" "step \<noteq> LostRace" by blast
  then show thesis
  proof cases
    case 1
    then show thesis using that[of id 0] refl by simp
  next
    case 2
    then show thesis using claim_tx_jobs[OF 2 assms(2)] that by blast
  qed
qed

text \<open>
  A live lease is never taken over: while its lease has not lapsed at any reading of the
  clock and its receipt is not forgotten, a leased job is untouched by a claim and is not the job
  that the claim hands out.
\<close>

theorem live_lease_kept:
  assumes "ClaimStewardJob s A F clock rnd out dur d = (res, d')"
    and "distinct (map jb_job_id (steward_jobs d))"
    and "j \<in> set (steward_jobs d)" "jb_state j = JobLeased" "\<forall>k. \<not> lease_lapsed (clock k) j" "\<not> forgotten_job d j"
  shows "j \<in> set (steward_jobs d') \<and> (\<forall>w. res = Inr (Some w) \<longrightarrow> ls_job_id (sw_lease w) \<noteq> jb_job_id j)"
proof (intro conjI allI impI)
  obtain f k where f: "steward_jobs d' = map f (steward_jobs d)" "\<forall>j\<in>set (steward_jobs d). claim_evolves (clock k) d j (f j)"
    using ClaimStewardJob_jobs[OF assms(1,2)] by metis
  have "f j = j" using f(2) assms(3-6) by (auto simp: claim_evolves_def)
  then show "j \<in> set (steward_jobs d')" using f(1) assms(3) by (metis image_eqI set_map)
next
  fix w assume "res = Inr (Some w)"
  then obtain i token where tx: "claim_tx A F (clock i) dur token d = Inr (Claimed w, d')"
    using ClaimStewardJob_cases[OF assms(1)] by blast
  then obtain job where job: "select_job (clock i) (sweep_jobs (clock i) d) = Some job" "ls_job_id (sw_lease w) = jb_job_id job"
    by (auto simp: claim_tx_def Let_def split: option.splits if_splits elim!: run_elims)
  then have in_swept: "job \<in> set (steward_jobs (sweep_jobs (clock i) d))" "job_due (clock i) job"
    using select_job_Some by blast+
  then obtain j0 where j0: "j0 \<in> set (steward_jobs d)" "job = sweep_job (clock i) d j0" by (auto simp: sweep_jobs_tables)
  show "ls_job_id (sw_lease w) \<noteq> jb_job_id j"
  proof
    assume "ls_job_id (sw_lease w) = jb_job_id j"
    moreover have "jb_job_id job = jb_job_id j0" using sweep_job_evolves j0(2) by (auto simp: claim_evolves_def same_job_def)
    ultimately have "j0 = j" using job(2) job_key.key_unique[OF assms(2) j0(1) assms(3)] by simp
    then have "job = j" using sweep_job_evolves[of "clock i" d j] assms(4-6) j0(2) by (auto simp: claim_evolves_def)
    then show False using in_swept(2) assms(4) by (simp add: job_due_def)
  qed
qed

definition claim_spec :: "instant \<Rightarrow> duration \<Rightarrow> steward_work \<Rightarrow> db \<Rightarrow> bool" where
  "claim_spec now dur w d' \<longleftrightarrow> (\<exists>j\<in>set (steward_jobs d').
     jb_job_id j = ls_job_id (sw_lease w) \<and> lease_live now (ls_token (sw_lease w)) j \<and>
     jb_lease_expires_at j = Some (now + dur) \<and> jb_attempts j = sw_attempt w \<and>
     1 \<le> sw_attempt w \<and> sw_attempt w \<le> maxStewardAttempts \<and> \<not> forgotten_job d' j \<and>
     EncodedSize (sw_request w) \<le> pf_max_input_bytes (wr_profile (sw_request w)) \<and>
     ri_receipt_id (wr_receipt (sw_request w)) = jb_receipt_id j \<and>
     set (read_set_entries (wr_records (sw_request w))) \<subseteq> set (readStewardReadSet d' (jb_job_id j) (sw_attempt w)))"

lemma fit_request_Some:
  assumes "fit_request m r = Some r'"
  shows "EncodedSize r' \<le> m \<and> wr_profile r' = wr_profile r \<and> wr_receipt r' = wr_receipt r \<and>
    (\<exists>n. wr_records r' = take n (wr_records r))"
  using assms
proof (induction m r rule: fit_request.induct)
  case (1 m r)
  show ?case
  proof (cases "EncodedSize r \<le> m \<or> wr_records r = []")
    case True
    then show ?thesis using "1.prems" by (auto simp: fit_request.simps[of m r] intro: exI[of _ "length (wr_records r)"] split: if_splits)
  next
    case False
    with "1.prems" have "fit_request m (r\<lparr>wr_records := butlast (wr_records r)\<rparr>) = Some r'"
      by (simp add: fit_request.simps[of m r])
    with "1.IH" False obtain n where "wr_records r' = take n (butlast (wr_records r))"
      "EncodedSize r' \<le> m" "wr_profile r' = wr_profile r" "wr_receipt r' = wr_receipt r" by auto
    then show ?thesis by (auto simp: butlast_conv_take)
  qed
qed

definition read_set_row_of :: "string \<Rightarrow> nat \<Rightarrow> nat \<times> string \<times> nat \<times> string \<Rightarrow> read_set_row" where
  "read_set_row_of jobID attempt e =
    (case e of (ordinal, recordID, revision, receiptID) \<Rightarrow>
      \<lparr>rs_job_id = jobID, rs_attempt = attempt, rs_ordinal = ordinal, rs_record_id = recordID,
       rs_revision = revision, rs_receipt_id = receiptID\<rparr>)"

lemma persistStewardReadSet_rows:
  assumes "persistStewardReadSet jobID attempt records d = Inr d'"
  shows "steward_read_set d' = steward_read_set d @
    map (read_set_row_of jobID attempt) (enumerate 0 (read_set_entries records))"
proof -
  have "steward_read_set d' = steward_read_set d @ map (read_set_row_of jobID attempt) es"
    if "fold_res (\<lambda>(ordinal, recordID, revision, receiptID) d.
        of_opt (Errorf ''record Steward read set'')
          (insert_read_set \<lparr>rs_job_id = jobID, rs_attempt = attempt, rs_ordinal = ordinal, rs_record_id = recordID,
             rs_revision = revision, rs_receipt_id = receiptID\<rparr> d)) es d = Inr d'" for es d
    using that
    by (induction es arbitrary: d)
       (fastforce simp: insert_read_set_def tbl_simps read_set_row_of_def elim!: run_elims split: prod.splits)+
  then show ?thesis using assms by (simp add: persistStewardReadSet_def)
qed

lemma read_set_persisted:
  assumes "persistStewardReadSet jobID attempt records d = Inr d'"
  shows "set (read_set_entries records) \<subseteq> set (readStewardReadSet d' jobID attempt)"
proof
  fix e assume "e \<in> set (read_set_entries records)"
  then obtain n where "(n, e) \<in> set (enumerate 0 (read_set_entries records))"
    unfolding in_set_conv_nth[of e] by (auto simp: in_set_enumerate_eq)
  then show "e \<in> set (readStewardReadSet d' jobID attempt)"
    using persistStewardReadSet_rows[OF assms]
    by (cases e) (force simp: readStewardReadSet_def read_set_row_of_def image_iff)
qed

text \<open>
  Claim C38. What a claim hands out: the job is leased for the requested time under the token it
  returns, it was attempted at most four times before and its receipt is not forgotten; the
  request fits the input bound of the job's profile, and every record revision and evidence
  receipt shown to the Worker is in the persisted read set of this attempt.
\<close>

theorem claim_hands_out_leased_work:
  assumes "ClaimStewardJob s A F clock rnd out dur d = (Inr (Some w), d')"
  shows "\<exists>k. claim_spec (clock k) dur w d'"
proof -
  obtain i token where bounds: "minStewardLease \<le> dur" and tx: "claim_tx A F (clock i) dur token d = Inr (Claimed w, d')"
    using ClaimStewardJob_cases[OF assms] by blast
  let ?d = "sweep_jobs (clock i) d"
  obtain job d2 request request' and profile :: profile_row where job: "select_job (clock i) ?d = Some job"
    and req: "readStewardWorkRequest A F d2 (pfr_spec profile) (jb_receipt_id job) (jb_space_id job) (jb_label_set_digest job) = Inr request"
    and fit: "fit_request (pf_max_input_bytes (pfr_spec profile)) request = Some request'"
    and saved: "persistStewardReadSet (jb_job_id job) (Suc (jb_attempts job)) (wr_records request') d2 = Inr d'"
    and w: "w = \<lparr>sw_lease = \<lparr>ls_job_id = jb_job_id job, ls_token = token\<rparr>, sw_attempt = Suc (jb_attempts job), sw_request = request'\<rparr>"
    and d2: "steward_jobs d2 = tbl_update (\<lambda>j. jb_job_id j = jb_job_id job \<and> job_due (clock i) j)
        (lease_job (clock i) dur token) (steward_jobs ?d)" "forgetting_barriers d2 = forgetting_barriers ?d"
    using tx unfolding claim_tx_def Let_def
    by (auto split: option.splits if_splits elim!: run_elims)
  note sel = select_job_Some[OF job]
  let ?j = "lease_job (clock i) dur token job"
  have "?j \<in> set (steward_jobs d')"
    using sel d2(1) persistStewardReadSet_tables[OF saved] by (auto simp: tbl_simps)
  moreover have "\<not> forgotten_job d' ?j"
    using sel d2(2) persistStewardReadSet_tables[OF saved] by (simp add: forgotten_job_def lease_job_def)
  moreover have "0 < dur" using bounds by (simp add: minStewardLease_def second_ns_def)
  moreover have "ri_receipt_id (wr_receipt request) = jb_receipt_id job" "wr_profile request = pfr_spec profile"
    using req by (auto simp: readStewardWorkRequest_def Let_def elim!: run_elims dest: find_Some_iff2)
  ultimately show ?thesis
    using sel fit_request_Some[OF fit] read_set_persisted[OF saved] w
    unfolding claim_spec_def by (intro exI[of _ i] bexI[of _ ?j]) (auto simp: lease_job_def lease_live_def)
qed

section \<open>Attempts\<close>

definition attempts_bounded :: "db \<Rightarrow> bool" where
  "attempts_bounded d \<longleftrightarrow> (\<forall>j\<in>set (steward_jobs d). jb_attempts j \<le> maxStewardAttempts)"

lemma FailStewardJob_jobs:
  assumes "FailStewardJob s now out held failure d = (res, d')"
  shows "d' = d \<or> (\<exists>job f. job_of (ls_job_id held) d = Some job \<and> lease_live now (ls_token held) job \<and>
    steward_jobs d' = tbl_update (\<lambda>j. jb_job_id j = ls_job_id held) f (steward_jobs d) \<and>
    (f = fail_job now (sf_code failure) \<or> f = release_job now (now + sf_retry_after failure)))"
  using assms unfolding FailStewardJob_def
  by (auto simp: commit_tx_def failStewardJobTx_def split: sum.splits commit_outcome.splits if_splits elim!: run_elims)

lemma ReportStewardFailure_jobs:
  assumes "ReportStewardFailure s now out request d = (res, d')"
  shows "\<exists>delay terminal. d' = d \<or> FailStewardJob s now out (fr_lease request)
    \<lparr>sf_code = fr_code request, sf_retry_after = delay, sf_terminal = terminal\<rparr> d = (res, d')"
  using assms unfolding ReportStewardFailure_def Let_def by (auto split: sum.splits)

lemma FailStewardJob_attempts:
  assumes "FailStewardJob s now out held failure d = (res, d')" and "attempts_bounded d"
  shows "attempts_bounded d'"
  using FailStewardJob_jobs[OF assms(1)] assms(2)
  by (auto simp: attempts_bounded_def tbl_simps fail_job_def release_job_def)

text \<open>
  Claim C39. No job is handed out more than five times: that every job has at most
  \<open>maxStewardAttempts\<close> attempts is an invariant of the claim, of both failure reports and of
  enqueueing.
\<close>

theorem attempts_stay_bounded:
  assumes "attempts_bounded d" and "distinct (map jb_job_id (steward_jobs d))"
  shows "attempts_bounded (snd (ClaimStewardJob s A F clock rnd out dur d)) \<and>
    attempts_bounded (snd (FailStewardJob s now out held failure d)) \<and>
    attempts_bounded (snd (ReportStewardFailure s now out request d)) \<and>
    (\<forall>d'. enqueueStewardJob now receiptID spaceID labels digest d = Some d' \<longrightarrow> attempts_bounded d')"
proof (intro conjI allI impI)
  obtain res d' where c: "ClaimStewardJob s A F clock rnd out dur d = (res, d')" by fastforce
  obtain f k where f: "steward_jobs d' = map f (steward_jobs d)" "\<forall>j\<in>set (steward_jobs d). claim_evolves (clock k) d j (f j)"
    using ClaimStewardJob_jobs[OF c assms(2)] by metis
  then show "attempts_bounded (snd (ClaimStewardJob s A F clock rnd out dur d))"
    using assms(1) c by (auto simp: attempts_bounded_def claim_evolves_def)
  show "attempts_bounded (snd (FailStewardJob s now out held failure d))"
    using FailStewardJob_attempts[OF _ assms(1)] by (metis prod.collapse)
  show "attempts_bounded (snd (ReportStewardFailure s now out request d))"
    using FailStewardJob_attempts[OF _ assms(1)] ReportStewardFailure_jobs assms(1) by (metis prod.collapse)
next
  fix d' assume "enqueueStewardJob now receiptID spaceID labels digest d = Some d'"
  then show "attempts_bounded d'"
    using assms(1)
    by (auto simp: enqueueStewardJob_def insert_job_def tbl_simps attempts_bounded_def maxStewardAttempts_def
        split: option.splits)
qed

text \<open>
  Only the holder of a live lease reports a failure: without a job of that identity
  whose lease is unexpired and carries the digest of the token, the report is refused as a lost
  lease and changes nothing; with one, and a retry allowed, the job is pending again after the
  scheduled delay, and otherwise it has failed for good with the reported code.
\<close>

theorem failure_needs_live_lease:
  assumes "requireMutableGeneration s = Inr ()" and "ls_job_id (fr_lease request) \<noteq> []" "ls_token (fr_lease request) \<noteq> []"
    and "validStewardFailureCode (fr_code request)" and "job_of (ls_job_id (fr_lease request)) d = Some job"
  shows "if lease_live now (ls_token (fr_lease request)) job
    then \<exists>d'. ReportStewardFailure s now Committed request d = (Inr (), d') \<and>
      job_of (ls_job_id (fr_lease request)) d' = Some
        (if fr_retryable request \<and> jb_attempts job < maxStewardAttempts
         then release_job now (now + stewardRetryDelay (int (jb_attempts job))) job
         else fail_job now (fr_code request) job)
    else ReportStewardFailure s now out request d = (Inl ErrStewardLeaseLost, d)"
proof -
  have delay: "0 \<le> stewardRetryDelay a \<and> stewardRetryDelay a \<le> hour_ns" for a
    using retry_delay_bounds[of a] by (simp add: stewardRetryBase_def second_ns_def)
  have found: "job_of k (d\<lparr>steward_jobs := tbl_update (\<lambda>j. jb_job_id j = k) f (steward_jobs d), receipt_processing := ps\<rparr>) = Some (f job)"
    if "job_of k d = Some job" "\<And>j. jb_job_id (f j) = jb_job_id j" for k f ps
    using that find_tbl_update_stable[of "\<lambda>j. jb_job_id j = k" f "\<lambda>j. jb_job_id j = k" "steward_jobs d"]
    by (auto simp: job_of_def dest: find_Some_iff2)
  show ?thesis
  proof (cases "lease_live now (ls_token (fr_lease request)) job")
    case True
    then show ?thesis
      using assms delay found[OF assms(5), of "fail_job now (fr_code request)"] found[OF assms(5), of "release_job now (now + stewardRetryDelay (int (jb_attempts job)))"]
      by (auto simp: ReportStewardFailure_def FailStewardJob_def Let_def commit_tx_def failStewardJobTx_def
          fail_job_def release_job_def hour_ns_def second_ns_def)
  next
    case False
    then show ?thesis
      using assms delay
      by (auto simp: ReportStewardFailure_def FailStewardJob_def Let_def hour_ns_def second_ns_def)
  qed
qed

section \<open>A concrete queue\<close>

definition demo_job :: job_row where
  "demo_job = \<lparr>jb_job_id = ''j'', jb_receipt_id = ''r1'', jb_space_id = ''s'', jb_profile_id = ''q'',
     jb_profile_version = 1, jb_state = JobPending, jb_attempts = 0, jb_available_at = 4, jb_lease_expires_at = None,
     jb_lease_token_digest = [], jb_proposal_digest = [], jb_result = None, jb_terminal_error_code = [],
     jb_created_at = 4, jb_updated_at = 4, jb_label_set = [], jb_label_set_digest = digestString (encode_label_set [])\<rparr>"

definition demo_processing :: processing_row where
  "demo_processing = \<lparr>pc_receipt_id = ''r1'', pc_state = ProcessingStateAccepted, pc_attempts = 0, pc_last_attempt_at = None,
     pc_terminal_error_code = [], pc_semantic_generation = []\<rparr>"

definition demo_queue :: "job_row \<Rightarrow> db" where
  "demo_queue j = demo_indexed\<lparr>steward_profiles := [\<lparr>pfr_spec = demo_profile, pfr_created_at = 1\<rparr>],
     receipt_processing := [demo_processing], steward_jobs := [j]\<rparr>"

definition demo_work_request :: work_request where
  "demo_work_request = \<lparr>wr_protocol = StewardProtocolVersion, wr_profile = demo_profile,
     wr_receipt = \<lparr>ri_receipt_id = ''r1'', ri_text = ''hi'', ri_occurred_at = None, ri_received_at = 4, ri_subject = [],
       ri_fact_key = [], ri_sources = []\<rparr>, wr_records = []\<rparr>"

lemma demo_schedule: "formatScheduleTime 4 \<le> formatScheduleTime 5" "\<not> formatScheduleTime 1000000000 \<le> formatScheduleTime 5"
  using formatScheduleTime_mono[of 4 5] formatScheduleTime_mono[of 5 1000000000]
  by (simp_all add: in_years_def day_number_def day_ns_def year_start_def)

lemma demo_texts:
  "format_int 1 = ''1''" "format_int 4 = ''4''" "format_int 1024 = ''1024''" "format_int 131072 = ''131072''"
  by (simp_all add: format_int_def dec_digits.simps char_of_def bit_0 bit_numeral_rec)

lemma demo_time: "formatTime 4 = ''1970-01-01T00:00:00.000000004Z''"
  by code_simp

lemma demo_request_size: "EncodedSize demo_work_request \<le> 131072"
  by (simp add: EncodedSize_def demo_work_request_def json_work_request_def StewardProtocolVersion_def demo_profile_def
      json_profile_spec_def json_receipt_input_def json_time_def omit_str_def omit_arr_def demo_texts demo_time json_string_def
      range_string_ascii json_escape_rune_def)

lemma demo_swept: "sweep_jobs 5 (demo_queue demo_job) = demo_queue demo_job"
  by (simp add: sweep_jobs_def fail_jobs_def fail_receipts_of_def requeue_receipts_def demo_queue_def demo_job_def
      lease_lapsed_def job_due_def open_job_def forgotten_job_def demo_indexed_def demo_defs demo_processing_def
      maxStewardAttempts_def Let_def del: set_map set_filter)

lemma demo_selected: "select_job 5 (demo_queue demo_job) = Some demo_job"
  by (simp add: select_job_def demo_queue_def demo_job_def job_due_def sched_reached_def demo_schedule forgotten_job_def
      demo_indexed_def demo_defs maxStewardAttempts_def)

lemma demo_reads:
  assumes "receipts d = [demo_receipt]" "evidence_sources d = []" "semantic_records d = []" "semantic_fts d = []"
    and "semantic_space_indexes d = [(''s'', semanticSpaceIndexTable ''s'')]"
  shows "readStewardWorkRequest demo_analyzer demo_fts d demo_profile ''r1'' ''s'' (digestString (encode_label_set []))
    = Inr demo_work_request"
  using assms
  by (simp add: readStewardWorkRequest_def demo_receipt_def readStewardHostSource_def readStewardContextRecords_def
      demo_profile_def readSemanticSpaceIndex_def demo_projection readStewardLexicalContext_def readStewardRecentContext_def
      active_heads_def order_recent_def scanStewardContextRecords_def demo_fts_def demo_work_request_def
      stewardSourceRef_def Let_def)

lemma demo_fit: "fit_request 131072 demo_work_request = Some demo_work_request"
  using demo_request_size by (simp add: fit_request.simps)

definition demo_token :: string where "demo_token = base64url (replicate 32 CHR ''x'')"

definition demo_work :: steward_work where
  "demo_work = \<lparr>sw_lease = \<lparr>ls_job_id = ''j'', ls_token = demo_token\<rparr>, sw_attempt = 1, sw_request = demo_work_request\<rparr>"

definition demo_leased :: db where
  "demo_leased = demo_queue (lease_job 5 second_ns demo_token demo_job)\<lparr>receipt_processing :=
     [demo_processing\<lparr>pc_state := ProcessingStateProcessing, pc_attempts := 1, pc_last_attempt_at := Some 5\<rparr>]\<rparr>"

lemma demo_claim_tx:
  "claim_tx demo_analyzer demo_fts 5 second_ns demo_token (demo_queue demo_job) = Inr (Claimed demo_work, demo_leased)"
proof -
  have profile: "readStewardProfile d ''q'' 1 = Some \<lparr>pfr_spec = demo_profile, pfr_created_at = 1\<rparr>"
    if "steward_profiles d = [\<lparr>pfr_spec = demo_profile, pfr_created_at = 1\<rparr>]" for d
    using that by (simp add: readStewardProfile_def demo_profile_def)
  have job: "jb_job_id demo_job = ''j''" "jb_receipt_id demo_job = ''r1''" "jb_space_id demo_job = ''s''"
      "jb_profile_id demo_job = ''q''" "jb_profile_version demo_job = 1" "jb_attempts demo_job = 0"
      "jb_label_set_digest demo_job = digestString (encode_label_set [])" "job_due 5 demo_job"
    by (simp_all add: demo_job_def job_due_def sched_reached_def demo_schedule)
  have db: "steward_jobs (demo_queue j) = [j]" "receipt_processing (demo_queue j) = [demo_processing]"
      "steward_profiles (demo_queue j) = [\<lparr>pfr_spec = demo_profile, pfr_created_at = 1\<rparr>]"
      "receipts (demo_queue j) = [demo_receipt]" "evidence_sources (demo_queue j) = []" "semantic_records (demo_queue j) = []"
      "semantic_fts (demo_queue j) = []" "semantic_space_indexes (demo_queue j) = [(''s'', semanticSpaceIndexTable ''s'')]" for j
    by (simp_all add: demo_queue_def demo_indexed_def demo_defs)
  have input: "pf_max_input_bytes demo_profile = 131072" by (simp add: demo_profile_def)
  show ?thesis
    unfolding claim_tx_def demo_swept demo_selected option.case Let_def
    by (simp add: job db profile demo_reads demo_fit input tbl_affected_def persistStewardReadSet_def
        read_set_entries_def demo_work_def del: One_nat_def)
       (simp add: demo_leased_def demo_queue_def demo_work_request_def demo_processing_def)
qed

lemma demo_store_open [simp]: "requireMutableGeneration demo_store = Inr ()"
  by (simp add: requireMutableGeneration_def demo_store_def)

lemma demo_claim:
  "ClaimStewardJob demo_store demo_analyzer demo_fts (\<lambda>_. 5) (replicate 32 CHR ''x'') Committed second_ns (demo_queue demo_job)
    = (Inr (Some demo_work), demo_leased)"
proof -
  have "list_ex (\<lambda>j. (job_due 5 j \<or> lease_lapsed 5 j) \<and> \<not> forgotten_job (demo_queue demo_job) j) (steward_jobs (demo_queue demo_job))"
    using select_job_Some[OF demo_selected] by (auto simp: list_ex_iff)
  moreover have "claimStewardJob demo_analyzer demo_fts 5 Committed second_ns demo_token (demo_queue demo_job)
      = (Inr (Some demo_work, False), demo_leased)"
    by (simp add: claimStewardJob_def demo_claim_tx commit_tx_def)
  moreover have "randomToken 32 (replicate 32 CHR ''x'') = Some (demo_token, [])"
  proof -
    have "read_random 32 (replicate 32 CHR ''x'') = Some (replicate 32 CHR ''x'', [])" by (simp add: read_random_def)
    then show ?thesis by (simp only: randomToken_def demo_token_def option.map prod.case)
  qed
  moreover have "claim_attempts 4 A F clock out dur tok 1 d = claim_attempts (Suc 3) A F clock out dur tok 1 d"
    for A F clock out dur tok d by simp
  moreover have "minStewardLease \<le> second_ns" "second_ns \<le> maxStewardLease"
    by (simp_all add: minStewardLease_def maxStewardLease_def second_ns_def)
  ultimately show ?thesis
    unfolding ClaimStewardJob_def by (simp only: demo_store_open rbind_simps guard_simps if_True sum.case option.case
        prod.case claim_attempts.simps simp_thms if_False)
qed

lemma demo_lease_job: "steward_jobs demo_leased = [lease_job 5 second_ns demo_token demo_job]"
  by (simp add: demo_leased_def demo_queue_def)

theorem live_lease_kept_witness:
  "let j = lease_job 5 second_ns demo_token demo_job in
   j \<in> set (steward_jobs (snd (ClaimStewardJob demo_store demo_analyzer demo_fts (\<lambda>_. 5) [] Committed second_ns demo_leased)))"
proof -
  let ?j = "lease_job 5 second_ns demo_token demo_job"
  obtain res d' where c: "ClaimStewardJob demo_store demo_analyzer demo_fts (\<lambda>_. 5) [] Committed second_ns demo_leased = (res, d')"
    by fastforce
  have "\<not> lease_lapsed 5 ?j"
    using formatScheduleTime_mono[of 5 "5 + second_ns"]
    by (simp add: lease_lapsed_def lease_job_def sched_reached_def second_ns_def in_years_def day_number_def day_ns_def year_start_def)
  moreover have "\<not> forgotten_job demo_leased ?j"
    by (simp add: forgotten_job_def demo_leased_def demo_queue_def demo_indexed_def demo_defs)
  ultimately show ?thesis
    using live_lease_kept[OF c, of ?j] c by (simp add: demo_lease_job lease_job_def)
qed

theorem claim_hands_out_leased_work_witness: "claim_spec 5 second_ns demo_work demo_leased"
  using claim_hands_out_leased_work[OF demo_claim] by simp

theorem attempts_stay_bounded_witness: "attempts_bounded demo_leased"
proof -
  have "attempts_bounded (demo_queue demo_job)" "distinct (map jb_job_id (steward_jobs (demo_queue demo_job)))"
    by (simp_all add: attempts_bounded_def demo_queue_def demo_job_def)
  from attempts_stay_bounded[OF this, of demo_store demo_analyzer demo_fts "\<lambda>_. 5" "replicate 32 CHR ''x''" Committed second_ns]
  show ?thesis by (simp add: demo_claim)
qed

theorem failure_needs_live_lease_witness:
  "ReportStewardFailure demo_store 6 Committed
     \<lparr>fr_lease = \<lparr>ls_job_id = ''j'', ls_token = ''x''\<rparr>, fr_code = ''timeout'', fr_retryable = True\<rparr> (demo_queue demo_job)
   = (Inl ErrStewardLeaseLost, demo_queue demo_job)"
proof -
  have code: "validStewardFailureCode ''timeout''" by (simp add: validStewardFailureCode_def text_eval)
  have job: "job_of ''j'' (demo_queue demo_job) = Some demo_job" by (simp add: job_of_def demo_queue_def demo_job_def)
  have "\<not> lease_live 6 ''x'' demo_job" by (simp add: lease_live_def demo_job_def)
  then show ?thesis
    using failure_needs_live_lease[OF demo_store_open, of "\<lparr>fr_lease = \<lparr>ls_job_id = ''j'', ls_token = ''x''\<rparr>, fr_code = ''timeout'', fr_retryable = True\<rparr>"
        "demo_queue demo_job" demo_job 6 Committed] code job by simp
qed

end
