(* ===== verification/Steward_Apply.thy ===== *)
theory Steward_Apply
  imports Steward_Queue
begin

text \<open>
  Applying a Worker's proposal, \<open>steward.go\<close> with the read-set revalidation of
  \<open>steward_context.go\<close>: an untrusted proposal is validated, canonicalised and applied under a
  live lease in one transaction, and an exact retry is answered from the stored result. The lemmas
  show that a refused proposal changes nothing, that only a live lease applies, that a retry is
  answered without a second effect, that a proposal cites only receipts the Worker was shown, that
  structured fact heads are out of its reach, and that revisions are append-only.

  Without a \<open>LexiconPolicy\<close> every proposed lexicon term is refused.
\<close>

section \<open>Governance reads\<close>

definition forgottenReceipt :: "db \<Rightarrow> string \<Rightarrow> string \<Rightarrow> bool" where
  "forgottenReceipt d spaceID receiptID \<longleftrightarrow>
     list_ex (\<lambda>b. fb_kind b = BarrierReceiptDeleted \<and> fb_space_id b = spaceID \<and> fb_receipt_id b = receiptID)
       (forgetting_barriers d)"

definition record_barriers :: "db \<Rightarrow> string \<Rightarrow> barrier_row list" where
  "record_barriers d recordID =
    concat (map (\<lambda>br. filter (\<lambda>f. fb_sequence f = br_sequence br \<and> fb_kind f = BarrierReceiptDeleted) (forgetting_barriers d))
      (filter (\<lambda>br. br_record_id br = recordID) (forgetting_barrier_records d)))"

definition forgottenRecord :: "db \<Rightarrow> string \<Rightarrow> bool" where
  "forgottenRecord d recordID \<longleftrightarrow> record_barriers d recordID \<noteq> []"

text \<open>The highest invalidation version and the number of pending barriers.\<close>

definition readRecordGovernanceState :: "db \<Rightarrow> string \<Rightarrow> nat \<times> nat" where
  "readRecordGovernanceState d recordID =
    (let bs = record_barriers d recordID in
     (fold max (map fb_sequence bs) 0, length (filter (\<lambda>b. fb_status b = BarrierPending) bs)))"

definition blankForgottenRevision :: "db \<Rightarrow> string \<Rightarrow> steward_revision \<Rightarrow> steward_revision" where
  "blankForgottenRevision d recordID revision =
    (if fst (readRecordGovernanceState d recordID) \<noteq> 0 then revision\<lparr>sv_text := [], sv_kind := []\<rparr> else revision)"

definition blankForgottenRecordHead :: "db \<Rightarrow> steward_record \<Rightarrow> steward_record" where
  "blankForgottenRecordHead d r =
    (if fst (readRecordGovernanceState d (sr_record_id r)) = 0 then r else r\<lparr>sr_kind := []\<rparr>)"

definition recordMemoryChange ::
  "instant \<Rightarrow> string \<Rightarrow> string \<Rightarrow> string \<Rightarrow> string \<Rightarrow> string \<Rightarrow> db \<Rightarrow> error + db" where
  "recordMemoryChange now spaceID labelDigest kind receiptID recordID d =
    of_opt (Errorf ''record memory change'')
      (insert_change \<lparr>mc_sequence = 0, mc_space_id = spaceID, mc_label_set_digest = labelDigest, mc_kind = kind,
         mc_receipt_id = receiptID, mc_record_id = recordID, mc_changed_at = now\<rparr> d)"

section \<open>Canonical proposals\<close>

definition canonicalStewardProposal :: "proposal \<Rightarrow> proposal \<times> string \<times> int" where
  "canonicalStewardProposal p =
    (let canon = (\<lambda>op. op\<lparr>op_evidence_refs := sort (op_evidence_refs op)\<rparr>);
         canonical = p\<lparr>pr_op := canon (pr_op p), pr_lexicon_terms := sort (pr_lexicon_terms p),
                       pr_ops := map canon (pr_ops p)\<rparr>;
         encoded = json_encode (json_proposal canonical)
     in (canonical, digestString encoded, int (length encoded)))"

section \<open>The read set is still true\<close>

definition validateStewardEvidenceReceipt :: "db \<Rightarrow> job_row \<Rightarrow> string \<Rightarrow> error + unit" where
  "validateStewardEvidenceReceipt d job receiptID =
    rbind (of_opt (ErrStewardConflict ''read dependency receipt is gone'') (receipt_of receiptID d)) (\<lambda>r.
    rbind (guard (rt_space_id r = jb_space_id job \<and> rt_label_set_digest r = jb_label_set_digest job)
      (ErrStewardConflict ''read dependency receipt changed scope'')) (\<lambda>_.
    rbind (guard (\<not> is_corrected d receiptID) (ErrStewardConflict ''read dependency receipt was corrected'')) (\<lambda>_.
    guard (\<not> forgottenReceipt d (jb_space_id job) receiptID)
      (ErrStewardConflict ''read dependency receipt was forgotten''))))"

definition check_dependency_record :: "db \<Rightarrow> job_row \<Rightarrow> string \<Rightarrow> nat \<Rightarrow> error + unit" where
  "check_dependency_record d job recordID revision =
    rbind (of_opt (ErrStewardConflict ''read dependency Record is gone'') (record_of recordID d)) (\<lambda>r.
    guard (sm_space_id r = jb_space_id job \<and> sm_label_set_digest r = jb_label_set_digest job \<and>
        sm_status r = RecordStatusActive \<and> sm_current_revision r = revision)
      (ErrStewardConflict ''read dependency Record changed''))"

text \<open>The two maps of checked records and receipts are threaded through the loop.\<close>

fun check_dependencies ::
  "db \<Rightarrow> job_row \<Rightarrow> (string \<times> nat \<times> string) list \<Rightarrow> (string \<rightharpoonup> nat) \<Rightarrow> string list \<Rightarrow> error + unit" where
  "check_dependencies d job [] checkedRecords checkedReceipts = Inr ()"
| "check_dependencies d job ((recordID, revision, receiptID) # rest) checkedRecords checkedReceipts =
    rbind (if checkedRecords recordID \<noteq> Some revision then check_dependency_record d job recordID revision else Inr ()) (\<lambda>_.
    let checkedRecords = checkedRecords(recordID \<mapsto> revision) in
    if receiptID \<in> set checkedReceipts then check_dependencies d job rest checkedRecords checkedReceipts
    else rbind (validateStewardEvidenceReceipt d job receiptID) (\<lambda>_.
         check_dependencies d job rest checkedRecords (receiptID # checkedReceipts)))"

definition revalidateStewardReadSet :: "db \<Rightarrow> job_row \<Rightarrow> string \<Rightarrow> nat \<Rightarrow> error + (string \<times> nat \<times> string) list" where
  "revalidateStewardReadSet d job jobID attempt =
    (let dependencies = readStewardReadSet d jobID attempt in
     rbind (check_dependencies d job dependencies Map.empty []) (\<lambda>_. Inr dependencies))"

fun check_evidence_refs :: "db \<Rightarrow> job_row \<Rightarrow> string list \<Rightarrow> string list \<Rightarrow> error + unit" where
  "check_evidence_refs d job readReceipts [] = Inr ()"
| "check_evidence_refs d job readReceipts (receiptID # rest) =
    rbind (of_opt (ErrStewardProposalInvalid ''evidence receipt is unavailable'') (receipt_of receiptID d)) (\<lambda>r.
    rbind (guard (rt_space_id r = jb_space_id job)
      (ErrStewardProposalInvalid ''evidence crosses Space boundary'')) (\<lambda>_.
    rbind (guard (rt_label_set_digest r = jb_label_set_digest job)
      (ErrStewardProposalInvalid ''evidence crosses LabelSet boundary'')) (\<lambda>_.
    rbind (guard (receiptID = jb_receipt_id job \<or> receiptID \<in> set readReceipts)
      (ErrStewardProposalInvalid ''evidence receipt was not part of the read context'')) (\<lambda>_.
    rbind (guard (\<not> is_corrected d receiptID)
      (ErrStewardProposalInvalid ''evidence receipt was corrected'')) (\<lambda>_.
    check_evidence_refs d job readReceipts rest)))))"

definition validateStewardEvidence ::
  "db \<Rightarrow> job_row \<Rightarrow> string list \<Rightarrow> (string \<times> nat \<times> string) list \<Rightarrow> error + unit" where
  "validateStewardEvidence d job evidenceRefs readSet =
    rbind (guard (jb_receipt_id job \<in> set evidenceRefs)
      (ErrStewardProposalInvalid ''proposal must cite its job receipt'')) (\<lambda>_.
    check_evidence_refs d job (map (\<lambda>(_, _, receiptID). receiptID) readSet) evidenceRefs)"

section \<open>One operation\<close>

definition stewardMemoryChangeKind :: "steward_op \<Rightarrow> string" where
  "stewardMemoryChangeKind p =
    (case p of OperationAdd \<Rightarrow> ''record_added'' | OperationMerge \<Rightarrow> ''record_merged'' | _ \<Rightarrow> ''record_superseded'')"

text \<open>A trusted host source seeds pending metadata; the model never authors adoption.\<close>

definition pending_metadata :: "source option \<Rightarrow> metadata option" where
  "pending_metadata src =
    (case src of None \<Rightarrow> None
     | Some s \<Rightarrow> if src_subject s = [] then None
         else Some \<lparr>md_subject = src_subject s, md_key = src_fact_key s, md_adoption = AdoptionPending,
           md_valid_from = None, md_valid_until = None, md_conditions = [], md_transition = TransitionEstablish,
           md_related_record_id = []\<rparr>)"

definition create_record ::
  "instant \<Rightarrow> job_row \<Rightarrow> proposal_op \<Rightarrow> metadata option \<Rightarrow> string \<Rightarrow> db \<Rightarrow> error + db" where
  "create_record now job op factMeta recordID d =
    of_opt (Errorf ''create semantic Record'')
      (insert_record \<lparr>sm_record_id = recordID, sm_space_id = jb_space_id job, sm_kind = op_kind op,
         sm_status = RecordStatusActive, sm_current_revision = 1, sm_invalidated_reason = [], sm_created_at = now,
         sm_updated_at = now, sm_label_set = jb_label_set job, sm_label_set_digest = jb_label_set_digest job,
         sm_subject = (case factMeta of None \<Rightarrow> [] | Some m \<Rightarrow> md_subject m),
         sm_fact_key = (case factMeta of None \<Rightarrow> [] | Some m \<Rightarrow> md_key m)\<rparr> d)"

definition advance_record :: "instant \<Rightarrow> job_row \<Rightarrow> proposal_op \<Rightarrow> db \<Rightarrow> error + db" where
  "advance_record now job op d =
    (let recordID = op_target_record_id op in
     rbind (of_opt (ErrStewardConflict [])
       (Option.bind (record_of recordID d) (\<lambda>r. map_option (\<lambda>v. (r, v)) (revision_of recordID (sm_current_revision r) d)))) (\<lambda>(r, v).
     rbind (guard (sm_space_id r = jb_space_id job \<and> sm_label_set_digest r = jb_label_set_digest job \<and>
         sm_status r = RecordStatusActive \<and> sm_current_revision r = op_expected_revision op) (ErrStewardConflict [])) (\<lambda>_.
     rbind (guard (sm_subject r = [] \<and> rv_fact v = None)
       (ErrStewardConflict ''structured fact head is not model-editable'')) (\<lambda>_.
     rbind (if op_operation op = OperationMerge then
         rbind (guard (op_kind op = sm_kind r) (ErrStewardProposalInvalid ''MERGE cannot change Record kind'')) (\<lambda>_.
         guard (list_all (\<lambda>e. e \<in> set (op_evidence_refs op)) (readSemanticEvidenceIDs d recordID (sm_current_revision r)))
           (ErrStewardProposalInvalid ''MERGE must retain current evidence''))
       else Inr ()) (\<lambda>_.
     Inr (d\<lparr>semantic_records := tbl_update
         (\<lambda>x. sm_record_id x = recordID \<and> sm_current_revision x = op_expected_revision op \<and> sm_status x = RecordStatusActive)
         (\<lambda>x. x\<lparr>sm_kind := op_kind op, sm_status := RecordStatusActive, sm_current_revision := op_expected_revision op + 1,
            sm_invalidated_reason := [], sm_updated_at := now\<rparr>) (semantic_records d)\<rparr>))))))"

definition insert_op_evidence :: "string \<Rightarrow> nat \<Rightarrow> string \<Rightarrow> string list \<Rightarrow> db \<Rightarrow> error + db" where
  "insert_op_evidence recordID revision spaceID refs d =
    fold_res (\<lambda>(ordinal, receiptID) d. of_opt (Errorf ''append semantic Evidence'')
        (insert_evidence \<lparr>ev_record_id = recordID, ev_revision = revision, ev_ordinal = ordinal, ev_receipt_id = receiptID,
           ev_space_id = spaceID\<rparr> d)) (enumerate 0 refs) d"

text \<open>The revision, its evidence, the replaced index row and the change entry.\<close>

definition append_revision ::
  "analyzer \<Rightarrow> instant \<Rightarrow> job_row \<Rightarrow> string \<Rightarrow> proposal_op \<Rightarrow> string \<Rightarrow> nat \<Rightarrow> metadata option \<Rightarrow> db \<Rightarrow> error + db" where
  "append_revision A now job jobID op recordID revision factMeta d =
    rbind (of_opt (Errorf ''append semantic Revision'')
      (insert_revision \<lparr>rv_record_id = recordID, rv_revision = revision, rv_space_id = jb_space_id job,
         rv_kind = op_kind op, rv_text = op_text op, rv_operation = op_operation op, rv_job_id = Some jobID,
         rv_created_at = now, rv_fact = factMeta\<rparr> d)) (\<lambda>d.
    rbind (insert_op_evidence recordID revision (jb_space_id job) (op_evidence_refs op) d) (\<lambda>d.
    rbind (of_opt (Errorf ''resolve semantic Space index'') (readSemanticSpaceIndex d (jb_space_id job))) (\<lambda>tableName.
    rbind (of_opt (Errorf ''index semantic Revision'')
      (indexSemanticProjection A tableName recordID revision (op_text op) [] (delete_semantic_projection tableName recordID d))) (\<lambda>d.
    recordMemoryChange now (jb_space_id job) (jb_label_set_digest job) (stewardMemoryChangeKind (op_operation op))
      (jb_receipt_id job) recordID d))))"

definition applyStewardOp ::
  "analyzer \<Rightarrow> instant \<Rightarrow> job_row \<Rightarrow> string \<Rightarrow> source option \<Rightarrow> proposal_op \<Rightarrow> string \<times> db \<Rightarrow>
   error + (apply_result_op \<times> string \<times> db)" where
  "applyStewardOp A now job jobID src op state =
    (case state of (rnd, d) \<Rightarrow>
     if op_operation op = OperationIgnore
     then Inr (\<lparr>aro_operation = OperationIgnore, aro_record_id = [], aro_revision = 0\<rparr>, rnd, d)
     else if op_operation op = OperationAdd then
       rbind (of_opt (Errorf ''create semantic Record identity'') (randomHex 16 rnd)) (\<lambda>(suffix, rnd).
       let recordID = ''record-'' @ suffix; factMeta = pending_metadata src in
       rbind (create_record now job op factMeta recordID d) (\<lambda>d.
       rbind (append_revision A now job jobID op recordID 1 factMeta d) (\<lambda>d.
       Inr (\<lparr>aro_operation = op_operation op, aro_record_id = recordID, aro_revision = 1\<rparr>, rnd, d))))
     else
       rbind (advance_record now job op d) (\<lambda>d.
       rbind (append_revision A now job jobID op (op_target_record_id op) (op_expected_revision op + 1) None d) (\<lambda>d.
       Inr (\<lparr>aro_operation = op_operation op, aro_record_id = op_target_record_id op,
             aro_revision = op_expected_revision op + 1\<rparr>, rnd, d))))"

definition apply_one ::
  "analyzer \<Rightarrow> instant \<Rightarrow> job_row \<Rightarrow> string \<Rightarrow> source option \<Rightarrow> (string \<times> nat \<times> string) list \<Rightarrow> proposal_op \<Rightarrow>
   apply_result_op list \<times> string \<times> db \<Rightarrow> error + (apply_result_op list \<times> string \<times> db)" where
  "apply_one A now job jobID src readSet op state =
    (case state of (results, rnd, d) \<Rightarrow>
     rbind (if op_operation op \<noteq> OperationIgnore
       then validateStewardEvidence d job (op_evidence_refs op) readSet else Inr ()) (\<lambda>_.
     rbind (applyStewardOp A now job jobID src op (rnd, d)) (\<lambda>(applied, rnd, d).
     Inr (results @ [applied], rnd, d))))"

section \<open>The call\<close>

definition applyStewardLexiconTerms :: "job_row \<Rightarrow> string list \<Rightarrow> error + nat" where
  "applyStewardLexiconTerms job terms =
    (if terms = [] then Inr 0
     else if jb_label_set_digest job \<noteq> emptyLabelSetDigest
     then Inl (ErrStewardProposalInvalid ''adaptive lexicon is not LabelSet-scoped'')
     else Inl (ErrStewardProposalInvalid ''adaptive lexicon is experimental and disabled''))"

definition apply_answer :: "proposal \<Rightarrow> apply_result_op list \<Rightarrow> nat \<Rightarrow> apply_result" where
  "apply_answer canonical opResults activated =
    (if IsBatch canonical
     then \<lparr>ar_operation = StewardOpOther [], ar_record_id = [], ar_revision = 0, ar_ops = opResults,
           ar_lexicon_activated = activated, ar_deduplicated_retry = False\<rparr>
     else \<lparr>ar_operation = op_operation (pr_op canonical),
           ar_record_id = (case opResults of [r] \<Rightarrow> aro_record_id r | _ \<Rightarrow> []),
           ar_revision = (case opResults of [r] \<Rightarrow> aro_revision r | _ \<Rightarrow> 0), ar_ops = [],
           ar_lexicon_activated = activated, ar_deduplicated_retry = False\<rparr>)"

definition complete_job :: "instant \<Rightarrow> string \<Rightarrow> apply_result \<Rightarrow> job_row \<Rightarrow> job_row" where
  "complete_job now digest result j =
    j\<lparr>jb_state := JobCompleted, jb_lease_expires_at := None, jb_proposal_digest := digest, jb_result := Some result,
      jb_terminal_error_code := [], jb_updated_at := now\<rparr>"

definition apply_effect ::
  "analyzer \<Rightarrow> instant \<Rightarrow> string \<Rightarrow> string \<Rightarrow> job_row \<Rightarrow> proposal \<Rightarrow> string \<Rightarrow> (string \<times> nat \<times> string) list \<Rightarrow> db \<Rightarrow>
   error + (apply_result \<times> db)" where
  "apply_effect A now rnd jobID job canonical digest readSet d =
    rbind (fold_res (apply_one A now job jobID (readStewardHostSource d (jb_receipt_id job)) readSet)
      (BatchOps canonical) ([], rnd, d)) (\<lambda>(opResults, _, d).
    rbind (applyStewardLexiconTerms job (pr_lexicon_terms canonical)) (\<lambda>activated.
    let result = apply_answer canonical opResults activated;
        target = (\<lambda>j. jb_job_id j = jobID \<and> jb_state j = JobLeased \<and> jb_lease_token_digest j = jb_lease_token_digest job) in
    rbind (guard (tbl_affected target (steward_jobs d) = 1) ErrStewardLeaseLost) (\<lambda>_.
    Inr (result, d\<lparr>steward_jobs := tbl_update target (complete_job now digest result) (steward_jobs d),
      receipt_processing := tbl_update (\<lambda>p. pc_receipt_id p = jb_receipt_id job)
        (\<lambda>p. p\<lparr>pc_state := ProcessingStateOrganized, pc_last_attempt_at := Some now, pc_terminal_error_code := [],
           pc_semantic_generation := jb_profile_id job @ ''@'' @ dec_digits (jb_profile_version job)\<rparr>)
        (receipt_processing d)\<rparr>))))"

text \<open>\<open>Inr (result, None)\<close> answers a retry; \<open>Inr (result, Some d')\<close> is a new effect to commit.\<close>

definition apply_tx ::
  "analyzer \<Rightarrow> instant \<Rightarrow> string \<Rightarrow> lease \<Rightarrow> proposal \<Rightarrow> db \<Rightarrow> error + (apply_result \<times> db option)" where
  "apply_tx A now rnd held p d =
    (case canonicalStewardProposal p of (canonical, digest, encodedSize) \<Rightarrow>
     rbind (of_opt ErrStewardLeaseLost (job_of (ls_job_id held) d)) (\<lambda>job.
     if jb_state job = JobCompleted then
       rbind (guard (jb_lease_token_digest job = digestString (ls_token held)) ErrStewardLeaseLost) (\<lambda>_.
       rbind (guard (jb_proposal_digest job = digest) (ErrStewardConflict [])) (\<lambda>_.
       rbind (of_opt (Errorf ''read completed Steward result'') (jb_result job)) (\<lambda>result.
       Inr (result\<lparr>ar_deduplicated_retry := True\<rparr>, None))))
     else
       rbind (guard (lease_live now (ls_token held) job) ErrStewardLeaseLost) (\<lambda>_.
       rbind (of_opt (Errorf ''read Steward proposal profile'')
         (readStewardProfile d (jb_profile_id job) (jb_profile_version job))) (\<lambda>profile.
       rbind (guard (encodedSize \<le> pf_max_output_bytes (pfr_spec profile))
         (ErrStewardProposalInvalid ''proposal exceeds profile output budget'')) (\<lambda>_.
       rbind (guard (\<not> forgottenReceipt d (jb_space_id job) (jb_receipt_id job)) ErrStewardLeaseLost) (\<lambda>_.
       rbind (revalidateStewardReadSet d job (ls_job_id held) (jb_attempts job)) (\<lambda>readSet.
       rbind (apply_effect A now rnd (ls_job_id held) job canonical digest readSet d) (\<lambda>(result, d').
       Inr (result, Some d')))))))))"

definition ApplyStewardProposal ::
  "store \<Rightarrow> analyzer \<Rightarrow> instant \<Rightarrow> string \<Rightarrow> commit_outcome \<Rightarrow> bool \<Rightarrow> lease \<Rightarrow> proposal \<Rightarrow> db \<Rightarrow> (error + apply_result) \<times> db" where
  "ApplyStewardProposal s A now rnd out afterCommitFault held p d =
    (case rbind (requireMutableGeneration s) (\<lambda>_.
          rbind (map_err ErrStewardProposalInvalid (ValidateShape p)) (\<lambda>_.
          rbind (guard (ls_job_id held \<noteq> [] \<and> ls_token held \<noteq> []) ErrStewardLeaseLost) (\<lambda>_.
          apply_tx A now rnd held p d))) of
       Inl e \<Rightarrow> (Inl e, d)
     | Inr (result, None) \<Rightarrow> (Inr result, d)
     | Inr (result, Some d') \<Rightarrow>
        (case commit_tx out ErrStewardUnknownOutcome d d' result of
           (Inl e, d'') \<Rightarrow> (Inl e, d'')
         | (Inr r, d'') \<Rightarrow> if afterCommitFault then (Inl ErrStewardUnknownOutcome, d'') else (Inr r, d'')))"

section \<open>Reading a record\<close>

definition GetSemanticRecord :: "db \<Rightarrow> string \<Rightarrow> error + (steward_record \<times> steward_revision)" where
  "GetSemanticRecord d recordID =
    rbind (of_opt (Errorf ''sql: no rows in result set'') (record_of recordID d)) (\<lambda>r.
    rbind (map_err Errorf (decodeStoredLabelSet (sm_label_set r) (sm_label_set_digest r))) (\<lambda>labels.
    let head = blankForgottenRecordHead d
          \<lparr>sr_record_id = sm_record_id r, sr_space_id = sm_space_id r, sr_labels = ls_labels labels, sr_kind = sm_kind r,
           sr_status = sm_status r, sr_current_revision = sm_current_revision r,
           sr_invalidated_reason = sm_invalidated_reason r, sr_created_at = sm_created_at r, sr_updated_at = sm_updated_at r\<rparr> in
    rbind (of_opt (Errorf ''sql: no rows in result set'') (revision_of recordID (sm_current_revision r) d)) (\<lambda>v.
    Inr (head, blankForgottenRevision d recordID
      \<lparr>sv_record_id = rv_record_id v, sv_revision = rv_revision v, sv_space_id = rv_space_id v, sv_kind = rv_kind v,
       sv_text = rv_text v, sv_operation = rv_operation v, sv_job_id = (case rv_job_id v of None \<Rightarrow> [] | Some j \<Rightarrow> j),
       sv_evidence = map (\<lambda>e. (e, sm_space_id r)) (readSemanticEvidenceIDs d recordID (sm_current_revision r)),
       sv_created_at = rv_created_at v\<rparr>))))"

section \<open>What one operation writes\<close>

text \<open>Everything but the record tables, the semantic index and the change log stays.\<close>

definition erase_semantic :: "db \<Rightarrow> db" where
  "erase_semantic d = d\<lparr>semantic_records := [], semantic_revisions := [], semantic_evidence := [], semantic_fts := [],
     memory_changes := [], memory_changes_seq := 0\<rparr>"

definition semantic_frame :: "db \<Rightarrow> db \<Rightarrow> bool" where
  "semantic_frame d d' \<longleftrightarrow> erase_semantic d' = erase_semantic d"

lemma semantic_frame_refl [simp]: "semantic_frame d d"
  by (simp add: semantic_frame_def)

lemma semantic_frame_trans: "semantic_frame d d1 \<Longrightarrow> semantic_frame d1 d2 \<Longrightarrow> semantic_frame d d2"
  by (simp add: semantic_frame_def)

lemma semantic_frame_records [simp]: "semantic_frame d (d\<lparr>semantic_records := rs\<rparr>)"
  by (simp add: semantic_frame_def erase_semantic_def)

lemma semantic_frameD:
  assumes "semantic_frame d d'"
  shows "receipts d' = receipts d" "receipt_corrections d' = receipt_corrections d" "steward_jobs d' = steward_jobs d"
    "steward_read_set d' = steward_read_set d" "forgetting_barriers d' = forgetting_barriers d"
    "evidence_sources d' = evidence_sources d" "steward_profiles d' = steward_profiles d"
    "receipt_processing d' = receipt_processing d" "forgetting_barrier_records d' = forgetting_barrier_records d"
    "spaces d' = spaces d" "semantic_space_indexes d' = semantic_space_indexes d"
proof -
  have sel: "f (erase_semantic d') = f (erase_semantic d)" for f :: "db \<Rightarrow> 'x"
    using assms by (simp add: semantic_frame_def)
  show "receipts d' = receipts d" using sel[of receipts] by (simp add: erase_semantic_def)
  show "receipt_corrections d' = receipt_corrections d" using sel[of receipt_corrections] by (simp add: erase_semantic_def)
  show "steward_jobs d' = steward_jobs d" using sel[of steward_jobs] by (simp add: erase_semantic_def)
  show "steward_read_set d' = steward_read_set d" using sel[of steward_read_set] by (simp add: erase_semantic_def)
  show "forgetting_barriers d' = forgetting_barriers d" using sel[of forgetting_barriers] by (simp add: erase_semantic_def)
  show "evidence_sources d' = evidence_sources d" using sel[of evidence_sources] by (simp add: erase_semantic_def)
  show "steward_profiles d' = steward_profiles d" using sel[of steward_profiles] by (simp add: erase_semantic_def)
  show "receipt_processing d' = receipt_processing d" using sel[of receipt_processing] by (simp add: erase_semantic_def)
  show "forgetting_barrier_records d' = forgetting_barrier_records d"
    using sel[of forgetting_barrier_records] by (simp add: erase_semantic_def)
  show "spaces d' = spaces d" using sel[of spaces] by (simp add: erase_semantic_def)
  show "semantic_space_indexes d' = semantic_space_indexes d" using sel[of semantic_space_indexes] by (simp add: erase_semantic_def)
qed

lemma insert_op_evidence_tables:
  assumes "insert_op_evidence recordID revision spaceID refs d = Inr d'"
  shows "\<exists>es. d' = d\<lparr>semantic_evidence := semantic_evidence d @ es\<rparr> \<and>
    map ev_receipt_id es = refs \<and> (\<forall>e\<in>set es. ev_record_id e = recordID \<and> ev_revision e = revision)"
proof -
  have "\<exists>es. d' = d\<lparr>semantic_evidence := semantic_evidence d @ es\<rparr> \<and> map ev_receipt_id es = map snd xs \<and>
      (\<forall>e\<in>set es. ev_record_id e = recordID \<and> ev_revision e = revision)"
    if "fold_res (\<lambda>(ordinal, receiptID) d. of_opt (Errorf ''append semantic Evidence'')
        (insert_evidence \<lparr>ev_record_id = recordID, ev_revision = revision, ev_ordinal = ordinal, ev_receipt_id = receiptID,
           ev_space_id = spaceID\<rparr> d)) xs d = Inr d'" for xs d
    using that
  proof (induction xs arbitrary: d)
    case Nil
    then show ?case by (intro exI[of _ "[]"]) simp
  next
    case (Cons x xs)
    obtain n e where x: "x = (n, e)" by (cases x)
    let ?row = "\<lparr>ev_record_id = recordID, ev_revision = revision, ev_ordinal = n, ev_receipt_id = e, ev_space_id = spaceID\<rparr>"
    from Cons.prems x obtain d1 where d1: "insert_evidence ?row d = Some d1"
      and rest: "fold_res (\<lambda>(ordinal, receiptID) d. of_opt (Errorf ''append semantic Evidence'')
        (insert_evidence \<lparr>ev_record_id = recordID, ev_revision = revision, ev_ordinal = ordinal, ev_receipt_id = receiptID,
           ev_space_id = spaceID\<rparr> d)) xs d1 = Inr d'"
      by (auto elim!: run_elims)
    from Cons.IH[OF rest] obtain es where es: "d' = d1\<lparr>semantic_evidence := semantic_evidence d1 @ es\<rparr>"
      "map ev_receipt_id es = map snd xs" "\<forall>e\<in>set es. ev_record_id e = recordID \<and> ev_revision e = revision" by blast
    have "d1 = d\<lparr>semantic_evidence := semantic_evidence d @ [?row]\<rparr>"
      using d1 by (simp add: insert_evidence_def tbl_simps)
    with es x show ?case by (intro exI[of _ "?row # es"]) simp
  qed
  from this[of "enumerate 0 refs"] assms show ?thesis by (simp add: insert_op_evidence_def)
qed

lemma recordMemoryChange_tables:
  assumes "recordMemoryChange now spaceID labelDigest kind receiptID recordID d = Inr d'"
  shows "\<exists>c. d' = d\<lparr>memory_changes := memory_changes d @ [c], memory_changes_seq := memory_changes_seq d + 1\<rparr> \<and>
    mc_sequence c = memory_changes_seq d + 1 \<and> mc_space_id c = spaceID \<and> mc_label_set_digest c = labelDigest \<and>
    mc_kind c = kind \<and> mc_receipt_id c = receiptID \<and> mc_record_id c = recordID"
  using assms
  by (auto simp: recordMemoryChange_def insert_change_def Let_def tbl_simps elim!: run_elims)

lemma append_revision_tables:
  assumes "append_revision A now job jobID op recordID revision factMeta d = Inr d'"
  shows "semantic_frame d d' \<and> semantic_records d' = semantic_records d \<and>
    (\<exists>v. semantic_revisions d' = semantic_revisions d @ [v] \<and> rv_record_id v = recordID \<and> rv_revision v = revision \<and>
       rv_job_id v = Some jobID \<and> rv_text v = op_text op \<and> rv_fact v = factMeta \<and>
       (recordID, revision) \<notin> (\<lambda>v. (rv_record_id v, rv_revision v)) ` set (semantic_revisions d)) \<and>
    (\<exists>es. semantic_evidence d' = semantic_evidence d @ es \<and> map ev_receipt_id es = op_evidence_refs op \<and>
       (\<forall>e\<in>set es. ev_record_id e = recordID \<and> ev_revision e = revision))"
proof -
  obtain d1 d2 tableName d3 where
    1: "insert_revision \<lparr>rv_record_id = recordID, rv_revision = revision, rv_space_id = jb_space_id job,
         rv_kind = op_kind op, rv_text = op_text op, rv_operation = op_operation op, rv_job_id = Some jobID,
         rv_created_at = now, rv_fact = factMeta\<rparr> d = Some d1"
    and 2: "insert_op_evidence recordID revision (jb_space_id job) (op_evidence_refs op) d1 = Inr d2"
    and 3: "indexSemanticProjection A tableName recordID revision (op_text op) [] (delete_semantic_projection tableName recordID d2) = Some d3"
    and 4: "recordMemoryChange now (jb_space_id job) (jb_label_set_digest job) (stewardMemoryChangeKind (op_operation op))
      (jb_receipt_id job) recordID d3 = Inr d'"
    using assms unfolding append_revision_def by (elim run_elims)
  from 1 have d1: "\<exists>v. d1 = d\<lparr>semantic_revisions := semantic_revisions d @ [v]\<rparr> \<and> rv_record_id v = recordID \<and>
      rv_revision v = revision \<and> rv_job_id v = Some jobID \<and> rv_text v = op_text op \<and> rv_fact v = factMeta \<and>
      (recordID, revision) \<notin> (\<lambda>v. (rv_record_id v, rv_revision v)) ` set (semantic_revisions d)"
    by (auto simp: insert_revision_def tbl_simps clash_on_def image_iff)
  note d2 = insert_op_evidence_tables[OF 2]
  from 3 have d3: "\<exists>fs. d3 = d2\<lparr>semantic_fts := fs\<rparr>"
    by (auto simp: indexSemanticProjection_def delete_semantic_projection_def)
  note d4 = recordMemoryChange_tables[OF 4]
  from d1 d2 d3 d4 obtain v es fs c where
    "d1 = d\<lparr>semantic_revisions := semantic_revisions d @ [v]\<rparr>" "d2 = d1\<lparr>semantic_evidence := semantic_evidence d1 @ es\<rparr>"
    "d3 = d2\<lparr>semantic_fts := fs\<rparr>"
    "d' = d3\<lparr>memory_changes := memory_changes d3 @ [c], memory_changes_seq := memory_changes_seq d3 + 1\<rparr>"
    and v: "rv_record_id v = recordID" "rv_revision v = revision" "rv_job_id v = Some jobID" "rv_text v = op_text op"
      "rv_fact v = factMeta" "(recordID, revision) \<notin> (\<lambda>v. (rv_record_id v, rv_revision v)) ` set (semantic_revisions d)"
    and es: "map ev_receipt_id es = op_evidence_refs op" "\<forall>e\<in>set es. ev_record_id e = recordID \<and> ev_revision e = revision"
    by blast
  then have d': "d' = d\<lparr>semantic_revisions := semantic_revisions d @ [v], semantic_evidence := semantic_evidence d @ es,
      semantic_fts := fs, memory_changes := memory_changes d @ [c], memory_changes_seq := memory_changes_seq d + 1\<rparr>" by simp
  have "semantic_frame d d'"
    unfolding d' by (simp add: semantic_frame_def erase_semantic_def)
  with d' v es show ?thesis by auto
qed

section \<open>The revision history of a record\<close>

text \<open>Record identities are unique, the revisions of a record are numbered \<open>1..current\<close>, and every
  revision belongs to a record.\<close>

definition revision_numbers :: "db \<Rightarrow> string \<Rightarrow> nat set" where
  "revision_numbers d recordID = {rv_revision v | v. v \<in> set (semantic_revisions d) \<and> rv_record_id v = recordID}"

definition history_ok :: "db \<Rightarrow> bool" where
  "history_ok d \<longleftrightarrow> distinct (map sm_record_id (semantic_records d)) \<and>
     (\<forall>r\<in>set (semantic_records d). revision_numbers d (sm_record_id r) = {1..sm_current_revision r}) \<and>
     (\<forall>v\<in>set (semantic_revisions d). rv_record_id v \<in> sm_record_id ` set (semantic_records d))"

lemma revision_numbers_snoc:
  assumes "semantic_revisions d' = semantic_revisions d @ [v]"
  shows "revision_numbers d' k = (if rv_record_id v = k then insert (rv_revision v) (revision_numbers d k) else revision_numbers d k)"
  using assms by (auto simp: revision_numbers_def)

lemma history_add:
  assumes "history_ok d" and "semantic_records d' = semantic_records d @ [r]" and "sm_record_id r \<notin> sm_record_id ` set (semantic_records d)"
    and "semantic_revisions d' = semantic_revisions d @ [v]" and "rv_record_id v = sm_record_id r"
    and "rv_revision v = 1" "sm_current_revision r = 1"
  shows "history_ok d'"
proof -
  have "rv_record_id w \<noteq> sm_record_id r" if "w \<in> set (semantic_revisions d)" for w
    using assms(1,3) that unfolding history_ok_def by metis
  then have "revision_numbers d (sm_record_id r) = {}" by (auto simp: revision_numbers_def)
  then show ?thesis
    using assms unfolding history_ok_def by (auto simp: revision_numbers_snoc[OF assms(4)])
qed

lemma history_advance:
  assumes "history_ok d" and "r \<in> set (semantic_records d)"
    and "semantic_records d' = tbl_update (\<lambda>x. sm_record_id x = sm_record_id r \<and> p x) f (semantic_records d)" and "p r"
    and "\<And>x. sm_record_id (f x) = sm_record_id x" and "sm_current_revision (f r) = sm_current_revision r + 1"
    and "semantic_revisions d' = semantic_revisions d @ [v]" and "rv_record_id v = sm_record_id r"
    and "rv_revision v = sm_current_revision r + 1"
  shows "history_ok d'"
proof -
  have uniq: "x = r" if "x \<in> set (semantic_records d)" "sm_record_id x = sm_record_id r" for x
    using assms(1,2) that plain_key.key_unique[of sm_record_id] by (auto simp: history_ok_def)
  have ids: "map sm_record_id (semantic_records d') = map sm_record_id (semantic_records d)"
    unfolding assms(3) by (rule map_tbl_update) (rule assms(5))
  then have id_set: "sm_record_id ` set (semantic_records d') = sm_record_id ` set (semantic_records d)"
    by (metis set_map)
  have "revision_numbers d' (sm_record_id y) = {1..sm_current_revision y}" if y: "y \<in> set (semantic_records d')" for y
  proof (cases "sm_record_id y = sm_record_id r")
    case True
    then have "y = f r" using y uniq assms(4,5) unfolding assms(3) by (auto simp: tbl_simps)
    then show ?thesis
      using assms(1,2,6) unfolding history_ok_def revision_numbers_snoc[OF assms(7)]
      by (auto simp: assms(5,8,9))
  next
    case False
    then have "y \<in> set (semantic_records d)" using y assms(5) unfolding assms(3) by (auto simp: tbl_simps)
    then show ?thesis
      using assms(1) False unfolding history_ok_def revision_numbers_snoc[OF assms(7)] by (auto simp: assms(8))
  qed
  moreover have "rv_record_id w \<in> sm_record_id ` set (semantic_records d')" if "w \<in> set (semantic_revisions d')" for w
    using assms(1,2,8) that unfolding id_set assms(7) history_ok_def by auto
  ultimately show ?thesis using assms(1) ids unfolding history_ok_def by simp
qed

section \<open>What a proposal may write\<close>

text \<open>\<open>proposal_writes job Q\<close>: revisions and evidence are only appended, every new evidence receipt
  satisfies \<open>Q\<close>, and a record that is structured, inactive or of another Space is untouched. A head is
  structured when its row has a host subject or its current revision has fact metadata.\<close>

definition protected_record :: "job_row \<Rightarrow> semantic_row \<Rightarrow> bool" where
  "protected_record job r \<longleftrightarrow> sm_subject r \<noteq> [] \<or> sm_space_id r \<noteq> jb_space_id job \<or>
     sm_label_set_digest r \<noteq> jb_label_set_digest job \<or> sm_status r \<noteq> RecordStatusActive"

definition structured_head :: "db \<Rightarrow> semantic_row \<Rightarrow> bool" where
  "structured_head d r \<longleftrightarrow> sm_subject r \<noteq> [] \<or>
     (\<exists>v. revision_of (sm_record_id r) (sm_current_revision r) d = Some v \<and> rv_fact v \<noteq> None)"

definition proposal_writes :: "job_row \<Rightarrow> (string \<Rightarrow> bool) \<Rightarrow> db \<Rightarrow> db \<Rightarrow> bool" where
  "proposal_writes job Q d d' \<longleftrightarrow> semantic_frame d d' \<and> (history_ok d \<longrightarrow> history_ok d') \<and>
     (\<exists>vs. semantic_revisions d' = semantic_revisions d @ vs) \<and>
     (\<exists>es. semantic_evidence d' = semantic_evidence d @ es \<and> (\<forall>e\<in>set es. Q (ev_receipt_id e))) \<and>
     (history_ok d \<longrightarrow> (\<forall>r\<in>set (semantic_records d). protected_record job r \<or> structured_head d r \<longrightarrow> r \<in> set (semantic_records d')))"

lemma proposal_writes_refl [simp]: "proposal_writes job Q d d"
  by (auto simp: proposal_writes_def)

lemma structured_head_append:
  "structured_head d r \<Longrightarrow> semantic_revisions d' = semantic_revisions d @ vs \<Longrightarrow> structured_head d' r"
  by (auto simp: structured_head_def revision_of_def split: option.splits)

lemma proposal_writes_trans:
  assumes "proposal_writes job Q d d1" and "proposal_writes job Q d1 d2"
  shows "proposal_writes job Q d d2"
proof -
  have "\<exists>es. semantic_evidence d2 = semantic_evidence d @ es \<and> (\<forall>e\<in>set es. Q (ev_receipt_id e))"
  proof -
    obtain es es' where "semantic_evidence d1 = semantic_evidence d @ es" "semantic_evidence d2 = semantic_evidence d1 @ es'"
      "\<forall>e\<in>set es. Q (ev_receipt_id e)" "\<forall>e\<in>set es'. Q (ev_receipt_id e)"
      using assms by (auto simp: proposal_writes_def)
    then show ?thesis by (intro exI[of _ "es @ es'"]) auto
  qed
  moreover have "structured_head d1 r" if "structured_head d r" for r
    using assms(1) that structured_head_append unfolding proposal_writes_def by blast
  ultimately show ?thesis using assms semantic_frame_trans unfolding proposal_writes_def by auto
qed

lemma advance_record_InrE:
  assumes "advance_record now job op d = Inr d'"
  obtains r v where "record_of (op_target_record_id op) d = Some r" and "revision_of (op_target_record_id op) (sm_current_revision r) d = Some v"
    and "\<not> protected_record job r" and "rv_fact v = None" and "sm_current_revision r = op_expected_revision op"
    and "op_operation op = OperationMerge \<Longrightarrow> op_kind op = sm_kind r \<and>
      set (readSemanticEvidenceIDs d (op_target_record_id op) (sm_current_revision r)) \<subseteq> set (op_evidence_refs op)"
    and "d' = d\<lparr>semantic_records := tbl_update
         (\<lambda>x. sm_record_id x = op_target_record_id op \<and> sm_current_revision x = op_expected_revision op \<and> sm_status x = RecordStatusActive)
         (\<lambda>x. x\<lparr>sm_kind := op_kind op, sm_status := RecordStatusActive, sm_current_revision := op_expected_revision op + 1,
            sm_invalidated_reason := [], sm_updated_at := now\<rparr>) (semantic_records d)\<rparr>"
  using assms unfolding advance_record_def Let_def
  by (elim run_elims; clarsimp simp: Option.bind_eq_Some_conv split: if_splits elim!: run_elims)
     (rule that; auto simp: protected_record_def list_all_iff)+

lemma record_of_stored: "record_of k d = Some r \<Longrightarrow> r \<in> set (semantic_records d) \<and> sm_record_id r = k"
  unfolding record_of_def by (rule find_Some_iff2)

lemma advance_writes:
  assumes "advance_record now job op d = Inr d1"
    and "append_revision A now job jobID op (op_target_record_id op) (op_expected_revision op + 1) None d1 = Inr d'"
    and "\<forall>e\<in>set (op_evidence_refs op). Q e"
  shows "proposal_writes job Q d d'"
  using assms(1)
proof (rule advance_record_InrE)
  fix r v
  assume r: "record_of (op_target_record_id op) d = Some r" "\<not> protected_record job r" "sm_current_revision r = op_expected_revision op"
    and v: "revision_of (op_target_record_id op) (sm_current_revision r) d = Some v" "rv_fact v = None"
  let ?f = "\<lambda>x. x\<lparr>sm_kind := op_kind op, sm_status := RecordStatusActive, sm_current_revision := op_expected_revision op + 1,
            sm_invalidated_reason := [], sm_updated_at := now\<rparr>"
  let ?p = "\<lambda>x. sm_current_revision x = op_expected_revision op \<and> sm_status x = RecordStatusActive"
  assume d1: "d1 = d\<lparr>semantic_records := tbl_update (\<lambda>x. sm_record_id x = op_target_record_id op \<and> ?p x) ?f (semantic_records d)\<rparr>"
  note stored = record_of_stored[OF r(1)]
  have ids: "op_target_record_id op = sm_record_id r" using stored by simp
  have pr: "?p r" using r by (simp add: protected_record_def)
  note ap = append_revision_tables[OF assms(2)]
  obtain v' where v': "semantic_revisions d' = semantic_revisions d1 @ [v']" "rv_record_id v' = sm_record_id r"
      "rv_revision v' = sm_current_revision r + 1"
    using ap ids r(3) by auto
  have recs: "semantic_records d' = tbl_update (\<lambda>x. sm_record_id x = sm_record_id r \<and> ?p x) ?f (semantic_records d)"
    using ap d1 ids by simp
  have frame: "semantic_frame d d'" using ap d1 semantic_frame_trans[of d d1 d'] by simp
  have hist: "history_ok d'" if "history_ok d"
    by (rule history_advance[OF that _ recs pr]) (use stored v' r(3) d1 in simp_all)
  have kept: "x \<in> set (semantic_records d')" if "history_ok d" "x \<in> set (semantic_records d)" "protected_record job x \<or> structured_head d x" for x
  proof -
    have "\<not> structured_head d r" using v ids r(2) by (simp add: structured_head_def protected_record_def)
    then have "sm_record_id x \<noteq> sm_record_id r"
      using that stored r(2) plain_key.key_unique[of sm_record_id "semantic_records d" x r] by (auto simp: history_ok_def)
    then show ?thesis using that(2) unfolding recs by (auto simp: tbl_simps)
  qed
  have ev: "\<exists>es. semantic_evidence d' = semantic_evidence d @ es \<and> (\<forall>e\<in>set es. Q (ev_receipt_id e))"
  proof -
    obtain es where "semantic_evidence d' = semantic_evidence d1 @ es" "map ev_receipt_id es = op_evidence_refs op" using ap by blast
    moreover from this(2) have "\<forall>e\<in>set es. ev_receipt_id e \<in> set (op_evidence_refs op)" by (metis image_eqI set_map)
    ultimately show ?thesis using assms(3) d1 by auto
  qed
  show ?thesis unfolding proposal_writes_def using frame hist kept ev v'(1) d1 by auto
qed

lemma add_writes:
  assumes "create_record now job op factMeta recordID d = Inr d1"
    and "append_revision A now job jobID op recordID 1 factMeta d1 = Inr d'"
    and "\<forall>e\<in>set (op_evidence_refs op). Q e"
  shows "proposal_writes job Q d d'"
proof -
  obtain r :: semantic_row where ins: "insert_record r d = Some d1" and r: "sm_record_id r = recordID" "sm_current_revision r = 1"
    using assms(1) unfolding create_record_def by (elim run_elims) (rule that, assumption, simp_all)
  from ins have d1: "d1 = d\<lparr>semantic_records := semantic_records d @ [r]\<rparr>"
    and fresh: "sm_record_id r \<notin> sm_record_id ` set (semantic_records d)"
    by (auto simp: insert_record_def tbl_simps clash_on_def image_iff)
  note ap = append_revision_tables[OF assms(2)]
  obtain v where v: "semantic_revisions d' = semantic_revisions d @ [v]" "rv_record_id v = sm_record_id r" "rv_revision v = 1"
    using ap d1 r(1) by auto
  have recs: "semantic_records d' = semantic_records d @ [r]" using ap d1 by simp
  have "semantic_frame d d'" using ap d1 semantic_frame_trans[of d d1 d'] by simp
  moreover have "history_ok d'" if "history_ok d"
    by (rule history_add[OF that recs fresh v(1,2,3) r(2)])
  moreover have "\<exists>es. semantic_evidence d' = semantic_evidence d @ es \<and> (\<forall>e\<in>set es. Q (ev_receipt_id e))"
  proof -
    obtain es where "semantic_evidence d' = semantic_evidence d1 @ es" "map ev_receipt_id es = op_evidence_refs op" using ap by blast
    moreover from this(2) have "\<forall>e\<in>set es. ev_receipt_id e \<in> set (op_evidence_refs op)" by (metis image_eqI set_map)
    ultimately show ?thesis using assms(3) d1 by auto
  qed
  ultimately show ?thesis unfolding proposal_writes_def using recs v(1) by auto
qed

lemma applyStewardOp_writes:
  assumes "applyStewardOp A now job jobID src op (rnd, d) = Inr (applied, rnd', d')"
    and "op_operation op \<noteq> OperationIgnore \<Longrightarrow> \<forall>e\<in>set (op_evidence_refs op). Q e"
  shows "proposal_writes job Q d d'"
proof -
  consider "op_operation op = OperationIgnore" "d' = d"
    | factMeta recordID d1 where "op_operation op \<noteq> OperationIgnore" "create_record now job op factMeta recordID d = Inr d1"
        "append_revision A now job jobID op recordID 1 factMeta d1 = Inr d'"
    | d1 where "op_operation op \<noteq> OperationIgnore" "advance_record now job op d = Inr d1"
        "append_revision A now job jobID op (op_target_record_id op) (op_expected_revision op + 1) None d1 = Inr d'"
    using assms(1) unfolding applyStewardOp_def Let_def by (auto split: if_splits elim!: run_elims)
  then show ?thesis
  proof cases
    case 1
    then show ?thesis by simp
  next
    case 2
    show ?thesis by (rule add_writes[OF 2(2,3) assms(2)[OF 2(1)]])
  next
    case 3
    show ?thesis by (rule advance_writes[OF 3(2,3) assms(2)[OF 3(1)]])
  qed
qed

text \<open>The receipts a proposal may cite: the job's own and those of the read set, all uncorrected and
  of the job's Space and label partition.\<close>

definition citable :: "db \<Rightarrow> job_row \<Rightarrow> (string \<times> nat \<times> string) list \<Rightarrow> string \<Rightarrow> bool" where
  "citable d job readSet e \<longleftrightarrow> (e = jb_receipt_id job \<or> (\<exists>recordID revision. (recordID, revision, e) \<in> set readSet)) \<and>
     receipt_visible d (jb_space_id job) (jb_label_set_digest job) e"

lemma check_evidence_refs_visible:
  assumes "check_evidence_refs d job readReceipts refs = Inr ()" and "e \<in> set refs"
  shows "(e = jb_receipt_id job \<or> e \<in> set readReceipts) \<and> receipt_visible d (jb_space_id job) (jb_label_set_digest job) e"
  using assms
  by (induction refs) (auto elim!: run_elims simp: receipt_visible_def dest: receipt_of_stored)

lemma validateStewardEvidence_citable:
  assumes "validateStewardEvidence d job refs readSet = Inr ()"
  shows "jb_receipt_id job \<in> set refs \<and> (\<forall>e\<in>set refs. citable d job readSet e)"
proof -
  have "jb_receipt_id job \<in> set refs" and refs: "check_evidence_refs d job (map (\<lambda>(_, _, receiptID). receiptID) readSet) refs = Inr ()"
    using assms unfolding validateStewardEvidence_def by (elim run_elims; simp)+
  moreover have "citable d job readSet e" if "e \<in> set refs" for e
    using check_evidence_refs_visible[OF refs that] unfolding citable_def by auto
  ultimately show ?thesis by blast
qed

lemma citable_frame: "semantic_frame d d' \<Longrightarrow> citable d' job readSet e = citable d job readSet e"
  by (simp add: citable_def receipt_visible_def is_corrected_def semantic_frameD)

lemma apply_ops_writes:
  assumes "fold_res (apply_one A now job jobID src readSet) ops (results, rnd, d) = Inr (results', rnd', d')"
  shows "proposal_writes job (citable d job readSet) d d'"
proof -
  have "proposal_writes job (citable d job readSet) d (snd (snd (results', rnd', d')))"
  proof (rule fold_res_invariant[OF assms])
    fix op s s' assume inv: "proposal_writes job (citable d job readSet) d (snd (snd s))"
      and step: "apply_one A now job jobID src readSet op s = Inr s'"
    obtain rs rn dd where s: "s = (rs, rn, dd)" by (cases s)
    from step s obtain applied rn' dd' where ev: "op_operation op \<noteq> OperationIgnore \<Longrightarrow> validateStewardEvidence dd job (op_evidence_refs op) readSet = Inr ()"
      and ap: "applyStewardOp A now job jobID src op (rn, dd) = Inr (applied, rn', dd')" and s': "s' = (rs @ [applied], rn', dd')"
      unfolding apply_one_def by (auto split: if_splits elim!: run_elims)
    have "citable dd job readSet = citable d job readSet"
      using inv s citable_frame by (auto simp: proposal_writes_def)
    then have "proposal_writes job (citable d job readSet) dd dd'"
      using applyStewardOp_writes[OF ap] validateStewardEvidence_citable[OF ev] by metis
    then show "proposal_writes job (citable d job readSet) d (snd (snd s'))"
      using proposal_writes_trans inv s s' by fastforce
  qed simp
  then show ?thesis by simp
qed

section \<open>The transaction\<close>

definition job_digest :: "proposal \<Rightarrow> string" where
  "job_digest p = fst (snd (canonicalStewardProposal p))"

lemma apply_effect_InrE:
  assumes "apply_effect A now rnd jobID job canonical digest readSet d = Inr (result, d')"
  obtains d1 opResults activated where
    "proposal_writes job (citable d job readSet) d d1"
    "result = apply_answer canonical opResults activated"
    "d' = d1\<lparr>steward_jobs := tbl_update (\<lambda>j. jb_job_id j = jobID \<and> jb_state j = JobLeased \<and>
         jb_lease_token_digest j = jb_lease_token_digest job) (complete_job now digest result) (steward_jobs d),
       receipt_processing := tbl_update (\<lambda>p. pc_receipt_id p = jb_receipt_id job)
        (\<lambda>p. p\<lparr>pc_state := ProcessingStateOrganized, pc_last_attempt_at := Some now, pc_terminal_error_code := [],
           pc_semantic_generation := jb_profile_id job @ ''@'' @ dec_digits (jb_profile_version job)\<rparr>)
        (receipt_processing d)\<rparr>"
proof -
  obtain opResults rnd' d1 activated where
    ops: "fold_res (apply_one A now job jobID (readStewardHostSource d (jb_receipt_id job)) readSet)
      (BatchOps canonical) ([], rnd, d) = Inr (opResults, rnd', d1)"
    and res: "result = apply_answer canonical opResults activated"
    and d': "d' = d1\<lparr>steward_jobs := tbl_update (\<lambda>j. jb_job_id j = jobID \<and> jb_state j = JobLeased \<and>
         jb_lease_token_digest j = jb_lease_token_digest job) (complete_job now digest result) (steward_jobs d1),
       receipt_processing := tbl_update (\<lambda>p. pc_receipt_id p = jb_receipt_id job)
        (\<lambda>p. p\<lparr>pc_state := ProcessingStateOrganized, pc_last_attempt_at := Some now, pc_terminal_error_code := [],
           pc_semantic_generation := jb_profile_id job @ ''@'' @ dec_digits (jb_profile_version job)\<rparr>)
        (receipt_processing d1)\<rparr>"
    using assms unfolding apply_effect_def Let_def by (elim run_elims) (auto elim!: run_elims)
  note w = apply_ops_writes[OF ops]
  then have "steward_jobs d1 = steward_jobs d" "receipt_processing d1 = receipt_processing d"
    by (auto simp: proposal_writes_def semantic_frameD)
  with w res d' that show thesis by simp
qed

lemma apply_tx_newE:
  assumes "apply_tx A now rnd held p d = Inr (result, Some d')"
  obtains job readSet canonical where
    "job_of (ls_job_id held) d = Some job" "jb_state job = JobLeased" "lease_live now (ls_token held) job"
    "\<not> forgottenReceipt d (jb_space_id job) (jb_receipt_id job)"
    "readSet = readStewardReadSet d (ls_job_id held) (jb_attempts job)"
    "check_dependencies d job readSet Map.empty [] = Inr ()"
    "apply_effect A now rnd (ls_job_id held) job canonical (job_digest p) readSet d = Inr (result, d')"
proof -
  obtain canonical digest size where c: "canonicalStewardProposal p = (canonical, digest, size)"
    by (cases "canonicalStewardProposal p")
  then have digest: "job_digest p = digest" by (simp add: job_digest_def)
  show thesis
    using assms that unfolding apply_tx_def digest c prod.case
    by (auto simp: revalidateStewardReadSet_def Let_def lease_live_def split: if_splits elim!: run_elims)
qed

lemma apply_tx_replay:
  assumes "job_of (ls_job_id held) d = Some job" "jb_state job = JobCompleted"
    and "jb_lease_token_digest job = digestString (ls_token held)" "jb_proposal_digest job = job_digest p" "jb_result job = Some result"
  shows "apply_tx A now rnd held p d = Inr (result\<lparr>ar_deduplicated_retry := True\<rparr>, None)"
  using assms unfolding apply_tx_def job_digest_def by (simp split: prod.splits)

lemma apply_tx_retryE:
  assumes "apply_tx A now rnd held p d = Inr (result, None)"
  obtains job stored where "job_of (ls_job_id held) d = Some job" "jb_state job = JobCompleted"
    "jb_lease_token_digest job = digestString (ls_token held)" "jb_proposal_digest job = job_digest p" "jb_result job = Some stored"
    "result = stored\<lparr>ar_deduplicated_retry := True\<rparr>"
proof -
  obtain canonical digest size where c: "canonicalStewardProposal p = (canonical, digest, size)"
    by (cases "canonicalStewardProposal p")
  then have digest: "job_digest p = digest" by (simp add: job_digest_def)
  show thesis
    using assms that unfolding apply_tx_def digest c prod.case by (auto split: if_splits elim!: run_elims)
qed

lemma ApplyStewardProposal_cases:
  assumes "ApplyStewardProposal s A now rnd out fault held p d = (res, d')"
  shows "(\<exists>e. res = Inl e \<and> d' = d) \<or>
    (\<exists>r. res = Inr r \<and> d' = d \<and> apply_tx A now rnd held p d = Inr (r, None)) \<or>
    (\<exists>r. apply_tx A now rnd held p d = Inr (r, Some d') \<and> (res = Inr r \<or> res = Inl ErrStewardUnknownOutcome))"
  using assms unfolding ApplyStewardProposal_def
  by (auto simp: commit_tx_def split: sum.splits option.splits commit_outcome.splits prod.splits if_splits elim!: run_elims)

lemma completed_job:
  assumes "job_of k d = Some job" and "jb_state job = JobLeased" and "steward_jobs d' = tbl_update (\<lambda>j. jb_job_id j = k \<and>
    jb_state j = JobLeased \<and> jb_lease_token_digest j = jb_lease_token_digest job) (complete_job now digest result) (steward_jobs d)"
  shows "job_of k d' = Some (complete_job now digest result job)"
proof -
  have "jb_job_id job = k" using assms(1) find_Some_iff2 unfolding job_of_def by fastforce
  then show ?thesis
    using assms find_tbl_update_stable[of "\<lambda>j. jb_job_id j = k" "complete_job now digest result"]
    by (simp add: job_of_def complete_job_def)
qed

text \<open>
  A refused proposal has no effect: whenever \<open>ApplyStewardProposal\<close> returns an error
  other than an unknown commit outcome, the database is exactly as before.
\<close>

theorem apply_atomic:
  assumes "ApplyStewardProposal s A now rnd out fault held p d = (Inl e, d')" and "e \<noteq> ErrStewardUnknownOutcome"
  shows "d' = d"
  using ApplyStewardProposal_cases[OF assms(1)] assms(2) by auto

text \<open>
  An exact retry has no second effect: after a proposal was applied, whether the caller
  learned of it or was left with an unknown outcome, the same lease and proposal are answered with
  the stored result, marked as a deduplicated retry, at any later time and with nothing written.
\<close>

theorem apply_retry_idempotent:
  assumes "ApplyStewardProposal s A now rnd out fault held p d = (res, d')" and "(\<exists>r. res = Inr r) \<or> d' \<noteq> d"
    and "requireMutableGeneration s' = Inr ()"
  shows "\<exists>r. ApplyStewardProposal s' A' now' rnd' out' fault' held p d' = (Inr r, d') \<and> ar_deduplicated_retry r \<and>
    (\<forall>r0. res = Inr r0 \<longrightarrow> r = r0\<lparr>ar_deduplicated_retry := True\<rparr>)"
proof -
  have shape: "ValidateShape p = Inr () \<and> ls_job_id held \<noteq> [] \<and> ls_token held \<noteq> []"
    using assms(1,2) unfolding ApplyStewardProposal_def
    by (auto split: sum.splits option.splits elim!: run_elims simp: result_simps)
  have replay: ?thesis if "apply_tx A' now' rnd' held p d' = Inr (r\<lparr>ar_deduplicated_retry := True\<rparr>, None)"
    "\<forall>r0. res = Inr r0 \<longrightarrow> r0\<lparr>ar_deduplicated_retry := True\<rparr> = r\<lparr>ar_deduplicated_retry := True\<rparr>" for r
    using that shape assms(3) by (auto simp: ApplyStewardProposal_def)
  consider r where "res = Inr r" "d' = d" "apply_tx A now rnd held p d = Inr (r, None)"
    | r where "apply_tx A now rnd held p d = Inr (r, Some d')" "\<forall>r0. res = Inr r0 \<longrightarrow> r0 = r"
    using ApplyStewardProposal_cases[OF assms(1)] assms(2) by auto
  then show ?thesis
  proof cases
    case 1
    from 1(3) show ?thesis
    proof (rule apply_tx_retryE)
      fix job stored assume a: "job_of (ls_job_id held) d = Some job" "jb_state job = JobCompleted"
        "jb_lease_token_digest job = digestString (ls_token held)" "jb_proposal_digest job = job_digest p" "jb_result job = Some stored"
        "r = stored\<lparr>ar_deduplicated_retry := True\<rparr>"
      show ?thesis by (rule replay[of stored]) (use apply_tx_replay[OF a(1-5)] a(6) 1 in simp_all)
    qed
  next
    case 2
    from 2(1) show ?thesis
    proof (rule apply_tx_newE)
      fix job readSet canonical
      assume job: "job_of (ls_job_id held) d = Some job" "jb_state job = JobLeased" "lease_live now (ls_token held) job"
        and eff: "apply_effect A now rnd (ls_job_id held) job canonical (job_digest p) readSet d = Inr (r, d')"
      have "job_of (ls_job_id held) d' = Some (complete_job now (job_digest p) r job)"
        using eff by (rule apply_effect_InrE) (simp add: completed_job[OF job(1,2)])
      from apply_tx_replay[OF this] job(3)
      have "apply_tx A' now' rnd' held p d' = Inr (r\<lparr>ar_deduplicated_retry := True\<rparr>, None)"
        by (simp add: complete_job_def lease_live_def)
      then show ?thesis by (rule replay) (use 2(2) in simp)
    qed
  qed
qed

lemma check_dependencies_sound:
  assumes "check_dependencies d job deps checkedRecords checkedReceipts = Inr ()"
    and "\<And>k n. checkedRecords k = Some n \<Longrightarrow> check_dependency_record d job k n = Inr ()"
    and "\<And>e. e \<in> set checkedReceipts \<Longrightarrow> validateStewardEvidenceReceipt d job e = Inr ()"
    and "(recordID, revision, e) \<in> set deps"
  shows "check_dependency_record d job recordID revision = Inr () \<and> validateStewardEvidenceReceipt d job e = Inr ()"
  using assms
proof (induction d job deps checkedRecords checkedReceipts rule: check_dependencies.induct)
  case (2 d job k n x rest checkedRecords checkedReceipts)
  have rec: "check_dependency_record d job k n = Inr ()"
    using "2.prems"(1,2) by (auto split: if_splits elim!: run_elims simp: Let_def)
  have rcpt: "validateStewardEvidenceReceipt d job x = Inr ()"
    using "2.prems"(1,3) by (auto split: if_splits elim!: run_elims simp: Let_def)
  have upd: "check_dependency_record d job k' n' = Inr ()" if "(checkedRecords(k \<mapsto> n)) k' = Some n'" for k' n'
    using that rec "2.prems"(2) by (auto split: if_splits)
  show ?case
  proof (cases "(recordID, revision, e) = (k, n, x)")
    case True
    then show ?thesis using rec rcpt by simp
  next
    case False
    then have tl: "(recordID, revision, e) \<in> set rest" using "2.prems"(4) by auto
    show ?thesis
    proof (cases "x \<in> set checkedReceipts")
      case True
      then have "check_dependencies d job rest (checkedRecords(k \<mapsto> n)) checkedReceipts = Inr ()"
        using "2.prems"(1) by (auto simp: Let_def split: if_splits elim!: run_elims)
      then show ?thesis using "2.IH"(1)[OF refl True _ upd "2.prems"(3) tl] by blast
    next
      case fresh: False
      then have "check_dependencies d job rest (checkedRecords(k \<mapsto> n)) (x # checkedReceipts) = Inr ()"
        using "2.prems"(1) by (auto simp: Let_def split: if_splits elim!: run_elims)
      moreover have "validateStewardEvidenceReceipt d job y = Inr ()" if "y \<in> set (x # checkedReceipts)" for y
        using that "2.prems"(3) rcpt by auto
      ultimately show ?thesis using "2.IH"(2)[OF refl fresh _ upd _ tl] by blast
    qed
  qed
qed simp

text \<open>
  Claim C36. A proposal takes effect only under a live lease and on the state the Worker saw: the
  job is leased under the presented token and unexpired, its receipt is not forgotten, and every
  record revision of the persisted read set is still the active head of the job's partition while
  every receipt read is still stored there, uncorrected and not forgotten.
\<close>

theorem apply_needs_fresh_lease_and_reads:
  assumes "ApplyStewardProposal s A now rnd out fault held p d = (res, d')" and "d' \<noteq> d"
  shows "\<exists>job. job_of (ls_job_id held) d = Some job \<and> lease_live now (ls_token held) job \<and>
    \<not> forgottenReceipt d (jb_space_id job) (jb_receipt_id job) \<and>
    (\<forall>(recordID, revision, e)\<in>set (readStewardReadSet d (ls_job_id held) (jb_attempts job)).
       (\<exists>r. record_of recordID d = Some r \<and> sm_status r = RecordStatusActive \<and> sm_current_revision r = revision \<and>
          sm_space_id r = jb_space_id job \<and> sm_label_set_digest r = jb_label_set_digest job) \<and>
       receipt_visible d (jb_space_id job) (jb_label_set_digest job) e \<and> \<not> forgottenReceipt d (jb_space_id job) e)"
proof -
  obtain r where "apply_tx A now rnd held p d = Inr (r, Some d')"
    using ApplyStewardProposal_cases[OF assms(1)] assms(2) by blast
  then show ?thesis
  proof (rule apply_tx_newE)
    fix job readSet canonical
    assume job: "job_of (ls_job_id held) d = Some job" "lease_live now (ls_token held) job"
      "\<not> forgottenReceipt d (jb_space_id job) (jb_receipt_id job)"
      and rs: "readSet = readStewardReadSet d (ls_job_id held) (jb_attempts job)"
      and ok: "check_dependencies d job readSet Map.empty [] = Inr ()"
    have "(\<exists>r. record_of recordID d = Some r \<and> sm_status r = RecordStatusActive \<and> sm_current_revision r = revision \<and>
          sm_space_id r = jb_space_id job \<and> sm_label_set_digest r = jb_label_set_digest job) \<and>
       receipt_visible d (jb_space_id job) (jb_label_set_digest job) e \<and> \<not> forgottenReceipt d (jb_space_id job) e"
      if "(recordID, revision, e) \<in> set readSet" for recordID revision e
      using check_dependencies_sound[OF ok _ _ that]
      by (auto simp: check_dependency_record_def validateStewardEvidenceReceipt_def receipt_visible_def
          elim!: run_elims dest: receipt_of_stored)
    then show ?thesis using job rs by blast
  qed
qed

lemma apply_writes:
  assumes "ApplyStewardProposal s A now rnd out fault held p d = (res, d')" and "d' \<noteq> d"
  obtains job d1 where "job_of (ls_job_id held) d = Some job"
    and "proposal_writes job (citable d job (readStewardReadSet d (ls_job_id held) (jb_attempts job))) d d1"
    and "semantic_records d' = semantic_records d1" "semantic_revisions d' = semantic_revisions d1"
      "semantic_evidence d' = semantic_evidence d1"
proof -
  obtain r where "apply_tx A now rnd held p d = Inr (r, Some d')"
    using ApplyStewardProposal_cases[OF assms(1)] assms(2) by blast
  then show thesis
  proof (rule apply_tx_newE)
    fix job readSet canonical
    assume job: "job_of (ls_job_id held) d = Some job" and rs: "readSet = readStewardReadSet d (ls_job_id held) (jb_attempts job)"
      and eff: "apply_effect A now rnd (ls_job_id held) job canonical (job_digest p) readSet d = Inr (r, d')"
    from eff show thesis by (rule apply_effect_InrE) (rule that[OF job], simp_all add: rs)
  qed
qed

text \<open>
  A model cites only what it was shown: every evidence row that a proposal adds names the
  job's own receipt or a receipt of the read set persisted at its claim, stored uncorrected in the
  job's Space and label partition; evidence and revisions already stored are never altered.
\<close>

theorem apply_cites_only_read_receipts:
  assumes "ApplyStewardProposal s A now rnd out fault held p d = (res, d')" and "d' \<noteq> d"
  shows "\<exists>job vs es. job_of (ls_job_id held) d = Some job \<and> semantic_revisions d' = semantic_revisions d @ vs \<and>
    semantic_evidence d' = semantic_evidence d @ es \<and>
    (\<forall>e\<in>set es. citable d job (readStewardReadSet d (ls_job_id held) (jb_attempts job)) (ev_receipt_id e))"
  using apply_writes[OF assms] unfolding proposal_writes_def by metis

text \<open>
  Claim C37. A proposal never edits a structured fact head. From a well-formed history, whatever is
  proposed and whatever becomes of the commit, the history stays well-formed (record identities
  unique, the revisions of every record numbered from 1 to its current one), and every record that
  carries a host subject, or whose current revision carries fact metadata of any kind, or that is
  inactive or lies outside the job's Space or label partition, is still stored unchanged with its
  head revision unchanged.
\<close>

theorem apply_protects_structured_heads:
  assumes "ApplyStewardProposal s A now rnd out fault held p d = (res, d')" and "history_ok d"
  shows "history_ok d' \<and>
    (\<forall>job r. job_of (ls_job_id held) d = Some job \<and> r \<in> set (semantic_records d) \<and>
       (sm_subject r \<noteq> [] \<or>
        (\<exists>v. revision_of (sm_record_id r) (sm_current_revision r) d = Some v \<and> rv_fact v \<noteq> None) \<or>
        sm_status r \<noteq> RecordStatusActive \<or> sm_space_id r \<noteq> jb_space_id job \<or> sm_label_set_digest r \<noteq> jb_label_set_digest job) \<longrightarrow>
       r \<in> set (semantic_records d') \<and>
       (\<forall>v. revision_of (sm_record_id r) (sm_current_revision r) d = Some v \<longrightarrow>
          revision_of (sm_record_id r) (sm_current_revision r) d' = Some v))"
proof (cases "d' = d")
  case True
  then show ?thesis using assms by simp
next
  case False
  obtain job d1 where job: "job_of (ls_job_id held) d = Some job"
    and w: "proposal_writes job (citable d job (readStewardReadSet d (ls_job_id held) (jb_attempts job))) d d1"
    and t: "semantic_records d' = semantic_records d1" "semantic_revisions d' = semantic_revisions d1"
    using apply_writes[OF assms(1) False] by metis
  have "history_ok d'" using w assms(2) t by (simp add: proposal_writes_def history_ok_def revision_numbers_def)
  moreover have "r \<in> set (semantic_records d')" if "r \<in> set (semantic_records d)" "protected_record job r \<or> structured_head d r" for r
    using w assms(2) that t unfolding proposal_writes_def by auto
  moreover have "revision_of k n d' = Some v" if "revision_of k n d = Some v" for k n v
    using w that t by (auto simp: proposal_writes_def revision_of_def)
  ultimately show ?thesis using job by (auto simp: protected_record_def structured_head_def)
qed

section \<open>A concrete application\<close>

definition demo_op :: proposal_op where
  "demo_op = \<lparr>op_operation = OperationAdd, op_target_record_id = [], op_expected_revision = 0, op_kind = ''note'',
     op_text = ''hi'', op_evidence_refs = [''r1'']\<rparr>"

definition demo_proposal :: proposal where
  "demo_proposal = \<lparr>pr_op = demo_op, pr_lexicon_terms = [], pr_policy = [], pr_ops = []\<rparr>"

abbreviation demo_held :: lease where
  "demo_held \<equiv> \<lparr>ls_job_id = ''j'', ls_token = demo_token\<rparr>"

abbreviation demo_leased_job :: job_row where
  "demo_leased_job \<equiv> lease_job 5 second_ns demo_token demo_job"

lemma demo_shape: "ValidateShape demo_proposal = Inr ()"
  by (simp add: ValidateShape_def IsBatch_def demo_proposal_def demo_op_def validateProposalMutation_def
      MaxRecordKindBytes_def MaxRecordTextBytes_def MaxProposalEvidence_def contains_any_def validateLexiconTerms_def
      MaxLexiconTerms_def text_eval)

lemma demo_canonical: "\<exists>digest size. canonicalStewardProposal demo_proposal = (demo_proposal, digest, size) \<and> size \<le> 1024"
  by (simp add: canonicalStewardProposal_def Let_def demo_proposal_def demo_op_def json_proposal_def json_proposal_op_fields_def
      omit_str_def omit_nat_def omit_arr_def json_string_def range_string_ascii json_escape_rune_def)

lemma demo_leased_tables:
  "steward_jobs demo_leased = [demo_leased_job]" "receipts demo_leased = [demo_receipt]" "receipt_corrections demo_leased = []"
  "forgetting_barriers demo_leased = []" "steward_read_set demo_leased = []" "evidence_sources demo_leased = []"
  "semantic_records demo_leased = []" "semantic_revisions demo_leased = []" "semantic_evidence demo_leased = []"
  "semantic_fts demo_leased = []" "memory_changes demo_leased = []"
  "semantic_space_indexes demo_leased = [(''s'', semanticSpaceIndexTable ''s'')]"
  "steward_profiles demo_leased = [\<lparr>pfr_spec = demo_profile, pfr_created_at = 1\<rparr>]"
  "spaces demo_leased = spaces demo_private"
  by (simp_all add: demo_leased_def demo_queue_def demo_indexed_def demo_defs)

lemma demo_spaces: "list_ex (\<lambda>r. sp_id r = ''s'') (spaces demo_private)"
  by (simp add: demo_defs)

lemma demo_leased_job_fields [simp]:
  "jb_job_id demo_leased_job = ''j''" "jb_receipt_id demo_leased_job = ''r1''" "jb_space_id demo_leased_job = ''s''"
  "jb_label_set_digest demo_leased_job = digestString (encode_label_set [])" "jb_state demo_leased_job = JobLeased"
  "jb_lease_token_digest demo_leased_job = digestString demo_token" "jb_attempts demo_leased_job = 1"
  "jb_profile_id demo_leased_job = ''q''" "jb_profile_version demo_leased_job = 1" "jb_label_set demo_leased_job = []"
  by (simp_all add: lease_job_def demo_job_def)

lemma base64url_Nil_iff: "base64url s = [] \<longleftrightarrow> s = []"
  by (cases s rule: base64url.cases) simp_all

lemma demo_token_nonempty: "demo_token \<noteq> []"
  unfolding demo_token_def base64url_Nil_iff by simp

lemma demo_applied_op:
  "\<exists>d1. applyStewardOp demo_analyzer 6 demo_leased_job ''j'' None demo_op (replicate 16 CHR ''x'', demo_leased)
     = Inr (\<lparr>aro_operation = OperationAdd, aro_record_id = ''record-'' @ hex_encode (replicate 16 CHR ''x''), aro_revision = 1\<rparr>, [], d1) \<and>
   steward_jobs d1 = [demo_leased_job] \<and> length (semantic_records d1) = 1"
proof -
  have rnd: "randomHex 16 (replicate 16 CHR ''x'') = Some (hex_encode (replicate 16 CHR ''x''), [])"
  proof -
    have "read_random 16 (replicate 16 CHR ''x'') = Some (replicate 16 CHR ''x'', [])" by (simp add: read_random_def)
    then show ?thesis by (simp only: randomHex_def option.map prod.case)
  qed
  show ?thesis
    unfolding applyStewardOp_def prod.case
    by (simp add: rnd demo_op_def pending_metadata_def create_record_def insert_record_def insert_into_def tbl_insert_def
        demo_leased_tables has_space_def demo_spaces append_revision_def insert_revision_def insert_op_evidence_def
        insert_evidence_def readSemanticSpaceIndex_def indexSemanticProjection_def delete_semantic_projection_def
        demo_proj recordMemoryChange_def insert_change_def Let_def del: replicate.simps)
qed

lemma demo_live: "lease_live 6 demo_token demo_leased_job"
  by (simp add: lease_live_def lease_job_def second_ns_def)

lemma demo_apply:
  obtains result d' where "ApplyStewardProposal demo_store demo_analyzer 6 (replicate 16 CHR ''x'') Committed False demo_held demo_proposal demo_leased
    = (Inr result, d')" and "d' \<noteq> demo_leased"
proof -
  obtain d1 where op: "applyStewardOp demo_analyzer 6 demo_leased_job ''j'' None demo_op (replicate 16 CHR ''x'', demo_leased)
     = Inr (\<lparr>aro_operation = OperationAdd, aro_record_id = ''record-'' @ hex_encode (replicate 16 CHR ''x''), aro_revision = 1\<rparr>, [], d1)"
    "steward_jobs d1 = [demo_leased_job]" "length (semantic_records d1) = 1" using demo_applied_op by blast
  obtain digest size where can: "canonicalStewardProposal demo_proposal = (demo_proposal, digest, size)" "size \<le> 1024"
    using demo_canonical by blast
  have ev: "validateStewardEvidence demo_leased demo_leased_job [''r1''] [] = Inr ()"
    by (simp add: validateStewardEvidence_def receipt_of_def demo_leased_tables is_corrected_def) (simp add: demo_receipt_def)
  have src: "readStewardHostSource demo_leased ''r1'' = None" by (simp add: readStewardHostSource_def demo_leased_tables)
  have one: "apply_one demo_analyzer 6 demo_leased_job ''j'' None [] demo_op ([], replicate 16 CHR ''x'', demo_leased) =
     Inr ([\<lparr>aro_operation = OperationAdd, aro_record_id = ''record-'' @ hex_encode (replicate 16 CHR ''x''), aro_revision = 1\<rparr>], [], d1)"
    unfolding apply_one_def prod.case op(1) using ev by (simp add: demo_op_def)
  have "\<exists>result d'. apply_effect demo_analyzer 6 (replicate 16 CHR ''x'') ''j'' demo_leased_job demo_proposal digest [] demo_leased = Inr (result, d') \<and>
      semantic_records d' = semantic_records d1"
  proof -
    have "BatchOps demo_proposal = [demo_op]" by (simp add: BatchOps_def IsBatch_def demo_proposal_def)
    moreover have "pr_lexicon_terms demo_proposal = []" by (simp add: demo_proposal_def)
    ultimately show ?thesis
      unfolding apply_effect_def by (simp add: src one applyStewardLexiconTerms_def op(2) tbl_affected_def Let_def del: replicate.simps)
  qed
  then obtain result d' where eff: "apply_effect demo_analyzer 6 (replicate 16 CHR ''x'') ''j'' demo_leased_job demo_proposal digest [] demo_leased = Inr (result, d')"
      "semantic_records d' = semantic_records d1" by blast
  have job: "job_of ''j'' demo_leased = Some demo_leased_job" by (simp add: job_of_def demo_leased_tables)
  have prof: "readStewardProfile demo_leased ''q'' 1 = Some \<lparr>pfr_spec = demo_profile, pfr_created_at = 1\<rparr>" "pf_max_output_bytes demo_profile = 1024"
    by (simp_all add: readStewardProfile_def demo_leased_tables demo_profile_def)
  have rs: "revalidateStewardReadSet demo_leased demo_leased_job ''j'' 1 = Inr []"
    by (simp add: revalidateStewardReadSet_def readStewardReadSet_def demo_leased_tables)
  have "apply_tx demo_analyzer 6 (replicate 16 CHR ''x'') demo_held demo_proposal demo_leased = Inr (result, Some d')"
    unfolding apply_tx_def can prod.case
    by (simp add: job demo_live prof can(2) forgottenReceipt_def demo_leased_tables rs eff del: replicate.simps One_nat_def)
  then have "ApplyStewardProposal demo_store demo_analyzer 6 (replicate 16 CHR ''x'') Committed False demo_held demo_proposal demo_leased
    = (Inr result, d')"
    by (simp add: ApplyStewardProposal_def demo_shape demo_token_nonempty commit_tx_def del: replicate.simps)
  moreover have "d' \<noteq> demo_leased" using eff(2) op(3) demo_leased_tables(7) by auto
  ultimately show thesis by (rule that)
qed

theorem apply_atomic_witness:
  "snd (ApplyStewardProposal demo_store demo_analyzer 6 [] Committed False \<lparr>ls_job_id = [], ls_token = []\<rparr> demo_proposal demo_leased) = demo_leased"
proof -
  have r: "ApplyStewardProposal demo_store demo_analyzer 6 [] Committed False \<lparr>ls_job_id = [], ls_token = []\<rparr> demo_proposal demo_leased
      = (Inl ErrStewardLeaseLost, demo_leased)"
    by (simp add: ApplyStewardProposal_def demo_shape)
  then show ?thesis using apply_atomic[OF r] by simp
qed

theorem apply_retry_idempotent_witness:
  "\<exists>r d'. ApplyStewardProposal demo_store demo_analyzer 9 [] Committed False demo_held demo_proposal d' = (Inr r, d') \<and>
     ar_deduplicated_retry r \<and> d' \<noteq> demo_leased"
proof (rule demo_apply)
  fix result d' assume a: "ApplyStewardProposal demo_store demo_analyzer 6 (replicate 16 CHR ''x'') Committed False demo_held demo_proposal demo_leased
      = (Inr result, d')" and ne: "d' \<noteq> demo_leased"
  from apply_retry_idempotent[OF a disjI2[OF ne] demo_store_open] ne show ?thesis by blast
qed

theorem apply_needs_fresh_lease_and_reads_witness:
  "\<exists>job. job_of ''j'' demo_leased = Some job \<and> lease_live 6 demo_token job"
proof (rule demo_apply)
  fix result d' assume a: "ApplyStewardProposal demo_store demo_analyzer 6 (replicate 16 CHR ''x'') Committed False demo_held demo_proposal demo_leased
      = (Inr result, d')" and ne: "d' \<noteq> demo_leased"
  from apply_needs_fresh_lease_and_reads[OF a ne] show ?thesis by auto
qed

theorem apply_cites_only_read_receipts_witness:
  "\<exists>d' es. semantic_evidence d' = es \<and> d' \<noteq> demo_leased \<and> (\<forall>e\<in>set es. citable demo_leased demo_leased_job [] (ev_receipt_id e))"
proof (rule demo_apply)
  fix result d' assume a: "ApplyStewardProposal demo_store demo_analyzer 6 (replicate 16 CHR ''x'') Committed False demo_held demo_proposal demo_leased
      = (Inr result, d')" and ne: "d' \<noteq> demo_leased"
  have "job_of ''j'' demo_leased = Some demo_leased_job" "readStewardReadSet demo_leased ''j'' n = []" for n
    by (simp_all add: job_of_def demo_leased_tables readStewardReadSet_def)
  with apply_cites_only_read_receipts[OF a ne] ne show ?thesis by (auto simp: demo_leased_tables)
qed

text \<open>An active record without a host subject whose only revision is a denied fact, and a proposal
  that tries to merge into it.\<close>

definition demo_fact_record :: semantic_row where
  "demo_fact_record = \<lparr>sm_record_id = ''f'', sm_space_id = ''s'', sm_kind = ''note'', sm_status = RecordStatusActive,
     sm_current_revision = 1, sm_invalidated_reason = [], sm_created_at = 1, sm_updated_at = 1, sm_label_set = [],
     sm_label_set_digest = digestString (encode_label_set []), sm_subject = [], sm_fact_key = []\<rparr>"

definition demo_fact_revision :: revision_row where
  "demo_fact_revision = \<lparr>rv_record_id = ''f'', rv_revision = 1, rv_space_id = ''s'', rv_kind = ''note'', rv_text = ''no'',
     rv_operation = OperationAdd, rv_job_id = None, rv_created_at = 1,
     rv_fact = Some \<lparr>md_subject = [], md_key = [], md_adoption = AdoptionDenied, md_valid_from = None, md_valid_until = None,
       md_conditions = [], md_transition = TransitionDeny, md_related_record_id = []\<rparr>\<rparr>"

definition demo_merge :: proposal where
  "demo_merge = demo_proposal\<lparr>pr_op := \<lparr>op_operation = OperationMerge, op_target_record_id = ''f'', op_expected_revision = 1,
     op_kind = ''note'', op_text = ''hi'', op_evidence_refs = [''r1'']\<rparr>\<rparr>"

theorem apply_protects_structured_heads_witness:
  "let d = demo_leased\<lparr>semantic_records := [demo_fact_record], semantic_revisions := [demo_fact_revision]\<rparr> in
   demo_fact_record \<in> set (semantic_records (snd (ApplyStewardProposal demo_store demo_analyzer 6 (replicate 16 CHR ''x'') Committed False
     demo_held demo_merge d)))"
proof -
  let ?d = "demo_leased\<lparr>semantic_records := [demo_fact_record], semantic_revisions := [demo_fact_revision]\<rparr>"
  obtain res d' where a: "ApplyStewardProposal demo_store demo_analyzer 6 (replicate 16 CHR ''x'') Committed False demo_held demo_merge ?d = (res, d')"
    by fastforce
  have "history_ok ?d" by (auto simp: history_ok_def revision_numbers_def demo_fact_record_def demo_fact_revision_def)
  from apply_protects_structured_heads[OF a this] have
    "job_of ''j'' ?d = Some demo_leased_job \<Longrightarrow> revision_of ''f'' 1 ?d = Some demo_fact_revision \<Longrightarrow> rv_fact demo_fact_revision \<noteq> None \<Longrightarrow>
     demo_fact_record \<in> set (semantic_records d')"
    by (auto simp: demo_fact_record_def)
  moreover have "job_of ''j'' ?d = Some demo_leased_job" by (simp add: job_of_def demo_leased_tables)
  moreover have "revision_of ''f'' 1 ?d = Some demo_fact_revision" "rv_fact demo_fact_revision \<noteq> None"
    by (simp_all add: revision_of_def demo_fact_revision_def)
  ultimately show ?thesis using a by simp
qed

end
