(* ===== verification/Forgetting.thy ===== *)
theory Forgetting
  imports Steward_Apply
begin

text \<open>
  What a forgotten receipt taints, \<open>governance_cleanup.go\<close>: \<open>forgettingClosure\<close> collects the
  records and jobs derived from one receipt through evidence, the persisted read sets of Workers,
  the revisions a tainted job wrote and declared fact relations, and widens over records that
  predate read sets. The worklist loop terminates without an iteration cap because each pass adds
  rows of a finite database, and its result is exactly the least set closed under the derivation
  rules, \<open>attributed\<close> and \<open>tainted\<close>; a cancelled context fails the whole computation instead of
  returning a part of it.

  A Go map of records is an association list in insertion order, and \<open>ordered\<close> sorts it.
\<close>

section \<open>The closure\<close>

type_synonym derived_record = "string \<times> string"

record closure =
  fc_records :: "derived_record list"
  fc_jobs :: "string list"
  fc_widened :: bool

definition ordered :: "closure \<Rightarrow> derived_record list" where
  "ordered c = sort_key fst (fc_records c)"

fun addDerivedRecords :: "closure \<Rightarrow> derived_record list \<Rightarrow> closure \<times> derived_record list" where
  "addDerivedRecords c [] = (c, [])"
| "addDerivedRecords c (r # rs) =
    (if fst r \<in> set (map fst (fc_records c)) then addDerivedRecords c rs
     else case addDerivedRecords (c\<lparr>fc_records := fc_records c @ [r]\<rparr>) rs of (c', added) \<Rightarrow> (c', r # added))"

fun addClosureJobs :: "closure \<Rightarrow> string list \<Rightarrow> closure \<times> string list" where
  "addClosureJobs c [] = (c, [])"
| "addClosureJobs c (j # js) =
    (if j \<in> set (fc_jobs c) then addClosureJobs c js
     else case addClosureJobs (c\<lparr>fc_jobs := fc_jobs c @ [j]\<rparr>) js of (c', added) \<Rightarrow> (c', j # added))"

text \<open>The queries of the loop.\<close>

definition evidence_records :: "db \<Rightarrow> string \<Rightarrow> derived_record list" where
  "evidence_records d receiptID =
    remdups (map (\<lambda>e. (ev_record_id e, ev_space_id e)) (filter (\<lambda>e. ev_receipt_id e = receiptID) (semantic_evidence d)))"

definition receipt_jobs :: "db \<Rightarrow> string \<Rightarrow> string list" where
  "receipt_jobs d receiptID =
    map jb_job_id (filter (\<lambda>j. jb_receipt_id j = receiptID) (steward_jobs d)) @
    remdups (map rs_job_id (filter (\<lambda>x. rs_receipt_id x = receiptID) (steward_read_set d)))"

definition produced_records :: "db \<Rightarrow> string \<Rightarrow> derived_record list" where
  "produced_records d jobID =
    map (\<lambda>v. (rv_record_id v, rv_space_id v)) (filter (\<lambda>v. rv_job_id v = Some jobID) (semantic_revisions d))"

definition reader_jobs :: "db \<Rightarrow> string \<Rightarrow> string list" where
  "reader_jobs d recordID = remdups (map rs_job_id (filter (\<lambda>x. rs_record_id x = recordID) (steward_read_set d)))"

definition in_partition :: "string \<Rightarrow> string \<Rightarrow> semantic_row \<Rightarrow> bool" where
  "in_partition spaceID labelDigest r \<longleftrightarrow> sm_space_id r = spaceID \<and> sm_label_set_digest r = labelDigest"

text \<open>An absent \<open>related_record_id\<close> is encoded as no JSON member and relates to nothing.\<close>

definition relates_to :: "string \<Rightarrow> revision_row \<Rightarrow> bool" where
  "relates_to recordID v \<longleftrightarrow>
     (case rv_fact v of None \<Rightarrow> False | Some m \<Rightarrow> md_related_record_id m \<noteq> [] \<and> md_related_record_id m = recordID)"

definition referring_records :: "db \<Rightarrow> string \<Rightarrow> string \<Rightarrow> string \<Rightarrow> derived_record list" where
  "referring_records d spaceID labelDigest recordID =
    remdups (map (\<lambda>r. (sm_record_id r, sm_space_id r))
      (filter (\<lambda>r. in_partition spaceID labelDigest r \<and>
         list_ex (\<lambda>v. rv_record_id v = sm_record_id r \<and> relates_to recordID v) (semantic_revisions d)) (semantic_records d)))"

definition legacy_records :: "db \<Rightarrow> string \<Rightarrow> string \<Rightarrow> derived_record list" where
  "legacy_records d spaceID labelDigest =
    remdups (map (\<lambda>r. (sm_record_id r, sm_space_id r))
      (filter (\<lambda>r. in_partition spaceID labelDigest r \<and>
         list_ex (\<lambda>l. fst l = sm_record_id r) (governance_legacy_revisions d)) (semantic_records d)))"

section \<open>The worklist loop\<close>

definition visit_job ::
  "db \<Rightarrow> string \<Rightarrow> closure \<times> derived_record list \<times> string list \<Rightarrow> closure \<times> derived_record list \<times> string list" where
  "visit_job d jobID state =
    (case state of (c, nextRecords, nextJobs) \<Rightarrow>
     case addDerivedRecords c (produced_records d jobID) of (c, added) \<Rightarrow> (c, nextRecords @ added, nextJobs))"

definition visit_record ::
  "db \<Rightarrow> string \<Rightarrow> string \<Rightarrow> derived_record \<Rightarrow> closure \<times> derived_record list \<times> string list \<Rightarrow>
   closure \<times> derived_record list \<times> string list" where
  "visit_record d spaceID labelDigest r state =
    (case state of (c, nextRecords, nextJobs) \<Rightarrow>
     case addClosureJobs c (reader_jobs d (fst r)) of (c, addedJobs) \<Rightarrow>
     case addDerivedRecords c (referring_records d spaceID labelDigest (fst r)) of (c, added) \<Rightarrow>
     (c, nextRecords @ added, nextJobs @ addedJobs))"

definition expand_pass ::
  "db \<Rightarrow> string \<Rightarrow> string \<Rightarrow> closure \<Rightarrow> derived_record list \<Rightarrow> string list \<Rightarrow> closure \<times> derived_record list \<times> string list" where
  "expand_pass d spaceID labelDigest c newRecords newJobs =
    fold (visit_record d spaceID labelDigest) newRecords (fold (visit_job d) newJobs (c, [], []))"

definition context_done :: error where
  "context_done = serviceError ErrorCodeDeadline ''request deadline exceeded'' True"

text \<open>The identities a closure holds, and the finite supply of new ones.\<close>

definition ids :: "derived_record list \<Rightarrow> string set" where
  "ids rs = fst ` set rs"

lemma ids_simps [simp]:
  "ids [] = {}" "ids (r # rs) = insert (fst r) (ids rs)" "ids (rs @ rs') = ids rs \<union> ids rs'" "finite (ids rs)"
  by (auto simp: ids_def)

abbreviation closure_records :: "closure \<Rightarrow> string set" where
  "closure_records c \<equiv> ids (fc_records c)"

abbreviation closure_jobs :: "closure \<Rightarrow> string set" where
  "closure_jobs c \<equiv> set (fc_jobs c)"

definition record_supply :: "db \<Rightarrow> string set" where
  "record_supply d = rv_record_id ` set (semantic_revisions d) \<union> sm_record_id ` set (semantic_records d)"

definition job_supply :: "db \<Rightarrow> string set" where
  "job_supply d = rs_job_id ` set (steward_read_set d)"

lemma finite_supply [simp]: "finite (record_supply d)" "finite (job_supply d)"
  by (simp_all add: record_supply_def job_supply_def)

lemma addDerivedRecords_spec:
  "addDerivedRecords c rs = (c', added) \<Longrightarrow>
     closure_records c' = closure_records c \<union> ids rs \<and> ids added = ids rs - closure_records c \<and>
     fc_jobs c' = fc_jobs c \<and> fc_widened c' = fc_widened c \<and>
     (distinct (map fst (fc_records c)) \<longrightarrow> distinct (map fst (fc_records c')))"
proof (induction c rs arbitrary: c' added rule: addDerivedRecords.induct)
  case (1 c)
  then show ?case by simp
next
  case (2 c r rs)
  show ?case
  proof (cases "fst r \<in> closure_records c")
    case True
    then have known: "fst r \<in> set (map fst (fc_records c))" by (simp add: ids_def)
    have "addDerivedRecords c rs = (c', added)" using 2(3) known by simp
    from 2(1)[OF known this] True show ?thesis by (simp add: insert_absorb)
  next
    case False
    obtain c1 a1 where run: "addDerivedRecords (c\<lparr>fc_records := fc_records c @ [r]\<rparr>) rs = (c1, a1)" by fastforce
    with False 2(3) have eq: "c' = c1" "added = r # a1" by (auto simp: ids_def)
    have new: "fst r \<notin> set (map fst (fc_records c))" using False by (simp add: ids_def)
    from 2(2)[OF new run] show ?thesis using False new unfolding eq by auto
  qed
qed

lemma addClosureJobs_spec:
  "addClosureJobs c js = (c', added) \<Longrightarrow>
     closure_jobs c' = closure_jobs c \<union> set js \<and> set added = set js - closure_jobs c \<and>
     fc_records c' = fc_records c \<and> fc_widened c' = fc_widened c \<and> (distinct (fc_jobs c) \<longrightarrow> distinct (fc_jobs c'))"
proof (induction c js arbitrary: c' added rule: addClosureJobs.induct)
  case (1 c)
  then show ?case by simp
next
  case (2 c j js)
  show ?case
  proof (cases "j \<in> closure_jobs c")
    case True
    have "addClosureJobs c js = (c', added)" using 2(3) True by simp
    from 2(1)[OF True this] True show ?thesis by auto
  next
    case False
    obtain c1 a1 where run: "addClosureJobs (c\<lparr>fc_jobs := fc_jobs c @ [j]\<rparr>) js = (c1, a1)" by fastforce
    with False 2(3) have eq: "c' = c1" "added = j # a1" by auto
    from 2(2)[OF False run] show ?thesis using False unfolding eq by simp blast
  qed
qed

text \<open>
  \<open>grown d spaceID labelDigest R J rs js c nextRecords nextJobs\<close>: starting from the identities
  \<open>R\<close>, \<open>J\<close>, after visiting the records \<open>rs\<close> and the jobs \<open>js\<close> the closure holds exactly their
  direct successors in addition, and the next worklists are exactly the additions.
\<close>

definition grown ::
  "db \<Rightarrow> string \<Rightarrow> string \<Rightarrow> string set \<Rightarrow> string set \<Rightarrow> string set \<Rightarrow> string set \<Rightarrow> closure \<times> derived_record list \<times> string list \<Rightarrow> bool" where
  "grown d spaceID labelDigest R J rs js state \<longleftrightarrow>
    (case state of (c, nextRecords, nextJobs) \<Rightarrow>
     closure_records c = R \<union> (\<Union>j\<in>js. ids (produced_records d j)) \<union>
       (\<Union>r\<in>rs. ids (referring_records d spaceID labelDigest r)) \<and>
     closure_jobs c = J \<union> (\<Union>r\<in>rs. set (reader_jobs d r)) \<and>
     ids nextRecords = closure_records c - R \<and> set nextJobs = closure_jobs c - J)"

lemma visit_job_grown:
  assumes "grown d s l R J rs js state"
  shows "grown d s l R J rs (insert j js) (visit_job d j state)"
proof -
  obtain c nr nj where st: "state = (c, nr, nj)" by (cases state)
  obtain c' added where add: "addDerivedRecords c (produced_records d j) = (c', added)" by fastforce
  from addDerivedRecords_spec[OF add] assms show ?thesis
    unfolding st grown_def visit_job_def prod.case add by simp blast
qed

lemma visit_record_grown:
  assumes "grown d s l R J rs js state"
  shows "grown d s l R J (insert (fst r) rs) js (visit_record d s l r state)"
proof -
  obtain c nr nj where st: "state = (c, nr, nj)" by (cases state)
  obtain c1 a1 where add1: "addClosureJobs c (reader_jobs d (fst r)) = (c1, a1)" by fastforce
  obtain c2 a2 where add2: "addDerivedRecords c1 (referring_records d s l (fst r)) = (c2, a2)" by fastforce
  from addClosureJobs_spec[OF add1] addDerivedRecords_spec[OF add2] assms show ?thesis
    unfolding st grown_def visit_record_def prod.case add1 add2 by simp blast
qed

lemma expand_pass_grown:
  "grown d s l (closure_records c) (closure_jobs c) (ids newRecords) (set newJobs)
    (expand_pass d s l c newRecords newJobs)"
proof -
  have jobs: "grown d s l R J rs js st \<Longrightarrow> grown d s l R J rs (js \<union> set xs) (fold (visit_job d) xs st)" for R J rs js st xs
  proof (induction xs arbitrary: js st)
    case (Cons x xs)
    from Cons.IH[OF visit_job_grown[OF Cons.prems]] show ?case by simp
  qed simp
  have records: "grown d s l R J rs js st \<Longrightarrow> grown d s l R J (rs \<union> ids xs) js (fold (visit_record d s l) xs st)"
    for R J rs js st xs
  proof (induction xs arbitrary: rs st)
    case (Cons x xs)
    from Cons.IH[OF visit_record_grown[OF Cons.prems]] show ?case by simp
  qed simp
  have "grown d s l (closure_records c) (closure_jobs c) {} {} (c, [], [])"
    by (simp add: grown_def)
  from records[OF jobs[OF this]] show ?thesis by (simp add: expand_pass_def)
qed

lemma produced_supply: "ids (produced_records d j) \<subseteq> record_supply d"
  by (auto simp: ids_def produced_records_def record_supply_def)

lemma referring_supply: "ids (referring_records d s l r) \<subseteq> record_supply d"
  by (auto simp: ids_def referring_records_def record_supply_def)

lemma reader_supply: "set (reader_jobs d r) \<subseteq> job_supply d"
  by (auto simp: reader_jobs_def job_supply_def)

text \<open>How many identities a pass may still add.\<close>

definition room :: "db \<Rightarrow> closure \<Rightarrow> nat" where
  "room d c = card (record_supply d - closure_records c) + card (job_supply d - closure_jobs c)"

lemma grown_room_le:
  assumes "grown d s l (closure_records c) (closure_jobs c) rs js (c', nextRecords, nextJobs)"
  shows "room d c' \<le> room d c"
proof -
  have "record_supply d - closure_records c' \<subseteq> record_supply d - closure_records c"
    "job_supply d - closure_jobs c' \<subseteq> job_supply d - closure_jobs c"
    using assms unfolding grown_def by auto
  then show ?thesis unfolding room_def by (intro add_mono card_mono) simp_all
qed

lemma grown_room:
  assumes "grown d s l (closure_records c) (closure_jobs c) rs js (c', nextRecords, nextJobs)"
    and "nextRecords \<noteq> [] \<or> nextJobs \<noteq> []"
  shows "room d c' < room d c"
proof -
  let ?R = "record_supply d" and ?J = "job_supply d"
  have more: "closure_records c \<subseteq> closure_records c'" "closure_jobs c \<subseteq> closure_jobs c'"
    and added: "ids nextRecords = closure_records c' - closure_records c" "set nextJobs = closure_jobs c' - closure_jobs c"
    using assms(1) unfolding grown_def by auto
  have within: "closure_records c' - closure_records c \<subseteq> ?R" "closure_jobs c' - closure_jobs c \<subseteq> ?J"
  proof -
    have new: "(\<Union>j\<in>js. ids (produced_records d j)) \<subseteq> ?R" "(\<Union>r\<in>rs. ids (referring_records d s l r)) \<subseteq> ?R"
      "(\<Union>r\<in>rs. set (reader_jobs d r)) \<subseteq> ?J"
      by (intro UN_least produced_supply referring_supply reader_supply)+
    have "closure_records c' = closure_records c \<union> (\<Union>j\<in>js. ids (produced_records d j)) \<union> (\<Union>r\<in>rs. ids (referring_records d s l r))"
      "closure_jobs c' = closure_jobs c \<union> (\<Union>r\<in>rs. set (reader_jobs d r))"
      using assms(1) unfolding grown_def by simp_all
    then show "closure_records c' - closure_records c \<subseteq> ?R" "closure_jobs c' - closure_jobs c \<subseteq> ?J"
      using new by (simp_all add: Un_Diff le_supI1 subset_iff)
  qed
  have le: "card (?R - closure_records c') \<le> card (?R - closure_records c)"
    "card (?J - closure_jobs c') \<le> card (?J - closure_jobs c)"
    using more by (auto intro!: card_mono)
  from assms(2) consider (r) x where "x \<in> ids nextRecords" | (j) x where "x \<in> set nextJobs"
    by (cases nextRecords; cases nextJobs) auto
  then show ?thesis
  proof cases
    case r
    then have "x \<in> ?R - closure_records c" "x \<notin> ?R - closure_records c'" using added(1) within(1) by auto
    then have "?R - closure_records c' \<subset> ?R - closure_records c" using more(1) by blast
    then have "card (?R - closure_records c') < card (?R - closure_records c)" by (simp add: psubset_card_mono)
    with le(2) show ?thesis by (simp add: room_def)
  next
    case j
    then have "x \<in> ?J - closure_jobs c" "x \<notin> ?J - closure_jobs c'" using added(2) within(2) by auto
    then have "?J - closure_jobs c' \<subset> ?J - closure_jobs c" using more(2) by blast
    then have "card (?J - closure_jobs c') < card (?J - closure_jobs c)" by (simp add: psubset_card_mono)
    with le(1) show ?thesis by (simp add: room_def)
  qed
qed

text \<open>A closure without repetitions stays one.\<close>

definition closure_wf :: "closure \<Rightarrow> bool" where
  "closure_wf c \<longleftrightarrow> distinct (map fst (fc_records c)) \<and> distinct (fc_jobs c)"

lemma visit_wf:
  "closure_wf (fst state) \<Longrightarrow> closure_wf (fst (visit_job d j state))"
  "closure_wf (fst state) \<Longrightarrow> closure_wf (fst (visit_record d s l r state))"
  by (auto simp: closure_wf_def visit_job_def visit_record_def split: prod.splits
      dest!: addDerivedRecords_spec addClosureJobs_spec)

lemma expand_pass_wf:
  assumes "closure_wf c"
  shows "closure_wf (fst (expand_pass d s l c newRecords newJobs))"
proof -
  have "closure_wf (fst st) \<Longrightarrow> closure_wf (fst (fold (visit_job d) xs st))" for st xs
    by (induction xs arbitrary: st) (simp_all add: visit_wf)
  moreover have "closure_wf (fst st) \<Longrightarrow> closure_wf (fst (fold (visit_record d s l) xs st))" for st xs
    by (induction xs arbitrary: st) (simp_all add: visit_wf)
  ultimately show ?thesis using assms by (simp add: expand_pass_def)
qed

text \<open>The loop has no cap; \<open>expired\<close> tells at which pass the caller's context is done.\<close>

function expandForgettingClosure ::
  "db \<Rightarrow> (nat \<Rightarrow> bool) \<Rightarrow> nat \<Rightarrow> string \<Rightarrow> string \<Rightarrow> closure \<Rightarrow> derived_record list \<Rightarrow> string list \<Rightarrow> error + closure" where
  "expandForgettingClosure d expired tick spaceID labelDigest c newRecords newJobs =
    (if newRecords = [] \<and> newJobs = [] then Inr c
     else if expired tick then Inl context_done
     else case expand_pass d spaceID labelDigest c newRecords newJobs of (c', nextRecords, nextJobs) \<Rightarrow>
       expandForgettingClosure d expired (Suc tick) spaceID labelDigest c' nextRecords nextJobs)"
  by pat_completeness auto
termination
proof (relation "measure (\<lambda>(d, expired, tick, spaceID, labelDigest, c, newRecords, newJobs).
    2 * room d c + (if newRecords = [] \<and> newJobs = [] then 0 else 1))", goal_cases)
  case 1
  show ?case by simp
next
  case (2 d expired tick spaceID labelDigest c newRecords newJobs c' rest nextRecords nextJobs)
  then have pass: "expand_pass d spaceID labelDigest c newRecords newJobs = (c', nextRecords, nextJobs)" by simp
  have "room d c' \<le> room d c \<and> (nextRecords \<noteq> [] \<or> nextJobs \<noteq> [] \<longrightarrow> room d c' < room d c)"
    using expand_pass_grown[of d spaceID labelDigest c newRecords newJobs, unfolded pass] grown_room grown_room_le by blast
  with 2(1) show ?case by auto
qed

declare expandForgettingClosure.simps [simp del]

section \<open>The whole computation\<close>

text \<open>Go's map assignment of the seeds: the last space of an identity wins.\<close>

definition put_record :: "derived_record \<Rightarrow> derived_record list \<Rightarrow> derived_record list" where
  "put_record r rs = (if fst r \<in> set (map fst rs) then map (\<lambda>x. if fst x = fst r then r else x) rs else rs @ [r])"

definition seed_closure :: "derived_record list \<Rightarrow> string list \<Rightarrow> closure" where
  "seed_closure seeds jobs = \<lparr>fc_records = fold put_record seeds [], fc_jobs = remdups jobs, fc_widened = False\<rparr>"

definition widenUnattributedClosure :: "db \<Rightarrow> string \<Rightarrow> string \<Rightarrow> closure \<Rightarrow> closure \<times> derived_record list" where
  "widenUnattributedClosure d spaceID labelDigest c =
    (if fc_records c = [] then (c, []) else addDerivedRecords c (legacy_records d spaceID labelDigest))"

definition forgettingClosure :: "db \<Rightarrow> (nat \<Rightarrow> bool) \<Rightarrow> string \<Rightarrow> string \<Rightarrow> string \<Rightarrow> error + closure" where
  "forgettingClosure d expired receiptID spaceID labelDigest =
    (let seeds = evidence_records d receiptID; seedJobs = receipt_jobs d receiptID in
     rbind (expandForgettingClosure d expired 0 spaceID labelDigest (seed_closure seeds seedJobs) seeds seedJobs) (\<lambda>c.
     case widenUnattributedClosure d spaceID labelDigest c of (c, widened) \<Rightarrow>
     let c = c\<lparr>fc_widened := widened \<noteq> []\<rparr> in
     if widened \<noteq> [] then expandForgettingClosure d expired 0 spaceID labelDigest c widened [] else Inr c))"

section \<open>The specification\<close>

text \<open>The least sets of records and jobs closed under derivation from the receipt.\<close>

inductive attributed and tainted for d :: db and receiptID spaceID labelDigest :: string where
  cites: "e \<in> set (semantic_evidence d) \<Longrightarrow> ev_receipt_id e = receiptID \<Longrightarrow>
    attributed d receiptID spaceID labelDigest (ev_record_id e)"
| processes: "j \<in> set (steward_jobs d) \<Longrightarrow> jb_receipt_id j = receiptID \<Longrightarrow>
    tainted d receiptID spaceID labelDigest (jb_job_id j)"
| reads_receipt: "x \<in> set (steward_read_set d) \<Longrightarrow> rs_receipt_id x = receiptID \<Longrightarrow>
    tainted d receiptID spaceID labelDigest (rs_job_id x)"
| produces: "tainted d receiptID spaceID labelDigest j \<Longrightarrow> v \<in> set (semantic_revisions d) \<Longrightarrow> rv_job_id v = Some j \<Longrightarrow>
    attributed d receiptID spaceID labelDigest (rv_record_id v)"
| reads_record: "attributed d receiptID spaceID labelDigest r \<Longrightarrow> x \<in> set (steward_read_set d) \<Longrightarrow> rs_record_id x = r \<Longrightarrow>
    tainted d receiptID spaceID labelDigest (rs_job_id x)"
| refers: "attributed d receiptID spaceID labelDigest r \<Longrightarrow> v \<in> set (semantic_revisions d) \<Longrightarrow> relates_to r v \<Longrightarrow>
    x \<in> set (semantic_records d) \<Longrightarrow> rv_record_id v = sm_record_id x \<Longrightarrow> in_partition spaceID labelDigest x \<Longrightarrow>
    attributed d receiptID spaceID labelDigest (sm_record_id x)"
| predates: "attributed d receiptID spaceID labelDigest r \<Longrightarrow> x \<in> set (semantic_records d) \<Longrightarrow>
    in_partition spaceID labelDigest x \<Longrightarrow> l \<in> set (governance_legacy_revisions d) \<Longrightarrow> fst l = sm_record_id x \<Longrightarrow>
    attributed d receiptID spaceID labelDigest (sm_record_id x)"

text \<open>A pair of sets is closed off, except for the worklists \<open>N\<close> and \<open>M\<close>.\<close>

definition closed_off :: "db \<Rightarrow> string \<Rightarrow> string \<Rightarrow> string set \<Rightarrow> string set \<Rightarrow> string set \<Rightarrow> string set \<Rightarrow> bool" where
  "closed_off d s l R J N M \<longleftrightarrow>
    (\<forall>r\<in>R - N. set (reader_jobs d r) \<subseteq> J \<and> ids (referring_records d s l r) \<subseteq> R) \<and>
    (\<forall>j\<in>J - M. ids (produced_records d j) \<subseteq> R)"

abbreviation closed :: "db \<Rightarrow> string \<Rightarrow> string \<Rightarrow> string set \<Rightarrow> string set \<Rightarrow> bool" where
  "closed d s l R J \<equiv> closed_off d s l R J {} {}"

lemma grown_closed_off:
  assumes "grown d s l (closure_records c) (closure_jobs c) N M (c', nextRecords, nextJobs)"
    and "closed_off d s l (closure_records c) (closure_jobs c) N M"
  shows "closed_off d s l (closure_records c') (closure_jobs c') (ids nextRecords) (set nextJobs)"
proof -
  note g = assms(1)[unfolded grown_def prod.case]
  have R: "closure_records c' - ids nextRecords \<subseteq> closure_records c"
    and J: "closure_jobs c' - set nextJobs \<subseteq> closure_jobs c" using g by auto
  have mono: "closure_records c \<subseteq> closure_records c'" "closure_jobs c \<subseteq> closure_jobs c'" using g by auto
  have "set (reader_jobs d r) \<subseteq> closure_jobs c' \<and> ids (referring_records d s l r) \<subseteq> closure_records c'"
    if "r \<in> closure_records c' - ids nextRecords" for r
  proof (cases "r \<in> N")
    case True
    then have "set (reader_jobs d r) \<subseteq> (\<Union>r\<in>N. set (reader_jobs d r))"
      "ids (referring_records d s l r) \<subseteq> (\<Union>r\<in>N. ids (referring_records d s l r))" by blast+
    with g show ?thesis by (metis Un_iff subset_iff)
  next
    case False
    with that R assms(2) mono show ?thesis unfolding closed_off_def by blast
  qed
  moreover have "ids (produced_records d j) \<subseteq> closure_records c'" if "j \<in> closure_jobs c' - set nextJobs" for j
  proof (cases "j \<in> M")
    case True
    then have "ids (produced_records d j) \<subseteq> (\<Union>j\<in>M. ids (produced_records d j))" by blast
    with g show ?thesis by (metis Un_iff subset_iff)
  next
    case False
    with that J assms(2) mono show ?thesis unfolding closed_off_def by blast
  qed
  ultimately show ?thesis unfolding closed_off_def by blast
qed

lemma grown_within:
  assumes "grown d s l (closure_records c) (closure_jobs c) N M (c', nextRecords, nextJobs)"
    and "closed d s l P Q" "closure_records c \<subseteq> P" "closure_jobs c \<subseteq> Q" "N \<subseteq> P" "M \<subseteq> Q"
  shows "closure_records c' \<subseteq> P \<and> closure_jobs c' \<subseteq> Q"
proof -
  note g = assms(1)[unfolded grown_def prod.case]
  have "(\<Union>j\<in>M. ids (produced_records d j)) \<subseteq> P" "(\<Union>r\<in>N. ids (referring_records d s l r)) \<subseteq> P"
    "(\<Union>r\<in>N. set (reader_jobs d r)) \<subseteq> Q"
    using assms(2,5,6) unfolding closed_off_def by blast+
  with g assms(3,4) show ?thesis by simp
qed

lemma expand_spec:
  assumes "expandForgettingClosure d expired tick s l c nr nj = Inr c'"
    and "closed_off d s l (closure_records c) (closure_jobs c) (ids nr) (set nj)"
    and "ids nr \<subseteq> closure_records c" "set nj \<subseteq> closure_jobs c"
  shows "closed d s l (closure_records c') (closure_jobs c') \<and>
    closure_records c \<subseteq> closure_records c' \<and> closure_jobs c \<subseteq> closure_jobs c' \<and>
    (\<forall>P Q. closed d s l P Q \<longrightarrow> closure_records c \<subseteq> P \<longrightarrow> closure_jobs c \<subseteq> Q \<longrightarrow>
       closure_records c' \<subseteq> P \<and> closure_jobs c' \<subseteq> Q)"
  using assms
proof (induction d expired tick s l c nr nj rule: expandForgettingClosure.induct)
  case (1 d expired tick s l c nr nj)
  show ?case
  proof (cases "nr = [] \<and> nj = []")
    case True
    then have "c' = c" using 1(2) by (simp add: expandForgettingClosure.simps)
    with True 1(3) show ?thesis by simp
  next
    case False
    obtain c1 nr1 nj1 where pass: "expand_pass d s l c nr nj = (c1, nr1, nj1)" by (metis prod_cases3)
    have live: "\<not> expired tick" and rest: "expandForgettingClosure d expired (Suc tick) s l c1 nr1 nj1 = Inr c'"
      using 1(2) False pass by (auto simp: expandForgettingClosure.simps[of d expired tick] split: if_splits)
    have g: "grown d s l (closure_records c) (closure_jobs c) (ids nr) (set nj) (c1, nr1, nj1)"
      using expand_pass_grown[of d s l c nr nj] pass by simp
    have sub: "ids nr1 \<subseteq> closure_records c1" "set nj1 \<subseteq> closure_jobs c1"
      "closure_records c \<subseteq> closure_records c1" "closure_jobs c \<subseteq> closure_jobs c1"
      using g unfolding grown_def by auto
    have IH: "closed d s l (closure_records c') (closure_jobs c') \<and>
      closure_records c1 \<subseteq> closure_records c' \<and> closure_jobs c1 \<subseteq> closure_jobs c' \<and>
      (\<forall>P Q. closed d s l P Q \<longrightarrow> closure_records c1 \<subseteq> P \<longrightarrow> closure_jobs c1 \<subseteq> Q \<longrightarrow>
         closure_records c' \<subseteq> P \<and> closure_jobs c' \<subseteq> Q)"
      using 1(1)[OF False live pass[symmetric] refl rest grown_closed_off[OF g 1(3)] sub(1,2)] .
    have within: "closure_records c1 \<subseteq> P \<and> closure_jobs c1 \<subseteq> Q"
      if "closed d s l P Q" "closure_records c \<subseteq> P" "closure_jobs c \<subseteq> Q" for P Q
      using grown_within[OF g that] 1(4,5) that(2,3) by blast
    show ?thesis using IH within sub(3,4) by (meson order_trans)
  qed
qed

lemma expand_wf:
  assumes "expandForgettingClosure d expired tick s l c nr nj = Inr c'" and "closure_wf c"
  shows "closure_wf c'"
  using assms
proof (induction d expired tick s l c nr nj rule: expandForgettingClosure.induct)
  case (1 d expired tick s l c nr nj)
  obtain c1 nr1 nj1 where pass: "expand_pass d s l c nr nj = (c1, nr1, nj1)" by (metis prod_cases3)
  have "closure_wf c1" using expand_pass_wf[OF 1(3), of d s l nr nj] pass by simp
  with 1(1)[OF _ _ pass[symmetric] refl] 1(2,3) show ?case
    by (auto simp: expandForgettingClosure.simps[of d expired tick] pass split: if_splits)
qed

lemma expand_returns:
  assumes "\<And>n. \<not> expired n"
  shows "\<exists>c'. expandForgettingClosure d expired tick s l c nr nj = Inr c'"
  using assms
proof (induction d expired tick s l c nr nj rule: expandForgettingClosure.induct)
  case (1 d expired tick s l c nr nj)
  obtain c1 nr1 nj1 where pass: "expand_pass d s l c nr nj = (c1, nr1, nj1)" by (metis prod_cases3)
  show ?case
  proof (cases "nr = [] \<and> nj = []")
    case True
    then show ?thesis by (simp add: expandForgettingClosure.simps)
  next
    case False
    with 1(2) pass have "expandForgettingClosure d expired tick s l c nr nj =
        expandForgettingClosure d expired (Suc tick) s l c1 nr1 nj1"
      by (subst expandForgettingClosure.simps) auto
    with 1(1)[OF False 1(2) pass[symmetric] refl 1(2)] show ?thesis by simp
  qed
qed

lemma put_record_ids: "ids (put_record r rs) = insert (fst r) (ids rs)"
proof (cases "fst r \<in> set (map fst rs)")
  case True
  have "fst ` set (map (\<lambda>x. if fst x = fst r then r else x) rs) = fst ` set rs"
    by (induction rs) auto
  with True show ?thesis by (simp add: put_record_def ids_def insert_absorb del: set_map) (metis insert_absorb set_map)
next
  case False
  then show ?thesis by (auto simp: put_record_def)
qed

lemma put_record_distinct:
  assumes "distinct (map fst rs)"
  shows "distinct (map fst (put_record r rs))"
proof -
  have "map fst (map (\<lambda>x. if fst x = fst r then r else x) rs) = map fst rs" by simp
  with assms have "distinct (map fst (map (\<lambda>x. if fst x = fst r then r else x) rs))" by (simp only:)
  then show ?thesis using assms by (auto simp: put_record_def simp del: map_map)
qed

lemma seed_closure_spec:
  "closure_records (seed_closure seeds jobs) = ids seeds" "closure_jobs (seed_closure seeds jobs) = set jobs"
  "closure_wf (seed_closure seeds jobs)"
proof -
  have "ids (fold put_record seeds rs) = ids seeds \<union> ids rs" for rs
    by (induction seeds arbitrary: rs) (auto simp: put_record_ids)
  then show "closure_records (seed_closure seeds jobs) = ids seeds" by (simp add: seed_closure_def)
  have "distinct (map fst rs) \<Longrightarrow> distinct (map fst (fold put_record seeds rs))" for rs
    by (induction seeds arbitrary: rs) (simp_all add: put_record_distinct)
  then show "closure_wf (seed_closure seeds jobs)" by (simp add: seed_closure_def closure_wf_def)
qed (simp add: seed_closure_def)

text \<open>The rules of the specification, as inclusions between the code's queries.\<close>

abbreviation attributed_set :: "db \<Rightarrow> string \<Rightarrow> string \<Rightarrow> string \<Rightarrow> string set" where
  "attributed_set d rc s l \<equiv> {r. attributed d rc s l r}"

abbreviation tainted_set :: "db \<Rightarrow> string \<Rightarrow> string \<Rightarrow> string \<Rightarrow> string set" where
  "tainted_set d rc s l \<equiv> {j. tainted d rc s l j}"

lemma spec_closed: "closed d s l (attributed_set d rc s l) (tainted_set d rc s l)"
  unfolding closed_off_def ids_def reader_jobs_def referring_records_def produced_records_def
  by (auto simp: list_ex_iff intro: produces reads_record refers)

lemma spec_seeds: "ids (evidence_records d rc) \<subseteq> attributed_set d rc s l" "set (receipt_jobs d rc) \<subseteq> tainted_set d rc s l"
  unfolding ids_def evidence_records_def receipt_jobs_def by (auto intro: attributed_tainted.intros)

lemma spec_legacy: "attributed_set d rc s l \<noteq> {} \<Longrightarrow> ids (legacy_records d s l) \<subseteq> attributed_set d rc s l"
proof
  fix x
  assume some: "attributed_set d rc s l \<noteq> {}" and "x \<in> ids (legacy_records d s l)"
  then obtain r k where "r \<in> set (semantic_records d)" "in_partition s l r" "x = sm_record_id r"
    "k \<in> set (governance_legacy_revisions d)" "fst k = sm_record_id r"
    by (auto simp: ids_def legacy_records_def list_ex_iff)
  with some show "x \<in> attributed_set d rc s l" by (auto intro: predates)
qed

lemma spec_least:
  assumes "closed d s l R J" "ids (evidence_records d rc) \<subseteq> R" "set (receipt_jobs d rc) \<subseteq> J"
    and "R \<noteq> {} \<Longrightarrow> ids (legacy_records d s l) \<subseteq> R"
  shows "attributed d rc s l x \<Longrightarrow> x \<in> R" and "tainted d rc s l y \<Longrightarrow> y \<in> J"
proof (induction rule: attributed_tainted.inducts)
  case (cites e)
  then have "ev_record_id e \<in> ids (evidence_records d rc)" by (force simp: ids_def evidence_records_def)
  with assms(2) show ?case by blast
next
  case (processes j)
  then show ?case using assms(3) by (auto simp: receipt_jobs_def)
next
  case (reads_receipt x)
  then show ?case using assms(3) by (auto simp: receipt_jobs_def)
next
  case (produces j v)
  then have "rv_record_id v \<in> ids (produced_records d j)" by (force simp: ids_def produced_records_def)
  with produces assms(1) show ?case unfolding closed_off_def by blast
next
  case (reads_record r x)
  then have "rs_job_id x \<in> set (reader_jobs d r)" by (auto simp: reader_jobs_def)
  with reads_record assms(1) show ?case unfolding closed_off_def by blast
next
  case (refers r v x)
  then have "sm_record_id x \<in> ids (referring_records d s l r)" by (force simp: ids_def referring_records_def list_ex_iff)
  with refers assms(1) show ?case unfolding closed_off_def by blast
next
  case (predates r x k)
  then have "sm_record_id x \<in> ids (legacy_records d s l)" by (force simp: ids_def legacy_records_def list_ex_iff)
  with predates assms(4) show ?case by blast
qed

lemma widen_spec:
  assumes "widenUnattributedClosure d s l c = (c', widened)"
  shows "closure_records c' = closure_records c \<union> (if closure_records c = {} then {} else ids (legacy_records d s l))"
    "ids widened = closure_records c' - closure_records c" "fc_jobs c' = fc_jobs c" "closure_wf c \<Longrightarrow> closure_wf c'"
proof -
  have nonempty: "ids rs = {} \<longleftrightarrow> rs = []" for rs by (simp add: ids_def)
  have "closure_records c' = closure_records c \<union> (if closure_records c = {} then {} else ids (legacy_records d s l)) \<and>
    ids widened = closure_records c' - closure_records c \<and> fc_jobs c' = fc_jobs c \<and> (closure_wf c \<longrightarrow> closure_wf c')"
  proof (cases "fc_records c = []")
    case True
    then show ?thesis using assms by (auto simp: widenUnattributedClosure_def)
  next
    case False
    then have "addDerivedRecords c (legacy_records d s l) = (c', widened)"
      using assms by (simp add: widenUnattributedClosure_def)
    from addDerivedRecords_spec[OF this] False show ?thesis
      unfolding nonempty closure_wf_def by auto
  qed
  then show "closure_records c' = closure_records c \<union> (if closure_records c = {} then {} else ids (legacy_records d s l))"
    "ids widened = closure_records c' - closure_records c" "fc_jobs c' = fc_jobs c" "closure_wf c \<Longrightarrow> closure_wf c'"
    by simp_all
qed

lemma forgettingClosure_spec:
  assumes "forgettingClosure d expired rc s l = Inr c"
  shows "closure_records c = attributed_set d rc s l" "closure_jobs c = tainted_set d rc s l" "closure_wf c"
proof -
  let ?seeds = "evidence_records d rc" and ?jobs = "receipt_jobs d rc"
  let ?A = "attributed_set d rc s l" and ?T = "tainted_set d rc s l"
  obtain c1 where c1: "expandForgettingClosure d expired 0 s l (seed_closure ?seeds ?jobs) ?seeds ?jobs = Inr c1"
    using assms by (auto simp: forgettingClosure_def Let_def elim: run_elims)
  obtain c2 w where w: "widenUnattributedClosure d s l c1 = (c2, w)" by fastforce
  have run: "if w \<noteq> [] then expandForgettingClosure d expired 0 s l (c2\<lparr>fc_widened := w \<noteq> []\<rparr>) w [] = Inr c
      else c = c2\<lparr>fc_widened := w \<noteq> []\<rparr>"
    using assms c1 w by (auto simp: forgettingClosure_def Let_def split: if_splits)
  have first: "closed d s l (closure_records c1) (closure_jobs c1)" "ids ?seeds \<subseteq> closure_records c1"
    "set ?jobs \<subseteq> closure_jobs c1" "closure_records c1 \<subseteq> ?A" "closure_jobs c1 \<subseteq> ?T"
  proof -
    have "closed_off d s l (ids ?seeds) (set ?jobs) (ids ?seeds) (set ?jobs)" by (simp add: closed_off_def)
    note e = expand_spec[OF c1, unfolded seed_closure_spec, OF this order_refl order_refl]
    from e show "closed d s l (closure_records c1) (closure_jobs c1)" "ids ?seeds \<subseteq> closure_records c1"
      "set ?jobs \<subseteq> closure_jobs c1" by blast+
    from e spec_closed[of d s l rc] spec_seeds[of d rc s l]
    show "closure_records c1 \<subseteq> ?A" "closure_jobs c1 \<subseteq> ?T" by blast+
  qed
  note wide = widen_spec[OF w]
  have inner: "closure_records c2 \<subseteq> ?A" "closure_records c1 \<subseteq> closure_records c2"
    using wide(1) first(4) spec_legacy[of d rc s l] by (auto split: if_splits)
  have off: "closed_off d s l (closure_records c2) (closure_jobs c2) (ids w) (set [])"
    using first(1) wide(1,2,3) unfolding closed_off_def by fastforce
  have last: "closed d s l (closure_records c) (closure_jobs c) \<and> closure_records c2 \<subseteq> closure_records c \<and>
      closure_jobs c1 \<subseteq> closure_jobs c \<and> closure_records c \<subseteq> ?A \<and> closure_jobs c \<subseteq> ?T \<and> closure_wf c"
  proof (cases "w = []")
    case True
    then show ?thesis using run off inner first wide expand_wf[OF c1 seed_closure_spec(3)]
      by (auto simp: closure_wf_def)
  next
    case False
    then have e: "expandForgettingClosure d expired 0 s l (c2\<lparr>fc_widened := True\<rparr>) w [] = Inr c" using run by simp
    have "closure_wf c2" using wide(4) expand_wf[OF c1 seed_closure_spec(3)] by simp
    then have "closure_wf c" using expand_wf[OF e] by (simp add: closure_wf_def)
    then show ?thesis using expand_spec[OF e] off inner first(5) wide(2,3) spec_closed[of d s l rc] by auto
  qed
  have legacy: "ids (legacy_records d s l) \<subseteq> closure_records c" if "closure_records c \<noteq> {}"
  proof (cases "closure_records c1 = {}")
    case True
    then have "w = []" "closure_records c2 = {}" using wide(1,2) by (auto simp: ids_def)
    then show ?thesis using run that by simp
  next
    case False
    then show ?thesis using wide(1) last by auto
  qed
  have "?A \<subseteq> closure_records c" "?T \<subseteq> closure_jobs c"
    using spec_least[of d s l "closure_records c" "closure_jobs c" rc] last inner first(2,3) legacy by auto
  with last show "closure_records c = ?A" "closure_jobs c = ?T" "closure_wf c" by auto
qed

lemma forgettingClosure_returns:
  assumes "\<And>n. \<not> expired n"
  shows "\<exists>c. forgettingClosure d expired rc s l = Inr c"
  using expand_returns[of expired, OF assms]
  by (auto simp: forgettingClosure_def Let_def rbind_def split: sum.splits prod.splits)
     (metis sum.distinct(1))+

text \<open>
  Claim C12. Forgetting reaches exactly what was derived from a receipt. Without an iteration cap the
  computation returns whenever the caller's context lives, and every closure it returns, under any
  cancellation behaviour, holds each record and each job of the least derivation-closed sets exactly
  once: nothing derived is missed and nothing else is swept in.
\<close>

theorem forgetting_closure_exact:
  "(\<exists>c. forgettingClosure d (\<lambda>_. False) receiptID spaceID labelDigest = Inr c) \<and>
   (\<forall>expired c. forgettingClosure d expired receiptID spaceID labelDigest = Inr c \<longrightarrow>
      fst ` set (fc_records c) = {r. attributed d receiptID spaceID labelDigest r} \<and>
      set (fc_jobs c) = {j. tainted d receiptID spaceID labelDigest j} \<and>
      distinct (map fst (fc_records c)) \<and> distinct (fc_jobs c))"
  using forgettingClosure_returns[of "\<lambda>_. False"] forgettingClosure_spec
  by (auto simp: ids_def closure_wf_def)

text \<open>Record \<open>a\<close> cites the receipt, job \<open>j\<close> read it and wrote record \<open>b\<close>.\<close>

definition demo_derived :: db where
  "demo_derived = empty_db\<lparr>
     semantic_evidence := [\<lparr>ev_record_id = ''a'', ev_revision = 1, ev_ordinal = 0, ev_receipt_id = ''rc'', ev_space_id = ''s''\<rparr>],
     steward_read_set := [\<lparr>rs_job_id = ''j'', rs_attempt = 1, rs_ordinal = 0, rs_record_id = ''a'', rs_revision = 1, rs_receipt_id = ''other''\<rparr>],
     semantic_revisions := [\<lparr>rv_record_id = ''b'', rv_revision = 1, rv_space_id = ''s'', rv_kind = ''k'', rv_text = ''t'',
       rv_operation = OperationAdd, rv_job_id = Some ''j'', rv_created_at = 0, rv_fact = None\<rparr>]\<rparr>"

theorem forgetting_closure_exact_witness:
  "{r. attributed demo_derived ''rc'' ''s'' ''l'' r} = {''a'', ''b''} \<and> {j. tainted demo_derived ''rc'' ''s'' ''l'' j} = {''j''}"
proof -
  have "forgettingClosure demo_derived (\<lambda>_. False) ''rc'' ''s'' ''l'' =
      Inr \<lparr>fc_records = [(''a'', ''s''), (''b'', ''s'')], fc_jobs = [''j''], fc_widened = False\<rparr>"
    by (simp add: forgettingClosure_def demo_derived_def empty_db_def evidence_records_def receipt_jobs_def
        seed_closure_def put_record_def expandForgettingClosure.simps expand_pass_def visit_job_def visit_record_def
        produced_records_def reader_jobs_def referring_records_def widenUnattributedClosure_def legacy_records_def)
  with forgetting_closure_exact[of demo_derived "''rc''" "''s''" "''l''"] show ?thesis by fastforce
qed

end
