(* ===== verification/Governance.thy ===== *)
theory Governance
  imports Forgetting
begin

text \<open>
  Owner corrections and deletions, \<open>governance.go\<close>, \<open>governance_cleanup.go\<close>,
  \<open>governance_processing.go\<close> and the invalidation at the end of \<open>steward.go\<close>. A deletion commits
  a barrier naming the closure of the receipt, invalidates and unindexes those records, cancels the
  tainted jobs and replaces the receipt by a content-free tombstone, all in one transaction; a
  second transaction cleanses the derived history and is resumed by \<open>RecoverGovernanceCleanup\<close>.

  A handler reads the clock once, except that its cleanup transaction has its own reading. Where
  \<open>DeleteReceipt\<close> returns a response together with an error, the model returns the error. The lexicon hooks do
  nothing without a \<open>LexiconPolicy\<close>.
\<close>

section \<open>Barriers and invalidation\<close>

definition sessionCopyBoundary :: string where
  "sessionCopyBoundary = ''Memory deletes appliance-owned evidence only; copies held by external producers or Session stores must be deleted or redacted separately''"

definition insertForgettingBarrier ::
  "instant \<Rightarrow> string \<Rightarrow> string \<Rightarrow> barrier_kind \<Rightarrow> string \<Rightarrow> db \<Rightarrow> error + (nat \<times> db)" where
  "insertForgettingBarrier now spaceID labelDigest kind receiptID d =
    of_opt (Errorf ''record forgetting barrier'')
      (map_option (\<lambda>d'. (forgetting_barriers_seq d', d'))
        (insert_barrier \<lparr>fb_sequence = 0, fb_space_id = spaceID, fb_label_set_digest = labelDigest, fb_kind = kind,
           fb_receipt_id = receiptID, fb_status = BarrierPending, fb_created_at = now, fb_cleaned_at = None\<rparr> d))"

definition suppressEvidenceSource :: "string \<Rightarrow> bool \<Rightarrow> db \<Rightarrow> db" where
  "suppressEvidenceSource receiptID clearPayload d =
    d\<lparr>evidence_sources := tbl_update (\<lambda>e. es_receipt_id e = receiptID)
       (\<lambda>e. if clearPayload then e\<lparr>es_suppressed := True, es_source := None\<rparr> else e\<lparr>es_suppressed := True\<rparr>)
       (evidence_sources d)\<rparr>"

definition invalidated :: "instant \<Rightarrow> string \<Rightarrow> semantic_row \<Rightarrow> semantic_row" where
  "invalidated now reason r = r\<lparr>sm_status := RecordStatusInvalidated, sm_invalidated_reason := reason, sm_updated_at := now\<rparr>"

definition settling :: "processing_row \<Rightarrow> bool" where
  "settling p \<longleftrightarrow> pc_state p = ProcessingStateAccepted \<or> pc_state p = ProcessingStateProcessing"

definition cited_heads :: "db \<Rightarrow> string \<Rightarrow> derived_record list" where
  "cited_heads d receiptID =
    sort_key fst (remdups (map (\<lambda>r. (sm_record_id r, sm_space_id r))
      (filter (\<lambda>r. sm_status r = RecordStatusActive \<and>
          list_ex (\<lambda>e. ev_record_id e = sm_record_id r \<and> ev_revision e = sm_current_revision r \<and> ev_receipt_id e = receiptID)
            (semantic_evidence d)) (semantic_records d))))"

text \<open>Drop a record from its Space's index and invalidate the rows that satisfy \<open>p\<close>.\<close>

definition invalidate_record ::
  "instant \<Rightarrow> string \<Rightarrow> (semantic_row \<Rightarrow> bool) \<Rightarrow> derived_record \<Rightarrow> db \<Rightarrow> error + db" where
  "invalidate_record now reason p r d =
    rbind (of_opt (Errorf ''resolve invalidation Space index'') (readSemanticSpaceIndex d (snd r))) (\<lambda>tableName.
    let d = delete_semantic_projection tableName (fst r) d in
    Inr (d\<lparr>semantic_records := tbl_update (\<lambda>x. sm_record_id x = fst r \<and> p x) (invalidated now reason) (semantic_records d)\<rparr>))"

definition invalidateSemanticRecordsForReceipt :: "instant \<Rightarrow> string \<Rightarrow> string \<Rightarrow> db \<Rightarrow> error + db" where
  "invalidateSemanticRecordsForReceipt now receiptID reason d =
    rbind (fold_res (invalidate_record now reason (\<lambda>_. True)) (cited_heads d receiptID) d) (\<lambda>d.
    let d = d\<lparr>steward_jobs := tbl_update (\<lambda>j. jb_receipt_id j = receiptID \<and> open_job j) (fail_job now reason) (steward_jobs d)\<rparr>;
        failed = list_ex (\<lambda>j. jb_receipt_id j = receiptID \<and> jb_state j = JobFailed \<and> jb_terminal_error_code j = reason) (steward_jobs d)
    in Inr (d\<lparr>receipt_processing := tbl_update (\<lambda>p. pc_receipt_id p = receiptID \<and> settling p \<and> failed)
         (fail_processing now reason) (receipt_processing d)\<rparr>))"

definition cancelGovernedStewardJob :: "instant \<Rightarrow> string \<Rightarrow> string \<Rightarrow> db \<Rightarrow> db" where
  "cancelGovernedStewardJob now reason jobID d =
    (case List.find (\<lambda>j. jb_job_id j = jobID \<and> open_job j) (steward_jobs d) of
       None \<Rightarrow> d
     | Some job \<Rightarrow>
        d\<lparr>steward_jobs := tbl_update (\<lambda>j. jb_job_id j = jobID \<and> open_job j) (fail_job now reason) (steward_jobs d),
          receipt_processing := tbl_update (\<lambda>p. pc_receipt_id p = jb_receipt_id job \<and> settling p)
            (fail_processing now reason) (receipt_processing d)\<rparr>)"

definition persistForgettingClosure :: "nat \<Rightarrow> closure \<Rightarrow> db \<Rightarrow> error + db" where
  "persistForgettingClosure sequence c d =
    fold_res (\<lambda>r d. of_opt (Errorf ''record barrier derived Record'')
      (insert_barrier_record \<lparr>br_sequence = sequence, br_record_id = fst r, br_space_id = snd r\<rparr> d)) (ordered c) d"

text \<open>The source iterates a Go map of jobs; \<open>cancel_commute\<close> below shows that the order is
  immaterial.\<close>

definition invalidateForgettingClosure :: "instant \<Rightarrow> closure \<Rightarrow> string \<Rightarrow> db \<Rightarrow> error + db" where
  "invalidateForgettingClosure now c reason d =
    rbind (fold_res (invalidate_record now reason (\<lambda>x. sm_status x = RecordStatusActive)) (ordered c) d) (\<lambda>d.
    Inr (fold (cancelGovernedStewardJob now reason) (fc_jobs c) d))"

definition recordReceiptChange ::
  "instant \<Rightarrow> string \<Rightarrow> string \<Rightarrow> string \<Rightarrow> string \<Rightarrow> closure \<Rightarrow> string \<Rightarrow> db \<Rightarrow> error + db" where
  "recordReceiptChange now spaceID labelDigest kind receiptID c recordKind d =
    rbind (recordMemoryChange now spaceID labelDigest kind receiptID [] d) (\<lambda>d.
    fold_res (\<lambda>r d. recordMemoryChange now (snd r) labelDigest recordKind receiptID (fst r) d) (ordered c) d)"

text \<open>The part that deletion and correction share, from the barrier to the change log.\<close>

definition by_kind :: "barrier_kind \<Rightarrow> 'a \<Rightarrow> 'a \<Rightarrow> 'a" where
  "by_kind kind deleted corrected = (case kind of BarrierReceiptDeleted \<Rightarrow> deleted | BarrierReceiptCorrected \<Rightarrow> corrected)"

definition govern_receipt ::
  "instant \<Rightarrow> (nat \<Rightarrow> bool) \<Rightarrow> barrier_kind \<Rightarrow> string \<Rightarrow> string \<Rightarrow> string \<Rightarrow> db \<Rightarrow> error + (nat \<times> db)" where
  "govern_receipt now expired kind spaceID labelDigest receiptID d =
    rbind (map_err (\<lambda>_. databaseError (by_kind kind ''record receipt forgetting barrier'' ''record correction barrier'')) (insertForgettingBarrier now spaceID labelDigest kind receiptID d)) (\<lambda>(version, d).
    let d = suppressEvidenceSource receiptID (kind = BarrierReceiptDeleted) d in
    rbind (map_err (\<lambda>_. databaseError (by_kind kind ''invalidate deleted semantic Records'' ''invalidate corrected semantic Records''))
      (invalidateSemanticRecordsForReceipt now receiptID (by_kind kind ''receipt_deleted'' ''receipt_corrected'') d)) (\<lambda>d.
    rbind (forgettingClosure d expired receiptID spaceID labelDigest) (\<lambda>c.
    rbind (map_err (\<lambda>_. databaseError (by_kind kind ''record forgotten derived history'' ''record corrected derived history'')) (persistForgettingClosure version c d)) (\<lambda>d.
    rbind (map_err (\<lambda>_. databaseError (by_kind kind ''invalidate forgotten derived history'' ''invalidate corrected derived history''))
      (invalidateForgettingClosure now c (by_kind kind ''receipt_deleted'' ''receipt_corrected'') d)) (\<lambda>d.
    rbind (recordReceiptChange now spaceID labelDigest (by_kind kind ''receipt_deleted'' ''receipt_corrected'') receiptID c (by_kind kind ''record_forgotten'' ''record_invalidated'') d) (\<lambda>d.
    Inr (version, d)))))))"

section \<open>Cleansing\<close>

definition barrierDerivedRecords :: "db \<Rightarrow> nat \<Rightarrow> derived_record list" where
  "barrierDerivedRecords d sequence =
    sort_key fst (map (\<lambda>b. (br_record_id b, br_space_id b)) (filter (\<lambda>b. br_sequence b = sequence) (forgetting_barrier_records d)))"

text \<open>The trigger \<open>semantic_revisions_immutable_update\<close>: what authorises a revision to be blanked.\<close>

definition cleansable :: "db \<Rightarrow> revision_row \<Rightarrow> bool" where
  "cleansable d v \<longleftrightarrow> list_ex (\<lambda>b. br_record_id b = rv_record_id v \<and>
     list_ex (\<lambda>f. fb_sequence f = br_sequence b \<and> fb_kind f = BarrierReceiptDeleted \<and> fb_space_id f = rv_space_id v)
       (forgetting_barriers d)) (forgetting_barrier_records d)"

definition blank_revision :: "revision_row \<Rightarrow> revision_row" where
  "blank_revision v = v\<lparr>rv_text := [], rv_fact := None, rv_kind := []\<rparr>"

definition cleanse_record :: "derived_record \<Rightarrow> db \<Rightarrow> error + db" where
  "cleanse_record r d =
    (let full = (\<lambda>v. rv_record_id v = fst r \<and> rv_space_id v = snd r \<and> (rv_text v \<noteq> [] \<or> rv_fact v \<noteq> None \<or> rv_kind v \<noteq> [])) in
     rbind (guard (list_all (\<lambda>v. full v \<longrightarrow> cleansable d v) (semantic_revisions d))
       (Errorf ''cleanse derived Revision contents: semantic revision is immutable'')) (\<lambda>_.
     let d = d\<lparr>semantic_revisions := tbl_update full blank_revision (semantic_revisions d)\<rparr>;
         d = d\<lparr>semantic_records := tbl_update
           (\<lambda>x. sm_record_id x = fst r \<and> (sm_kind x \<noteq> [] \<or> sm_subject x \<noteq> [] \<or> sm_fact_key x \<noteq> []))
           (\<lambda>x. x\<lparr>sm_kind := [], sm_subject := [], sm_fact_key := []\<rparr>) (semantic_records d)\<rparr> in
     rbind (of_opt (Errorf ''resolve governance cleanup index'') (readSemanticSpaceIndex d (snd r))) (\<lambda>tableName.
     Inr (delete_semantic_projection tableName (fst r) d))))"

definition anchors :: "db \<Rightarrow> job_row \<Rightarrow> bool" where
  "anchors d j \<longleftrightarrow> list_ex (\<lambda>v. rv_job_id v = Some (jb_job_id j) \<and> rv_space_id v = jb_space_id j) (semantic_revisions d)"

definition read_forgotten :: "db \<Rightarrow> nat \<Rightarrow> job_row \<Rightarrow> bool" where
  "read_forgotten d sequence j \<longleftrightarrow> list_ex (\<lambda>x. rs_job_id x = jb_job_id j \<and>
     list_ex (\<lambda>b. br_record_id b = rs_record_id x \<and> br_sequence b = sequence) (forgetting_barrier_records d)) (steward_read_set d)"

definition cleanseDerivedHistory :: "instant \<Rightarrow> barrier_row \<Rightarrow> db \<Rightarrow> error + db" where
  "cleanseDerivedHistory now barrier d =
    rbind (fold_res cleanse_record (barrierDerivedRecords d (fb_sequence barrier)) d) (\<lambda>d.
    let d = d\<lparr>steward_jobs := tbl_delete (\<lambda>j. jb_receipt_id j = fb_receipt_id barrier \<and> \<not> anchors d j) (steward_jobs d)\<rparr>;
        jobs = map jb_job_id (filter (\<lambda>j. open_job j \<and> jb_space_id j = fb_space_id barrier \<and>
          jb_label_set_digest j = fb_label_set_digest barrier \<and>
          (jb_receipt_id j = fb_receipt_id barrier \<or> read_forgotten d (fb_sequence barrier) j)) (steward_jobs d))
    in Inr (fold (cancelGovernedStewardJob now ''receipt_forgotten'') jobs d))"

definition cleanupForgettingBarrier ::
  "instant \<Rightarrow> commit_outcome \<Rightarrow> barrier_row \<Rightarrow> db \<Rightarrow> (error + unit) \<times> db" where
  "cleanupForgettingBarrier now out barrier d =
    (case barrier_of (fb_sequence barrier) d of
       None \<Rightarrow> (Inr (), d)
     | Some stored \<Rightarrow>
        if fb_status stored = BarrierCleaned then (Inr (), d)
        else case (if fb_kind barrier = BarrierReceiptDeleted then cleanseDerivedHistory now barrier d else Inr d) of
          Inl e \<Rightarrow> (Inl e, d)
        | Inr d' \<Rightarrow> commit_tx out (Errorf ''commit governance cleanup'') d
            (d'\<lparr>forgetting_barriers := tbl_update (\<lambda>b. fb_sequence b = fb_sequence barrier \<and> fb_status b = BarrierPending)
               (\<lambda>b. b\<lparr>fb_status := BarrierCleaned, fb_cleaned_at := Some now\<rparr>) (forgetting_barriers d')\<rparr>) ())"

text \<open>\<open>clock\<close> and \<open>outs\<close> give the clock reading and the commit outcome of each barrier's
  transaction.\<close>

fun cleanup_all ::
  "(nat \<Rightarrow> instant) \<Rightarrow> (nat \<Rightarrow> commit_outcome) \<Rightarrow> nat \<Rightarrow> barrier_row list \<Rightarrow> db \<Rightarrow> (error + unit) \<times> db" where
  "cleanup_all clock outs k [] d = (Inr (), d)"
| "cleanup_all clock outs k (b # bs) d =
    (case cleanupForgettingBarrier (clock k) (outs k) b d of
       (Inl e, d') \<Rightarrow> (Inl e, d')
     | (Inr _, d') \<Rightarrow> cleanup_all clock outs (Suc k) bs d')"

definition RecoverGovernanceCleanup :: "(nat \<Rightarrow> instant) \<Rightarrow> (nat \<Rightarrow> commit_outcome) \<Rightarrow> db \<Rightarrow> (error + unit) \<times> db" where
  "RecoverGovernanceCleanup clock outs d =
    cleanup_all clock outs 0 (sort_key fb_sequence (filter (\<lambda>b. fb_status b = BarrierPending) (forgetting_barriers d))) d"

section \<open>Management effects\<close>

definition lookupManagementEffect :: "db \<Rightarrow> string \<Rightarrow> string \<Rightarrow> string \<Rightarrow> error + effect_result option" where
  "lookupManagementEffect d op key digest =
    (case List.find (\<lambda>e. ef_operation e = op \<and> ef_idempotency_key e = key) (management_effects d) of
       None \<Rightarrow> Inr None
     | Some e \<Rightarrow>
        rbind (guard (ef_request_digest e = digest)
          (serviceError ErrorCodeConflict ''management idempotency key conflicts with an existing effect'' False)) (\<lambda>_.
        Inr (Some (ef_result e))))"

definition storeManagementEffect ::
  "string \<Rightarrow> string \<Rightarrow> string \<Rightarrow> effect_result \<Rightarrow> instant \<Rightarrow> db \<Rightarrow> error + db" where
  "storeManagementEffect op key digest result createdAt d =
    of_opt (databaseError ''store management idempotency state'')
      (insert_effect \<lparr>ef_operation = op, ef_idempotency_key = key, ef_request_digest = digest, ef_result = result,
         ef_created_at = createdAt\<rparr> d)"

definition stored_result_invalid :: error where
  "stored_result_invalid = serviceError ErrorCodeInternal ''stored management result is invalid'' False"

definition receipt_barriers :: "db \<Rightarrow> string \<Rightarrow> barrier_row list" where
  "receipt_barriers d receiptID = filter (\<lambda>b. fb_receipt_id b = receiptID) (forgetting_barriers d)"

definition barrier_version :: "barrier_row list \<Rightarrow> nat" where
  "barrier_version bs = fold max (map fb_sequence bs) 0"

definition has_pending :: "barrier_row list \<Rightarrow> bool" where
  "has_pending bs \<longleftrightarrow> list_ex (\<lambda>b. fb_status b = BarrierPending) bs"

definition cleanup_state_of :: "barrier_row list \<Rightarrow> cleanup_state" where
  "cleanup_state_of bs =
    (if barrier_version bs = 0 then CleanupStateNone else if has_pending bs then CleanupStatePending else CleanupStateCompleted)"

definition refreshCleanupReporting :: "db \<Rightarrow> string \<Rightarrow> delete_response \<Rightarrow> delete_response" where
  "refreshCleanupReporting d receiptID r =
    (let bs = receipt_barriers d receiptID in
     r\<lparr>dr_invalidation_version := barrier_version bs, dr_cleanup := cleanup_state_of bs\<rparr>)"

section \<open>Deletion\<close>

record governance_env =
  ge_now :: instant
  ge_random :: string
  ge_expired :: "nat \<Rightarrow> bool"
  ge_commit :: commit_outcome
  ge_barrier_fault :: bool
  ge_cleanup_now :: instant
  ge_cleanup_commit :: commit_outcome

datatype delete_step =
  Replayed delete_response | AlreadyDeleted delete_response db | Deleted delete_response barrier_row db

definition delete_receipt_rows :: "string \<Rightarrow> db \<Rightarrow> db" where
  "delete_receipt_rows receiptID d =
    d\<lparr>receipt_processing := tbl_delete (\<lambda>p. pc_receipt_id p = receiptID) (receipt_processing d),
      receipts := tbl_delete (\<lambda>r. rt_receipt_id r = receiptID) (receipts d)\<rparr>"

definition delete_new :: "governance_env \<Rightarrow> delete_request \<Rightarrow> string \<Rightarrow> receipt_row \<Rightarrow> db \<Rightarrow> error + delete_step" where
  "delete_new env request digest receipt d =
    (let receiptID = dq_receipt_id request; spaceID = rt_space_id receipt; now = ge_now env in
     rbind (of_opt (serviceError ErrorCodeInternal ''failed to create tombstone identity'' False) (randomHex 16 (ge_random env))) (\<lambda>(suffix, _).
     rbind (govern_receipt now (ge_expired env) BarrierReceiptDeleted spaceID (rt_label_set_digest receipt) receiptID d) (\<lambda>(version, d).
     rbind (of_opt (databaseError ''store receipt tombstone'')
       (insert_tombstone \<lparr>tb_tombstone_id = ''tombstone-'' @ suffix, tb_receipt_id = receiptID, tb_space_id = spaceID,
          tb_idempotency_key = rt_idempotency_key receipt, tb_request_digest = rt_request_digest receipt, tb_deleted_at = now,
          tb_reason = dq_reason request\<rparr> d)) (\<lambda>d.
     rbind (of_opt (databaseError ''resolve deletion Space index'') (readSpaceIndex d spaceID)) (\<lambda>tableName.
     let d = delete_receipt_rows receiptID (delete_receipt_projection tableName receiptID d);
         response = \<lparr>dr_deleted = True, dr_receipt_id = receiptID, dr_tombstone_id = ''tombstone-'' @ suffix,
           dr_deduplicated_retry = False, dr_session_copy_boundary = sessionCopyBoundary,
           dr_invalidation_version = version, dr_cleanup = CleanupStatePending\<rparr> in
     rbind (storeManagementEffect ''delete_receipt'' (dq_idempotency_key request) digest (DeleteEffect response) now d) (\<lambda>d.
     Inr (Deleted response
       \<lparr>fb_sequence = version, fb_space_id = spaceID, fb_label_set_digest = rt_label_set_digest receipt,
        fb_kind = BarrierReceiptDeleted, fb_receipt_id = receiptID, fb_status = BarrierPending,
        fb_created_at = now, fb_cleaned_at = None\<rparr> d)))))))"

definition delete_gone :: "governance_env \<Rightarrow> delete_request \<Rightarrow> string \<Rightarrow> db \<Rightarrow> error + delete_step" where
  "delete_gone env request digest d =
    rbind (of_opt (serviceError ErrorCodeNotFound ''receipt not found'' False)
      (List.find (\<lambda>t. tb_receipt_id t = dq_receipt_id request) (receipt_tombstones d))) (\<lambda>t.
    let response = refreshCleanupReporting d (dq_receipt_id request)
      \<lparr>dr_deleted = True, dr_receipt_id = dq_receipt_id request, dr_tombstone_id = tb_tombstone_id t,
       dr_deduplicated_retry = True, dr_session_copy_boundary = sessionCopyBoundary,
       dr_invalidation_version = 0, dr_cleanup = CleanupStateNone\<rparr> in
    rbind (storeManagementEffect ''delete_receipt'' (dq_idempotency_key request) digest (DeleteEffect response) (ge_now env) d) (\<lambda>d.
    Inr (AlreadyDeleted response d)))"

definition delete_tx :: "governance_env \<Rightarrow> delete_request \<Rightarrow> db \<Rightarrow> error + delete_step" where
  "delete_tx env request d =
    (let digest = digestString (json_encode (json_delete_request request)) in
     rbind (lookupManagementEffect d ''delete_receipt'' (dq_idempotency_key request) digest) (\<lambda>previous.
     case previous of
       Some (DeleteEffect r) \<Rightarrow> Inr (Replayed ((refreshCleanupReporting d (dq_receipt_id request) r)\<lparr>dr_deduplicated_retry := True\<rparr>))
     | Some (CorrectEffect _) \<Rightarrow> Inl stored_result_invalid
     | None \<Rightarrow>
        (case receipt_of (dq_receipt_id request) d of
           None \<Rightarrow> delete_gone env request digest d
         | Some receipt \<Rightarrow> delete_new env request digest receipt d)))"

definition delete_unknown :: "string \<Rightarrow> error" where
  "delete_unknown message = serviceError ErrorCodeUnknownOutcome message True"

definition DeleteReceipt ::
  "store \<Rightarrow> governance_env \<Rightarrow> delete_request \<Rightarrow> db \<Rightarrow> (error + delete_response) \<times> db" where
  "DeleteReceipt s env request d =
    (case rbind (requireMutableGeneration s) (\<lambda>_.
          rbind (map_err (\<lambda>m. serviceError ErrorCodeInvalidArgument m False) (validate_delete_request request)) (\<lambda>_.
          delete_tx env request d)) of
       Inl e \<Rightarrow> (Inl e, d)
     | Inr (Replayed r) \<Rightarrow> (Inr r, d)
     | Inr (AlreadyDeleted r d') \<Rightarrow>
         commit_tx (ge_commit env) (delete_unknown ''deletion commit outcome is unknown; retry the same effect identity'') d d' r
     | Inr (Deleted r barrier d') \<Rightarrow>
        (case commit_tx (ge_commit env) (delete_unknown ''deletion commit outcome is unknown; retry the same effect identity'') d d' r of
           (Inl e, d'') \<Rightarrow> (Inl e, d'')
         | (Inr r, d'') \<Rightarrow>
            if ge_barrier_fault env
            then (Inl (delete_unknown ''forgetting barrier committed; managed history cleansing did not run''), d'')
            else (case cleanupForgettingBarrier (ge_cleanup_now env) (ge_cleanup_commit env) barrier d'' of
                    (Inl _, d3) \<Rightarrow> (Inr r, d3)
                  | (Inr _, d3) \<Rightarrow> (Inr (r\<lparr>dr_cleanup := CleanupStateCompleted\<rparr>), d3))))"

section \<open>Correction\<close>

definition correction_request :: "correct_request \<Rightarrow> remember_request" where
  "correction_request request =
    \<lparr>rem_text = cq_replacement_text request,
     rem_source_context = no_source\<lparr>sc_source_type := ''management_correction'',
       sc_extension_labels := [(''corrects_receipt'', cq_receipt_id request)]\<rparr>,
     rem_occurred_at = None,
     rem_idempotency_key = ''management:correction:'' @ take 32 (digestString (cq_idempotency_key request))\<rparr>"

definition correct_writes ::
  "store \<Rightarrow> analyzer \<Rightarrow> instant \<Rightarrow> correct_request \<Rightarrow> receipt_row \<Rightarrow> stored_label_set \<Rightarrow> string \<Rightarrow> string \<Rightarrow> db \<Rightarrow> error + db" where
  "correct_writes s A now request original labels replacementID token d =
    (let spaceID = rt_space_id original; replacement = correction_request request in
     rbind (of_opt (databaseError ''store replacement receipt'')
       (insert_receipt \<lparr>rt_commit_sequence = 0, rt_receipt_id = replacementID, rt_space_id = spaceID,
          rt_text = cq_replacement_text request, rt_source_context = rem_source_context replacement, rt_occurred_at = None,
          rt_received_at = now, rt_idempotency_key = rem_idempotency_key replacement,
          rt_request_digest = rememberRequestDigest replacement (ls_labels labels), rt_consistency_token = token,
          rt_label_set = ls_labels labels, rt_label_set_digest = ls_digest labels\<rparr> d)) (\<lambda>d.
     rbind (of_opt (databaseError ''store replacement processing state'')
       (insert_processing (accepted_processing replacementID) d)) (\<lambda>d.
     rbind (of_opt (databaseError ''enqueue correction Steward job'')
       (enqueueStewardJob now replacementID spaceID (ls_labels labels) (ls_digest labels) d)) (\<lambda>d.
     rbind (of_opt (databaseError ''store correction cursor'')
       (insert_cursor \<lparr>cu_token = token, cu_generation = sto_generation s, cu_space_id = spaceID,
          cu_commit_sequence = receipts_seq d, cu_label_set_digest = ls_digest labels\<rparr> d)) (\<lambda>d.
     rbind (of_opt (databaseError ''resolve correction Space index'') (readSpaceIndex d spaceID)) (\<lambda>tableName.
     rbind (of_opt (databaseError ''index replacement receipt'')
       (indexReceiptProjection A tableName replacementID (cq_replacement_text request) [] d)) (\<lambda>d.
     of_opt (databaseError ''record receipt correction'')
       (insert_correction \<lparr>co_original_receipt_id = cq_receipt_id request, co_replacement_receipt_id = replacementID,
          co_space_id = spaceID, co_created_at = now, co_reason = cq_reason request\<rparr> d))))))))"

datatype correct_step = CorrectReplayed correct_response | Corrected correct_response barrier_row db

definition correct_new ::
  "store \<Rightarrow> analyzer \<Rightarrow> governance_env \<Rightarrow> correct_request \<Rightarrow> string \<Rightarrow> receipt_row \<Rightarrow> db \<Rightarrow> error + correct_step" where
  "correct_new s A env request digest original d =
    (let receiptID = cq_receipt_id request; spaceID = rt_space_id original; now = ge_now env in
     rbind (guard (\<not> is_corrected d receiptID)
       (serviceError ErrorCodeConflict ''receipt already has a replacement'' False)) (\<lambda>_.
     rbind (govern_receipt now (ge_expired env) BarrierReceiptCorrected spaceID (rt_label_set_digest original) receiptID d) (\<lambda>(version, d).
     rbind (of_opt (serviceError ErrorCodeInternal ''failed to create replacement receipt identity'' False)
       (randomHex 16 (ge_random env))) (\<lambda>(suffix, rnd).
     rbind (of_opt (serviceError ErrorCodeInternal ''failed to create correction cursor'' False) (randomToken 24 rnd)) (\<lambda>(token, _).
     rbind (map_err (\<lambda>_. serviceError ErrorCodeInternal ''stored receipt LabelSet is invalid'' False)
       (decodeStoredLabelSet (rt_label_set original) (rt_label_set_digest original))) (\<lambda>labels.
     rbind (correct_writes s A now request original labels (''receipt-'' @ suffix) token d) (\<lambda>d.
     let response = \<lparr>cr_original_receipt_id = receiptID, cr_replacement_receipt_id = ''receipt-'' @ suffix,
           cr_consistency_token = token, cr_deduplicated_retry = False\<rparr> in
     rbind (storeManagementEffect ''correct_receipt'' (cq_idempotency_key request) digest (CorrectEffect response) now d) (\<lambda>d.
     Inr (Corrected response
       \<lparr>fb_sequence = version, fb_space_id = spaceID, fb_label_set_digest = rt_label_set_digest original,
        fb_kind = BarrierReceiptCorrected, fb_receipt_id = receiptID, fb_status = BarrierPending,
        fb_created_at = now, fb_cleaned_at = None\<rparr> d)))))))))"

definition correct_tx ::
  "store \<Rightarrow> analyzer \<Rightarrow> governance_env \<Rightarrow> correct_request \<Rightarrow> db \<Rightarrow> error + correct_step" where
  "correct_tx s A env request d =
    (let digest = digestString (json_encode (json_correct_request request)) in
     rbind (lookupManagementEffect d ''correct_receipt'' (cq_idempotency_key request) digest) (\<lambda>previous.
     case previous of
       Some (CorrectEffect r) \<Rightarrow> Inr (CorrectReplayed (r\<lparr>cr_deduplicated_retry := True\<rparr>))
     | Some (DeleteEffect _) \<Rightarrow> Inl stored_result_invalid
     | None \<Rightarrow>
        rbind (of_opt (serviceError ErrorCodeNotFound ''receipt not found'' False) (receipt_of (cq_receipt_id request) d)) (\<lambda>original.
        correct_new s A env request digest original d)))"

definition CorrectReceipt ::
  "store \<Rightarrow> analyzer \<Rightarrow> governance_env \<Rightarrow> correct_request \<Rightarrow> db \<Rightarrow> (error + correct_response) \<times> db" where
  "CorrectReceipt s A env request d =
    (case rbind (requireMutableGeneration s) (\<lambda>_.
          rbind (map_err (\<lambda>m. serviceError ErrorCodeInvalidArgument m False) (validate_correct_request request)) (\<lambda>_.
          correct_tx s A env request d)) of
       Inl e \<Rightarrow> (Inl e, d)
     | Inr (CorrectReplayed r) \<Rightarrow> (Inr r, d)
     | Inr (Corrected r barrier d') \<Rightarrow>
        (case commit_tx (ge_commit env) (delete_unknown ''correction commit outcome is unknown; retry the same effect identity'') d d' r of
           (Inl e, d'') \<Rightarrow> (Inl e, d'')
         | (Inr r, d'') \<Rightarrow> (Inr r, snd (cleanupForgettingBarrier (ge_cleanup_now env) (ge_cleanup_commit env) barrier d''))))"

end
