(* ===== verification/Governance_Laws.thy ===== *)
theory Governance_Laws
  imports Governance
begin

text \<open>
  What deletion, correction and recovery guarantee. The transactions are described by what they
  leave alone (\<open>governed_frame\<close>, the derivation view that the closure reads) and by what they
  establish; the claims are proved from these descriptions.
\<close>

section \<open>What governing a receipt leaves alone\<close>

text \<open>All tables but the barriers, the record heads and their index, jobs, processing rows, sources
  and the change log.\<close>

definition erase_governed :: "db \<Rightarrow> db" where
  "erase_governed d = d\<lparr>forgetting_barriers := [], forgetting_barriers_seq := 0, forgetting_barrier_records := [],
     evidence_sources := [], semantic_records := [], semantic_fts := [], steward_jobs := [], receipt_processing := [],
     memory_changes := [], memory_changes_seq := 0\<rparr>"

text \<open>The columns of record heads and jobs that no governance step changes.\<close>

definition head_key :: "semantic_row \<Rightarrow> string \<times> string \<times> string \<times> nat" where
  "head_key r = (sm_record_id r, sm_space_id r, sm_label_set_digest r, sm_current_revision r)"

definition job_key_of :: "job_row \<Rightarrow> string \<times> string" where
  "job_key_of j = (jb_job_id j, jb_receipt_id j)"

definition governed_frame :: "db \<Rightarrow> db \<Rightarrow> bool" where
  "governed_frame d d' \<longleftrightarrow> erase_governed d' = erase_governed d \<and>
     map head_key (semantic_records d') = map head_key (semantic_records d) \<and>
     map job_key_of (steward_jobs d') = map job_key_of (steward_jobs d)"

lemma governed_frame_refl [simp]: "governed_frame d d"
  by (simp add: governed_frame_def)

lemma governed_frame_trans [trans]: "governed_frame d d1 \<Longrightarrow> governed_frame d1 d2 \<Longrightarrow> governed_frame d d2"
  by (simp add: governed_frame_def)

lemma governed_frameD:
  assumes "governed_frame d d'"
  shows "receipts d' = receipts d" "receipt_tombstones d' = receipt_tombstones d" "receipt_corrections d' = receipt_corrections d"
    "management_effects d' = management_effects d" "semantic_revisions d' = semantic_revisions d"
    "semantic_evidence d' = semantic_evidence d" "steward_read_set d' = steward_read_set d"
    "governance_legacy_revisions d' = governance_legacy_revisions d" "spaces d' = spaces d"
    "semantic_space_indexes d' = semantic_space_indexes d" "space_indexes d' = space_indexes d"
    "receipt_fts d' = receipt_fts d"
proof -
  have sel: "f (erase_governed d') = f (erase_governed d)" for f :: "db \<Rightarrow> 'x"
    using assms by (simp add: governed_frame_def)
  show "receipts d' = receipts d" using sel[of receipts] by (simp add: erase_governed_def)
  show "receipt_tombstones d' = receipt_tombstones d" using sel[of receipt_tombstones] by (simp add: erase_governed_def)
  show "receipt_corrections d' = receipt_corrections d" using sel[of receipt_corrections] by (simp add: erase_governed_def)
  show "management_effects d' = management_effects d" using sel[of management_effects] by (simp add: erase_governed_def)
  show "semantic_revisions d' = semantic_revisions d" using sel[of semantic_revisions] by (simp add: erase_governed_def)
  show "semantic_evidence d' = semantic_evidence d" using sel[of semantic_evidence] by (simp add: erase_governed_def)
  show "steward_read_set d' = steward_read_set d" using sel[of steward_read_set] by (simp add: erase_governed_def)
  show "governance_legacy_revisions d' = governance_legacy_revisions d"
    using sel[of governance_legacy_revisions] by (simp add: erase_governed_def)
  show "spaces d' = spaces d" using sel[of spaces] by (simp add: erase_governed_def)
  show "semantic_space_indexes d' = semantic_space_indexes d" using sel[of semantic_space_indexes] by (simp add: erase_governed_def)
  show "space_indexes d' = space_indexes d" using sel[of space_indexes] by (simp add: erase_governed_def)
  show "receipt_fts d' = receipt_fts d" using sel[of receipt_fts] by (simp add: erase_governed_def)
qed

lemma head_key_invalidated [simp]: "head_key (invalidated now reason r) = head_key r"
  by (simp add: head_key_def invalidated_def)

lemma job_key_fail [simp]: "job_key_of (fail_job now reason j) = job_key_of j"
  by (simp add: job_key_of_def fail_job_def)

lemma invalidate_record_frame: "invalidate_record now reason p r d = Inr d' \<Longrightarrow> governed_frame d d'"
  unfolding invalidate_record_def Let_def
  by (elim run_elims) (simp add: governed_frame_def erase_governed_def delete_semantic_projection_def map_tbl_update)

lemma cancel_frame [simp]: "governed_frame d (cancelGovernedStewardJob now reason j d)"
  by (simp add: cancelGovernedStewardJob_def governed_frame_def erase_governed_def map_tbl_update split: option.split)

lemma cancel_all_frame: "governed_frame d (fold (cancelGovernedStewardJob now reason) js d)"
  by (induction js arbitrary: d) (auto intro: governed_frame_trans cancel_frame)

lemma fold_res_frame:
  assumes "fold_res f xs d = Inr d'" and "\<And>x d d'. f x d = Inr d' \<Longrightarrow> governed_frame d d'"
  shows "governed_frame d d'"
  using fold_res_invariant[of f xs d d' "governed_frame d"] assms governed_frame_trans by (metis governed_frame_refl)

lemma recordMemoryChange_frame: "recordMemoryChange now s l k rc r d = Inr d' \<Longrightarrow> governed_frame d d'"
  unfolding recordMemoryChange_def insert_change_def Let_def
  by (elim run_elims) (auto simp: tbl_simps governed_frame_def erase_governed_def)

lemma insertForgettingBarrier_spec:
  assumes "insertForgettingBarrier now s l kind rc d = Inr (version, d')"
  shows "version = forgetting_barriers_seq d + 1" "governed_frame d d'" "\<not> (\<exists>b\<in>set (forgetting_barriers d). fb_sequence b = version)"
    "forgetting_barriers d' = forgetting_barriers d @ [\<lparr>fb_sequence = version, fb_space_id = s, fb_label_set_digest = l, fb_kind = kind,
           fb_receipt_id = rc, fb_status = BarrierPending, fb_created_at = now, fb_cleaned_at = None\<rparr>]"
    "forgetting_barrier_records d' = forgetting_barrier_records d" "semantic_records d' = semantic_records d"
    "steward_jobs d' = steward_jobs d"
  using assms unfolding insertForgettingBarrier_def insert_barrier_def Let_def
  by (elim run_elims; force simp: tbl_simps governed_frame_def erase_governed_def clash_barrier_def)+

lemma persist_frame: "persistForgettingClosure n c d = Inr d' \<Longrightarrow> governed_frame d d'"
  unfolding persistForgettingClosure_def
  by (erule fold_res_frame) (auto simp: insert_barrier_record_def tbl_simps governed_frame_def erase_governed_def elim!: run_elims)

lemma invalidate_receipt_frame: "invalidateSemanticRecordsForReceipt now rc reason d = Inr d' \<Longrightarrow> governed_frame d d'"
proof -
  assume "invalidateSemanticRecordsForReceipt now rc reason d = Inr d'"
  then obtain d1 where d1: "fold_res (invalidate_record now reason (\<lambda>_. True)) (cited_heads d rc) d = Inr d1"
    and d': "governed_frame d1 d'"
    unfolding invalidateSemanticRecordsForReceipt_def Let_def
    by (elim run_elims) (auto simp: governed_frame_def erase_governed_def map_tbl_update)
  show ?thesis using fold_res_frame[OF d1 invalidate_record_frame] d' by (rule governed_frame_trans)
qed

lemma invalidate_closure_frame:
  assumes "invalidateForgettingClosure now c reason d = Inr d'"
  shows "governed_frame d d'"
proof -
  obtain d1 where d1: "fold_res (invalidate_record now reason (\<lambda>x. sm_status x = RecordStatusActive)) (ordered c) d = Inr d1"
    and d': "d' = fold (cancelGovernedStewardJob now reason) (fc_jobs c) d1"
    using assms unfolding invalidateForgettingClosure_def by (elim run_elims) auto
  show ?thesis unfolding d'
    by (rule governed_frame_trans[OF fold_res_frame[OF d1 invalidate_record_frame] cancel_all_frame])
qed

lemma recordReceiptChange_frame:
  assumes "recordReceiptChange now s l k rc c rk d = Inr d'"
  shows "governed_frame d d'"
proof -
  obtain d1 where d1: "recordMemoryChange now s l k rc [] d = Inr d1"
    and d': "fold_res (\<lambda>r d. recordMemoryChange now (snd r) l rk rc (fst r) d) (ordered c) d1 = Inr d'"
    using assms unfolding recordReceiptChange_def by (elim run_elims) auto
  show ?thesis
    by (rule governed_frame_trans[OF recordMemoryChange_frame[OF d1] fold_res_frame[OF d' recordMemoryChange_frame]])
qed

section \<open>The closure reads only what is left alone\<close>

lemma map_eq_mem: "map f xs = map f ys \<Longrightarrow> x \<in> set xs \<Longrightarrow> \<exists>y\<in>set ys. f y = f x"
  by (metis (mono_tags, lifting) image_iff image_set)

lemma frame_spec_mono:
  assumes "governed_frame d d'"
  shows "attributed d rc s l x \<Longrightarrow> attributed d' rc s l x" and "tainted d rc s l y \<Longrightarrow> tainted d' rc s l y"
proof (induction rule: attributed_tainted.inducts)
  case (cites e)
  then show ?case using governed_frameD[OF assms] by (auto intro: attributed_tainted.cites)
next
  case (processes j)
  then obtain j' where "j' \<in> set (steward_jobs d')" "job_key_of j' = job_key_of j"
    using assms map_eq_mem[of job_key_of "steward_jobs d" "steward_jobs d'"] by (auto simp: governed_frame_def)
  with processes attributed_tainted.processes[of j' d' rc s l] show ?case by (simp add: job_key_of_def)
next
  case (reads_receipt x)
  then show ?case using governed_frameD[OF assms] by (auto intro: attributed_tainted.reads_receipt)
next
  case (produces j v)
  then show ?case using governed_frameD[OF assms] by (auto intro: attributed_tainted.produces)
next
  case (reads_record r x)
  then show ?case using governed_frameD[OF assms] by (auto intro: attributed_tainted.reads_record)
next
  case (refers r v x)
  then obtain x' where "x' \<in> set (semantic_records d')" "head_key x' = head_key x"
    using assms map_eq_mem[of head_key "semantic_records d" "semantic_records d'"] by (auto simp: governed_frame_def)
  with refers attributed_tainted.refers[of d' rc s l r v x'] governed_frameD[OF assms] show ?case
    by (simp add: head_key_def in_partition_def)
next
  case (predates r x k)
  then obtain x' where "x' \<in> set (semantic_records d')" "head_key x' = head_key x"
    using assms map_eq_mem[of head_key "semantic_records d" "semantic_records d'"] by (auto simp: governed_frame_def)
  with predates attributed_tainted.predates[of d' rc s l r x' k] governed_frameD[OF assms] show ?case
    by (simp add: head_key_def in_partition_def)
qed

lemma governed_frame_sym: "governed_frame d d' \<Longrightarrow> governed_frame d' d"
  by (simp add: governed_frame_def)

lemma frame_spec:
  assumes "governed_frame d d'"
  shows "attributed d' rc s l x \<longleftrightarrow> attributed d rc s l x" "tainted d' rc s l y \<longleftrightarrow> tainted d rc s l y"
  using frame_spec_mono[OF assms] frame_spec_mono[OF governed_frame_sym[OF assms]] by blast+

section \<open>What governing a receipt establishes\<close>

definition inactive_ids :: "db \<Rightarrow> string set" where
  "inactive_ids d = {k. \<forall>r\<in>set (semantic_records d). sm_record_id r = k \<longrightarrow> sm_status r \<noteq> RecordStatusActive}"

definition settled_ids :: "db \<Rightarrow> string set" where
  "settled_ids d = {k. \<forall>j\<in>set (steward_jobs d). jb_job_id j = k \<longrightarrow> \<not> open_job j}"

lemma inactive_ids_cong: "semantic_records d' = semantic_records d \<Longrightarrow> inactive_ids d' = inactive_ids d"
  by (simp add: inactive_ids_def)

lemma settled_ids_cong: "steward_jobs d' = steward_jobs d \<Longrightarrow> settled_ids d' = settled_ids d"
  by (simp add: settled_ids_def)

lemma invalidate_record_inactive:
  assumes "invalidate_record now reason (\<lambda>x. sm_status x = RecordStatusActive) r d = Inr d'"
  shows "insert (fst r) (inactive_ids d) \<subseteq> inactive_ids d'"
  using assms unfolding invalidate_record_def Let_def
  by (elim run_elims) (auto simp: inactive_ids_def tbl_simps invalidated_def delete_semantic_projection_def)

lemma invalidate_all_inactive:
  assumes "fold_res (invalidate_record now reason (\<lambda>x. sm_status x = RecordStatusActive)) rs d = Inr d'"
  shows "ids rs \<union> inactive_ids d \<subseteq> inactive_ids d'"
  using assms
proof (induction rs arbitrary: d)
  case Nil
  then show ?case by simp
next
  case (Cons r rs)
  then obtain d1 where d1: "invalidate_record now reason (\<lambda>x. sm_status x = RecordStatusActive) r d = Inr d1"
    and rest: "fold_res (invalidate_record now reason (\<lambda>x. sm_status x = RecordStatusActive)) rs d1 = Inr d'"
    by (auto elim: run_elims)
  show ?case using Cons.IH[OF rest] invalidate_record_inactive[OF d1] by auto
qed

lemma invalidate_record_tables:
  "invalidate_record now reason p r d = Inr d' \<Longrightarrow>
     forgetting_barriers d' = forgetting_barriers d \<and> forgetting_barrier_records d' = forgetting_barrier_records d \<and>
     steward_jobs d' = steward_jobs d"
  unfolding invalidate_record_def Let_def by (elim run_elims) (auto simp: delete_semantic_projection_def)

lemma cancel_settles: "insert k (settled_ids d) \<subseteq> settled_ids (cancelGovernedStewardJob now reason k d)"
proof (cases "List.find (\<lambda>j. jb_job_id j = k \<and> open_job j) (steward_jobs d)")
  case None
  then have "cancelGovernedStewardJob now reason k d = d" by (simp add: cancelGovernedStewardJob_def)
  with None show ?thesis by (auto simp: settled_ids_def find_None_iff)
next
  case (Some j)
  have closed: "\<not> open_job (fail_job now reason i)" "jb_job_id (fail_job now reason i) = jb_job_id i" for i
    by (simp_all add: fail_job_def open_job_def)
  have jobs: "steward_jobs (cancelGovernedStewardJob now reason k d) =
      tbl_update (\<lambda>j. jb_job_id j = k \<and> open_job j) (fail_job now reason) (steward_jobs d)"
    using Some by (simp add: cancelGovernedStewardJob_def)
  show ?thesis
  proof
    fix x
    assume x: "x \<in> insert k (settled_ids d)"
    have "\<not> open_job i" if i: "i \<in> set (steward_jobs (cancelGovernedStewardJob now reason k d))" "jb_job_id i = x" for i
    proof (cases "i \<in> set (steward_jobs d) \<and> \<not> (jb_job_id i = k \<and> open_job i)")
      case True
      with x i(2) show ?thesis by (auto simp: settled_ids_def)
    next
      case False
      with i(1) obtain i' where "i = fail_job now reason i'" unfolding jobs set_tbl_update by blast
      then show ?thesis by (simp add: closed)
    qed
    then show "x \<in> settled_ids (cancelGovernedStewardJob now reason k d)" by (simp add: settled_ids_def)
  qed
qed

lemma cancel_tables [simp]:
  "forgetting_barriers (cancelGovernedStewardJob now reason k d) = forgetting_barriers d"
  "forgetting_barrier_records (cancelGovernedStewardJob now reason k d) = forgetting_barrier_records d"
  "semantic_records (cancelGovernedStewardJob now reason k d) = semantic_records d"
  "semantic_revisions (cancelGovernedStewardJob now reason k d) = semantic_revisions d"
  by (simp_all add: cancelGovernedStewardJob_def split: option.split)

lemma cancel_all_tables [simp]:
  "forgetting_barriers (fold (cancelGovernedStewardJob now reason) ks d) = forgetting_barriers d"
  "forgetting_barrier_records (fold (cancelGovernedStewardJob now reason) ks d) = forgetting_barrier_records d"
  "semantic_records (fold (cancelGovernedStewardJob now reason) ks d) = semantic_records d"
  "semantic_revisions (fold (cancelGovernedStewardJob now reason) ks d) = semantic_revisions d"
  by (induction ks arbitrary: d) simp_all

lemma cancel_all_settles: "set ks \<union> settled_ids d \<subseteq> settled_ids (fold (cancelGovernedStewardJob now reason) ks d)"
proof (induction ks arbitrary: d)
  case (Cons k ks)
  from Cons.IH[of "cancelGovernedStewardJob now reason k d"] cancel_settles[of k d now reason] show ?case by auto
qed simp

text \<open>The order in which the jobs of a Go map are cancelled does not matter.\<close>

lemma cancel_commute:
  assumes "a \<noteq> b"
  shows "cancelGovernedStewardJob now reason a (cancelGovernedStewardJob now reason b d) =
    cancelGovernedStewardJob now reason b (cancelGovernedStewardJob now reason a d)"
proof -
  let ?upd = "\<lambda>k. tbl_update (\<lambda>j. jb_job_id j = k \<and> open_job j) (fail_job now reason)"
  have find: "List.find (\<lambda>j. jb_job_id j = x \<and> open_job j) (?upd y js) = List.find (\<lambda>j. jb_job_id j = x \<and> open_job j) js"
    if "x \<noteq> y" for x y js
    using that by (induction js) (auto simp: fail_job_def)
  have jobs: "?upd a (?upd b js) = ?upd b (?upd a js)" for js
    using assms by (induction js) (auto simp: fail_job_def)
  have rows: "tbl_update (\<lambda>p. pc_receipt_id p = x \<and> settling p) (fail_processing now reason)
      (tbl_update (\<lambda>p. pc_receipt_id p = y \<and> settling p) (fail_processing now reason) ps) =
    tbl_update (\<lambda>p. pc_receipt_id p = y \<and> settling p) (fail_processing now reason)
      (tbl_update (\<lambda>p. pc_receipt_id p = x \<and> settling p) (fail_processing now reason) ps)" for x y ps
    by (induction ps) (auto simp: fail_processing_def settling_def)
  show ?thesis using assms
    by (cases "List.find (\<lambda>j. jb_job_id j = a \<and> open_job j) (steward_jobs d)";
        cases "List.find (\<lambda>j. jb_job_id j = b \<and> open_job j) (steward_jobs d)")
       (simp_all add: cancelGovernedStewardJob_def find jobs rows)
qed

lemma persist_records:
  assumes "persistForgettingClosure n c d = Inr d'"
  shows "forgetting_barrier_records d' = forgetting_barrier_records d @
      map (\<lambda>x. \<lparr>br_sequence = n, br_record_id = fst x, br_space_id = snd x\<rparr>) (ordered c) \<and>
    forgetting_barriers d' = forgetting_barriers d \<and> semantic_records d' = semantic_records d \<and> steward_jobs d' = steward_jobs d"
proof -
  have "fold_res (\<lambda>r d. of_opt (Errorf ''record barrier derived Record'')
      (insert_barrier_record \<lparr>br_sequence = n, br_record_id = fst r, br_space_id = snd r\<rparr> d)) xs d = Inr d' \<Longrightarrow>
      forgetting_barrier_records d' = forgetting_barrier_records d @
      map (\<lambda>x. \<lparr>br_sequence = n, br_record_id = fst x, br_space_id = snd x\<rparr>) xs \<and>
    forgetting_barriers d' = forgetting_barriers d \<and> semantic_records d' = semantic_records d \<and> steward_jobs d' = steward_jobs d" for xs
    by (induction xs arbitrary: d) (fastforce simp: insert_barrier_record_def tbl_simps elim!: run_elims)+
  from this[of "ordered c"] assms show ?thesis by (simp add: persistForgettingClosure_def)
qed

lemma recordReceiptChange_tables:
  assumes "recordReceiptChange now s l k rc c rk d = Inr d'"
  shows "forgetting_barriers d' = forgetting_barriers d \<and> forgetting_barrier_records d' = forgetting_barrier_records d \<and>
    semantic_records d' = semantic_records d \<and> steward_jobs d' = steward_jobs d"
proof -
  let ?P = "\<lambda>e. forgetting_barriers e = forgetting_barriers d \<and> forgetting_barrier_records e = forgetting_barrier_records d \<and>
    semantic_records e = semantic_records d \<and> steward_jobs e = steward_jobs d"
  have step: "?P e'" if "?P e" "recordMemoryChange now s' l' k' rc' r' e = Inr e'" for e e' s' l' k' rc' r'
    using that unfolding recordMemoryChange_def insert_change_def Let_def by (elim run_elims) (auto simp: tbl_simps)
  obtain d1 where d1: "recordMemoryChange now s l k rc [] d = Inr d1"
    and d': "fold_res (\<lambda>r d. recordMemoryChange now (snd r) l rk rc (fst r) d) (ordered c) d1 = Inr d'"
    using assms unfolding recordReceiptChange_def by (elim run_elims) auto
  have "?P d1" using step[OF _ d1] by blast
  with d' show ?thesis by (rule fold_res_invariant) (rule step)
qed

lemma invalidate_closure_establishes:
  assumes "invalidateForgettingClosure now c reason d = Inr d'"
  shows "closure_records c \<subseteq> inactive_ids d' \<and> closure_jobs c \<subseteq> settled_ids d' \<and>
    forgetting_barriers d' = forgetting_barriers d \<and> forgetting_barrier_records d' = forgetting_barrier_records d"
proof -
  let ?inv = "invalidate_record now reason (\<lambda>x. sm_status x = RecordStatusActive)"
  obtain d1 where d1: "fold_res ?inv (ordered c) d = Inr d1"
    and d': "d' = fold (cancelGovernedStewardJob now reason) (fc_jobs c) d1"
    using assms unfolding invalidateForgettingClosure_def by (elim run_elims) auto
  have "ids (ordered c) = closure_records c" by (simp add: ids_def ordered_def)
  then have "closure_records c \<subseteq> inactive_ids d'"
    using invalidate_all_inactive[OF d1] inactive_ids_cong[of d' d1] unfolding d' by (simp only: cancel_all_tables) blast
  moreover have "closure_jobs c \<subseteq> settled_ids d'" using cancel_all_settles[of "fc_jobs c" d1] unfolding d' by blast
  moreover have "forgetting_barriers d1 = forgetting_barriers d \<and> forgetting_barrier_records d1 = forgetting_barrier_records d"
    using fold_res_invariant[OF d1, of "\<lambda>e. forgetting_barriers e = forgetting_barriers d \<and>
      forgetting_barrier_records e = forgetting_barrier_records d"] invalidate_record_tables by (metis (no_types, lifting))
  ultimately show ?thesis unfolding d' by simp
qed

lemma invalidate_receipt_tables:
  assumes "invalidateSemanticRecordsForReceipt now rc reason d = Inr d'"
  shows "forgetting_barriers d' = forgetting_barriers d \<and> forgetting_barrier_records d' = forgetting_barrier_records d"
proof -
  obtain d1 where d1: "fold_res (invalidate_record now reason (\<lambda>_. True)) (cited_heads d rc) d = Inr d1"
    and d': "forgetting_barriers d' = forgetting_barriers d1" "forgetting_barrier_records d' = forgetting_barrier_records d1"
    using assms unfolding invalidateSemanticRecordsForReceipt_def Let_def by (elim run_elims) auto
  from d1 have "forgetting_barriers d1 = forgetting_barriers d \<and> forgetting_barrier_records d1 = forgetting_barrier_records d"
    by (rule fold_res_invariant) (auto dest: invalidate_record_tables)
  with d' show ?thesis by simp
qed

lemma suppress_frame [simp]: "governed_frame d (suppressEvidenceSource rc clear d)"
  by (simp add: suppressEvidenceSource_def governed_frame_def erase_governed_def)

lemma suppress_tables [simp]:
  "forgetting_barriers (suppressEvidenceSource rc clear d) = forgetting_barriers d"
  "forgetting_barrier_records (suppressEvidenceSource rc clear d) = forgetting_barrier_records d"
  by (simp_all add: suppressEvidenceSource_def)

text \<open>The specification of the shared part: the frame, the new barrier, and that the barrier names
  every attributed record, which is no longer active, while no tainted job stays open.\<close>

definition new_barrier :: "instant \<Rightarrow> string \<Rightarrow> string \<Rightarrow> barrier_kind \<Rightarrow> string \<Rightarrow> nat \<Rightarrow> barrier_row" where
  "new_barrier now s l kind rc version = \<lparr>fb_sequence = version, fb_space_id = s, fb_label_set_digest = l, fb_kind = kind,
     fb_receipt_id = rc, fb_status = BarrierPending, fb_created_at = now, fb_cleaned_at = None\<rparr>"

lemma govern_receipt_InrE:
  assumes "govern_receipt now expired kind s l rc d = Inr (version, d')"
  obtains c d1 where "governed_frame d d1" "forgettingClosure d1 expired rc s l = Inr c" "governed_frame d d'"
    "version = forgetting_barriers_seq d + 1" "\<not> (\<exists>b\<in>set (forgetting_barriers d). fb_sequence b = version)"
    "forgetting_barriers d' = forgetting_barriers d @ [new_barrier now s l kind rc version]"
    "forgetting_barrier_records d' = forgetting_barrier_records d @
      map (\<lambda>x. \<lparr>br_sequence = version, br_record_id = fst x, br_space_id = snd x\<rparr>) (ordered c)"
    "\<And>r. attributed d rc s l r \<Longrightarrow> r \<in> ids (fc_records c) \<and> r \<in> inactive_ids d'"
    "\<And>j. tainted d rc s l j \<Longrightarrow> j \<in> settled_ids d'"
proof -
  obtain d0 d2 c d3 d4 where
    0: "insertForgettingBarrier now s l kind rc d = Inr (version, d0)" and
    2: "invalidateSemanticRecordsForReceipt now rc (by_kind kind ''receipt_deleted'' ''receipt_corrected'')
      (suppressEvidenceSource rc (kind = BarrierReceiptDeleted) d0) = Inr d2" and
    c: "forgettingClosure d2 expired rc s l = Inr c" and
    3: "persistForgettingClosure version c d2 = Inr d3" and
    4: "invalidateForgettingClosure now c (by_kind kind ''receipt_deleted'' ''receipt_corrected'') d3 = Inr d4" and
    5: "recordReceiptChange now s l (by_kind kind ''receipt_deleted'' ''receipt_corrected'') rc c
      (by_kind kind ''record_forgotten'' ''record_invalidated'') d4 = Inr d'"
    using assms unfolding govern_receipt_def Let_def by (elim run_elims) (clarsimp elim!: run_elims)
  note b = insertForgettingBarrier_spec[OF 0]
  have f2: "governed_frame d d2"
    using b(2) invalidate_receipt_frame[OF 2] suppress_frame governed_frame_trans by metis
  have f: "governed_frame d d'"
    using f2 persist_frame[OF 3] invalidate_closure_frame[OF 4] recordReceiptChange_frame[OF 5] governed_frame_trans by metis
  have t2: "forgetting_barriers d2 = forgetting_barriers d @ [new_barrier now s l kind rc version]"
    "forgetting_barrier_records d2 = forgetting_barrier_records d"
    using invalidate_receipt_tables[OF 2] b(4,5) by (simp_all add: new_barrier_def)
  note t3 = persist_records[OF 3] and t4 = invalidate_closure_establishes[OF 4] and t5 = recordReceiptChange_tables[OF 5]
  note spec = forgettingClosure_spec[OF c] frame_spec[OF f2]
  show ?thesis
  proof (rule that[OF f2 c f])
    show "version = forgetting_barriers_seq d + 1" "\<not> (\<exists>x\<in>set (forgetting_barriers d). fb_sequence x = version)"
      by (rule b)+
    show "forgetting_barriers d' = forgetting_barriers d @ [new_barrier now s l kind rc version]"
      "forgetting_barrier_records d' = forgetting_barrier_records d @
        map (\<lambda>x. \<lparr>br_sequence = version, br_record_id = fst x, br_space_id = snd x\<rparr>) (ordered c)"
      using t2 t3 t4 t5 by simp_all
    show "r \<in> ids (fc_records c) \<and> r \<in> inactive_ids d'" if "attributed d rc s l r" for r
      using that t4 t5 spec inactive_ids_cong[of d' d4] by auto
    show "j \<in> settled_ids d'" if "tainted d rc s l j" for j
      using that t4 t5 spec settled_ids_cong[of d' d4] by auto
  qed
qed

section \<open>Cleansing\<close>

lemma cleanse_record_InrE:
  assumes "cleanse_record r d = Inr d'"
  shows "semantic_revisions d' = tbl_update (\<lambda>v. (rv_record_id v, rv_space_id v) = r) blank_revision (semantic_revisions d)"
    "\<forall>x\<in>set (semantic_records d'). sm_record_id x = fst r \<longrightarrow> sm_kind x = [] \<and> sm_subject x = [] \<and> sm_fact_key x = []"
    "\<And>k. \<forall>x\<in>set (semantic_records d). sm_record_id x = k \<longrightarrow> sm_kind x = [] \<and> sm_subject x = [] \<and> sm_fact_key x = [] \<Longrightarrow>
      \<forall>x\<in>set (semantic_records d'). sm_record_id x = k \<longrightarrow> sm_kind x = [] \<and> sm_subject x = [] \<and> sm_fact_key x = []"
    "forgetting_barriers d' = forgetting_barriers d" "forgetting_barrier_records d' = forgetting_barrier_records d"
proof -
  let ?full = "\<lambda>v. rv_record_id v = fst r \<and> rv_space_id v = snd r \<and> (rv_text v \<noteq> [] \<or> rv_fact v \<noteq> None \<or> rv_kind v \<noteq> [])"
  have "tbl_update ?full blank_revision vs = tbl_update (\<lambda>v. (rv_record_id v, rv_space_id v) = r) blank_revision vs" for vs
    by (induction vs) (auto simp: blank_revision_def)
  then show "semantic_revisions d' = tbl_update (\<lambda>v. (rv_record_id v, rv_space_id v) = r) blank_revision (semantic_revisions d)"
    using assms unfolding cleanse_record_def Let_def by (elim run_elims) (simp add: delete_semantic_projection_def)
  show "\<forall>x\<in>set (semantic_records d'). sm_record_id x = fst r \<longrightarrow> sm_kind x = [] \<and> sm_subject x = [] \<and> sm_fact_key x = []"
    using assms unfolding cleanse_record_def Let_def by (elim run_elims) (auto simp: delete_semantic_projection_def tbl_simps)
  show "\<And>k. \<forall>x\<in>set (semantic_records d). sm_record_id x = k \<longrightarrow> sm_kind x = [] \<and> sm_subject x = [] \<and> sm_fact_key x = [] \<Longrightarrow>
      \<forall>x\<in>set (semantic_records d'). sm_record_id x = k \<longrightarrow> sm_kind x = [] \<and> sm_subject x = [] \<and> sm_fact_key x = []"
    using assms unfolding cleanse_record_def Let_def by (elim run_elims) (auto simp: delete_semantic_projection_def tbl_simps)
  show "forgetting_barriers d' = forgetting_barriers d" "forgetting_barrier_records d' = forgetting_barrier_records d"
    using assms unfolding cleanse_record_def Let_def by (elim run_elims; simp add: delete_semantic_projection_def)+
qed

definition blank_head :: "db \<Rightarrow> string \<Rightarrow> bool" where
  "blank_head d k \<longleftrightarrow> (\<forall>x\<in>set (semantic_records d). sm_record_id x = k \<longrightarrow> sm_kind x = [] \<and> sm_subject x = [] \<and> sm_fact_key x = [])"

lemma cleanse_all:
  assumes "fold_res cleanse_record rs d = Inr d'"
  shows "semantic_revisions d' = tbl_update (\<lambda>v. (rv_record_id v, rv_space_id v) \<in> set rs) blank_revision (semantic_revisions d) \<and>
    (\<forall>k. k \<in> ids rs \<or> blank_head d k \<longrightarrow> blank_head d' k) \<and>
    forgetting_barriers d' = forgetting_barriers d \<and> forgetting_barrier_records d' = forgetting_barrier_records d"
  using assms
proof (induction rs arbitrary: d)
  case Nil
  then show ?case by (simp add: tbl_update_none)
next
  case (Cons r rs)
  then obtain d1 where d1: "cleanse_record r d = Inr d1" and rest: "fold_res cleanse_record rs d1 = Inr d'"
    by (auto elim: run_elims)
  note one = cleanse_record_InrE[OF d1] and IH = Cons.IH[OF rest]
  have "tbl_update (\<lambda>v. (rv_record_id v, rv_space_id v) \<in> set rs) blank_revision
      (tbl_update (\<lambda>v. (rv_record_id v, rv_space_id v) = r) blank_revision vs) =
    tbl_update (\<lambda>v. (rv_record_id v, rv_space_id v) \<in> set (r # rs)) blank_revision vs" for vs
    by (induction vs) (auto simp: blank_revision_def)
  moreover have "blank_head d1 (fst r)" "\<And>k. blank_head d k \<Longrightarrow> blank_head d1 k"
    using one(2,3) unfolding blank_head_def by blast+
  ultimately show ?case using IH one(1,4,5) by auto
qed

text \<open>The records of a barrier hold no content any more.\<close>

definition cleansed :: "db \<Rightarrow> nat \<Rightarrow> bool" where
  "cleansed d sequence \<longleftrightarrow> (\<forall>b\<in>set (forgetting_barrier_records d). br_sequence b = sequence \<longrightarrow>
     blank_head d (br_record_id b) \<and>
     (\<forall>v\<in>set (semantic_revisions d). rv_record_id v = br_record_id b \<and> rv_space_id v = br_space_id b \<longrightarrow> blank_revision v = v))"

lemma blank_revision_idem [simp]: "blank_revision (blank_revision v) = blank_revision v"
  by (simp add: blank_revision_def)

lemma blank_revision_key [simp]: "rv_record_id (blank_revision v) = rv_record_id v" "rv_space_id (blank_revision v) = rv_space_id v"
  "rv_revision (blank_revision v) = rv_revision v" "rv_job_id (blank_revision v) = rv_job_id v"
  by (simp_all add: blank_revision_def)

lemma cleanseDerivedHistory_spec:
  assumes "cleanseDerivedHistory now b d = Inr d'"
  shows "cleansed d' (fb_sequence b)" "\<And>n. cleansed d n \<Longrightarrow> cleansed d' n"
    "forgetting_barriers d' = forgetting_barriers d" "forgetting_barrier_records d' = forgetting_barrier_records d"
    "semantic_revisions d' = tbl_update (\<lambda>v. (rv_record_id v, rv_space_id v) \<in> set (barrierDerivedRecords d (fb_sequence b)))
       blank_revision (semantic_revisions d)"
proof -
  let ?rs = "barrierDerivedRecords d (fb_sequence b)"
  obtain d1 where d1: "fold_res cleanse_record ?rs d = Inr d1"
    and tabs: "forgetting_barriers d' = forgetting_barriers d1" "forgetting_barrier_records d' = forgetting_barrier_records d1"
      "semantic_revisions d' = semantic_revisions d1" "semantic_records d' = semantic_records d1"
    using assms unfolding cleanseDerivedHistory_def Let_def by (elim run_elims) auto
  note all = cleanse_all[OF d1]
  have heads: "blank_head d' k = blank_head d1 k" for k using tabs(4) by (simp add: blank_head_def)
  have named: "(br_record_id x, br_space_id x) \<in> set ?rs" if "x \<in> set (forgetting_barrier_records d)" "br_sequence x = fb_sequence b" for x
    using that by (auto simp: barrierDerivedRecords_def)
  then have "br_record_id x \<in> ids ?rs" if "x \<in> set (forgetting_barrier_records d)" "br_sequence x = fb_sequence b" for x
    using that by (force simp: ids_def)
  then show "cleansed d' (fb_sequence b)"
    unfolding cleansed_def heads tabs using all named by (auto simp: tbl_simps)
  show "cleansed d' n" if "cleansed d n" for n
    using that all unfolding cleansed_def heads tabs by (auto simp: tbl_simps)
  show "forgetting_barriers d' = forgetting_barriers d" "forgetting_barrier_records d' = forgetting_barrier_records d"
    "semantic_revisions d' = tbl_update (\<lambda>v. (rv_record_id v, rv_space_id v) \<in> set ?rs) blank_revision (semantic_revisions d)"
    using all tabs by simp_all
qed

text \<open>What a cleanup leaves alone: in addition to the frame above, revisions may be blanked.\<close>

definition erase_cleansed :: "db \<Rightarrow> db" where
  "erase_cleansed d = (erase_governed d)\<lparr>semantic_revisions := []\<rparr>"

definition barrier_id :: "barrier_row \<Rightarrow> nat \<times> barrier_kind \<times> string \<times> string" where
  "barrier_id b = (fb_sequence b, fb_kind b, fb_space_id b, fb_receipt_id b)"

definition cleanup_frame :: "db \<Rightarrow> db \<Rightarrow> bool" where
  "cleanup_frame d d' \<longleftrightarrow> erase_cleansed d' = erase_cleansed d \<and>
     map barrier_id (forgetting_barriers d') = map barrier_id (forgetting_barriers d) \<and>
     forgetting_barrier_records d' = forgetting_barrier_records d \<and>
     map head_key (semantic_records d') = map head_key (semantic_records d) \<and>
     map pc_receipt_id (receipt_processing d') = map pc_receipt_id (receipt_processing d) \<and>
     inactive_ids d \<subseteq> inactive_ids d' \<and> settled_ids d \<subseteq> settled_ids d'"

lemma cleanup_frame_refl [simp]: "cleanup_frame d d"
  by (simp add: cleanup_frame_def)

lemma cleanup_frame_trans: "cleanup_frame d d1 \<Longrightarrow> cleanup_frame d1 d2 \<Longrightarrow> cleanup_frame d d2"
  unfolding cleanup_frame_def by (auto 0 3)

lemma cleanup_frameD:
  assumes "cleanup_frame d d'"
  shows "receipts d' = receipts d" "receipt_tombstones d' = receipt_tombstones d" "receipt_corrections d' = receipt_corrections d"
    "management_effects d' = management_effects d" "semantic_evidence d' = semantic_evidence d" "receipt_fts d' = receipt_fts d"
proof -
  have sel: "f (erase_cleansed d') = f (erase_cleansed d)" for f :: "db \<Rightarrow> 'x"
    using assms by (simp add: cleanup_frame_def)
  show "receipts d' = receipts d" using sel[of receipts] by (simp add: erase_cleansed_def erase_governed_def)
  show "receipt_tombstones d' = receipt_tombstones d"
    using sel[of receipt_tombstones] by (simp add: erase_cleansed_def erase_governed_def)
  show "receipt_corrections d' = receipt_corrections d"
    using sel[of receipt_corrections] by (simp add: erase_cleansed_def erase_governed_def)
  show "management_effects d' = management_effects d"
    using sel[of management_effects] by (simp add: erase_cleansed_def erase_governed_def)
  show "semantic_evidence d' = semantic_evidence d"
    using sel[of semantic_evidence] by (simp add: erase_cleansed_def erase_governed_def)
  show "receipt_fts d' = receipt_fts d" using sel[of receipt_fts] by (simp add: erase_cleansed_def erase_governed_def)
qed

lemma cleanse_record_frame:
  assumes "cleanse_record r d = Inr d'"
  shows "cleanup_frame d d'"
proof -
  let ?g = "\<lambda>x. x\<lparr>sm_kind := [], sm_subject := [], sm_fact_key := []\<rparr>"
  let ?p = "\<lambda>x. sm_record_id x = fst r \<and> (sm_kind x \<noteq> [] \<or> sm_subject x \<noteq> [] \<or> sm_fact_key x \<noteq> [])"
  have recs: "semantic_records d' = tbl_update ?p ?g (semantic_records d)"
    and rest: "erase_cleansed d' = erase_cleansed d" "forgetting_barriers d' = forgetting_barriers d"
      "forgetting_barrier_records d' = forgetting_barrier_records d" "receipt_processing d' = receipt_processing d"
      "steward_jobs d' = steward_jobs d"
    using assms unfolding cleanse_record_def Let_def
    by (elim run_elims; simp add: delete_semantic_projection_def erase_cleansed_def erase_governed_def)+
  have "map head_key (semantic_records d') = map head_key (semantic_records d)"
    unfolding recs by (rule map_tbl_update) (simp add: head_key_def)
  moreover have "inactive_ids d \<subseteq> inactive_ids d'" unfolding inactive_ids_def recs by (auto simp: tbl_simps)
  ultimately show ?thesis using rest unfolding cleanup_frame_def settled_ids_def by simp
qed

lemma cancel_cleanup_frame: "cleanup_frame d (cancelGovernedStewardJob now reason k d)"
proof -
  have "map pc_receipt_id (receipt_processing (cancelGovernedStewardJob now reason k d)) = map pc_receipt_id (receipt_processing d)"
    by (auto simp: cancelGovernedStewardJob_def fail_processing_def intro!: map_tbl_update split: option.split)
  then show ?thesis
    using cancel_frame[of d now reason k] cancel_settles[of k d now reason] inactive_ids_cong[of "cancelGovernedStewardJob now reason k d" d]
    unfolding cleanup_frame_def governed_frame_def erase_cleansed_def by auto
qed

lemma cleanse_frame:
  assumes "cleanseDerivedHistory now b d = Inr d'"
  shows "cleanup_frame d d'"
proof -
  obtain d1 js p where d1: "fold_res cleanse_record (barrierDerivedRecords d (fb_sequence b)) d = Inr d1"
    and d': "d' = fold (cancelGovernedStewardJob now ''receipt_forgotten'') js (d1\<lparr>steward_jobs := tbl_delete p (steward_jobs d1)\<rparr>)"
    using assms unfolding cleanseDerivedHistory_def Let_def by (elim run_elims) auto
  let ?d2 = "d1\<lparr>steward_jobs := tbl_delete p (steward_jobs d1)\<rparr>"
  have "cleanup_frame d d1" using d1
    by (rule fold_res_invariant) (auto intro: cleanup_frame_trans cleanse_record_frame)
  moreover have "cleanup_frame d1 ?d2"
    by (auto simp: cleanup_frame_def erase_cleansed_def erase_governed_def inactive_ids_def settled_ids_def tbl_simps)
  moreover have "cleanup_frame e (fold (cancelGovernedStewardJob now ''receipt_forgotten'') ks e)" for ks e
    by (induction ks arbitrary: e) (auto intro: cleanup_frame_trans cancel_cleanup_frame)
  ultimately show ?thesis unfolding d' by (blast intro: cleanup_frame_trans)
qed

definition clean_barrier :: "instant \<Rightarrow> barrier_row \<Rightarrow> barrier_row" where
  "clean_barrier now b = b\<lparr>fb_status := BarrierCleaned, fb_cleaned_at := Some now\<rparr>"

lemma cleanup_cases:
  assumes "cleanupForgettingBarrier now out b d = (res, d')"
  obtains (skipped) "d' = d" "res = Inr () \<Longrightarrow> barrier_of (fb_sequence b) d = None \<or>
      (\<exists>x. barrier_of (fb_sequence b) d = Some x \<and> fb_status x = BarrierCleaned)"
  | (cleaned) d1 where "cleanup_frame d d1" "\<And>n. cleansed d n \<Longrightarrow> cleansed d1 n" "forgetting_barriers d1 = forgetting_barriers d"
      "fb_kind b = BarrierReceiptDeleted \<Longrightarrow> cleansed d1 (fb_sequence b)"
      "semantic_revisions d1 = (if fb_kind b = BarrierReceiptDeleted
         then tbl_update (\<lambda>v. (rv_record_id v, rv_space_id v) \<in> set (barrierDerivedRecords d (fb_sequence b)))
           blank_revision (semantic_revisions d) else semantic_revisions d)"
      "d' = d1\<lparr>forgetting_barriers := tbl_update (\<lambda>x. fb_sequence x = fb_sequence b \<and> fb_status x = BarrierPending)
        (clean_barrier now) (forgetting_barriers d)\<rparr>"
proof (cases "barrier_of (fb_sequence b) d")
  case None
  with assms skipped show ?thesis by (simp add: cleanupForgettingBarrier_def)
next
  case (Some x)
  show ?thesis
  proof (cases "fb_status x = BarrierCleaned")
    case True
    with Some assms skipped show ?thesis by (simp add: cleanupForgettingBarrier_def)
  next
    case False
    show ?thesis
    proof (cases "if fb_kind b = BarrierReceiptDeleted then cleanseDerivedHistory now b d else Inr d")
      case (Inl e)
      with False Some assms have "res = Inl e" "d' = d" by (simp_all add: cleanupForgettingBarrier_def)
      with skipped show ?thesis by blast
    next
      case (Inr d1)
      let ?d' = "d1\<lparr>forgetting_barriers := tbl_update (\<lambda>x. fb_sequence x = fb_sequence b \<and> fb_status x = BarrierPending)
        (clean_barrier now) (forgetting_barriers d1)\<rparr>"
      have run: "commit_tx out (Errorf ''commit governance cleanup'') d ?d' () = (res, d')"
        using False Some assms Inr by (simp add: cleanupForgettingBarrier_def clean_barrier_def[abs_def])
      show ?thesis
      proof (cases "d' = d \<and> res \<noteq> Inr ()")
        case True
        then show ?thesis by (intro skipped) auto
      next
        case applied: False
        then have d': "d' = ?d'" using run by (cases out) (auto simp: commit_tx_def)
        have "forgetting_barriers d1 = forgetting_barriers d" "cleanup_frame d d1" "\<And>n. cleansed d n \<Longrightarrow> cleansed d1 n"
          "fb_kind b = BarrierReceiptDeleted \<Longrightarrow> cleansed d1 (fb_sequence b)"
          "semantic_revisions d1 = (if fb_kind b = BarrierReceiptDeleted
             then tbl_update (\<lambda>v. (rv_record_id v, rv_space_id v) \<in> set (barrierDerivedRecords d (fb_sequence b)))
               blank_revision (semantic_revisions d) else semantic_revisions d)"
          using Inr cleanseDerivedHistory_spec[of now b d d1] cleanse_frame[of now b d d1] by (auto split: if_splits)
        with d' show ?thesis by (intro cleaned) auto
      qed
    qed
  qed
qed

end
