(* ===== verification/Deletion.thy ===== *)
theory Deletion
  imports Governance_Laws
begin

text \<open>
  The contract of \<open>DeleteReceipt\<close>, \<open>CorrectReceipt\<close> and \<open>RecoverGovernanceCleanup\<close>: what is gone
  when a deletion has committed, that derived content is unreadable at once and erased after
  cleanup, that a crash between the two transactions is repaired, that a retry has no second
  effect, and that a correction erases nothing.
\<close>

section \<open>The outcome of a deletion\<close>

text \<open>What holds in every database that a committed deletion leaves behind.\<close>

definition deleted_spec :: "db \<Rightarrow> delete_request \<Rightarrow> receipt_row \<Rightarrow> db \<Rightarrow> bool" where
  "deleted_spec d request receipt d' \<longleftrightarrow>
    (let rc = dq_receipt_id request; s = rt_space_id receipt; l = rt_label_set_digest receipt in
     receipts d' = tbl_delete (\<lambda>r. rt_receipt_id r = rc) (receipts d) \<and>
     processing_of rc d' = None \<and>
     (\<exists>t\<in>set (receipt_tombstones d'). tb_receipt_id t = rc \<and> tb_space_id t = s \<and> tb_idempotency_key t = rt_idempotency_key receipt) \<and>
     forgottenReceipt d' s rc \<and>
     (\<forall>r. attributed d rc s l r \<longrightarrow> forgottenRecord d' r \<and> r \<in> inactive_ids d') \<and>
     (\<forall>j. tainted d rc s l j \<longrightarrow> j \<in> settled_ids d'))"

lemma insert_tombstone_spec:
  "insert_tombstone t d = Some d' \<Longrightarrow> receipt_tombstones d' = receipt_tombstones d @ [t] \<and>
     d' = d\<lparr>receipt_tombstones := receipt_tombstones d @ [t]\<rparr>"
  by (auto simp: insert_tombstone_def tbl_simps)

lemma storeManagementEffect_spec:
  "storeManagementEffect op key digest result now d = Inr d' \<Longrightarrow>
     d' = d\<lparr>management_effects := management_effects d @ [\<lparr>ef_operation = op, ef_idempotency_key = key,
       ef_request_digest = digest, ef_result = result, ef_created_at = now\<rparr>]\<rparr> \<and>
     \<not> (\<exists>e\<in>set (management_effects d). ef_operation e = op \<and> ef_idempotency_key e = key)"
  unfolding storeManagementEffect_def by (elim run_elims) (auto simp: insert_effect_def tbl_simps clash_on_def)

text \<open>A new deletion: the governed database, then the tombstone, the removed rows and the effect.\<close>

lemma delete_new_InrE:
  assumes "delete_new env request digest receipt d = Inr step"
  obtains version d1 d2 tomb response t where
    "govern_receipt (ge_now env) (ge_expired env) BarrierReceiptDeleted (rt_space_id receipt) (rt_label_set_digest receipt)
       (dq_receipt_id request) d = Inr (version, d1)"
    "tb_receipt_id tomb = dq_receipt_id request" "tb_space_id tomb = rt_space_id receipt"
    "tb_idempotency_key tomb = rt_idempotency_key receipt" "dr_tombstone_id response = tb_tombstone_id tomb"
    "d2 = delete_receipt_rows (dq_receipt_id request)
       (delete_receipt_projection t (dq_receipt_id request) (d1\<lparr>receipt_tombstones := receipt_tombstones d1 @ [tomb]\<rparr>))"
    "step = Deleted response (new_barrier (ge_now env) (rt_space_id receipt) (rt_label_set_digest receipt) BarrierReceiptDeleted
       (dq_receipt_id request) version)
       (d2\<lparr>management_effects := management_effects d2 @ [\<lparr>ef_operation = ''delete_receipt'', ef_idempotency_key = dq_idempotency_key request,
         ef_request_digest = digest, ef_result = DeleteEffect response, ef_created_at = ge_now env\<rparr>]\<rparr>)"
  using assms unfolding delete_new_def Let_def
  by (elim run_elims; clarsimp elim!: run_elims dest!: insert_tombstone_spec storeManagementEffect_spec)
     (rule that; (assumption | rule refl | simp add: new_barrier_def))

lemma deleted_after_new:
  assumes "delete_new env request digest receipt d = Inr (Deleted response b d')"
  shows "deleted_spec d request receipt d'"
  using assms
proof (rule delete_new_InrE)
  fix version d1 d2 tomb r t
  let ?rc = "dq_receipt_id request" and ?s = "rt_space_id receipt" and ?l = "rt_label_set_digest receipt"
  assume g: "govern_receipt (ge_now env) (ge_expired env) BarrierReceiptDeleted ?s ?l ?rc d = Inr (version, d1)"
    and tomb: "tb_receipt_id tomb = ?rc" "tb_space_id tomb = ?s" "tb_idempotency_key tomb = rt_idempotency_key receipt"
    and d2: "d2 = delete_receipt_rows ?rc (delete_receipt_projection t ?rc (d1\<lparr>receipt_tombstones := receipt_tombstones d1 @ [tomb]\<rparr>))"
    and step: "Deleted response b d' = Deleted r (new_barrier (ge_now env) ?s ?l BarrierReceiptDeleted ?rc version)
       (d2\<lparr>management_effects := management_effects d2 @ [\<lparr>ef_operation = ''delete_receipt'', ef_idempotency_key = dq_idempotency_key request,
         ef_request_digest = digest, ef_result = DeleteEffect r, ef_created_at = ge_now env\<rparr>]\<rparr>)"
  have d': "receipts d' = tbl_delete (\<lambda>r. rt_receipt_id r = ?rc) (receipts d1)"
    "receipt_processing d' = tbl_delete (\<lambda>p. pc_receipt_id p = ?rc) (receipt_processing d1)"
    "tomb \<in> set (receipt_tombstones d')" "forgetting_barriers d' = forgetting_barriers d1"
    "forgetting_barrier_records d' = forgetting_barrier_records d1" "semantic_records d' = semantic_records d1"
    "steward_jobs d' = steward_jobs d1"
    using step by (simp_all add: d2 delete_receipt_rows_def delete_receipt_projection_def)
  have ids: "inactive_ids d' = inactive_ids d1" "settled_ids d' = settled_ids d1"
    using d' by (simp_all add: inactive_ids_def settled_ids_def)
  from g show ?thesis
  proof (rule govern_receipt_InrE)
    fix c e
    assume f: "governed_frame d d1" and b: "forgetting_barriers d1 = forgetting_barriers d @ [new_barrier (ge_now env) ?s ?l BarrierReceiptDeleted ?rc version]"
      and br: "forgetting_barrier_records d1 = forgetting_barrier_records d @
        map (\<lambda>x. \<lparr>br_sequence = version, br_record_id = fst x, br_space_id = snd x\<rparr>) (ordered c)"
      and att: "\<And>r. attributed d ?rc ?s ?l r \<Longrightarrow> r \<in> ids (fc_records c) \<and> r \<in> inactive_ids d1"
      and tai: "\<And>j. tainted d ?rc ?s ?l j \<Longrightarrow> j \<in> settled_ids d1"
    have "forgottenReceipt d' ?s ?rc" by (simp add: forgottenReceipt_def d'(4) b new_barrier_def)
    moreover have "forgottenRecord d' r" if derived: "attributed d ?rc ?s ?l r" for r
    proof -
      obtain x where "x \<in> set (ordered c)" "fst x = r" using att[OF derived] by (auto simp: ids_def ordered_def)
      then show ?thesis
        unfolding forgottenRecord_def record_barriers_def d'(4,5) b br by (force simp: new_barrier_def)
    qed
    moreover have "processing_of ?rc d' = None" by (auto simp: processing_of_def d'(2) find_None_iff tbl_simps)
    ultimately show ?thesis
      unfolding deleted_spec_def Let_def ids d'(1) governed_frameD(1)[OF f] using att tai tomb d'(3) by blast
  qed
qed

lemma deleted_spec_cleanup:
  assumes "deleted_spec d request receipt d1" and "cleanup_frame d1 d'"
  shows "deleted_spec d request receipt d'"
proof -
  have ids: "map barrier_id (forgetting_barriers d') = map barrier_id (forgetting_barriers d1)"
    and br: "forgetting_barrier_records d' = forgetting_barrier_records d1"
    and pc: "map pc_receipt_id (receipt_processing d') = map pc_receipt_id (receipt_processing d1)"
    using assms(2) by (simp_all add: cleanup_frame_def)
  have fr: "forgottenReceipt d' s rc" if "forgottenReceipt d1 s rc" for s rc
    using that map_eq_mem[OF ids[symmetric]] unfolding forgottenReceipt_def list_ex_iff barrier_id_def by fastforce
  have fre: "forgottenRecord d' r" if forgotten: "forgottenRecord d1 r" for r
  proof -
    obtain x b where "x \<in> set (forgetting_barrier_records d1)" "br_record_id x = r" "b \<in> set (forgetting_barriers d1)"
      "fb_sequence b = br_sequence x" "fb_kind b = BarrierReceiptDeleted"
      using forgotten unfolding forgottenRecord_def record_barriers_def by (auto simp: filter_empty_conv)
    moreover from this obtain b' where "b' \<in> set (forgetting_barriers d')" "barrier_id b' = barrier_id b"
      using map_eq_mem[OF ids[symmetric]] by blast
    ultimately show ?thesis unfolding forgottenRecord_def record_barriers_def br
      by (auto simp: filter_empty_conv barrier_id_def)
  qed
  have "processing_of rc d' = None" if none: "processing_of rc d1 = None" for rc
  proof -
    have "rc \<notin> set (map pc_receipt_id (receipt_processing d1))" using none by (auto simp: processing_of_def find_None_iff)
    then show ?thesis unfolding pc[symmetric] by (auto simp: processing_of_def find_None_iff)
  qed
  then show ?thesis
    using assms fr fre cleanup_frameD[OF assms(2)] unfolding deleted_spec_def cleanup_frame_def Let_def by (metis subsetD)
qed

lemma delete_effect_cases:
  assumes "DeleteReceipt s env request d = (res, d')" and "receipt_of (dq_receipt_id request) d = Some receipt" and "d' \<noteq> d"
  obtains response b d1 where
    "delete_new env request (digestString (json_encode (json_delete_request request))) receipt d = Inr (Deleted response b d1)"
    "d' = d1 \<and> (\<forall>r. res \<noteq> Inr r) \<or>
     (\<exists>u. cleanupForgettingBarrier (ge_cleanup_now env) (ge_cleanup_commit env) b d1 = (u, d') \<and>
        res = Inr (case u of Inl _ \<Rightarrow> response | Inr _ \<Rightarrow> response\<lparr>dr_cleanup := CleanupStateCompleted\<rparr>))"
proof -
  let ?digest = "digestString (json_encode (json_delete_request request))"
  from assms have "delete_tx env request d = delete_new env request ?digest receipt d \<and>
      (\<exists>st. delete_tx env request d = Inr st \<and> (\<forall>r. st \<noteq> Replayed r))"
    by (auto simp: DeleteReceipt_def delete_tx_def Let_def lookupManagementEffect_def
        split: sum.splits option.splits effect_result.splits if_splits elim!: run_elims)
  then obtain st where st: "delete_tx env request d = Inr st" "delete_new env request ?digest receipt d = Inr st" by metis
  then obtain response b d1 where step: "st = Deleted response b d1" by (elim delete_new_InrE) auto
  obtain u d3 where cl: "cleanupForgettingBarrier (ge_cleanup_now env) (ge_cleanup_commit env) b d1 = (u, d3)" by fastforce
  from assms(1,3) st(1) have "d' = d1 \<and> (\<forall>r. res \<noteq> Inr r) \<or>
     d' = d3 \<and> res = Inr (case u of Inl _ \<Rightarrow> response | Inr _ \<Rightarrow> response\<lparr>dr_cleanup := CleanupStateCompleted\<rparr>)"
    unfolding step DeleteReceipt_def
    by (cases "ge_commit env"; cases u) (auto simp: commit_tx_def rbind_def cl split: sum.splits if_splits)
  with cl have "d' = d1 \<and> (\<forall>r. res \<noteq> Inr r) \<or>
     (\<exists>u. cleanupForgettingBarrier (ge_cleanup_now env) (ge_cleanup_commit env) b d1 = (u, d') \<and>
        res = Inr (case u of Inl _ \<Rightarrow> response | Inr _ \<Rightarrow> response\<lparr>dr_cleanup := CleanupStateCompleted\<rparr>))" by blast
  with st(2) show ?thesis unfolding step by (rule that)
qed

lemma cleanup_gives_frame:
  assumes "cleanupForgettingBarrier now out b d = (res, d')"
  shows "cleanup_frame d d'"
  using assms
proof (cases rule: cleanup_cases)
  case skipped
  then show ?thesis by simp
next
  case (cleaned d1)
  have "map barrier_id (tbl_update p (clean_barrier now) bs) = map barrier_id bs" for p bs
    by (rule map_tbl_update) (simp add: barrier_id_def clean_barrier_def)
  moreover have "erase_cleansed (e\<lparr>forgetting_barriers := bs\<rparr>) = erase_cleansed e" for e bs
    by (simp add: erase_cleansed_def erase_governed_def)
  ultimately show ?thesis using cleaned
    by (simp add: cleanup_frame_def inactive_ids_def settled_ids_def)
qed

lemma delete_establishes:
  assumes "DeleteReceipt s env request d = (res, d')" and "receipt_of (dq_receipt_id request) d = Some receipt" and "d' \<noteq> d"
  shows "deleted_spec d request receipt d'"
  using assms
proof (rule delete_effect_cases)
  fix response b d1
  assume new: "delete_new env request (digestString (json_encode (json_delete_request request))) receipt d = Inr (Deleted response b d1)"
    and "d' = d1 \<and> (\<forall>r. res \<noteq> Inr r) \<or>
     (\<exists>u. cleanupForgettingBarrier (ge_cleanup_now env) (ge_cleanup_commit env) b d1 = (u, d') \<and>
        res = Inr (case u of Inl _ \<Rightarrow> response | Inr _ \<Rightarrow> response\<lparr>dr_cleanup := CleanupStateCompleted\<rparr>))"
  then have "cleanup_frame d1 d'" using cleanup_gives_frame by auto
  with deleted_after_new[OF new] show ?thesis by (rule deleted_spec_cleanup)
qed

section \<open>The Spaces of the closure\<close>

text \<open>The keys and references of the schema: record identities are unique, a revision belongs to a
  record of its Space, evidence to a revision of its Space, and a barrier's record entry to a
  barrier.\<close>

definition references_ok :: "db \<Rightarrow> bool" where
  "references_ok d \<longleftrightarrow> distinct (map sm_record_id (semantic_records d)) \<and>
     (\<forall>v\<in>set (semantic_revisions d). \<exists>r\<in>set (semantic_records d). sm_record_id r = rv_record_id v \<and> sm_space_id r = rv_space_id v) \<and>
     (\<forall>e\<in>set (semantic_evidence d). \<exists>v\<in>set (semantic_revisions d). rv_record_id v = ev_record_id e \<and> rv_space_id v = ev_space_id e)"

definition barriers_ok :: "db \<Rightarrow> bool" where
  "barriers_ok d \<longleftrightarrow>
     (\<forall>b\<in>set (forgetting_barrier_records d). \<exists>f\<in>set (forgetting_barriers d). fb_sequence f = br_sequence b)"

definition located :: "db \<Rightarrow> derived_record \<Rightarrow> bool" where
  "located d x \<longleftrightarrow> (\<exists>r\<in>set (semantic_records d). sm_record_id r = fst x \<and> sm_space_id r = snd x)"

lemma located_queries:
  assumes "references_ok d"
  shows "x \<in> set (evidence_records d rc) \<Longrightarrow> located d x" "x \<in> set (produced_records d j) \<Longrightarrow> located d x"
    "x \<in> set (referring_records d s l r) \<Longrightarrow> located d x" "x \<in> set (legacy_records d s l) \<Longrightarrow> located d x"
proof -
  show "x \<in> set (produced_records d j) \<Longrightarrow> located d x"
    using assms by (auto simp: references_ok_def located_def produced_records_def)
  show "x \<in> set (referring_records d s l r) \<Longrightarrow> located d x" "x \<in> set (legacy_records d s l) \<Longrightarrow> located d x"
    by (auto simp: located_def referring_records_def legacy_records_def)
  assume "x \<in> set (evidence_records d rc)"
  then obtain e where "e \<in> set (semantic_evidence d)" "x = (ev_record_id e, ev_space_id e)" by (auto simp: evidence_records_def)
  with assms show "located d x" unfolding references_ok_def located_def by fastforce
qed

lemma addDerivedRecords_all:
  "addDerivedRecords c rs = (c', added) \<Longrightarrow> set (fc_records c') \<subseteq> set (fc_records c) \<union> set rs"
proof (induction c rs arbitrary: c' added rule: addDerivedRecords.induct)
  case (1 c)
  then show ?case by simp
next
  case (2 c r rs)
  show ?case
  proof (cases "fst r \<in> set (map fst (fc_records c))")
    case True
    then have "addDerivedRecords c rs = (c', added)" using 2(3) by simp
    from 2(1)[OF True this] show ?thesis by auto
  next
    case False
    obtain c1 a1 where run: "addDerivedRecords (c\<lparr>fc_records := fc_records c @ [r]\<rparr>) rs = (c1, a1)" by fastforce
    have "c' = c1" using 2(3) by (simp only: addDerivedRecords.simps False if_False run prod.case prod.inject)
    with 2(2)[OF False run] show ?thesis by auto
  qed
qed

lemma expand_pass_located:
  assumes "references_ok d" and "\<forall>x\<in>set (fc_records c). located d x"
  shows "\<forall>x\<in>set (fc_records (fst (expand_pass d s l c nr nj))). located d x"
proof -
  let ?P = "\<lambda>st. \<forall>x\<in>set (fc_records (fst st)). located d x"
  have job: "?P (visit_job d j st)" if "?P st" for j st
  proof -
    obtain c nr nj where st: "st = (c, nr, nj)" by (cases st)
    obtain c' a where add: "addDerivedRecords c (produced_records d j) = (c', a)" by fastforce
    show ?thesis using that addDerivedRecords_all[OF add] located_queries(2)[OF assms(1)] by (auto simp: st visit_job_def add)
  qed
  have rec: "?P (visit_record d s l r st)" if "?P st" for r st
  proof -
    obtain c nr nj where st: "st = (c, nr, nj)" by (cases st)
    obtain c1 a1 where add1: "addClosureJobs c (reader_jobs d (fst r)) = (c1, a1)" by fastforce
    obtain c2 a2 where add2: "addDerivedRecords c1 (referring_records d s l (fst r)) = (c2, a2)" by fastforce
    show ?thesis using that addClosureJobs_spec[OF add1] addDerivedRecords_all[OF add2] located_queries(3)[OF assms(1)]
      by (auto simp: st visit_record_def add1 add2)
  qed
  have start: "?P (fold (visit_job d) nj (c, [], []))"
    by (rule fold_invariant[where Q = "\<lambda>_. True"]) (use assms(2) in simp, use assms(2) in simp, rule job)
  have "?P (fold (visit_record d s l) nr (fold (visit_job d) nj (c, [], [])))"
    by (rule fold_invariant[where Q = "\<lambda>_. True" and P = ?P]) (simp, rule start, rule rec)
  then show ?thesis by (simp add: expand_pass_def)
qed

lemma expand_located:
  assumes "expandForgettingClosure d expired tick s l c nr nj = Inr c'" and "references_ok d" and "\<forall>x\<in>set (fc_records c). located d x"
  shows "\<forall>x\<in>set (fc_records c'). located d x"
  using assms
proof (induction d expired tick s l c nr nj rule: expandForgettingClosure.induct)
  case (1 d expired tick s l c nr nj)
  obtain c1 nr1 nj1 where pass: "expand_pass d s l c nr nj = (c1, nr1, nj1)" by (metis prod_cases3)
  have "\<forall>x\<in>set (fc_records c1). located d x" using expand_pass_located[OF 1(3,4), of s l nr nj] pass by simp
  with 1(1)[OF _ _ pass[symmetric] refl] 1(2-4) show ?case
    by (auto simp: expandForgettingClosure.simps[of d expired tick] pass split: if_splits)
qed

lemma closure_located:
  assumes "forgettingClosure d expired rc s l = Inr c" and "references_ok d"
  shows "\<forall>x\<in>set (fc_records c). located d x"
proof -
  let ?seeds = "evidence_records d rc" and ?jobs = "receipt_jobs d rc"
  obtain c1 where c1: "expandForgettingClosure d expired 0 s l (seed_closure ?seeds ?jobs) ?seeds ?jobs = Inr c1"
    using assms by (auto simp: forgettingClosure_def Let_def elim: run_elims)
  obtain c2 w where w: "widenUnattributedClosure d s l c1 = (c2, w)" by fastforce
  have run: "if w \<noteq> [] then expandForgettingClosure d expired 0 s l (c2\<lparr>fc_widened := w \<noteq> []\<rparr>) w [] = Inr c
      else c = c2\<lparr>fc_widened := w \<noteq> []\<rparr>"
    using assms c1 w by (auto simp: forgettingClosure_def Let_def split: if_splits)
  have "set (put_record r rs) \<subseteq> insert r (set rs)" for r rs by (auto simp: put_record_def)
  then have "set (fold put_record xs rs) \<subseteq> set xs \<union> set rs" for xs rs
    by (induction xs arbitrary: rs) fastforce+
  then have "\<forall>x\<in>set (fc_records (seed_closure ?seeds ?jobs)). located d x"
    using located_queries(1)[OF assms(2)] by (fastforce simp: seed_closure_def)
  from expand_located[OF c1 assms(2) this] have "\<forall>x\<in>set (fc_records c1). located d x" .
  then have c2: "\<forall>x\<in>set (fc_records c2). located d x"
    using w addDerivedRecords_all located_queries(4)[OF assms(2)]
    unfolding widenUnattributedClosure_def by (fastforce split: if_splits)
  show ?thesis using run c2 expand_located[OF _ assms(2)] by (auto split: if_splits)
qed

section \<open>Deletion\<close>

lemma located_revision:
  assumes "references_ok d" "located d x" "v \<in> set (semantic_revisions d)" "rv_record_id v = fst x"
  shows "rv_space_id v = snd x"
proof -
  obtain r r' where "r \<in> set (semantic_records d)" "sm_record_id r = fst x" "sm_space_id r = snd x"
    "r' \<in> set (semantic_records d)" "sm_record_id r' = rv_record_id v" "sm_space_id r' = rv_space_id v"
    using assms unfolding references_ok_def located_def by blast
  then show ?thesis using assms(1,4) plain_key.key_unique[of sm_record_id "semantic_records d" r r']
    by (simp add: references_ok_def)
qed

lemma references_frame:
  assumes "governed_frame d d'"
  shows "references_ok d \<Longrightarrow> references_ok d'" and "located d' x \<Longrightarrow> located d x"
proof -
  have heads: "map head_key (semantic_records d') = map head_key (semantic_records d)" using assms by (simp add: governed_frame_def)
  have "map sm_record_id rs = map fst (map head_key rs)" for rs by (simp add: head_key_def)
  then have "map sm_record_id (semantic_records d') = map sm_record_id (semantic_records d)" using heads by metis
  moreover have "\<exists>r\<in>set (semantic_records d'). sm_record_id r = k \<and> sm_space_id r = s"
    if "\<exists>r\<in>set (semantic_records d). sm_record_id r = k \<and> sm_space_id r = s" for k s
    using that map_eq_mem[OF heads[symmetric]] unfolding head_key_def by fastforce
  ultimately show "references_ok d \<Longrightarrow> references_ok d'"
    using governed_frameD[OF assms] unfolding references_ok_def by metis
  show "located d' x \<Longrightarrow> located d x"
    using map_eq_mem[OF heads] unfolding located_def head_key_def by fastforce
qed

lemma governed_blanking:
  assumes g: "govern_receipt now expired kind s l rc d = Inr (version, d')" and ok: "references_ok d" and bok: "barriers_ok d"
    and v: "v \<in> set (semantic_revisions d)"
  shows "(rv_record_id v, rv_space_id v) \<in> set (barrierDerivedRecords d' version) \<longleftrightarrow> attributed d rc s l (rv_record_id v)"
  using g
proof (rule govern_receipt_InrE)
  fix c d1
  assume f1: "governed_frame d d1" and c: "forgettingClosure d1 expired rc s l = Inr c"
    and fresh: "\<not> (\<exists>b\<in>set (forgetting_barriers d). fb_sequence b = version)"
    and br: "forgetting_barrier_records d' = forgetting_barrier_records d @
      map (\<lambda>x. \<lparr>br_sequence = version, br_record_id = fst x, br_space_id = snd x\<rparr>) (ordered c)"
  have old: "br_sequence b \<noteq> version" if "b \<in> set (forgetting_barrier_records d)" for b
    using bok fresh that unfolding barriers_ok_def by metis
  have derived: "set (barrierDerivedRecords d' version) = set (fc_records c)"
    unfolding barrierDerivedRecords_def br using old by (force simp: ordered_def)
  have exact: "ids (fc_records c) = attributed_set d rc s l"
    using forgettingClosure_spec(1)[OF c] frame_spec(1)[OF f1] by simp
  have place: "rv_space_id v = snd x" if "x \<in> set (fc_records c)" "fst x = rv_record_id v" for x
  proof -
    have "located d1 x" using closure_located[OF c references_frame(1)[OF f1 ok]] that(1) by blast
    then show ?thesis using references_frame(2)[OF f1] located_revision[OF ok _ v] that(2) by metis
  qed
  show ?thesis
  proof
    assume "(rv_record_id v, rv_space_id v) \<in> set (barrierDerivedRecords d' version)"
    then have "rv_record_id v \<in> ids (fc_records c)" unfolding derived by (force simp: ids_def)
    then show "attributed d rc s l (rv_record_id v)" using exact by simp
  next
    assume "attributed d rc s l (rv_record_id v)"
    then have "rv_record_id v \<in> ids (fc_records c)" using exact by simp
    then obtain x where "x \<in> set (fc_records c)" "fst x = rv_record_id v" by (auto simp: ids_def)
    with place[of x] show "(rv_record_id v, rv_space_id v) \<in> set (barrierDerivedRecords d' version)"
      unfolding derived by (metis prod.collapse)
  qed
qed

text \<open>
  Claim C13. A committed deletion leaves nothing live: whatever the caller was told, once
  \<open>DeleteReceipt\<close> has changed the database the receipt and its processing row are gone and all
  other receipts stay, a tombstone keeps its Space and idempotency key, every record derived from it
  is barred as forgotten and no longer active, and no job tainted by it is still open.
\<close>

theorem delete_leaves_nothing_live:
  assumes "DeleteReceipt s env request d = (res, d')" and "receipt_of (dq_receipt_id request) d = Some receipt" and "d' \<noteq> d"
  shows "receipts d' = filter (\<lambda>r. rt_receipt_id r \<noteq> dq_receipt_id request) (receipts d) \<and>
    processing_of (dq_receipt_id request) d' = None \<and>
    (\<exists>t\<in>set (receipt_tombstones d'). tb_receipt_id t = dq_receipt_id request \<and> tb_space_id t = rt_space_id receipt \<and>
       tb_idempotency_key t = rt_idempotency_key receipt) \<and>
    forgottenReceipt d' (rt_space_id receipt) (dq_receipt_id request) \<and>
    (\<forall>r. attributed d (dq_receipt_id request) (rt_space_id receipt) (rt_label_set_digest receipt) r \<longrightarrow>
       forgottenRecord d' r \<and> (\<forall>x\<in>set (semantic_records d'). sm_record_id x = r \<longrightarrow> sm_status x \<noteq> RecordStatusActive)) \<and>
    (\<forall>j\<in>set (steward_jobs d'). tainted d (dq_receipt_id request) (rt_space_id receipt) (rt_label_set_digest receipt) (jb_job_id j) \<longrightarrow>
       \<not> open_job j)"
  using delete_establishes[OF assms]
  unfolding deleted_spec_def Let_def inactive_ids_def settled_ids_def tbl_delete_def by blast

lemma delete_tables_before_effect:
  assumes "delete_new env request digest receipt d = Inr (Deleted response b d1)"
  obtains version e where "govern_receipt (ge_now env) (ge_expired env) BarrierReceiptDeleted (rt_space_id receipt)
      (rt_label_set_digest receipt) (dq_receipt_id request) d = Inr (version, e)"
    "b = new_barrier (ge_now env) (rt_space_id receipt) (rt_label_set_digest receipt) BarrierReceiptDeleted (dq_receipt_id request) version"
    "forgetting_barriers d1 = forgetting_barriers e" "forgetting_barrier_records d1 = forgetting_barrier_records e"
    "semantic_revisions d1 = semantic_revisions d" "dr_cleanup response = CleanupStatePending" "dr_deduplicated_retry response = False"
proof -
  have resp: "dr_cleanup response = CleanupStatePending" "dr_deduplicated_retry response = False"
    using assms unfolding delete_new_def Let_def by (elim run_elims; clarsimp elim!: run_elims)+
  from assms show ?thesis
  proof (rule delete_new_InrE)
    fix version e d2 tomb r t
    assume g: "govern_receipt (ge_now env) (ge_expired env) BarrierReceiptDeleted (rt_space_id receipt)
        (rt_label_set_digest receipt) (dq_receipt_id request) d = Inr (version, e)"
      and d2: "d2 = delete_receipt_rows (dq_receipt_id request)
       (delete_receipt_projection t (dq_receipt_id request) (e\<lparr>receipt_tombstones := receipt_tombstones e @ [tomb]\<rparr>))"
      and st: "Deleted response b d1 = Deleted r (new_barrier (ge_now env) (rt_space_id receipt) (rt_label_set_digest receipt) BarrierReceiptDeleted
       (dq_receipt_id request) version)
       (d2\<lparr>management_effects := management_effects d2 @ [\<lparr>ef_operation = ''delete_receipt'', ef_idempotency_key = dq_idempotency_key request,
         ef_request_digest = digest, ef_result = DeleteEffect r, ef_created_at = ge_now env\<rparr>]\<rparr>)"
    have "governed_frame d e" using g by (rule govern_receipt_InrE)
    then show ?thesis
      using g st resp governed_frameD(5)[of d e] by (intro that[OF g])
        (simp_all add: d2 delete_receipt_rows_def delete_receipt_projection_def)
  qed
qed

text \<open>
  Claim C14. When a deletion reports its cleanup completed, the derived content is erased exactly: a
  revision of a record derived from the receipt keeps its identity, Space, operation, job and time
  but no text, kind or fact, and every other revision is unchanged.
\<close>

theorem delete_erases_derived_content:
  assumes "DeleteReceipt s env request d = (Inr response, d')" and "receipt_of (dq_receipt_id request) d = Some receipt"
    and "d' \<noteq> d" and "dr_cleanup response = CleanupStateCompleted" and "references_ok d" and "barriers_ok d"
  shows "semantic_revisions d' =
    map (\<lambda>v. if attributed d (dq_receipt_id request) (rt_space_id receipt) (rt_label_set_digest receipt) (rv_record_id v)
       then v\<lparr>rv_text := [], rv_fact := None, rv_kind := []\<rparr> else v) (semantic_revisions d)"
  using assms(1-3)
proof (rule delete_effect_cases)
  fix r b d1
  let ?rc = "dq_receipt_id request" and ?s = "rt_space_id receipt" and ?l = "rt_label_set_digest receipt"
  assume new: "delete_new env request (digestString (json_encode (json_delete_request request))) receipt d = Inr (Deleted r b d1)"
    and alt: "d' = d1 \<and> (\<forall>r. Inr response \<noteq> Inr r) \<or>
     (\<exists>u. cleanupForgettingBarrier (ge_cleanup_now env) (ge_cleanup_commit env) b d1 = (u, d') \<and>
        Inr response = Inr (case u of Inl _ \<Rightarrow> r | Inr _ \<Rightarrow> r\<lparr>dr_cleanup := CleanupStateCompleted\<rparr>))"
  from new show ?thesis
  proof (rule delete_tables_before_effect)
    fix version e
    assume g: "govern_receipt (ge_now env) (ge_expired env) BarrierReceiptDeleted ?s ?l ?rc d = Inr (version, e)"
      and b: "b = new_barrier (ge_now env) ?s ?l BarrierReceiptDeleted ?rc version"
      and tabs: "forgetting_barriers d1 = forgetting_barriers e" "forgetting_barrier_records d1 = forgetting_barrier_records e"
        "semantic_revisions d1 = semantic_revisions d" and pend: "dr_cleanup r = CleanupStatePending"
    from alt obtain u where u: "cleanupForgettingBarrier (ge_cleanup_now env) (ge_cleanup_commit env) b d1 = (u, d')"
      "response = (case u of Inl _ \<Rightarrow> r | Inr _ \<Rightarrow> r\<lparr>dr_cleanup := CleanupStateCompleted\<rparr>)" by blast
    have "u = Inr ()" using u(2) assms(4) pend by (cases u) auto
    with u(1) have run: "cleanupForgettingBarrier (ge_cleanup_now env) (ge_cleanup_commit env) b d1 = (Inr (), d')" by simp
    have stored: "barrier_of version d1 = Some b"
      using g by (rule govern_receipt_InrE)
        (auto simp: barrier_of_def tabs b new_barrier_def find_None_iff split: option.splits dest: find_Some_iff2)
    from run show ?thesis
    proof (cases rule: cleanup_cases)
      case skipped
      then show ?thesis using stored by (simp add: b new_barrier_def)
    next
      case (cleaned d2)
      have "semantic_revisions d' = tbl_update (\<lambda>v. (rv_record_id v, rv_space_id v) \<in> set (barrierDerivedRecords e version))
          blank_revision (semantic_revisions d)"
        using cleaned tabs by (simp add: b new_barrier_def barrierDerivedRecords_def)
      then show ?thesis
        using governed_blanking[OF g assms(5,6)] by (simp add: tbl_update_def blank_revision_def)
    qed
  qed
qed

section \<open>Failures and retries\<close>

lemma find_appended:
  assumes "\<not> (\<exists>x\<in>set xs. p x)" and "p y"
  shows "List.find p (xs @ [y]) = Some y"
proof -
  have "List.find p xs = None" using assms(1) by (simp add: find_None_iff)
  with assms(2) show ?thesis by simp
qed

text \<open>Every committed deletion stores its answer under its effect identity.\<close>

definition stored_deletion :: "db \<Rightarrow> delete_request \<Rightarrow> bool" where
  "stored_deletion d request \<longleftrightarrow>
    (\<exists>r. lookupManagementEffect d ''delete_receipt'' (dq_idempotency_key request)
       (digestString (json_encode (json_delete_request request))) = Inr (Some (DeleteEffect r)) \<and>
     (\<exists>t\<in>set (receipt_tombstones d). tb_receipt_id t = dq_receipt_id request \<and> tb_tombstone_id t = dr_tombstone_id r))"

lemma lookup_stored:
  assumes "storeManagementEffect op key digest result now d = Inr d'"
  shows "lookupManagementEffect d' op key digest = Inr (Some result)"
proof -
  note spec = storeManagementEffect_spec[OF assms]
  then have "List.find (\<lambda>e. ef_operation e = op \<and> ef_idempotency_key e = key) (management_effects d') =
      Some \<lparr>ef_operation = op, ef_idempotency_key = key, ef_request_digest = digest, ef_result = result, ef_created_at = now\<rparr>"
    using find_appended[of "management_effects d" "\<lambda>e. ef_operation e = op \<and> ef_idempotency_key e = key"] by simp
  then show ?thesis by (simp add: lookupManagementEffect_def)
qed

lemma delete_new_stores:
  assumes "delete_new env request (digestString (json_encode (json_delete_request request))) receipt d = Inr (Deleted r b d')"
  shows "stored_deletion d' request"
  using assms unfolding delete_new_def Let_def
  apply (elim run_elims)
  apply (clarsimp elim!: run_elims)
  subgoal for suffix rnd version d1 d2 t
    using lookup_stored storeManagementEffect_spec insert_tombstone_spec
    unfolding stored_deletion_def
    by (fastforce simp: delete_receipt_rows_def delete_receipt_projection_def)
  done

lemma delete_gone_stores:
  assumes "delete_gone env request (digestString (json_encode (json_delete_request request))) d = Inr st"
  shows "\<exists>r d'. st = AlreadyDeleted r d' \<and> stored_deletion d' request"
  using assms unfolding delete_gone_def Let_def
  apply (elim run_elims)
  subgoal for t d1
    using lookup_stored[of "''delete_receipt''"] storeManagementEffect_spec[of "''delete_receipt''"] find_Some_iff2
    unfolding stored_deletion_def
    by (fastforce simp: refreshCleanupReporting_def Let_def)
  done

lemma stored_deletion_cleanup:
  assumes "stored_deletion d request" and "cleanup_frame d d'"
  shows "stored_deletion d' request"
  using assms(1) cleanup_frameD[OF assms(2)] by (simp add: stored_deletion_def lookupManagementEffect_def)

lemma delete_tx_stores:
  assumes "delete_tx env request d = Inr st"
  shows "(\<exists>r. st = Replayed r) \<or> (\<exists>r d'. st = AlreadyDeleted r d' \<and> stored_deletion d' request) \<or>
    (\<exists>r b d'. st = Deleted r b d' \<and> stored_deletion d' request)"
proof -
  let ?digest = "digestString (json_encode (json_delete_request request))"
  consider r where "st = Replayed r" | "delete_gone env request ?digest d = Inr st"
    | receipt where "delete_new env request ?digest receipt d = Inr st"
    using assms unfolding delete_tx_def Let_def
    by (elim run_elims) (auto split: option.splits effect_result.splits)
  then show ?thesis
  proof cases
    case (3 receipt)
    then obtain r b d' where "st = Deleted r b d'" by (elim delete_new_InrE) auto
    with 3 delete_new_stores show ?thesis by blast
  qed (use delete_gone_stores in blast)+
qed

lemma delete_effect_stored:
  assumes "DeleteReceipt s env request d = (res, d')" and "d' \<noteq> d"
  shows "stored_deletion d' request \<and> validate_delete_request request = Inr ()"
proof -
  obtain st where st: "delete_tx env request d = Inr st" and ok: "validate_delete_request request = Inr ()"
    and req: "requireMutableGeneration s = Inr ()"
    using assms unfolding DeleteReceipt_def by (auto simp: result_simps rbind_def map_err_def split: sum.splits)
  from delete_tx_stores[OF st] show ?thesis
  proof (elim disjE exE conjE)
    fix r assume "st = Replayed r"
    with assms st ok req show ?thesis by (simp add: DeleteReceipt_def)
  next
    fix r d1 assume "st = AlreadyDeleted r d1" "stored_deletion d1 request"
    with assms st ok req show ?thesis by (cases "ge_commit env") (auto simp: DeleteReceipt_def commit_tx_def)
  next
    fix r b d1 assume step: "st = Deleted r b d1" "stored_deletion d1 request"
    obtain u d3 where cl: "cleanupForgettingBarrier (ge_cleanup_now env) (ge_cleanup_commit env) b d1 = (u, d3)" by fastforce
    with assms st ok req step(1) have "d' = d1 \<or> d' = d3"
      by (cases "ge_commit env"; cases u) (auto simp: DeleteReceipt_def commit_tx_def split: if_splits)
    with step(2) stored_deletion_cleanup[OF step(2) cleanup_gives_frame[OF cl]] ok show ?thesis by auto
  qed
qed

text \<open>
  A deletion has one effect: once it has changed the database, whether the caller was
  answered or left with an unknown outcome, the same request is answered at any later time with the
  recorded tombstone, marked as a deduplicated retry, reports the present cleanup state and changes
  nothing.
\<close>

theorem delete_retry_idempotent:
  assumes "DeleteReceipt s env request d = (res, d')" and "d' \<noteq> d" and "requireMutableGeneration s' = Inr ()"
  shows "\<exists>r. DeleteReceipt s' env' request d' = (Inr r, d') \<and> dr_deduplicated_retry r \<and>
    (\<exists>t\<in>set (receipt_tombstones d'). tb_receipt_id t = dq_receipt_id request \<and> tb_tombstone_id t = dr_tombstone_id r) \<and>
    dr_cleanup r = cleanup_state_of (receipt_barriers d' (dq_receipt_id request))"
proof -
  from delete_effect_stored[OF assms(1,2)] obtain r t where
    r: "lookupManagementEffect d' ''delete_receipt'' (dq_idempotency_key request)
       (digestString (json_encode (json_delete_request request))) = Inr (Some (DeleteEffect r))"
    and t: "t \<in> set (receipt_tombstones d')" "tb_receipt_id t = dq_receipt_id request" "tb_tombstone_id t = dr_tombstone_id r"
    and ok: "validate_delete_request request = Inr ()"
    by (auto simp: stored_deletion_def)
  have "DeleteReceipt s' env' request d' =
      (Inr ((refreshCleanupReporting d' (dq_receipt_id request) r)\<lparr>dr_deduplicated_retry := True\<rparr>), d')"
    using assms(3) r ok by (simp add: DeleteReceipt_def delete_tx_def Let_def)
  with t show ?thesis by (auto simp: refreshCleanupReporting_def Let_def)
qed

text \<open>
  A refused deletion has no effect: whenever \<open>DeleteReceipt\<close> returns an error other than an
  unknown outcome, also when the context is cancelled in the middle of the closure, the database is
  exactly as before.
\<close>

theorem delete_atomic:
  assumes "DeleteReceipt s env request d = (Inl e, d')" and "\<not> IsCode e ErrorCodeUnknownOutcome"
  shows "d' = d"
proof -
  have unknown: "IsCode (delete_unknown m) ErrorCodeUnknownOutcome" for m
    by (simp add: delete_unknown_def IsCode_def ErrorCodeOf_def serviceError_def)
  show ?thesis using assms unknown
    by (cases "ge_commit env")
       (auto simp: DeleteReceipt_def commit_tx_def split: sum.splits delete_step.splits if_splits prod.splits)
qed

section \<open>Recovery\<close>

lemma cleanup_settles:
  assumes "cleanupForgettingBarrier now out b d = (Inr (), d')" and "distinct (map fb_sequence (forgetting_barriers d))"
    and "b \<in> set (forgetting_barriers d)" and "fb_status b = BarrierPending"
  shows "forgetting_barriers d' = tbl_update (\<lambda>x. fb_sequence x = fb_sequence b \<and> fb_status x = BarrierPending) (clean_barrier now) (forgetting_barriers d)"
    "fb_kind b = BarrierReceiptDeleted \<Longrightarrow> cleansed d' (fb_sequence b)" "\<And>n. cleansed d n \<Longrightarrow> cleansed d' n"
proof -
  have stored: "barrier_of (fb_sequence b) d = Some b"
    unfolding barrier_of_def by (rule barrier_key.find_key[OF assms(2,3)])
  have same: "cleansed (e\<lparr>forgetting_barriers := bs\<rparr>) n = cleansed e n" for e bs n
    by (simp add: cleansed_def blank_head_def)
  from assms(1) have "forgetting_barriers d' = tbl_update (\<lambda>x. fb_sequence x = fb_sequence b \<and> fb_status x = BarrierPending)
      (clean_barrier now) (forgetting_barriers d) \<and> (fb_kind b = BarrierReceiptDeleted \<longrightarrow> cleansed d' (fb_sequence b)) \<and>
      (\<forall>n. cleansed d n \<longrightarrow> cleansed d' n)"
  proof (cases rule: cleanup_cases)
    case skipped
    then show ?thesis using stored assms(4) by simp
  next
    case (cleaned d1)
    then show ?thesis by (simp add: same)
  qed
  then show "forgetting_barriers d' = tbl_update (\<lambda>x. fb_sequence x = fb_sequence b \<and> fb_status x = BarrierPending) (clean_barrier now) (forgetting_barriers d)"
    "fb_kind b = BarrierReceiptDeleted \<Longrightarrow> cleansed d' (fb_sequence b)" "\<And>n. cleansed d n \<Longrightarrow> cleansed d' n" by blast+
qed

lemma cleanup_all_settles:
  assumes "cleanup_all clock outs k bs d = (Inr (), d')" and "distinct (map fb_sequence (forgetting_barriers d))"
    and "set bs \<subseteq> set (forgetting_barriers d)" "\<forall>b\<in>set bs. fb_status b = BarrierPending" "distinct (map fb_sequence bs)"
  shows "(\<forall>b\<in>set (forgetting_barriers d'). fb_status b = BarrierPending \<longrightarrow> b \<in> set (forgetting_barriers d) - set bs) \<and>
    (\<forall>b\<in>set bs. fb_kind b = BarrierReceiptDeleted \<longrightarrow> cleansed d' (fb_sequence b)) \<and> (\<forall>n. cleansed d n \<longrightarrow> cleansed d' n)"
  using assms
proof (induction bs arbitrary: k d)
  case Nil
  then show ?case by simp
next
  case (Cons b bs)
  from Cons.prems(1) obtain d1 where d1: "cleanupForgettingBarrier (clock k) (outs k) b d = (Inr (), d1)"
    and rest: "cleanup_all clock outs (Suc k) bs d1 = (Inr (), d')"
    by (auto split: sum.splits prod.splits)
  note one = cleanup_settles[OF d1 Cons.prems(2)]
  have b: "b \<in> set (forgetting_barriers d)" "fb_status b = BarrierPending" using Cons.prems by auto
  note bars = one(1)[OF b]
  have keys: "map fb_sequence (forgetting_barriers d1) = map fb_sequence (forgetting_barriers d)"
    unfolding bars by (rule map_tbl_update) (simp add: clean_barrier_def)
  have others: "x \<in> set (forgetting_barriers d1)" if "x \<in> set bs" for x
  proof -
    have "fb_sequence x \<noteq> fb_sequence b" using that Cons.prems(5) by (metis distinct.simps(2) image_eqI list.simps(9) set_map)
    then show ?thesis using that Cons.prems(3) unfolding bars by (auto simp: tbl_simps)
  qed
  have IH: "(\<forall>b\<in>set (forgetting_barriers d'). fb_status b = BarrierPending \<longrightarrow> b \<in> set (forgetting_barriers d1) - set bs) \<and>
    (\<forall>b\<in>set bs. fb_kind b = BarrierReceiptDeleted \<longrightarrow> cleansed d' (fb_sequence b)) \<and> (\<forall>n. cleansed d1 n \<longrightarrow> cleansed d' n)"
    using Cons.IH[OF rest] keys Cons.prems(2,4,5) others by auto
  have "x \<in> set (forgetting_barriers d) - {b}" if "x \<in> set (forgetting_barriers d1)" "fb_status x = BarrierPending" for x
  proof -
    have "fb_status (clean_barrier (clock k) y) \<noteq> BarrierPending" for y by (simp add: clean_barrier_def)
    then show ?thesis using that b unfolding bars set_tbl_update by blast
  qed
  with IH one(2,3)[OF b] show ?case by auto
qed

text \<open>
  Claim C15. Recovery finishes what a crash interrupted: when \<open>RecoverGovernanceCleanup\<close> succeeds no
  barrier is pending any more, the records of every deletion barrier that was pending hold no kind,
  subject or fact key and their revisions no content, and running it again changes nothing.
\<close>

theorem recovery_completes_cleanup:
  assumes "RecoverGovernanceCleanup clock outs d = (Inr (), d')" and "distinct (map fb_sequence (forgetting_barriers d))"
  shows "(\<forall>b\<in>set (forgetting_barriers d'). fb_status b = BarrierCleaned) \<and>
    (\<forall>b\<in>set (forgetting_barriers d). fb_status b = BarrierPending \<and> fb_kind b = BarrierReceiptDeleted \<longrightarrow> cleansed d' (fb_sequence b)) \<and>
    RecoverGovernanceCleanup clock' outs' d' = (Inr (), d')"
proof -
  let ?bs = "sort_key fb_sequence (filter (\<lambda>b. fb_status b = BarrierPending) (forgetting_barriers d))"
  have all: "(\<forall>b\<in>set (forgetting_barriers d'). fb_status b = BarrierPending \<longrightarrow> b \<in> set (forgetting_barriers d) - set ?bs) \<and>
    (\<forall>b\<in>set ?bs. fb_kind b = BarrierReceiptDeleted \<longrightarrow> cleansed d' (fb_sequence b)) \<and> (\<forall>n. cleansed d n \<longrightarrow> cleansed d' n)"
    using assms unfolding RecoverGovernanceCleanup_def
    by (intro cleanup_all_settles) (auto simp: distinct_map_filter distinct_map intro: inj_on_subset)
  then have clean: "\<forall>b\<in>set (forgetting_barriers d'). fb_status b = BarrierCleaned"
    using barrier_status.exhaust by auto
  then have "filter (\<lambda>b. fb_status b = BarrierPending) (forgetting_barriers d') = []" by (simp add: filter_empty_conv)
  then have "RecoverGovernanceCleanup clock' outs' d' = (Inr (), d')" by (simp add: RecoverGovernanceCleanup_def)
  with all clean show ?thesis by auto
qed

section \<open>A concrete deletion\<close>

definition demo_head :: semantic_row where
  "demo_head = \<lparr>sm_record_id = ''a'', sm_space_id = ''s'', sm_kind = ''note'', sm_status = RecordStatusActive,
     sm_current_revision = 1, sm_invalidated_reason = [], sm_created_at = 1, sm_updated_at = 1, sm_label_set = [],
     sm_label_set_digest = digestString (encode_label_set []), sm_subject = [], sm_fact_key = []\<rparr>"

definition demo_revision :: revision_row where
  "demo_revision = \<lparr>rv_record_id = ''a'', rv_revision = 1, rv_space_id = ''s'', rv_kind = ''note'', rv_text = ''hi'',
     rv_operation = OperationAdd, rv_job_id = None, rv_created_at = 1, rv_fact = None\<rparr>"

definition demo_governed :: db where
  "demo_governed = demo_indexed\<lparr>receipt_processing := [accepted_processing ''r1''], semantic_records := [demo_head],
     semantic_revisions := [demo_revision], semantic_evidence := [\<lparr>ev_record_id = ''a'', ev_revision = 1, ev_ordinal = 0,
       ev_receipt_id = ''r1'', ev_space_id = ''s''\<rparr>]\<rparr>"

definition demo_genv :: governance_env where
  "demo_genv = \<lparr>ge_now = 7, ge_random = replicate 16 CHR ''x'', ge_expired = (\<lambda>_. False), ge_commit = Committed,
     ge_barrier_fault = False, ge_cleanup_now = 8, ge_cleanup_commit = Committed\<rparr>"

definition demo_delete :: delete_request where
  "demo_delete = \<lparr>dq_receipt_id = ''r1'', dq_reason = ''x'', dq_idempotency_key = ''k''\<rparr>"

lemma demo_governed_tables:
  "steward_jobs demo_governed = []" "receipts demo_governed = [demo_receipt]" "receipt_corrections demo_governed = []"
  "forgetting_barriers demo_governed = []" "forgetting_barriers_seq demo_governed = 0" "forgetting_barrier_records demo_governed = []"
  "steward_read_set demo_governed = []" "evidence_sources demo_governed = []" "governance_legacy_revisions demo_governed = []"
  "semantic_records demo_governed = [demo_head]" "semantic_revisions demo_governed = [demo_revision]"
  "semantic_evidence demo_governed = [\<lparr>ev_record_id = ''a'', ev_revision = 1, ev_ordinal = 0, ev_receipt_id = ''r1'', ev_space_id = ''s''\<rparr>]"
  "semantic_fts demo_governed = []" "memory_changes demo_governed = []" "management_effects demo_governed = []"
  "receipt_tombstones demo_governed = []" "receipt_processing demo_governed = [accepted_processing ''r1'']"
  "semantic_space_indexes demo_governed = [(''s'', semanticSpaceIndexTable ''s'')]"
  "space_indexes demo_governed = [(''s'', spaceIndexTable ''s'')]"
  "spaces demo_governed = spaces demo_private" "consistency_cursors demo_governed = []" "space_steward_bindings demo_governed = []"
  by (simp_all add: demo_governed_def demo_indexed_def demo_defs)

lemma demo_closure:
  assumes "semantic_evidence d = semantic_evidence demo_governed" "semantic_revisions d = [demo_revision]"
    "map head_key (semantic_records d) = [head_key demo_head]" "steward_read_set d = []" "steward_jobs d = []" "governance_legacy_revisions d = []"
  shows "forgettingClosure d (\<lambda>_. False) ''r1'' ''s'' (digestString (encode_label_set [])) =
    Inr \<lparr>fc_records = [(''a'', ''s'')], fc_jobs = [], fc_widened = False\<rparr>"
  by (simp add: forgettingClosure_def assms evidence_records_def receipt_jobs_def demo_governed_tables
        seed_closure_def put_record_def expandForgettingClosure.simps expand_pass_def visit_job_def visit_record_def
        produced_records_def reader_jobs_def referring_records_def widenUnattributedClosure_def legacy_records_def
        relates_to_def demo_revision_def Let_def)

lemma demo_govern:
  "\<exists>d1. govern_receipt 7 (\<lambda>_. False) kind ''s'' (digestString (encode_label_set [])) ''r1'' demo_governed = Inr (1, d1) \<and>
    consistency_cursors d1 = [] \<and> space_steward_bindings d1 = [] \<and> map pc_receipt_id (receipt_processing d1) = [''r1''] \<and> receipt_corrections d1 = [] \<and>
    receipts d1 = [demo_receipt] \<and> receipt_tombstones d1 = [] \<and> management_effects d1 = [] \<and>
    space_indexes d1 = [(''s'', spaceIndexTable ''s'')] \<and> spaces d1 = spaces demo_private \<and>
    semantic_space_indexes d1 = [(''s'', semanticSpaceIndexTable ''s'')] \<and> steward_jobs d1 = [] \<and>
    steward_read_set d1 = [] \<and> semantic_revisions d1 = [demo_revision] \<and>
    forgetting_barriers d1 = [new_barrier 7 ''s'' (digestString (encode_label_set [])) kind ''r1'' 1] \<and>
    forgetting_barrier_records d1 = [\<lparr>br_sequence = 1, br_record_id = ''a'', br_space_id = ''s''\<rparr>]"
  unfolding govern_receipt_def insertForgettingBarrier_def insert_barrier_def Let_def insert_into_def
    invalidateSemanticRecordsForReceipt_def
  by (simp add: demo_governed_tables has_space_def demo_spaces tbl_insert_def cited_heads_def suppressEvidenceSource_def
      invalidate_record_def readSemanticSpaceIndex_def delete_semantic_projection_def demo_head_def head_key_def invalidated_def
      demo_closure persistForgettingClosure_def ordered_def insert_barrier_record_def insert_into_def
      invalidateForgettingClosure_def recordReceiptChange_def recordMemoryChange_def insert_change_def new_barrier_def clash_on_def accepted_processing_def)
lemma demo_hex: "randomHex 16 (replicate 16 CHR ''x'') = Some (hex_encode (replicate 16 CHR ''x''), [])"
proof -
  have "read_random 16 (replicate 16 CHR ''x'') = Some (replicate 16 CHR ''x'', [])" by (simp add: read_random_def)
  then show ?thesis by (simp only: randomHex_def option.map prod.case)
qed

lemma demo_receipt_fields:
  "rt_receipt_id demo_receipt = ''r1''" "rt_space_id demo_receipt = ''s''" "rt_idempotency_key demo_receipt = ''k''"
  "rt_label_set_digest demo_receipt = digestString (encode_label_set [])"
  by (simp_all add: demo_receipt_def)

lemma demo_delete_new:
  obtains r d1 where "delete_new demo_genv demo_delete digest demo_receipt demo_governed =
      Inr (Deleted r (new_barrier 7 ''s'' (digestString (encode_label_set [])) BarrierReceiptDeleted ''r1'' 1) d1)"
    "forgetting_barriers d1 = [new_barrier 7 ''s'' (digestString (encode_label_set [])) BarrierReceiptDeleted ''r1'' 1]"
    "forgetting_barrier_records d1 = [\<lparr>br_sequence = 1, br_record_id = ''a'', br_space_id = ''s''\<rparr>]"
    "semantic_revisions d1 = [demo_revision]" "semantic_space_indexes d1 = [(''s'', semanticSpaceIndexTable ''s'')]"
    "steward_jobs d1 = []" "receipts d1 = []"
proof -
  obtain e where g: "govern_receipt 7 (\<lambda>_. False) BarrierReceiptDeleted ''s'' (digestString (encode_label_set [])) ''r1'' demo_governed = Inr (1, e)"
    and t: "receipts e = [demo_receipt]" "receipt_tombstones e = []" "management_effects e = []"
      "space_indexes e = [(''s'', spaceIndexTable ''s'')]" "spaces e = spaces demo_private"
      "semantic_space_indexes e = [(''s'', semanticSpaceIndexTable ''s'')]" "steward_jobs e = []"
      "semantic_revisions e = [demo_revision]"
      "forgetting_barriers e = [new_barrier 7 ''s'' (digestString (encode_label_set [])) BarrierReceiptDeleted ''r1'' 1]"
      "forgetting_barrier_records e = [\<lparr>br_sequence = 1, br_record_id = ''a'', br_space_id = ''s''\<rparr>]"
    using demo_govern[of BarrierReceiptDeleted] by (elim exE conjE) (rule that, assumption+)
  have "\<exists>r d1. delete_new demo_genv demo_delete digest demo_receipt demo_governed =
      Inr (Deleted r (new_barrier 7 ''s'' (digestString (encode_label_set [])) BarrierReceiptDeleted ''r1'' 1) d1) \<and>
    forgetting_barriers d1 = [new_barrier 7 ''s'' (digestString (encode_label_set [])) BarrierReceiptDeleted ''r1'' 1] \<and>
    forgetting_barrier_records d1 = [\<lparr>br_sequence = 1, br_record_id = ''a'', br_space_id = ''s''\<rparr>] \<and>
    semantic_revisions d1 = [demo_revision] \<and> semantic_space_indexes d1 = [(''s'', semanticSpaceIndexTable ''s'')] \<and>
    steward_jobs d1 = [] \<and> receipts d1 = []"
    unfolding delete_new_def Let_def demo_genv_def demo_delete_def
    by (simp add: demo_hex g[unfolded One_nat_def] demo_receipt_fields insert_tombstone_def insert_into_def tbl_insert_def t[unfolded One_nat_def]
        has_space_def demo_spaces readSpaceIndex_def delete_receipt_projection_def delete_receipt_rows_def tbl_delete_def
        storeManagementEffect_def insert_effect_def new_barrier_def del: replicate.simps)
  then show ?thesis by (elim exE conjE) (rule that, assumption+)
qed

lemma demo_delete_valid: "validate_delete_request demo_delete = Inr ()"
  by (simp add: validate_delete_request_def demo_delete_def validateMutation_def maxReasonBytes_def maxIdempotencyKeyBytes_def text_eval)

text \<open>Deleting the receipt runs to completion and blanks the one revision derived from it.\<close>

lemma demo_deleted:
  obtains r d' where "DeleteReceipt demo_store demo_genv demo_delete demo_governed = (Inr r, d')" "d' \<noteq> demo_governed"
    "dr_cleanup r = CleanupStateCompleted"
proof -
  let ?digest = "digestString (json_encode (json_delete_request demo_delete))"
  let ?b = "new_barrier 7 ''s'' (digestString (encode_label_set [])) BarrierReceiptDeleted ''r1'' 1"
  obtain r d1 where new: "delete_new demo_genv demo_delete ?digest demo_receipt demo_governed = Inr (Deleted r ?b d1)"
    and t: "forgetting_barriers d1 = [?b]" "forgetting_barrier_records d1 = [\<lparr>br_sequence = 1, br_record_id = ''a'', br_space_id = ''s''\<rparr>]"
      "semantic_revisions d1 = [demo_revision]" "semantic_space_indexes d1 = [(''s'', semanticSpaceIndexTable ''s'')]"
      "steward_jobs d1 = []" "receipts d1 = []"
    by (rule demo_delete_new)
  have "\<exists>d'. cleanupForgettingBarrier 8 Committed ?b d1 = (Inr (), d') \<and> receipts d' = []"
    unfolding cleanupForgettingBarrier_def
    by (simp add: barrier_of_def t new_barrier_def cleanseDerivedHistory_def barrierDerivedRecords_def cleanse_record_def
        cleansable_def demo_revision_def readSemanticSpaceIndex_def delete_semantic_projection_def tbl_delete_def commit_tx_def Let_def)
  then obtain d' where cl: "cleanupForgettingBarrier 8 Committed ?b d1 = (Inr (), d')" "receipts d' = []" by blast
  have "receipt_of ''r1'' demo_governed = Some demo_receipt"
    by (simp add: receipt_of_def demo_governed_tables demo_receipt_fields)
  then have "delete_tx demo_genv demo_delete demo_governed = Inr (Deleted r ?b d1)"
    unfolding delete_tx_def Let_def
    by (simp add: lookupManagementEffect_def demo_governed_tables new) (simp add: demo_delete_def new[unfolded demo_delete_def])
  then have "DeleteReceipt demo_store demo_genv demo_delete demo_governed = (Inr (r\<lparr>dr_cleanup := CleanupStateCompleted\<rparr>), d')"
    using cl(1) by (simp add: DeleteReceipt_def demo_delete_valid) (simp add: demo_genv_def commit_tx_def)
  moreover have "d' \<noteq> demo_governed" using cl(2) demo_governed_tables(2) by auto
  ultimately show ?thesis by (intro that) auto
qed
lemma demo_attributed: "attributed demo_governed ''r1'' ''s'' (digestString (encode_label_set [])) ''a''"
  using cites[of "\<lparr>ev_record_id = ''a'', ev_revision = 1, ev_ordinal = 0, ev_receipt_id = ''r1'', ev_space_id = ''s''\<rparr>" demo_governed "''r1''"]
  by (simp add: demo_governed_tables)

lemma demo_delete_receipt: "receipt_of (dq_receipt_id demo_delete) demo_governed = Some demo_receipt" "dq_receipt_id demo_delete = ''r1''"
  by (simp_all add: receipt_of_def demo_governed_tables demo_receipt_fields demo_delete_def)

theorem delete_leaves_nothing_live_witness:
  "\<exists>r d'. DeleteReceipt demo_store demo_genv demo_delete demo_governed = (Inr r, d') \<and> receipts d' = [] \<and> forgottenRecord d' ''a''"
proof (rule demo_deleted)
  fix r d' assume del: "DeleteReceipt demo_store demo_genv demo_delete demo_governed = (Inr r, d')" "d' \<noteq> demo_governed"
  from delete_leaves_nothing_live[OF del(1) demo_delete_receipt(1) del(2)] del(1) demo_attributed show ?thesis
    by (auto simp: demo_delete_receipt(2) demo_receipt_fields demo_governed_tables)
qed

theorem delete_erases_derived_content_witness:
  "\<exists>r d'. DeleteReceipt demo_store demo_genv demo_delete demo_governed = (Inr r, d') \<and>
     semantic_revisions d' = [demo_revision\<lparr>rv_text := [], rv_fact := None, rv_kind := []\<rparr>]"
proof (rule demo_deleted)
  fix r d' assume del: "DeleteReceipt demo_store demo_genv demo_delete demo_governed = (Inr r, d')" "d' \<noteq> demo_governed"
    "dr_cleanup r = CleanupStateCompleted"
  have "references_ok demo_governed" "barriers_ok demo_governed"
    by (simp_all add: references_ok_def barriers_ok_def demo_governed_tables demo_head_def demo_revision_def)
  from delete_erases_derived_content[OF del(1) demo_delete_receipt(1) del(2,3) this] del(1) demo_attributed show ?thesis
    by (simp add: demo_delete_receipt(2) demo_receipt_fields demo_governed_tables) (simp add: demo_revision_def)
qed

theorem delete_retry_idempotent_witness:
  "\<exists>r d'. d' \<noteq> demo_governed \<and> DeleteReceipt demo_store demo_genv demo_delete d' = (Inr r, d') \<and> dr_deduplicated_retry r"
proof (rule demo_deleted)
  fix r d' assume del: "DeleteReceipt demo_store demo_genv demo_delete demo_governed = (Inr r, d')" "d' \<noteq> demo_governed"
  from delete_retry_idempotent[OF del demo_store_open, of demo_genv] del(2) show ?thesis by blast
qed

theorem delete_atomic_witness:
  "snd (DeleteReceipt demo_store demo_genv (demo_delete\<lparr>dq_receipt_id := []\<rparr>) demo_governed) = demo_governed"
proof -
  have r: "DeleteReceipt demo_store demo_genv (demo_delete\<lparr>dq_receipt_id := []\<rparr>) demo_governed =
      (Inl (serviceError ErrorCodeInvalidArgument ''receipt_id is required'' False), demo_governed)"
    by (simp add: DeleteReceipt_def validate_delete_request_def)
  show ?thesis using delete_atomic[OF r] by (simp add: r)
qed

text \<open>The same database after a crash between the two transactions.\<close>

definition demo_crashed :: db where
  "demo_crashed = demo_governed\<lparr>
     forgetting_barriers := [new_barrier 7 ''s'' (digestString (encode_label_set [])) BarrierReceiptDeleted ''r1'' 1],
     forgetting_barrier_records := [\<lparr>br_sequence = 1, br_record_id = ''a'', br_space_id = ''s''\<rparr>]\<rparr>"

theorem recovery_completes_cleanup_witness:
  "\<exists>d'. RecoverGovernanceCleanup (\<lambda>_. 9) (\<lambda>_. Committed) demo_crashed = (Inr (), d') \<and> cleansed d' 1 \<and>
     (\<forall>b\<in>set (forgetting_barriers d'). fb_status b = BarrierCleaned)"
proof -
  have "\<exists>d'. RecoverGovernanceCleanup (\<lambda>_. 9) (\<lambda>_. Committed) demo_crashed = (Inr (), d')"
    by (simp add: RecoverGovernanceCleanup_def demo_crashed_def cleanupForgettingBarrier_def barrier_of_def new_barrier_def
        cleanseDerivedHistory_def barrierDerivedRecords_def cleanse_record_def demo_governed_tables
        cleansable_def demo_revision_def readSemanticSpaceIndex_def delete_semantic_projection_def tbl_delete_def commit_tx_def Let_def)
  then obtain d' where run: "RecoverGovernanceCleanup (\<lambda>_. 9) (\<lambda>_. Committed) demo_crashed = (Inr (), d')" by blast
  from recovery_completes_cleanup[OF run] run show ?thesis by (auto simp: demo_crashed_def new_barrier_def)
qed
end
