(* ===== verification/Correction.thy ===== *)
theory Correction
  imports Deletion
begin

text \<open>
  The contract of \<open>CorrectReceipt\<close>: the original evidence and all derived history stay as audit, the
  replacement is new evidence of the same partition, everything derived from the original is
  invalidated, and an exact retry has no second effect.
\<close>

section \<open>What a correction writes\<close>

lemma enqueue_tables:
  assumes "enqueueStewardJob now rid s ls l d = Some d'"
  shows "receipts d' = receipts d" "receipts_seq d' = receipts_seq d" "receipt_corrections d' = receipt_corrections d" "management_effects d' = management_effects d"
    "semantic_revisions d' = semantic_revisions d" "semantic_evidence d' = semantic_evidence d" "semantic_records d' = semantic_records d"
    "forgetting_barriers d' = forgetting_barriers d" "forgetting_barrier_records d' = forgetting_barrier_records d"
    "\<exists>js. steward_jobs d' = steward_jobs d @ js \<and> (\<forall>j\<in>set js. jb_receipt_id j = rid)"
  using assms by (auto simp: enqueueStewardJob_def insert_job_def tbl_simps split: option.splits)

lemma correct_writes_spec:
  assumes "correct_writes s A now request original labels rid token d = Inr d'"
  shows "\<exists>new. receipts d' = receipts d @ [new] \<and> rt_receipt_id new = rid \<and> rt_text new = cq_replacement_text request \<and>
      rt_space_id new = rt_space_id original \<and> rt_label_set_digest new = ls_digest labels"
    "\<exists>js. steward_jobs d' = steward_jobs d @ js \<and> (\<forall>j\<in>set js. jb_receipt_id j = rid)"
    "is_corrected d' (cq_receipt_id request)" "management_effects d' = management_effects d"
    "semantic_revisions d' = semantic_revisions d" "semantic_evidence d' = semantic_evidence d" "semantic_records d' = semantic_records d"
    "forgetting_barriers d' = forgetting_barriers d" "forgetting_barrier_records d' = forgetting_barrier_records d"
proof -
  obtain row d1 d2 d3 c d4 t d5 co where
    1: "insert_receipt row d = Some d1" and row: "rt_receipt_id row = rid" "rt_text row = cq_replacement_text request"
      "rt_space_id row = rt_space_id original" "rt_label_set_digest row = ls_digest labels" and
    2: "insert_processing (accepted_processing rid) d1 = Some d2" and
    3: "enqueueStewardJob now rid (rt_space_id original) (ls_labels labels) (ls_digest labels) d2 = Some d3" and
    4: "insert_cursor c d3 = Some d4" and
    5: "indexReceiptProjection A t rid (cq_replacement_text request) [] d4 = Some d5" and
    6: "insert_correction co d5 = Some d'" and co: "co_original_receipt_id co = cq_receipt_id request"
    using assms unfolding correct_writes_def Let_def
    by (elim run_elims) (rule that, assumption, simp, simp, simp, simp, assumption, assumption, assumption, assumption, assumption, simp)
  note e = enqueue_tables[OF 3]
  show "\<exists>new. receipts d' = receipts d @ [new] \<and> rt_receipt_id new = rid \<and> rt_text new = cq_replacement_text request \<and>
      rt_space_id new = rt_space_id original \<and> rt_label_set_digest new = ls_digest labels"
    using 1 2 4 5 6 e(1) row
    by (auto simp: insert_receipt_def insert_processing_def insert_cursor_def indexReceiptProjection_def insert_correction_def tbl_simps Let_def)
  have jobs: "steward_jobs d' = steward_jobs d3" "steward_jobs d2 = steward_jobs d"
    using 1 2 4 5 6
    by (auto simp: insert_receipt_def insert_processing_def insert_cursor_def indexReceiptProjection_def insert_correction_def tbl_simps Let_def)
  show "\<exists>js. steward_jobs d' = steward_jobs d @ js \<and> (\<forall>j\<in>set js. jb_receipt_id j = rid)"
    using e(10) unfolding jobs by blast
  show "is_corrected d' (cq_receipt_id request)"
    using 6 co by (auto simp: insert_correction_def is_corrected_def tbl_simps list_ex_iff)
  show "management_effects d' = management_effects d" "semantic_revisions d' = semantic_revisions d"
    "semantic_evidence d' = semantic_evidence d" "semantic_records d' = semantic_records d"
    "forgetting_barriers d' = forgetting_barriers d" "forgetting_barrier_records d' = forgetting_barrier_records d"
    using 1 2 4 5 6 e
    by (auto simp: insert_receipt_def insert_processing_def insert_cursor_def indexReceiptProjection_def insert_correction_def tbl_simps Let_def)
qed

text \<open>What holds in every database a committed correction leaves behind.\<close>

definition corrected_spec :: "db \<Rightarrow> correct_request \<Rightarrow> receipt_row \<Rightarrow> db \<Rightarrow> bool" where
  "corrected_spec d request original d' \<longleftrightarrow>
    (let rc = cq_receipt_id request; s = rt_space_id original; l = rt_label_set_digest original in
     is_corrected d' rc \<and> semantic_revisions d' = semantic_revisions d \<and> semantic_evidence d' = semantic_evidence d \<and>
     (\<exists>new. receipts d' = receipts d @ [new] \<and> rt_text new = cq_replacement_text request \<and> rt_space_id new = s \<and> rt_label_set_digest new = l \<and>
       (\<forall>j\<in>set (steward_jobs d'). tainted d rc s l (jb_job_id j) \<longrightarrow> jb_receipt_id j = rt_receipt_id new \<or> \<not> open_job j)) \<and>
     (\<forall>r. attributed d rc s l r \<longrightarrow> r \<in> inactive_ids d'))"

lemma decode_digest: "decodeStoredLabelSet ls l = Inr labels \<Longrightarrow> ls_digest labels = l"
  unfolding decodeStoredLabelSet_def by (elim run_elims) auto

lemma correct_new_spec:
  assumes "correct_new s A env request digest original d = Inr st"
  shows "\<exists>r b d'. st = Corrected r b d' \<and> fb_kind b = BarrierReceiptCorrected \<and> corrected_spec d request original d' \<and>
    lookupManagementEffect d' ''correct_receipt'' (cq_idempotency_key request) digest = Inr (Some (CorrectEffect r)) \<and>
    r = \<lparr>cr_original_receipt_id = cq_receipt_id request, cr_replacement_receipt_id = cr_replacement_receipt_id r,
      cr_consistency_token = cr_consistency_token r, cr_deduplicated_retry = False\<rparr>"
proof -
  let ?rc = "cq_receipt_id request" and ?s = "rt_space_id original" and ?l = "rt_label_set_digest original"
  obtain version e suffix token labels d2 r b d' where
    g: "govern_receipt (ge_now env) (ge_expired env) BarrierReceiptCorrected ?s ?l ?rc d = Inr (version, e)" and
    lab: "decodeStoredLabelSet (rt_label_set original) ?l = Inr labels" and
    w: "correct_writes s A (ge_now env) request original labels (''receipt-'' @ suffix) token e = Inr d2" and
    r: "r = \<lparr>cr_original_receipt_id = ?rc, cr_replacement_receipt_id = ''receipt-'' @ suffix, cr_consistency_token = token, cr_deduplicated_retry = False\<rparr>" and
    eff: "storeManagementEffect ''correct_receipt'' (cq_idempotency_key request) digest (CorrectEffect r) (ge_now env) d2 = Inr d'" and
    st: "st = Corrected r b d'" and b: "fb_kind b = BarrierReceiptCorrected"
    using assms unfolding correct_new_def Let_def
    by (elim run_elims) (clarsimp elim!: run_elims)
  note ws = correct_writes_spec[OF w] and es = storeManagementEffect_spec[OF eff]
  have tabs: "receipts d' = receipts d2" "steward_jobs d' = steward_jobs d2" "semantic_records d' = semantic_records d2"
    "semantic_revisions d' = semantic_revisions d2" "semantic_evidence d' = semantic_evidence d2" "receipt_corrections d' = receipt_corrections d2"
    using es by simp_all
  from g have "corrected_spec d request original d'"
  proof (rule govern_receipt_InrE)
    fix c d1
    assume f: "governed_frame d e" and att: "\<And>r. attributed d ?rc ?s ?l r \<Longrightarrow> r \<in> ids (fc_records c) \<and> r \<in> inactive_ids e"
      and tai: "\<And>j. tainted d ?rc ?s ?l j \<Longrightarrow> j \<in> settled_ids e"
    note fd = governed_frameD[OF f]
    obtain new where new: "receipts d2 = receipts e @ [new]" "rt_receipt_id new = ''receipt-'' @ suffix" "rt_text new = cq_replacement_text request"
      "rt_space_id new = ?s" "rt_label_set_digest new = ls_digest labels" using ws(1) by blast
    obtain js where js: "steward_jobs d2 = steward_jobs e @ js" "\<forall>j\<in>set js. jb_receipt_id j = ''receipt-'' @ suffix" using ws(2) by blast
    have "jb_receipt_id j = rt_receipt_id new \<or> \<not> open_job j"
      if "j \<in> set (steward_jobs d')" "tainted d ?rc ?s ?l (jb_job_id j)" for j
      using that js new(2) tai[OF that(2)] tabs(2) by (auto simp: settled_ids_def)
    moreover have "r \<in> inactive_ids d'" if "attributed d ?rc ?s ?l r" for r
      using att[OF that] ws(7) tabs(3) by (simp add: inactive_ids_def)
    moreover have "is_corrected d' ?rc" using ws(3) tabs(6) by (simp add: is_corrected_def)
    ultimately show ?thesis
      using new fd ws tabs decode_digest[OF lab] unfolding corrected_spec_def Let_def by auto
  qed
  with st b lookup_stored[OF eff] r show ?thesis by simp
qed

lemma corrected_cleanup:
  assumes "corrected_spec d request original d1" and "fb_kind b = BarrierReceiptCorrected"
    and "cleanupForgettingBarrier now out b d1 = (u, d')"
  shows "corrected_spec d request original d' \<and> management_effects d' = management_effects d1"
  using assms(3)
proof (cases rule: cleanup_cases)
  case skipped
  then show ?thesis using assms(1) by simp
next
  case (cleaned d2)
  obtain bs where "d' = d1\<lparr>forgetting_barriers := bs\<rparr>"
  proof (cases "barrier_of (fb_sequence b) d1")
    case None
    then show ?thesis using assms(3) that[of "forgetting_barriers d1"] by (simp add: cleanupForgettingBarrier_def)
  next
    case (Some x)
    then show ?thesis using assms(2,3) that that[of "forgetting_barriers d1"]
      by (cases out) (auto simp: cleanupForgettingBarrier_def commit_tx_def split: if_splits)
  qed
  then show ?thesis using assms(1) by (simp add: corrected_spec_def inactive_ids_def is_corrected_def)
qed

lemma correct_effect_cases:
  assumes "CorrectReceipt s A env request d = (res, d')" and "d' \<noteq> d"
  obtains original r where "receipt_of (cq_receipt_id request) d = Some original" "corrected_spec d request original d'"
    "lookupManagementEffect d' ''correct_receipt'' (cq_idempotency_key request)
       (digestString (json_encode (json_correct_request request))) = Inr (Some (CorrectEffect r))"
    "\<not> cr_deduplicated_retry r" "cr_original_receipt_id r = cq_receipt_id request" "\<And>r'. res = Inr r' \<Longrightarrow> r' = r"
    "validate_correct_request request = Inr ()"
proof -
  let ?digest = "digestString (json_encode (json_correct_request request))"
  obtain st where st: "correct_tx s A env request d = Inr st" and ok: "validate_correct_request request = Inr ()"
    and req: "requireMutableGeneration s = Inr ()"
    using assms unfolding CorrectReceipt_def by (auto simp: result_simps rbind_def map_err_def split: sum.splits)
  have "\<forall>r. st \<noteq> CorrectReplayed r" using assms st ok req by (auto simp: CorrectReceipt_def)
  with st obtain original where o: "receipt_of (cq_receipt_id request) d = Some original"
    and new: "correct_new s A env request ?digest original d = Inr st"
    unfolding correct_tx_def Let_def by (elim run_elims) (auto split: option.splits effect_result.splits elim!: run_elims)
  from correct_new_spec[OF new] obtain r b d1 where step: "st = Corrected r b d1" "fb_kind b = BarrierReceiptCorrected"
    and spec: "corrected_spec d request original d1"
    and look: "lookupManagementEffect d1 ''correct_receipt'' (cq_idempotency_key request) ?digest = Inr (Some (CorrectEffect r))"
    and r: "r = \<lparr>cr_original_receipt_id = cq_receipt_id request, cr_replacement_receipt_id = cr_replacement_receipt_id r,
      cr_consistency_token = cr_consistency_token r, cr_deduplicated_retry = False\<rparr>" by blast
  obtain u d3 where cl: "cleanupForgettingBarrier (ge_cleanup_now env) (ge_cleanup_commit env) b d1 = (u, d3)" by fastforce
  have out: "(d' = d1 \<or> d' = d3) \<and> (\<forall>r'. res = Inr r' \<longrightarrow> r' = r)"
    using assms st ok req step(1) cl by (cases "ge_commit env") (auto simp: CorrectReceipt_def commit_tx_def)
  note after = corrected_cleanup[OF spec step(2) cl]
  have "lookupManagementEffect d' ''correct_receipt'' (cq_idempotency_key request) ?digest = Inr (Some (CorrectEffect r))"
    using out look after by (auto simp: lookupManagementEffect_def)
  moreover have "corrected_spec d request original d'" using out spec after by auto
  moreover have "\<not> cr_deduplicated_retry r" "cr_original_receipt_id r = cq_receipt_id request"
    using r by (metis correct_response.select_convs)+
  ultimately show ?thesis using that[OF o] out ok by blast
qed

text \<open>
  Claim C16. A correction loses no evidence: when \<open>CorrectReceipt\<close> has changed the database, every
  receipt, revision and evidence row of before is still stored, exactly one receipt with the
  replacement text is added to the Space and label partition of the original, the original is marked
  as corrected, no record derived from it is active, and no job tainted by it is open but the new
  receipt's own.
\<close>

theorem correction_preserves_evidence:
  assumes "CorrectReceipt s A env request d = (res, d')" and "d' \<noteq> d"
  shows "\<exists>original new. receipt_of (cq_receipt_id request) d = Some original \<and> receipts d' = receipts d @ [new] \<and>
    rt_text new = cq_replacement_text request \<and> rt_space_id new = rt_space_id original \<and>
    rt_label_set_digest new = rt_label_set_digest original \<and> is_corrected d' (cq_receipt_id request) \<and>
    semantic_revisions d' = semantic_revisions d \<and> semantic_evidence d' = semantic_evidence d \<and>
    (\<forall>x\<in>set (semantic_records d'). sm_status x = RecordStatusActive \<longrightarrow>
       \<not> attributed d (cq_receipt_id request) (rt_space_id original) (rt_label_set_digest original) (sm_record_id x)) \<and>
    (\<forall>j\<in>set (steward_jobs d'). open_job j \<longrightarrow> jb_receipt_id j = rt_receipt_id new \<or>
       \<not> tainted d (cq_receipt_id request) (rt_space_id original) (rt_label_set_digest original) (jb_job_id j))"
  using assms
proof (rule correct_effect_cases)
  fix original r
  assume "receipt_of (cq_receipt_id request) d = Some original" and spec: "corrected_spec d request original d'"
  then show ?thesis unfolding corrected_spec_def Let_def inactive_ids_def by blast
qed

text \<open>
  A correction has one effect: once it has changed the database, whether the caller was
  answered or left with an unknown outcome, the same request is answered with the recorded
  replacement, marked as a deduplicated retry, and changes nothing.
\<close>

theorem correct_retry_idempotent:
  assumes "CorrectReceipt s A env request d = (res, d')" and "d' \<noteq> d" and "requireMutableGeneration s' = Inr ()"
  shows "\<exists>r. CorrectReceipt s' A' env' request d' = (Inr r, d') \<and> cr_deduplicated_retry r \<and>
    (\<forall>r0. res = Inr r0 \<longrightarrow> r = r0\<lparr>cr_deduplicated_retry := True\<rparr>)"
  using assms(1,2)
proof (rule correct_effect_cases)
  fix original r
  assume look: "lookupManagementEffect d' ''correct_receipt'' (cq_idempotency_key request)
       (digestString (json_encode (json_correct_request request))) = Inr (Some (CorrectEffect r))"
    and ok: "validate_correct_request request = Inr ()" and res: "\<And>r'. res = Inr r' \<Longrightarrow> r' = r"
  have "CorrectReceipt s' A' env' request d' = (Inr (r\<lparr>cr_deduplicated_retry := True\<rparr>), d')"
    using assms(3) look ok by (simp add: CorrectReceipt_def correct_tx_def Let_def)
  with res show ?thesis by auto
qed

section \<open>A concrete correction\<close>

definition demo_correct :: correct_request where
  "demo_correct = \<lparr>cq_receipt_id = ''r1'', cq_replacement_text = ''hi'', cq_reason = ''x'', cq_idempotency_key = ''k''\<rparr>"

definition demo_cenv :: governance_env where
  "demo_cenv = demo_genv\<lparr>ge_random := replicate 40 CHR ''x''\<rparr>"

lemma demo_correct_valid: "validate_correct_request demo_correct = Inr ()"
  by (simp add: validate_correct_request_def demo_correct_def validateMutation_def maxReasonBytes_def maxIdempotencyKeyBytes_def
      maxReplacementTextBytes_def text_eval)

lemma demo_correct_random:
  "randomHex 16 (replicate 40 CHR ''x'') = Some (hex_encode (replicate 16 CHR ''x''), replicate 24 CHR ''x'')"
  "randomToken 24 (replicate 24 CHR ''x'') = Some (base64url (replicate 24 CHR ''x''), [])"
proof -
  have "read_random 16 (replicate 40 CHR ''x'') = Some (replicate 16 CHR ''x'', replicate 24 CHR ''x'')"
    "read_random 24 (replicate 24 CHR ''x'') = Some (replicate 24 CHR ''x'', [])" by (simp_all add: read_random_def)
  then show "randomHex 16 (replicate 40 CHR ''x'') = Some (hex_encode (replicate 16 CHR ''x''), replicate 24 CHR ''x'')"
    "randomToken 24 (replicate 24 CHR ''x'') = Some (base64url (replicate 24 CHR ''x''), [])"
    by (simp_all only: randomHex_def randomToken_def option.map prod.case)
qed

lemma demo_corrected:
  obtains r d' where "CorrectReceipt demo_store demo_analyzer demo_cenv demo_correct demo_governed = (Inr r, d')" "d' \<noteq> demo_governed"
proof -
  obtain e where g: "govern_receipt 7 (\<lambda>_. False) BarrierReceiptCorrected ''s'' (digestString (encode_label_set [])) ''r1'' demo_governed = Inr (1, e)"
    and t: "receipts e = [demo_receipt]" "management_effects e = []" "consistency_cursors e = []" "space_steward_bindings e = []"
      "map pc_receipt_id (receipt_processing e) = [''r1'']" "receipt_corrections e = []"
      "space_indexes e = [(''s'', spaceIndexTable ''s'')]" "spaces e = spaces demo_private"
    using demo_govern[of BarrierReceiptCorrected] by (elim exE conjE) (rule that, assumption+)
  obtain p where p: "receipt_processing e = [p]" "pc_receipt_id p = ''r1''" using t(5) by auto
  have tok: "base64url (replicate 24 CHR ''x'') \<noteq> []" unfolding base64url_Nil_iff by simp
  let ?digest = "digestString (json_encode (json_correct_request demo_correct))"
  have w: "\<exists>d2. correct_writes demo_store demo_analyzer 7 demo_correct demo_receipt
      \<lparr>ls_labels = [], ls_encoded = encode_label_set [], ls_digest = digestString (encode_label_set [])\<rparr>
      (''receipt-'' @ hex) token e = Inr d2 \<and> management_effects d2 = []" if "token \<noteq> []" for hex token
    using that by (simp add: correct_writes_def Let_def insert_receipt_def insert_into_def tbl_insert_def t p has_space_def demo_spaces
        clash_receipt_def demo_receipt_def insert_processing_def accepted_processing_def clash_on_def enqueueStewardJob_def
        insert_cursor_def readSpaceIndex_def indexReceiptProjection_def demo_proj insert_correction_def demo_correct_def
        correction_request_def)
  have "\<exists>r b d1. correct_new demo_store demo_analyzer demo_cenv demo_correct ?digest demo_receipt demo_governed = Inr (Corrected r b d1)"
  proof -
    obtain d2 where d2: "correct_writes demo_store demo_analyzer 7 demo_correct demo_receipt
      \<lparr>ls_labels = [], ls_encoded = encode_label_set [], ls_digest = digestString (encode_label_set [])\<rparr>
      (''receipt-'' @ hex_encode (replicate 16 CHR ''x'')) (base64url (replicate 24 CHR ''x'')) e = Inr d2" "management_effects d2 = []"
      using w[OF tok] by blast
    have lab: "rt_label_set demo_receipt = []" "cq_receipt_id demo_correct = ''r1''" by (simp_all add: demo_receipt_def demo_correct_def)
    have env: "ge_now demo_cenv = 7" "ge_expired demo_cenv = (\<lambda>_. False)" "ge_random demo_cenv = replicate 40 CHR ''x''"
      by (simp_all add: demo_cenv_def demo_genv_def)
    show ?thesis
      unfolding correct_new_def Let_def env
      by (simp add: is_corrected_def demo_governed_tables demo_receipt_fields lab g[unfolded One_nat_def] demo_correct_random
          d2[simplified] storeManagementEffect_def insert_effect_def insert_into_def tbl_insert_def del: replicate.simps)
  qed
  then obtain r b d1 where new: "correct_new demo_store demo_analyzer demo_cenv demo_correct ?digest demo_receipt demo_governed = Inr (Corrected r b d1)"
    by blast
  have "receipt_of ''r1'' demo_governed = Some demo_receipt" "cq_receipt_id demo_correct = ''r1''"
    by (simp_all add: receipt_of_def demo_governed_tables demo_receipt_fields demo_correct_def)
  then have tx: "correct_tx demo_store demo_analyzer demo_cenv demo_correct demo_governed = Inr (Corrected r b d1)"
    unfolding correct_tx_def Let_def by (simp add: lookupManagementEffect_def demo_governed_tables new)
  define d' where "d' = snd (cleanupForgettingBarrier 8 Committed b d1)"
  have "CorrectReceipt demo_store demo_analyzer demo_cenv demo_correct demo_governed = (Inr r, d')"
    using tx by (simp add: CorrectReceipt_def demo_correct_valid d'_def) (simp add: demo_cenv_def demo_genv_def commit_tx_def)
  moreover have "d' \<noteq> demo_governed"
  proof -
    from correct_new_spec[OF new] have c: "corrected_spec demo_governed demo_correct demo_receipt d1" "fb_kind b = BarrierReceiptCorrected" by auto
    obtain u where "cleanupForgettingBarrier 8 Committed b d1 = (u, d')" unfolding d'_def by (metis prod.collapse)
    from corrected_cleanup[OF c this] have "is_corrected d' ''r1''"
      by (simp add: corrected_spec_def Let_def demo_correct_def)
    then show ?thesis by (auto simp: is_corrected_def demo_governed_tables)
  qed
  ultimately show ?thesis by (rule that)
qed

theorem correction_preserves_evidence_witness:
  "\<exists>r d' new. CorrectReceipt demo_store demo_analyzer demo_cenv demo_correct demo_governed = (Inr r, d') \<and>
     receipts d' = [demo_receipt, new] \<and> is_corrected d' ''r1''"
proof (rule demo_corrected)
  fix r d' assume c: "CorrectReceipt demo_store demo_analyzer demo_cenv demo_correct demo_governed = (Inr r, d')" "d' \<noteq> demo_governed"
  from correction_preserves_evidence[OF c] c(1) show ?thesis by (auto simp: demo_correct_def demo_governed_tables)
qed

theorem correct_retry_idempotent_witness:
  "\<exists>r d'. d' \<noteq> demo_governed \<and> CorrectReceipt demo_store demo_analyzer demo_cenv demo_correct d' = (Inr r, d') \<and> cr_deduplicated_retry r"
proof (rule demo_corrected)
  fix r d' assume c: "CorrectReceipt demo_store demo_analyzer demo_cenv demo_correct demo_governed = (Inr r, d')" "d' \<noteq> demo_governed"
  from correct_retry_idempotent[OF c demo_store_open, of demo_analyzer demo_cenv] c(2) show ?thesis by blast
qed

end
