(* ===== verification/Facts_Timeline.thy ===== *)
theory Facts_Timeline
  imports Correction
begin

text \<open>
  Facts and their timelines, \<open>facts_read.go\<close> and \<open>facts_lifecycle.go\<close>: a fact is one immutable
  revision of a record with its metadata and evidence, and \<open>factTimeline\<close> derives from the explicit
  transitions of a record which revision was adopted when. The main result is that a history whose
  transitions obey the lifecycle (\<open>lifecycle_ok\<close>) is unambiguous: at any instant at most one of its
  revisions is adopted.

  A pointer to a time is an \<open>option\<close>; times are compared as instants and encoded in UTC.
\<close>

section \<open>Facts\<close>

record fact_evidence =
  fe_receipt_id :: string
  fe_source :: "source option"

record fact_rev =
  fa_record_id :: string
  fa_revision :: nat
  fa_space_id :: string
  fa_text :: string
  fa_metadata :: metadata
  fa_evidence :: "fact_evidence list"
  fa_historical_state :: string

definition evidence_source_of :: "db \<Rightarrow> string \<Rightarrow> source option" where
  "evidence_source_of d receiptID =
    Option.bind (List.find (\<lambda>s. es_receipt_id s = receiptID) (evidence_sources d)) es_source"

definition revision_evidence :: "db \<Rightarrow> string \<Rightarrow> nat \<Rightarrow> fact_evidence list" where
  "revision_evidence d recordID revision =
    map (\<lambda>e. \<lparr>fe_receipt_id = ev_receipt_id e, fe_source = evidence_source_of d (ev_receipt_id e)\<rparr>)
      (sort_key ev_ordinal (filter (\<lambda>e. ev_record_id e = recordID \<and> ev_revision e = revision) (semantic_evidence d)))"

definition readFactRevision :: "db \<Rightarrow> string \<Rightarrow> nat \<Rightarrow> error + fact_rev" where
  "readFactRevision d recordID revision =
    rbind (of_opt (Errorf ''sql: no rows in result set'') (revision_of recordID revision d)) (\<lambda>v.
    rbind (of_opt (Errorf ''record has no attributable fact metadata'') (rv_fact v)) (\<lambda>m.
    Inr \<lparr>fa_record_id = recordID, fa_revision = revision, fa_space_id = rv_space_id v, fa_text = rv_text v,
      fa_metadata = m, fa_evidence = revision_evidence d recordID revision, fa_historical_state = []\<rparr>))"

section \<open>Timelines\<close>

definition fact_of_row :: "revision_row \<Rightarrow> metadata \<Rightarrow> fact_rev" where
  "fact_of_row v m = \<lparr>fa_record_id = rv_record_id v, fa_revision = rv_revision v, fa_space_id = rv_space_id v,
     fa_text = rv_text v, fa_metadata = m, fa_evidence = [], fa_historical_state = []\<rparr>"

definition fact_rows :: "db \<Rightarrow> string \<Rightarrow> fact_rev list" where
  "fact_rows d recordID =
    List.map_filter (\<lambda>v. map_option (fact_of_row v) (rv_fact v))
      (sort_key rv_revision (filter (\<lambda>v. rv_record_id v = recordID) (semantic_revisions d)))"

abbreviation transition_of :: "fact_rev \<Rightarrow> transition" where
  "transition_of f \<equiv> md_transition (fa_metadata f)"

definition mark_denied :: "fact_rev \<Rightarrow> fact_rev" where
  "mark_denied f = f\<lparr>fa_metadata := (fa_metadata f)\<lparr>md_adoption := AdoptionDenied\<rparr>, fa_historical_state := ''denied''\<rparr>"

text \<open>The place of the entry \<open>i\<close> in the list of effective entries.\<close>

definition replace_effective :: "nat list \<Rightarrow> nat \<Rightarrow> nat list" where
  "replace_effective effective i = (if effective = [] then [i] else butlast effective @ [i])"

text \<open>The loop over the history: \<open>Inl\<close> is the early return at a denial.\<close>

fun resolve_chains :: "nat list \<Rightarrow> fact_rev list \<Rightarrow> nat list \<Rightarrow> fact_rev list + (fact_rev list \<times> nat list)" where
  "resolve_chains [] history effective = Inr (history, effective)"
| "resolve_chains (i # rest) history effective =
    (case transition_of (history ! i) of
       TransitionCorrect \<Rightarrow>
         resolve_chains rest
           (if i > 0 then history[i - 1 := (history ! (i - 1))\<lparr>fa_historical_state := ''corrected''\<rparr>] else history)
           (replace_effective effective i)
     | TransitionConfirm \<Rightarrow> resolve_chains rest history (replace_effective effective i)
     | TransitionDeny \<Rightarrow> Inl (map mark_denied (take (i + 1) history) @ drop (i + 1) history)
     | _ \<Rightarrow> resolve_chains rest history (effective @ [i]))"

text \<open>The entry before a change stops where the change begins.\<close>

definition close_interval :: "metadata \<Rightarrow> fact_rev \<Rightarrow> fact_rev" where
  "close_interval succ prev =
    (let m = fa_metadata prev in
     prev\<lparr>fa_metadata := (case (md_valid_from succ, md_valid_until m) of
            (Some f, None) \<Rightarrow> m\<lparr>md_valid_until := Some f\<rparr>
          | (Some f, Some u) \<Rightarrow> if f < u then m\<lparr>md_valid_until := Some f\<rparr> else m
          | (None, _) \<Rightarrow> m),
        fa_historical_state := ''changed''\<rparr>)"

definition close_step :: "nat list \<Rightarrow> nat \<Rightarrow> fact_rev list \<Rightarrow> fact_rev list" where
  "close_step effective i history =
    history[effective ! (i - 1) :=
      close_interval (fa_metadata (history ! (effective ! i))) (history ! (effective ! (i - 1)))]"

definition resolve_timeline :: "fact_rev list \<Rightarrow> fact_rev list" where
  "resolve_timeline history =
    (case resolve_chains [0..<length history] history [] of
       Inl denied \<Rightarrow> denied
     | Inr (history, effective) \<Rightarrow> fold (close_step effective) [1..<length effective] history)"

definition factTimeline :: "db \<Rightarrow> string \<Rightarrow> fact_rev list" where
  "factTimeline d recordID =
    (if forgottenRecord d recordID then [] else resolve_timeline (fact_rows d recordID))"

section \<open>The chains of a history in closed form\<close>

definition continues_chain :: "fact_rev \<Rightarrow> bool" where
  "continues_chain f \<longleftrightarrow> transition_of f \<in> {TransitionCorrect, TransitionConfirm}"

text \<open>The effective entries after \<open>k\<close> steps, and the corrections marked so far.\<close>

definition chain_ends :: "nat \<Rightarrow> fact_rev list \<Rightarrow> nat list" where
  "chain_ends k h = filter (\<lambda>i. Suc i = k \<or> \<not> continues_chain (h ! Suc i)) [0..<k]"

definition mark_corrected :: "nat \<Rightarrow> fact_rev list \<Rightarrow> fact_rev list" where
  "mark_corrected k h = map (\<lambda>i. if Suc i < k \<and> transition_of (h ! Suc i) = TransitionCorrect
     then (h ! i)\<lparr>fa_historical_state := ''corrected''\<rparr> else h ! i) [0..<length h]"

lemma chain_ends_last: "k > 0 \<Longrightarrow> \<exists>es. chain_ends k h = es @ [k - 1]"
  by (cases k) (simp_all add: chain_ends_def)

lemma chain_ends_Suc:
  "chain_ends (Suc k) h = (if continues_chain (h ! k) then replace_effective (chain_ends k h) k else chain_ends k h @ [k])"
proof (cases k)
  case (Suc j)
  have "filter (\<lambda>i. Suc i = Suc k \<or> \<not> continues_chain (h ! Suc i)) [0..<j] = filter (\<lambda>i. Suc i = k \<or> \<not> continues_chain (h ! Suc i)) [0..<j]"
    by (rule filter_cong) (auto simp: Suc)
  then show ?thesis by (simp add: chain_ends_def replace_effective_def Suc)
qed (simp add: chain_ends_def replace_effective_def)

lemma mark_corrected_Suc:
  assumes "k < length h"
  shows "mark_corrected (Suc k) h = (if transition_of (h ! k) = TransitionCorrect \<and> k > 0
     then (mark_corrected k h)[k - 1 := (mark_corrected k h ! (k - 1))\<lparr>fa_historical_state := ''corrected''\<rparr>] else mark_corrected k h)"
  using assms by (auto simp: mark_corrected_def nth_list_update less_Suc_eq intro!: nth_equalityI)

lemma mark_corrected_nth:
  assumes "i < length h"
  shows "fa_metadata (mark_corrected k h ! i) = fa_metadata (h ! i)"
  using assms by (simp add: mark_corrected_def)

lemma resolve_chains_from:
  assumes "k \<le> length h" and "\<forall>i<length h. transition_of (h ! i) \<noteq> TransitionDeny"
  shows "resolve_chains [k..<length h] (mark_corrected k h) (chain_ends k h) = Inr (mark_corrected (length h) h, chain_ends (length h) h)"
  using assms(1)
proof (induction "length h - k" arbitrary: k)
  case 0
  then show ?case by simp
next
  case (Suc m)
  then have k: "k < length h" by simp
  have IH: "resolve_chains [Suc k..<length h] (mark_corrected (Suc k) h) (chain_ends (Suc k) h) = Inr (mark_corrected (length h) h, chain_ends (length h) h)"
    using Suc k by simp
  have up: "[k..<length h] = k # [Suc k..<length h]" using k by (rule upt_conv_Cons)
  have deny: "transition_of (h ! k) \<noteq> TransitionDeny" using assms(2) k by simp
  show ?case
    unfolding up resolve_chains.simps mark_corrected_nth[OF k] IH[symmetric] mark_corrected_Suc[OF k] chain_ends_Suc
    using deny by (cases "transition_of (h ! k)") (simp_all add: continues_chain_def)
qed

lemma resolve_chains_closed:
  assumes "\<forall>i<length h. transition_of (h ! i) \<noteq> TransitionDeny"
  shows "resolve_chains [0..<length h] h [] = Inr (mark_corrected (length h) h, chain_ends (length h) h)"
proof -
  have "mark_corrected 0 h = h" by (simp add: mark_corrected_def map_nth)
  with resolve_chains_from[of 0, OF _ assms] show ?thesis by (simp add: chain_ends_def)
qed

definition effective :: "fact_rev list \<Rightarrow> nat list" where
  "effective h = chain_ends (length h) h"

lemma effective_sorted: "sorted_wrt (<) (effective h)"
  unfolding effective_def chain_ends_def by (rule sorted_wrt_filter) (simp add: strict_sorted_iff)

lemma effective_distinct: "distinct (effective h)"
  by (simp add: effective_def chain_ends_def)

lemma effective_bound: "p < length (effective h) \<Longrightarrow> effective h ! p < length h"
  using nth_mem[of p "effective h"] by (auto simp: effective_def chain_ends_def)

section \<open>Closing the intervals\<close>

lemma close_interval_from [simp]: "md_valid_from (fa_metadata (close_interval s f)) = md_valid_from (fa_metadata f)"
  by (simp add: close_interval_def Let_def split: option.split)

lemma length_close [simp]: "length (fold (close_step E) is h) = length h"
  by (induction "is" arbitrary: h) (simp_all add: close_step_def)

lemma fold_close:
  assumes "distinct E" and "\<And>p. p < length E \<Longrightarrow> E ! p < length h" and "m \<le> length E"
  shows "(\<forall>p. Suc p < m \<longrightarrow> fold (close_step E) [1..<m] h ! (E ! p) = close_interval (fa_metadata (h ! (E ! Suc p))) (h ! (E ! p))) \<and>
    (\<forall>j<length h. (\<forall>p. Suc p < m \<longrightarrow> E ! p \<noteq> j) \<longrightarrow> fold (close_step E) [1..<m] h ! j = h ! j)"
  using assms(3)
proof (induction m)
  case (Suc m)
  let ?g = "fold (close_step E) [1..<m] h"
  show ?case
  proof (cases "m = 0")
    case False
    have neq: "E ! p \<noteq> E ! q" if "p < q" "q \<le> m" for p q
      using that assms(1) Suc.prems nth_eq_iff_index_eq[of E p q] by auto
    have len: "E ! (m - 1) < length h" using assms(2)[of "m - 1"] Suc.prems False by simp
    have src: "?g ! (E ! m) = h ! (E ! m)" "?g ! (E ! (m - 1)) = h ! (E ! (m - 1))"
      using Suc assms(2) neq False by auto
    have g: "fold (close_step E) [1..<Suc m] h = ?g[E ! (m - 1) := close_interval (fa_metadata (h ! (E ! m))) (h ! (E ! (m - 1)))]"
      using False src by (simp add: close_step_def)
    show ?thesis
    proof (intro conjI allI impI)
      fix p assume p: "Suc p < Suc m"
      show "fold (close_step E) [1..<Suc m] h ! (E ! p) = close_interval (fa_metadata (h ! (E ! Suc p))) (h ! (E ! p))"
      proof (cases "Suc p = m")
        case True
        then show ?thesis using len unfolding g by auto
      next
        case False
        then have "E ! p \<noteq> E ! (m - 1)" using neq[of p "m - 1"] p by simp
        then show ?thesis using Suc False p unfolding g by simp
      qed
    next
      fix j assume j: "j < length h" "\<forall>p. Suc p < Suc m \<longrightarrow> E ! p \<noteq> j"
      then have "E ! (m - 1) \<noteq> j" using False by simp
      then show "fold (close_step E) [1..<Suc m] h ! j = h ! j" using Suc j unfolding g by simp
    qed
  qed simp
qed simp

text \<open>The timeline of a history without a denial, entry by entry.\<close>

lemma timeline_nth:
  assumes "\<forall>i<length h. transition_of (h ! i) \<noteq> TransitionDeny"
  shows "length (resolve_timeline h) = length h"
    and "\<And>p. Suc p < length (effective h) \<Longrightarrow> resolve_timeline h ! (effective h ! p) =
      close_interval (fa_metadata (h ! (effective h ! Suc p))) (mark_corrected (length h) h ! (effective h ! p))"
    and "\<And>j. j < length h \<Longrightarrow> (\<And>p. Suc p < length (effective h) \<Longrightarrow> effective h ! p \<noteq> j) \<Longrightarrow>
      resolve_timeline h ! j = mark_corrected (length h) h ! j"
proof -
  have r: "resolve_timeline h = fold (close_step (effective h)) [1..<length (effective h)] (mark_corrected (length h) h)"
    by (simp add: resolve_timeline_def resolve_chains_closed[OF assms] effective_def)
  have len: "length (mark_corrected (length h) h) = length h" by (simp add: mark_corrected_def)
  note f = fold_close[OF effective_distinct[of h], of "mark_corrected (length h) h" "length (effective h)", unfolded len, OF effective_bound]
  show "length (resolve_timeline h) = length h" by (simp add: r len)
  show "resolve_timeline h ! (effective h ! p) = close_interval (fa_metadata (h ! (effective h ! Suc p))) (mark_corrected (length h) h ! (effective h ! p))"
    if "Suc p < length (effective h)" for p
    using f that unfolding r by (simp add: mark_corrected_nth effective_bound)
  show "resolve_timeline h ! j = mark_corrected (length h) h ! j"
    if "j < length h" "\<And>p. Suc p < length (effective h) \<Longrightarrow> effective h ! p \<noteq> j" for j
    using f that unfolding r by auto
qed

section \<open>A lifecycle is unambiguous\<close>

abbreviation onset :: "fact_rev \<Rightarrow> instant option" where
  "onset f \<equiv> md_valid_from (fa_metadata f)"

definition follows :: "instant option \<Rightarrow> instant option \<Rightarrow> bool" where
  "follows a b \<longleftrightarrow> (case b of None \<Rightarrow> False | Some u \<Rightarrow> (case a of None \<Rightarrow> True | Some t \<Rightarrow> t < u))"

text \<open>A history obeys the lifecycle when it holds no denial, only pending entries were confirmed, and
  every effective entry begins after its predecessor.\<close>

definition lifecycle_ok :: "fact_rev list \<Rightarrow> bool" where
  "lifecycle_ok h \<longleftrightarrow>
     (\<forall>i<length h. transition_of (h ! i) \<noteq> TransitionDeny) \<and>
     (\<forall>i. Suc i < length h \<longrightarrow> transition_of (h ! Suc i) = TransitionConfirm \<longrightarrow> md_adoption (fa_metadata (h ! i)) = AdoptionPending) \<and>
     (\<forall>p. Suc p < length (effective h) \<longrightarrow> follows (onset (h ! (effective h ! p))) (onset (h ! (effective h ! Suc p))))"

text \<open>What \<open>ReadFacts\<close> asks of an entry it selects at an instant.\<close>

definition adopted_at :: "instant \<Rightarrow> fact_rev \<Rightarrow> bool" where
  "adopted_at t f \<longleftrightarrow> fa_historical_state f \<noteq> ''corrected'' \<and> md_adoption (fa_metadata f) = AdoptionConfirmed \<and>
     (case md_valid_from (fa_metadata f) of None \<Rightarrow> True | Some a \<Rightarrow> a \<le> t) \<and>
     (case md_valid_until (fa_metadata f) of None \<Rightarrow> True | Some u \<Rightarrow> t < u)"

lemma follows_trans: "follows a b \<Longrightarrow> follows b c \<Longrightarrow> follows a c"
  by (auto simp: follows_def split: option.splits)

lemma onsets_increase:
  assumes "lifecycle_ok h" and "p < q" and "q < length (effective h)"
  shows "follows (onset (h ! (effective h ! p))) (onset (h ! (effective h ! q)))"
  using assms(2,3)
proof (induction q)
  case (Suc q)
  then have step: "follows (onset (h ! (effective h ! q))) (onset (h ! (effective h ! Suc q)))"
    using assms(1) by (simp add: lifecycle_ok_def)
  show ?case
  proof (cases "p = q")
    case False
    with Suc have "follows (onset (h ! (effective h ! p))) (onset (h ! (effective h ! q)))" by simp
    then show ?thesis using step by (rule follows_trans)
  qed (simp add: step)
qed simp

lemma effective_memD: "j < length h \<Longrightarrow> j \<notin> set (effective h) \<Longrightarrow> Suc j < length h \<and> continues_chain (h ! Suc j)"
  by (auto simp: effective_def chain_ends_def)

lemma effective_memI: "j < length h \<Longrightarrow> (Suc j < length h \<Longrightarrow> \<not> continues_chain (h ! Suc j)) \<Longrightarrow> j \<in> set (effective h)"
  by (auto simp: effective_def chain_ends_def)

lemma adopted_is_effective:
  assumes ok: "lifecycle_ok h" and j: "j < length h" and ad: "adopted_at t (resolve_timeline h ! j)"
  shows "j \<in> set (effective h)"
proof (rule ccontr)
  assume no: "j \<notin> set (effective h)"
  have nd: "\<forall>i<length h. transition_of (h ! i) \<noteq> TransitionDeny" using ok by (simp add: lifecycle_ok_def)
  have "effective h ! p \<noteq> j" if "Suc p < length (effective h)" for p
    using no nth_mem[of p "effective h"] that by auto
  then have t: "resolve_timeline h ! j = mark_corrected (length h) h ! j" using timeline_nth(3)[OF nd j] by simp
  from effective_memD[OF j no] have c: "Suc j < length h" "continues_chain (h ! Suc j)" by auto
  show False
  proof (cases "transition_of (h ! Suc j) = TransitionCorrect")
    case True
    with c j ad show False unfolding t by (simp add: mark_corrected_def adopted_at_def)
  next
    case False
    with c have "md_adoption (fa_metadata (h ! j)) = AdoptionPending" using ok by (simp add: lifecycle_ok_def continues_chain_def)
    with ad show False unfolding t by (simp add: adopted_at_def mark_corrected_nth[OF j])
  qed
qed

lemma closed_until: "follows a (md_valid_from s) \<Longrightarrow> \<exists>u. md_valid_until (fa_metadata (close_interval s f)) = Some u \<and> (\<forall>b. md_valid_from s = Some b \<longrightarrow> u \<le> b)"
  by (auto simp: follows_def close_interval_def Let_def split: option.splits)

lemma earlier_not_adopted:
  assumes ok: "lifecycle_ok h" and pq: "p < q" "q < length (effective h)"
    and ad: "adopted_at t (resolve_timeline h ! (effective h ! p))" "adopted_at t (resolve_timeline h ! (effective h ! q))"
  shows False
proof -
  let ?E = "effective h"
  have nd: "\<forall>i<length h. transition_of (h ! i) \<noteq> TransitionDeny" using ok by (simp add: lifecycle_ok_def)
  have bound: "?E ! x < length h" if "x \<le> q" for x using effective_bound[of x] that pq by simp
  have "follows (onset (h ! (?E ! p))) (onset (h ! (?E ! Suc p)))" using ok pq by (simp add: lifecycle_ok_def)
  from closed_until[OF this] obtain u where u: "md_valid_until (fa_metadata (resolve_timeline h ! (?E ! p))) = Some u"
    "\<forall>b. onset (h ! (?E ! Suc p)) = Some b \<longrightarrow> u \<le> b"
    using timeline_nth(2)[OF nd, of p] pq by auto
  have on: "onset (resolve_timeline h ! (?E ! q)) = onset (h ! (?E ! q))"
  proof (cases "Suc q < length ?E")
    case True
    then show ?thesis using timeline_nth(2)[OF nd True] by (simp add: mark_corrected_nth bound)
  next
    case False
    then have "?E ! x \<noteq> ?E ! q" if "Suc x < length ?E" for x
      using that pq effective_distinct[of h] nth_eq_iff_index_eq[of ?E x q] by auto
    then show ?thesis using timeline_nth(3)[OF nd, of "?E ! q"] by (simp add: mark_corrected_nth bound)
  qed
  have "follows (onset (h ! (?E ! p))) (onset (h ! (?E ! Suc p)))" using ok pq by (simp add: lifecycle_ok_def)
  moreover have "Suc p = q \<or> follows (onset (h ! (?E ! Suc p))) (onset (h ! (?E ! q)))"
    using onsets_increase[OF ok, of "Suc p" q] pq by (cases "Suc p < q") auto
  ultimately obtain b c where "onset (h ! (?E ! Suc p)) = Some b" "onset (h ! (?E ! q)) = Some c" "b \<le> c"
    by (auto simp: follows_def split: option.splits)
  then have "u \<le> c" "c \<le> t" "t < u" using u ad on by (auto simp: adopted_at_def)
  then show False by simp
qed

lemma timeline_unambiguous:
  assumes ok: "lifecycle_ok h" and ij: "i < length h" "j < length h"
    and ad: "adopted_at t (resolve_timeline h ! i)" "adopted_at t (resolve_timeline h ! j)"
  shows "i = j"
proof -
  from adopted_is_effective[OF ok ij(1) ad(1)] adopted_is_effective[OF ok ij(2) ad(2)]
  obtain p q where "p < length (effective h)" "q < length (effective h)" "i = effective h ! p" "j = effective h ! q"
    by (auto simp: in_set_conv_nth)
  then show ?thesis
    using earlier_not_adopted[OF ok, of p q t] earlier_not_adopted[OF ok, of q p t] ad by (cases p q rule: linorder_cases) auto
qed

section \<open>Extending a history\<close>

lemma effective_snoc:
  "effective (h @ [f]) = (if continues_chain f then replace_effective (effective h) (length h) else effective h @ [length h])"
proof -
  have "chain_ends (length h) (h @ [f]) = chain_ends (length h) h"
    unfolding chain_ends_def by (rule filter_cong) (auto simp: nth_append)
  then show ?thesis by (simp add: effective_def chain_ends_Suc)
qed

lemma effective_last: "h \<noteq> [] \<Longrightarrow> \<exists>es. effective h = es @ [length h - 1]"
  unfolding effective_def by (rule chain_ends_last) simp

text \<open>The onset of the effective entry before the last one.\<close>

definition preceding :: "fact_rev list \<Rightarrow> fact_rev option" where
  "preceding h = (if length (effective h) < 2 then None else Some (h ! (effective h ! (length (effective h) - 2))))"

definition extends_ok :: "fact_rev list \<Rightarrow> fact_rev \<Rightarrow> bool" where
  "extends_ok h f \<longleftrightarrow> transition_of f \<noteq> TransitionDeny \<and> (h \<noteq> [] \<longrightarrow>
     (case transition_of f of
        TransitionConfirm \<Rightarrow> md_adoption (fa_metadata (last h)) = AdoptionPending \<and> onset f = onset (last h)
      | TransitionCorrect \<Rightarrow> (\<forall>g. preceding h = Some g \<longrightarrow> follows (onset g) (onset f))
      | _ \<Rightarrow> follows (onset (last h)) (onset f)))"

lemma lifecycle_snoc:
  assumes ok: "lifecycle_ok h" and f: "extends_ok h f"
  shows "lifecycle_ok (h @ [f])"
proof -
  let ?h = "h @ [f]"
  have 1: "\<forall>i<length ?h. transition_of (?h ! i) \<noteq> TransitionDeny"
    using ok f by (auto simp: lifecycle_ok_def extends_ok_def nth_append less_Suc_eq)
  have 2: "\<forall>i. Suc i < length ?h \<longrightarrow> transition_of (?h ! Suc i) = TransitionConfirm \<longrightarrow> md_adoption (fa_metadata (?h ! i)) = AdoptionPending"
  proof (intro allI impI)
    fix i assume i: "Suc i < length ?h" "transition_of (?h ! Suc i) = TransitionConfirm"
    show "md_adoption (fa_metadata (?h ! i)) = AdoptionPending"
    proof (cases "Suc i < length h")
      case True
      then show ?thesis using ok i by (auto simp: lifecycle_ok_def nth_append)
    next
      case False
      then have n: "length h = Suc i" using i by simp
      then have "h \<noteq> []" by auto
      moreover from this have "h ! i = last h" using n by (simp add: last_conv_nth)
      ultimately have "h \<noteq> []" "h ! i = last h" by simp_all
      then show ?thesis using False f i by (auto simp: extends_ok_def nth_append)
    qed
  qed
  have 3: "follows (onset (?h ! (effective ?h ! p))) (onset (?h ! (effective ?h ! Suc p)))" if p: "Suc p < length (effective ?h)" for p
  proof (cases "h = []")
    case True
    then show ?thesis using p by (simp add: effective_def chain_ends_def)
  next
    case False
    then obtain es where es: "effective h = es @ [length h - 1]" using effective_last by blast
    have old: "follows (onset (h ! (effective h ! q))) (onset (h ! (effective h ! Suc q)))" if "Suc q < length (effective h)" for q
      using ok that by (simp add: lifecycle_ok_def)
    have nth: "?h ! (effective h ! q) = h ! (effective h ! q)" if "q < length (effective h)" for q
      using effective_bound[OF that] by (simp add: nth_append)
    have lst: "h ! (length h - 1) = last h" using False by (simp add: last_conv_nth)
    show ?thesis
    proof (cases "continues_chain f")
      case False
      then have E: "effective ?h = effective h @ [length h]" by (simp add: effective_snoc)
      show ?thesis
      proof (cases "Suc p < length (effective h)")
        case True
        then show ?thesis using old[OF True] nth[of p] nth[of "Suc p"] by (simp add: E nth_append)
      next
        case last: False
        then have "p = length es" using p es by (simp add: E)
        then show ?thesis using f False \<open>h \<noteq> []\<close> lst
          by (auto simp: E es nth_append extends_ok_def continues_chain_def split: transition.splits)
      qed
    next
      case True
      then have E: "effective ?h = es @ [length h]" by (simp add: effective_snoc es replace_effective_def)
      show ?thesis
      proof (cases "Suc p < length es")
        case True
        then show ?thesis using old[of p] nth[of p] nth[of "Suc p"] by (simp add: E es nth_append)
      next
        case last: False
        then have sp: "Suc p = length es" using p by (simp add: E)
        then have "p = length (effective h) - 2" "2 \<le> length (effective h)" by (auto simp: es)
        then have pre: "preceding h = Some (h ! (effective h ! p))" by (simp add: preceding_def)
        have "follows (onset (h ! (effective h ! p))) (onset f)"
        proof (cases "transition_of f = TransitionCorrect")
          case True
          then show ?thesis using f pre \<open>h \<noteq> []\<close> by (simp add: extends_ok_def)
        next
          case False
          then have "onset f = onset (last h)" using f \<open>continues_chain f\<close> \<open>h \<noteq> []\<close> by (simp add: extends_ok_def continues_chain_def)
          then show ?thesis using old[of p] sp lst by (simp add: es nth_append)
        qed
        then show ?thesis using sp nth[of p] by (simp add: E es nth_append)
      qed
    qed
  qed
  show ?thesis unfolding lifecycle_ok_def using 1 2 3 by blast
qed

lemma lifecycle_Nil [simp]: "lifecycle_ok []"
  by (simp add: lifecycle_ok_def effective_def chain_ends_def)

section \<open>The guard of a correction\<close>

text \<open>The nearest earlier entry that a change has closed.\<close>

definition last_changed :: "fact_rev list \<Rightarrow> fact_rev option" where
  "last_changed history = List.find (\<lambda>f. fa_historical_state f = ''changed'') (rev (butlast history))"

lemma find_rev_nth:
  assumes "p < length xs" and "P (xs ! p)" and "\<And>q. p < q \<Longrightarrow> q < length xs \<Longrightarrow> \<not> P (xs ! q)"
  shows "List.find P (rev xs) = Some (xs ! p)"
  using assms
proof (induction xs rule: rev_induct)
  case (snoc x xs)
  show ?case
  proof (cases "p = length xs")
    case False
    then have "\<not> P x" using snoc.prems(1) snoc.prems(3)[of "length xs"] by simp
    moreover have "List.find P (rev xs) = Some (xs ! p)"
    proof (rule snoc.IH)
      show "p < length xs" "P (xs ! p)" using snoc.prems False by (auto simp: nth_append)
      show "\<not> P (xs ! q)" if "p < q" "q < length xs" for q
        using snoc.prems(3)[of q] that by (simp add: nth_append)
    qed
    ultimately show ?thesis using snoc.prems(1) False by (simp add: nth_append)
  qed (use snoc.prems in simp)
qed simp

lemma last_changed_preceding:
  assumes nd: "\<forall>i<length h. transition_of (h ! i) \<noteq> TransitionDeny"
    and fresh: "\<forall>f\<in>set h. fa_historical_state f = []" and pre: "preceding h = Some g"
  obtains g' where "last_changed (resolve_timeline h) = Some g'" "onset g' = onset g"
proof -
  let ?E = "effective h" and ?T = "resolve_timeline h"
  let ?p = "length ?E - 2"
  from pre have E: "Suc ?p < length ?E" "g = h ! (?E ! ?p)" by (auto simp: preceding_def split: if_splits)
  have ne: "h \<noteq> []" using E by (auto simp: effective_def chain_ends_def)
  then obtain es where es: "?E = es @ [length h - 1]" using effective_last by blast
  have lt: "?E ! ?p < length h - 1"
    using effective_sorted[of h] E es sorted_wrt_nth_less[of "(<)" ?E ?p "length ?E - 1"] by auto
  have T: "?T ! (?E ! ?p) = close_interval (fa_metadata (h ! (?E ! Suc ?p))) (mark_corrected (length h) h ! (?E ! ?p))"
    using timeline_nth(2)[OF nd E(1)] .
  have later: "fa_historical_state (?T ! q) \<noteq> ''changed''" if q: "?E ! ?p < q" "q < length h - 1" for q
  proof -
    have "?E ! x \<noteq> q" if "Suc x < length ?E" for x
    proof -
      have "?E ! x \<le> ?E ! ?p"
        using effective_sorted[of h] that E sorted_wrt_nth_less[of "(<)" ?E x ?p]
        by (cases "x < ?p") (auto simp: not_less dest!: le_neq_implies_less)
      then show ?thesis using q by simp
    qed
    then have "?T ! q = mark_corrected (length h) h ! q" using timeline_nth(3)[OF nd, of q] q by simp
    then show ?thesis using fresh q by (simp add: mark_corrected_def)
  qed
  have len: "length ?T = length h" by (rule timeline_nth(1)[OF nd])
  have "last_changed ?T = Some (butlast ?T ! (?E ! ?p))"
    unfolding last_changed_def
    by (rule find_rev_nth) (use lt later in \<open>simp_all add: len nth_butlast T close_interval_def Let_def\<close>)
  moreover have "onset (butlast ?T ! (?E ! ?p)) = onset g"
    using lt E(2) T mark_corrected_nth[of "?E ! ?p" h "length h"] by (simp add: len nth_butlast)
  ultimately show thesis by (rule that)
qed

end
