(* ===== verification/Facts_Ingest.thy ===== *)
theory Facts_Ingest
  imports Facts_Timeline
begin

text \<open>
  Trusted evidence and fact lifecycles, \<open>facts_ingest.go\<close>, \<open>facts_lifecycle.go\<close> and the change
  log of \<open>facts_changes.go\<close>: \<open>SubmitEvidence\<close> admits a source under the ingestion policy and stores
  its receipt, its structured mutations and its index rows as one effect.

  The pointer comparisons of the lifecycle are on values that \<open>validate_mutation\<close> has shown to be
  present; where Go would dereference a nil pointer the model's comparison is false. A handler reads
  the clock once. JSON columns hold decoded values, so the conditions that
  \<open>confirmedFactConflict\<close> compares as JSON texts are compared as values.
\<close>

section \<open>JSON of the fact contract\<close>

primrec adoption_text :: "adoption \<Rightarrow> string" where
  "adoption_text AdoptionPending = ''pending''"
| "adoption_text AdoptionConfirmed = ''confirmed''"
| "adoption_text AdoptionDenied = ''denied''"
| "adoption_text (AdoptionOther s) = s"

primrec transition_text :: "transition \<Rightarrow> string" where
  "transition_text TransitionEstablish = ''establish''"
| "transition_text TransitionChange = ''change''"
| "transition_text TransitionException = ''exception''"
| "transition_text TransitionCorrect = ''correct''"
| "transition_text TransitionConfirm = ''confirm''"
| "transition_text TransitionDeny = ''deny''"
| "transition_text (TransitionOther s) = s"

definition omit_time :: "string \<Rightarrow> instant option \<Rightarrow> (string \<times> json) list" where
  "omit_time k t = (case t of None \<Rightarrow> [] | Some u \<Rightarrow> [(k, json_time u)])"

definition json_source :: "source \<Rightarrow> json" where
  "json_source s = JObj
    ([(''producer'', JStr (src_producer s)), (''event_id'', JStr (src_event_id s)),
      (''revision'', JStr (src_revision s)), (''fragment'', JStr (src_fragment s)), (''subject'', JStr (src_subject s))] @
     omit_str ''fact_key'' (src_fact_key s) @ [(''role'', JStr (role_text (src_role s)))])"

definition json_condition :: "condition \<Rightarrow> json" where
  "json_condition c = JObj [(''key'', JStr (cn_key c)), (''value'', JStr (cn_value c))]"

definition json_mutation :: "mutation \<Rightarrow> json" where
  "json_mutation m = JObj
    ([(''transition'', JStr (transition_text (mu_transition m)))] @
     omit_str ''target_record_id'' (mu_target_record_id m) @ omit_nat ''expected_revision'' (mu_expected_revision m) @
     [(''subject'', JStr (mu_subject m))] @ omit_str ''key'' (mu_key m) @ [(''text'', JStr (mu_text m))] @
     omit_time ''valid_from'' (mu_valid_from m) @ omit_time ''valid_until'' (mu_valid_until m) @
     omit_arr ''conditions'' (map json_condition (mu_conditions m)))"

definition json_submit :: "submit_request \<Rightarrow> json" where
  "json_submit r = JObj
    ([(''source'', json_source (sub_source r)), (''text'', JStr (sub_text r))] @
     omit_time ''occurred_at'' (sub_occurred_at r) @ [(''idempotency_key'', JStr (sub_idempotency_key r))] @
     omit_arr ''mutations'' (map json_mutation (sub_mutations r)))"

section \<open>Errors and ingestion policy\<close>

definition factServiceError :: "error \<Rightarrow> error" where
  "factServiceError err =
    (case err of ServiceError _ _ _ \<Rightarrow> err | _ \<Rightarrow> databaseError ''fact storage is unavailable'')"

record ingestion_policy =
  po_space_id :: string
  po_labels :: "string list"
  po_producer :: string
  po_subject :: string
  po_deny :: bool
  po_reason :: string

definition validate_policy :: "ingestion_policy \<Rightarrow> string + unit" where
  "validate_policy p =
    rbind (guard (bounded (po_space_id p) 256 True \<and> bounded (po_producer p) 256 True \<and>
        bounded (po_subject p) 256 True \<and> bounded (po_reason p) 512 False)
      ''policy requires exact scope, producer, subject and bounded reason'') (\<lambda>_.
    rbind (CanonicalLabelSet (po_labels p)) (\<lambda>_. Inr ()))"

definition policy_key :: "policy_row \<Rightarrow> string \<times> string \<times> string \<times> string" where
  "policy_key r = (ip_space_id r, ip_label_set_digest r, ip_producer r, ip_subject r)"

definition upsert_policy :: "policy_row \<Rightarrow> db \<Rightarrow> db" where
  "upsert_policy r d =
    d\<lparr>ingestion_policies :=
       (if list_ex (\<lambda>x. policy_key x = policy_key r) (ingestion_policies d)
        then tbl_update (\<lambda>x. policy_key x = policy_key r) (\<lambda>x. x\<lparr>ip_denied := ip_denied r, ip_reason := ip_reason r\<rparr>) (ingestion_policies d)
        else ingestion_policies d @ [r])\<rparr>"

definition policy_tx :: "instant \<Rightarrow> ingestion_policy \<Rightarrow> db \<Rightarrow> error + db" where
  "policy_tx now p d =
    rbind (map_err (\<lambda>m. serviceError ErrorCodeInvalidArgument m False) (validate_policy p)) (\<lambda>_.
    rbind (map_err Errorf (normalizeLabelSet (po_labels p))) (\<lambda>labels.
    rbind (of_opt (serviceError ErrorCodeNotFound ''Space not found'' False) (readSpaceScope d (po_space_id p))) (\<lambda>_.
    recordMemoryChange now (po_space_id p) (ls_digest labels) ''ingestion_policy'' [] []
      (upsert_policy \<lparr>ip_space_id = po_space_id p, ip_label_set_digest = ls_digest labels, ip_producer = po_producer p,
         ip_subject = po_subject p, ip_denied = po_deny p, ip_reason = po_reason p\<rparr> d))))"

definition SetIngestionPolicy ::
  "store \<Rightarrow> instant \<Rightarrow> commit_outcome \<Rightarrow> ingestion_policy \<Rightarrow> db \<Rightarrow> (error + unit) \<times> db" where
  "SetIngestionPolicy s now out p d =
    (case rbind (requireMutableGeneration s) (\<lambda>_. policy_tx now p d) of
       Inl e \<Rightarrow> (Inl (factServiceError e), d)
     | Inr d' \<Rightarrow> commit_tx out (databaseError ''fact storage is unavailable'') d d' ())"

section \<open>Lifecycle mutations\<close>

definition fact_conflict :: "string \<Rightarrow> error" where
  "fact_conflict message = serviceError ErrorCodeConflict message False"

text \<open>The active heads of a partition for a subject and key, joined with their current revision.\<close>

definition fact_heads :: "db \<Rightarrow> authorized_view \<Rightarrow> string \<Rightarrow> string \<Rightarrow> (semantic_row \<times> revision_row) list" where
  "fact_heads d view subject key =
    List.map_filter (\<lambda>r. map_option (Pair r) (revision_of (sm_record_id r) (sm_current_revision r) d))
      (filter (\<lambda>r. sm_space_id r = av_write_space_id view \<and> sm_label_set_digest r = av_label_set_digest view \<and>
         sm_subject r = subject \<and> sm_fact_key r = key \<and> sm_status r = RecordStatusActive) (semantic_records d))"

text \<open>The metadata of joined heads; an empty column does not parse.\<close>

definition decode_heads :: "(semantic_row \<times> revision_row) list \<Rightarrow> error + metadata list" where
  "decode_heads heads =
    fold_res (\<lambda>(r, v) ms. rbind (of_opt (Errorf ''unexpected end of JSON input'') (rv_fact v)) (\<lambda>m. Inr (ms @ [m]))) heads []"

definition confirmedFactConflict :: "db \<Rightarrow> authorized_view \<Rightarrow> metadata \<Rightarrow> string \<Rightarrow> bool" where
  "confirmedFactConflict d view meta recordID \<longleftrightarrow>
    list_ex (\<lambda>(r, v). sm_record_id r \<noteq> recordID \<and>
        (case rv_fact v of None \<Rightarrow> False
         | Some m \<Rightarrow> md_adoption m = AdoptionConfirmed \<and> md_related_record_id m = [] \<and> md_conditions m = md_conditions meta))
      (fact_heads d view (md_subject meta) (md_key meta))"

definition mutation_metadata :: "source \<Rightarrow> mutation \<Rightarrow> metadata" where
  "mutation_metadata src m =
    \<lparr>md_subject = mu_subject m, md_key = mu_key m,
     md_adoption = (if mu_transition m = TransitionDeny then AdoptionDenied
       else if src_role src = RoleConfirmation \<or> src_role src = RoleObservation then AdoptionConfirmed else AdoptionPending),
     md_valid_from = mu_valid_from m, md_valid_until = mu_valid_until m, md_conditions = mu_conditions m,
     md_transition = mu_transition m, md_related_record_id = []\<rparr>"

text \<open>\<open>m.ValidFrom\<close> lies before the onset of the target, or a change at it.\<close>

definition precedes_onset :: "mutation \<Rightarrow> metadata \<Rightarrow> bool" where
  "precedes_onset m prior \<longleftrightarrow>
    (case (mu_valid_from m, md_valid_from prior) of
       (Some f, Some p) \<Rightarrow> f < p \<or> mu_transition m = TransitionChange \<and> f = p
     | _ \<Rightarrow> False)"

definition corrected_onset_ok :: "mutation \<Rightarrow> fact_rev list \<Rightarrow> bool" where
  "corrected_onset_ok m history =
    (case last_changed history of None \<Rightarrow> True
     | Some previous \<Rightarrow>
        (case mu_valid_from m of None \<Rightarrow> False
         | Some f \<Rightarrow> (case md_valid_from (fa_metadata previous) of None \<Rightarrow> True | Some p \<Rightarrow> p < f)))"

text \<open>The checks on the target of an edit, in the order of the source: a confirmation adopts the pending
  content with its interval, a change follows the onset of its target, a corrected change stays after
  the interval before it, and an exception stays linked and finite.\<close>

definition confirm_metadata :: "mutation \<Rightarrow> fact_rev \<Rightarrow> metadata \<Rightarrow> error + metadata" where
  "confirm_metadata m prior meta =
    (if mu_transition m = TransitionConfirm then
       rbind (guard (md_adoption (fa_metadata prior) = AdoptionPending \<and> fa_text prior = mu_text m)
         (fact_conflict ''confirmation must confirm exact pending content'')) (\<lambda>_.
       Inr (meta\<lparr>md_valid_from := md_valid_from (fa_metadata prior), md_valid_until := md_valid_until (fa_metadata prior)\<rparr>))
     else Inr meta)"

definition check_change :: "mutation \<Rightarrow> metadata \<Rightarrow> error + unit" where
  "check_change m pm =
    (if mu_transition m = TransitionChange \<or> mu_transition m = TransitionException then
       rbind (guard (md_adoption pm = AdoptionConfirmed) (fact_conflict ''change or exception requires confirmed fact'')) (\<lambda>_.
       guard (\<not> precedes_onset m pm)
         (fact_conflict ''change must follow target onset; use correction to edit the same interval''))
     else Inr ())"

definition check_correction :: "db \<Rightarrow> mutation \<Rightarrow> metadata \<Rightarrow> error + unit" where
  "check_correction d m pm =
    (if mu_transition m = TransitionCorrect \<and> md_related_record_id pm = [] then
       guard (corrected_onset_ok m (factTimeline d (mu_target_record_id m)))
         (fact_conflict ''corrected change requires an onset after the preceding interval onset'')
     else Inr ())"

definition keep_relation :: "mutation \<Rightarrow> metadata \<Rightarrow> metadata \<Rightarrow> error + metadata" where
  "keep_relation m pm meta =
    (if md_related_record_id pm = [] then Inr meta else
     rbind (guard (mu_transition m = TransitionDeny \<or> mu_transition m = TransitionCorrect)
       (fact_conflict ''exception can only be corrected or denied'')) (\<lambda>_.
     rbind (guard (md_valid_from meta \<noteq> None \<and> md_valid_until meta \<noteq> None)
       (fact_conflict ''corrected exception retains finite interval'')) (\<lambda>_.
     Inr (meta\<lparr>md_related_record_id := md_related_record_id pm\<rparr>))))"

definition check_target :: "db \<Rightarrow> authorized_view \<Rightarrow> mutation \<Rightarrow> metadata \<Rightarrow> error + (fact_rev \<times> metadata)" where
  "check_target d view m meta =
    rbind (of_opt (fact_conflict ''fact target is absent or stale'') (record_of (mu_target_record_id m) d)) (\<lambda>r.
    rbind (guard (sm_space_id r = av_write_space_id view \<and> sm_label_set_digest r = av_label_set_digest view \<and>
        sm_status r = RecordStatusActive \<and> sm_current_revision r = mu_expected_revision m)
      (fact_conflict ''fact target is absent, unauthorized or stale'')) (\<lambda>_.
    rbind (readFactRevision d (mu_target_record_id m) (sm_current_revision r)) (\<lambda>prior.
    rbind (guard (md_subject (fa_metadata prior) = mu_subject m \<and> md_key (fa_metadata prior) = mu_key m)
      (fact_conflict ''fact target subject or key differs'')) (\<lambda>_.
    rbind (guard (md_conditions (fa_metadata prior) = mu_conditions m)
      (fact_conflict ''lifecycle edit must retain exact conditions'')) (\<lambda>_.
    rbind (confirm_metadata m prior meta) (\<lambda>meta.
    rbind (check_change m (fa_metadata prior)) (\<lambda>_.
    rbind (check_correction d m (fa_metadata prior)) (\<lambda>_.
    rbind (keep_relation m (fa_metadata prior) meta) (\<lambda>meta.
    Inr (prior, meta))))))))))"

definition intervals_overlap :: "metadata \<Rightarrow> metadata \<Rightarrow> bool" where
  "intervals_overlap a b \<longleftrightarrow>
    (case (md_valid_from a, md_valid_until a, md_valid_from b, md_valid_until b) of
       (Some af, Some au, Some bf, Some bu) \<Rightarrow> af < bu \<and> bf < au
     | _ \<Rightarrow> False)"

text \<open>The three guards against ambiguous current truths.\<close>

definition check_establish :: "db \<Rightarrow> authorized_view \<Rightarrow> mutation \<Rightarrow> error + unit" where
  "check_establish d view m =
    (if mu_transition m = TransitionEstablish \<and> mu_key m \<noteq> [] then
       rbind (decode_heads (fact_heads d view (mu_subject m) (mu_key m))) (\<lambda>others.
       guard (\<not> list_ex (\<lambda>x. md_related_record_id x = [] \<and> md_conditions x = mu_conditions m) others)
         (fact_conflict ''fact key already exists; select explicit lifecycle target''))
     else Inr ())"

definition check_fork :: "db \<Rightarrow> authorized_view \<Rightarrow> mutation \<Rightarrow> metadata \<Rightarrow> error + unit" where
  "check_fork d view m meta =
    (if md_adoption meta = AdoptionConfirmed \<and> md_related_record_id meta = [] \<and> mu_key m \<noteq> [] \<and>
        mu_transition m \<noteq> TransitionEstablish
     then guard (\<not> confirmedFactConflict d view meta (mu_target_record_id m))
       (fact_conflict ''edit would fork a confirmed fact; explicitly change or correct its head'')
     else Inr ())"

definition check_exception :: "db \<Rightarrow> authorized_view \<Rightarrow> mutation \<Rightarrow> metadata \<Rightarrow> error + unit" where
  "check_exception d view m meta =
    (if md_related_record_id meta \<noteq> [] \<and> md_adoption meta = AdoptionConfirmed then
       rbind (decode_heads (filter (\<lambda>(r, v). sm_record_id r \<noteq> mu_target_record_id m)
         (fact_heads d view (mu_subject m) (mu_key m)))) (\<lambda>others.
       guard (\<not> list_ex (\<lambda>x. md_related_record_id x = md_related_record_id meta \<and> md_adoption x = AdoptionConfirmed \<and>
           intervals_overlap meta x) others)
         (fact_conflict ''overlapping exceptions are ambiguous''))
     else Inr ())"

text \<open>The record head the revision belongs to: a new record, or the target advanced by one revision.\<close>

definition place_fact ::
  "instant \<Rightarrow> authorized_view \<Rightarrow> mutation \<Rightarrow> string \<Rightarrow> db \<Rightarrow> error + (string \<times> nat \<times> string \<times> db)" where
  "place_fact now view m rnd d =
    (if mu_transition m = TransitionEstablish \<or> mu_transition m = TransitionException then
       rbind (of_opt (Errorf ''random'') (randomHex 16 rnd)) (\<lambda>(suffix, rnd).
       let recordID = ''record-'' @ suffix in
       rbind (of_opt (Errorf ''insert semantic record'')
         (insert_record \<lparr>sm_record_id = recordID, sm_space_id = av_write_space_id view, sm_kind = ''fact'',
            sm_status = RecordStatusActive, sm_current_revision = 1, sm_invalidated_reason = [], sm_created_at = now,
            sm_updated_at = now, sm_label_set = av_labels view, sm_label_set_digest = av_label_set_digest view,
            sm_subject = mu_subject m, sm_fact_key = mu_key m\<rparr> d)) (\<lambda>d.
       Inr (recordID, 1, rnd, d)))
     else
       (let revision = mu_expected_revision m + 1 in
        Inr (mu_target_record_id m, revision, rnd,
          d\<lparr>semantic_records := tbl_update (\<lambda>r. sm_record_id r = mu_target_record_id m)
             (\<lambda>r. r\<lparr>sm_current_revision := revision,
                sm_status := (if mu_transition m = TransitionDeny then RecordStatusInvalidated else RecordStatusActive),
                sm_invalidated_reason := transition_text (mu_transition m), sm_updated_at := now\<rparr>) (semantic_records d)\<rparr>)))"

text \<open>The evidence of the revision: the new receipt, and for a confirmation what it confirms.\<close>

definition mutation_evidence :: "mutation \<Rightarrow> string \<Rightarrow> fact_rev option \<Rightarrow> string list" where
  "mutation_evidence m receiptID prior =
    (case prior of
       Some p \<Rightarrow> if mu_transition m = TransitionConfirm
         then fold (\<lambda>e acc. if e \<in> set acc then acc else acc @ [e]) (map fe_receipt_id (fa_evidence p)) [receiptID]
         else [receiptID]
     | None \<Rightarrow> [receiptID])"

definition write_fact ::
  "analyzer \<Rightarrow> instant \<Rightarrow> authorized_view \<Rightarrow> mutation \<Rightarrow> metadata \<Rightarrow> string \<Rightarrow> nat \<Rightarrow> string list \<Rightarrow> string \<Rightarrow> db \<Rightarrow> error + db" where
  "write_fact A now view m meta recordID revision evidence receiptID d =
    rbind (of_opt (Errorf ''insert semantic revision'')
      (insert_revision \<lparr>rv_record_id = recordID, rv_revision = revision, rv_space_id = av_write_space_id view,
         rv_kind = ''fact'', rv_text = mu_text m,
         rv_operation = (if mu_transition m = TransitionEstablish \<or> mu_transition m = TransitionException
           then OperationAdd else OperationSupersede),
         rv_job_id = None, rv_created_at = now, rv_fact = Some meta\<rparr> d)) (\<lambda>d.
    rbind (insert_op_evidence recordID revision (av_write_space_id view) evidence d) (\<lambda>d.
    rbind (of_opt (Errorf ''semantic Space index'') (readSemanticSpaceIndex d (av_write_space_id view))) (\<lambda>tableName.
    let d = delete_semantic_projection tableName recordID d in
    rbind (if md_adoption meta = AdoptionDenied then Inr d
       else of_opt (Errorf ''index semantic projection'') (indexSemanticProjection A tableName recordID revision (mu_text m) [] d)) (\<lambda>d.
    recordMemoryChange now (av_write_space_id view) (av_label_set_digest view) (''fact_'' @ transition_text (mu_transition m))
      receiptID recordID d))))"

definition applyFactMutation ::
  "analyzer \<Rightarrow> instant \<Rightarrow> authorized_view \<Rightarrow> source \<Rightarrow> string \<Rightarrow> mutation \<Rightarrow> fact_rev list \<times> string \<times> db \<Rightarrow>
   error + (fact_rev list \<times> string \<times> db)" where
  "applyFactMutation A now view src receiptID m state =
    (case state of (facts, rnd, d) \<Rightarrow>
     let meta = mutation_metadata src m in
     rbind (if mu_target_record_id m = [] then Inr (None, meta)
       else rbind (check_target d view m meta) (\<lambda>(prior, meta). Inr (Some prior, meta))) (\<lambda>(prior, meta).
     rbind (check_establish d view m) (\<lambda>_.
     let meta = (if mu_transition m = TransitionException then meta\<lparr>md_related_record_id := mu_target_record_id m\<rparr> else meta) in
     rbind (check_fork d view m meta) (\<lambda>_.
     rbind (check_exception d view m meta) (\<lambda>_.
     rbind (place_fact now view m rnd d) (\<lambda>(recordID, revision, rnd, d).
     rbind (write_fact A now view m meta recordID revision (mutation_evidence m receiptID prior) receiptID d) (\<lambda>d.
     rbind (readFactRevision d recordID revision) (\<lambda>f.
     Inr (facts @ [f], rnd, d)))))))))"

section \<open>Submitting evidence\<close>

datatype organization_state =
  OrganizationDisabled | OrganizationPending | OrganizationProcessing | OrganizationApplied | OrganizationFailed

record submit_response =
  sbr_accepted :: bool
  sbr_receipt_id :: string
  sbr_consistency_token :: string
  sbr_deduplicated :: bool
  sbr_rejection_reason :: string
  sbr_organization :: organization_state
  sbr_facts :: "fact_rev list"

definition submit_refused :: "string \<Rightarrow> submit_response" where
  "submit_refused reason = \<lparr>sbr_accepted = False, sbr_receipt_id = [], sbr_consistency_token = [], sbr_deduplicated = False,
     sbr_rejection_reason = reason, sbr_organization = OrganizationDisabled, sbr_facts = []\<rparr>"

definition sourceOrganization :: "db \<Rightarrow> string \<Rightarrow> error + organization_state" where
  "sourceOrganization d receiptID =
    (case List.find (\<lambda>j. jb_receipt_id j = receiptID) (steward_jobs d) of
       None \<Rightarrow> rbind (of_opt (Errorf ''sql: no rows in result set'') (processing_of receiptID d)) (\<lambda>p.
         Inr (if pc_state p = ProcessingStateOrganized then OrganizationApplied else OrganizationDisabled))
     | Some j \<Rightarrow> Inr (case jb_state j of JobPending \<Rightarrow> OrganizationPending | JobLeased \<Rightarrow> OrganizationProcessing
         | JobCompleted \<Rightarrow> OrganizationApplied | JobFailed \<Rightarrow> OrganizationFailed))"

definition receipt_fact_refs :: "db \<Rightarrow> string \<Rightarrow> (string \<times> nat) list" where
  "receipt_fact_refs d receiptID =
    map (\<lambda>v. (rv_record_id v, rv_revision v))
      (sort_key rv_record_id (sort_key rv_revision
        (filter (\<lambda>v. rv_fact v \<noteq> None \<and> list_ex (\<lambda>e. ev_record_id e = rv_record_id v \<and> ev_revision e = rv_revision v \<and>
            ev_receipt_id e = receiptID) (semantic_evidence d)) (semantic_revisions d))))"

definition factsForReceipt :: "db \<Rightarrow> string \<Rightarrow> error + fact_rev list" where
  "factsForReceipt d receiptID =
    fold_res (\<lambda>(recordID, revision) facts.
        if forgottenRecord d recordID then Inr facts
        else rbind (readFactRevision d recordID revision) (\<lambda>f. Inr (facts @ [f])))
      (receipt_fact_refs d receiptID) []"

definition canonical_submit :: "submit_request \<Rightarrow> submit_request" where
  "canonical_submit r =
    r\<lparr>sub_mutations := map (\<lambda>m. m\<lparr>mu_conditions := sort_key cn_key (mu_conditions m)\<rparr>) (sub_mutations r)\<rparr>"

definition sourceKey :: "source \<Rightarrow> string" where
  "sourceKey s = digestString (json_encode (JArr (map JStr [src_producer s, src_event_id s, src_revision s, src_fragment s])))"

definition submit_digest :: "submit_request \<Rightarrow> string" where
  "submit_digest r = digestString (json_encode (json_submit (r\<lparr>sub_idempotency_key := []\<rparr>)))"

definition FactsProtocolVersion :: string where "FactsProtocolVersion = ''memory.facts.v1alpha1''"

text \<open>The \<open>RememberRequest\<close> the evidence is stored as.\<close>

definition legacy_request :: "submit_request \<Rightarrow> remember_request" where
  "legacy_request r = \<lparr>rem_text = sub_text r, rem_source_context = no_source\<lparr>sc_source_type := ''trusted_evidence''\<rparr>,
     rem_occurred_at = sub_occurred_at r, rem_idempotency_key = sub_idempotency_key r\<rparr>"

definition source_of_key :: "db \<Rightarrow> authorized_view \<Rightarrow> string \<Rightarrow> evidence_source_row option" where
  "source_of_key d view key =
    List.find (\<lambda>s. (es_space_id s, es_label_set_digest s, es_source_key s) = (av_write_space_id view, av_label_set_digest view, key))
      (evidence_sources d)"

definition denying_policy :: "db \<Rightarrow> authorized_view \<Rightarrow> source \<Rightarrow> policy_row option" where
  "denying_policy d view src =
    (case List.find (\<lambda>p. policy_key p = (av_write_space_id view, av_label_set_digest view, src_producer src, src_subject src))
        (ingestion_policies d) of
       None \<Rightarrow> None | Some p \<Rightarrow> if ip_denied p then Some p else None)"

definition deduplicated_submit :: "db \<Rightarrow> evidence_source_row \<Rightarrow> error + submit_response" where
  "deduplicated_submit d prior =
    rbind (of_opt (Errorf ''sql: no rows in result set'') (receipt_of (es_receipt_id prior) d)) (\<lambda>receipt.
    rbind (sourceOrganization d (es_receipt_id prior)) (\<lambda>organization.
    rbind (factsForReceipt d (es_receipt_id prior)) (\<lambda>facts.
    Inr \<lparr>sbr_accepted = True, sbr_receipt_id = es_receipt_id prior, sbr_consistency_token = rt_consistency_token receipt,
      sbr_deduplicated = True, sbr_rejection_reason = [], sbr_organization = organization, sbr_facts = facts\<rparr>)))"

definition occupied :: "db \<Rightarrow> string \<Rightarrow> string \<Rightarrow> bool" where
  "occupied d spaceID key \<longleftrightarrow>
    list_ex (\<lambda>r. (rt_space_id r, rt_idempotency_key r) = (spaceID, key)) (receipts d) \<or>
    list_ex (\<lambda>t. (tb_space_id t, tb_idempotency_key t) = (spaceID, key)) (receipt_tombstones d)"

text \<open>The rows of the receipt and its source, before the mutations.\<close>

definition admit_evidence ::
  "store \<Rightarrow> analyzer \<Rightarrow> instant \<Rightarrow> authorized_view \<Rightarrow> submit_request \<Rightarrow> string \<Rightarrow> string \<Rightarrow> db \<Rightarrow> error + db" where
  "admit_evidence s A now view r receiptID token d =
    rbind (of_opt (Errorf ''insert receipt'') (insert_receipt (remember_row now view (legacy_request r) receiptID token) d)) (\<lambda>d.
    rbind (of_opt (Errorf ''insert receipt processing'') (insert_processing (accepted_processing receiptID) d)) (\<lambda>d.
    rbind (of_opt (Errorf ''insert consistency cursor'')
      (insert_cursor \<lparr>cu_token = token, cu_generation = sto_generation s, cu_space_id = av_write_space_id view,
         cu_commit_sequence = receipts_seq d, cu_label_set_digest = av_label_set_digest view\<rparr> d)) (\<lambda>d.
    rbind (of_opt (Errorf ''insert evidence source'')
      (insert_evidence_source \<lparr>es_space_id = av_write_space_id view, es_label_set_digest = av_label_set_digest view,
         es_source_key = sourceKey (sub_source r), es_receipt_id = receiptID, es_source = Some (sub_source r),
         es_request_digest = submit_digest r, es_suppressed = False\<rparr> d)) (\<lambda>d.
    rbind (of_opt (Errorf ''Space index'') (readSpaceIndex d (av_write_space_id view))) (\<lambda>tableName.
    of_opt (Errorf ''index receipt projection'') (indexReceiptProjection A tableName receiptID (sub_text r) [] d))))))"

text \<open>What follows the mutations: a Steward job for raw evidence, an organized state otherwise.\<close>

definition organize_evidence :: "instant \<Rightarrow> authorized_view \<Rightarrow> submit_request \<Rightarrow> string \<Rightarrow> db \<Rightarrow> error + db" where
  "organize_evidence now view r receiptID d =
    (if sub_mutations r = [] then
       of_opt (Errorf ''enqueue Steward job'')
         (enqueueStewardJob now receiptID (av_write_space_id view) (av_labels view) (av_label_set_digest view) d)
     else Inr (d\<lparr>receipt_processing := tbl_update (\<lambda>p. pc_receipt_id p = receiptID)
       (\<lambda>p. p\<lparr>pc_state := ProcessingStateOrganized, pc_semantic_generation := FactsProtocolVersion\<rparr>) (receipt_processing d)\<rparr>))"

definition submit_new ::
  "store \<Rightarrow> analyzer \<Rightarrow> instant \<Rightarrow> string \<Rightarrow> authorized_view \<Rightarrow> submit_request \<Rightarrow> db \<Rightarrow> error + (submit_response \<times> db)" where
  "submit_new s A now rnd view r d =
    rbind (guard (\<not> occupied d (av_write_space_id view) (sub_idempotency_key r))
      (serviceError ErrorCodeConflict ''effect identity already used'' False)) (\<lambda>_.
    rbind (of_opt (Errorf ''random'') (randomHex 16 rnd)) (\<lambda>(suffix, rnd).
    rbind (of_opt (Errorf ''random'') (randomToken 24 rnd)) (\<lambda>(token, rnd).
    let receiptID = ''receipt-'' @ suffix in
    rbind (admit_evidence s A now view r receiptID token d) (\<lambda>d.
    rbind (fold_res (applyFactMutation A now view (sub_source r) receiptID) (sub_mutations r) ([], rnd, d)) (\<lambda>(facts, rnd, d).
    rbind (organize_evidence now view r receiptID d) (\<lambda>d.
    rbind (sourceOrganization d receiptID) (\<lambda>organization.
    rbind (recordMemoryChange now (av_write_space_id view) (av_label_set_digest view) ''evidence_accepted'' receiptID [] d) (\<lambda>d.
    Inr (\<lparr>sbr_accepted = True, sbr_receipt_id = receiptID, sbr_consistency_token = token, sbr_deduplicated = False,
      sbr_rejection_reason = [], sbr_organization = organization, sbr_facts = facts\<rparr>, d)))))))))"

text \<open>\<open>Inr (response, None)\<close> answers without an effect.\<close>

definition submit_tx ::
  "store \<Rightarrow> analyzer \<Rightarrow> instant \<Rightarrow> string \<Rightarrow> call_authorization \<Rightarrow> submit_request \<Rightarrow> db \<Rightarrow>
   error + (submit_response \<times> db option)" where
  "submit_tx s A now rnd auth request d =
    rbind (map_err (\<lambda>m. serviceError ErrorCodeInvalidArgument m False) (validate_submit request)) (\<lambda>_.
    let r = canonical_submit request in
    rbind (authorize now d auth OperationRemember) (\<lambda>view.
    rbind (guard (av_write_space_id view \<noteq> []) (unauthorized ''View has no writable Space'')) (\<lambda>_.
    (case denying_policy d view (sub_source r) of
       Some p \<Rightarrow> Inr (submit_refused (''ingestion_policy: '' @ ip_reason p), None)
     | None \<Rightarrow>
       (case source_of_key d view (sourceKey (sub_source r)) of
          Some prior \<Rightarrow>
            if es_suppressed prior then Inr (submit_refused ''source_suppressed'', None)
            else rbind (guard (es_request_digest prior = submit_digest r)
                (serviceError ErrorCodeConflict ''source identity already has different content or assertions'' False)) (\<lambda>_.
              rbind (deduplicated_submit d prior) (\<lambda>response. Inr (response, None)))
        | None \<Rightarrow> rbind (submit_new s A now rnd view r d) (\<lambda>(response, d'). Inr (response, Some d')))))))"

definition submit_unknown :: error where
  "submit_unknown = serviceError ErrorCodeUnknownOutcome ''evidence commit outcome unknown; retry same source and effect'' True"

definition SubmitEvidence ::
  "store \<Rightarrow> analyzer \<Rightarrow> instant \<Rightarrow> string \<Rightarrow> commit_outcome \<Rightarrow> call_authorization \<Rightarrow> submit_request \<Rightarrow> db \<Rightarrow>
   (error + submit_response) \<times> db" where
  "SubmitEvidence s A now rnd out auth request d =
    (case rbind (requireMutableGeneration s) (\<lambda>_. submit_tx s A now rnd auth request d) of
       Inl e \<Rightarrow> (Inl (factServiceError e), d)
     | Inr (response, None) \<Rightarrow> (Inr response, d)
     | Inr (response, Some d') \<Rightarrow> commit_tx out submit_unknown d d' response)"

end
