(* ===== verification/Facts_Laws.thy ===== *)
theory Facts_Laws
  imports Facts_Ingest
begin

text \<open>
  The invariant of the fact store and what submitting evidence guarantees. \<open>facts_ok\<close> says that no
  two active heads assert an ambiguous current truth and that the history of every active record
  obeys the lifecycle; \<open>SubmitEvidence\<close> keeps it, whatever it is given.
\<close>

section \<open>The invariant\<close>

definition head_fact :: "db \<Rightarrow> semantic_row \<Rightarrow> metadata option" where
  "head_fact d r = Option.bind (revision_of (sm_record_id r) (sm_current_revision r) d) rv_fact"

text \<open>Two confirmed heads are ambiguous when they are base facts under the same conditions or
  exceptions of the same fact whose intervals overlap.\<close>

definition ambiguous :: "metadata \<Rightarrow> metadata \<Rightarrow> bool" where
  "ambiguous a b \<longleftrightarrow> md_adoption a = AdoptionConfirmed \<and> md_adoption b = AdoptionConfirmed \<and>
     md_related_record_id a = md_related_record_id b \<and>
     (if md_related_record_id a = [] then md_key a \<noteq> [] \<and> md_conditions a = md_conditions b else intervals_overlap a b)"

definition fact_scope :: "semantic_row \<Rightarrow> string \<times> string \<times> string \<times> string" where
  "fact_scope r = (sm_space_id r, sm_label_set_digest r, sm_subject r, sm_fact_key r)"

definition unambiguous :: "db \<Rightarrow> bool" where
  "unambiguous d \<longleftrightarrow> (\<forall>r\<in>set (semantic_records d). \<forall>r'\<in>set (semantic_records d). \<forall>m m'.
     sm_status r = RecordStatusActive \<and> sm_status r' = RecordStatusActive \<and> sm_record_id r \<noteq> sm_record_id r' \<and>
     fact_scope r = fact_scope r' \<and> head_fact d r = Some m \<and> head_fact d r' = Some m' \<longrightarrow> \<not> ambiguous m m')"

definition heads_match :: "db \<Rightarrow> bool" where
  "heads_match d \<longleftrightarrow> (\<forall>r\<in>set (semantic_records d). \<forall>m. sm_status r = RecordStatusActive \<and> head_fact d r = Some m \<longrightarrow>
     md_subject m = sm_subject r \<and> md_key m = sm_fact_key r)"

text \<open>An exception is one effective entry, however often it is corrected.\<close>

definition record_lifecycle :: "fact_rev list \<Rightarrow> bool" where
  "record_lifecycle h \<longleftrightarrow> lifecycle_ok h \<and>
     (h \<noteq> [] \<and> md_related_record_id (fa_metadata (last h)) \<noteq> [] \<longrightarrow> length (effective h) = 1)"

definition lifecycles_ok :: "db \<Rightarrow> bool" where
  "lifecycles_ok d \<longleftrightarrow> (\<forall>r\<in>set (semantic_records d). sm_status r = RecordStatusActive \<and> \<not> forgottenRecord d (sm_record_id r) \<longrightarrow>
     record_lifecycle (fact_rows d (sm_record_id r)))"

definition revision_keys :: "db \<Rightarrow> (string \<times> nat) list" where
  "revision_keys d = map (\<lambda>v. (rv_record_id v, rv_revision v)) (semantic_revisions d)"

definition facts_ok :: "db \<Rightarrow> bool" where
  "facts_ok d \<longleftrightarrow> history_ok d \<and> distinct (revision_keys d) \<and> heads_match d \<and> unambiguous d \<and> lifecycles_ok d"

text \<open>The tables the invariant reads.\<close>

definition facts_view :: "db \<Rightarrow> semantic_row list \<times> revision_row list \<times> barrier_row list \<times> barrier_record_row list" where
  "facts_view d = (semantic_records d, semantic_revisions d, forgetting_barriers d, forgetting_barrier_records d)"

lemma facts_ok_cong:
  assumes "facts_view d' = facts_view d"
  shows "facts_ok d' = facts_ok d"
proof -
  have t: "semantic_records d' = semantic_records d" "semantic_revisions d' = semantic_revisions d"
    "forgetting_barriers d' = forgetting_barriers d" "forgetting_barrier_records d' = forgetting_barrier_records d"
    using assms by (simp_all add: facts_view_def)
  show ?thesis
    by (simp add: facts_ok_def history_ok_def revision_numbers_def revision_keys_def heads_match_def unambiguous_def
        lifecycles_ok_def head_fact_def revision_of_def fact_rows_def forgottenRecord_def record_barriers_def t)
qed

lemma intervals_overlap_sym: "intervals_overlap a b \<Longrightarrow> intervals_overlap b a"
  by (auto simp: intervals_overlap_def split: option.splits)

lemma ambiguous_sym: "ambiguous a b \<Longrightarrow> md_key a = md_key b \<Longrightarrow> ambiguous b a"
  by (simp add: ambiguous_def intervals_overlap_sym split: if_splits)

section \<open>Reading after a revision is appended\<close>

lemma sort_key_snoc:
  assumes "\<And>x. x \<in> set xs \<Longrightarrow> f x < f v"
  shows "sort_key f (xs @ [v]) = sort_key f xs @ [v]"
proof (rule properties_for_sort_key)
  show "sorted (map f (sort_key f xs @ [v]))"
    using assms by (auto simp: sorted_append less_imp_le)
  show "filter (\<lambda>x. f k = f x) (sort_key f xs @ [v]) = filter (\<lambda>x. f k = f x) (xs @ [v])" for k
    using sort_key_stable[of f "f k" xs] by (simp add: eq_commute)
qed simp

lemma map_filter_snoc: "List.map_filter f (xs @ [x]) = List.map_filter f xs @ (case f x of None \<Rightarrow> [] | Some y \<Rightarrow> [y])"
  by (simp add: List.map_filter_def split: option.split)

lemma fact_rows_snoc:
  assumes "semantic_revisions d' = semantic_revisions d @ [v]"
    and "\<And>w. w \<in> set (semantic_revisions d) \<Longrightarrow> rv_record_id w = rv_record_id v \<Longrightarrow> rv_revision w < rv_revision v"
  shows "fact_rows d' k = fact_rows d k @ (if rv_record_id v = k then (case rv_fact v of None \<Rightarrow> [] | Some m \<Rightarrow> [fact_of_row v m]) else [])"
proof (cases "rv_record_id v = k")
  case True
  then have "sort_key rv_revision (filter (\<lambda>w. rv_record_id w = k) (semantic_revisions d) @ [v]) =
      sort_key rv_revision (filter (\<lambda>w. rv_record_id w = k) (semantic_revisions d)) @ [v]"
    using assms(2) by (intro sort_key_snoc) auto
  with True show ?thesis by (simp add: fact_rows_def assms(1) map_filter_snoc split: option.split)
qed (simp add: fact_rows_def assms(1))

lemma fact_rows_last:
  assumes u: "distinct (revision_keys d)" and v: "revision_of k n d = Some v" "rv_fact v = Some m"
    and max: "\<And>w. w \<in> set (semantic_revisions d) \<Longrightarrow> rv_record_id w = k \<Longrightarrow> rv_revision w \<le> n"
  shows "\<exists>h. fact_rows d k = h @ [fact_of_row v m]"
proof -
  let ?xs = "sort_key rv_revision (filter (\<lambda>w. rv_record_id w = k) (semantic_revisions d))"
  have vm: "v \<in> set (semantic_revisions d)" "rv_record_id v = k" "rv_revision v = n"
    using v(1) by (auto simp: revision_of_def dest: find_Some_iff2)
  then have "v \<in> set ?xs" by simp
  then have ne: "?xs \<noteq> []" by (metis empty_iff list.set(1))
  then have lst: "last ?xs \<in> set ?xs" by (rule last_in_set)
  then have l: "last ?xs \<in> set (semantic_revisions d)" "rv_record_id (last ?xs) = k" by auto
  obtain ys where ys: "?xs = ys @ [last ?xs]" using ne by (metis append_butlast_last_id)
  have "sorted (map rv_revision ?xs)" by simp
  then have "\<forall>w\<in>set ?xs. rv_revision w \<le> rv_revision (last ?xs)"
    unfolding ys[symmetric] by (subst (asm) ys, subst ys) (auto simp: sorted_append)
  then have "rv_revision (last ?xs) = n" using vm max[OF l] by (auto intro: antisym)
  with l vm have "last ?xs = v"
    using u unfolding revision_keys_def by (auto intro: plain_key.key_unique[of "\<lambda>v. (rv_record_id v, rv_revision v)"])
  then have "fact_rows d k = List.map_filter (\<lambda>v. map_option (fact_of_row v) (rv_fact v)) (ys @ [v])"
    unfolding fact_rows_def using ys by simp
  then show ?thesis by (simp add: map_filter_snoc v(2))
qed

lemma revision_of_snoc:
  assumes "semantic_revisions d' = semantic_revisions d @ [v]" and "(rv_record_id v, rv_revision v) \<notin> set (revision_keys d)"
  shows "revision_of k n d' = (if (rv_record_id v, rv_revision v) = (k, n) then Some v else revision_of k n d)"
proof (cases "(rv_record_id v, rv_revision v) = (k, n)")
  case True
  then have "revision_of k n d = None"
    using assms(2) by (auto simp: revision_of_def find_None_iff revision_keys_def image_iff)
  then show ?thesis using True by (auto simp: revision_of_def assms(1))
qed (auto simp: revision_of_def assms(1) split: option.split)

section \<open>Appending a head\<close>

lemma forgottenRecord_cong:
  assumes "forgetting_barriers d' = forgetting_barriers d" "forgetting_barrier_records d' = forgetting_barrier_records d"
  shows "forgottenRecord d' k = forgottenRecord d k"
  by (simp add: forgottenRecord_def record_barriers_def assms)

text \<open>A new revision that becomes the head of its record.\<close>

definition new_head :: "db \<Rightarrow> semantic_row \<Rightarrow> revision_row \<Rightarrow> db \<Rightarrow> bool" where
  "new_head d r v d' \<longleftrightarrow> sm_record_id r = rv_record_id v \<and> sm_current_revision r = rv_revision v \<and>
     semantic_revisions d' = semantic_revisions d @ [v] \<and> (rv_record_id v, rv_revision v) \<notin> set (revision_keys d) \<and>
     (\<forall>w\<in>set (semantic_revisions d). rv_record_id w = rv_record_id v \<longrightarrow> rv_revision w < rv_revision v) \<and>
     forgetting_barriers d' = forgetting_barriers d \<and> forgetting_barrier_records d' = forgetting_barrier_records d \<and>
     (\<forall>x\<in>set (semantic_records d'). x = r \<or> x \<in> set (semantic_records d) \<and> sm_record_id x \<noteq> sm_record_id r)"

text \<open>What the fact of that revision has to satisfy.\<close>

definition head_ok :: "db \<Rightarrow> semantic_row \<Rightarrow> revision_row \<Rightarrow> bool" where
  "head_ok d r v \<longleftrightarrow> (sm_status r = RecordStatusActive \<longrightarrow>
     (\<forall>m. rv_fact v = Some m \<longrightarrow> md_subject m = sm_subject r \<and> md_key m = sm_fact_key r \<and>
        (\<forall>x\<in>set (semantic_records d). \<forall>m'. sm_status x = RecordStatusActive \<and> sm_record_id x \<noteq> sm_record_id r \<and>
           fact_scope x = fact_scope r \<and> head_fact d x = Some m' \<longrightarrow> \<not> ambiguous m m')) \<and>
     (\<not> forgottenRecord d (sm_record_id r) \<longrightarrow>
        record_lifecycle (fact_rows d (sm_record_id r) @ (case rv_fact v of None \<Rightarrow> [] | Some m \<Rightarrow> [fact_of_row v m]))))"

lemma facts_ok_new_head:
  assumes ok: "facts_ok d" and hist: "history_ok d'" and new: "new_head d r v d'" and head: "head_ok d r v"
  shows "facts_ok d'"
proof -
  have rv: "sm_record_id r = rv_record_id v" "sm_current_revision r = rv_revision v"
    and revs: "semantic_revisions d' = semantic_revisions d @ [v]" and fresh: "(rv_record_id v, rv_revision v) \<notin> set (revision_keys d)"
    and max: "\<And>w. w \<in> set (semantic_revisions d) \<Longrightarrow> rv_record_id w = rv_record_id v \<Longrightarrow> rv_revision w < rv_revision v"
    and bars: "forgetting_barriers d' = forgetting_barriers d" "forgetting_barrier_records d' = forgetting_barrier_records d"
    and recs: "\<And>x. x \<in> set (semantic_records d') \<Longrightarrow> x = r \<or> x \<in> set (semantic_records d) \<and> sm_record_id x \<noteq> sm_record_id r"
    using new by (auto simp: new_head_def)
  have hf_r: "head_fact d' r = rv_fact v" using rv by (simp add: head_fact_def revision_of_snoc[OF revs fresh])
  have hf: "head_fact d' x = head_fact d x" if "sm_record_id x \<noteq> sm_record_id r" for x
    using that rv by (auto simp: head_fact_def revision_of_snoc[OF revs fresh])
  have rows: "fact_rows d' k = fact_rows d k @ (if rv_record_id v = k then (case rv_fact v of None \<Rightarrow> [] | Some m \<Rightarrow> [fact_of_row v m]) else [])" for k
    using revs max by (rule fact_rows_snoc)
  have "distinct (revision_keys d')" using ok fresh by (simp add: facts_ok_def revision_keys_def revs)
  moreover have match: "heads_match d'"
    unfolding heads_match_def
  proof (intro ballI allI impI)
    fix x m assume x: "x \<in> set (semantic_records d')" "sm_status x = RecordStatusActive \<and> head_fact d' x = Some m"
    from recs[OF x(1)] show "md_subject m = sm_subject x \<and> md_key m = sm_fact_key x"
    proof
      assume "x = r"
      with x head show ?thesis by (simp add: head_ok_def hf_r)
    next
      assume "x \<in> set (semantic_records d) \<and> sm_record_id x \<noteq> sm_record_id r"
      with x ok show ?thesis by (simp add: facts_ok_def heads_match_def hf)
    qed
  qed
  moreover have "unambiguous d'"
    unfolding unambiguous_def
  proof (intro ballI allI impI)
    fix x y m m'
    assume xy: "x \<in> set (semantic_records d')" "y \<in> set (semantic_records d')"
      and a: "sm_status x = RecordStatusActive \<and> sm_status y = RecordStatusActive \<and> sm_record_id x \<noteq> sm_record_id y \<and>
        fact_scope x = fact_scope y \<and> head_fact d' x = Some m \<and> head_fact d' y = Some m'"
    have "md_key m = sm_fact_key x" "md_key m' = sm_fact_key y" using match a xy by (simp_all add: heads_match_def)
    then have keys: "md_key m = md_key m'" using a by (simp add: fact_scope_def)
    consider "x = r" "y \<in> set (semantic_records d)" "sm_record_id y \<noteq> sm_record_id r"
      | "y = r" "x \<in> set (semantic_records d)" "sm_record_id x \<noteq> sm_record_id r"
      | "x \<in> set (semantic_records d)" "y \<in> set (semantic_records d)" "sm_record_id x \<noteq> sm_record_id r" "sm_record_id y \<noteq> sm_record_id r"
      using recs[OF xy(1)] recs[OF xy(2)] a by metis
    then show "\<not> ambiguous m m'"
    proof cases
      case 1
      with a have "rv_fact v = Some m" "head_fact d y = Some m'" by (simp_all add: hf_r hf[OF 1(3)])
      with 1 a show ?thesis using head by (simp add: head_ok_def)
    next
      case 2
      with a have "rv_fact v = Some m'" "head_fact d x = Some m" by (simp_all add: hf_r hf[OF 2(3)])
      with 2 a have "\<not> ambiguous m' m" using head by (simp add: head_ok_def)
      then show ?thesis using ambiguous_sym keys by metis
    next
      case 3
      with a have "head_fact d x = Some m" "head_fact d y = Some m'" by (simp_all add: hf[OF 3(3)] hf[OF 3(4)])
      with 3 a ok show ?thesis by (simp add: facts_ok_def unambiguous_def)
    qed
  qed
  moreover have "lifecycles_ok d'"
    unfolding lifecycles_ok_def
  proof (intro ballI impI)
    fix x assume x: "x \<in> set (semantic_records d')" "sm_status x = RecordStatusActive \<and> \<not> forgottenRecord d' (sm_record_id x)"
    from recs[OF x(1)] show "record_lifecycle (fact_rows d' (sm_record_id x))"
    proof
      assume "x = r"
      with x head show ?thesis by (simp add: head_ok_def rows rv forgottenRecord_cong[OF bars])
    next
      assume "x \<in> set (semantic_records d) \<and> sm_record_id x \<noteq> sm_record_id r"
      with x ok show ?thesis
        by (auto simp: facts_ok_def lifecycles_ok_def rows rv forgottenRecord_cong[OF bars])
    qed
  qed
  ultimately show ?thesis using hist by (simp add: facts_ok_def)
qed

section \<open>The tables of a mutation\<close>

lemma write_fact_tables:
  assumes "write_fact A now view m meta recordID revision evidence receiptID d = Inr d'"
  shows "\<exists>v. semantic_revisions d' = semantic_revisions d @ [v] \<and> rv_record_id v = recordID \<and> rv_revision v = revision \<and>
      rv_text v = mu_text m \<and> rv_fact v = Some meta \<and> (recordID, revision) \<notin> set (revision_keys d)"
    and "semantic_records d' = semantic_records d" and "forgetting_barriers d' = forgetting_barriers d"
    and "forgetting_barrier_records d' = forgetting_barrier_records d"
proof -
  obtain v d1 d2 d3 tableName where
    1: "insert_revision v d = Some d1" "rv_record_id v = recordID" "rv_revision v = revision" "rv_text v = mu_text m" "rv_fact v = Some meta"
    and 2: "insert_op_evidence recordID revision (av_write_space_id view) evidence d1 = Inr d2"
    and 3: "(if md_adoption meta = AdoptionDenied then Inr (delete_semantic_projection tableName recordID d2)
       else of_opt (Errorf ''index semantic projection'') (indexSemanticProjection A tableName recordID revision (mu_text m) []
         (delete_semantic_projection tableName recordID d2))) = Inr d3"
    and 4: "recordMemoryChange now (av_write_space_id view) (av_label_set_digest view) (''fact_'' @ transition_text (mu_transition m))
      receiptID recordID d3 = Inr d'"
    using assms unfolding write_fact_def Let_def by (elim run_elims) (rule that, assumption, simp_all)
  have d1: "d1 = d\<lparr>semantic_revisions := semantic_revisions d @ [v]\<rparr>" "(recordID, revision) \<notin> set (revision_keys d)"
    using 1 by (auto simp: insert_revision_def tbl_simps clash_on_def revision_keys_def)
  obtain es where d2: "d2 = d1\<lparr>semantic_evidence := semantic_evidence d1 @ es\<rparr>" using insert_op_evidence_tables[OF 2] by blast
  have "\<exists>fs. d3 = d2\<lparr>semantic_fts := fs\<rparr>"
    using 3 by (auto simp: indexSemanticProjection_def delete_semantic_projection_def result_simps split: if_splits)
  then obtain fs where d3: "d3 = d2\<lparr>semantic_fts := fs\<rparr>" ..
  obtain c where d': "d' = d3\<lparr>memory_changes := memory_changes d3 @ [c], memory_changes_seq := memory_changes_seq d3 + 1\<rparr>"
    using recordMemoryChange_tables[OF 4] by blast
  show "\<exists>v. semantic_revisions d' = semantic_revisions d @ [v] \<and> rv_record_id v = recordID \<and> rv_revision v = revision \<and>
      rv_text v = mu_text m \<and> rv_fact v = Some meta \<and> (recordID, revision) \<notin> set (revision_keys d)"
    using 1 d1 by (intro exI[of _ v]) (simp add: d' d3 d2)
  show "semantic_records d' = semantic_records d" "forgetting_barriers d' = forgetting_barriers d"
    "forgetting_barrier_records d' = forgetting_barrier_records d"
    by (simp_all add: d' d3 d2 d1)
qed

abbreviation creates_record :: "mutation \<Rightarrow> bool" where
  "creates_record m \<equiv> mu_transition m = TransitionEstablish \<or> mu_transition m = TransitionException"

text \<open>What \<open>validate_mutation\<close> leaves of a mutation.\<close>

definition mutation_shape :: "mutation \<Rightarrow> bool" where
  "mutation_shape m \<longleftrightarrow> (mu_transition m = TransitionEstablish \<longleftrightarrow> mu_target_record_id m = []) \<and>
     (\<forall>s. mu_transition m \<noteq> TransitionOther s) \<and> (mu_transition m = TransitionChange \<longrightarrow> mu_valid_from m \<noteq> None)"

lemma validated_shape:
  assumes "validate_mutation m = Inr ()"
  shows "mutation_shape (m\<lparr>mu_conditions := cs\<rparr>)"
  using assms unfolding validate_mutation_def
  by (elim run_elims) (auto simp: mutation_shape_def result_simps split: transition.splits)

text \<open>A successful mutation: the checks it passed and the head it wrote.\<close>

definition mutation_head :: "mutation \<Rightarrow> metadata \<Rightarrow> authorized_view \<Rightarrow> semantic_row \<Rightarrow> revision_row \<Rightarrow> bool" where
  "mutation_head m meta view r v \<longleftrightarrow> rv_fact v = Some meta \<and> rv_text v = mu_text m \<and> sm_space_id r = av_write_space_id view \<and>
     sm_label_set_digest r = av_label_set_digest view \<and>
     (mu_transition m = TransitionDeny \<longleftrightarrow> sm_status r \<noteq> RecordStatusActive)"

lemma find_id_unique: "distinct (map key xs) \<Longrightarrow> r \<in> set xs \<Longrightarrow> x \<in> set xs \<Longrightarrow> key x = key r \<Longrightarrow> x = r"
  by (metis plain_key.key_unique)

lemma place_new:
  assumes ok: "facts_ok d" and c: "creates_record m"
    and place: "place_fact now view m rnd d = Inr (recordID, revision, rnd', d1)"
    and wr: "write_fact A now view m meta recordID revision evidence receiptID d1 = Inr d'"
  obtains r v where "new_head d r v d'" "history_ok d'" "mutation_head m meta view r v" "sm_subject r = mu_subject m" "sm_fact_key r = mu_key m"
    "sm_record_id r \<notin> sm_record_id ` set (semantic_records d)"
proof -
  from c place obtain r where ins: "insert_record r d = Some d1" and r: "sm_record_id r = recordID" "sm_space_id r = av_write_space_id view"
      "sm_label_set_digest r = av_label_set_digest view" "sm_status r = RecordStatusActive" "sm_current_revision r = 1"
      "sm_subject r = mu_subject m" "sm_fact_key r = mu_key m" and rev: "revision = 1"
    by (auto simp: place_fact_def Let_def elim!: run_elims)
  have d1: "d1 = d\<lparr>semantic_records := semantic_records d @ [r]\<rparr>" and new: "sm_record_id r \<notin> sm_record_id ` set (semantic_records d)"
    using ins by (auto simp: insert_record_def tbl_simps clash_on_def)
  from write_fact_tables[OF wr] obtain v where v: "semantic_revisions d' = semantic_revisions d @ [v]" "rv_record_id v = recordID"
      "rv_revision v = 1" "rv_text v = mu_text m" "rv_fact v = Some meta" "(recordID, 1) \<notin> set (revision_keys d)"
    and t: "semantic_records d' = semantic_records d @ [r]" "forgetting_barriers d' = forgetting_barriers d"
      "forgetting_barrier_records d' = forgetting_barrier_records d"
    by (auto simp: d1 rev revision_keys_def)
  have h: "history_ok d" using ok by (simp add: facts_ok_def)
  have "rv_record_id w \<noteq> recordID" if "w \<in> set (semantic_revisions d)" for w
    using h new that r(1) unfolding history_ok_def by metis
  then have "new_head d r v d'" using v t new r by (auto simp: new_head_def image_iff)
  moreover have "history_ok d'" using history_add[OF h t(1) new v(1)] v r by simp
  moreover have "mutation_head m meta view r v" using c v r by (auto simp: mutation_head_def)
  ultimately show thesis using r new by (intro that)
qed

lemma place_advance:
  assumes ok: "facts_ok d" and c: "\<not> creates_record m" and r0: "record_of (mu_target_record_id m) d = Some r0"
    and cur: "sm_current_revision r0 = mu_expected_revision m" "sm_space_id r0 = av_write_space_id view" "sm_label_set_digest r0 = av_label_set_digest view"
    and place: "place_fact now view m rnd d = Inr (recordID, revision, rnd', d1)"
    and wr: "write_fact A now view m meta recordID revision evidence receiptID d1 = Inr d'"
  obtains r v where "new_head d r v d'" "history_ok d'" "mutation_head m meta view r v" "sm_subject r = sm_subject r0"
    "sm_fact_key r = sm_fact_key r0" "sm_record_id r = mu_target_record_id m"
proof -
  let ?f = "\<lambda>r. r\<lparr>sm_current_revision := mu_expected_revision m + 1,
     sm_status := (if mu_transition m = TransitionDeny then RecordStatusInvalidated else RecordStatusActive),
     sm_invalidated_reason := transition_text (mu_transition m), sm_updated_at := now\<rparr>"
  have rec: "recordID = mu_target_record_id m" "revision = mu_expected_revision m + 1"
    and d1: "d1 = d\<lparr>semantic_records := tbl_update (\<lambda>r. sm_record_id r = mu_target_record_id m) ?f (semantic_records d)\<rparr>"
    using c place by (auto simp: place_fact_def Let_def)
  from write_fact_tables[OF wr] obtain v where v: "semantic_revisions d' = semantic_revisions d @ [v]" "rv_record_id v = recordID"
      "rv_revision v = revision" "rv_text v = mu_text m" "rv_fact v = Some meta" "(recordID, revision) \<notin> set (revision_keys d)"
    and t: "semantic_records d' = tbl_update (\<lambda>r. sm_record_id r = mu_target_record_id m) ?f (semantic_records d)"
      "forgetting_barriers d' = forgetting_barriers d" "forgetting_barrier_records d' = forgetting_barrier_records d"
    by (auto simp: d1 revision_keys_def)
  have h: "history_ok d" using ok by (simp add: facts_ok_def)
  have r0m: "r0 \<in> set (semantic_records d)" "sm_record_id r0 = mu_target_record_id m" using record_of_stored[OF r0] by auto
  have uniq: "x = r0" if "x \<in> set (semantic_records d)" "sm_record_id x = mu_target_record_id m" for x
    using h that r0m by (auto simp: history_ok_def intro: find_id_unique[of sm_record_id])
  have low: "rv_revision w < revision" if "w \<in> set (semantic_revisions d)" "rv_record_id w = recordID" for w
  proof -
    have "rv_revision w \<in> revision_numbers d (sm_record_id r0)" using that r0m rec by (auto simp: revision_numbers_def)
    then show ?thesis using h r0m cur rec by (auto simp: history_ok_def)
  qed
  have "x = ?f r0 \<or> x \<in> set (semantic_records d) \<and> sm_record_id x \<noteq> sm_record_id (?f r0)" if "x \<in> set (semantic_records d')" for x
  proof -
    from that obtain y where y: "y \<in> set (semantic_records d)" "x = (if sm_record_id y = mu_target_record_id m then ?f y else y)"
      unfolding t(1) tbl_update_def by auto
    show ?thesis using y uniq[of y] r0m by (cases "sm_record_id y = mu_target_record_id m") simp_all
  qed
  then have "new_head d (?f r0) v d'" using v t r0m rec low unfolding new_head_def by simp
  moreover have "history_ok d'"
    using history_advance[OF h r0m(1), of d' "\<lambda>_. True" ?f v] t(1) v r0m rec cur by simp
  moreover have "mutation_head m meta view (?f r0) v" using v cur by (simp add: mutation_head_def)
  ultimately show thesis by (rule that) (simp_all add: r0m)
qed

section \<open>What the guards establish\<close>

lemma set_map_filter: "set (List.map_filter f xs) = {y. \<exists>x\<in>set xs. f x = Some y}"
  by (induction xs) (auto simp: List.map_filter_simps split: option.splits)

lemma fact_heads_mem:
  "(r, v) \<in> set (fact_heads d view subject key) \<longleftrightarrow> r \<in> set (semantic_records d) \<and>
     fact_scope r = (av_write_space_id view, av_label_set_digest view, subject, key) \<and> sm_status r = RecordStatusActive \<and>
     revision_of (sm_record_id r) (sm_current_revision r) d = Some v"
  by (auto simp: fact_heads_def set_map_filter fact_scope_def)

lemma decode_heads_mem:
  assumes "decode_heads heads = Inr ms" and "(r, v) \<in> set heads" and "rv_fact v = Some m"
  shows "m \<in> set ms"
proof -
  have "m \<in> set ms" if "fold_res (\<lambda>(r, v) ms. rbind (of_opt (Errorf ''unexpected end of JSON input'') (rv_fact v)) (\<lambda>m. Inr (ms @ [m]))) hs acc = Inr ms"
    and "(r, v) \<in> set hs \<or> m \<in> set acc" for hs acc
    using that
  proof (induction hs arbitrary: acc)
    case (Cons x hs)
    obtain r' v' where x: "x = (r', v')" by (cases x)
    from Cons.prems(1) obtain m' where m': "rv_fact v' = Some m'"
      and rest: "fold_res (\<lambda>(r, v) ms. rbind (of_opt (Errorf ''unexpected end of JSON input'') (rv_fact v)) (\<lambda>m. Inr (ms @ [m]))) hs (acc @ [m']) = Inr ms"
      by (auto simp: x result_simps)
    show ?case using Cons.prems(2) m' assms(3) by (intro Cons.IH[OF rest]) (auto simp: x)
  qed simp
  with assms show ?thesis unfolding decode_heads_def by blast
qed

lemma head_in_fact_heads:
  assumes "x \<in> set (semantic_records d)" "sm_status x = RecordStatusActive" "head_fact d x = Some m'"
    and "fact_scope x = (av_write_space_id view, av_label_set_digest view, subject, key)"
  obtains v where "(x, v) \<in> set (fact_heads d view subject key)" "rv_fact v = Some m'"
  using assms by (auto simp: head_fact_def fact_heads_mem Option.bind_eq_Some_conv)

lemma check_target_InrE:
  assumes "check_target d view m meta0 = Inr (prior, meta)"
  obtains r0 v0 where "record_of (mu_target_record_id m) d = Some r0" "sm_space_id r0 = av_write_space_id view"
    "sm_label_set_digest r0 = av_label_set_digest view" "sm_status r0 = RecordStatusActive" "sm_current_revision r0 = mu_expected_revision m"
    "revision_of (mu_target_record_id m) (sm_current_revision r0) d = Some v0" "rv_fact v0 = Some (fa_metadata prior)"
    "md_subject (fa_metadata prior) = mu_subject m" "md_key (fa_metadata prior) = mu_key m"
    "mu_transition m = TransitionConfirm \<Longrightarrow> md_adoption (fa_metadata prior) = AdoptionPending"
    "mu_transition m = TransitionChange \<Longrightarrow> \<not> precedes_onset m (fa_metadata prior)"
    "mu_transition m = TransitionCorrect \<Longrightarrow> md_related_record_id (fa_metadata prior) = [] \<Longrightarrow>
       corrected_onset_ok m (factTimeline d (mu_target_record_id m))"
    "md_related_record_id (fa_metadata prior) \<noteq> [] \<Longrightarrow> mu_transition m = TransitionDeny \<or> mu_transition m = TransitionCorrect"
    "\<exists>f u. meta = meta0\<lparr>md_valid_from := f, md_valid_until := u, md_related_record_id :=
       (if md_related_record_id (fa_metadata prior) = [] then md_related_record_id meta0 else md_related_record_id (fa_metadata prior))\<rparr> \<and>
       f = (if mu_transition m = TransitionConfirm then md_valid_from (fa_metadata prior) else md_valid_from meta0)"
proof -
  obtain r0 meta1 where r0: "record_of (mu_target_record_id m) d = Some r0" "sm_space_id r0 = av_write_space_id view \<and>
      sm_label_set_digest r0 = av_label_set_digest view \<and> sm_status r0 = RecordStatusActive \<and> sm_current_revision r0 = mu_expected_revision m"
    "readFactRevision d (mu_target_record_id m) (sm_current_revision r0) = Inr prior"
    "md_subject (fa_metadata prior) = mu_subject m \<and> md_key (fa_metadata prior) = mu_key m"
    and c: "confirm_metadata m prior meta0 = Inr meta1" "check_change m (fa_metadata prior) = Inr ()"
      "check_correction d m (fa_metadata prior) = Inr ()" "keep_relation m (fa_metadata prior) meta1 = Inr meta"
    using assms unfolding check_target_def by (elim run_elims) simp
  from r0(3) obtain v0 where v0: "revision_of (mu_target_record_id m) (sm_current_revision r0) d = Some v0" "rv_fact v0 = Some (fa_metadata prior)"
    unfolding readFactRevision_def by (elim run_elims) auto
  have 1: "mu_transition m = TransitionConfirm \<Longrightarrow> md_adoption (fa_metadata prior) = AdoptionPending"
    using c(1) by (simp add: confirm_metadata_def result_simps)
  have 2: "mu_transition m = TransitionChange \<Longrightarrow> \<not> precedes_onset m (fa_metadata prior)"
    using c(2) by (simp add: check_change_def result_simps)
  have 3: "mu_transition m = TransitionCorrect \<Longrightarrow> md_related_record_id (fa_metadata prior) = [] \<Longrightarrow>
       corrected_onset_ok m (factTimeline d (mu_target_record_id m))"
    using c(3) by (simp add: check_correction_def result_simps)
  have 4: "md_related_record_id (fa_metadata prior) \<noteq> [] \<Longrightarrow> mu_transition m = TransitionDeny \<or> mu_transition m = TransitionCorrect"
    using c(4) by (simp add: keep_relation_def result_simps)
  have m1: "meta1 = (if mu_transition m = TransitionConfirm
      then meta0\<lparr>md_valid_from := md_valid_from (fa_metadata prior), md_valid_until := md_valid_until (fa_metadata prior)\<rparr> else meta0)"
    using c(1) by (auto simp: confirm_metadata_def result_simps split: if_splits)
  have m2: "meta = (if md_related_record_id (fa_metadata prior) = [] then meta1 else meta1\<lparr>md_related_record_id := md_related_record_id (fa_metadata prior)\<rparr>)"
    using c(4) by (auto simp: keep_relation_def result_simps split: if_splits)
  have 5: "\<exists>f u. meta = meta0\<lparr>md_valid_from := f, md_valid_until := u, md_related_record_id :=
       (if md_related_record_id (fa_metadata prior) = [] then md_related_record_id meta0 else md_related_record_id (fa_metadata prior))\<rparr> \<and>
       f = (if mu_transition m = TransitionConfirm then md_valid_from (fa_metadata prior) else md_valid_from meta0)"
    by (rule exI[of _ "md_valid_from meta1"], rule exI[of _ "md_valid_until meta1"]) (simp add: m2 m1)
  show thesis
    by (rule that[OF r0(1) _ _ _ _ v0 _ _ 1 2 3 4 5]) (use r0 in simp_all)
qed

section \<open>No mutation forks a truth\<close>

lemma guards_exclude_ambiguity:
  assumes est: "check_establish d view m = Inr ()" and fork: "check_fork d view m meta = Inr ()" and exc: "check_exception d view m meta = Inr ()"
    and fields: "md_subject meta = mu_subject m" "md_key meta = mu_key m" "md_conditions meta = mu_conditions m"
    and x: "x \<in> set (semantic_records d)" "sm_status x = RecordStatusActive" "head_fact d x = Some m'"
      "fact_scope x = (av_write_space_id view, av_label_set_digest view, mu_subject m, mu_key m)"
    and base: "mu_transition m = TransitionEstablish \<Longrightarrow> md_related_record_id meta = []"
    and other: "mu_transition m \<noteq> TransitionEstablish \<Longrightarrow> sm_record_id x \<noteq> mu_target_record_id m \<or> md_related_record_id m' \<noteq> md_related_record_id meta"
  shows "\<not> ambiguous meta m'"
proof
  assume amb: "ambiguous meta m'"
  then have c: "md_adoption meta = AdoptionConfirmed" "md_adoption m' = AdoptionConfirmed" "md_related_record_id m' = md_related_record_id meta"
    by (simp_all add: ambiguous_def)
  obtain v where v: "(x, v) \<in> set (fact_heads d view (mu_subject m) (mu_key m))" "rv_fact v = Some m'"
    using head_in_fact_heads[OF x] .
  show False
  proof (cases "md_related_record_id meta = []")
    case True
    then have k: "mu_key m \<noteq> []" "md_conditions m' = mu_conditions m" using amb fields by (simp_all add: ambiguous_def)
    show False
    proof (cases "mu_transition m = TransitionEstablish")
      case est_tr: True
      with est k obtain others where o: "decode_heads (fact_heads d view (mu_subject m) (mu_key m)) = Inr others"
        "\<not> list_ex (\<lambda>x. md_related_record_id x = [] \<and> md_conditions x = mu_conditions m) others"
        by (auto simp: check_establish_def result_simps)
      have "m' \<in> set others" by (rule decode_heads_mem[OF o(1) v])
      with o(2) k c True show False by (auto simp: list_ex_iff)
    next
      case False
      with fork c True k have "\<not> confirmedFactConflict d view meta (mu_target_record_id m)" by (simp add: check_fork_def result_simps)
      then have "\<forall>(r, w)\<in>set (fact_heads d view (mu_subject m) (mu_key m)). \<not> (sm_record_id r \<noteq> mu_target_record_id m \<and>
          (case rv_fact w of None \<Rightarrow> False
           | Some y \<Rightarrow> md_adoption y = AdoptionConfirmed \<and> md_related_record_id y = [] \<and> md_conditions y = md_conditions meta))"
        unfolding confirmedFactConflict_def list_ex_iff fields by blast
      from bspec[OF this v(1)] show False using v(2) c k True fields other[OF False] by simp
    qed
  next
    case False
    with exc c obtain others where o: "decode_heads (filter (\<lambda>(r, v). sm_record_id r \<noteq> mu_target_record_id m)
          (fact_heads d view (mu_subject m) (mu_key m))) = Inr others"
      "\<not> list_ex (\<lambda>x. md_related_record_id x = md_related_record_id meta \<and> md_adoption x = AdoptionConfirmed \<and> intervals_overlap meta x) others"
      by (auto simp: check_exception_def result_simps)
    show False
    proof (cases "sm_record_id x = mu_target_record_id m")
      case True
      then show False using other base c False by auto
    next
      case ne: False
      have "m' \<in> set others" by (rule decode_heads_mem[OF o(1) _ v(2)]) (use v ne in auto)
      with o(2) c amb False show False by (auto simp: list_ex_iff ambiguous_def)
    qed
  qed
qed

section \<open>Every mutation extends a lifecycle\<close>

lemma fact_of_row_metadata [simp]: "fa_metadata (fact_of_row v m) = m" "fa_historical_state (fact_of_row v m) = []"
  by (simp_all add: fact_of_row_def)

lemma fact_rows_fresh: "\<forall>f\<in>set (fact_rows d k). fa_historical_state f = []"
  by (auto simp: fact_rows_def set_map_filter)

lemma new_lifecycle: "md_transition m \<noteq> TransitionDeny \<Longrightarrow> record_lifecycle [fact_of_row v m]"
  using lifecycle_snoc[of "[]" "fact_of_row v m"] by (simp add: record_lifecycle_def extends_ok_def effective_def chain_ends_def)

lemma prior_is_last:
  assumes ok: "facts_ok d" and r0: "record_of k d = Some r0" and v0: "revision_of k (sm_current_revision r0) d = Some v0" "rv_fact v0 = Some pm"
  shows "\<exists>h. fact_rows d k = h @ [fact_of_row v0 pm]"
proof (rule fact_rows_last[OF _ v0])
  show "distinct (revision_keys d)" using ok by (simp add: facts_ok_def)
  show "rv_revision w \<le> sm_current_revision r0" if "w \<in> set (semantic_revisions d)" "rv_record_id w = k" for w
  proof -
    have "rv_revision w \<in> revision_numbers d k" using that by (auto simp: revision_numbers_def)
    then show ?thesis using ok record_of_stored[OF r0] by (auto simp: facts_ok_def history_ok_def)
  qed
qed

lemma correction_follows:
  assumes life: "lifecycle_ok (fact_rows d k)" and nf: "\<not> forgottenRecord d k" and c: "corrected_onset_ok m (factTimeline d k)"
    and pre: "preceding (fact_rows d k) = Some g"
  shows "follows (onset g) (mu_valid_from m)"
proof -
  have "\<forall>i<length (fact_rows d k). transition_of (fact_rows d k ! i) \<noteq> TransitionDeny" using life by (simp add: lifecycle_ok_def)
  from last_changed_preceding[OF this fact_rows_fresh pre] obtain g' where
    "last_changed (resolve_timeline (fact_rows d k)) = Some g'" "onset g' = onset g" .
  with c nf show ?thesis by (auto simp: corrected_onset_ok_def factTimeline_def follows_def split: option.splits)
qed

lemma advance_lifecycle:
  assumes ok: "facts_ok d" and shape: "mutation_shape m" and adv: "\<not> creates_record m" "mu_transition m \<noteq> TransitionDeny"
    and nf: "\<not> forgottenRecord d (mu_target_record_id m)" and t: "check_target d view m (mutation_metadata src m) = Inr (prior, meta)"
  shows "record_lifecycle (fact_rows d (mu_target_record_id m) @ [fact_of_row v meta])"
proof -
  let ?k = "mu_target_record_id m" and ?pm = "fa_metadata prior"
  obtain r0 v0 f u where r0: "record_of ?k d = Some r0" "sm_status r0 = RecordStatusActive"
      "revision_of ?k (sm_current_revision r0) d = Some v0" "rv_fact v0 = Some ?pm"
    and conf: "mu_transition m = TransitionConfirm \<Longrightarrow> md_adoption ?pm = AdoptionPending"
    and chg: "mu_transition m = TransitionChange \<Longrightarrow> \<not> precedes_onset m ?pm"
    and cor: "mu_transition m = TransitionCorrect \<Longrightarrow> md_related_record_id ?pm = [] \<Longrightarrow> corrected_onset_ok m (factTimeline d ?k)"
    and rel: "md_related_record_id ?pm \<noteq> [] \<Longrightarrow> mu_transition m = TransitionDeny \<or> mu_transition m = TransitionCorrect"
    and meta: "meta = (mutation_metadata src m)\<lparr>md_valid_from := f, md_valid_until := u, md_related_record_id :=
       (if md_related_record_id ?pm = [] then md_related_record_id (mutation_metadata src m) else md_related_record_id ?pm)\<rparr>"
      "f = (if mu_transition m = TransitionConfirm then md_valid_from ?pm else md_valid_from (mutation_metadata src m))"
    using t by (rule check_target_InrE) blast
  obtain h where h: "fact_rows d ?k = h @ [fact_of_row v0 ?pm]" using prior_is_last[OF ok r0(1,3,4)] ..
  let ?h = "fact_rows d ?k"
  have life: "record_lifecycle ?h" using ok r0 nf record_of_stored[OF r0(1)] by (auto simp: facts_ok_def lifecycles_ok_def)
  then have l: "lifecycle_ok ?h" by (simp add: record_lifecycle_def)
  have tr: "md_transition meta = mu_transition m" and rm: "md_related_record_id meta = md_related_record_id ?pm"
    and vf: "md_valid_from meta = f" by (simp_all add: meta mutation_metadata_def)
  have last: "last ?h = fact_of_row v0 ?pm" "?h \<noteq> []" by (simp_all add: h)
  have ext: "extends_ok ?h (fact_of_row v meta)"
  proof -
    consider "mu_transition m = TransitionConfirm" | "mu_transition m = TransitionCorrect" | "mu_transition m = TransitionChange"
      using adv shape by (cases "mu_transition m") (auto simp: mutation_shape_def)
    then show ?thesis
    proof cases
      case 1
      then show ?thesis using conf last by (simp add: extends_ok_def tr vf meta(2))
    next
      case 2
      have "follows (onset g) f" if pre: "preceding ?h = Some g" for g
      proof (cases "md_related_record_id ?pm = []")
        case True
        then show ?thesis using correction_follows[OF l nf cor[OF 2 True] pre] 2 meta(2) by (simp add: mutation_metadata_def)
      next
        case False
        then have "length (effective ?h) = 1" using life last by (simp add: record_lifecycle_def)
        then show ?thesis using pre by (simp add: preceding_def)
      qed
      then show ?thesis using 2 by (simp add: extends_ok_def tr vf)
    next
      case 3
      obtain a where "mu_valid_from m = Some a" using shape 3 by (auto simp: mutation_shape_def)
      then have "follows (md_valid_from ?pm) f" using chg 3 meta(2)
        by (auto simp: precedes_onset_def follows_def mutation_metadata_def split: option.splits)
      then show ?thesis using 3 last by (simp add: extends_ok_def tr vf)
    qed
  qed
  have "length (effective (?h @ [fact_of_row v meta])) = 1" if "md_related_record_id ?pm \<noteq> []"
  proof -
    have "length (effective ?h) = 1" using life last that by (simp add: record_lifecycle_def)
    moreover have "continues_chain (fact_of_row v meta)" using rel[OF that] adv by (simp add: continues_chain_def tr)
    ultimately show ?thesis by (simp add: effective_snoc replace_effective_def)
  qed
  then show ?thesis using lifecycle_snoc[OF l ext] by (simp add: record_lifecycle_def rm)
qed

section \<open>Mutations keep the invariant\<close>

lemma creation_facts_ok:
  assumes ok: "facts_ok d" and c: "creates_record m"
    and est: "check_establish d view m = Inr ()" and fork: "check_fork d view m meta = Inr ()" and exc: "check_exception d view m meta = Inr ()"
    and fields: "md_subject meta = mu_subject m" "md_key meta = mu_key m" "md_conditions meta = mu_conditions m" "md_transition meta = mu_transition m"
    and base: "mu_transition m = TransitionEstablish \<Longrightarrow> md_related_record_id meta = []"
    and exn: "mu_transition m = TransitionException \<Longrightarrow> md_related_record_id meta \<noteq> [] \<and>
       (\<forall>x\<in>set (semantic_records d). sm_record_id x = mu_target_record_id m \<longrightarrow> (\<forall>m'. head_fact d x = Some m' \<longrightarrow> md_related_record_id m' = []))"
    and place: "place_fact now view m rnd d = Inr (recordID, revision, rnd', d1)"
    and wr: "write_fact A now view m meta recordID revision evidence receiptID d1 = Inr d'"
  shows "facts_ok d'"
proof -
  obtain r v where new: "new_head d r v d'" "history_ok d'" and mh: "mutation_head m meta view r v"
    and r: "sm_subject r = mu_subject m" "sm_fact_key r = mu_key m" "sm_record_id r \<notin> sm_record_id ` set (semantic_records d)"
    by (rule place_new[OF ok c place wr])
  have v: "rv_fact v = Some meta" "fact_scope r = (av_write_space_id view, av_label_set_digest view, mu_subject m, mu_key m)"
    using mh r by (simp_all add: mutation_head_def fact_scope_def)
  have "w \<notin> set (semantic_revisions d) \<or> rv_record_id w \<noteq> sm_record_id r" for w
    using ok r(3) unfolding facts_ok_def history_ok_def by metis
  then have rows: "fact_rows d (sm_record_id r) = []" by (auto simp: fact_rows_def List.map_filter_def filter_empty_conv)
  have "head_ok d r v"
    unfolding head_ok_def
  proof (intro impI conjI allI ballI)
    fix y m' x
    assume y: "rv_fact v = Some y" and x: "x \<in> set (semantic_records d)"
      and a: "sm_status x = RecordStatusActive \<and> sm_record_id x \<noteq> sm_record_id r \<and> fact_scope x = fact_scope r \<and> head_fact d x = Some m'"
    have "\<not> ambiguous meta m'"
      by (rule guards_exclude_ambiguity[OF est fork exc fields(1-3) x, of m']) (use a v c base exn x in auto)
    then show "\<not> ambiguous y m'" using y v by simp
  next
    show "record_lifecycle (fact_rows d (sm_record_id r) @ (case rv_fact v of None \<Rightarrow> [] | Some m \<Rightarrow> [fact_of_row v m]))"
      using new_lifecycle[of meta v] c fields(4) by (auto simp: rows v)
  qed (use v r fields in simp_all)
  with ok new show ?thesis by (blast intro: facts_ok_new_head)
qed

lemma edit_facts_ok:
  assumes ok: "facts_ok d" and shape: "mutation_shape m" and adv: "\<not> creates_record m"
    and t: "check_target d view m (mutation_metadata src m) = Inr (prior, meta)"
    and est: "check_establish d view m = Inr ()" and fork: "check_fork d view m meta = Inr ()" and exc: "check_exception d view m meta = Inr ()"
    and place: "place_fact now view m rnd d = Inr (recordID, revision, rnd', d1)"
    and wr: "write_fact A now view m meta recordID revision evidence receiptID d1 = Inr d'"
  shows "facts_ok d'"
proof -
  let ?k = "mu_target_record_id m" and ?pm = "fa_metadata prior"
  obtain r0 v0 f u where r0: "record_of ?k d = Some r0" "sm_space_id r0 = av_write_space_id view" "sm_label_set_digest r0 = av_label_set_digest view"
      "sm_status r0 = RecordStatusActive" "sm_current_revision r0 = mu_expected_revision m"
    and v0: "revision_of ?k (sm_current_revision r0) d = Some v0" "rv_fact v0 = Some ?pm"
    and sk: "md_subject ?pm = mu_subject m" "md_key ?pm = mu_key m"
    and meta: "meta = (mutation_metadata src m)\<lparr>md_valid_from := f, md_valid_until := u, md_related_record_id :=
       (if md_related_record_id ?pm = [] then md_related_record_id (mutation_metadata src m) else md_related_record_id ?pm)\<rparr>"
    using t by (rule check_target_InrE) blast
  obtain r v where new: "new_head d r v d'" "history_ok d'" and mh: "mutation_head m meta view r v"
    and r: "sm_subject r = sm_subject r0" "sm_fact_key r = sm_fact_key r0" "sm_record_id r = ?k"
    by (rule place_advance[OF ok adv r0(1,5,2,3) place wr])
  have stored: "r0 \<in> set (semantic_records d)" "sm_record_id r0 = ?k" using record_of_stored[OF r0(1)] by auto
  have "head_fact d r0 = Some ?pm" using v0 stored by (simp add: head_fact_def)
  then have "md_subject ?pm = sm_subject r0" "md_key ?pm = sm_fact_key r0"
    using ok stored r0 by (auto simp: facts_ok_def heads_match_def)
  then have rs: "sm_subject r = mu_subject m" "sm_fact_key r = mu_key m" using r sk by simp_all
  have fields: "md_subject meta = mu_subject m" "md_key meta = mu_key m" "md_conditions meta = mu_conditions m"
    by (simp_all add: meta mutation_metadata_def)
  have v: "rv_fact v = Some meta" "fact_scope r = (av_write_space_id view, av_label_set_digest view, mu_subject m, mu_key m)"
    using mh rs by (simp_all add: mutation_head_def fact_scope_def)
  have "head_ok d r v"
    unfolding head_ok_def
  proof (intro impI conjI allI ballI)
    fix y m' x
    assume y: "rv_fact v = Some y" and x: "x \<in> set (semantic_records d)"
      and a: "sm_status x = RecordStatusActive \<and> sm_record_id x \<noteq> sm_record_id r \<and> fact_scope x = fact_scope r \<and> head_fact d x = Some m'"
    have "\<not> ambiguous meta m'"
      by (rule guards_exclude_ambiguity[OF est fork exc fields x, of m']) (use a v adv r in auto)
    then show "\<not> ambiguous y m'" using y v by simp
  next
    assume act: "sm_status r = RecordStatusActive" and nf: "\<not> forgottenRecord d (sm_record_id r)"
    have "mu_transition m \<noteq> TransitionDeny" using mh act by (simp add: mutation_head_def)
    then show "record_lifecycle (fact_rows d (sm_record_id r) @ (case rv_fact v of None \<Rightarrow> [] | Some m \<Rightarrow> [fact_of_row v m]))"
      using advance_lifecycle[OF ok shape adv _ _ t] nf r by (simp add: v)
  qed (use v rs fields in simp_all)
  with ok new show ?thesis by (blast intro: facts_ok_new_head)
qed

lemma applyFactMutation_facts_ok:
  assumes ok: "facts_ok d" and shape: "mutation_shape m"
    and run: "applyFactMutation A now view src receiptID m (facts, rnd, d) = Inr (facts', rnd', d')"
  shows "facts_ok d'"
proof -
  obtain prior meta1 recordID revision rnd1 d1 where
    t: "(if mu_target_record_id m = [] then Inr (None, mutation_metadata src m)
       else rbind (check_target d view m (mutation_metadata src m)) (\<lambda>(prior, meta). Inr (Some prior, meta))) = Inr (prior, meta1)"
    and est: "check_establish d view m = Inr ()"
    and fork: "check_fork d view m (if mu_transition m = TransitionException then meta1\<lparr>md_related_record_id := mu_target_record_id m\<rparr> else meta1) = Inr ()"
    and exc: "check_exception d view m (if mu_transition m = TransitionException then meta1\<lparr>md_related_record_id := mu_target_record_id m\<rparr> else meta1) = Inr ()"
    and place: "place_fact now view m rnd d = Inr (recordID, revision, rnd1, d1)"
    and wr: "write_fact A now view m (if mu_transition m = TransitionException then meta1\<lparr>md_related_record_id := mu_target_record_id m\<rparr> else meta1)
      recordID revision (mutation_evidence m receiptID prior) receiptID d1 = Inr d'"
    using run unfolding applyFactMutation_def Let_def by (clarsimp elim!: run_elims)
  consider (establish) "mu_transition m = TransitionEstablish" | (exception) "mu_transition m = TransitionException" | (edit) "\<not> creates_record m"
    by blast
  then show ?thesis
  proof cases
    case establish
    then have "meta1 = mutation_metadata src m" using t shape by (simp add: mutation_shape_def)
    with establish est fork exc place wr show ?thesis
      by (intro creation_facts_ok[OF ok _ est _ _ _ _ _ _ _ _ place, of "mutation_metadata src m"]) (simp_all add: mutation_metadata_def)
  next
    case exception
    then have ne: "mu_target_record_id m \<noteq> []" using shape by (auto simp: mutation_shape_def)
    with t obtain p where ct: "check_target d view m (mutation_metadata src m) = Inr (p, meta1)" by (auto simp: result_simps)
    from ct obtain r0 v0 f u where r0: "record_of (mu_target_record_id m) d = Some r0" "revision_of (mu_target_record_id m) (sm_current_revision r0) d = Some v0"
        "rv_fact v0 = Some (fa_metadata p)"
      and rel: "md_related_record_id (fa_metadata p) \<noteq> [] \<Longrightarrow> mu_transition m = TransitionDeny \<or> mu_transition m = TransitionCorrect"
      and meta: "meta1 = (mutation_metadata src m)\<lparr>md_valid_from := f, md_valid_until := u, md_related_record_id :=
       (if md_related_record_id (fa_metadata p) = [] then md_related_record_id (mutation_metadata src m) else md_related_record_id (fa_metadata p))\<rparr>"
      by (rule check_target_InrE) blast
    have base: "md_related_record_id (fa_metadata p) = []" using rel exception by auto
    have "md_related_record_id m' = []" if "x \<in> set (semantic_records d)" "sm_record_id x = mu_target_record_id m" "head_fact d x = Some m'" for x m'
    proof -
      have "x = r0" using ok that record_of_stored[OF r0(1)] by (auto simp: facts_ok_def history_ok_def intro: find_id_unique[of sm_record_id])
      then show ?thesis using that r0 base by (simp add: head_fact_def)
    qed
    with exception ne est fork exc place wr show ?thesis
      by (intro creation_facts_ok[OF ok _ est _ _ _ _ _ _ _ _ place, of "meta1\<lparr>md_related_record_id := mu_target_record_id m\<rparr>"]) (auto simp: meta mutation_metadata_def)
  next
    case edit
    then have "mu_target_record_id m \<noteq> []" using shape by (auto simp: mutation_shape_def)
    with t obtain p where "check_target d view m (mutation_metadata src m) = Inr (p, meta1)" by (auto simp: result_simps)
    with edit est fork exc place wr show ?thesis by (intro edit_facts_ok[OF ok shape edit _ est _ _ place]) simp_all
  qed
qed

lemma mutations_facts_ok:
  assumes "facts_ok d" and "\<forall>m\<in>set ms. mutation_shape m"
    and "fold_res (applyFactMutation A now view src receiptID) ms (facts, rnd, d) = Inr (facts', rnd', d')"
  shows "facts_ok d'"
proof -
  have "facts_ok (snd (snd (facts', rnd', d')))"
    by (rule fold_res_invariant[OF assms(3), where P = "\<lambda>st. facts_ok (snd (snd st))"])
      (use assms(1,2) applyFactMutation_facts_ok in \<open>auto\<close>)
  then show ?thesis by simp
qed

section \<open>Submitting evidence keeps the invariant\<close>

lemma validated_mutations:
  assumes "validate_mutations s targets ms = Inr ()"
  shows "\<forall>m\<in>set ms. validate_mutation m = Inr ()"
  using assms by (induction ms arbitrary: targets) (auto simp: result_simps)

lemma canonical_shape:
  assumes "validate_submit r = Inr ()"
  shows "\<forall>m\<in>set (sub_mutations (canonical_submit r)). mutation_shape m"
proof -
  have "validate_mutations (sub_source r) [] (sub_mutations r) = Inr ()"
    using assms unfolding validate_submit_def by (elim run_elims) simp
  from validated_mutations[OF this] show ?thesis by (auto simp: canonical_submit_def intro: validated_shape)
qed

lemma admit_view:
  assumes "admit_evidence s A now view r receiptID token d = Inr d'"
  shows "facts_view d' = facts_view d"
  using assms unfolding admit_evidence_def insert_receipt_def insert_processing_def insert_cursor_def insert_evidence_source_def
    indexReceiptProjection_def Let_def
  by (elim run_elims) (auto simp: facts_view_def tbl_simps)

lemma organize_view:
  assumes "organize_evidence now view r receiptID d = Inr d'"
  shows "facts_view d' = facts_view d"
  using assms
  by (auto simp: organize_evidence_def enqueueStewardJob_def insert_job_def facts_view_def tbl_simps result_simps split: if_splits option.splits)

lemma change_view:
  assumes "recordMemoryChange now sp l k rc r d = Inr d'"
  shows "facts_view d' = facts_view d"
  using recordMemoryChange_tables[OF assms] by (auto simp: facts_view_def)

lemma submit_new_facts_ok:
  assumes "submit_new s A now rnd view r d = Inr (response, d')" and "facts_ok d" and "\<forall>m\<in>set (sub_mutations r). mutation_shape m"
  shows "facts_ok d'"
proof -
  obtain receiptID token rnd1 d1 facts rnd2 d2 d3 where
    a: "admit_evidence s A now view r receiptID token d = Inr d1"
    and m: "fold_res (applyFactMutation A now view (sub_source r) receiptID) (sub_mutations r) ([], rnd1, d1) = Inr (facts, rnd2, d2)"
    and o: "organize_evidence now view r receiptID d2 = Inr d3"
    and c: "recordMemoryChange now (av_write_space_id view) (av_label_set_digest view) ''evidence_accepted'' receiptID [] d3 = Inr d'"
    using assms(1) unfolding submit_new_def Let_def by (clarsimp elim!: run_elims)
  have "facts_ok d1" using facts_ok_cong[OF admit_view[OF a]] assms(2) by simp
  then have "facts_ok d2" using assms(3) m by (rule mutations_facts_ok)
  then show ?thesis using facts_ok_cong[OF organize_view[OF o]] facts_ok_cong[OF change_view[OF c]] by simp
qed

lemma submit_effect:
  assumes "SubmitEvidence s A now rnd out auth request d = (result, d')"
  obtains "d' = d" | view response where "validate_submit request = Inr ()" "authorize now d auth OperationRemember = Inr view"
    "submit_new s A now rnd view (canonical_submit request) d = Inr (response, d')"
    "source_of_key d view (sourceKey (sub_source request)) = None" "denying_policy d view (sub_source request) = None"
    "result = Inr response \<or> result = Inl submit_unknown"
proof (cases "rbind (requireMutableGeneration s) (\<lambda>_. submit_tx s A now rnd auth request d)")
  case (Inl e)
  then show thesis using assms that(1) by (simp add: SubmitEvidence_def)
next
  case (Inr a)
  obtain response n where a: "a = (response, n)" by (cases a)
  show thesis
  proof (cases n)
    case None
    then show thesis using assms that(1) Inr a by (simp add: SubmitEvidence_def)
  next
    case (Some d1)
    with Inr a have tx: "submit_tx s A now rnd auth request d = Inr (response, Some d1)" by (auto simp: result_simps)
    then obtain view where v: "validate_submit request = Inr ()" "authorize now d auth OperationRemember = Inr view"
      "submit_new s A now rnd view (canonical_submit request) d = Inr (response, d1)"
      "source_of_key d view (sourceKey (sub_source request)) = None" "denying_policy d view (sub_source request) = None"
      unfolding submit_tx_def Let_def
      by (elim run_elims) (auto simp: result_simps canonical_submit_def split: option.splits if_splits)
    have c: "(result, d') = commit_tx out submit_unknown d d1 response" using assms Inr a Some by (simp add: SubmitEvidence_def)
    show thesis
    proof (cases "d' = d1")
      case True
      then show thesis using c v by (intro that(2)[of view response]) (auto simp: commit_tx_def split: commit_outcome.splits)
    next
      case False
      then show thesis using c by (intro that(1)) (auto simp: commit_tx_def split: commit_outcome.splits)
    qed
  qed
qed

lemma SubmitEvidence_facts_ok:
  assumes "facts_ok d"
  shows "facts_ok (snd (SubmitEvidence s A now rnd out auth request d))"
proof -
  obtain result d' where r: "SubmitEvidence s A now rnd out auth request d = (result, d')" by (cases "SubmitEvidence s A now rnd out auth request d")
  from r show ?thesis
  proof (cases rule: submit_effect)
    case (2 view response)
    then show ?thesis using submit_new_facts_ok[OF 2(3) assms canonical_shape[OF 2(1)]] by (simp add: r)
  qed (simp add: r assms)
qed

end
