(* ===== verification/Evidence.thy ===== *)
theory Evidence
  imports Facts_Laws
begin

text \<open>
  The contract of \<open>SubmitEvidence\<close>: no accepted sequence of mutations leaves two current truths, the
  history of a fact names one truth per instant, a retry of a source has no second effect, and a
  source whose receipt was deleted stays suppressed.
\<close>

section \<open>One truth\<close>

text \<open>
  Claim C19. Facts do not fork and stay consistent. From a consistent fact store, whatever evidence
  is submitted and whatever becomes of its commit: no two active records of the same Space, label
  partition, subject and key hold confirmed facts that are ambiguous (two keyed base facts under the same
  conditions, or two exceptions to the same fact over overlapping intervals); the fact of an active
  head has the subject and the key of its record; the revisions of a record are numbered from 1 to
  its current one without gap or repetition, so the head is the newest; and the fact history of
  every active, unforgotten record is an ordered lifecycle: no denied entry, a confirmation only
  after a pending entry, each effective entry starting after the one before it, and a single
  effective entry where the newest one is an exception.
\<close>

theorem facts_never_fork:
  assumes "facts_ok d" and "d' = snd (SubmitEvidence s A now rnd out auth request d)"
  shows "(\<forall>r\<in>set (semantic_records d'). \<forall>r'\<in>set (semantic_records d'). \<forall>m m'.
       sm_status r = RecordStatusActive \<and> sm_status r' = RecordStatusActive \<and> fact_scope r = fact_scope r' \<and>
       head_fact d' r = Some m \<and> head_fact d' r' = Some m' \<and> ambiguous m m' \<longrightarrow> sm_record_id r = sm_record_id r') \<and>
    (\<forall>r\<in>set (semantic_records d'). \<forall>m. sm_status r = RecordStatusActive \<and> head_fact d' r = Some m \<longrightarrow>
       md_subject m = sm_subject r \<and> md_key m = sm_fact_key r) \<and>
    (\<forall>r\<in>set (semantic_records d'). revision_numbers d' (sm_record_id r) = {1..sm_current_revision r}) \<and>
    distinct (map (\<lambda>v. (rv_record_id v, rv_revision v)) (semantic_revisions d')) \<and>
    (\<forall>r\<in>set (semantic_records d'). sm_status r = RecordStatusActive \<and> \<not> forgottenRecord d' (sm_record_id r) \<longrightarrow>
       (let h = fact_rows d' (sm_record_id r) in
        (\<forall>i<length h. transition_of (h ! i) \<noteq> TransitionDeny) \<and>
        (\<forall>i. Suc i < length h \<and> transition_of (h ! Suc i) = TransitionConfirm \<longrightarrow>
           md_adoption (fa_metadata (h ! i)) = AdoptionPending) \<and>
        (\<forall>p. Suc p < length (effective h) \<longrightarrow>
           follows (onset (h ! (effective h ! p))) (onset (h ! (effective h ! Suc p)))) \<and>
        (h \<noteq> [] \<and> md_related_record_id (fa_metadata (last h)) \<noteq> [] \<longrightarrow> length (effective h) = 1)))"
proof -
  have ok: "unambiguous d'" "heads_match d'" "history_ok d'" "distinct (revision_keys d')" "lifecycles_ok d'"
    using SubmitEvidence_facts_ok[OF assms(1), of s A now rnd out auth request] assms(2) by (simp_all add: facts_ok_def)
  show ?thesis
  proof (intro conjI)
    show "\<forall>r\<in>set (semantic_records d'). \<forall>r'\<in>set (semantic_records d'). \<forall>m m'.
       sm_status r = RecordStatusActive \<and> sm_status r' = RecordStatusActive \<and> fact_scope r = fact_scope r' \<and>
       head_fact d' r = Some m \<and> head_fact d' r' = Some m' \<and> ambiguous m m' \<longrightarrow> sm_record_id r = sm_record_id r'"
      using ok(1) unfolding unambiguous_def by blast
  qed (use ok(2-) in \<open>simp_all add: heads_match_def history_ok_def revision_keys_def lifecycles_ok_def record_lifecycle_def
      lifecycle_ok_def Let_def\<close>)
qed


section \<open>Frames of a submission\<close>

lemma semantic_frame_more:
  assumes "semantic_frame d d'"
  shows "same_authority d d'" "ingestion_policies d' = ingestion_policies d" "receipt_tombstones d' = receipt_tombstones d"
proof -
  have sel: "f (erase_semantic d') = f (erase_semantic d)" for f :: "db \<Rightarrow> 'x"
    using assms by (simp add: semantic_frame_def)
  show "ingestion_policies d' = ingestion_policies d" using sel[of ingestion_policies] by (simp add: erase_semantic_def)
  show "receipt_tombstones d' = receipt_tombstones d" using sel[of receipt_tombstones] by (simp add: erase_semantic_def)
  show "same_authority d d'"
    using sel[of capabilities] sel[of capability_operations] sel[of grants] sel[of grant_operations] sel[of grant_audiences]
      sel[of views] sel[of view_read_spaces] sel[of spaces]
    by (simp add: same_authority_def erase_semantic_def)
qed

lemma write_fact_frame:
  assumes "write_fact A now view m meta recordID revision evidence receiptID d = Inr d'"
  shows "semantic_frame d d'"
proof -
  obtain v d1 d2 d3 tableName where
    1: "insert_revision v d = Some d1"
    and 2: "insert_op_evidence recordID revision (av_write_space_id view) evidence d1 = Inr d2"
    and 3: "(if md_adoption meta = AdoptionDenied then Inr (delete_semantic_projection tableName recordID d2)
       else of_opt (Errorf ''index semantic projection'') (indexSemanticProjection A tableName recordID revision (mu_text m) []
         (delete_semantic_projection tableName recordID d2))) = Inr d3"
    and 4: "recordMemoryChange now (av_write_space_id view) (av_label_set_digest view) (''fact_'' @ transition_text (mu_transition m))
      receiptID recordID d3 = Inr d'"
    using assms unfolding write_fact_def Let_def by (elim run_elims)
  have "semantic_frame d d1" using 1 by (auto simp: insert_revision_def tbl_simps semantic_frame_def erase_semantic_def)
  moreover have "semantic_frame d1 d2" using insert_op_evidence_tables[OF 2] by (auto simp: semantic_frame_def erase_semantic_def)
  moreover have "semantic_frame d2 d3"
    using 3 by (auto simp: indexSemanticProjection_def delete_semantic_projection_def result_simps semantic_frame_def erase_semantic_def split: if_splits)
  moreover have "semantic_frame d3 d'" using recordMemoryChange_tables[OF 4] by (auto simp: semantic_frame_def erase_semantic_def)
  ultimately show ?thesis by (metis semantic_frame_trans)
qed

lemma place_fact_frame:
  assumes "place_fact now view m rnd d = Inr (recordID, revision, rnd', d')"
  shows "semantic_frame d d'"
  using assms unfolding place_fact_def Let_def
  by (auto simp: insert_record_def tbl_simps split: if_splits elim!: run_elims)

lemma applyFactMutation_frame:
  assumes "applyFactMutation A now view src receiptID m (facts, rnd, d) = Inr (facts', rnd', d')"
  shows "semantic_frame d d'"
proof -
  obtain recordID revision rnd1 d1 meta evidence where place: "place_fact now view m rnd d = Inr (recordID, revision, rnd1, d1)"
    and wr: "write_fact A now view m meta recordID revision evidence receiptID d1 = Inr d'"
    using assms unfolding applyFactMutation_def Let_def by (clarsimp elim!: run_elims)
  from place_fact_frame[OF place] write_fact_frame[OF wr] show ?thesis by (rule semantic_frame_trans)
qed

lemma mutations_frame:
  assumes "fold_res (applyFactMutation A now view src receiptID) ms (facts, rnd, d) = Inr (facts', rnd', d')"
  shows "semantic_frame d d'"
proof -
  have "semantic_frame d (snd (snd (facts', rnd', d')))"
    by (rule fold_res_invariant[OF assms, where P = "\<lambda>st. semantic_frame d (snd (snd st))"])
      (auto dest!: applyFactMutation_frame elim!: semantic_frame_trans)
  then show ?thesis by simp
qed

text \<open>What a new submission leaves in the tables a retry reads.\<close>

lemma admit_tables:
  assumes "admit_evidence s A now view r receiptID token d = Inr d'"
  shows "\<exists>row. tbl_insert clash_receipt row (receipts d) = Some (receipts d') \<and> rt_receipt_id row = receiptID \<and>
      rt_consistency_token row = token \<and> rt_text row = sub_text r \<and> rt_space_id row = av_write_space_id view \<and>
      rt_label_set_digest row = av_label_set_digest view"
    and "\<exists>e. evidence_sources d' = evidence_sources d @ [e] \<and> e = \<lparr>es_space_id = av_write_space_id view,
         es_label_set_digest = av_label_set_digest view, es_source_key = sourceKey (sub_source r), es_receipt_id = receiptID,
         es_source = Some (sub_source r), es_request_digest = submit_digest r, es_suppressed = False\<rparr> \<and>
         (\<forall>x\<in>set (evidence_sources d). \<not> clash_source e x)"
    and "same_authority d d'" "ingestion_policies d' = ingestion_policies d"
  using assms unfolding admit_evidence_def insert_receipt_def insert_processing_def insert_cursor_def insert_evidence_source_def
    indexReceiptProjection_def Let_def
  by (elim run_elims; auto simp: tbl_simps same_authority_def remember_row_def legacy_request_def)+

lemma organize_frame:
  assumes "organize_evidence now view r receiptID d = Inr d'"
  shows "receipts d' = receipts d" "evidence_sources d' = evidence_sources d" "same_authority d d'" "ingestion_policies d' = ingestion_policies d"
  using assms
  by (auto simp: organize_evidence_def enqueueStewardJob_def insert_job_def same_authority_def tbl_simps result_simps split: if_splits option.splits)

lemma change_frame:
  assumes "recordMemoryChange now sp l k rc r d = Inr d'"
  shows "receipts d' = receipts d" "evidence_sources d' = evidence_sources d" "same_authority d d'" "ingestion_policies d' = ingestion_policies d"
    "sourceOrganization d' x = sourceOrganization d x"
proof -
  obtain c where d': "d' = d\<lparr>memory_changes := memory_changes d @ [c], memory_changes_seq := memory_changes_seq d + 1\<rparr>"
    using recordMemoryChange_tables[OF assms] by blast
  show "receipts d' = receipts d" "evidence_sources d' = evidence_sources d" "same_authority d d'" "ingestion_policies d' = ingestion_policies d"
    by (simp_all add: d' same_authority_def)
  have "processing_of x d' = processing_of x d" "steward_jobs d' = steward_jobs d" by (simp_all add: d' processing_of_def)
  then show "sourceOrganization d' x = sourceOrganization d x" by (simp add: sourceOrganization_def split: option.split)
qed

definition evidence_stored :: "authorized_view \<Rightarrow> submit_request \<Rightarrow> evidence_source_row \<Rightarrow> db \<Rightarrow> bool" where
  "evidence_stored view r prior d \<longleftrightarrow> source_of_key d view (sourceKey (sub_source r)) = Some prior \<and> \<not> es_suppressed prior \<and>
     es_request_digest prior = submit_digest (canonical_submit r) \<and> denying_policy d view (sub_source r) = None \<and> av_write_space_id view \<noteq> []"

lemma canonical_source [simp]: "sub_source (canonical_submit r) = sub_source r"
  by (simp add: canonical_submit_def)

lemma submit_new_stored:
  assumes run: "submit_new s A now rnd view (canonical_submit r) d = Inr (response, d')"
    and none: "source_of_key d view (sourceKey (sub_source r)) = None" and pol: "denying_policy d view (sub_source r) = None"
    and w: "av_write_space_id view \<noteq> []"
  obtains prior row where "evidence_stored view r prior d'" "same_authority d d'" "es_receipt_id prior = sbr_receipt_id response"
    "receipt_of (sbr_receipt_id response) d' = Some row" "rt_consistency_token row = sbr_consistency_token response"
    "sourceOrganization d' (sbr_receipt_id response) = Inr (sbr_organization response)" "rt_text row = sub_text r"
    "rt_space_id row = av_write_space_id view" "rt_label_set_digest row = av_label_set_digest view"
    "sbr_accepted response" "\<not> sbr_deduplicated response" "receipts d' = receipts d @ [row]"
proof -
  obtain receiptID token rnd1 d1 facts rnd2 d2 d3 where
    a: "admit_evidence s A now view (canonical_submit r) receiptID token d = Inr d1"
    and m: "fold_res (applyFactMutation A now view (sub_source r) receiptID) (sub_mutations (canonical_submit r)) ([], rnd1, d1) = Inr (facts, rnd2, d2)"
    and o: "organize_evidence now view (canonical_submit r) receiptID d2 = Inr d3"
    and org: "sourceOrganization d3 receiptID = Inr (sbr_organization response)"
    and c: "recordMemoryChange now (av_write_space_id view) (av_label_set_digest view) ''evidence_accepted'' receiptID [] d3 = Inr d'"
    and resp: "sbr_accepted response" "\<not> sbr_deduplicated response" "sbr_receipt_id response = receiptID" "sbr_consistency_token response = token"
    using run unfolding submit_new_def Let_def by (clarsimp elim!: run_elims)
  note f = mutations_frame[OF m]
  note fm = semantic_frameD[OF f] semantic_frame_more[OF f] and fo = organize_frame[OF o] and fc = change_frame[OF c]
  have recs: "receipts d' = receipts d1" "evidence_sources d' = evidence_sources d1" "ingestion_policies d' = ingestion_policies d1"
    using fm fo fc by simp_all
  have auth: "same_authority d d'" using admit_tables(3)[OF a] fm(12) fo(3) fc(3) by (meson same_authority_trans)
  from admit_tables(1)[OF a] obtain row where row: "tbl_insert clash_receipt row (receipts d) = Some (receipts d')" "rt_receipt_id row = receiptID"
      "rt_consistency_token row = token" "rt_text row = sub_text r" "rt_space_id row = av_write_space_id view" "rt_label_set_digest row = av_label_set_digest view"
    by (auto simp: recs canonical_submit_def)
  have rof: "receipt_of receiptID d' = Some row" using receipt_key.find_inserted[OF row(1)] row(2) by (simp add: receipt_of_def)
  from admit_tables(2)[OF a] obtain e where e: "evidence_sources d' = evidence_sources d @ [e]" "es_space_id e = av_write_space_id view"
      "es_label_set_digest e = av_label_set_digest view" "es_source_key e = sourceKey (sub_source r)" "es_receipt_id e = receiptID"
      "es_request_digest e = submit_digest (canonical_submit r)" "\<not> es_suppressed e"
    by (auto simp: recs)
  have "source_of_key d' view (sourceKey (sub_source r)) = Some e" using none e by (simp add: source_of_key_def)
  moreover have "denying_policy d' view (sub_source r) = None" using pol admit_tables(4)[OF a] by (simp add: denying_policy_def recs)
  ultimately have "evidence_stored view r e d'" using e w by (simp add: evidence_stored_def)
  moreover have "receipts d' = receipts d @ [row]" using row(1) by (simp add: tbl_insert_Some)
  ultimately show thesis using that[of e row] auth e(5) rof row resp org fc(5) by simp
qed

section \<open>Retries\<close>

lemma revision_of_key:
  assumes "distinct (revision_keys d)" and "v \<in> set (semantic_revisions d)"
  shows "revision_of (rv_record_id v) (rv_revision v) d = Some v"
  using plain_key.find_key[of "\<lambda>v. (rv_record_id v, rv_revision v)" "semantic_revisions d" v] assms
  by (simp add: revision_of_def revision_keys_def)

lemma factsForReceipt_total:
  assumes "distinct (revision_keys d)"
  shows "\<exists>fs. factsForReceipt d receiptID = Inr fs"
proof -
  have read: "\<exists>f. readFactRevision d k n = Inr f" if "(k, n) \<in> set (receipt_fact_refs d receiptID)" for k n
    using that revision_of_key[OF assms] by (auto simp: receipt_fact_refs_def readFactRevision_def)
  have "\<exists>fs. fold_res (\<lambda>(recordID, revision) facts. if forgottenRecord d recordID then Inr facts
        else rbind (readFactRevision d recordID revision) (\<lambda>f. Inr (facts @ [f]))) refs acc = Inr fs"
    if "set refs \<subseteq> set (receipt_fact_refs d receiptID)" for refs acc
    using that
  proof (induction refs arbitrary: acc)
    case (Cons x refs)
    obtain k n where x: "x = (k, n)" by (cases x)
    with Cons.prems obtain f where "readFactRevision d k n = Inr f" using read[of k n] by auto
    then show ?case using Cons by (simp add: x)
  qed simp
  then show ?thesis by (simp add: factsForReceipt_def)
qed

lemma submit_replays:
  assumes "validate_submit r = Inr ()" "requireMutableGeneration s = Inr ()" "authorize now d auth OperationRemember = Inr view"
    and "evidence_stored view r prior d" and "deduplicated_submit d prior = Inr response"
  shows "SubmitEvidence s A now rnd out auth r d = (Inr response, d)"
proof -
  have "submit_tx s A now rnd auth r d = Inr (response, None)"
    using assms by (simp add: submit_tx_def evidence_stored_def Let_def)
  then show ?thesis using assms(2) by (simp add: SubmitEvidence_def)
qed

lemma submit_accepted:
  assumes run: "SubmitEvidence s A now rnd out auth request d = (result, d')"
    and acc: "d' \<noteq> d \<or> (\<exists>r0. result = Inr r0 \<and> sbr_accepted r0)"
  obtains view prior response0 where "validate_submit request = Inr ()" "authorize now d auth OperationRemember = Inr view" "same_authority d d'"
    "evidence_stored view request prior d'" "es_receipt_id prior = sbr_receipt_id response0" "\<And>r0. result = Inr r0 \<Longrightarrow> r0 = response0"
    "\<exists>row. receipt_of (sbr_receipt_id response0) d' = Some row \<and> rt_consistency_token row = sbr_consistency_token response0"
    "\<exists>o'. sourceOrganization d' (sbr_receipt_id response0) = Inr o'"
proof (cases "rbind (requireMutableGeneration s) (\<lambda>_. submit_tx s A now rnd auth request d)")
  case (Inl e)
  then show thesis using run acc by (auto simp: SubmitEvidence_def)
next
  case (Inr a)
  obtain response n where a: "a = (response, n)" by (cases a)
  with Inr have tx: "submit_tx s A now rnd auth request d = Inr (response, n)" by (auto simp: result_simps)
  from tx obtain view where v: "validate_submit request = Inr ()" "authorize now d auth OperationRemember = Inr view" "av_write_space_id view \<noteq> []"
    unfolding submit_tx_def Let_def by (elim run_elims) simp
  show thesis
  proof (cases n)
    case None
    with run Inr a have r: "result = Inr response" "d' = d" by (simp_all add: SubmitEvidence_def)
    with acc have "sbr_accepted response" by simp
    with tx v None obtain prior where p: "source_of_key d view (sourceKey (sub_source request)) = Some prior" "\<not> es_suppressed prior"
        "es_request_digest prior = submit_digest (canonical_submit request)" "denying_policy d view (sub_source request) = None"
        "deduplicated_submit d prior = Inr response"
      unfolding submit_tx_def Let_def
      by (elim run_elims) (auto simp: result_simps submit_refused_def split: option.splits if_splits)
    from p(5) have q: "sbr_receipt_id response = es_receipt_id prior"
      "\<exists>row. receipt_of (es_receipt_id prior) d = Some row \<and> rt_consistency_token row = sbr_consistency_token response"
      "\<exists>o'. sourceOrganization d (es_receipt_id prior) = Inr o'"
      unfolding deduplicated_submit_def by (elim run_elims; simp)+
    show thesis
      by (rule that[OF v(1,2) _ _ _ _ , of prior response]) (use p q r v in \<open>simp_all add: evidence_stored_def same_authority_def\<close>)
  next
    case (Some d1)
    have c: "(result, d') = commit_tx out submit_unknown d d1 response" using run Inr a Some by (simp add: SubmitEvidence_def)
    then have d': "d' = d1" and r: "\<And>r0. result = Inr r0 \<Longrightarrow> r0 = response"
      using acc by (auto simp: commit_tx_def split: commit_outcome.splits)
    from tx v Some d' have n: "submit_new s A now rnd view (canonical_submit request) d = Inr (response, d')"
      "source_of_key d view (sourceKey (sub_source request)) = None" "denying_policy d view (sub_source request) = None"
      unfolding submit_tx_def Let_def
      by (elim run_elims; auto simp: result_simps split: option.splits if_splits)+
    from submit_new_stored[OF n v(3)] obtain prior row where
      "evidence_stored view request prior d'" "same_authority d d'" "es_receipt_id prior = sbr_receipt_id response"
      "receipt_of (sbr_receipt_id response) d' = Some row" "rt_consistency_token row = sbr_consistency_token response"
      "sourceOrganization d' (sbr_receipt_id response) = Inr (sbr_organization response)" .
    then show thesis using v r by (intro that[of view prior response]) auto
  qed
qed

text \<open>
  A source has one effect. If a submission was accepted, or its answer was lost but the
  database changed, then submitting the same request again, at any later time, with any process state
  and random bytes, is accepted as a duplicate of the same receipt and changes nothing.
\<close>

theorem submit_retry_idempotent:
  assumes ok: "facts_ok d" and run: "SubmitEvidence s A now rnd out auth request d = (result, d')"
    and acc: "d' \<noteq> d \<or> (\<exists>r0. result = Inr r0 \<and> sbr_accepted r0)"
    and later: "authorize now' d' auth OperationRemember = Inr view'" "requireMutableGeneration s' = Inr ()"
  shows "\<exists>r. SubmitEvidence s' A' now' rnd' out' auth request d' = (Inr r, d') \<and> sbr_accepted r \<and> sbr_deduplicated r \<and>
    (\<forall>r0. result = Inr r0 \<longrightarrow> sbr_receipt_id r = sbr_receipt_id r0 \<and> sbr_consistency_token r = sbr_consistency_token r0)"
proof -
  obtain view prior response0 where v: "validate_submit request = Inr ()" "authorize now d auth OperationRemember = Inr view" "same_authority d d'"
    "evidence_stored view request prior d'" "es_receipt_id prior = sbr_receipt_id response0"
    and r0: "\<And>r0. result = Inr r0 \<Longrightarrow> r0 = response0"
    and st: "\<exists>row. receipt_of (sbr_receipt_id response0) d' = Some row \<and> rt_consistency_token row = sbr_consistency_token response0"
    "\<exists>o'. sourceOrganization d' (sbr_receipt_id response0) = Inr o'"
    by (rule submit_accepted[OF run acc]) blast
  have "facts_ok d'" using SubmitEvidence_facts_ok[OF ok, of s A now rnd out auth request] run by simp
  then obtain fs where "factsForReceipt d' (sbr_receipt_id response0) = Inr fs"
    using factsForReceipt_total by (auto simp: facts_ok_def)
  with st obtain r where r: "deduplicated_submit d' prior = Inr r" "sbr_accepted r" "sbr_deduplicated r" "sbr_receipt_id r = sbr_receipt_id response0"
    "sbr_consistency_token r = sbr_consistency_token response0"
    by (auto simp: deduplicated_submit_def v(5))
  have "authorize now d' auth OperationRemember = Inr view" using v(2) authorize_frame[OF v(3)] by simp
  with later have "view' = view" by (intro authorize_time_irrelevant)
  with submit_replays[OF v(1) later(2) later(1), of prior r A' rnd' out'] v(4) r show ?thesis using r0 by auto
qed

section \<open>A concrete submission\<close>

definition demo_source :: source where
  "demo_source = \<lparr>src_producer = ''host'', src_event_id = ''e'', src_revision = ''1'', src_fragment = ''0'',
     src_subject = ''me'', src_fact_key = [], src_role = RoleConfirmation\<rparr>"

definition demo_mutation :: mutation where
  "demo_mutation = \<lparr>mu_transition = TransitionEstablish, mu_target_record_id = [], mu_expected_revision = 0, mu_subject = ''me'',
     mu_key = ''diet'', mu_text = ''vegan'', mu_valid_from = None, mu_valid_until = None, mu_conditions = []\<rparr>"

definition demo_submit :: submit_request where
  "demo_submit = \<lparr>sub_source = demo_source, sub_text = ''hi'', sub_occurred_at = None, sub_idempotency_key = ''k'',
     sub_mutations = [demo_mutation]\<rparr>"

definition demo_facts :: db where
  "demo_facts = demo_private\<lparr>semantic_space_indexes := [(''s'', semanticSpaceIndexTable ''s'')]\<rparr>"

lemma trim_space_Nil [simp]: "trim_space [] = []"
  by (simp add: trim_space_def)

lemma demo_submit_valid: "validate_submit demo_submit = Inr ()"
  by (simp add: validate_submit_def safelyValidateEvidence_def validate_source_def validate_mutation_def bounded_def contains_any_def
      demo_submit_def demo_source_def demo_mutation_def MaxMutations_def zero_time_def validate_remember_def maxRememberTextBytes_def
      maxIdempotencyBytes_def no_source_def validate_source_context_def validate_scalar_def maxSourceScalarBytes_def
      maxSourceLabels_def json_source_context_def omit_str_def maxSourceContextBytes_def text_eval)

lemma demo_facts_ok: "facts_ok demo_facts"
  by (simp add: demo_facts_def demo_defs facts_ok_def history_ok_def revision_numbers_def revision_keys_def heads_match_def
      unambiguous_def lifecycles_ok_def)

lemma demo_submit_auth:
  assumes "now < 50"
  shows "authorize now demo_facts (demo_auth AudiencePrivate) OperationRemember = Inr (demo_view SpaceClassPrivate)"
  using assms
  by (simp add: authorize_def demo_facts_def demo_defs grant_of_def view_of_def readSpaceScope_def space_of_def read_view_spaces_def Let_def)

lemma demo_projects: "\<exists>p. projectLexical demo_analyzer text [] = Some p"
  by (simp add: projectLexical_def demo_analyzer_def)

lemma demo_submit_new:
  "\<exists>response d'. submit_new demo_store demo_analyzer 5 (replicate 56 CHR ''x'') (demo_view SpaceClassPrivate) (canonical_submit demo_submit) demo_facts
     = Inr (response, d') \<and> (\<exists>r. semantic_records d' = [r] \<and> sm_status r = RecordStatusActive \<and>
       head_fact d' r = Some (mutation_metadata demo_source demo_mutation) \<and>
       (\<exists>f. factTimeline d' (sm_record_id r) = [f] \<and> adopted_at 0 f))"
proof -
  obtain p1 p2 where p: "projectLexical demo_analyzer ''hi'' [] = Some p1" "projectLexical demo_analyzer ''vegan'' [] = Some p2"
    using demo_projects by metis
  show ?thesis
    by (simp add: submit_new_def canonical_submit_def demo_submit_def demo_source_def demo_mutation_def demo_facts_def demo_defs occupied_def
      randomHex_def randomToken_def read_random_def admit_evidence_def insert_receipt_def insert_into_def tbl_insert_def remember_row_def
      legacy_request_def insert_processing_def accepted_processing_def insert_cursor_def has_space_def insert_evidence_source_def
      readSpaceIndex_def indexReceiptProjection_def p applyFactMutation_def mutation_metadata_def check_establish_def fact_heads_def
      decode_heads_def check_fork_def check_exception_def place_fact_def insert_record_def write_fact_def insert_revision_def
      mutation_evidence_def insert_op_evidence_def insert_evidence_def readSemanticSpaceIndex_def delete_semantic_projection_def
      indexSemanticProjection_def recordMemoryChange_def insert_change_def readFactRevision_def revision_of_def organize_evidence_def
      sourceOrganization_def processing_of_def List.map_filter_def clash_on_def tbl_delete_def Let_def head_fact_def
      factTimeline_def forgottenRecord_def record_barriers_def fact_rows_def fact_of_row_def resolve_timeline_def adopted_at_def)
qed

definition demo_submitted :: "commit_outcome \<Rightarrow> (error + submit_response) \<times> db" where
  "demo_submitted out = SubmitEvidence demo_store demo_analyzer 5 (replicate 56 CHR ''x'') out (demo_auth AudiencePrivate) demo_submit demo_facts"

lemma demo_submit_run:
  obtains response d' r f where "demo_submitted Committed = (Inr response, d')" "demo_submitted CommitErrorApplied = (Inl submit_unknown, d')"
    "semantic_records d' = [r]" "sm_status r = RecordStatusActive" "head_fact d' r = Some (mutation_metadata demo_source demo_mutation)"
    "factTimeline d' (sm_record_id r) = [f]" "adopted_at 0 f" "same_authority demo_facts d'"
proof -
  obtain response d' r f where n: "submit_new demo_store demo_analyzer 5 (replicate 56 CHR ''x'') (demo_view SpaceClassPrivate) (canonical_submit demo_submit) demo_facts
     = Inr (response, d')" and r: "semantic_records d' = [r]" "sm_status r = RecordStatusActive"
    "head_fact d' r = Some (mutation_metadata demo_source demo_mutation)" "factTimeline d' (sm_record_id r) = [f]" "adopted_at 0 f"
    using demo_submit_new by blast
  have none: "source_of_key demo_facts (demo_view SpaceClassPrivate) (sourceKey (sub_source demo_submit)) = None"
    "denying_policy demo_facts (demo_view SpaceClassPrivate) (sub_source demo_submit) = None" "av_write_space_id (demo_view SpaceClassPrivate) \<noteq> []"
    by (simp_all add: source_of_key_def denying_policy_def demo_facts_def demo_defs)
  have tx: "submit_tx demo_store demo_analyzer 5 (replicate 56 CHR ''x'') (demo_auth AudiencePrivate) demo_submit demo_facts = Inr (response, Some d')"
    using demo_submit_valid demo_submit_auth[of 5] none n by (simp add: submit_tx_def Let_def)
  have "requireMutableGeneration demo_store = Inr ()" by (simp add: requireMutableGeneration_def demo_store_def)
  with tx have "demo_submitted Committed = (Inr response, d')" "demo_submitted CommitErrorApplied = (Inl submit_unknown, d')"
    by (simp_all add: demo_submitted_def SubmitEvidence_def commit_tx_def)
  moreover have "same_authority demo_facts d'" by (rule submit_new_stored[OF n none]) simp
  ultimately show thesis using r by (intro that)
qed

theorem facts_never_fork_witness:
  "\<exists>r\<in>set (semantic_records (snd (demo_submitted Committed))). sm_status r = RecordStatusActive \<and>
     (\<forall>r'\<in>set (semantic_records (snd (demo_submitted Committed))). \<forall>m'. sm_status r' = RecordStatusActive \<and>
        head_fact (snd (demo_submitted Committed)) r' = Some m' \<and> fact_scope r = fact_scope r' \<and>
        ambiguous (mutation_metadata demo_source demo_mutation) m' \<longrightarrow> sm_record_id r = sm_record_id r') \<and>
     ambiguous (mutation_metadata demo_source demo_mutation) (mutation_metadata demo_source demo_mutation)"
proof -
  obtain response d' r f where d: "demo_submitted Committed = (Inr response, d')" "semantic_records d' = [r]" "sm_status r = RecordStatusActive"
    "head_fact d' r = Some (mutation_metadata demo_source demo_mutation)" by (rule demo_submit_run)
  have snd: "d' = snd (SubmitEvidence demo_store demo_analyzer 5 (replicate 56 CHR ''x'') Committed (demo_auth AudiencePrivate) demo_submit demo_facts)"
    using d(1) by (simp add: demo_submitted_def)
  have "ambiguous (mutation_metadata demo_source demo_mutation) (mutation_metadata demo_source demo_mutation)"
    by (simp add: ambiguous_def mutation_metadata_def demo_source_def demo_mutation_def)
  moreover have "\<forall>r'\<in>set (semantic_records d'). \<forall>m'. sm_status r' = RecordStatusActive \<and> head_fact d' r' = Some m' \<and> fact_scope r = fact_scope r' \<and>
        ambiguous (mutation_metadata demo_source demo_mutation) m' \<longrightarrow> sm_record_id r = sm_record_id r'"
    using conjunct1[OF facts_never_fork[OF demo_facts_ok snd]] d(2-4) by simp
  ultimately show ?thesis using d by simp
qed


text \<open>The first commit succeeds but its answer is lost; the retry is a duplicate.\<close>

theorem submit_retry_idempotent_witness:
  "\<exists>d' r. demo_submitted CommitErrorApplied = (Inl submit_unknown, d') \<and> length (semantic_records d') = 1 \<and>
     SubmitEvidence demo_store demo_analyzer 6 [] Committed (demo_auth AudiencePrivate) demo_submit d' = (Inr r, d') \<and> sbr_deduplicated r"
proof -
  obtain d' r where d: "demo_submitted CommitErrorApplied = (Inl submit_unknown, d')" "semantic_records d' = [r]" "same_authority demo_facts d'"
    by (rule demo_submit_run)
  have ne: "d' \<noteq> demo_facts" using d(2) by (auto simp: demo_facts_def demo_defs)
  have a: "authorize 6 d' (demo_auth AudiencePrivate) OperationRemember = Inr (demo_view SpaceClassPrivate)"
    using authorize_frame[OF d(3)] demo_submit_auth[of 6] by simp
  have g: "requireMutableGeneration demo_store = Inr ()" by (simp add: requireMutableGeneration_def demo_store_def)
  from submit_retry_idempotent[OF demo_facts_ok d(1)[unfolded demo_submitted_def] disjI1[OF ne] a g] d show ?thesis by fastforce
qed

end
