(* ===== verification/Facts_Read.thy ===== *)
theory Facts_Read
  imports Evidence
begin

text \<open>
  Reading facts, \<open>facts_read.go\<close> and \<open>facts_changes.go\<close>: \<open>ReadFacts\<close> selects per record the revision
  adopted at an instant, resolves exceptions and conditions, ranks and cuts to the caller's budget;
  \<open>FactHistory\<close> pages through the timeline of one record and \<open>Changes\<close> through the change log.

  A Go map of host context is an association list. The random iteration order of the group map does
  not show: the result is sorted by rank, Space, key and record. Ranks are rationals.
\<close>

section \<open>Requests and answers\<close>

record fact_budget =
  bg_max_facts :: int
  bg_max_bytes :: int

record read_request =
  rr_subject :: string
  rr_key :: string
  rr_query :: string
  rr_as_of :: "instant option"
  rr_context :: "(string \<times> string) list"
  rr_budget :: fact_budget

record history_request =
  hr_subject :: string
  hr_record_id :: string
  hr_after_revision :: nat
  hr_budget :: fact_budget

record fact_cursor =
  fcu_generation :: string
  fcu_scope :: string
  fcu_sequence :: nat

record read_response =
  rd_facts :: "fact_rev list"
  rd_background :: string
  rd_cursor :: fact_cursor
  rd_refresh_at :: "instant option"
  rd_truncated :: bool
  rd_bytes_used :: int
  rd_next_revision :: nat

definition validate_fact_budget :: "fact_budget \<Rightarrow> string + unit" where
  "validate_fact_budget b =
    guard (1 \<le> bg_max_facts b \<and> bg_max_facts b \<le> 64 \<and> 512 \<le> bg_max_bytes b \<and> bg_max_bytes b \<le> 1048576)
      ''budget requires 1..64 facts and 512..1048576 bytes''"

definition validate_read :: "read_request \<Rightarrow> string + unit" where
  "validate_read r =
    rbind (guard (bounded (rr_subject r) 256 True \<and> bounded (rr_key r) 128 False \<and> valid_utf8 (rr_query r) \<and>
        length (rr_query r) \<le> 4096) ''invalid subject, key or query'') (\<lambda>_.
    rbind (guard (rr_as_of r \<noteq> Some zero_time) ''zero as_of is invalid'') (\<lambda>_.
    rbind (guard (length (rr_context r) \<le> 8) ''at most 8 context values'') (\<lambda>_.
    rbind (guard (list_all (\<lambda>(k, v). bounded k 128 True \<and> bounded v 256 True) (rr_context r)) ''invalid exact context'') (\<lambda>_.
    validate_fact_budget (rr_budget r)))))"

definition validate_history :: "history_request \<Rightarrow> string + unit" where
  "validate_history r =
    rbind (guard (bounded (hr_subject r) 256 True \<and> bounded (hr_record_id r) 256 True) ''subject and record required'') (\<lambda>_.
    validate_fact_budget (hr_budget r))"

section \<open>JSON of a fact\<close>

definition json_metadata :: "metadata \<Rightarrow> json" where
  "json_metadata m = JObj
    ([(''subject'', JStr (md_subject m))] @ omit_str ''key'' (md_key m) @ [(''adoption'', JStr (adoption_text (md_adoption m)))] @
     omit_time ''valid_from'' (md_valid_from m) @ omit_time ''valid_until'' (md_valid_until m) @
     omit_arr ''conditions'' (map json_condition (md_conditions m)) @
     [(''transition'', JStr (transition_text (md_transition m)))] @ omit_str ''related_record_id'' (md_related_record_id m))"

definition json_evidence :: "fact_evidence \<Rightarrow> json" where
  "json_evidence e = JObj ([(''receipt_id'', JStr (fe_receipt_id e))] @
     (case fe_source e of None \<Rightarrow> [] | Some s \<Rightarrow> [(''source'', json_source s)]))"

definition json_fact :: "fact_rev \<Rightarrow> json" where
  "json_fact f = JObj
    ([(''record_id'', JStr (fa_record_id f)), (''revision'', JInt (int (fa_revision f))), (''space_id'', JStr (fa_space_id f)),
      (''text'', JStr (fa_text f)), (''metadata'', json_metadata (fa_metadata f)),
      (''evidence'', if fa_evidence f = [] then JNull else JArr (map json_evidence (fa_evidence f)))] @
     omit_str ''historical_state'' (fa_historical_state f))"

definition encoded_facts :: "fact_rev list \<Rightarrow> string" where
  "encoded_facts fs = json_encode (JArr (map json_fact fs))"

section \<open>Aliases and ranks\<close>

definition controlledFactAliases :: "(string \<times> string list) list" where
  "controlledFactAliases =
    [(''preference.drink'', [''coffee'', ''tea'', [CHR 0xE5, CHR 0x92, CHR 0x96, CHR 0xE5, CHR 0x95, CHR 0xA1],
        [CHR 0xE8, CHR 0x8C, CHR 0xB6], [CHR 0xE9, CHR 0xA5, CHR 0xAE, CHR 0xE5, CHR 0x93, CHR 0x81],
        [CHR 0xE9, CHR 0xA5, CHR 0xAE, CHR 0xE6, CHR 0x96, CHR 0x99], ''beverage'', ''drink'']),
     (''diet'', [''diet'', ''vegetarian'', [CHR 0xE7, CHR 0xB4, CHR 0xA0, CHR 0xE9, CHR 0xA3, CHR 0x9F],
        [CHR 0xE9, CHR 0xA5, CHR 0xAE, CHR 0xE9, CHR 0xA3, CHR 0x9F]]),
     (''language'', [''language'', [CHR 0xE8, CHR 0xAF, CHR 0xAD, CHR 0xE8, CHR 0xA8, CHR 0x80],
        [CHR 0xE4, CHR 0xB8, CHR 0xAD, CHR 0xE6, CHR 0x96, CHR 0x87], ''english'']),
     (''timezone'', [''timezone'', ''time zone'', [CHR 0xE6, CHR 0x97, CHR 0xB6, CHR 0xE5, CHR 0x8C, CHR 0xBA]])]"

definition string_index :: "string \<Rightarrow> string \<Rightarrow> nat option" where
  "string_index s sub = List.find (\<lambda>i. starts_with sub (drop i s)) [0..<Suc (length s)]"

definition word_byte :: "char \<Rightarrow> bool" where
  "word_byte b \<longleftrightarrow> (CHR ''a'' \<le> b \<and> b \<le> CHR ''z'') \<or> (CHR ''0'' \<le> b \<and> b \<le> CHR ''9'') \<or> b = CHR ''_''"

definition whole_word_at :: "string \<Rightarrow> nat \<Rightarrow> nat \<Rightarrow> bool" where
  "whole_word_at query i n \<longleftrightarrow> (i = 0 \<or> \<not> word_byte (query ! (i - 1))) \<and> (n = length query \<or> \<not> word_byte (query ! n))"

function alias_from :: "string \<Rightarrow> string \<Rightarrow> nat \<Rightarrow> bool" where
  "alias_from query alias offset =
    (if offset < length query then
       (case string_index (drop offset query) alias of
          None \<Rightarrow> False
        | Some k \<Rightarrow> whole_word_at query (k + offset) (k + offset + length alias) \<or> alias_from query alias (k + offset + 1))
     else False)"
  by pat_completeness auto
termination by (relation "measure (\<lambda>(query, alias, offset). length query - offset)") auto

declare alias_from.simps [simp del]

definition matchesFactAlias :: "string \<Rightarrow> string \<Rightarrow> bool" where
  "matchesFactAlias query alias =
    (if list_ex (\<lambda>r. r > 127) (runes_of alias) then contains_string query alias else alias_from query alias 0)"

definition factQueryRank :: "analyzer \<Rightarrow> string \<Rightarrow> fact_rev \<Rightarrow> rat option" where
  "factQueryRank A query f =
    (if trim_space query = [] then Some 0
     else let q = to_lower A (trim_space query); key = to_lower A (md_key (fa_metadata f)) in
       if q = key \<and> key \<noteq> [] then Some (- 100)
       else if list_ex (\<lambda>(k, aliases). key = k \<and> list_ex (matchesFactAlias q) aliases) controlledFactAliases then Some (- 50)
       else lexicalRank A query (fa_text f @ '' '' @ md_key (fa_metadata f)) [] 0)"

section \<open>Selecting facts\<close>

definition factRecordIDs :: "db \<Rightarrow> string \<Rightarrow> string \<Rightarrow> string \<Rightarrow> string \<Rightarrow> string \<Rightarrow> bool \<Rightarrow> string list" where
  "factRecordIDs d spaceID labels subject key recordID history =
    map sm_record_id (sort_key sm_fact_key (sort_key sm_record_id
      (filter (\<lambda>r. sm_space_id r = spaceID \<and> sm_label_set_digest r = labels \<and> sm_subject r = subject \<and>
         (history \<or> sm_status r = RecordStatusActive) \<and> (key = [] \<or> sm_fact_key r = key) \<and> (recordID = [] \<or> sm_record_id r = recordID))
        (semantic_records d))))"

definition context_value :: "(string \<times> string) list \<Rightarrow> string \<Rightarrow> string" where
  "context_value ctx k = (case map_of ctx k of None \<Rightarrow> [] | Some v \<Rightarrow> v)"

text \<open>An entry that may be adopted under the host context.\<close>

definition eligible :: "(string \<times> string) list \<Rightarrow> fact_rev \<Rightarrow> bool" where
  "eligible ctx f \<longleftrightarrow> fa_historical_state f \<noteq> ''corrected'' \<and> md_adoption (fa_metadata f) = AdoptionConfirmed \<and>
     list_all (\<lambda>c. context_value ctx (cn_key c) = cn_value c) (md_conditions (fa_metadata f))"

definition applies_at :: "instant option \<Rightarrow> instant \<Rightarrow> metadata \<Rightarrow> bool" where
  "applies_at asOf t0 m \<longleftrightarrow> (asOf = None \<or> md_valid_from m \<noteq> None) \<and>
     (case md_valid_from m of None \<Rightarrow> True | Some f \<Rightarrow> f \<le> t0) \<and>
     (case md_valid_until m of None \<Rightarrow> True | Some u \<Rightarrow> t0 < u)"

definition select_fact :: "(string \<times> string) list \<Rightarrow> instant option \<Rightarrow> instant \<Rightarrow> fact_rev list \<Rightarrow> fact_rev option" where
  "select_fact ctx asOf t0 history =
    (case rev (filter (\<lambda>f. eligible ctx f \<and> applies_at asOf t0 (fa_metadata f)) history) of [] \<Rightarrow> None | f # _ \<Rightarrow> Some f)"

text \<open>The next boundary after \<open>t0\<close> among the eligible entries.\<close>

definition refresh_step :: "instant \<Rightarrow> fact_rev \<Rightarrow> instant option \<Rightarrow> instant option" where
  "refresh_step t0 f refresh =
    fold (\<lambda>t acc. case t of None \<Rightarrow> acc
        | Some u \<Rightarrow> if t0 < u \<and> (case acc of None \<Rightarrow> True | Some r \<Rightarrow> u < r) then Some u else acc)
      [md_valid_from (fa_metadata f), md_valid_until (fa_metadata f)] refresh"

definition fact_histories :: "db \<Rightarrow> authorized_view \<Rightarrow> read_request \<Rightarrow> fact_rev list list" where
  "fact_histories d view r =
    concat (map (\<lambda>spaceID. map (factTimeline d)
        (factRecordIDs d spaceID (av_label_set_digest view) (rr_subject r) (rr_key r) [] False)) (av_read_space_ids view))"

definition read_instant :: "instant \<Rightarrow> read_request \<Rightarrow> instant" where
  "read_instant now r = (case rr_as_of r of None \<Rightarrow> now | Some t \<Rightarrow> t)"

definition fact_candidates :: "db \<Rightarrow> authorized_view \<Rightarrow> instant \<Rightarrow> read_request \<Rightarrow> fact_rev list" where
  "fact_candidates d view now r =
    List.map_filter (select_fact (rr_context r) (rr_as_of r) (read_instant now r)) (fact_histories d view r)"

definition refresh_at :: "db \<Rightarrow> authorized_view \<Rightarrow> instant \<Rightarrow> read_request \<Rightarrow> instant option" where
  "refresh_at d view now r =
    (if rr_as_of r = None
     then fold (refresh_step now) (filter (eligible (rr_context r)) (concat (fact_histories d view r))) None
     else None)"

text \<open>An applicable exception hides its base; facts of one key compete by the number of conditions.\<close>

definition scoped :: "string \<Rightarrow> string \<Rightarrow> string" where
  "scoped spaceID s = spaceID @ [CHR 0x00] @ s"

definition overridden :: "fact_rev list \<Rightarrow> fact_rev \<Rightarrow> bool" where
  "overridden candidates f \<longleftrightarrow>
    list_ex (\<lambda>g. md_related_record_id (fa_metadata g) \<noteq> [] \<and>
      scoped (fa_space_id g) (md_related_record_id (fa_metadata g)) = scoped (fa_space_id f) (fa_record_id f)) candidates"

definition group_key :: "fact_rev \<Rightarrow> string" where
  "group_key f = scoped (fa_space_id f) (md_key (fa_metadata f)) @
     (if md_key (fa_metadata f) = [] then [CHR 0x00] @ fa_record_id f else [])"

definition most_specific :: "fact_rev list \<Rightarrow> fact_rev list" where
  "most_specific fs =
    (let most = fold max (map (\<lambda>f. length (md_conditions (fa_metadata f))) fs) 0 in
     filter (\<lambda>f. length (md_conditions (fa_metadata f)) = most) fs)"

definition resolve_groups :: "fact_rev list \<Rightarrow> fact_rev list" where
  "resolve_groups candidates =
    (let live = filter (\<lambda>f. \<not> overridden candidates f) candidates in
     List.map_filter (\<lambda>k. case most_specific (filter (\<lambda>f. group_key f = k) live) of [f] \<Rightarrow> Some f | _ \<Rightarrow> None)
       (remdups (map group_key live)))"

definition rank_facts :: "analyzer \<Rightarrow> string \<Rightarrow> fact_rev list \<Rightarrow> error + (fact_rev \<times> rat) list" where
  "rank_facts A query fs =
    rbind (fold_res (\<lambda>f acc. rbind (of_opt (Errorf ''lexical segmenter is unavailable'') (factQueryRank A query f)) (\<lambda>rank.
        Inr (if trim_space query \<noteq> [] \<and> rank \<ge> 0 then acc else acc @ [(f, rank)]))) fs []) (\<lambda>ranked.
    Inr (sort_key snd (sort_key (\<lambda>c. fa_space_id (fst c)) (sort_key (\<lambda>c. md_key (fa_metadata (fst c)))
      (sort_key (\<lambda>c. fa_record_id (fst c)) ranked)))))"

section \<open>Budgets and evidence\<close>

definition fact_line :: "fact_rev \<Rightarrow> string" where
  "fact_line f = ''['' @ fa_record_id f @ ''@'' @ dec_digits (fa_revision f) @ '' '' @ md_subject (fa_metadata f) @ ''/'' @
     md_key (fa_metadata f) @ ''] '' @ json_encode (JStr (fa_text f)) @ [CHR 0x0A]"

text \<open>The response with the fact, or nothing when it does not fit.\<close>

definition appendBudgetFact :: "read_response \<Rightarrow> fact_rev \<Rightarrow> fact_budget \<Rightarrow> bool \<Rightarrow> read_response option" where
  "appendBudgetFact out f b background =
    (if int (length (rd_facts out)) \<ge> bg_max_facts b then None
     else let line = (if background then fact_line f else []);
              used = int (length (encoded_facts (rd_facts out @ [f]))) + int (length (rd_background out)) + int (length line) in
       if used > bg_max_bytes b then None
       else Some (out\<lparr>rd_facts := rd_facts out @ [f], rd_background := rd_background out @ line, rd_bytes_used := used\<rparr>))"

definition factEvidenceUsable :: "db \<Rightarrow> fact_rev \<Rightarrow> string \<Rightarrow> bool" where
  "factEvidenceUsable d f labels \<longleftrightarrow> fa_evidence f \<noteq> [] \<and>
     list_all (\<lambda>e. list_ex (\<lambda>r. rt_receipt_id r = fe_receipt_id e \<and> rt_space_id r = fa_space_id f \<and> rt_label_set_digest r = labels \<and>
         \<not> list_ex (\<lambda>t. tb_receipt_id t = rt_receipt_id r) (receipt_tombstones d) \<and> \<not> is_corrected d (rt_receipt_id r)) (receipts d))
       (fa_evidence f)"

definition restate :: "fact_rev \<Rightarrow> fact_rev \<Rightarrow> fact_rev" where
  "restate c f = f\<lparr>fa_metadata := fa_metadata c, fa_historical_state := fa_historical_state c\<rparr>"

definition read_one :: "db \<Rightarrow> string \<Rightarrow> fact_budget \<Rightarrow> fact_rev \<times> rat \<Rightarrow> read_response \<Rightarrow> error + read_response" where
  "read_one d labels b c out =
    rbind (readFactRevision d (fa_record_id (fst c)) (fa_revision (fst c))) (\<lambda>f0.
    let f = restate (fst c) f0 in
    if factEvidenceUsable d f labels then
      Inr (case appendBudgetFact out f b True of None \<Rightarrow> out\<lparr>rd_truncated := True\<rparr> | Some out' \<Rightarrow> out')
    else Inr out)"

section \<open>The change log\<close>

definition scope_changes :: "db \<Rightarrow> string \<Rightarrow> string \<Rightarrow> change_row list" where
  "scope_changes d labels spaceID = filter (\<lambda>c. mc_space_id c = spaceID \<and> mc_label_set_digest c = labels) (memory_changes d)"

definition scope_digest :: "string list \<Rightarrow> string \<Rightarrow> string" where
  "scope_digest sortedSpaces labels =
    digestString (json_encode (JObj [(''Spaces'', if sortedSpaces = [] then JNull else JArr (map JStr sortedSpaces)), (''Labels'', JStr labels)]))"

definition factCursor :: "store \<Rightarrow> db \<Rightarrow> authorized_view \<Rightarrow> fact_cursor" where
  "factCursor s d view =
    (let sp = sort (av_read_space_ids view) in
     \<lparr>fcu_generation = sto_generation s, fcu_scope = scope_digest sp (av_label_set_digest view),
      fcu_sequence = fold (\<lambda>spaceID n. max n (fold max (map mc_sequence (scope_changes d (av_label_set_digest view) spaceID)) 0)) sp 0\<rparr>)"

definition empty_read :: "fact_cursor \<Rightarrow> read_response" where
  "empty_read cursor = \<lparr>rd_facts = [], rd_background = [], rd_cursor = cursor, rd_refresh_at = None, rd_truncated = False,
     rd_bytes_used = 2, rd_next_revision = 0\<rparr>"

section \<open>The calls\<close>

definition read_facts_tx ::
  "store \<Rightarrow> analyzer \<Rightarrow> instant \<Rightarrow> call_authorization \<Rightarrow> read_request \<Rightarrow> db \<Rightarrow> error + read_response" where
  "read_facts_tx s A now auth r d =
    rbind (requireMutableGeneration s) (\<lambda>_.
    rbind (map_err (\<lambda>m. serviceError ErrorCodeInvalidArgument m False) (validate_read r)) (\<lambda>_.
    rbind (authorize now d auth OperationRecall) (\<lambda>view.
    rbind (rank_facts A (rr_query r) (resolve_groups (fact_candidates d view now r))) (\<lambda>ranked.
    fold_res (read_one d (av_label_set_digest view) (rr_budget r)) ranked
      ((empty_read (factCursor s d view))\<lparr>rd_refresh_at := refresh_at d view now r\<rparr>)))))"

definition ReadFacts ::
  "store \<Rightarrow> analyzer \<Rightarrow> instant \<Rightarrow> call_authorization \<Rightarrow> read_request \<Rightarrow> db \<Rightarrow> error + read_response" where
  "ReadFacts s A now auth r d = map_err factServiceError (read_facts_tx s A now auth r d)"

text \<open>The entries of one record after the cursor; the first that does not fit ends the record.\<close>

fun history_entries :: "db \<Rightarrow> string \<Rightarrow> history_request \<Rightarrow> fact_rev list \<Rightarrow> read_response \<Rightarrow> error + read_response" where
  "history_entries d recordID r [] out = Inr out"
| "history_entries d recordID r (h # rest) out =
    (if fa_revision h \<le> hr_after_revision r then history_entries d recordID r rest out
     else rbind (readFactRevision d recordID (fa_revision h)) (\<lambda>f.
       case appendBudgetFact out (restate h f) (hr_budget r) False of
         None \<Rightarrow> Inr (out\<lparr>rd_truncated := True\<rparr>)
       | Some out' \<Rightarrow> history_entries d recordID r rest (out'\<lparr>rd_next_revision := fa_revision h\<rparr>)))"

definition FactHistory ::
  "store \<Rightarrow> instant \<Rightarrow> call_authorization \<Rightarrow> history_request \<Rightarrow> db \<Rightarrow> error + read_response" where
  "FactHistory s now auth r d = map_err factServiceError
    (rbind (requireMutableGeneration s) (\<lambda>_.
     rbind (map_err (\<lambda>m. serviceError ErrorCodeInvalidArgument m False) (validate_history r)) (\<lambda>_.
     rbind (authorize now d auth OperationRecall) (\<lambda>view.
     rbind (fold_res (\<lambda>recordID. history_entries d recordID r (factTimeline d recordID))
         (concat (map (\<lambda>spaceID. factRecordIDs d spaceID (av_label_set_digest view) (hr_subject r) [] (hr_record_id r) True)
            (av_read_space_ids view))) (empty_read (factCursor s d view))) (\<lambda>out.
     Inr (out\<lparr>rd_background := [], rd_bytes_used := int (length (encoded_facts (rd_facts out)))\<rparr>))))))"

record fact_change =
  ch_sequence :: nat
  ch_kind :: string
  ch_receipt_id :: string
  ch_record_id :: string
  ch_effective_at :: instant

record changes_response =
  cr_changes :: "fact_change list"
  cr_cursor :: fact_cursor
  cr_reset_required :: bool
  cr_has_more :: bool

definition change_of_row :: "change_row \<Rightarrow> fact_change" where
  "change_of_row c = \<lparr>ch_sequence = mc_sequence c, ch_kind = mc_kind c, ch_receipt_id = mc_receipt_id c,
     ch_record_id = mc_record_id c, ch_effective_at = mc_changed_at c\<rparr>"

definition space_page :: "db \<Rightarrow> string \<Rightarrow> nat \<Rightarrow> nat \<Rightarrow> string \<Rightarrow> fact_change list" where
  "space_page d labels after limit spaceID =
    map change_of_row (take limit (sort_key mc_sequence (filter (\<lambda>c. mc_sequence c > after) (scope_changes d labels spaceID))))"

definition Changes ::
  "store \<Rightarrow> instant \<Rightarrow> call_authorization \<Rightarrow> fact_cursor \<Rightarrow> int \<Rightarrow> db \<Rightarrow> error + changes_response" where
  "Changes s now auth after limit d = map_err factServiceError
    (rbind (requireMutableGeneration s) (\<lambda>_.
     rbind (guard (1 \<le> limit \<and> limit \<le> 256) (serviceError ErrorCodeInvalidArgument ''change limit must be 1..256'' False)) (\<lambda>_.
     rbind (authorize now d auth OperationRecall) (\<lambda>view.
     let cursor = factCursor s d view in
     if fcu_generation after \<noteq> fcu_generation cursor \<or> fcu_scope after \<noteq> fcu_scope cursor \<or> fcu_sequence after > fcu_sequence cursor
     then Inr \<lparr>cr_changes = [], cr_cursor = cursor, cr_reset_required = True, cr_has_more = False\<rparr>
     else let all = sort_key ch_sequence (concat (map (space_page d (av_label_set_digest view) (fcu_sequence after) (nat (limit + 1)))
                (av_read_space_ids view)));
              page = take (nat limit) all in
       Inr (if int (length all) > limit
            then \<lparr>cr_changes = page, cr_cursor = cursor\<lparr>fcu_sequence := ch_sequence (last page)\<rparr>, cr_reset_required = False, cr_has_more = True\<rparr>
            else \<lparr>cr_changes = all, cr_cursor = cursor, cr_reset_required = False, cr_has_more = False\<rparr>)))))"

end
