(* ===== verification/Fact_Queries.thy ===== *)
theory Fact_Queries
  imports Facts_Read "HOL-Library.Sublist"
begin

text \<open>
  The contract of reading facts: an alias matches whole words only, a read stays within its budget and
  returns only live, authorised and adopted facts without ambiguity, and the pages of the change log
  miss and repeat nothing.
\<close>

section \<open>Whole words\<close>

lemma starts_with_length: "starts_with p s \<Longrightarrow> length p \<le> length s"
  by (induction p s rule: starts_with.induct) auto

lemma string_index_Some:
  assumes "string_index s sub = Some k"
  shows "starts_with sub (drop k s)" "k \<le> length s" "\<And>j. j < k \<Longrightarrow> \<not> starts_with sub (drop j s)"
proof -
  from assms obtain n where n: "n < length [0..<Suc (length s)]" "starts_with sub (drop ([0..<Suc (length s)] ! n) s)" "k = [0..<Suc (length s)] ! n"
    "\<forall>j<n. \<not> starts_with sub (drop ([0..<Suc (length s)] ! j) s)"
    unfolding string_index_def find_Some_iff by blast
  then have k: "k = n" "n \<le> length s" by (simp_all add: nth_append less_Suc_eq_le del: upt_Suc)
  show "starts_with sub (drop k s)" "k \<le> length s" using n k by simp_all
  show "\<not> starts_with sub (drop j s)" if "j < k" for j
    using n(4) that k by (auto simp: nth_append simp del: upt_Suc)
qed

lemma string_index_None: "string_index s sub = None \<Longrightarrow> j \<le> length s \<Longrightarrow> \<not> starts_with sub (drop j s)"
  by (auto simp: string_index_def find_None_iff simp del: upt_Suc)

lemma alias_from_iff:
  assumes "word \<noteq> []"
  shows "alias_from query word offset \<longleftrightarrow>
    (\<exists>i\<ge>offset. i < length query \<and> starts_with word (drop i query) \<and> whole_word_at query i (i + length word))"
  using assms
proof (induction query word offset rule: alias_from.induct)
  case (1 query word offset)
  show ?case
  proof (cases "offset < length query")
    case off: True
    show ?thesis
    proof (cases "string_index (drop offset query) word")
      case None
      have "\<not> starts_with word (drop i query)" if "i \<ge> offset" "i < length query" for i
        using string_index_None[OF None, of "i - offset"] that by simp
      then show ?thesis using off None by (subst alias_from.simps) auto
    next
      case (Some k)
      note k = string_index_Some[OF Some]
      have here: "starts_with word (drop (k + offset) query)" using k(1) by simp
      then have lt: "k + offset < length query" using 1(2) starts_with_length[OF here] by (cases word) auto
      have first: "\<not> starts_with word (drop i query)" if "i \<ge> offset" "i < k + offset" for i
        using k(3)[of "i - offset"] that by simp
      have "alias_from query word offset \<longleftrightarrow> whole_word_at query (k + offset) (k + offset + length word) \<or> alias_from query word (k + offset + 1)"
        using off Some by (subst alias_from.simps) simp
      also have "\<dots> \<longleftrightarrow> (\<exists>i\<ge>offset. i < length query \<and> starts_with word (drop i query) \<and> whole_word_at query i (i + length word))"
        unfolding 1(1)[OF off Some 1(2)]
      proof (intro iffI; elim disjE exE conjE)
        show "\<exists>i\<ge>offset. i < length query \<and> starts_with word (drop i query) \<and> whole_word_at query i (i + length word)"
          if "whole_word_at query (k + offset) (k + offset + length word)"
          using that here lt by (intro exI[of _ "k + offset"]) simp
        show "\<exists>i\<ge>offset. i < length query \<and> starts_with word (drop i query) \<and> whole_word_at query i (i + length word)"
          if "k + offset + 1 \<le> i" "i < length query" "starts_with word (drop i query)" "whole_word_at query i (i + length word)" for i
          using that by (intro exI[of _ i]) simp
        show "whole_word_at query (k + offset) (k + offset + length word) \<or>
            (\<exists>i\<ge>k + offset + 1. i < length query \<and> starts_with word (drop i query) \<and> whole_word_at query i (i + length word))"
          if "offset \<le> i" "i < length query" "starts_with word (drop i query)" "whole_word_at query i (i + length word)" for i
        proof (cases "i = k + offset")
          case False
          then have "k + offset + 1 \<le> i" using first[of i] that by (metis Suc_eq_plus1 Suc_leI linorder_neqE_nat)
          then show ?thesis using that by blast
        qed (use that in simp)
      qed
      finally show ?thesis .
    qed
  qed (simp add: alias_from.simps)
qed

section \<open>Budgets\<close>

definition within_budget :: "fact_budget \<Rightarrow> read_response \<Rightarrow> bool" where
  "within_budget b out \<longleftrightarrow> int (length (rd_facts out)) \<le> bg_max_facts b \<and>
     int (length (encoded_facts (rd_facts out))) + int (length (rd_background out)) \<le> bg_max_bytes b \<and>
     rd_bytes_used out = int (length (encoded_facts (rd_facts out))) + int (length (rd_background out))"

lemma appendBudgetFact_within:
  assumes "appendBudgetFact out f b background = Some out'"
  shows "within_budget b out' \<and> rd_facts out' = rd_facts out @ [f]"
  using assms by (auto simp: appendBudgetFact_def within_budget_def Let_def split: if_splits)

lemma read_one_cases:
  assumes "read_one d labels b c out = Inr out'"
  obtains (kept) t where "out' = out\<lparr>rd_truncated := t\<rparr>"
  | (added) f0 where "readFactRevision d (fa_record_id (fst c)) (fa_revision (fst c)) = Inr f0"
    "factEvidenceUsable d (restate (fst c) f0) labels" "appendBudgetFact out (restate (fst c) f0) b True = Some out'"
proof -
  obtain f0 where f0: "readFactRevision d (fa_record_id (fst c)) (fa_revision (fst c)) = Inr f0"
    and out': "out' = (if factEvidenceUsable d (restate (fst c) f0) labels
      then case appendBudgetFact out (restate (fst c) f0) b True of None \<Rightarrow> out\<lparr>rd_truncated := True\<rparr> | Some o' \<Rightarrow> o' else out)"
    using assms unfolding read_one_def Let_def by (elim run_elims) (simp split: if_splits)
  show thesis
  proof (cases "factEvidenceUsable d (restate (fst c) f0) labels")
    case True
    then show thesis
      using out' f0 kept[of True] added by (cases "appendBudgetFact out (restate (fst c) f0) b True") simp_all
  next
    case False
    then show thesis using out' kept[of "rd_truncated out"] by simp
  qed
qed

lemma read_one_within:
  assumes "read_one d labels b c out = Inr out'" and "within_budget b out"
  shows "within_budget b out'"
  using assms(1)
proof (cases rule: read_one_cases)
  case (kept t)
  then show ?thesis using assms(2) by (simp add: within_budget_def)
next
  case (added f0)
  then show ?thesis using appendBudgetFact_within by blast
qed

lemma empty_read_within:
  assumes "validate_fact_budget b = Inr ()"
  shows "within_budget b ((empty_read c)\<lparr>rd_refresh_at := t\<rparr>)"
  using assms by (simp add: validate_fact_budget_def result_simps within_budget_def empty_read_def encoded_facts_def)

lemma ReadFacts_InrE:
  assumes "ReadFacts s A now auth r d = Inr out"
  obtains view ranked where "authorize now d auth OperationRecall = Inr view" "validate_fact_budget (rr_budget r) = Inr ()"
    "rank_facts A (rr_query r) (resolve_groups (fact_candidates d view now r)) = Inr ranked"
    "fold_res (read_one d (av_label_set_digest view) (rr_budget r)) ranked
      ((empty_read (factCursor s d view))\<lparr>rd_refresh_at := refresh_at d view now r\<rparr>) = Inr out"
proof -
  have "read_facts_tx s A now auth r d = Inr out" using assms by (simp add: ReadFacts_def result_simps)
  then show thesis
    using that unfolding read_facts_tx_def validate_read_def by (auto simp: result_simps)
qed

section \<open>Timelines keep the identity of revisions\<close>

definition fact_id :: "fact_rev \<Rightarrow> string \<times> nat \<times> string" where
  "fact_id f = (fa_record_id f, fa_revision f, fa_space_id f)"

lemma map_update_same: "g y = g (xs ! i) \<Longrightarrow> map g (xs[i := y]) = map g xs"
  by (cases "i < length xs") (simp_all add: map_update list_update_same_conv list_update_beyond)

lemma resolve_chains_ids:
  fixes ks :: "nat list" and h :: "fact_rev list"
  shows "case resolve_chains ks h E of Inl h' \<Rightarrow> map fact_id h' = map fact_id h | Inr (h', _) \<Rightarrow> map fact_id h' = map fact_id h"
proof (induction ks h E rule: resolve_chains.induct)
  case (2 i rest h E)
  have "map fact_id (h[i - 1 := (h ! (i - 1))\<lparr>fa_historical_state := x\<rparr>]) = map fact_id h" for x
    by (rule map_update_same) (simp add: fact_id_def)
  moreover have "map (\<lambda>x. fact_id (mark_denied x)) (take (Suc i) h) @ map fact_id (drop (Suc i) h) = map fact_id h"
  proof -
    have "fact_id (mark_denied x) = fact_id x" for x by (simp add: fact_id_def mark_denied_def)
    then show ?thesis by (simp flip: map_append)
  qed
  ultimately show ?case using 2 by (cases "transition_of (h ! i)") (auto simp: comp_def split: sum.splits)
qed simp

lemma close_ids: "map fact_id (fold (close_step E) ks h) = map fact_id h"
proof (induction ks arbitrary: h)
  case (Cons k ks)
  have "map fact_id (close_step E k h) = map fact_id h"
    unfolding close_step_def by (rule map_update_same) (simp add: fact_id_def close_interval_def Let_def)
  with Cons show ?case by simp
qed simp

lemma timeline_ids: "map fact_id (resolve_timeline h) = map fact_id h"
proof (cases "resolve_chains [0..<length h] h []")
  case (Inl h')
  then show ?thesis using resolve_chains_ids[where ks = "[0..<length h]" and h = h and E = "[]"] by (simp add: resolve_timeline_def)
next
  case (Inr a)
  then show ?thesis using resolve_chains_ids[where ks = "[0..<length h]" and h = h and E = "[]"]
    by (cases a) (simp add: resolve_timeline_def close_ids)
qed

lemma timeline_entry:
  assumes "f \<in> set (factTimeline d k)"
  obtains v where "\<not> forgottenRecord d k" "v \<in> set (semantic_revisions d)" "rv_record_id v = k" "rv_fact v \<noteq> None"
    "fa_record_id f = k" "fa_revision f = rv_revision v" "fa_space_id f = rv_space_id v"
proof -
  have nf: "\<not> forgottenRecord d k" and f: "f \<in> set (resolve_timeline (fact_rows d k))"
    using assms by (auto simp: factTimeline_def split: if_splits)
  then have "fact_id f \<in> set (map fact_id (resolve_timeline (fact_rows d k)))" by simp
  then have "fact_id f \<in> set (map fact_id (fact_rows d k))" by (simp only: timeline_ids)
  then obtain v m where "v \<in> set (semantic_revisions d)" "rv_record_id v = k" "rv_fact v = Some m" "fact_id f = fact_id (fact_of_row v m)"
    by (auto simp: fact_rows_def set_map_filter)
  then show thesis using nf by (intro that[of v]) (auto simp: fact_id_def fact_of_row_def)
qed

section \<open>What a read selects\<close>

lemma candidate_spec:
  assumes "c \<in> set (fact_candidates d view now r)"
  obtains h where "h \<in> set (semantic_records d)" "sm_space_id h \<in> set (av_read_space_ids view)" "sm_label_set_digest h = av_label_set_digest view"
    "sm_subject h = rr_subject r" "sm_status h = RecordStatusActive" "rr_key r = [] \<or> sm_fact_key h = rr_key r"
    "c \<in> set (factTimeline d (sm_record_id h))" "eligible (rr_context r) c" "applies_at (rr_as_of r) (read_instant now r) (fa_metadata c)"
proof -
  from assms obtain hist where hist: "hist \<in> set (fact_histories d view r)" "select_fact (rr_context r) (rr_as_of r) (read_instant now r) hist = Some c"
    by (auto simp: fact_candidates_def set_map_filter)
  have "c \<in> set (rev (filter (\<lambda>f. eligible (rr_context r) f \<and> applies_at (rr_as_of r) (read_instant now r) (fa_metadata f)) hist))"
    using hist(2) by (cases "rev (filter (\<lambda>f. eligible (rr_context r) f \<and> applies_at (rr_as_of r) (read_instant now r) (fa_metadata f)) hist)")
      (simp_all add: select_fact_def del: set_rev set_filter)
  then have c: "c \<in> set hist" "eligible (rr_context r) c" "applies_at (rr_as_of r) (read_instant now r) (fa_metadata c)" by auto
  from hist(1) obtain h where "h \<in> set (semantic_records d)" "sm_space_id h \<in> set (av_read_space_ids view)" "sm_label_set_digest h = av_label_set_digest view"
    "sm_subject h = rr_subject r" "sm_status h = RecordStatusActive" "rr_key r = [] \<or> sm_fact_key h = rr_key r" "hist = factTimeline d (sm_record_id h)"
    by (auto simp: fact_histories_def factRecordIDs_def)
  with c show thesis by (intro that[of h]) auto
qed

lemma group_choice:
  assumes "(case most_specific (filter (\<lambda>f. group_key f = k) live) of [f] \<Rightarrow> Some f | _ \<Rightarrow> None) = Some f"
  shows "f \<in> set live" "group_key f = k"
proof -
  have "most_specific (filter (\<lambda>f. group_key f = k) live) = [f]" using assms by (auto split: list.splits)
  then have "f \<in> set (most_specific (filter (\<lambda>f. group_key f = k) live))" by simp
  then show "f \<in> set live" "group_key f = k" by (simp_all add: most_specific_def Let_def)
qed

lemma resolve_groups_mem:
  assumes "f \<in> set (resolve_groups cs)"
  shows "f \<in> set cs" "\<not> overridden cs f"
proof -
  from assms obtain k where "(case most_specific (filter (\<lambda>f. group_key f = k) (filter (\<lambda>f. \<not> overridden cs f) cs)) of [f] \<Rightarrow> Some f | _ \<Rightarrow> None) = Some f"
    unfolding resolve_groups_def Let_def set_map_filter by blast
  from group_choice(1)[OF this] show "f \<in> set cs" "\<not> overridden cs f" by simp_all
qed

lemma distinct_map_filter_keys:
  assumes "\<And>k y. g k = Some y \<Longrightarrow> key y = k" and "distinct ks"
  shows "distinct (map key (List.map_filter g ks))"
  using assms(2)
proof (induction ks)
  case (Cons k ks)
  show ?case
  proof (cases "g k")
    case (Some y)
    have "k \<notin> key ` set (List.map_filter g ks)" using Cons.prems assms(1) by (auto simp: set_map_filter)
    then show ?thesis using Cons Some assms(1)[OF Some] by (simp add: List.map_filter_simps)
  qed (use Cons in \<open>simp add: List.map_filter_simps\<close>)
qed (simp add: List.map_filter_simps)

lemma resolve_groups_distinct: "distinct (map group_key (resolve_groups cs))"
  unfolding resolve_groups_def Let_def by (rule distinct_map_filter_keys) (rule group_choice(2), assumption, simp)

lemma rank_facts_sub:
  assumes "rank_facts A q fs = Inr ranked"
  shows "set (map fst ranked) \<subseteq> set fs" and "distinct (map g fs) \<Longrightarrow> distinct (map (\<lambda>c. g (fst c)) ranked)"
proof -
  let ?step = "\<lambda>f acc. rbind (of_opt (Errorf ''lexical segmenter is unavailable'') (factQueryRank A q f)) (\<lambda>rank.
        Inr (if trim_space q \<noteq> [] \<and> rank \<ge> 0 then acc else acc @ [(f, rank)]))"
  obtain raw where raw: "fold_res ?step fs [] = Inr raw" and ranked: "ranked = sort_key snd (sort_key (\<lambda>c. fa_space_id (fst c))
      (sort_key (\<lambda>c. md_key (fa_metadata (fst c))) (sort_key (\<lambda>c. fa_record_id (fst c)) raw)))"
    using assms unfolding rank_facts_def by (elim run_elims) simp
  have *: "\<exists>gs. map fst raw = map fst acc @ gs \<and> subseq gs fs" if "fold_res ?step fs acc = Inr raw" for fs acc
    using that
  proof (induction fs arbitrary: acc)
    case (Cons f fs)
    then obtain rank where "fold_res ?step fs (if trim_space q \<noteq> [] \<and> rank \<ge> 0 then acc else acc @ [(f, rank)]) = Inr raw"
      by (auto simp: result_simps)
    from Cons.IH[OF this] show ?case by (auto split: if_splits)
  qed simp
  from *[OF raw] have sub: "subseq (map fst raw) fs" by simp
  have ms: "mset ranked = mset raw" by (simp add: ranked)
  then have st: "set ranked = set raw" by (metis mset_eq_setD)
  have "x \<in> set fs" if "x \<in> set (map fst raw)" for x using list_emb_set[OF sub that] by blast
  then show "set (map fst ranked) \<subseteq> set fs" using st by auto
  show "distinct (map (\<lambda>c. g (fst c)) ranked)" if d: "distinct (map g fs)"
  proof -
    obtain N where "map fst raw = nths fs N" using sub unfolding subseq_conv_nths by blast
    then have "map g (map fst raw) = nths (map g fs) N" by (simp add: nths_map)
    then have "distinct (map g (map fst raw))" using d by (simp add: distinct_nthsI)
    moreover have "mset (map (\<lambda>c. g (fst c)) ranked) = mset (map g (map fst raw))" using ms by (simp add: comp_def)
    ultimately show ?thesis using mset_eq_imp_distinct_iff by blast
  qed
qed

text \<open>Every returned fact restates a resolved candidate with its stored revision, in an order that
  keeps the group keys distinct.\<close>

lemma returned_facts:
  assumes "fold_res (read_one d labels b) ranked out0 = Inr out"
  shows "\<exists>cs. subseq cs (map fst ranked) \<and> (\<exists>fs. rd_facts out = rd_facts out0 @ fs \<and>
    list_all2 (\<lambda>c f. \<exists>f0. readFactRevision d (fa_record_id c) (fa_revision c) = Inr f0 \<and> f = restate c f0 \<and> factEvidenceUsable d f labels) cs fs)"
  using assms
proof (induction ranked arbitrary: out0)
  case Nil
  then show ?case by (intro exI[of _ "[]"]) simp
next
  case (Cons c ranked)
  then obtain out1 where one: "read_one d labels b c out0 = Inr out1" and rest: "fold_res (read_one d labels b) ranked out1 = Inr out"
    by (auto simp: result_simps)
  from Cons.IH[OF rest] obtain cs fs where IH: "subseq cs (map fst ranked)" "rd_facts out = rd_facts out1 @ fs"
    "list_all2 (\<lambda>c f. \<exists>f0. readFactRevision d (fa_record_id c) (fa_revision c) = Inr f0 \<and> f = restate c f0 \<and> factEvidenceUsable d f labels) cs fs"
    by blast
  from one show ?case
  proof (cases rule: read_one_cases)
    case (kept t)
    then show ?thesis using IH by (intro exI[of _ cs]) auto
  next
    case (added f0)
    then have "rd_facts out1 = rd_facts out0 @ [restate (fst c) f0]" using appendBudgetFact_within by blast
    then show ?thesis using IH added by (intro exI[of _ "fst c # cs"] conjI exI[of _ "restate (fst c) f0 # fs"]) auto
  qed
qed

lemma restate_simps [simp]:
  "fa_metadata (restate c f) = fa_metadata c" "fa_historical_state (restate c f) = fa_historical_state c"
  "fa_record_id (restate c f) = fa_record_id f" "fa_revision (restate c f) = fa_revision f" "fa_space_id (restate c f) = fa_space_id f"
  "fa_evidence (restate c f) = fa_evidence f"
  by (simp_all add: restate_def)

lemma readFactRevision_id:
  assumes "distinct (revision_keys d)" and "v \<in> set (semantic_revisions d)" and "readFactRevision d (rv_record_id v) (rv_revision v) = Inr f"
  shows "fa_record_id f = rv_record_id v" "fa_revision f = rv_revision v" "fa_space_id f = rv_space_id v"
proof -
  from assms(3) obtain m where "f = \<lparr>fa_record_id = rv_record_id v, fa_revision = rv_revision v, fa_space_id = rv_space_id v, fa_text = rv_text v,
      fa_metadata = m, fa_evidence = revision_evidence d (rv_record_id v) (rv_revision v), fa_historical_state = []\<rparr>"
    unfolding readFactRevision_def revision_of_key[OF assms(1,2)] of_opt_simps rbind_simps by (elim run_elims) blast
  then show "fa_record_id f = rv_record_id v" "fa_revision f = rv_revision v" "fa_space_id f = rv_space_id v" by simp_all
qed


lemma read_result:
  assumes ok: "facts_ok d" "references_ok d" and run: "ReadFacts s A now auth r d = Inr out"
  obtains view cs where "authorize now d auth OperationRecall = Inr view"
    "list_all2 (\<lambda>c f. fact_id f = fact_id c \<and> fa_metadata f = fa_metadata c \<and> fa_historical_state f = fa_historical_state c \<and>
       factEvidenceUsable d f (av_label_set_digest view)) cs (rd_facts out)"
    "distinct (map group_key cs)" "set cs \<subseteq> set (resolve_groups (fact_candidates d view now r))"
proof -
  obtain view ranked where v: "authorize now d auth OperationRecall = Inr view"
    and ranked: "rank_facts A (rr_query r) (resolve_groups (fact_candidates d view now r)) = Inr ranked"
    and fold: "fold_res (read_one d (av_label_set_digest view) (rr_budget r)) ranked
      ((empty_read (factCursor s d view))\<lparr>rd_refresh_at := refresh_at d view now r\<rparr>) = Inr out"
    by (rule ReadFacts_InrE[OF run])
  from returned_facts[OF fold] obtain cs where sub: "subseq cs (map fst ranked)"
    and all: "list_all2 (\<lambda>c f. \<exists>f0. readFactRevision d (fa_record_id c) (fa_revision c) = Inr f0 \<and> f = restate c f0 \<and>
      factEvidenceUsable d f (av_label_set_digest view)) cs (rd_facts out)"
    by (auto simp: empty_read_def)
  have mem: "set cs \<subseteq> set (resolve_groups (fact_candidates d view now r))"
    using rank_facts_sub(1)[OF ranked] list_emb_set[OF sub] by blast
  have "distinct (map group_key (map fst ranked))"
    using rank_facts_sub(2)[OF ranked, of group_key] resolve_groups_distinct by (simp add: comp_def)
  moreover obtain N where "cs = nths (map fst ranked) N" using sub unfolding subseq_conv_nths by blast
  then have "map group_key cs = nths (map group_key (map fst ranked)) N" by (simp add: nths_map)
  ultimately have dist: "distinct (map group_key cs)" by (simp only: distinct_nthsI)
  have "fact_id f = fact_id c \<and> fa_metadata f = fa_metadata c \<and> fa_historical_state f = fa_historical_state c \<and>
       factEvidenceUsable d f (av_label_set_digest view)"
    if c: "c \<in> set cs" and f: "\<exists>f0. readFactRevision d (fa_record_id c) (fa_revision c) = Inr f0 \<and> f = restate c f0 \<and>
      factEvidenceUsable d f (av_label_set_digest view)" for c f
  proof -
    have "c \<in> set (fact_candidates d view now r)" using c mem resolve_groups_mem(1) by blast
    then obtain h :: semantic_row where "c \<in> set (factTimeline d (sm_record_id h))" by (rule candidate_spec) (rule that)
    then obtain w where w: "w \<in> set (semantic_revisions d)" "fa_record_id c = rv_record_id w"
      "fa_revision c = rv_revision w" "fa_space_id c = rv_space_id w" by (rule timeline_entry) simp
    have "distinct (revision_keys d)" using ok(1) by (simp add: facts_ok_def)
    note rid = readFactRevision_id[OF this w(1)]
    from f obtain f0 where f0: "readFactRevision d (fa_record_id c) (fa_revision c) = Inr f0" "f = restate c f0"
      "factEvidenceUsable d f (av_label_set_digest view)" by (elim exE conjE)
    then show ?thesis using rid[of f0] by (simp add: fact_id_def w)
  qed
  then have "list_all2 (\<lambda>c f. fact_id f = fact_id c \<and> fa_metadata f = fa_metadata c \<and> fa_historical_state f = fa_historical_state c \<and>
       factEvidenceUsable d f (av_label_set_digest view)) cs (rd_facts out)"
    using all by (auto simp: list_all2_conv_all_nth)
  with v mem dist show thesis by (intro that) simp_all
qed

section \<open>The contract of a read\<close>



text \<open>
  \<open>ReadFacts\<close> never asserts two truths. In a consistent store the answer holds at most one
  fact per Space and key, and it never holds a fact together with an applicable exception to it.
\<close>

theorem read_facts_unambiguous:
  assumes "facts_ok d" "references_ok d" and "ReadFacts s A now auth r d = Inr out"
    and "i < length (rd_facts out)" "j < length (rd_facts out)" "fa_space_id (rd_facts out ! i) = fa_space_id (rd_facts out ! j)"
  shows "(md_key (fa_metadata (rd_facts out ! i)) = md_key (fa_metadata (rd_facts out ! j)) \<and> md_key (fa_metadata (rd_facts out ! i)) \<noteq> [] \<longrightarrow> i = j) \<and>
    (md_related_record_id (fa_metadata (rd_facts out ! j)) \<noteq> [] \<longrightarrow>
       fa_record_id (rd_facts out ! i) \<noteq> md_related_record_id (fa_metadata (rd_facts out ! j)))"
proof -
  obtain view cs where view: "authorize now d auth OperationRecall = Inr view"
    and all: "list_all2 (\<lambda>c f. fact_id f = fact_id c \<and> fa_metadata f = fa_metadata c \<and> fa_historical_state f = fa_historical_state c \<and>
       factEvidenceUsable d f (av_label_set_digest view)) cs (rd_facts out)"
    and dist: "distinct (map group_key cs)" and mem: "set cs \<subseteq> set (resolve_groups (fact_candidates d view now r))"
    by (rule read_result[OF assms(1-3)])
  have len: "length cs = length (rd_facts out)" using all by (rule list_all2_lengthD)
  have nth: "fact_id (rd_facts out ! k) = fact_id (cs ! k)" "fa_metadata (rd_facts out ! k) = fa_metadata (cs ! k)" if "k < length (rd_facts out)" for k
    using list_all2_nthD2[OF all that] by auto
  have cm: "cs ! k \<in> set (resolve_groups (fact_candidates d view now r))" if "k < length (rd_facts out)" for k
    using mem that len by auto
  show ?thesis
  proof (intro conjI impI)
    assume k: "md_key (fa_metadata (rd_facts out ! i)) = md_key (fa_metadata (rd_facts out ! j)) \<and> md_key (fa_metadata (rd_facts out ! i)) \<noteq> []"
    have "group_key (cs ! i) = group_key (cs ! j)"
      using k nth[OF assms(4)] nth[OF assms(5)] assms(6) unfolding group_key_def fact_id_def by auto
    then show "i = j" using dist assms(4,5) len nth_eq_iff_index_eq[of "map group_key cs" i j] by simp
  next
    assume rel: "md_related_record_id (fa_metadata (rd_facts out ! j)) \<noteq> []"
    show "fa_record_id (rd_facts out ! i) \<noteq> md_related_record_id (fa_metadata (rd_facts out ! j))"
    proof
      assume eq: "fa_record_id (rd_facts out ! i) = md_related_record_id (fa_metadata (rd_facts out ! j))"
      have "cs ! j \<in> set (fact_candidates d view now r)" by (rule resolve_groups_mem(1)[OF cm[OF assms(5)]])
      moreover have "md_related_record_id (fa_metadata (cs ! j)) \<noteq> []"
        "scoped (fa_space_id (cs ! j)) (md_related_record_id (fa_metadata (cs ! j))) = scoped (fa_space_id (cs ! i)) (fa_record_id (cs ! i))"
        using eq rel nth[OF assms(4)] nth[OF assms(5)] assms(6) by (simp_all add: fact_id_def)
      ultimately have "overridden (fact_candidates d view now r) (cs ! i)"
        unfolding overridden_def list_ex_iff by blast
      with resolve_groups_mem(2)[OF cm[OF assms(4)]] show False by simp
    qed
  qed
qed

text \<open>
  Claim C22. A read stays inside its budget: at most \<open>max_facts\<close> facts, and the JSON of the facts
  together with the background text is at most \<open>max_bytes\<close> long and reported exactly.
\<close>

theorem read_facts_within_budget:
  assumes "ReadFacts s A now auth r d = Inr out"
  shows "int (length (rd_facts out)) \<le> bg_max_facts (rr_budget r) \<and>
    int (length (encoded_facts (rd_facts out))) + int (length (rd_background out)) \<le> bg_max_bytes (rr_budget r) \<and>
    rd_bytes_used out = int (length (encoded_facts (rd_facts out))) + int (length (rd_background out))"
proof -
  obtain view ranked where b: "validate_fact_budget (rr_budget r) = Inr ()"
    and fold: "fold_res (read_one d (av_label_set_digest view) (rr_budget r)) ranked
      ((empty_read (factCursor s d view))\<lparr>rd_refresh_at := refresh_at d view now r\<rparr>) = Inr out"
    by (rule ReadFacts_InrE[OF assms])
  have "within_budget (rr_budget r) out"
    by (rule fold_res_invariant[OF fold]) (rule empty_read_within[OF b], rule read_one_within)
  then show ?thesis by (simp add: within_budget_def)
qed

section \<open>Paging through the change log\<close>

lemma sorted_filter_less:
  assumes "sorted (map g xs)" and "k < length xs"
  shows "length (filter (\<lambda>x. g x < g (xs ! k)) xs) \<le> k"
proof -
  have "filter (\<lambda>x. g x < g (xs ! k)) (drop k xs) = []"
  proof (rule filter_False, rule ballI)
    fix x assume "x \<in> set (drop k xs)"
    then obtain j where "j < length xs - k" "x = xs ! (k + j)" using assms(2) by (auto simp: in_set_conv_nth)
    then have "k + j < length xs" "x = xs ! (k + j)" by simp_all
    then show "\<not> g x < g (xs ! k)" using sorted_nth_mono[OF assms(1), of k "k + j"] by simp
  qed
  then have "filter (\<lambda>x. g x < g (xs ! k)) xs = filter (\<lambda>x. g x < g (xs ! k)) (take k xs)"
    by (metis append_Nil2 append_take_drop_id filter_append)
  then show ?thesis using assms(2) by (metis length_filter_le length_take min.absorb4 order_less_imp_le min_def)
qed

lemma sorted_take_le:
  assumes "sorted (map g xs)" and "x \<in> set (take (Suc k) xs)" and "k < length xs"
  shows "g x \<le> g (xs ! k)"
proof -
  obtain j where "j \<le> k" "x = xs ! j" using assms(2,3) by (auto simp: in_set_conv_nth less_Suc_eq_le)
  then show ?thesis using sorted_nth_mono[OF assms(1), of j k] assms(3) by simp
qed

lemma length_filter_mono: "(\<And>x. p x \<Longrightarrow> q x) \<Longrightarrow> length (filter p xs) \<le> length (filter q xs)"
  by (induction xs) auto

lemma concat_filter_length:
  "s \<in> set ss \<Longrightarrow> length (filter p (h s)) \<le> length (filter p (concat (map h ss)))"
  by (induction ss) auto

text \<open>The changes of the caller's scope after a sequence number.\<close>

definition visible_changes :: "db \<Rightarrow> authorized_view \<Rightarrow> nat \<Rightarrow> change_row set" where
  "visible_changes d view after = {c \<in> set (memory_changes d). mc_space_id c \<in> set (av_read_space_ids view) \<and>
     mc_label_set_digest c = av_label_set_digest view \<and> mc_sequence c > after}"

definition merged_pages :: "db \<Rightarrow> authorized_view \<Rightarrow> nat \<Rightarrow> nat \<Rightarrow> fact_change list" where
  "merged_pages d view after limit =
    sort_key ch_sequence (concat (map (space_page d (av_label_set_digest view) after limit) (av_read_space_ids view)))"

lemma merged_visible: "set (merged_pages d view after limit) \<subseteq> change_of_row ` visible_changes d view after"
  by (auto simp: merged_pages_def space_page_def visible_changes_def scope_changes_def dest!: in_set_takeD)

lemma ch_sequence_of_row [simp]: "ch_sequence (change_of_row c) = mc_sequence c"
  by (simp add: change_of_row_def)

text \<open>A change that a page leaves out has a full page of smaller changes before it.\<close>

lemma left_out:
  assumes c: "c \<in> visible_changes d view after" and out: "change_of_row c \<notin> set (merged_pages d view after n)"
    and dist: "distinct (map mc_sequence (memory_changes d))"
  shows "n \<le> length (filter (\<lambda>x. ch_sequence x < mc_sequence c) (merged_pages d view after n))"
proof -
  let ?rows = "sort_key mc_sequence (filter (\<lambda>c. mc_sequence c > after) (scope_changes d (av_label_set_digest view) (mc_space_id c)))"
  have mem: "c \<in> set ?rows" using c by (auto simp: visible_changes_def scope_changes_def)
  have space: "mc_space_id c \<in> set (av_read_space_ids view)" using c by (simp add: visible_changes_def)
  have page: "set (space_page d (av_label_set_digest view) after n (mc_space_id c)) \<subseteq> set (merged_pages d view after n)"
    using space by (auto simp: merged_pages_def)
  then have nt: "c \<notin> set (take n ?rows)" using out by (auto simp: space_page_def)
  then have dr: "c \<in> set (drop n ?rows)" using mem by (metis Un_iff append_take_drop_id set_append)
  then have len: "n < length ?rows" by (metis drop_all leI empty_iff list.set(1))
  have "distinct (map mc_sequence (filter (\<lambda>c. mc_sequence c > after) (scope_changes d (av_label_set_digest view) (mc_space_id c))))"
    using dist unfolding scope_changes_def by (intro distinct_map_filter)
  then have drows: "distinct (map mc_sequence ?rows)" by (metis mset_eq_imp_distinct_iff mset_map mset_sort)
  have small: "mc_sequence x < mc_sequence c" if "x \<in> set (take n ?rows)" for x
  proof -
    have srt: "sorted (map mc_sequence (take n ?rows @ drop n ?rows))" by simp
    then have "mc_sequence x \<le> mc_sequence c" using that dr unfolding map_append sorted_append by auto
    moreover have "x \<noteq> c" using that nt by auto
    then have "mc_sequence x \<noteq> mc_sequence c"
      using drows that mem plain_key.key_unique[OF drows, of x c] by (auto dest: in_set_takeD)
    ultimately show ?thesis by simp
  qed
  have "filter (\<lambda>x. ch_sequence x < mc_sequence c) (map change_of_row (take n ?rows)) = map change_of_row (take n ?rows)"
    by (rule filter_True) (use small in auto)
  then have "length (filter (\<lambda>x. ch_sequence x < mc_sequence c) (space_page d (av_label_set_digest view) after n (mc_space_id c))) = n"
    using len by (simp add: space_page_def)
  then show ?thesis
    using concat_filter_length[OF space, of "\<lambda>x. ch_sequence x < mc_sequence c" "space_page d (av_label_set_digest view) after n"]
    by (simp add: merged_pages_def filter_sort)
qed

lemma sequence_unique:
  assumes "distinct (map mc_sequence (memory_changes d))" "c \<in> visible_changes d view a" "c' \<in> visible_changes d view a" "mc_sequence c = mc_sequence c'"
  shows "c = c'"
  using assms plain_key.key_unique[of mc_sequence "memory_changes d" c c'] by (simp add: visible_changes_def)

lemma page_exact:
  assumes dist: "distinct (map mc_sequence (memory_changes d))" and more: "length (merged_pages d view a (Suc n)) > n" and n: "n > 0"
    and page: "page = take n (merged_pages d view a (Suc n))"
  shows "set page = change_of_row ` {c \<in> visible_changes d view a. mc_sequence c \<le> ch_sequence (last page)}"
proof -
  let ?all = "merged_pages d view a (Suc n)"
  have srt: "sorted (map ch_sequence ?all)" by (simp add: merged_pages_def)
  have len: "n - 1 < length ?all" "length page = n" using more n by (simp_all add: page)
  have "page \<noteq> []" using len n by auto
  then have last: "last page = ?all ! (n - 1)" using len n more by (simp add: last_conv_nth) (simp add: page)
  have page': "page = take (Suc (n - 1)) ?all" using n by (simp add: page)
  have low: "x \<in> change_of_row ` {c \<in> visible_changes d view a. mc_sequence c \<le> ch_sequence (last page)}" if "x \<in> set page" for x
  proof -
    have "ch_sequence x \<le> ch_sequence (last page)" using sorted_take_le[OF srt _ len(1)] that page' last by simp
    moreover have "x \<in> change_of_row ` visible_changes d view a" using that merged_visible[of d view a "Suc n"] by (auto simp: page dest!: in_set_takeD)
    ultimately show ?thesis by auto
  qed
  have "change_of_row c \<in> set page" if c: "c \<in> visible_changes d view a" "mc_sequence c \<le> ch_sequence (last page)" for c
  proof -
    have "change_of_row c \<in> set ?all"
    proof (rule ccontr)
      assume "change_of_row c \<notin> set ?all"
      from left_out[OF c(1) this dist] have "Suc n \<le> length (filter (\<lambda>x. ch_sequence x < mc_sequence c) ?all)" .
      also have "\<dots> \<le> length (filter (\<lambda>x. ch_sequence x < ch_sequence (?all ! (n - 1))) ?all)"
        by (rule length_filter_mono) (use c(2) last in simp)
      also have "\<dots> \<le> n - 1" by (rule sorted_filter_less[OF srt len(1)])
      finally show False by simp
    qed
    then obtain k where k: "k < length ?all" "?all ! k = change_of_row c" by (auto simp: in_set_conv_nth)
    show ?thesis
    proof (cases "k < n")
      case True
      then show ?thesis using k unfolding page by (auto simp: in_set_conv_nth)
    next
      case False
      then have "ch_sequence (last page) \<le> mc_sequence c" using sorted_nth_mono[OF srt, of "n - 1" k] k last by simp
      then have eq: "mc_sequence c = ch_sequence (last page)" using c(2) by simp
      have lp: "last page \<in> set page" using len n by (metis last_in_set length_0_conv less_irrefl)
      then obtain c' where "c' \<in> visible_changes d view a" "last page = change_of_row c'" using low by blast
      with eq sequence_unique[OF dist c(1)] have "change_of_row c = last page" by auto
      then show ?thesis using lp by simp
    qed
  qed
  with low show ?thesis by blast
qed

lemma all_exact:
  assumes dist: "distinct (map mc_sequence (memory_changes d))" and few: "length (merged_pages d view a (Suc n)) \<le> n"
  shows "set (merged_pages d view a (Suc n)) = change_of_row ` visible_changes d view a"
proof -
  have "change_of_row c \<in> set (merged_pages d view a (Suc n))" if "c \<in> visible_changes d view a" for c
  proof (rule ccontr)
    assume "change_of_row c \<notin> set (merged_pages d view a (Suc n))"
    from left_out[OF that this dist] show False
      using few length_filter_le[of "\<lambda>x. ch_sequence x < mc_sequence c" "merged_pages d view a (Suc n)"] by simp
  qed
  with merged_visible show ?thesis by blast
qed

lemma fold_max_ge: "n \<le> fold max xs n" "x \<in> set xs \<Longrightarrow> x \<le> fold max xs (n::nat)"
  by (induction xs arbitrary: n) (auto intro: order_trans[OF max.cobounded1] order_trans[OF max.cobounded2])

lemma fold_max_map: "fold (\<lambda>s n. max n (g s)) ss n = fold max (map g ss) (n::nat)"
  by (induction ss arbitrary: n) (simp_all add: max.commute)

lemma cursor_bounds:
  assumes "c \<in> visible_changes d view a"
  shows "mc_sequence c \<le> fcu_sequence (factCursor s d view)"
proof -
  let ?g = "\<lambda>spaceID. fold max (map mc_sequence (scope_changes d (av_label_set_digest view) spaceID)) 0"
  have "mc_sequence c \<le> ?g (mc_space_id c)"
    using assms by (intro fold_max_ge(2)) (auto simp: visible_changes_def scope_changes_def)
  also have "\<dots> \<le> fold max (map ?g (sort (av_read_space_ids view))) 0"
    using assms by (intro fold_max_ge(2)) (auto simp: visible_changes_def)
  finally show ?thesis by (simp add: factCursor_def Let_def fold_max_map)
qed

text \<open>
  Claim C23. Following the cursor of \<open>Changes\<close> misses nothing and repeats nothing. Unless the caller
  must reset, a page is in sequence order, within the limit, and holds exactly the changes of the
  caller's authorised Spaces and label partition after the old cursor up to the new one; when more
  remain the cursor has moved, and otherwise no change of the scope lies beyond it.
\<close>

theorem changes_page_exact:
  assumes dist: "distinct (map mc_sequence (memory_changes d))" and run: "Changes s now auth after limit d = Inr out"
    and fresh: "\<not> cr_reset_required out"
  shows "\<exists>view. authorize now d auth OperationRecall = Inr view \<and>
    set (cr_changes out) = change_of_row ` {c \<in> visible_changes d view (fcu_sequence after). mc_sequence c \<le> fcu_sequence (cr_cursor out)} \<and>
    sorted (map ch_sequence (cr_changes out)) \<and> int (length (cr_changes out)) \<le> limit \<and>
    (if cr_has_more out then fcu_sequence after < fcu_sequence (cr_cursor out)
     else \<forall>c\<in>visible_changes d view (fcu_sequence after). mc_sequence c \<le> fcu_sequence (cr_cursor out))"
proof -
  obtain view where v: "authorize now d auth OperationRecall = Inr view" and lim: "1 \<le> limit" "limit \<le> 256"
    and out: "out = (let all = merged_pages d view (fcu_sequence after) (nat (limit + 1)); page = take (nat limit) all in
       if int (length all) > limit
       then \<lparr>cr_changes = page, cr_cursor = (factCursor s d view)\<lparr>fcu_sequence := ch_sequence (last page)\<rparr>, cr_reset_required = False, cr_has_more = True\<rparr>
       else \<lparr>cr_changes = all, cr_cursor = factCursor s d view, cr_reset_required = False, cr_has_more = False\<rparr>)"
    using run fresh unfolding Changes_def Let_def merged_pages_def by (auto simp: result_simps split: if_splits)
  define n where "n = nat limit"
  have n: "n > 0" "nat (limit + 1) = Suc n" "limit = int n" "nat (int n + 1) = Suc n" using lim by (auto simp: n_def)
  let ?a = "fcu_sequence after" let ?all = "merged_pages d view ?a (Suc n)"
  have srt: "sorted (map ch_sequence ?all)" by (simp add: merged_pages_def)
  show ?thesis
  proof (cases "length ?all > n")
    case True
    let ?page = "take n ?all"
    have o: "out = \<lparr>cr_changes = ?page, cr_cursor = (factCursor s d view)\<lparr>fcu_sequence := ch_sequence (last ?page)\<rparr>, cr_reset_required = False, cr_has_more = True\<rparr>"
      using True by (simp add: out n Let_def)
    have "last ?page \<in> set ?page" using True n by (intro last_in_set) auto
    then have "?a < ch_sequence (last ?page)" using merged_visible[of d view ?a "Suc n"] by (auto simp: visible_changes_def dest!: in_set_takeD)
    moreover have "sorted (map ch_sequence ?page)" using srt by (simp add: take_map[symmetric] sorted_wrt_take)
    ultimately show ?thesis using page_exact[OF dist True n(1) refl] v n by (intro exI[of _ view]) (simp add: o)
  next
    case False
    have o: "out = \<lparr>cr_changes = ?all, cr_cursor = factCursor s d view, cr_reset_required = False, cr_has_more = False\<rparr>"
      using False by (simp add: out n Let_def)
    have cb: "\<forall>c\<in>visible_changes d view ?a. mc_sequence c \<le> fcu_sequence (factCursor s d view)" using cursor_bounds by blast
    then have "{c \<in> visible_changes d view ?a. mc_sequence c \<le> fcu_sequence (factCursor s d view)} = visible_changes d view ?a" by blast
    then show ?thesis using all_exact[OF dist, of view ?a n] False v n srt cb by (intro exI[of _ view]) (simp add: o)
  qed
qed

section \<open>A concrete read\<close>

definition demo_metadata :: metadata where
  "demo_metadata = \<lparr>md_subject = ''me'', md_key = ''diet'', md_adoption = AdoptionConfirmed, md_valid_from = None,
     md_valid_until = None, md_conditions = [], md_transition = TransitionEstablish, md_related_record_id = []\<rparr>"

definition demo_fact_head :: semantic_row where
  "demo_fact_head = \<lparr>sm_record_id = ''a'', sm_space_id = ''s'', sm_kind = ''fact'', sm_status = RecordStatusActive, sm_current_revision = 1,
     sm_invalidated_reason = [], sm_created_at = 1, sm_updated_at = 1, sm_label_set = [],
     sm_label_set_digest = digestString (encode_label_set []), sm_subject = ''me'', sm_fact_key = ''diet''\<rparr>"

definition demo_fact_revision :: revision_row where
  "demo_fact_revision = \<lparr>rv_record_id = ''a'', rv_revision = 1, rv_space_id = ''s'', rv_kind = ''fact'', rv_text = ''vegan'',
     rv_operation = OperationAdd, rv_job_id = None, rv_created_at = 1, rv_fact = Some demo_metadata\<rparr>"

definition demo_known :: db where
  "demo_known = demo_private\<lparr>receipts := [demo_receipt], semantic_records := [demo_fact_head], semantic_revisions := [demo_fact_revision],
     semantic_evidence := [\<lparr>ev_record_id = ''a'', ev_revision = 1, ev_ordinal = 0, ev_receipt_id = ''r1'', ev_space_id = ''s''\<rparr>],
     memory_changes := [\<lparr>mc_sequence = 1, mc_space_id = ''s'', mc_label_set_digest = digestString (encode_label_set []),
       mc_kind = ''fact_establish'', mc_receipt_id = ''r1'', mc_record_id = ''a'', mc_changed_at = 1\<rparr>]\<rparr>"

definition demo_read :: read_request where
  "demo_read = \<lparr>rr_subject = ''me'', rr_key = [], rr_query = [], rr_as_of = None, rr_context = [],
     rr_budget = \<lparr>bg_max_facts = 4, bg_max_bytes = 4096\<rparr>\<rparr>"

definition demo_fact :: fact_rev where
  "demo_fact = \<lparr>fa_record_id = ''a'', fa_revision = 1, fa_space_id = ''s'', fa_text = ''vegan'', fa_metadata = demo_metadata,
     fa_evidence = [\<lparr>fe_receipt_id = ''r1'', fe_source = None\<rparr>], fa_historical_state = []\<rparr>"

lemma demo_known_ok: "facts_ok demo_known" "references_ok demo_known"
proof -
  have rows: "fact_rows demo_known ''a'' = [fact_of_row demo_fact_revision demo_metadata]"
    by (simp add: fact_rows_def demo_known_def demo_fact_revision_def List.map_filter_def)
  have "record_lifecycle [fact_of_row demo_fact_revision demo_metadata]" by (rule new_lifecycle) (simp add: demo_metadata_def)
  then have l: "lifecycles_ok demo_known"
    using rows by (simp add: lifecycles_ok_def) (simp add: demo_known_def demo_fact_head_def)
  have "history_ok demo_known"
    by (auto simp: history_ok_def revision_numbers_def demo_known_def demo_fact_head_def demo_fact_revision_def)
  moreover have "distinct (revision_keys demo_known)" by (simp add: revision_keys_def demo_known_def)
  moreover have "heads_match demo_known"
    by (simp add: heads_match_def head_fact_def revision_of_def demo_known_def demo_fact_head_def demo_fact_revision_def demo_metadata_def)
  moreover have "unambiguous demo_known" by (simp add: unambiguous_def demo_known_def)
  ultimately show "facts_ok demo_known" using l by (simp add: facts_ok_def)
  show "references_ok demo_known" by (simp add: references_ok_def demo_known_def demo_fact_head_def demo_fact_revision_def)
qed

lemma demo_known_auth: "authorize 5 demo_known (demo_auth AudiencePrivate) OperationRecall = Inr (demo_view SpaceClassPrivate)"
  using authorize_frame[of demo_private demo_known] demo_authorize[of SpaceClassPrivate AudiencePrivate OperationRecall]
  by (simp add: same_authority_def demo_known_def)

lemma demo_fact_size: "int (length (encoded_facts [demo_fact])) + int (length (fact_line demo_fact)) \<le> 4096"
  by code_simp

lemma demo_timeline: "factTimeline demo_known ''a'' = [fact_of_row demo_fact_revision demo_metadata]"
  by (simp add: factTimeline_def forgottenRecord_def record_barriers_def fact_rows_def resolve_timeline_def demo_known_def demo_defs
      demo_fact_revision_def demo_metadata_def fact_of_row_def List.map_filter_def)

lemma demo_candidate:
  "fact_candidates demo_known (demo_view SpaceClassPrivate) 5 demo_read = [fact_of_row demo_fact_revision demo_metadata]"
proof -
  have "factRecordIDs demo_known ''s'' (digestString (encode_label_set [])) ''me'' [] [] False = [''a'']"
    by (simp add: factRecordIDs_def demo_known_def demo_fact_head_def)
  then have "fact_histories demo_known (demo_view SpaceClassPrivate) demo_read = [[fact_of_row demo_fact_revision demo_metadata]]"
    by (simp add: fact_histories_def demo_view_def demo_read_def demo_timeline)
  then show ?thesis
    by (simp add: fact_candidates_def select_fact_def eligible_def applies_at_def demo_metadata_def demo_read_def read_instant_def List.map_filter_def)
qed

lemma demo_read_run:
  obtains out where "ReadFacts demo_store demo_analyzer 5 (demo_auth AudiencePrivate) demo_read demo_known = Inr out" "rd_facts out = [demo_fact]"
proof -
  have groups: "resolve_groups [fact_of_row demo_fact_revision demo_metadata] = [fact_of_row demo_fact_revision demo_metadata]"
    by (simp add: resolve_groups_def overridden_def most_specific_def demo_metadata_def List.map_filter_def Let_def)
  have rank: "rank_facts demo_analyzer [] [fact_of_row demo_fact_revision demo_metadata] = Inr [(fact_of_row demo_fact_revision demo_metadata, 0)]"
    by (simp add: rank_facts_def factQueryRank_def)
  have read: "readFactRevision demo_known ''a'' 1 = Inr demo_fact"
    by (simp add: readFactRevision_def revision_of_def revision_evidence_def evidence_source_of_def demo_known_def demo_fact_revision_def
        demo_fact_def demo_defs)
  have restated: "restate (fact_of_row demo_fact_revision demo_metadata) demo_fact = demo_fact"
    by (simp add: restate_def demo_fact_def)
  have usable: "factEvidenceUsable demo_known demo_fact (digestString (encode_label_set []))"
    by (simp add: factEvidenceUsable_def demo_fact_def demo_known_def demo_receipt_def is_corrected_def demo_defs)
  have ids: "fa_record_id (fact_of_row demo_fact_revision demo_metadata) = ''a''" "fa_revision (fact_of_row demo_fact_revision demo_metadata) = 1"
    by (simp_all add: fact_of_row_def demo_fact_revision_def)
  have valid: "validate_read demo_read = Inr ()"
    by (simp add: validate_read_def validate_fact_budget_def demo_read_def bounded_def contains_any_def zero_time_def text_eval)
  have one: "\<exists>out'. read_one demo_known (digestString (encode_label_set [])) (rr_budget demo_read)
      (fact_of_row demo_fact_revision demo_metadata, 0) out = Inr out' \<and> rd_facts out' = [demo_fact]"
    if "rd_facts out = []" "rd_background out = []" for out
    using that demo_fact_size usable by (simp add: read_one_def ids read restated appendBudgetFact_def demo_read_def Let_def del: One_nat_def)
  have gen: "requireMutableGeneration demo_store = Inr ()" by (simp add: requireMutableGeneration_def demo_store_def)
  let ?out0 = "(empty_read (factCursor demo_store demo_known (demo_view SpaceClassPrivate)))
      \<lparr>rd_refresh_at := refresh_at demo_known (demo_view SpaceClassPrivate) 5 demo_read\<rparr>"
  obtain out where "read_one demo_known (digestString (encode_label_set [])) (rr_budget demo_read)
      (fact_of_row demo_fact_revision demo_metadata, 0) ?out0 = Inr out" "rd_facts out = [demo_fact]"
    using one[of ?out0] by (auto simp: empty_read_def)
  moreover have "rr_query demo_read = []" "av_label_set_digest (demo_view SpaceClassPrivate) = digestString (encode_label_set [])"
    by (simp_all add: demo_read_def demo_view_def)
  ultimately have "read_facts_tx demo_store demo_analyzer 5 (demo_auth AudiencePrivate) demo_read demo_known = Inr out"
    by (simp add: read_facts_tx_def gen valid demo_known_auth demo_candidate groups rank)
  then show thesis using \<open>rd_facts out = [demo_fact]\<close> by (intro that[of out]) (simp_all add: ReadFacts_def)
qed


theorem read_facts_unambiguous_witness:
  "\<exists>out. ReadFacts demo_store demo_analyzer 5 (demo_auth AudiencePrivate) demo_read demo_known = Inr out \<and>
     fa_record_id (rd_facts out ! 0) = ''a'' \<and> (md_related_record_id (fa_metadata (rd_facts out ! 0)) \<noteq> [] \<longrightarrow>
       fa_record_id (rd_facts out ! 0) \<noteq> md_related_record_id (fa_metadata (rd_facts out ! 0)))"
proof -
  obtain out where o: "ReadFacts demo_store demo_analyzer 5 (demo_auth AudiencePrivate) demo_read demo_known = Inr out" "rd_facts out = [demo_fact]"
    by (rule demo_read_run)
  have len: "0 < length (rd_facts out)" by (simp add: o)
  from read_facts_unambiguous[OF demo_known_ok o(1) len len refl] o show ?thesis by (intro exI[of _ out]) (simp add: demo_fact_def)
qed

theorem read_facts_within_budget_witness:
  "\<exists>out. ReadFacts demo_store demo_analyzer 5 (demo_auth AudiencePrivate) demo_read demo_known = Inr out \<and> int (length (rd_facts out)) \<le> 4"
proof -
  obtain out where o: "ReadFacts demo_store demo_analyzer 5 (demo_auth AudiencePrivate) demo_read demo_known = Inr out" "rd_facts out = [demo_fact]"
    by (rule demo_read_run)
  from read_facts_within_budget[OF o(1)] o(1) show ?thesis by (auto simp: demo_read_def)
qed

definition demo_cursor :: fact_cursor where
  "demo_cursor = (factCursor demo_store demo_known (demo_view SpaceClassPrivate))\<lparr>fcu_sequence := 0\<rparr>"

theorem changes_page_exact_witness:
  "\<exists>out. Changes demo_store 5 (demo_auth AudiencePrivate) demo_cursor 8 demo_known = Inr out \<and> \<not> cr_reset_required out \<and>
     sorted (map ch_sequence (cr_changes out)) \<and> map ch_record_id (cr_changes out) = [''a'']"
proof -
  have gen: "requireMutableGeneration demo_store = Inr ()" by (simp add: requireMutableGeneration_def demo_store_def)
  have d: "distinct (map mc_sequence (memory_changes demo_known))" by (simp add: demo_known_def)
  have tab: "memory_changes demo_known = [\<lparr>mc_sequence = 1, mc_space_id = ''s'', mc_label_set_digest = digestString (encode_label_set []),
       mc_kind = ''fact_establish'', mc_receipt_id = ''r1'', mc_record_id = ''a'', mc_changed_at = 1\<rparr>]" by (simp add: demo_known_def)
  obtain out where o: "Changes demo_store 5 (demo_auth AudiencePrivate) demo_cursor 8 demo_known = Inr out" "\<not> cr_reset_required out"
    "map ch_record_id (cr_changes out) = [''a'']"
    by (simp add: Changes_def gen demo_known_auth demo_cursor_def space_page_def scope_changes_def tab demo_view_def change_of_row_def Let_def)
  from changes_page_exact[OF d o(1,2)] o show ?thesis by auto
qed

end
