(* ===== verification/Knowledge.thy ===== *)
theory Knowledge
  imports Fact_Queries
begin

text \<open>
  An abstract specification of what the appliance knows, and the lemmas that relate the tables to
  it. The abstract state has a head for every record (its revision and whether it is live), the
  content of every revision, and the set of records that lie behind a forgetting barrier. It moves
  in four ways: a record is learned, a live record is revised, records are retired and barred, and
  barred records are cleansed.
\<close>

section \<open>The specification\<close>

type_synonym content = "string \<times> string \<times> metadata option"

record knowledge =
  kn_heads :: "string \<Rightarrow> (nat \<times> bool) option"
  kn_content :: "string \<times> nat \<Rightarrow> content option"
  kn_barred :: "string set"

definition retire :: "string set \<Rightarrow> (string \<Rightarrow> (nat \<times> bool) option) \<Rightarrow> string \<Rightarrow> (nat \<times> bool) option" where
  "retire K h k = (if k \<in> K then map_option (\<lambda>(n, _). (n, False)) (h k) else h k)"

definition blank :: "string set \<Rightarrow> (string \<times> nat \<Rightarrow> content option) \<Rightarrow> string \<times> nat \<Rightarrow> content option" where
  "blank K c p = (if fst p \<in> K then map_option (\<lambda>_. ([], [], None)) (c p) else c p)"

inductive knows :: "knowledge \<Rightarrow> knowledge \<Rightarrow> bool" where
  learn: "kn_heads s k = None \<Longrightarrow>
    knows s (s\<lparr>kn_heads := (kn_heads s)(k \<mapsto> (1, True)), kn_content := (kn_content s)((k, 1) \<mapsto> c)\<rparr>)"
| revise: "kn_heads s k = Some (n, True) \<Longrightarrow>
    knows s (s\<lparr>kn_heads := (kn_heads s)(k \<mapsto> (n + 1, live)), kn_content := (kn_content s)((k, n + 1) \<mapsto> c)\<rparr>)"
| forget: "\<forall>k\<in>B. \<exists>n. retire K (kn_heads s) k = Some (n, False) \<Longrightarrow>
    knows s (s\<lparr>kn_heads := retire K (kn_heads s), kn_barred := kn_barred s \<union> B\<rparr>)"
| cleanse: "K \<subseteq> kn_barred s \<Longrightarrow> knows s (s\<lparr>kn_content := blank K (kn_content s)\<rparr>)"

text \<open>A barred record is not live, and content belongs to a revision up to the head.\<close>

definition knowledge_ok :: "knowledge \<Rightarrow> bool" where
  "knowledge_ok s \<longleftrightarrow> (\<forall>k\<in>kn_barred s. \<exists>n. kn_heads s k = Some (n, False)) \<and>
     (\<forall>k n c. kn_content s (k, n) = Some c \<longrightarrow> (\<exists>m live. kn_heads s k = Some (m, live) \<and> n \<le> m))"

text \<open>What one step keeps: a barred record stays barred and at its revision, a head only advances,
  and a content is kept or blanked behind a barrier.\<close>

definition keeps :: "knowledge \<Rightarrow> knowledge \<Rightarrow> bool" where
  "keeps s s' \<longleftrightarrow> kn_barred s \<subseteq> kn_barred s' \<and> (\<forall>k\<in>kn_barred s. kn_heads s' k = kn_heads s k) \<and>
     (\<forall>k n live. kn_heads s k = Some (n, live) \<longrightarrow>
        (\<exists>m live'. kn_heads s' k = Some (m, live') \<and> n \<le> m \<and> (live' \<longrightarrow> live))) \<and>
     (\<forall>k n c. kn_content s (k, n) = Some c \<longrightarrow>
        kn_content s' (k, n) = Some c \<or> k \<in> kn_barred s' \<and> kn_content s' (k, n) = Some ([], [], None)) \<and>
     (\<forall>k\<in>kn_barred s. \<forall>n. kn_content s (k, n) = None \<longrightarrow> kn_content s' (k, n) = None)"

lemma retire_cases:
  "retire K h k = Some (n, live) \<Longrightarrow> \<exists>old. h k = Some (n, old) \<and> (live \<longrightarrow> old)"
  by (auto simp: retire_def split: if_splits)

lemma retire_dead: "h k = Some (n, False) \<Longrightarrow> retire K h k = Some (n, False)"
  by (simp add: retire_def)

lemma knows_keeps:
  assumes "knows s s'" and "knowledge_ok s"
  shows "keeps s s' \<and> knowledge_ok s'"
  using assms
proof (induction rule: knows.induct)
  case (learn s k c)
  have "k \<notin> kn_barred s" using learn by (force simp: knowledge_ok_def)
  moreover have "kn_content s (k, n) = None" for n
    using learn by (cases "kn_content s (k, n)") (fastforce simp: knowledge_ok_def)+
  ultimately show ?case using learn by (auto simp: keeps_def knowledge_ok_def)
next
  case (revise s k n live c)
  then have "k \<notin> kn_barred s" by (force simp: knowledge_ok_def)
  moreover have "kn_content s (k, n + 1) = None"
    using revise by (cases "kn_content s (k, n + 1)") (fastforce simp: knowledge_ok_def)+
  ultimately show ?case using revise by (auto simp: keeps_def knowledge_ok_def dest: le_SucI) (metis le_SucI option.inject prod.inject)+
next
  case (forget B K s)
  have ex: "\<exists>m live'. retire K (kn_heads s) k = Some (m, live') \<and> n \<le> m \<and> (live' \<longrightarrow> live)" if "kn_heads s k = Some (n, live)" for k n live
    using that by (auto simp: retire_def)
  have "keeps s (s\<lparr>kn_heads := retire K (kn_heads s), kn_barred := kn_barred s \<union> B\<rparr>)"
    using forget(2) ex by (auto simp: keeps_def knowledge_ok_def retire_dead)
  moreover have "knowledge_ok (s\<lparr>kn_heads := retire K (kn_heads s), kn_barred := kn_barred s \<union> B\<rparr>)"
    unfolding knowledge_ok_def using forget ex
    by (auto simp: knowledge_ok_def) (metis retire_dead, metis order_trans)
  ultimately show ?case by blast
next
  case (cleanse K s)
  then show ?case by (auto simp: keeps_def knowledge_ok_def blank_def split: if_splits)
qed

lemma keeps_trans:
  assumes "keeps s s1" and "keeps s1 s2"
  shows "keeps s s2"
  unfolding keeps_def
proof (intro conjI allI ballI impI)
  show "kn_barred s \<subseteq> kn_barred s2" using assms by (auto simp: keeps_def)
  show "kn_heads s2 k = kn_heads s k" if "k \<in> kn_barred s" for k
    using assms that unfolding keeps_def by (metis subsetD)
  show "\<exists>m live'. kn_heads s2 k = Some (m, live') \<and> n \<le> m \<and> (live' \<longrightarrow> live)" if "kn_heads s k = Some (n, live)" for k n live
    using assms that unfolding keeps_def by (metis order_trans)
  show "kn_content s2 (k, n) = Some c \<or> k \<in> kn_barred s2 \<and> kn_content s2 (k, n) = Some ([], [], None)"
    if "kn_content s (k, n) = Some c" for k n c
    using assms that unfolding keeps_def by (metis subsetD)
  show "kn_content s2 (k, n) = None" if "k \<in> kn_barred s" "kn_content s (k, n) = None" for k n
    using assms that unfolding keeps_def by (metis subsetD)
qed

text \<open>What is forgotten stays forgotten, however long the appliance runs.\<close>

lemma knowledge_persists:
  assumes "knows\<^sup>*\<^sup>* s s'" and "knowledge_ok s"
  shows "keeps s s' \<and> knowledge_ok s'"
  using assms(1)
proof (induction rule: rtranclp_induct)
  case base
  show ?case using assms(2) by (auto simp: keeps_def)
next
  case (step s1 s2)
  then show ?case using knows_keeps keeps_trans by blast
qed

section \<open>The knowledge of a database\<close>

abbreviation live_row :: "semantic_row \<Rightarrow> bool" where
  "live_row r \<equiv> sm_status r = RecordStatusActive"

definition head_of :: "semantic_row \<Rightarrow> nat \<times> bool" where
  "head_of r = (sm_current_revision r, live_row r)"

definition content_of :: "revision_row \<Rightarrow> content" where
  "content_of v = (rv_kind v, rv_text v, rv_fact v)"

definition knowledge_of :: "db \<Rightarrow> knowledge" where
  "knowledge_of d = \<lparr>kn_heads = (\<lambda>k. map_option head_of (record_of k d)),
     kn_content = (\<lambda>p. map_option content_of (revision_of (fst p) (snd p) d)),
     kn_barred = br_record_id ` set (forgetting_barrier_records d)\<rparr>"

text \<open>A record behind a barrier is stored in the barrier's Space and is not live.\<close>

definition barred_ok :: "db \<Rightarrow> bool" where
  "barred_ok d \<longleftrightarrow> (\<forall>b\<in>set (forgetting_barrier_records d). \<exists>r\<in>set (semantic_records d).
     sm_record_id r = br_record_id b \<and> sm_space_id r = br_space_id b \<and> \<not> live_row r)"

definition system_ok :: "db \<Rightarrow> bool" where
  "system_ok d \<longleftrightarrow> facts_ok d \<and> references_ok d \<and> barriers_ok d \<and> barred_ok d"

text \<open>What a step of the program owes: it keeps the invariant and moves what is known only as the
  specification allows.\<close>

definition evolves :: "db \<Rightarrow> db \<Rightarrow> bool" where
  "evolves d d' \<longleftrightarrow> (system_ok d \<longrightarrow> system_ok d' \<and> knows\<^sup>*\<^sup>* (knowledge_of d) (knowledge_of d'))"

definition system_view ::
  "db \<Rightarrow> semantic_row list \<times> revision_row list \<times> evidence_row list \<times> barrier_row list \<times> barrier_record_row list" where
  "system_view d = (semantic_records d, semantic_revisions d, semantic_evidence d, forgetting_barriers d, forgetting_barrier_records d)"

named_theorems view_frames "operations that leave the tables of the system view alone"

lemma evolves_refl [simp]: "evolves d d"
  by (simp add: evolves_def)

lemma evolves_trans [trans]: "evolves d d1 \<Longrightarrow> evolves d1 d2 \<Longrightarrow> evolves d d2"
  unfolding evolves_def by (meson rtranclp_trans)

lemma evolves_view:
  assumes "system_view d' = system_view d"
  shows "evolves d d'"
proof -
  have t: "semantic_records d' = semantic_records d" "semantic_revisions d' = semantic_revisions d"
    "semantic_evidence d' = semantic_evidence d" "forgetting_barriers d' = forgetting_barriers d"
    "forgetting_barrier_records d' = forgetting_barrier_records d"
    using assms by (simp_all add: system_view_def)
  have "facts_ok d' = facts_ok d" by (rule facts_ok_cong) (simp add: facts_view_def t)
  then have "system_ok d' = system_ok d" by (simp add: system_ok_def references_ok_def barriers_ok_def barred_ok_def t)
  moreover have "knowledge_of d' = knowledge_of d" by (simp add: knowledge_of_def record_of_def revision_of_def t)
  ultimately show ?thesis by (simp add: evolves_def)
qed

lemma record_of_iff:
  assumes "distinct (map sm_record_id (semantic_records d))"
  shows "record_of k d = Some r \<longleftrightarrow> r \<in> set (semantic_records d) \<and> sm_record_id r = k"
proof
  assume r: "r \<in> set (semantic_records d) \<and> sm_record_id r = k"
  then obtain r' where r': "record_of k d = Some r'"
    by (cases "record_of k d") (auto simp: record_of_def find_None_iff)
  then have "r' = r" using record_of_stored[OF r'] r assms find_id_unique[of sm_record_id] by blast
  with r' show "record_of k d = Some r" by simp
qed (rule record_of_stored)

lemma system_distinct: "system_ok d \<Longrightarrow> distinct (map sm_record_id (semantic_records d))"
  by (simp add: system_ok_def references_ok_def)

lemma barred_record:
  assumes "system_ok d" and "b \<in> set (forgetting_barrier_records d)"
  obtains r where "record_of (br_record_id b) d = Some r" "sm_space_id r = br_space_id b" "\<not> live_row r"
proof -
  obtain r where "r \<in> set (semantic_records d)" "sm_record_id r = br_record_id b" "sm_space_id r = br_space_id b" "\<not> live_row r"
    using assms unfolding system_ok_def barred_ok_def by blast
  then show thesis using system_distinct[OF assms(1)] by (intro that[of r]) (auto simp: record_of_iff)
qed

lemma system_knowledge_ok:
  assumes "system_ok d"
  shows "knowledge_ok (knowledge_of d)"
proof -
  have "\<exists>n. kn_heads (knowledge_of d) k = Some (n, False)" if "k \<in> kn_barred (knowledge_of d)" for k
  proof -
    from that obtain b where "b \<in> set (forgetting_barrier_records d)" "k = br_record_id b" by (auto simp: knowledge_of_def)
    with assms obtain r where "record_of k d = Some r" "\<not> live_row r" by (auto elim: barred_record)
    then show ?thesis by (simp add: knowledge_of_def head_of_def)
  qed
  moreover have "\<exists>m live. kn_heads (knowledge_of d) k = Some (m, live) \<and> n \<le> m" if "kn_content (knowledge_of d) (k, n) = Some c" for k n c
  proof -
    from that obtain v where "revision_of k n d = Some v" by (auto simp: knowledge_of_def)
    then have v: "v \<in> set (semantic_revisions d)" "rv_record_id v = k" "rv_revision v = n"
      by (auto simp: revision_of_def dest: find_Some_iff2)
    have h: "history_ok d" using assms by (simp add: system_ok_def facts_ok_def)
    obtain r where r: "r \<in> set (semantic_records d)" "sm_record_id r = k" using h v unfolding history_ok_def by auto
    have "n \<in> revision_numbers d k" using v by (auto simp: revision_numbers_def)
    then have "n \<le> sm_current_revision r" using h r unfolding history_ok_def by auto
    moreover have "record_of k d = Some r" using r system_distinct[OF assms] by (simp add: record_of_iff)
    ultimately show ?thesis by (simp add: knowledge_of_def head_of_def)
  qed
  ultimately show ?thesis by (simp add: knowledge_ok_def)
qed

section \<open>Writing a head\<close>

text \<open>One revision is appended, with evidence, and becomes the head of a new record or of a live one;
  all other records stay.\<close>

definition head_written :: "db \<Rightarrow> semantic_row \<Rightarrow> revision_row \<Rightarrow> db \<Rightarrow> bool" where
  "head_written d r v d' \<longleftrightarrow> new_head d r v d' \<and> r \<in> set (semantic_records d') \<and>
     (\<forall>x\<in>set (semantic_records d). sm_record_id x \<noteq> sm_record_id r \<longrightarrow> x \<in> set (semantic_records d')) \<and>
     rv_space_id v = sm_space_id r \<and>
     (sm_record_id r \<notin> sm_record_id ` set (semantic_records d) \<and> live_row r \<and> sm_current_revision r = 1 \<or>
      (\<exists>r0\<in>set (semantic_records d). sm_record_id r0 = sm_record_id r \<and> sm_space_id r0 = sm_space_id r \<and> live_row r0 \<and>
         sm_current_revision r = sm_current_revision r0 + 1)) \<and>
     (\<exists>es. semantic_evidence d' = semantic_evidence d @ es \<and>
        (\<forall>e\<in>set es. ev_record_id e = rv_record_id v \<and> ev_space_id e = rv_space_id v))"

lemma head_written_knows:
  assumes "system_ok d" and "facts_ok d'" and "head_written d r v d'"
  shows "knows (knowledge_of d) (knowledge_of d')"
proof -
  have new: "new_head d r v d'" using assms(3) by (simp add: head_written_def)
  have dist: "distinct (map sm_record_id (semantic_records d))" "distinct (map sm_record_id (semantic_records d'))"
    using assms(1,2) by (simp_all add: system_ok_def facts_ok_def history_ok_def)
  have rec: "record_of k d' = (if k = sm_record_id r then Some r else record_of k d)" for k
  proof (cases "k = sm_record_id r")
    case True
    then show ?thesis using assms(3) dist(2) by (simp add: record_of_iff head_written_def)
  next
    case False
    have "record_of k d' = Some x \<longleftrightarrow> record_of k d = Some x" for x
      using assms(3) new False by (auto simp: record_of_iff[OF dist(1)] record_of_iff[OF dist(2)] head_written_def new_head_def)
    then show ?thesis using False by (metis not_Some_eq)
  qed
  have rev: "revision_of k n d' = (if (sm_record_id r, sm_current_revision r) = (k, n) then Some v else revision_of k n d)" for k n
    using new revision_of_snoc[of d' d v] by (auto simp: new_head_def)
  have "knowledge_of d' = (knowledge_of d)\<lparr>kn_heads := (kn_heads (knowledge_of d))(sm_record_id r \<mapsto> head_of r),
      kn_content := (kn_content (knowledge_of d))((sm_record_id r, sm_current_revision r) \<mapsto> content_of v)\<rparr>"
    using new by (auto simp: knowledge_of_def rec rev fun_eq_iff new_head_def)
  then have s': "knowledge_of d' = (knowledge_of d)\<lparr>kn_heads := (kn_heads (knowledge_of d))(sm_record_id r \<mapsto> (sm_current_revision r, live_row r)),
      kn_content := (kn_content (knowledge_of d))((sm_record_id r, sm_current_revision r) \<mapsto> content_of v)\<rparr>"
    by (simp add: head_of_def)
  from assms(3) consider (new) "sm_record_id r \<notin> sm_record_id ` set (semantic_records d)" "live_row r" "sm_current_revision r = 1"
    | (old) r0 where "r0 \<in> set (semantic_records d)" "sm_record_id r0 = sm_record_id r" "live_row r0"
        "sm_current_revision r = sm_current_revision r0 + 1"
    unfolding head_written_def by blast
  then show ?thesis
  proof cases
    case new
    then have "kn_heads (knowledge_of d) (sm_record_id r) = None"
      by (auto simp: knowledge_of_def record_of_def find_None_iff image_iff)
    from knows.learn[OF this] show ?thesis unfolding s' using new by simp
  next
    case old
    then have "kn_heads (knowledge_of d) (sm_record_id r) = Some (sm_current_revision r0, True)"
      using record_of_iff[OF dist(1), of "sm_record_id r" r0] by (simp add: knowledge_of_def head_of_def)
    from knows.revise[OF this] show ?thesis unfolding s' old(4) by simp
  qed
qed

lemma head_written_ok:
  assumes "system_ok d" and "facts_ok d'" and "head_written d r v d'"
  shows "system_ok d'"
proof -
  have new: "new_head d r v d'" using assms(3) by (simp add: head_written_def)
  have dist: "distinct (map sm_record_id (semantic_records d))" using assms(1) by (rule system_distinct)
  have kept: "\<exists>y\<in>set (semantic_records d'). sm_record_id y = sm_record_id x \<and> sm_space_id y = sm_space_id x"
    if x: "x \<in> set (semantic_records d)" for x
  proof (cases "sm_record_id x = sm_record_id r")
    case True
    with assms(3) x obtain r0 where r0: "r0 \<in> set (semantic_records d)" "sm_record_id r0 = sm_record_id r" "sm_space_id r0 = sm_space_id r"
      unfolding head_written_def by (metis image_eqI)
    then have "x = r0" using dist x True by (metis find_id_unique)
    then show ?thesis using r0 assms(3) by (intro bexI[of _ r]) (auto simp: head_written_def)
  qed (use assms(3) x in \<open>auto simp: head_written_def\<close>)
  have revs: "semantic_revisions d' = semantic_revisions d @ [v]" "sm_record_id r = rv_record_id v"
    and bars: "forgetting_barriers d' = forgetting_barriers d" "forgetting_barrier_records d' = forgetting_barrier_records d"
    using new by (auto simp: new_head_def)
  obtain es where es: "semantic_evidence d' = semantic_evidence d @ es" "\<forall>e\<in>set es. ev_record_id e = rv_record_id v \<and> ev_space_id e = rv_space_id v"
    using assms(3) unfolding head_written_def by blast
  have refs: "references_ok d" using assms(1) by (simp add: system_ok_def)
  have "references_ok d'"
    unfolding references_ok_def
  proof (intro conjI ballI)
    show "distinct (map sm_record_id (semantic_records d'))" using assms(2) by (simp add: facts_ok_def history_ok_def)
    show "\<exists>x\<in>set (semantic_records d'). sm_record_id x = rv_record_id w \<and> sm_space_id x = rv_space_id w" if w: "w \<in> set (semantic_revisions d')" for w
    proof (cases "w = v")
      case True
      then show ?thesis using assms(3) revs(2) unfolding head_written_def by (intro bexI[of _ r]) auto
    next
      case False
      then have "w \<in> set (semantic_revisions d)" using w revs(1) by simp
      then obtain x where "x \<in> set (semantic_records d)" "sm_record_id x = rv_record_id w" "sm_space_id x = rv_space_id w"
        using refs unfolding references_ok_def by blast
      then show ?thesis using kept[of x] by simp
    qed
    show "\<exists>w\<in>set (semantic_revisions d'). rv_record_id w = ev_record_id e \<and> rv_space_id w = ev_space_id e" if "e \<in> set (semantic_evidence d')" for e
      using that refs es unfolding references_ok_def revs(1) by auto
  qed
  moreover have "barred_ok d'"
    unfolding barred_ok_def bars
  proof
    fix b assume b: "b \<in> set (forgetting_barrier_records d)"
    from assms(1) b obtain x where x: "record_of (br_record_id b) d = Some x" "sm_space_id x = br_space_id b" "\<not> live_row x"
      by (rule barred_record)
    note xm = record_of_stored[OF x(1)]
    have "sm_record_id x \<noteq> sm_record_id r"
    proof
      assume eq: "sm_record_id x = sm_record_id r"
      with assms(3) xm obtain r0 where "r0 \<in> set (semantic_records d)" "sm_record_id r0 = sm_record_id x" "live_row r0"
        unfolding head_written_def by (metis image_eqI)
      then show False using dist xm x(3) by (metis find_id_unique)
    qed
    then have "x \<in> set (semantic_records d')" using assms(3) xm by (simp add: head_written_def)
    with x xm show "\<exists>r\<in>set (semantic_records d'). sm_record_id r = br_record_id b \<and> sm_space_id r = br_space_id b \<and> \<not> live_row r"
      by blast
  qed
  moreover have "barriers_ok d'" using assms(1) by (simp add: system_ok_def barriers_ok_def bars)
  ultimately show ?thesis using assms(2) by (simp add: system_ok_def)
qed

lemma evolves_head:
  assumes "system_ok d \<Longrightarrow> facts_ok d'" and "system_ok d \<Longrightarrow> \<exists>r v. head_written d r v d'"
  shows "evolves d d'"
  using assms head_written_ok head_written_knows unfolding evolves_def by (metis r_into_rtranclp)

section \<open>Governing\<close>

text \<open>Heads keep their identity and no row comes to life, revisions are blanked only behind a barrier,
  and barriers only grow, over records that are not live.\<close>

definition live_rows_kept :: "db \<Rightarrow> db \<Rightarrow> bool" where
  "live_rows_kept d d' \<longleftrightarrow> (\<forall>x\<in>set (semantic_records d'). live_row x \<longrightarrow> x \<in> set (semantic_records d))"

definition governs :: "db \<Rightarrow> db \<Rightarrow> bool" where
  "governs d d' \<longleftrightarrow> map head_key (semantic_records d') = map head_key (semantic_records d) \<and> live_rows_kept d d' \<and>
     semantic_evidence d' = semantic_evidence d \<and>
     (\<exists>K\<subseteq>br_record_id ` set (forgetting_barrier_records d').
        semantic_revisions d' = tbl_update (\<lambda>v. rv_record_id v \<in> K) blank_revision (semantic_revisions d)) \<and>
     (\<forall>f\<in>set (forgetting_barriers d). \<exists>f'\<in>set (forgetting_barriers d'). barrier_id f' = barrier_id f) \<and>
     (\<exists>brs. forgetting_barrier_records d' = forgetting_barrier_records d @ brs \<and>
        (\<forall>b\<in>set brs. (\<exists>f\<in>set (forgetting_barriers d'). fb_sequence f = br_sequence b) \<and>
           (\<exists>r\<in>set (semantic_records d'). sm_record_id r = br_record_id b \<and> sm_space_id r = br_space_id b \<and> \<not> live_row r)))"

lemma head_key_row:
  assumes "map head_key rs' = map head_key rs" and "x \<in> set rs"
  shows "\<exists>y\<in>set rs'. sm_record_id y = sm_record_id x \<and> sm_space_id y = sm_space_id x \<and> sm_current_revision y = sm_current_revision x"
  using map_eq_mem[OF assms(1)[symmetric] assms(2)] by (auto simp: head_key_def)

lemma head_key_ids: "map head_key rs' = map head_key rs \<Longrightarrow> map sm_record_id rs' = map sm_record_id rs"
proof -
  have "map sm_record_id xs = map fst (map head_key xs)" for xs by (simp add: head_key_def)
  then show "map head_key rs' = map head_key rs \<Longrightarrow> map sm_record_id rs' = map sm_record_id rs" by metis
qed

lemma governs_barred:
  assumes "system_ok d" and "governs d d'"
  shows "barred_ok d'"
  unfolding barred_ok_def
proof
  fix b assume b: "b \<in> set (forgetting_barrier_records d')"
  have heads: "map head_key (semantic_records d') = map head_key (semantic_records d)" and live: "live_rows_kept d d'"
    using assms(2) by (simp_all add: governs_def)
  show "\<exists>r\<in>set (semantic_records d'). sm_record_id r = br_record_id b \<and> sm_space_id r = br_space_id b \<and> \<not> live_row r"
  proof (cases "b \<in> set (forgetting_barrier_records d)")
    case True
    with assms(1) obtain x where x: "record_of (br_record_id b) d = Some x" "sm_space_id x = br_space_id b" "\<not> live_row x"
      by (rule barred_record)
    note xm = record_of_stored[OF x(1)]
    then obtain y where y: "y \<in> set (semantic_records d')" "sm_record_id y = sm_record_id x" "sm_space_id y = sm_space_id x"
      using head_key_row[OF heads] by blast
    have "\<not> live_row y"
    proof
      assume "live_row y"
      then have "y \<in> set (semantic_records d)" using live y by (simp add: live_rows_kept_def)
      then have "y = x" using y xm system_distinct[OF assms(1)] by (metis find_id_unique)
      with \<open>live_row y\<close> x show False by simp
    qed
    with x xm y show ?thesis by (intro bexI[of _ y]) auto
  next
    case False
    with assms(2) b show ?thesis unfolding governs_def by auto
  qed
qed

lemma blanked_elsewhere:
  assumes revs: "semantic_revisions d' = tbl_update (\<lambda>v. rv_record_id v \<in> K) blank_revision (semantic_revisions d)"
  shows "revision_of k n d' = map_option (\<lambda>v. if k \<in> K then blank_revision v else v) (revision_of k n d)"
    and "k \<notin> K \<Longrightarrow> fact_rows d' k = fact_rows d k"
    and "revision_keys d' = revision_keys d" and "revision_numbers d' k = revision_numbers d k"
proof -
  have "List.find (\<lambda>v. rv_record_id v = k \<and> rv_revision v = n) (tbl_update (\<lambda>v. rv_record_id v \<in> K) blank_revision vs) =
      map_option (\<lambda>v. if k \<in> K then blank_revision v else v) (List.find (\<lambda>v. rv_record_id v = k \<and> rv_revision v = n) vs)" for vs
    by (induction vs) auto
  then show "revision_of k n d' = map_option (\<lambda>v. if k \<in> K then blank_revision v else v) (revision_of k n d)"
    by (simp add: revision_of_def revs)
  have "filter (\<lambda>v. rv_record_id v = k) (tbl_update (\<lambda>v. rv_record_id v \<in> K) blank_revision vs) = filter (\<lambda>v. rv_record_id v = k) vs"
    if "k \<notin> K" for vs
    using that by (induction vs) auto
  then show "k \<notin> K \<Longrightarrow> fact_rows d' k = fact_rows d k" by (simp add: fact_rows_def revs)
  show keys: "revision_keys d' = revision_keys d" unfolding revision_keys_def revs by (rule map_tbl_update) simp
  have "revision_numbers e k = snd ` {p \<in> set (revision_keys e). fst p = k}" for e
    by (force simp: revision_numbers_def revision_keys_def)
  then show "revision_numbers d' k = revision_numbers d k" by (simp add: keys)
qed

lemma governs_forgotten:
  assumes "governs d d'" and "forgottenRecord d k"
  shows "forgottenRecord d' k"
proof -
  from assms(2) obtain b f where bf: "b \<in> set (forgetting_barrier_records d)" "br_record_id b = k" "f \<in> set (forgetting_barriers d)"
    "fb_sequence f = br_sequence b" "fb_kind f = BarrierReceiptDeleted"
    by (auto simp: forgottenRecord_def record_barriers_def filter_empty_conv)
  obtain f' where "f' \<in> set (forgetting_barriers d')" "barrier_id f' = barrier_id f" using assms(1) bf(3) unfolding governs_def by blast
  moreover have "b \<in> set (forgetting_barrier_records d')" using assms(1) bf(1) unfolding governs_def by auto
  ultimately show ?thesis using bf by (auto simp: forgottenRecord_def record_barriers_def filter_empty_conv barrier_id_def)
qed

lemma governs_facts:
  assumes "system_ok d" and "governs d d'"
  shows "facts_ok d'"
proof -
  have heads: "map head_key (semantic_records d') = map head_key (semantic_records d)"
    and live: "\<And>x. x \<in> set (semantic_records d') \<Longrightarrow> live_row x \<Longrightarrow> x \<in> set (semantic_records d)"
    using assms(2) by (simp_all add: governs_def live_rows_kept_def)
  obtain K where K: "K \<subseteq> br_record_id ` set (forgetting_barrier_records d')"
    and revs: "semantic_revisions d' = tbl_update (\<lambda>v. rv_record_id v \<in> K) blank_revision (semantic_revisions d)"
    using assms(2) unfolding governs_def by blast
  note el = blanked_elsewhere[OF revs]
  have ids: "map sm_record_id (semantic_records d') = map sm_record_id (semantic_records d)" using heads by (rule head_key_ids)
  have old: "facts_ok d" "history_ok d" using assms(1) by (simp_all add: system_ok_def facts_ok_def)
  have dist: "distinct (map sm_record_id (semantic_records d'))" using ids system_distinct[OF assms(1)] by simp
  have notK: "sm_record_id x \<notin> K" if "x \<in> set (semantic_records d')" "live_row x" for x
  proof
    assume "sm_record_id x \<in> K"
    then obtain y where "y \<in> set (semantic_records d')" "sm_record_id y = sm_record_id x" "\<not> live_row y"
      using governs_barred[OF assms] K unfolding barred_ok_def by fastforce
    then have "x = y" using that dist by (metis find_id_unique)
    with that(2) \<open>\<not> live_row y\<close> show False by simp
  qed
  have hf: "head_fact d' x = head_fact d x" if "x \<in> set (semantic_records d')" "live_row x" for x
    using notK[OF that] by (simp add: head_fact_def el(1) option.map_ident)
  have "history_ok d'"
    unfolding history_ok_def
  proof (intro conjI ballI)
    show "revision_numbers d' (sm_record_id r) = {1..sm_current_revision r}" if r: "r \<in> set (semantic_records d')" for r
    proof -
      obtain y where "y \<in> set (semantic_records d)" "sm_record_id y = sm_record_id r" "sm_current_revision y = sm_current_revision r"
        using head_key_row[OF heads[symmetric] r] by blast
      then show ?thesis using old(2) unfolding el(4) history_ok_def by metis
    qed
    show "rv_record_id v \<in> sm_record_id ` set (semantic_records d')" if "v \<in> set (semantic_revisions d')" for v
    proof -
      have "sm_record_id ` set (semantic_records d') = sm_record_id ` set (semantic_records d)" using ids by (metis set_map)
      moreover have "rv_record_id v \<in> rv_record_id ` set (semantic_revisions d)"
        using that unfolding revs by (auto simp: tbl_simps)
      ultimately show ?thesis using old(2) by (auto simp: history_ok_def)
    qed
  qed (rule dist)
  moreover have "heads_match d'" unfolding heads_match_def
    using old(1) live hf unfolding facts_ok_def heads_match_def by metis
  moreover have "unambiguous d'" unfolding unambiguous_def
    using old(1) live hf unfolding facts_ok_def unambiguous_def by metis
  moreover have "lifecycles_ok d'" unfolding lifecycles_ok_def
    using old(1) live notK el(2) governs_forgotten[OF assms(2)] unfolding facts_ok_def lifecycles_ok_def by metis
  ultimately show ?thesis using old(1) by (simp add: facts_ok_def el(3))
qed

lemma governs_ok:
  assumes "system_ok d" and "governs d d'"
  shows "system_ok d'"
proof -
  have heads: "map head_key (semantic_records d') = map head_key (semantic_records d)"
    and ev: "semantic_evidence d' = semantic_evidence d" using assms(2) by (simp_all add: governs_def)
  obtain K where K: "semantic_revisions d' = tbl_update (\<lambda>v. rv_record_id v \<in> K) blank_revision (semantic_revisions d)"
    using assms(2) unfolding governs_def by blast
  have rev: "\<exists>w\<in>set (semantic_revisions d). rv_record_id w = rv_record_id v \<and> rv_space_id w = rv_space_id v"
    if "v \<in> set (semantic_revisions d')" for v
    using that unfolding K by (force simp: tbl_simps)
  have rev': "\<exists>w\<in>set (semantic_revisions d'). rv_record_id w = rv_record_id v \<and> rv_space_id w = rv_space_id v"
    if "v \<in> set (semantic_revisions d)" for v
  proof -
    have "(if rv_record_id v \<in> K then blank_revision v else v) \<in> set (semantic_revisions d')" using that by (simp add: K tbl_simps)
    then show ?thesis by (intro bexI[of _ "if rv_record_id v \<in> K then blank_revision v else v"]) auto
  qed
  have refs: "references_ok d" and bok: "barriers_ok d" using assms(1) by (simp_all add: system_ok_def)
  have "references_ok d'"
    unfolding references_ok_def
  proof (intro conjI ballI)
    show "distinct (map sm_record_id (semantic_records d'))" using head_key_ids[OF heads] system_distinct[OF assms(1)] by simp
    show "\<exists>r\<in>set (semantic_records d'). sm_record_id r = rv_record_id v \<and> sm_space_id r = rv_space_id v"
      if v: "v \<in> set (semantic_revisions d')" for v
    proof -
      obtain w where w: "w \<in> set (semantic_revisions d)" "rv_record_id w = rv_record_id v" "rv_space_id w = rv_space_id v"
        using rev[OF v] by blast
      then obtain x where "x \<in> set (semantic_records d)" "sm_record_id x = rv_record_id v" "sm_space_id x = rv_space_id v"
        using refs unfolding references_ok_def by metis
      then show ?thesis using head_key_row[OF heads, of x] by auto
    qed
    show "\<exists>v\<in>set (semantic_revisions d'). rv_record_id v = ev_record_id e \<and> rv_space_id v = ev_space_id e"
      if e: "e \<in> set (semantic_evidence d')" for e
    proof -
      obtain w where "w \<in> set (semantic_revisions d)" "rv_record_id w = ev_record_id e" "rv_space_id w = ev_space_id e"
        using e refs unfolding ev references_ok_def by blast
      then show ?thesis using rev'[of w] by simp
    qed
  qed
  moreover have "barriers_ok d'"
    unfolding barriers_ok_def
  proof
    fix b assume b: "b \<in> set (forgetting_barrier_records d')"
    show "\<exists>f\<in>set (forgetting_barriers d'). fb_sequence f = br_sequence b"
    proof (cases "b \<in> set (forgetting_barrier_records d)")
      case True
      then obtain f where "f \<in> set (forgetting_barriers d)" "fb_sequence f = br_sequence b" using bok unfolding barriers_ok_def by blast
      then show ?thesis using assms(2) unfolding governs_def barrier_id_def by fastforce
    next
      case False
      with assms(2) b show ?thesis unfolding governs_def by auto
    qed
  qed
  ultimately show ?thesis using governs_facts[OF assms] governs_barred[OF assms] by (simp add: system_ok_def)
qed

lemma governs_knows:
  assumes "system_ok d" and "governs d d'"
  shows "knows\<^sup>*\<^sup>* (knowledge_of d) (knowledge_of d')"
proof -
  have heads: "map head_key (semantic_records d') = map head_key (semantic_records d)"
    and live: "\<And>x. x \<in> set (semantic_records d') \<Longrightarrow> live_row x \<Longrightarrow> x \<in> set (semantic_records d)"
    using assms(2) by (simp_all add: governs_def live_rows_kept_def)
  obtain K where K: "K \<subseteq> br_record_id ` set (forgetting_barrier_records d')"
    and revs: "semantic_revisions d' = tbl_update (\<lambda>v. rv_record_id v \<in> K) blank_revision (semantic_revisions d)"
    using assms(2) unfolding governs_def by blast
  obtain brs where brs: "forgetting_barrier_records d' = forgetting_barrier_records d @ brs" using assms(2) unfolding governs_def by blast
  have dist: "distinct (map sm_record_id (semantic_records d))" "distinct (map sm_record_id (semantic_records d'))"
    using system_distinct assms governs_ok by blast+
  let ?D = "{k. \<exists>x. record_of k d' = Some x \<and> \<not> live_row x}" and ?B = "br_record_id ` set (forgetting_barrier_records d')"
  let ?s = "(knowledge_of d)\<lparr>kn_heads := retire ?D (kn_heads (knowledge_of d)), kn_barred := kn_barred (knowledge_of d) \<union> ?B\<rparr>"
  have h: "kn_heads (knowledge_of d') k = retire ?D (kn_heads (knowledge_of d)) k" for k
  proof (cases "record_of k d'")
    case None
    have "sm_record_id ` set (semantic_records d') = sm_record_id ` set (semantic_records d)"
      using head_key_ids[OF heads] by (metis set_map)
    moreover have "k \<notin> sm_record_id ` set (semantic_records d')" using None by (auto simp: record_of_def find_None_iff)
    ultimately have "record_of k d = None" by (force simp: record_of_def find_None_iff)
    with None show ?thesis by (simp add: knowledge_of_def retire_def)
  next
    case (Some x)
    note x = record_of_stored[OF Some]
    obtain y where y: "y \<in> set (semantic_records d)" "sm_record_id y = k" "sm_current_revision y = sm_current_revision x"
      using head_key_row[OF heads[symmetric], of x] x by auto
    then have ry: "record_of k d = Some y" by (simp add: record_of_iff[OF dist(1)])
    show ?thesis
    proof (cases "live_row x")
      case True
      then have "y = x" using live x y dist(1) by (metis find_id_unique)
      with True Some ry show ?thesis by (simp add: knowledge_of_def retire_def)
    next
      case False
      with Some ry y(3) show ?thesis by (simp add: knowledge_of_def retire_def head_of_def)
    qed
  qed
  then have hs: "kn_heads (knowledge_of d') = retire ?D (kn_heads (knowledge_of d))" by (rule ext)
  have "\<forall>k\<in>?B. \<exists>n. retire ?D (kn_heads (knowledge_of d)) k = Some (n, False)"
    using system_knowledge_ok[OF governs_ok[OF assms]] unfolding hs[symmetric] by (simp add: knowledge_ok_def knowledge_of_def)
  from knows.forget[OF this] have one: "knows (knowledge_of d) ?s" .
  have "K \<subseteq> kn_barred ?s" using K by auto
  from knows.cleanse[OF this] have two: "knows ?s (?s\<lparr>kn_content := blank K (kn_content ?s)\<rparr>)" .
  have "knowledge_of d' = ?s\<lparr>kn_content := blank K (kn_content ?s)\<rparr>"
  proof -
    have "kn_content (knowledge_of d') = blank K (kn_content (knowledge_of d))"
    proof
      fix p :: "string \<times> nat"
      have "content_of (blank_revision v) = ([], [], None)" for v by (simp add: content_of_def blank_revision_def)
      then show "kn_content (knowledge_of d') p = blank K (kn_content (knowledge_of d)) p"
        by (cases "revision_of (fst p) (snd p) d") (simp_all add: knowledge_of_def blank_def blanked_elsewhere(1)[OF revs])
    qed
    moreover have "kn_barred (knowledge_of d') = kn_barred (knowledge_of d) \<union> ?B" by (auto simp: knowledge_of_def brs)
    ultimately show ?thesis using hs by (intro knowledge.equality) simp_all
  qed
  with two have "knows ?s (knowledge_of d')" by simp
  with one show ?thesis by (rule converse_rtranclp_into_rtranclp[of knows, OF _ r_into_rtranclp])
qed

lemma evolves_governs: "(system_ok d \<Longrightarrow> governs d d') \<Longrightarrow> evolves d d'"
  unfolding evolves_def using governs_ok governs_knows by blast

section \<open>Governing a receipt\<close>

lemma live_rows_kept_trans: "live_rows_kept d d1 \<Longrightarrow> live_rows_kept d1 d2 \<Longrightarrow> live_rows_kept d d2"
  by (simp add: live_rows_kept_def)

lemma live_rows_kept_same: "semantic_records d' = semantic_records d \<Longrightarrow> live_rows_kept d d'"
  by (simp add: live_rows_kept_def)

lemma invalidate_record_live:
  assumes "invalidate_record now reason p r d = Inr d'"
  shows "live_rows_kept d d'"
  using assms unfolding invalidate_record_def Let_def
  by (elim run_elims) (auto simp: live_rows_kept_def tbl_simps invalidated_def delete_semantic_projection_def)

lemma invalidate_all_live:
  assumes "fold_res (invalidate_record now reason p) rs d = Inr d'"
  shows "live_rows_kept d d'"
  using assms by (rule fold_res_invariant) (auto intro: live_rows_kept_trans invalidate_record_live live_rows_kept_same)

lemma govern_receipt_live:
  assumes "govern_receipt now expired kind s l rc d = Inr (version, d')"
  shows "live_rows_kept d d'"
proof -
  obtain d0 d2 c d3 d4 where
    0: "insertForgettingBarrier now s l kind rc d = Inr (version, d0)" and
    2: "invalidateSemanticRecordsForReceipt now rc (by_kind kind ''receipt_deleted'' ''receipt_corrected'')
      (suppressEvidenceSource rc (kind = BarrierReceiptDeleted) d0) = Inr d2" and
    3: "persistForgettingClosure version c d2 = Inr d3" and
    4: "invalidateForgettingClosure now c (by_kind kind ''receipt_deleted'' ''receipt_corrected'') d3 = Inr d4" and
    5: "recordReceiptChange now s l (by_kind kind ''receipt_deleted'' ''receipt_corrected'') rc c
      (by_kind kind ''record_forgotten'' ''record_invalidated'') d4 = Inr d'"
    using assms unfolding govern_receipt_def Let_def by (elim run_elims) (clarsimp elim!: run_elims)
  have d0: "semantic_records d0 = semantic_records d" by (rule insertForgettingBarrier_spec[OF 0])
  have "live_rows_kept (suppressEvidenceSource rc (kind = BarrierReceiptDeleted) d0) d2"
    using 2 unfolding invalidateSemanticRecordsForReceipt_def Let_def
    by (elim run_elims) (drule invalidate_all_live, simp add: live_rows_kept_def)
  then have "live_rows_kept d d2" using d0 by (simp add: live_rows_kept_def suppressEvidenceSource_def)
  moreover have "live_rows_kept d2 d3" using persist_records[OF 3] by (simp add: live_rows_kept_same)
  moreover have "live_rows_kept d3 d4"
    using 4 unfolding invalidateForgettingClosure_def by (elim run_elims) (drule invalidate_all_live, simp add: live_rows_kept_def)
  moreover have "live_rows_kept d4 d'" using recordReceiptChange_tables[OF 5] by (simp add: live_rows_kept_same)
  ultimately show ?thesis by (blast intro: live_rows_kept_trans)
qed

lemma govern_receipt_governs:
  assumes g: "govern_receipt now expired kind s l rc d = Inr (version, d')" and ok: "system_ok d"
  shows "governs d d'"
  using g
proof (rule govern_receipt_InrE)
  fix c d1
  assume f1: "governed_frame d d1" and c: "forgettingClosure d1 expired rc s l = Inr c" and f: "governed_frame d d'"
    and bs: "forgetting_barriers d' = forgetting_barriers d @ [new_barrier now s l kind rc version]"
    and brs: "forgetting_barrier_records d' = forgetting_barrier_records d @
      map (\<lambda>x. \<lparr>br_sequence = version, br_record_id = fst x, br_space_id = snd x\<rparr>) (ordered c)"
    and dead: "\<And>r. attributed d rc s l r \<Longrightarrow> r \<in> ids (fc_records c) \<and> r \<in> inactive_ids d'"
  have refs: "references_ok d" using ok by (simp add: system_ok_def)
  have named: "\<exists>r\<in>set (semantic_records d'). sm_record_id r = fst x \<and> sm_space_id r = snd x \<and> \<not> live_row r" if x: "x \<in> set (ordered c)" for x
  proof -
    have xc: "x \<in> set (fc_records c)" using x by (simp add: ordered_def)
    have "located d1 x" using closure_located[OF c references_frame(1)[OF f1 refs]] xc by blast
    then have "located d' x"
      using references_frame(2)[OF f1] references_frame(2)[OF governed_frame_sym[OF f]] by blast
    then obtain r where r: "r \<in> set (semantic_records d')" "sm_record_id r = fst x" "sm_space_id r = snd x" by (auto simp: located_def)
    have "fst x \<in> closure_records c" using xc by (auto simp: ids_def)
    then have "attributed d rc s l (fst x)" using forgettingClosure_spec(1)[OF c] frame_spec(1)[OF f1] by auto
    then have "fst x \<in> inactive_ids d'" using dead by blast
    with r show ?thesis by (auto simp: inactive_ids_def)
  qed
  have revs: "semantic_revisions d' = tbl_update (\<lambda>v. rv_record_id v \<in> {}) blank_revision (semantic_revisions d)"
    using governed_frameD(5)[OF f] by (simp add: tbl_update_none)
  have new: "\<exists>r\<in>set (semantic_records d'). sm_record_id r = br_record_id b \<and> sm_space_id r = br_space_id b \<and> \<not> live_row r"
    if "b \<in> set (map (\<lambda>x. \<lparr>br_sequence = version, br_record_id = fst x, br_space_id = snd x\<rparr>) (ordered c))" for b
    using that named by auto
  have seq: "\<exists>f\<in>set (forgetting_barriers d'). fb_sequence f = br_sequence b"
    if "b \<in> set (map (\<lambda>x. \<lparr>br_sequence = version, br_record_id = fst x, br_space_id = snd x\<rparr>) (ordered c))" for b
    using that bs by (auto simp: new_barrier_def)
  show "governs d d'"
    unfolding governs_def
  proof (intro conjI exI[of _ "{}"] exI[of _ "map (\<lambda>x. \<lparr>br_sequence = version, br_record_id = fst x, br_space_id = snd x\<rparr>) (ordered c)"])
    show "live_rows_kept d d'" by (rule govern_receipt_live[OF g])
    show "semantic_evidence d' = semantic_evidence d" by (rule governed_frameD[OF f])
    show "\<forall>f\<in>set (forgetting_barriers d). \<exists>f'\<in>set (forgetting_barriers d'). barrier_id f' = barrier_id f" using bs by auto
  qed (use f revs brs new seq in \<open>auto simp: governed_frame_def\<close>)
qed

section \<open>Cleansing\<close>

lemma cleanse_rows:
  assumes "fold_res cleanse_record rs d = Inr d'"
  shows "\<forall>x\<in>set (semantic_records d'). sm_record_id x \<notin> ids rs \<longrightarrow> x \<in> set (semantic_records d)"
  using assms
proof (induction rs arbitrary: d)
  case (Cons r rs)
  then obtain d1 where d1: "cleanse_record r d = Inr d1" and rest: "fold_res cleanse_record rs d1 = Inr d'" by (auto elim: run_elims)
  have "\<forall>x\<in>set (semantic_records d1). sm_record_id x \<noteq> fst r \<longrightarrow> x \<in> set (semantic_records d)"
    using d1 unfolding cleanse_record_def Let_def by (elim run_elims) (auto simp: delete_semantic_projection_def tbl_simps)
  with Cons.IH[OF rest] show ?case by (auto simp: ids_def)
qed simp

lemma cleanup_governs:
  assumes run: "cleanupForgettingBarrier now out b d = (res, d')" and ok: "system_ok d"
  shows "governs d d'"
proof -
  have frame: "cleanup_frame d d'" by (rule cleanup_gives_frame[OF run])
  let ?rs = "barrierDerivedRecords d (fb_sequence b)"
  have barred: "\<exists>br\<in>set (forgetting_barrier_records d). br_record_id br = fst x \<and> br_space_id br = snd x" if "x \<in> set ?rs" for x
    using that by (auto simp: barrierDerivedRecords_def)
  have "fst x \<in> inactive_ids d" if "x \<in> set ?rs" for x
  proof -
    from barred[OF that] obtain br where br: "br \<in> set (forgetting_barrier_records d)" "br_record_id br = fst x" by blast
    with ok obtain r where r: "record_of (fst x) d = Some r" "\<not> live_row r" by (auto elim: barred_record)
    have "y = r" if "y \<in> set (semantic_records d)" "sm_record_id y = fst x" for y
      using that r(1) record_of_iff[OF system_distinct[OF ok], of "fst x" y] by simp
    then show ?thesis using r(2) by (auto simp: inactive_ids_def)
  qed
  then have dead: "ids ?rs \<subseteq> inactive_ids d'" using frame by (auto simp: ids_def cleanup_frame_def)
  have rows: "\<forall>x\<in>set (semantic_records d'). sm_record_id x \<notin> ids ?rs \<longrightarrow> x \<in> set (semantic_records d)"
  proof -
    have "semantic_records d' = semantic_records d \<or> (\<exists>d1. fold_res cleanse_record ?rs d = Inr d1 \<and> semantic_records d' = semantic_records d1)"
      using run unfolding cleanupForgettingBarrier_def cleanseDerivedHistory_def Let_def
      by (auto simp: commit_tx_def split: option.splits sum.splits commit_outcome.splits if_splits elim!: run_elims)
    then show ?thesis using cleanse_rows by metis
  qed
  then have live: "live_rows_kept d d'" using dead by (auto simp: live_rows_kept_def inactive_ids_def)
  have space: "(rv_record_id v, rv_space_id v) \<in> set ?rs \<longleftrightarrow> rv_record_id v \<in> ids ?rs" if "v \<in> set (semantic_revisions d)" for v
  proof
    assume "rv_record_id v \<in> ids ?rs"
    then obtain x where x: "x \<in> set ?rs" "fst x = rv_record_id v" by (auto simp: ids_def)
    from barred[OF x(1)] obtain br where br: "br \<in> set (forgetting_barrier_records d)" "br_record_id br = fst x" "br_space_id br = snd x" by blast
    with ok have "located d x" by (auto simp: located_def system_ok_def barred_ok_def) metis
    then have "rv_space_id v = snd x" using ok located_revision[OF _ _ that x(2)[symmetric]] by (simp add: system_ok_def)
    with x show "(rv_record_id v, rv_space_id v) \<in> set ?rs" by (metis prod.collapse)
  qed (force simp: ids_def)
  have "\<exists>K\<subseteq>ids ?rs. semantic_revisions d' = tbl_update (\<lambda>v. rv_record_id v \<in> K) blank_revision (semantic_revisions d)"
  proof -
    have eq: "tbl_update (\<lambda>v. (rv_record_id v, rv_space_id v) \<in> set ?rs) blank_revision (semantic_revisions d) =
        tbl_update (\<lambda>v. rv_record_id v \<in> ids ?rs) blank_revision (semantic_revisions d)"
      using space by (auto simp: tbl_update_def)
    have none: "semantic_revisions d = tbl_update (\<lambda>v. rv_record_id v \<in> {}) blank_revision (semantic_revisions d)"
      by (simp add: tbl_update_none)
    from run show ?thesis
    proof (cases rule: cleanup_cases)
      case skipped
      with none show ?thesis by blast
    next
      case (cleaned d1)
      then have "semantic_revisions d' = semantic_revisions d1" by simp
      then show ?thesis using cleaned(5) none unfolding eq
        by (intro exI[of _ "if fb_kind b = BarrierReceiptDeleted then ids ?rs else {}"]) simp
    qed
  qed
  then obtain K where K: "K \<subseteq> ids ?rs" "semantic_revisions d' = tbl_update (\<lambda>v. rv_record_id v \<in> K) blank_revision (semantic_revisions d)" by blast
  have brs: "forgetting_barrier_records d' = forgetting_barrier_records d @ []" using frame by (simp add: cleanup_frame_def)
  show ?thesis
    unfolding governs_def
  proof (intro conjI exI[of _ K] exI[of _ "[]"])
    show "K \<subseteq> br_record_id ` set (forgetting_barrier_records d')"
    proof
      fix k assume "k \<in> K"
      then obtain x where x: "x \<in> set ?rs" "k = fst x" using K(1) by (auto simp: ids_def)
      from barred[OF x(1)] obtain br where br: "br \<in> set (forgetting_barrier_records d)" "br_record_id br = fst x" by blast
      show "k \<in> br_record_id ` set (forgetting_barrier_records d')" using imageI[OF br(1), of br_record_id] by (simp add: brs x br)
    qed
    show "\<forall>f\<in>set (forgetting_barriers d). \<exists>f'\<in>set (forgetting_barriers d'). barrier_id f' = barrier_id f"
      using frame map_eq_mem[of barrier_id "forgetting_barriers d" "forgetting_barriers d'"] by (simp add: cleanup_frame_def)
  qed (use K live brs frame cleanup_frameD(5)[OF frame] in \<open>simp_all add: cleanup_frame_def\<close>)
qed

end
