(* ===== verification/System.thy ===== *)
theory System
  imports Knowledge
begin

text \<open>
  The whole appliance: every handler that changes the database, as one step relation, and what holds
  in every state it can reach. Each handler either leaves the tables of the knowledge alone, or
  writes heads one after another, or governs a receipt; \<open>evolves\<close> collects what each of them owes.
\<close>

section \<open>Handlers that leave the knowledge alone\<close>

definition core_view :: "db \<Rightarrow> _" where
  "core_view d = (system_view d, evidence_sources d, receipt_tombstones d)"

lemma core_system_view: "core_view d' = core_view d \<Longrightarrow> system_view d' = system_view d"
  by (simp add: core_view_def)

lemma view_fold_res:
  assumes "fold_res f xs d = Inr d'" and "\<And>x e e'. f x e = Inr e' \<Longrightarrow> core_view e' = core_view e"
  shows "core_view d' = core_view d"
  using fold_res_invariant[OF assms(1), of "\<lambda>e. core_view e = core_view d"] assms(2) by simp

lemma view_commit:
  assumes "commit_tx out e d d1 r = (res, d')" and "core_view d1 = core_view d"
  shows "core_view d' = core_view d"
  using assms by (auto simp: commit_tx_def split: commit_outcome.splits)

lemma create_space_view: "create_space now x d = Inr d' \<Longrightarrow> core_view d' = core_view d"
  unfolding create_space_def createSpaceIndex_def insert_space_def insert_space_index_def insert_semantic_space_index_def
  by (elim run_elims) (auto simp: core_view_def system_view_def tbl_simps)

lemma insert_view_spaces_view: "insert_view_spaces v n xs d = Inr d' \<Longrightarrow> core_view d' = core_view d"
  by (induction v n xs d rule: insert_view_spaces.induct)
     (auto simp: insert_view_read_space_def core_view_def system_view_def tbl_simps elim!: run_elims)

lemma createView_view: "createView now x d = Inr d' \<Longrightarrow> core_view d' = core_view d"
  unfolding createView_def insert_view_def
  by (clarsimp elim!: run_elims) (drule insert_view_spaces_view, auto simp: core_view_def system_view_def tbl_simps)

lemma createGrant_view:
  assumes "createGrant now x d = Inr d'"
  shows "core_view d' = core_view d"
proof -
  obtain g d1 d2 where 1: "insert_grant g d = Some d1"
    and 2: "fold_res (\<lambda>p d. of_opt (Errorf ''create Grant operation'') (insert_grant_operation (gd_id x) p d)) (gd_allowed_operations x) d1 = Inr d2"
    and 3: "fold_res (\<lambda>a d. of_opt (Errorf ''create Grant audience'') (insert_grant_audience (gd_id x) a d)) (gd_allowed_audiences x) d2 = Inr d'"
    using assms unfolding createGrant_def by (clarsimp elim!: run_elims)
  have "core_view d1 = core_view d" using 1 by (auto simp: insert_grant_def core_view_def system_view_def tbl_simps)
  moreover have "core_view d2 = core_view d1"
    using 2 by (rule view_fold_res) (auto simp: insert_grant_operation_def core_view_def system_view_def tbl_simps elim!: run_elims)
  moreover have "core_view d' = core_view d2"
    using 3 by (rule view_fold_res) (auto simp: insert_grant_audience_def core_view_def system_view_def tbl_simps elim!: run_elims)
  ultimately show ?thesis by simp
qed

lemma create_issuers_view:
  assumes "fold_res (create_issuer now) xs (cs, rnd, d) = Inr (cs', rnd', d')"
  shows "core_view d' = core_view d"
proof -
  have "core_view (snd (snd (cs', rnd', d'))) = core_view d"
    by (rule fold_res_invariant[OF assms])
       (auto simp: create_issuer_def insert_issuer_credential_def core_view_def system_view_def tbl_simps elim!: run_elims)
  then show ?thesis by simp
qed

lemma Bootstrap_view:
  assumes "Bootstrap s now rnd request d = Inr (credentials, d')"
  shows "core_view d' = core_view d"
proof -
  obtain d1 d2 d3 d4 d5 rnd' where
    1: "fold_res (create_realm now) (bs_realms request) d = Inr d1" and 2: "fold_res (create_identity now) (bs_identities request) d1 = Inr d2"
    and 3: "fold_res (create_space now) (bs_spaces request) d2 = Inr d3" and 4: "fold_res (createView now) (bs_views request) d3 = Inr d4"
    and 5: "fold_res (createGrant now) (bs_grants request) d4 = Inr d5"
    and 6: "fold_res (create_issuer now) (bs_issuer_principals request) ([], rnd, d5) = Inr (credentials, rnd', d')"
    using assms unfolding Bootstrap_def by (clarsimp elim!: run_elims)
  have "core_view d1 = core_view d"
    using 1 by (rule view_fold_res) (auto simp: create_realm_def insert_realm_def core_view_def system_view_def tbl_simps elim!: run_elims)
  moreover have "core_view d2 = core_view d1"
    using 2 by (rule view_fold_res) (auto simp: create_identity_def insert_identity_def core_view_def system_view_def tbl_simps elim!: run_elims)
  ultimately show ?thesis
    using view_fold_res[OF 3 create_space_view] view_fold_res[OF 4 createView_view] view_fold_res[OF 5 createGrant_view]
      create_issuers_view[OF 6] by simp
qed

lemma IssueCapability_view:
  assumes "IssueCapability s now rnd r d = Inr (capability, d')"
  shows "core_view d' = core_view d"
proof -
  obtain c d1 digest where 1: "insert_capability c d = Some d1"
    and 2: "fold_res (\<lambda>p d. of_opt (Errorf ''store capability operation'') (insert_capability_operation digest p d)) (ic_operations r) d1 = Inr d'"
    using assms unfolding IssueCapability_def Let_def by (clarsimp elim!: run_elims)
  have "core_view d1 = core_view d" using 1 by (auto simp: insert_capability_def core_view_def system_view_def tbl_simps)
  moreover have "core_view d' = core_view d1"
    using 2 by (rule view_fold_res) (auto simp: insert_capability_operation_def core_view_def system_view_def tbl_simps elim!: run_elims)
  ultimately show ?thesis by simp
qed

lemma issuer_and_grant_views:
  "RotateIssuerCredential s now rnd principalRef d = Inr (auth, d') \<Longrightarrow> core_view d' = core_view d"
  "RevokeGrant s grantID d = Inr d' \<Longrightarrow> core_view d' = core_view d"
  unfolding RotateIssuerCredential_def RevokeGrant_def Let_def
  by (auto simp: core_view_def system_view_def split: if_splits elim!: run_elims)

lemma profile_views:
  "PutStewardProfile s now out spec d = (res, d') \<Longrightarrow> core_view d' = core_view d"
  "BindStewardProfile s now out profileID version spaceIDs d = (res', d') \<Longrightarrow> core_view d' = core_view d"
  "DisableSteward s now out spaceIDs d = (res'', d') \<Longrightarrow> core_view d' = core_view d"
proof -
  show "PutStewardProfile s now out spec d = (res, d') \<Longrightarrow> core_view d' = core_view d"
    unfolding PutStewardProfile_def insert_profile_def
    by (auto simp: core_view_def system_view_def tbl_simps commit_tx_def Let_def split: sum.splits option.splits if_splits commit_outcome.splits)
  have bind: "bind_space now profileID version x e = Inr e' \<Longrightarrow> core_view e' = core_view e" for x e e'
    unfolding bind_space_def upsert_binding_def Let_def by (elim run_elims) (auto simp: core_view_def system_view_def)
  show "BindStewardProfile s now out profileID version spaceIDs d = (res', d') \<Longrightarrow> core_view d' = core_view d"
    unfolding BindStewardProfile_def
    by (auto split: sum.splits elim!: run_elims view_commit intro: view_fold_res[OF _ bind])
  have "core_view (snd (fold (disable_space now) xs st)) = core_view (snd st)" for xs st
    by (induction xs arbitrary: st) (auto simp: disable_space_def core_view_def system_view_def Let_def split: prod.splits)
  from this[of spaceIDs "((0, 0), d)"]
  show "DisableSteward s now out spaceIDs d = (res'', d') \<Longrightarrow> core_view d' = core_view d"
    unfolding DisableSteward_def by (auto split: sum.splits prod.splits elim!: view_commit)
qed

lemma enqueue_view: "enqueueStewardJob now rc sp ls l d = Some d' \<Longrightarrow> core_view d' = core_view d"
  by (auto simp: enqueueStewardJob_def insert_job_def core_view_def system_view_def tbl_simps split: option.splits if_splits)

lemma Remember_view:
  assumes "Remember s A now rnd env auth request d = (res, d')"
  shows "core_view d' = core_view d"
proof -
  have writes: "remember_writes s A now view request receiptID token e = Inr e' \<Longrightarrow> core_view e' = core_view e" for view receiptID token e e'
    unfolding remember_writes_def insert_processing_def insert_cursor_def indexReceiptProjection_def
    by (elim run_elims; drule enqueue_view; auto simp: core_view_def system_view_def tbl_simps)
  have ins: "insert_receipt r d = Some e \<Longrightarrow> core_view e = core_view d" for r e
    by (auto simp: insert_receipt_def Let_def core_view_def system_view_def tbl_simps)
  have tx: "remember_tx s A now rnd auth request d = Inr (response, Some d1) \<Longrightarrow> core_view d1 = core_view d" for response d1
    unfolding remember_tx_def Let_def
    by (auto split: option.splits elim!: run_elims dest!: writes ins)
  show ?thesis
    using assms unfolding Remember_def
    by (auto dest: tx simp: commit_tx_def split: sum.splits option.splits prod.splits if_splits commit_outcome.splits elim!: run_elims)
qed

lemma claim_tx_view:
  assumes "claim_tx A F now leaseDuration leaseToken d = Inr (st, d')"
  shows "core_view d' = core_view d"
proof -
  have sweep: "core_view (sweep_jobs now d) = core_view d"
    by (simp add: sweep_jobs_def fail_jobs_def fail_receipts_of_def requeue_receipts_def Let_def core_view_def system_view_def)
  have persist: "persistStewardReadSet jobID attempt records e = Inr e' \<Longrightarrow> core_view e' = core_view e" for jobID attempt records e e'
    unfolding persistStewardReadSet_def
    by (erule view_fold_res) (auto simp: insert_read_set_def core_view_def system_view_def tbl_simps elim!: run_elims)
  have upd: "core_view (e\<lparr>steward_jobs := js, receipt_processing := ps\<rparr>) = core_view e" for e js ps by (simp add: core_view_def system_view_def)
  show ?thesis
    using assms sweep unfolding claim_tx_def Let_def
    by (auto dest!: persist simp: failStewardJobTx_def upd split: option.splits if_splits elim!: run_elims)
qed

lemma claimStewardJob_view:
  assumes "claimStewardJob A F now out leaseDuration leaseToken d = (res, d')"
  shows "core_view d' = core_view d"
  using assms unfolding claimStewardJob_def
  by (auto dest: claim_tx_view elim!: view_commit split: sum.splits prod.splits claim_step.splits)

lemma claim_attempts_view:
  "claim_attempts n A F clock out leaseDuration leaseToken k d = (res, d') \<Longrightarrow> core_view d' = core_view d"
proof (induction n A F clock out leaseDuration leaseToken k d arbitrary: res d' rule: claim_attempts.induct)
  case (2 n A F clock out leaseDuration leaseToken k d)
  obtain r d1 where one: "claimStewardJob A F (clock k) out leaseDuration leaseToken d = (r, d1)" by fastforce
  note v = claimStewardJob_view[OF one]
  show ?case
  proof (cases r)
    case (Inl e)
    then show ?thesis using "2.prems" one v by simp
  next
    case (Inr p)
    obtain work again where p: "p = (work, again)" by (cases p)
    show ?thesis using "2.prems" "2.IH" one Inr p v by (auto split: if_splits)
  qed
qed simp

lemma queue_views:
  "ClaimStewardJob s A F clock rnd out leaseDuration d = (res, d') \<Longrightarrow> core_view d' = core_view d"
  "FailStewardJob s now out held failure d = (res', d') \<Longrightarrow> core_view d' = core_view d"
  "ReportStewardFailure s now out request d = (res', d') \<Longrightarrow> core_view d' = core_view d"
proof -
  show "ClaimStewardJob s A F clock rnd out leaseDuration d = (res, d') \<Longrightarrow> core_view d' = core_view d"
    unfolding ClaimStewardJob_def
    by (auto dest: claim_attempts_view split: sum.splits if_splits option.splits)
  show fail: "FailStewardJob s now out held failure d = (res', d') \<Longrightarrow> core_view d' = core_view d" for held failure
    unfolding FailStewardJob_def
    by (auto simp: commit_tx_def failStewardJobTx_def core_view_def system_view_def split: sum.splits if_splits commit_outcome.splits)
  show "ReportStewardFailure s now out request d = (res', d') \<Longrightarrow> core_view d' = core_view d"
    unfolding ReportStewardFailure_def Let_def by (auto dest: fail split: sum.splits)
qed

lemma change_view_core: "recordMemoryChange now sp l k rc r d = Inr d' \<Longrightarrow> core_view d' = core_view d"
  using recordMemoryChange_tables by (fastforce simp: core_view_def system_view_def)

lemma SetIngestionPolicy_view:
  assumes "SetIngestionPolicy s now out p d = (res, d')"
  shows "core_view d' = core_view d"
proof -
  have "policy_tx now p d = Inr d1 \<Longrightarrow> core_view d1 = core_view d" for d1
    unfolding policy_tx_def upsert_policy_def
    by (elim run_elims) (drule change_view_core, simp add: core_view_def system_view_def)
  then show ?thesis using assms unfolding SetIngestionPolicy_def
    by (auto elim!: view_commit run_elims split: sum.splits)
qed

lemmas change_system_view = change_view_core[THEN core_system_view]

section \<open>Applying a proposal\<close>

lemma insert_op_evidence_space:
  assumes "insert_op_evidence recordID revision spaceID refs d = Inr d'"
  shows "\<exists>es. d' = d\<lparr>semantic_evidence := semantic_evidence d @ es\<rparr> \<and> (\<forall>e\<in>set es. ev_record_id e = recordID \<and> ev_space_id e = spaceID)"
proof -
  have "\<exists>es. d' = d\<lparr>semantic_evidence := semantic_evidence d @ es\<rparr> \<and> (\<forall>e\<in>set es. ev_record_id e = recordID \<and> ev_space_id e = spaceID)"
    if "fold_res (\<lambda>(ordinal, receiptID) d. of_opt (Errorf ''append semantic Evidence'')
        (insert_evidence \<lparr>ev_record_id = recordID, ev_revision = revision, ev_ordinal = ordinal, ev_receipt_id = receiptID,
           ev_space_id = spaceID\<rparr> d)) xs d = Inr d'" for xs d
    using that
  proof (induction xs arbitrary: d)
    case Nil
    then show ?case by (intro exI[of _ "[]"]) simp
  next
    case (Cons x xs)
    obtain n e where x: "x = (n, e)" by (cases x)
    let ?row = "\<lparr>ev_record_id = recordID, ev_revision = revision, ev_ordinal = n, ev_receipt_id = e, ev_space_id = spaceID\<rparr>"
    from Cons.prems x obtain d1 where d1: "insert_evidence ?row d = Some d1"
      and rest: "fold_res (\<lambda>(ordinal, receiptID) d. of_opt (Errorf ''append semantic Evidence'')
        (insert_evidence \<lparr>ev_record_id = recordID, ev_revision = revision, ev_ordinal = ordinal, ev_receipt_id = receiptID,
           ev_space_id = spaceID\<rparr> d)) xs d1 = Inr d'"
      by (auto elim!: run_elims)
    from Cons.IH[OF rest] obtain es where es: "d' = d1\<lparr>semantic_evidence := semantic_evidence d1 @ es\<rparr>"
      "\<forall>e\<in>set es. ev_record_id e = recordID \<and> ev_space_id e = spaceID" by blast
    have "d1 = d\<lparr>semantic_evidence := semantic_evidence d @ [?row]\<rparr>"
      using d1 by (simp add: insert_evidence_def tbl_simps)
    with es show ?case by (intro exI[of _ "?row # es"]) simp
  qed
  from this[of "enumerate 0 refs"] assms show ?thesis by (simp add: insert_op_evidence_def)
qed


text \<open>The two ways a head is written: a new record with its first revision, a live record with its next.\<close>

definition writes_revision :: "db \<Rightarrow> revision_row \<Rightarrow> db \<Rightarrow> bool" where
  "writes_revision d v d' \<longleftrightarrow> semantic_revisions d' = semantic_revisions d @ [v] \<and>
     (rv_record_id v, rv_revision v) \<notin> set (revision_keys d) \<and>
     (\<exists>es. semantic_evidence d' = semantic_evidence d @ es \<and>
        (\<forall>e\<in>set es. ev_record_id e = rv_record_id v \<and> ev_space_id e = rv_space_id v)) \<and>
     semantic_records d' = semantic_records d \<and> forgetting_barriers d' = forgetting_barriers d \<and>
     forgetting_barrier_records d' = forgetting_barrier_records d"

lemma add_written:
  assumes h: "history_ok d" and ins: "insert_record r d = Some d1" and w: "writes_revision d1 v d'"
    and r: "live_row r" "sm_current_revision r = 1" "rv_record_id v = sm_record_id r" "rv_revision v = 1" "rv_space_id v = sm_space_id r"
  shows "head_written d r v d'" "history_ok d'" "fact_rows d (sm_record_id r) = []"
proof -
  have d1: "d1 = d\<lparr>semantic_records := semantic_records d @ [r]\<rparr>" and new: "sm_record_id r \<notin> sm_record_id ` set (semantic_records d)"
    using ins by (auto simp: insert_record_def tbl_simps clash_on_def)
  have low: "rv_record_id x \<noteq> sm_record_id r" if "x \<in> set (semantic_revisions d)" for x
    using h new that unfolding history_ok_def by metis
  then show "fact_rows d (sm_record_id r) = []" by (auto simp: fact_rows_def List.map_filter_def filter_empty_conv)
  have t: "semantic_records d' = semantic_records d @ [r]" "semantic_revisions d' = semantic_revisions d @ [v]"
    using w by (simp_all add: writes_revision_def d1)
  have "new_head d r v d'" using w new low r t by (auto simp: new_head_def writes_revision_def d1 revision_keys_def image_iff)
  then show "head_written d r v d'" using w r new t by (auto simp: head_written_def writes_revision_def d1)
  show "history_ok d'" by (rule history_add[OF h t(1) new t(2) r(3,4,2)])
qed

lemma advance_written:
  assumes h: "history_ok d" and r0: "r0 \<in> set (semantic_records d)" "p r0" "live_row r0"
    and upd: "d1 = d\<lparr>semantic_records := tbl_update (\<lambda>x. sm_record_id x = sm_record_id r0 \<and> p x) f (semantic_records d)\<rparr>"
    and f: "\<And>x. sm_record_id (f x) = sm_record_id x" "sm_space_id (f r0) = sm_space_id r0" "sm_current_revision (f r0) = sm_current_revision r0 + 1"
    and w: "writes_revision d1 v d'"
    and v: "rv_record_id v = sm_record_id r0" "rv_revision v = sm_current_revision r0 + 1" "rv_space_id v = sm_space_id r0"
  shows "head_written d (f r0) v d'" "history_ok d'"
proof -
  have t: "semantic_records d' = tbl_update (\<lambda>x. sm_record_id x = sm_record_id r0 \<and> p x) f (semantic_records d)"
    "semantic_revisions d' = semantic_revisions d @ [v]" "(rv_record_id v, rv_revision v) \<notin> set (revision_keys d)"
    using w by (simp_all add: writes_revision_def upd revision_keys_def)
  have uniq: "x = r0" if "x \<in> set (semantic_records d)" "sm_record_id x = sm_record_id r0" for x
    using h that r0 by (auto simp: history_ok_def intro: find_id_unique[of sm_record_id])
  have low: "rv_revision x < rv_revision v" if "x \<in> set (semantic_revisions d)" "rv_record_id x = sm_record_id r0" for x
  proof -
    have "rv_revision x \<in> revision_numbers d (sm_record_id r0)" using that by (auto simp: revision_numbers_def)
    then show ?thesis using h r0 v by (auto simp: history_ok_def)
  qed
  have rows: "x = f r0 \<or> x \<in> set (semantic_records d) \<and> sm_record_id x \<noteq> sm_record_id r0" if "x \<in> set (semantic_records d')" for x
  proof -
    from that obtain y where y: "y \<in> set (semantic_records d)" "x = (if sm_record_id y = sm_record_id r0 \<and> p y then f y else y)"
      unfolding t(1) tbl_update_def by auto
    show ?thesis using y uniq[of y] r0(2) by (cases "sm_record_id y = sm_record_id r0") simp_all
  qed
  have mem: "f r0 \<in> set (semantic_records d')" using r0 unfolding t(1) tbl_update_def by force
  have kept: "x \<in> set (semantic_records d')" if "x \<in> set (semantic_records d)" "sm_record_id x \<noteq> sm_record_id r0" for x
    using that unfolding t(1) tbl_update_def by force
  have "new_head d (f r0) v d'" using w t rows low v f by (auto simp: new_head_def writes_revision_def upd)
  then show "head_written d (f r0) v d'" using w mem kept v f r0 unfolding head_written_def writes_revision_def upd by auto
  show "history_ok d'" by (rule history_advance[OF h r0(1) t(1), of v]) (use r0 f t v in simp_all)
qed

lemma append_revision_written:
  assumes "append_revision A now job jobID op recordID revision factMeta d = Inr d'"
  obtains v where "writes_revision d v d'" "rv_record_id v = recordID" "rv_revision v = revision" "rv_fact v = factMeta" "rv_space_id v = jb_space_id job"
proof -
  note t = append_revision_tables[OF assms]
  obtain v where v: "semantic_revisions d' = semantic_revisions d @ [v]" "rv_record_id v = recordID" "rv_revision v = revision"
    "rv_fact v = factMeta" "(recordID, revision) \<notin> set (revision_keys d)" using t by (auto simp: revision_keys_def)
  obtain d1 d2 tableName d3 where
    1: "insert_revision \<lparr>rv_record_id = recordID, rv_revision = revision, rv_space_id = jb_space_id job,
         rv_kind = op_kind op, rv_text = op_text op, rv_operation = op_operation op, rv_job_id = Some jobID,
         rv_created_at = now, rv_fact = factMeta\<rparr> d = Some d1"
    and 2: "insert_op_evidence recordID revision (jb_space_id job) (op_evidence_refs op) d1 = Inr d2"
    and 3: "indexSemanticProjection A tableName recordID revision (op_text op) [] (delete_semantic_projection tableName recordID d2) = Some d3"
    and 4: "recordMemoryChange now (jb_space_id job) (jb_label_set_digest job) (stewardMemoryChangeKind (op_operation op))
      (jb_receipt_id job) recordID d3 = Inr d'"
    using assms unfolding append_revision_def by (elim run_elims)
  obtain es where es: "d2 = d1\<lparr>semantic_evidence := semantic_evidence d1 @ es\<rparr>"
      "\<forall>e\<in>set es. ev_record_id e = recordID \<and> ev_space_id e = jb_space_id job"
    using insert_op_evidence_space[OF 2] by blast
  have d3: "\<exists>fs. d3 = d2\<lparr>semantic_fts := fs\<rparr>" using 3 by (auto simp: indexSemanticProjection_def delete_semantic_projection_def)
  have d1: "semantic_evidence d1 = semantic_evidence d" "\<exists>w. semantic_revisions d1 = semantic_revisions d @ [w] \<and> rv_space_id w = jb_space_id job"
    using 1 by (auto simp: insert_revision_def tbl_simps)
  have tabs: "semantic_evidence d' = semantic_evidence d @ es" "semantic_revisions d' = semantic_revisions d1"
    using d3 es d1 recordMemoryChange_tables[OF 4] by auto
  then have "rv_space_id v = jb_space_id job" using d1 v(1) by auto
  with v es tabs t show thesis by (intro that[of v]) (auto simp: writes_revision_def semantic_frameD)
qed

lemma applyStewardOp_evolves:
  assumes "applyStewardOp A now job jobID src op (rnd, d) = Inr (applied, rnd', d')"
  shows "evolves d d'"
proof -
  consider (ignore) "d' = d"
    | (add) recordID d1 where "create_record now job op (pending_metadata src) recordID d = Inr d1"
        "append_revision A now job jobID op recordID 1 (pending_metadata src) d1 = Inr d'"
    | (edit) d1 where "advance_record now job op d = Inr d1"
        "append_revision A now job jobID op (op_target_record_id op) (op_expected_revision op + 1) None d1 = Inr d'"
    using assms unfolding applyStewardOp_def Let_def by (auto split: if_splits elim!: run_elims)
  then show ?thesis
  proof cases
    case ignore
    then show ?thesis by simp
  next
    case add
    obtain v where w: "writes_revision d1 v d'" and v: "rv_record_id v = recordID" "rv_revision v = 1" "rv_fact v = pending_metadata src" "rv_space_id v = jb_space_id job"
      using add(2) by (rule append_revision_written)
    obtain r :: semantic_row where ins: "insert_record r d = Some d1" and r: "sm_record_id r = recordID" "sm_current_revision r = 1" "live_row r"
        "sm_space_id r = jb_space_id job" "sm_subject r = (case pending_metadata src of None \<Rightarrow> [] | Some m \<Rightarrow> md_subject m)"
        "sm_fact_key r = (case pending_metadata src of None \<Rightarrow> [] | Some m \<Rightarrow> md_key m)"
      using add(1) unfolding create_record_def by (elim run_elims) (rule that, assumption, simp_all)
    show ?thesis
    proof (rule evolves_head)
      assume ok: "system_ok d"
      then have h: "history_ok d" and fo: "facts_ok d" by (simp_all add: system_ok_def facts_ok_def)
      have aw: "head_written d r v d'" "history_ok d'" "fact_rows d (sm_record_id r) = []"
        by (rule add_written[OF h ins w r(3,2)]; use v r in simp)+
      then show "\<exists>r v. head_written d r v d'" by blast
      have none: "record_lifecycle []" by (simp add: record_lifecycle_def lifecycle_ok_def effective_def chain_ends_def)
      have "head_ok d r v"
      proof (cases "pending_metadata src")
        case None
        then show ?thesis using v r aw(3) none by (simp add: head_ok_def)
      next
        case (Some m)
        then have "md_transition m = TransitionEstablish" "md_adoption m = AdoptionPending"
          by (auto simp: pending_metadata_def split: option.splits if_splits)
        then show ?thesis using Some v r aw(3) new_lifecycle[of m v] by (simp add: head_ok_def ambiguous_def)
      qed
      with aw fo show "facts_ok d'" by (auto simp: head_written_def intro: facts_ok_new_head)
    qed
  next
    case edit
    obtain v where w: "writes_revision d1 v d'" and v: "rv_record_id v = op_target_record_id op" "rv_revision v = op_expected_revision op + 1"
        "rv_fact v = None" "rv_space_id v = jb_space_id job"
      using edit(2) by (rule append_revision_written)
    let ?f = "\<lambda>x. x\<lparr>sm_kind := op_kind op, sm_status := RecordStatusActive, sm_current_revision := op_expected_revision op + 1,
            sm_invalidated_reason := [], sm_updated_at := now\<rparr>"
    let ?p = "\<lambda>x. sm_current_revision x = op_expected_revision op \<and> live_row x"
    from edit(1) obtain r0 where r0: "record_of (op_target_record_id op) d = Some r0" "\<not> protected_record job r0" "sm_current_revision r0 = op_expected_revision op"
      and d1: "d1 = d\<lparr>semantic_records := tbl_update (\<lambda>x. sm_record_id x = op_target_record_id op \<and> ?p x) ?f (semantic_records d)\<rparr>"
      by (rule advance_record_InrE)
    note st = record_of_stored[OF r0(1)]
    have live: "live_row r0" "sm_space_id r0 = jb_space_id job" using r0(2) by (simp_all add: protected_record_def)
    show ?thesis
    proof (rule evolves_head)
      assume ok: "system_ok d"
      then have h: "history_ok d" and fo: "facts_ok d" by (simp_all add: system_ok_def facts_ok_def)
      have aw: "head_written d (?f r0) v d'" "history_ok d'"
        by (rule advance_written[OF h _ _ live(1), of ?p d1 ?f v d']; use st d1 r0 live w v in simp)+
      then show "\<exists>r v. head_written d r v d'" by blast
      have "head_ok d (?f r0) v"
        using fo st live v by (auto simp: head_ok_def facts_ok_def lifecycles_ok_def)
      with aw fo show "facts_ok d'" by (auto simp: head_written_def intro: facts_ok_new_head)
    qed
  qed
qed

lemma ApplyStewardProposal_evolves:
  assumes "ApplyStewardProposal s A now rnd out fault held p d = (res, d')"
  shows "evolves d d'"
proof (cases "d' = d")
  case False
  then obtain r where "apply_tx A now rnd held p d = Inr (r, Some d')" using ApplyStewardProposal_cases[OF assms] by blast
  then obtain job canonical readSet where eff: "apply_effect A now rnd (ls_job_id held) job canonical (job_digest p) readSet d = Inr (r, d')"
    by (rule apply_tx_newE)
  then obtain results rnd' d1 js ps where
    ops: "fold_res (apply_one A now job (ls_job_id held) (readStewardHostSource d (jb_receipt_id job)) readSet)
      (BatchOps canonical) ([], rnd, d) = Inr (results, rnd', d1)"
    and d': "d' = d1\<lparr>steward_jobs := js, receipt_processing := ps\<rparr>"
    unfolding apply_effect_def Let_def by (elim run_elims) (auto elim!: run_elims)
  have "evolves d (snd (snd (results, rnd', d1)))"
  proof (rule fold_res_invariant[OF ops])
    fix op st st' assume inv: "evolves d (snd (snd st))"
      and step: "apply_one A now job (ls_job_id held) (readStewardHostSource d (jb_receipt_id job)) readSet op st = Inr st'"
    obtain rs rn dd where st: "st = (rs, rn, dd)" by (cases st)
    from step st obtain applied rn' dd' where ap: "applyStewardOp A now job (ls_job_id held) (readStewardHostSource d (jb_receipt_id job)) op (rn, dd) = Inr (applied, rn', dd')"
      and st': "st' = (rs @ [applied], rn', dd')"
      unfolding apply_one_def by (auto split: if_splits elim!: run_elims)
    show "evolves d (snd (snd st'))" using evolves_trans[OF _ applyStewardOp_evolves[OF ap]] inv st st' by simp
  qed simp
  moreover have "evolves d1 d'" by (rule evolves_view) (simp add: d' system_view_def)
  ultimately show ?thesis by (auto intro: evolves_trans)
qed simp

section \<open>Submitting evidence\<close>

lemma write_fact_written:
  assumes "write_fact A now view m meta recordID revision evidence receiptID d = Inr d'"
  obtains v where "writes_revision d v d'" "rv_record_id v = recordID" "rv_revision v = revision" "rv_space_id v = av_write_space_id view"
proof -
  obtain v d1 d2 d3 tableName where
    1: "insert_revision v d = Some d1" "rv_record_id v = recordID" "rv_revision v = revision" "rv_space_id v = av_write_space_id view"
    and 2: "insert_op_evidence recordID revision (av_write_space_id view) evidence d1 = Inr d2"
    and 3: "(if md_adoption meta = AdoptionDenied then Inr (delete_semantic_projection tableName recordID d2)
       else of_opt (Errorf ''index semantic projection'') (indexSemanticProjection A tableName recordID revision (mu_text m) []
         (delete_semantic_projection tableName recordID d2))) = Inr d3"
    and 4: "recordMemoryChange now (av_write_space_id view) (av_label_set_digest view) (''fact_'' @ transition_text (mu_transition m))
      receiptID recordID d3 = Inr d'"
    using assms unfolding write_fact_def Let_def by (elim run_elims) (rule that, assumption, simp_all)
  have d1: "d1 = d\<lparr>semantic_revisions := semantic_revisions d @ [v]\<rparr>" "(recordID, revision) \<notin> set (revision_keys d)"
    using 1 by (auto simp: insert_revision_def tbl_simps clash_on_def revision_keys_def)
  obtain es where es: "d2 = d1\<lparr>semantic_evidence := semantic_evidence d1 @ es\<rparr>"
      "\<forall>e\<in>set es. ev_record_id e = recordID \<and> ev_space_id e = av_write_space_id view"
    using insert_op_evidence_space[OF 2] by blast
  have "\<exists>fs. d3 = d2\<lparr>semantic_fts := fs\<rparr>"
    using 3 by (auto simp: indexSemanticProjection_def delete_semantic_projection_def result_simps split: if_splits)
  then obtain fs where d3: "d3 = d2\<lparr>semantic_fts := fs\<rparr>" ..
  have "system_view d' = system_view d3" using 4 by (rule change_system_view)
  then show thesis using 1 d1 es by (intro that[of v]) (auto simp: writes_revision_def d3 system_view_def)
qed

lemma applyFactMutation_evolves:
  assumes shape: "mutation_shape m" and run: "applyFactMutation A now view src receiptID m (facts, rnd, d) = Inr (facts', rnd', d')"
  shows "evolves d d'"
proof (rule evolves_head)
  assume ok: "system_ok d"
  then have fo: "facts_ok d" and h: "history_ok d" by (simp_all add: system_ok_def facts_ok_def)
  show "facts_ok d'" by (rule applyFactMutation_facts_ok[OF fo shape run])
  obtain prior meta1 meta recordID revision rnd1 d1 where
    t: "(if mu_target_record_id m = [] then Inr (None, mutation_metadata src m)
       else rbind (check_target d view m (mutation_metadata src m)) (\<lambda>(prior, meta). Inr (Some prior, meta))) = Inr (prior, meta1)"
    and place: "place_fact now view m rnd d = Inr (recordID, revision, rnd1, d1)"
    and wr: "write_fact A now view m meta recordID revision (mutation_evidence m receiptID prior) receiptID d1 = Inr d'"
    using run unfolding applyFactMutation_def Let_def by (clarsimp elim!: run_elims)
  obtain v where w: "writes_revision d1 v d'" and v: "rv_record_id v = recordID" "rv_revision v = revision" "rv_space_id v = av_write_space_id view"
    using wr by (rule write_fact_written)
  show "\<exists>r v. head_written d r v d'"
  proof (cases "creates_record m")
    case True
    with place obtain r where ins: "insert_record r d = Some d1" and r: "sm_record_id r = recordID" "sm_space_id r = av_write_space_id view"
        "live_row r" "sm_current_revision r = 1" and rev: "revision = 1"
      by (auto simp: place_fact_def Let_def elim!: run_elims)
    have "head_written d r v d'" by (rule add_written[OF h ins w r(3,4)]) (use v r rev in simp_all)
    then show ?thesis by blast
  next
    case False
    then have "mu_target_record_id m \<noteq> []" using shape by (auto simp: mutation_shape_def)
    with t obtain q where "check_target d view m (mutation_metadata src m) = Inr (q, meta1)" by (auto simp: result_simps)
    then obtain r0 where r0: "record_of (mu_target_record_id m) d = Some r0" "sm_space_id r0 = av_write_space_id view" "live_row r0"
        "sm_current_revision r0 = mu_expected_revision m"
      by (rule check_target_InrE)
    let ?f = "\<lambda>r. r\<lparr>sm_current_revision := mu_expected_revision m + 1,
       sm_status := (if mu_transition m = TransitionDeny then RecordStatusInvalidated else RecordStatusActive),
       sm_invalidated_reason := transition_text (mu_transition m), sm_updated_at := now\<rparr>"
    have rec: "recordID = mu_target_record_id m" "revision = mu_expected_revision m + 1"
      and d1: "d1 = d\<lparr>semantic_records := tbl_update (\<lambda>r. sm_record_id r = mu_target_record_id m) ?f (semantic_records d)\<rparr>"
      using False place by (auto simp: place_fact_def Let_def)
    have "head_written d (?f r0) v d'"
      by (rule advance_written[OF h _ _ r0(3), of "\<lambda>_. True" d1 ?f v d'])
         (use record_of_stored[OF r0(1)] d1 rec r0 w v in simp_all)
    then show ?thesis by blast
  qed
qed

lemma SubmitEvidence_evolves:
  assumes "SubmitEvidence s A now rnd out auth request d = (res, d')"
  shows "evolves d d'"
  using assms
proof (cases rule: submit_effect)
  case (2 view response)
  let ?r = "canonical_submit request"
  obtain receiptID token rnd1 d1 facts rnd2 d2 d3 where
    a: "admit_evidence s A now view ?r receiptID token d = Inr d1"
    and m: "fold_res (applyFactMutation A now view (sub_source ?r) receiptID) (sub_mutations ?r) ([], rnd1, d1) = Inr (facts, rnd2, d2)"
    and o: "organize_evidence now view ?r receiptID d2 = Inr d3"
    and c: "recordMemoryChange now (av_write_space_id view) (av_label_set_digest view) ''evidence_accepted'' receiptID [] d3 = Inr d'"
    using 2(3) unfolding submit_new_def Let_def by (clarsimp elim!: run_elims)
  have "evolves d d1"
    using a unfolding admit_evidence_def insert_receipt_def insert_processing_def insert_cursor_def insert_evidence_source_def
      indexReceiptProjection_def Let_def
    by (intro evolves_view) (elim run_elims, auto simp: system_view_def tbl_simps)
  moreover have "evolves d1 (snd (snd (facts, rnd2, d2)))"
  proof (rule fold_res_invariant[OF m])
    fix x st st' assume x: "x \<in> set (sub_mutations ?r)" and inv: "evolves d1 (snd (snd st))"
      and step: "applyFactMutation A now view (sub_source ?r) receiptID x st = Inr st'"
    obtain fs rn dd where st: "st = (fs, rn, dd)" by (cases st)
    obtain fs' rn' dd' where st': "st' = (fs', rn', dd')" by (cases st')
    have "mutation_shape x" using canonical_shape[OF 2(1)] x by blast
    from applyFactMutation_evolves[OF this step[unfolded st st']] show "evolves d1 (snd (snd st'))"
      using inv st st' by (auto intro: evolves_trans)
  qed simp
  moreover have "evolves d2 d3"
    using o by (intro evolves_view)
      (auto simp: organize_evidence_def enqueueStewardJob_def insert_job_def system_view_def tbl_simps result_simps split: if_splits option.splits)
  moreover have "evolves d3 d'" by (rule evolves_view[OF change_system_view[OF c]])
  ultimately show ?thesis by (auto intro: evolves_trans)
qed simp

section \<open>Governing\<close>

lemma storeManagementEffect_view: "storeManagementEffect op key digest result now d = Inr d' \<Longrightarrow> system_view d' = system_view d"
  unfolding storeManagementEffect_def insert_effect_def by (elim run_elims) (auto simp: system_view_def tbl_simps)

lemma delete_new_evolves:
  assumes "delete_new env request digest receipt d = Inr (Deleted response b d')"
  shows "evolves d d'"
proof -
  obtain version d1 t d2 tableName d3 where
    g: "govern_receipt (ge_now env) (ge_expired env) BarrierReceiptDeleted (rt_space_id receipt) (rt_label_set_digest receipt) (dq_receipt_id request) d = Inr (version, d1)"
    and t: "insert_tombstone t d1 = Some d2"
    and e: "storeManagementEffect ''delete_receipt'' (dq_idempotency_key request) digest (DeleteEffect response) (ge_now env)
      (delete_receipt_rows (dq_receipt_id request) (delete_receipt_projection tableName (dq_receipt_id request) d2)) = Inr d'"
    using assms unfolding delete_new_def Let_def by (clarsimp elim!: run_elims)
  have "evolves d d1" using govern_receipt_governs[OF g] by (rule evolves_governs)
  also have "evolves d1 d'"
    using t storeManagementEffect_view[OF e]
    by (intro evolves_view) (auto simp: insert_tombstone_def tbl_simps system_view_def delete_receipt_rows_def delete_receipt_projection_def)
  finally show ?thesis .
qed

lemma cleanup_evolves: "cleanupForgettingBarrier now out b d = (res, d') \<Longrightarrow> evolves d d'"
  by (rule evolves_governs) (rule cleanup_governs)

lemma commit_evolves: "commit_tx out e d d1 r = (res, d') \<Longrightarrow> evolves d d1 \<Longrightarrow> evolves d d'"
  by (auto simp: commit_tx_def split: commit_outcome.splits)

lemma DeleteReceipt_evolves:
  assumes "DeleteReceipt s env request d = (res, d')"
  shows "evolves d d'"
proof -
  let ?tx = "rbind (requireMutableGeneration s) (\<lambda>_.
    rbind (map_err (\<lambda>m. serviceError ErrorCodeInvalidArgument m False) (validate_delete_request request)) (\<lambda>_. delete_tx env request d))"
  consider (err) e where "?tx = Inl e" | (replay) r where "?tx = Inr (Replayed r)" | (gone) r d1 where "?tx = Inr (AlreadyDeleted r d1)"
    | (new) r b d1 where "?tx = Inr (Deleted r b d1)"
    by (cases ?tx) (blast, metis delete_step.exhaust)
  then show ?thesis
  proof cases
    case gone
    then have "delete_tx env request d = Inr (AlreadyDeleted r d1)" by (auto elim!: run_elims)
    then have "system_view d1 = system_view d"
      unfolding delete_tx_def delete_new_def delete_gone_def Let_def
      by (auto dest: storeManagementEffect_view split: option.splits effect_result.splits elim!: run_elims)
    with gone assms show ?thesis unfolding DeleteReceipt_def by (auto intro: commit_evolves evolves_view)
  next
    case new
    then have "delete_tx env request d = Inr (Deleted r b d1)" by (auto elim!: run_elims)
    then have "evolves d d1"
      unfolding delete_tx_def delete_gone_def Let_def
      by (auto dest: delete_new_evolves split: option.splits effect_result.splits elim!: run_elims)
    then show ?thesis using new assms unfolding DeleteReceipt_def
      by (auto dest!: cleanup_evolves dest: commit_evolves intro: evolves_trans split: sum.splits prod.splits if_splits)
  qed (use assms in \<open>auto simp: DeleteReceipt_def\<close>)
qed

lemma correct_writes_view: "correct_writes s A now request original labels replacementID token d = Inr d' \<Longrightarrow> core_view d' = core_view d"
  unfolding correct_writes_def insert_receipt_def insert_processing_def insert_cursor_def indexReceiptProjection_def insert_correction_def Let_def
  by (elim run_elims; drule enqueue_view; auto simp: core_view_def system_view_def tbl_simps)

lemma CorrectReceipt_evolves:
  assumes "CorrectReceipt s A env request d = (res, d')"
  shows "evolves d d'"
proof -
  let ?tx = "rbind (requireMutableGeneration s) (\<lambda>_.
    rbind (map_err (\<lambda>m. serviceError ErrorCodeInvalidArgument m False) (validate_correct_request request)) (\<lambda>_. correct_tx s A env request d))"
  consider (err) e where "?tx = Inl e" | (replay) r where "?tx = Inr (CorrectReplayed r)" | (new) r b d1 where "?tx = Inr (Corrected r b d1)"
    by (cases ?tx) (blast, metis correct_step.exhaust)
  then show ?thesis
  proof cases
    case new
    then have "correct_tx s A env request d = Inr (Corrected r b d1)" by (auto elim!: run_elims)
    then obtain digest original where n: "correct_new s A env request digest original d = Inr (Corrected r b d1)"
      unfolding correct_tx_def Let_def by (auto split: option.splits effect_result.splits elim!: run_elims)
    then obtain version d2 labels replacementID token d3 where
      g: "govern_receipt (ge_now env) (ge_expired env) BarrierReceiptCorrected (rt_space_id original) (rt_label_set_digest original) (cq_receipt_id request) d = Inr (version, d2)"
      and w: "correct_writes s A (ge_now env) request original labels replacementID token d2 = Inr d3"
      and e: "storeManagementEffect ''correct_receipt'' (cq_idempotency_key request) digest (CorrectEffect r) (ge_now env) d3 = Inr d1"
      unfolding correct_new_def Let_def by (clarsimp elim!: run_elims)
    have "evolves d d2" using govern_receipt_governs[OF g] by (rule evolves_governs)
    moreover have "evolves d2 d1" using core_system_view[OF correct_writes_view[OF w]] storeManagementEffect_view[OF e] by (intro evolves_view) simp
    ultimately have "evolves d d1" by (rule evolves_trans)
    then show ?thesis using new assms unfolding CorrectReceipt_def
      by (auto dest: commit_evolves intro: evolves_trans cleanup_evolves[OF surjective_pairing] split: sum.splits prod.splits)
  qed (use assms in \<open>auto simp: CorrectReceipt_def\<close>)
qed

lemma RecoverGovernanceCleanup_evolves:
  assumes "RecoverGovernanceCleanup clock outs d = (res, d')"
  shows "evolves d d'"
proof -
  have "cleanup_all clock outs k bs d = (res, d') \<Longrightarrow> evolves d d'" for k bs
    by (induction clock outs k bs d rule: cleanup_all.induct)
       (auto split: sum.splits prod.splits dest!: cleanup_evolves intro: evolves_trans)
  with assms show ?thesis unfolding RecoverGovernanceCleanup_def by blast
qed

section \<open>The step relation\<close>

text \<open>One call of any handler that writes, with any clock, randomness, fault and commit outcome.\<close>

inductive step :: "db \<Rightarrow> db \<Rightarrow> bool" where
  bootstrap: "Bootstrap s now rnd request d = Inr (credentials, d') \<Longrightarrow> step d d'"
| issue_capability: "IssueCapability s now rnd issue d = Inr (capability, d') \<Longrightarrow> step d d'"
| rotate_issuer: "RotateIssuerCredential s now rnd principalRef d = Inr (authorization, d') \<Longrightarrow> step d d'"
| revoke_grant: "RevokeGrant s grantID d = Inr d' \<Longrightarrow> step d d'"
| put_profile: "PutStewardProfile s now out spec d = (put, d') \<Longrightarrow> step d d'"
| bind_profile: "BindStewardProfile s now out profileID version spaceIDs d = (bound, d') \<Longrightarrow> step d d'"
| disable_steward: "DisableSteward s now out spaceIDs d = (disabled, d') \<Longrightarrow> step d d'"
| remember: "Remember s A now rnd env auth rem d = (remembered, d') \<Longrightarrow> step d d'"
| claim: "ClaimStewardJob s A F clock rnd out lease d = (work, d') \<Longrightarrow> step d d'"
| fail: "FailStewardJob s now out held failure d = (failed, d') \<Longrightarrow> step d d'"
| report: "ReportStewardFailure s now out report d = (failed, d') \<Longrightarrow> step d d'"
| apply_proposal: "ApplyStewardProposal s A now rnd out fault held p d = (applied, d') \<Longrightarrow> step d d'"
| set_policy: "SetIngestionPolicy s now out policy d = (stored, d') \<Longrightarrow> step d d'"
| submit: "SubmitEvidence s A now rnd out auth sub d = (submitted, d') \<Longrightarrow> step d d'"
| correct: "CorrectReceipt s A genv correction d = (corrected, d') \<Longrightarrow> step d d'"
| delete: "DeleteReceipt s genv deletion d = (deleted, d') \<Longrightarrow> step d d'"
| recover: "RecoverGovernanceCleanup clock outs d = (recovered, d') \<Longrightarrow> step d d'"

definition reachable :: "db \<Rightarrow> bool" where
  "reachable d \<longleftrightarrow> step\<^sup>*\<^sup>* empty_db d"

lemmas step_views = Bootstrap_view IssueCapability_view issuer_and_grant_views profile_views Remember_view queue_views SetIngestionPolicy_view

lemma step_evolves: "step d d' \<Longrightarrow> evolves d d'"
  by (induction rule: step.induct)
     (blast intro: evolves_view core_system_view step_views ApplyStewardProposal_evolves SubmitEvidence_evolves CorrectReceipt_evolves
        DeleteReceipt_evolves RecoverGovernanceCleanup_evolves)+

lemma steps_evolve: "step\<^sup>*\<^sup>* d d' \<Longrightarrow> evolves d d'"
  by (induction rule: rtranclp_induct) (auto intro: evolves_trans step_evolves)

lemma empty_ok: "system_ok empty_db"
  by (simp add: system_ok_def facts_ok_def history_ok_def revision_numbers_def revision_keys_def heads_match_def unambiguous_def
      lifecycles_ok_def references_ok_def barriers_ok_def barred_ok_def empty_db_def)

lemma reachable_ok: "reachable d \<Longrightarrow> system_ok d"
  using steps_evolve empty_ok by (auto simp: reachable_def evolves_def)

section \<open>Deletions are remembered\<close>

text \<open>A source whose stored evidence was deleted or corrected.\<close>

definition source_suppressed :: "db \<Rightarrow> authorized_view \<Rightarrow> string \<Rightarrow> bool" where
  "source_suppressed d view key = (case source_of_key d view key of None \<Rightarrow> False | Some e \<Rightarrow> es_suppressed e)"

definition deletions_kept :: "db \<Rightarrow> db \<Rightarrow> bool" where
  "deletions_kept d d' \<longleftrightarrow> set (receipt_tombstones d) \<subseteq> set (receipt_tombstones d') \<and>
     (\<forall>view key. source_suppressed d view key \<longrightarrow> source_suppressed d' view key)"

lemma deletions_kept_refl [simp]: "deletions_kept d d"
  by (simp add: deletions_kept_def)

lemma deletions_kept_trans [trans]: "deletions_kept d d1 \<Longrightarrow> deletions_kept d1 d2 \<Longrightarrow> deletions_kept d d2"
  by (auto simp: deletions_kept_def)

lemma deletions_kept_same:
  "evidence_sources d' = evidence_sources d \<Longrightarrow> set (receipt_tombstones d) \<subseteq> set (receipt_tombstones d') \<Longrightarrow> deletions_kept d d'"
  by (simp add: deletions_kept_def source_suppressed_def source_of_key_def)

lemma deletions_kept_view: "core_view d' = core_view d \<Longrightarrow> deletions_kept d d'"
  by (rule deletions_kept_same) (simp_all add: core_view_def)

lemma suppressing:
  assumes "evidence_sources d' = evidence_sources (suppressEvidenceSource rc clear d)"
  shows "source_suppressed d view key \<Longrightarrow> source_suppressed d' view key"
    and "source_of_key d view key = Some e \<Longrightarrow> es_receipt_id e = rc \<Longrightarrow> source_suppressed d' view key"
proof -
  let ?g = "\<lambda>e. if clear then e\<lparr>es_suppressed := True, es_source := None\<rparr> else e\<lparr>es_suppressed := True\<rparr>"
  have "List.find (\<lambda>s. es_space_id s = a \<and> es_label_set_digest s = l \<and> es_source_key s = k) (tbl_update (\<lambda>e. es_receipt_id e = rc) ?g es) =
    map_option (\<lambda>e. if es_receipt_id e = rc then ?g e else e)
      (List.find (\<lambda>s. es_space_id s = a \<and> es_label_set_digest s = l \<and> es_source_key s = k) es)" for a l k es
    by (induction es) auto
  then have "source_of_key d' view key = map_option (\<lambda>e. if es_receipt_id e = rc then ?g e else e) (source_of_key d view key)"
    by (simp add: source_of_key_def assms suppressEvidenceSource_def)
  then show "source_suppressed d view key \<Longrightarrow> source_suppressed d' view key"
    "source_of_key d view key = Some e \<Longrightarrow> es_receipt_id e = rc \<Longrightarrow> source_suppressed d' view key"
    by (auto simp: source_suppressed_def split: option.splits)
qed

lemma change_sources: "recordMemoryChange now sp l k rc r d = Inr d' \<Longrightarrow> evidence_sources d' = evidence_sources d"
  using recordMemoryChange_tables by fastforce

lemma cancel_sources [simp]: "evidence_sources (fold (cancelGovernedStewardJob now reason) ks d) = evidence_sources d"
  by (induction ks arbitrary: d) (simp_all add: cancelGovernedStewardJob_def split: option.split)

lemma fold_sources:
  assumes "fold_res f xs d = Inr d'" and "\<And>x e e'. f x e = Inr e' \<Longrightarrow> evidence_sources e' = evidence_sources e"
  shows "evidence_sources d' = evidence_sources d"
  using fold_res_invariant[OF assms(1), of "\<lambda>e. evidence_sources e = evidence_sources d"] assms(2) by simp

lemma invalidate_record_sources: "invalidate_record now reason p r d = Inr d' \<Longrightarrow> evidence_sources d' = evidence_sources d"
  unfolding invalidate_record_def Let_def by (elim run_elims) (simp add: delete_semantic_projection_def)

lemma govern_receipt_sources:
  assumes "govern_receipt now expired kind s l rc d = Inr (version, d')"
  shows "evidence_sources d' = evidence_sources (suppressEvidenceSource rc (kind = BarrierReceiptDeleted) d)"
proof -
  obtain d0 d2 c d3 d4 where
    0: "insertForgettingBarrier now s l kind rc d = Inr (version, d0)" and
    2: "invalidateSemanticRecordsForReceipt now rc (by_kind kind ''receipt_deleted'' ''receipt_corrected'')
      (suppressEvidenceSource rc (kind = BarrierReceiptDeleted) d0) = Inr d2" and
    3: "persistForgettingClosure version c d2 = Inr d3" and
    4: "invalidateForgettingClosure now c (by_kind kind ''receipt_deleted'' ''receipt_corrected'') d3 = Inr d4" and
    5: "recordReceiptChange now s l (by_kind kind ''receipt_deleted'' ''receipt_corrected'') rc c
      (by_kind kind ''record_forgotten'' ''record_invalidated'') d4 = Inr d'"
    using assms unfolding govern_receipt_def Let_def by (elim run_elims) (clarsimp elim!: run_elims)
  have "evidence_sources d0 = evidence_sources d"
    using 0 unfolding insertForgettingBarrier_def insert_barrier_def Let_def by (elim run_elims) (auto simp: tbl_simps)
  then have "evidence_sources (suppressEvidenceSource rc (kind = BarrierReceiptDeleted) d0) =
      evidence_sources (suppressEvidenceSource rc (kind = BarrierReceiptDeleted) d)" by (simp add: suppressEvidenceSource_def)
  moreover have "evidence_sources d2 = evidence_sources (suppressEvidenceSource rc (kind = BarrierReceiptDeleted) d0)"
  proof -
    from 2 obtain e js ps where e: "fold_res (invalidate_record now (by_kind kind ''receipt_deleted'' ''receipt_corrected'') (\<lambda>_. True))
        (cited_heads (suppressEvidenceSource rc (kind = BarrierReceiptDeleted) d0) rc) (suppressEvidenceSource rc (kind = BarrierReceiptDeleted) d0) = Inr e"
      and d2: "d2 = e\<lparr>steward_jobs := js, receipt_processing := ps\<rparr>"
      unfolding invalidateSemanticRecordsForReceipt_def Let_def by (elim run_elims) simp
    show ?thesis using fold_sources[OF e invalidate_record_sources] by (simp add: d2)
  qed
  moreover have "evidence_sources d3 = evidence_sources d2"
    using 3 unfolding persistForgettingClosure_def
    by (rule fold_sources) (auto simp: insert_barrier_record_def tbl_simps elim!: run_elims)
  moreover have "evidence_sources d4 = evidence_sources d3"
  proof -
    from 4 obtain e where e: "fold_res (invalidate_record now (by_kind kind ''receipt_deleted'' ''receipt_corrected'') live_row) (ordered c) d3 = Inr e"
      and d4: "d4 = fold (cancelGovernedStewardJob now (by_kind kind ''receipt_deleted'' ''receipt_corrected'')) (fc_jobs c) e"
      unfolding invalidateForgettingClosure_def by (elim run_elims) simp
    show ?thesis using fold_sources[OF e invalidate_record_sources] unfolding d4 cancel_sources .
  qed
  moreover have "evidence_sources d' = evidence_sources d4"
  proof -
    obtain e where e: "recordMemoryChange now s l (by_kind kind ''receipt_deleted'' ''receipt_corrected'') rc [] d4 = Inr e"
      and rest: "fold_res (\<lambda>r d. recordMemoryChange now (snd r) l (by_kind kind ''record_forgotten'' ''record_invalidated'') rc (fst r) d) (ordered c) e = Inr d'"
      using 5 unfolding recordReceiptChange_def by (elim run_elims)
    show ?thesis using fold_sources[OF rest change_sources] change_sources[OF e] by (rule trans)
  qed
  ultimately show ?thesis by simp
qed

lemma govern_receipt_kept: "govern_receipt now expired kind s l rc d = Inr (version, d') \<Longrightarrow> deletions_kept d d'"
proof -
  assume g: "govern_receipt now expired kind s l rc d = Inr (version, d')"
  then have "governed_frame d d'" by (rule govern_receipt_InrE)
  then have "receipt_tombstones d' = receipt_tombstones d" by (rule governed_frameD)
  with suppressing(1)[OF govern_receipt_sources[OF g]] show ?thesis by (simp add: deletions_kept_def)
qed

lemma cleanup_kept:
  assumes "cleanupForgettingBarrier now out b d = (res, d')"
  shows "deletions_kept d d'"
proof (rule deletions_kept_same)
  have one: "cleanse_record r e = Inr e' \<Longrightarrow> evidence_sources e' = evidence_sources e" for r e e'
    unfolding cleanse_record_def Let_def by (elim run_elims) (simp add: delete_semantic_projection_def)
  have "evidence_sources d1 = evidence_sources d" if "cleanseDerivedHistory now b d = Inr d1" for d1
  proof -
    from that obtain d0 js ks where d0: "fold_res cleanse_record (barrierDerivedRecords d (fb_sequence b)) d = Inr d0"
      and d1: "d1 = fold (cancelGovernedStewardJob now ''receipt_forgotten'') ks (d0\<lparr>steward_jobs := js\<rparr>)"
      unfolding cleanseDerivedHistory_def Let_def by (elim run_elims) blast
    show ?thesis using fold_sources[OF d0 one] unfolding d1 cancel_sources by simp
  qed
  then show "evidence_sources d' = evidence_sources d"
    using assms unfolding cleanupForgettingBarrier_def
    by (auto simp: commit_tx_def split: option.splits sum.splits if_splits commit_outcome.splits)
  show "set (receipt_tombstones d) \<subseteq> set (receipt_tombstones d')" using cleanup_frameD(2)[OF cleanup_gives_frame[OF assms]] by simp
qed

lemma commit_kept: "commit_tx out e d d1 r = (res, d') \<Longrightarrow> deletions_kept d d1 \<Longrightarrow> deletions_kept d d'"
  by (auto simp: commit_tx_def split: commit_outcome.splits)

lemma storeManagementEffect_kept: "storeManagementEffect op key digest result now d = Inr d' \<Longrightarrow> deletions_kept d d'"
  by (rule deletions_kept_same) (auto dest: storeManagementEffect_spec)

lemma DeleteReceipt_kept:
  assumes "DeleteReceipt s env request d = (res, d')"
  shows "deletions_kept d d'"
proof -
  let ?tx = "rbind (requireMutableGeneration s) (\<lambda>_.
    rbind (map_err (\<lambda>m. serviceError ErrorCodeInvalidArgument m False) (validate_delete_request request)) (\<lambda>_. delete_tx env request d))"
  have new: "deletions_kept d d1" if n: "delete_new env request digest receipt d = Inr (Deleted r b d1)" for digest receipt r b d1
  proof -
    obtain version d2 tomb t d3 response where
      g: "govern_receipt (ge_now env) (ge_expired env) BarrierReceiptDeleted (rt_space_id receipt) (rt_label_set_digest receipt) (dq_receipt_id request) d = Inr (version, d2)"
      and d3: "d3 = delete_receipt_rows (dq_receipt_id request) (delete_receipt_projection t (dq_receipt_id request) (d2\<lparr>receipt_tombstones := receipt_tombstones d2 @ [tomb]\<rparr>))"
      and d1: "\<exists>es. d1 = d3\<lparr>management_effects := es\<rparr>"
      using n by (rule delete_new_InrE) (simp, metis)
    have "deletions_kept d2 d1"
      using d1 by (intro deletions_kept_same) (auto simp: d3 delete_receipt_rows_def delete_receipt_projection_def)
    with govern_receipt_kept[OF g] show ?thesis by (rule deletions_kept_trans)
  qed
  have tx: "deletions_kept d d1" if "delete_tx env request d = Inr (AlreadyDeleted r d1) \<or> delete_tx env request d = Inr (Deleted r b d1)" for r b d1
    using that unfolding delete_tx_def delete_gone_def Let_def
    by (auto dest: new storeManagementEffect_kept split: option.splits effect_result.splits elim!: run_elims elim: delete_new_InrE)
  consider (err) e where "?tx = Inl e" | (replay) r where "?tx = Inr (Replayed r)" | (gone) r d1 where "?tx = Inr (AlreadyDeleted r d1)"
    | (new) r b d1 where "?tx = Inr (Deleted r b d1)"
    by (cases ?tx) (blast, metis delete_step.exhaust)
  then show ?thesis
  proof cases
    case gone
    then have "deletions_kept d d1" by (auto intro: tx elim!: run_elims)
    with gone assms show ?thesis unfolding DeleteReceipt_def by (auto intro: commit_kept)
  next
    case new
    then have "deletions_kept d d1" by (auto intro: tx elim!: run_elims)
    then show ?thesis using new assms unfolding DeleteReceipt_def
      by (auto dest!: cleanup_kept dest: commit_kept intro: deletions_kept_trans split: sum.splits prod.splits if_splits)
  qed (use assms in \<open>auto simp: DeleteReceipt_def\<close>)
qed

lemma CorrectReceipt_kept:
  assumes "CorrectReceipt s A env request d = (res, d')"
  shows "deletions_kept d d'"
proof -
  have tx: "deletions_kept d d1" if "correct_tx s A env request d = Inr (Corrected r b d1)" for r b d1
  proof -
    from that obtain digest original where n: "correct_new s A env request digest original d = Inr (Corrected r b d1)"
      unfolding correct_tx_def Let_def by (auto split: option.splits effect_result.splits elim!: run_elims)
    then obtain version d2 labels replacementID token d3 where
      g: "govern_receipt (ge_now env) (ge_expired env) BarrierReceiptCorrected (rt_space_id original) (rt_label_set_digest original) (cq_receipt_id request) d = Inr (version, d2)"
      and w: "correct_writes s A (ge_now env) request original labels replacementID token d2 = Inr d3"
      and e: "storeManagementEffect ''correct_receipt'' (cq_idempotency_key request) digest (CorrectEffect r) (ge_now env) d3 = Inr d1"
      unfolding correct_new_def Let_def by (clarsimp elim!: run_elims)
    show ?thesis using govern_receipt_kept[OF g] deletions_kept_view[OF correct_writes_view[OF w]] storeManagementEffect_kept[OF e] by (blast intro: deletions_kept_trans)
  qed
  let ?tx = "rbind (requireMutableGeneration s) (\<lambda>_.
    rbind (map_err (\<lambda>m. serviceError ErrorCodeInvalidArgument m False) (validate_correct_request request)) (\<lambda>_. correct_tx s A env request d))"
  consider (err) e where "?tx = Inl e" | (replay) r where "?tx = Inr (CorrectReplayed r)" | (new) r b d1 where "?tx = Inr (Corrected r b d1)"
    by (cases ?tx) (blast, metis correct_step.exhaust)
  then show ?thesis
  proof cases
    case new
    then have "deletions_kept d d1" by (auto intro: tx elim!: run_elims)
    then show ?thesis using new assms unfolding CorrectReceipt_def
      by (auto dest: commit_kept intro: deletions_kept_trans cleanup_kept[OF surjective_pairing] split: sum.splits prod.splits)
  qed (use assms in \<open>auto simp: CorrectReceipt_def\<close>)
qed

lemma SubmitEvidence_kept:
  assumes "SubmitEvidence s A now rnd out auth request d = (res, d')"
  shows "deletions_kept d d'"
  using assms
proof (cases rule: submit_effect)
  case (2 view response)
  let ?r = "canonical_submit request"
  obtain receiptID token rnd1 d1 facts rnd2 d2 d3 where
    a: "admit_evidence s A now view ?r receiptID token d = Inr d1"
    and m: "fold_res (applyFactMutation A now view (sub_source ?r) receiptID) (sub_mutations ?r) ([], rnd1, d1) = Inr (facts, rnd2, d2)"
    and o: "organize_evidence now view ?r receiptID d2 = Inr d3"
    and c: "recordMemoryChange now (av_write_space_id view) (av_label_set_digest view) ''evidence_accepted'' receiptID [] d3 = Inr d'"
    using 2(3) unfolding submit_new_def Let_def by (clarsimp elim!: run_elims)
  obtain e where e: "evidence_sources d1 = evidence_sources d @ [e]" using admit_tables(2)[OF a] by blast
  have "receipt_tombstones d1 = receipt_tombstones d"
    using a unfolding admit_evidence_def insert_receipt_def insert_processing_def insert_cursor_def insert_evidence_source_def
      indexReceiptProjection_def Let_def by (elim run_elims) (auto simp: tbl_simps)
  then have "deletions_kept d d1"
    using e by (auto simp: deletions_kept_def source_suppressed_def source_of_key_def split: option.splits)
  moreover have "deletions_kept d1 d2"
    using mutations_frame[OF m] by (intro deletions_kept_same) (simp_all add: semantic_frameD semantic_frame_more)
  moreover have "deletions_kept d2 d3"
    using o by (intro deletions_kept_same)
      (auto simp: organize_evidence_def enqueueStewardJob_def insert_job_def tbl_simps result_simps split: if_splits option.splits)
  moreover have "deletions_kept d3 d'" by (rule deletions_kept_view[OF change_view_core[OF c]])
  ultimately show ?thesis by (auto intro: deletions_kept_trans)
qed simp

lemma ApplyStewardProposal_kept:
  assumes "ApplyStewardProposal s A now rnd out fault held p d = (res, d')"
  shows "deletions_kept d d'"
proof (cases "d' = d")
  case False
  then obtain r where "apply_tx A now rnd held p d = Inr (r, Some d')" using ApplyStewardProposal_cases[OF assms] by blast
  then obtain job canonical readSet where "apply_effect A now rnd (ls_job_id held) job canonical (job_digest p) readSet d = Inr (r, d')"
    by (rule apply_tx_newE)
  then obtain d1 where "proposal_writes job (citable d job readSet) d d1"
    "evidence_sources d' = evidence_sources d1" "receipt_tombstones d' = receipt_tombstones d1"
    by (rule apply_effect_InrE) simp
  then show ?thesis by (intro deletions_kept_same) (auto simp: proposal_writes_def semantic_frameD semantic_frame_more)
qed simp

lemma RecoverGovernanceCleanup_kept:
  assumes "RecoverGovernanceCleanup clock outs d = (res, d')"
  shows "deletions_kept d d'"
proof -
  have "cleanup_all clock outs k bs d = (res, d') \<Longrightarrow> deletions_kept d d'" for k bs
    by (induction clock outs k bs d rule: cleanup_all.induct)
       (auto split: sum.splits prod.splits dest!: cleanup_kept intro: deletions_kept_trans)
  with assms show ?thesis unfolding RecoverGovernanceCleanup_def by blast
qed

lemma step_kept: "step d d' \<Longrightarrow> deletions_kept d d'"
  by (induction rule: step.induct)
     (blast intro: deletions_kept_view step_views ApplyStewardProposal_kept SubmitEvidence_kept CorrectReceipt_kept
        DeleteReceipt_kept RecoverGovernanceCleanup_kept)+

lemma steps_keep: "step\<^sup>*\<^sup>* d d' \<Longrightarrow> deletions_kept d d'"
  by (induction rule: rtranclp_induct) (auto intro: deletions_kept_trans step_kept)

end
