(* ===== verification/Governance_Reads.thy ===== *)
theory Governance_Reads
  imports System
begin

text \<open>
  The owner's read views of \<open>governance.go\<close> and \<open>governance_cleanup.go\<close>: searching and tracing
  receipts, listing and tracing derived records, and polling a cleanup. They run in a read-only
  transaction and disclose a forgotten record only as a content-free skeleton, also between the
  barrier and the cleansing of its history.
\<close>

section \<open>Receipts\<close>

record search_request =
  sq_query :: string
  sq_space_id :: string
  sq_limit :: int
  sq_include_corrected :: bool

record search_response =
  srr_receipts :: "mgmt_receipt list"
  srr_truncated :: bool

definition maxQueryBytes :: nat where "maxQueryBytes = 8192"

definition validate_search :: "search_request \<Rightarrow> string + unit" where
  "validate_search r =
    rbind (guard (valid_utf8 (sq_query r) \<and> sq_query r \<noteq> [] \<and> length (sq_query r) \<le> maxQueryBytes)
      ''query must be valid UTF-8 and 1..8192 bytes'') (\<lambda>_.
    guard (1 \<le> sq_limit r \<and> sq_limit r \<le> 100) ''limit must be within 1..100'')"

text \<open>\<open>COALESCE((SELECT \<dots>), '')\<close> over the correction links.\<close>

definition corrected_by :: "db \<Rightarrow> string \<Rightarrow> string" where
  "corrected_by d receiptID =
    (case List.find (\<lambda>c. co_original_receipt_id c = receiptID) (receipt_corrections d) of
       None \<Rightarrow> [] | Some c \<Rightarrow> co_replacement_receipt_id c)"

definition correction_of :: "db \<Rightarrow> string \<Rightarrow> string" where
  "correction_of d receiptID =
    (case List.find (\<lambda>c. co_replacement_receipt_id c = receiptID) (receipt_corrections d) of
       None \<Rightarrow> [] | Some c \<Rightarrow> co_original_receipt_id c)"

definition scanManagementReceipt :: "db \<Rightarrow> receipt_row \<Rightarrow> processing_row \<Rightarrow> string + mgmt_receipt" where
  "scanManagementReceipt d r p =
    rbind (decodeStoredLabelSet (rt_label_set r) (rt_label_set_digest r)) (\<lambda>labels.
    Inr \<lparr>mr_receipt_id = rt_receipt_id r, mr_space_id = rt_space_id r, mr_labels = ls_labels labels, mr_text = rt_text r,
      mr_source_context = rt_source_context r, mr_occurred_at = rt_occurred_at r, mr_received_at = rt_received_at r,
      mr_commit_sequence = rt_commit_sequence r, mr_processing_state = pc_state p,
      mr_corrected_by = corrected_by d (rt_receipt_id r), mr_correction_of = correction_of d (rt_receipt_id r)\<rparr>)"

definition managementSearchIndexes :: "db \<Rightarrow> string \<Rightarrow> error + (string \<times> string) list" where
  "managementSearchIndexes d spaceID =
    (if spaceID \<noteq> [] then
       rbind (guard (list_ex (\<lambda>r. fst r = spaceID) (space_indexes d)) (serviceError ErrorCodeNotFound ''Space not found'' False)) (\<lambda>_.
       rbind (of_opt (databaseError ''resolve management search Spaces'') (readSpaceIndex d spaceID)) (\<lambda>name.
       Inr [(spaceID, name)]))
     else Inr (sort_key fst (space_indexes d)))"

text \<open>The rows of one index: the join with receipts and their processing rows, best match first.\<close>

definition search_rows :: "fts \<Rightarrow> db \<Rightarrow> string \<Rightarrow> string \<Rightarrow> bool \<Rightarrow> nat \<Rightarrow> (receipt_row \<times> processing_row \<times> rat) list" where
  "search_rows F d tableName ftsQuery includeCorrected limit =
    take limit (sort_key (\<lambda>(r, p, bm25). bm25) (sort_key (\<lambda>(r, p, bm25). - int (rt_commit_sequence r)) (sort_key (\<lambda>(r, p, bm25). rt_receipt_id r)
      (concat (map (\<lambda>(f, bm25). concat (map (\<lambda>r. map (\<lambda>p. (r, p, bm25)) (filter (\<lambda>p. pc_receipt_id p = rt_receipt_id r) (receipt_processing d)))
          (filter (\<lambda>r. rt_receipt_id r = ft_receipt_id f \<and> (includeCorrected \<or> \<not> is_corrected d (rt_receipt_id r))) (receipts d))))
        (fts_receipts F (filter (\<lambda>f. ft_table f = tableName) (receipt_fts d)) ftsQuery))))))"

definition search_candidate ::
  "analyzer \<Rightarrow> db \<Rightarrow> string \<Rightarrow> receipt_row \<times> processing_row \<times> rat \<Rightarrow> (mgmt_receipt \<times> rat) list \<Rightarrow> error + (mgmt_receipt \<times> rat) list" where
  "search_candidate A d query row candidates =
    (case row of (r, p, bm25) \<Rightarrow>
     rbind (map_err (\<lambda>_. serviceError ErrorCodeInternal ''stored receipt metadata is invalid'' False) (scanManagementReceipt d r p)) (\<lambda>receipt.
     rbind (of_opt (serviceError ErrorCodeInternal ''lexical analyzer is unavailable'' True)
       (lexicalRank A query (mr_text receipt) [] bm25)) (\<lambda>rank.
     Inr (candidates @ [(receipt, rank)]))))"

definition search_index ::
  "analyzer \<Rightarrow> fts \<Rightarrow> db \<Rightarrow> search_request \<Rightarrow> string \<times> string \<Rightarrow> (mgmt_receipt \<times> rat) list \<Rightarrow> error + (mgmt_receipt \<times> rat) list" where
  "search_index A F d r index candidates =
    rbind (of_opt (serviceError ErrorCodeInternal ''lexical analyzer is unavailable'' True) (lexicalFTSQuery A (sq_query r) [])) (\<lambda>ftsQuery.
    fold_res (search_candidate A d (sq_query r))
      (search_rows F d (snd index) ftsQuery (sq_include_corrected r) (nat (sq_limit r + 1))) candidates)"

definition order_candidates :: "(mgmt_receipt \<times> rat) list \<Rightarrow> (mgmt_receipt \<times> rat) list" where
  "order_candidates cs = sort_key snd (sort_key (\<lambda>c. - int (mr_commit_sequence (fst c))) (sort_key (\<lambda>c. mr_receipt_id (fst c)) cs))"

definition SearchReceipts :: "analyzer \<Rightarrow> fts \<Rightarrow> search_request \<Rightarrow> db \<Rightarrow> error + search_response" where
  "SearchReceipts A F r d =
    rbind (map_err (\<lambda>m. serviceError ErrorCodeInvalidArgument m False) (validate_search r)) (\<lambda>_.
    rbind (of_opt (serviceError ErrorCodeInternal ''lexical analyzer is unavailable'' True) (lexicalFTSQuery A (sq_query r) [])) (\<lambda>baselineQuery.
    rbind (guard (baselineQuery \<noteq> []) (serviceError ErrorCodeInvalidArgument ''query has no searchable terms'' False)) (\<lambda>_.
    rbind (managementSearchIndexes d (sq_space_id r)) (\<lambda>indexes.
    rbind (fold_res (search_index A F d r) indexes []) (\<lambda>candidates.
    Inr \<lparr>srr_receipts = map fst (take (nat (sq_limit r)) (order_candidates candidates)),
         srr_truncated = (int (length candidates) > sq_limit r)\<rparr>)))))"

text \<open>\<open>None\<close> is \<open>sql.ErrNoRows\<close>.\<close>

definition readManagementReceipt :: "db \<Rightarrow> string \<Rightarrow> string + mgmt_receipt option" where
  "readManagementReceipt d receiptID =
    (case receipt_of receiptID d of None \<Rightarrow> Inr None
     | Some r \<Rightarrow> (case processing_of receiptID d of None \<Rightarrow> Inr None
        | Some p \<Rightarrow> rbind (scanManagementReceipt d r p) (\<lambda>receipt. Inr (Some receipt))))"

definition readTombstone :: "db \<Rightarrow> string \<Rightarrow> tombstone option" where
  "readTombstone d receiptID =
    map_option (\<lambda>t. \<lparr>ts_tombstone_id = tb_tombstone_id t, ts_receipt_id = tb_receipt_id t, ts_space_id = tb_space_id t,
        ts_deleted_at = tb_deleted_at t, ts_reason = tb_reason t\<rparr>)
      (List.find (\<lambda>t. tb_receipt_id t = receiptID) (receipt_tombstones d))"

definition TraceReceipt :: "db \<Rightarrow> string \<Rightarrow> error + trace_receipt_response" where
  "TraceReceipt d receiptID =
    rbind (guard (receiptID \<noteq> []) (serviceError ErrorCodeInvalidArgument ''receipt_id is required'' False)) (\<lambda>_.
    rbind (map_err (\<lambda>_. databaseError ''trace receipt'') (readManagementReceipt d receiptID)) (\<lambda>found.
    case found of
      Some receipt \<Rightarrow> Inr (TracedReceipt (if mr_corrected_by receipt \<noteq> [] then ReceiptStateCorrected else ReceiptStateActive) receipt)
    | None \<Rightarrow> rbind (of_opt (serviceError ErrorCodeNotFound ''receipt not found'' False) (readTombstone d receiptID)) (\<lambda>t.
        Inr (TracedTombstone t))))"

section \<open>Derived records\<close>

definition governanceRecordState :: "record_status \<Rightarrow> nat \<times> nat \<Rightarrow> record_state" where
  "governanceRecordState status state =
    (if fst state \<noteq> 0 \<and> snd state \<noteq> 0 then RecordStateForgetting
     else if fst state \<noteq> 0 then RecordStateForgotten
     else if status = RecordStatusInvalidated then RecordStateInvalidated
     else RecordStateActive)"

definition scan_record :: "semantic_row \<Rightarrow> error + steward_record" where
  "scan_record r =
    rbind (map_err (\<lambda>_. serviceError ErrorCodeInternal ''stored semantic Record LabelSet is invalid'' False)
      (decodeStoredLabelSet (sm_label_set r) (sm_label_set_digest r))) (\<lambda>labels.
    Inr \<lparr>sr_record_id = sm_record_id r, sr_space_id = sm_space_id r, sr_labels = ls_labels labels, sr_kind = sm_kind r,
      sr_status = sm_status r, sr_current_revision = sm_current_revision r, sr_invalidated_reason = sm_invalidated_reason r,
      sr_created_at = sm_created_at r, sr_updated_at = sm_updated_at r\<rparr>)"

definition list_one :: "db \<Rightarrow> semantic_row \<Rightarrow> record_summary list \<Rightarrow> error + record_summary list" where
  "list_one d r acc =
    rbind (scan_record r) (\<lambda>record.
    Inr (acc @ [\<lparr>sum_record = blankForgottenRecordHead d record,
      sum_state = governanceRecordState (sr_status record) (readRecordGovernanceState d (sr_record_id record))\<rparr>]))"

definition listed_rows :: "db \<Rightarrow> string \<Rightarrow> string \<Rightarrow> semantic_row list" where
  "listed_rows d spaceID cursor = sort_key sm_record_id (filter (\<lambda>r. sm_space_id r = spaceID \<and> cursor < sm_record_id r) (semantic_records d))"

definition ListRecords :: "list_records_request \<Rightarrow> db \<Rightarrow> error + list_records_response" where
  "ListRecords r d =
    rbind (map_err (\<lambda>m. serviceError ErrorCodeInvalidArgument m False) (validate_list_records r)) (\<lambda>_.
    rbind (guard (has_space (lr_space_id r) d) (serviceError ErrorCodeNotFound ''Space not found'' False)) (\<lambda>_.
    rbind (fold_res (list_one d) (take (nat (lr_limit r + 1)) (listed_rows d (lr_space_id r) (lr_cursor r))) []) (\<lambda>records.
    let truncated = int (length records) > lr_limit r;
        page = take (nat (lr_limit r)) records in
    Inr \<lparr>lrr_records = page,
      lrr_next_cursor = (if page \<noteq> [] \<and> truncated then sr_record_id (sum_record (last page)) else []),
      lrr_truncated = truncated\<rparr>)))"

definition governed_revision :: "db \<Rightarrow> revision_row \<Rightarrow> steward_revision" where
  "governed_revision d v =
    (blankForgottenRevision d (rv_record_id v)
      \<lparr>sv_record_id = rv_record_id v, sv_revision = rv_revision v, sv_space_id = rv_space_id v, sv_kind = rv_kind v,
       sv_text = rv_text v, sv_operation = rv_operation v, sv_job_id = (case rv_job_id v of None \<Rightarrow> [] | Some j \<Rightarrow> j),
       sv_evidence = [], sv_created_at = rv_created_at v\<rparr>)
    \<lparr>sv_evidence := map (\<lambda>e. (e, rv_space_id v)) (readSemanticEvidenceIDs d (rv_record_id v) (rv_revision v))\<rparr>"

definition readGovernedRevisions :: "db \<Rightarrow> string \<Rightarrow> steward_revision list" where
  "readGovernedRevisions d recordID =
    map (governed_revision d) (sort_key rv_revision (filter (\<lambda>v. rv_record_id v = recordID) (semantic_revisions d)))"

definition TraceRecord :: "db \<Rightarrow> string \<Rightarrow> error + trace_record_response" where
  "TraceRecord d recordID =
    rbind (guard (recordID \<noteq> []) (serviceError ErrorCodeInvalidArgument ''record_id is required'' False)) (\<lambda>_.
    rbind (of_opt (serviceError ErrorCodeNotFound ''Record not found'' False) (record_of recordID d)) (\<lambda>r.
    rbind (scan_record r) (\<lambda>record.
    let governance = readRecordGovernanceState d recordID in
    Inr \<lparr>tr_state = governanceRecordState (sr_status record) governance, tr_record = blankForgottenRecordHead d record,
      tr_revisions = readGovernedRevisions d recordID, tr_invalidation_version = fst governance,
      tr_cleanup = (if fst governance = 0 then CleanupStateNone
        else if snd governance \<noteq> 0 then CleanupStatePending else CleanupStateCompleted)\<rparr>)))"

section \<open>Cleanup progress\<close>

text \<open>\<open>MIN\<close> and \<open>MAX\<close> compare the time columns as texts; \<open>COALESCE(\<dots>, '')\<close>.\<close>

definition text_min :: "string list \<Rightarrow> string" where
  "text_min ts = (case ts of [] \<Rightarrow> [] | t # rest \<Rightarrow> fold min rest t)"

definition text_max :: "string list \<Rightarrow> string" where
  "text_max ts = fold max ts []"

definition CleanupStatus :: "db \<Rightarrow> string \<Rightarrow> error + cleanup_status_response" where
  "CleanupStatus d receiptID =
    rbind (guard (receiptID \<noteq> []) (serviceError ErrorCodeInvalidArgument ''receipt_id is required'' False)) (\<lambda>_.
    let bs = receipt_barriers d receiptID; state = cleanup_state_of bs in
    Inr \<lparr>cs_receipt_id = receiptID, cs_state = state, cs_invalidation_version = barrier_version bs,
      cs_pending_barriers = length (filter (\<lambda>b. fb_status b = BarrierPending) (forgetting_barriers d)),
      cs_started_at = (if state = CleanupStateNone then [] else text_min (map (\<lambda>b. formatTime (fb_created_at b)) bs)),
      cs_completed_at = (if state = CleanupStateCompleted then text_max (List.map_filter (\<lambda>b. map_option formatTime (fb_cleaned_at b)) bs) else [])\<rparr>)"

section \<open>What the views disclose\<close>

text \<open>Barriers are numbered from one (\<open>AUTOINCREMENT\<close>).\<close>

definition barriers_numbered :: "db \<Rightarrow> bool" where
  "barriers_numbered d \<longleftrightarrow> (\<forall>b\<in>set (forgetting_barriers d). 0 < fb_sequence b)"

lemma forgotten_version:
  assumes "forgottenRecord d k" and "barriers_numbered d"
  shows "fst (readRecordGovernanceState d k) \<noteq> 0"
proof -
  from assms(1) obtain b where b: "b \<in> set (record_barriers d k)" by (auto simp: forgottenRecord_def dest!: hd_in_set)
  then have "0 < fb_sequence b" using assms(2) by (auto simp: record_barriers_def barriers_numbered_def)
  moreover have "fb_sequence b \<le> fold max (map fb_sequence (record_barriers d k)) 0" using b by (simp add: fold_max_ge(2))
  ultimately show ?thesis by (simp add: readRecordGovernanceState_def Let_def)
qed

lemma scan_record_fields:
  assumes "scan_record r = Inr x"
  shows "sr_record_id x = sm_record_id r" "sr_status x = sm_status r" "sr_space_id x = sm_space_id r"
  using assms by (auto simp: scan_record_def elim!: run_elims)

definition summary_of :: "db \<Rightarrow> steward_record \<Rightarrow> record_summary" where
  "summary_of d x = \<lparr>sum_record = blankForgottenRecordHead d x,
     sum_state = governanceRecordState (sr_status x) (readRecordGovernanceState d (sr_record_id x))\<rparr>"

lemma list_one_summary: "list_one d r acc = rbind (scan_record r) (\<lambda>x. Inr (acc @ [summary_of d x]))"
  by (simp add: list_one_def summary_of_def)

lemma list_fold_rows:
  "fold_res (list_one d) rs acc = Inr out \<Longrightarrow>
     \<exists>xs. map scan_record rs = map Inr xs \<and> out = acc @ map (summary_of d) xs"
proof (induction rs arbitrary: acc)
  case (Cons r rs)
  from Cons.prems obtain x where x: "scan_record r = Inr x" and rest: "fold_res (list_one d) rs (acc @ [summary_of d x]) = Inr out"
    by (auto simp: list_one_summary[of d r acc] elim!: run_elims)
  from Cons.IH[OF rest] obtain xs where "map scan_record rs = map Inr xs" "out = acc @ [summary_of d x] @ map (summary_of d) xs" by auto
  with x have "map scan_record (r # rs) = map Inr (x # xs) \<and> out = acc @ map (summary_of d) (x # xs)" by simp
  then show ?case by blast
qed simp

lemma scanned_ids: "map scan_record rs = map Inr xs \<Longrightarrow> map sr_record_id xs = map sm_record_id rs"
  by (induction rs arbitrary: xs) (auto simp: Cons_eq_map_conv scan_record_fields)

lemma ListRecords_InrE:
  assumes "ListRecords r d = Inr page"
  obtains xs where "map scan_record (take (nat (lr_limit r + 1)) (listed_rows d (lr_space_id r) (lr_cursor r))) = map Inr xs"
    "1 \<le> lr_limit r" "lrr_records page = map (summary_of d) (take (nat (lr_limit r)) xs)"
    "lrr_truncated page \<longleftrightarrow> lr_limit r < int (length xs)"
    "lrr_truncated page \<Longrightarrow> lrr_next_cursor page = sr_record_id (sum_record (last (lrr_records page)))"
proof -
  let ?rows = "take (nat (lr_limit r + 1)) (listed_rows d (lr_space_id r) (lr_cursor r))"
  from assms obtain out where f: "fold_res (list_one d) ?rows [] = Inr out" and v: "1 \<le> lr_limit r"
    and p: "page = \<lparr>lrr_records = take (nat (lr_limit r)) out,
      lrr_next_cursor = (if take (nat (lr_limit r)) out \<noteq> [] \<and> lr_limit r < int (length out)
        then sr_record_id (sum_record (last (take (nat (lr_limit r)) out))) else []),
      lrr_truncated = (lr_limit r < int (length out))\<rparr>"
    unfolding ListRecords_def validate_list_records_def Let_def by (elim run_elims) (auto simp: guard_def split: if_splits)
  from list_fold_rows[OF f] obtain xs where "map scan_record ?rows = map Inr xs" "out = map (summary_of d) xs" by auto
  with v p show thesis by (intro that) (auto simp: take_map)
qed

text \<open>
  Claim C17. The owner's views disclose a record behind a deletion barrier only as a skeleton, from
  the moment the barrier is written, whether or not its history is cleansed yet: tracing it shows
  neither the record's kind nor the kind or text of any revision, but still every revision number
  with its evidence identities, and calls the record forgetting or forgotten; listing the Space shows it
  likewise.
\<close>

theorem forgotten_content_not_disclosed:
  assumes "forgottenRecord d k" and "barriers_numbered d" and "TraceRecord d k = Inr t"
  shows "sr_kind (tr_record t) = [] \<and> tr_state t \<in> {RecordStateForgetting, RecordStateForgotten} \<and>
    (\<forall>v\<in>set (tr_revisions t). sv_kind v = [] \<and> sv_text v = []) \<and>
    map (\<lambda>v. (sv_revision v, map fst (sv_evidence v))) (tr_revisions t) =
      map (\<lambda>v. (rv_revision v, readSemanticEvidenceIDs d k (rv_revision v)))
        (sort_key rv_revision (filter (\<lambda>v. rv_record_id v = k) (semantic_revisions d))) \<and>
    (\<forall>r page. ListRecords r d = Inr page \<longrightarrow> (\<forall>x\<in>set (lrr_records page). sr_record_id (sum_record x) = k \<longrightarrow>
       sr_kind (sum_record x) = [] \<and> sum_state x \<in> {RecordStateForgetting, RecordStateForgotten}))"
proof -
  note version = forgotten_version[OF assms(1,2)]
  have skeleton: "sr_kind (blankForgottenRecordHead d x) = [] \<and>
      governanceRecordState (sr_status x) (readRecordGovernanceState d k) \<in> {RecordStateForgetting, RecordStateForgotten}"
    if "sr_record_id x = k" for x using version that by (simp add: blankForgottenRecordHead_def governanceRecordState_def)
  have revision: "sv_kind (governed_revision d v) = []" "sv_text (governed_revision d v) = []"
    "sv_revision (governed_revision d v) = rv_revision v"
    "map fst (sv_evidence (governed_revision d v)) = readSemanticEvidenceIDs d k (rv_revision v)" if "rv_record_id v = k" for v
    using version that by (simp_all add: governed_revision_def blankForgottenRevision_def comp_def)
  obtain row x where x: "record_of k d = Some row" "scan_record row = Inr x"
    and t: "tr_record t = blankForgottenRecordHead d x" "tr_state t = governanceRecordState (sr_status x) (readRecordGovernanceState d k)"
      "tr_revisions t = readGovernedRevisions d k"
    using assms(3) unfolding TraceRecord_def Let_def by (elim run_elims) auto
  have "sr_record_id x = k" using x by (simp add: scan_record_fields record_of_def find_Some_iff) metis
  moreover have "sr_kind (sum_record y) = [] \<and> sum_state y \<in> {RecordStateForgetting, RecordStateForgotten}"
    if l: "ListRecords r d = Inr page" and y: "y \<in> set (lrr_records page)" "sr_record_id (sum_record y) = k" for r page y
  proof -
    obtain xs where xs: "lrr_records page = map (summary_of d) (take (nat (lr_limit r)) xs)" using l by (rule ListRecords_InrE)
    then obtain z where "y = summary_of d z" "sr_record_id z = k" using y by (auto simp: summary_of_def blankForgottenRecordHead_def split: if_splits)
    then show ?thesis using skeleton[of z] by (simp add: summary_of_def)
  qed
  ultimately show ?thesis using skeleton[of x] revision unfolding t readGovernedRevisions_def by (auto simp: comp_def)
qed

lemma filter_sorted_split:
  assumes "sorted_wrt (<) (map f xs)" and "n < length xs" and "0 < n"
  shows "filter (\<lambda>x. f (last (take n xs)) < (f x :: 'a::linorder)) xs = drop n xs"
proof -
  obtain m where m: "n = Suc m" using assms(3) by (cases n) auto
  obtain ys y zs where xs: "xs = ys @ y # zs" and n: "length ys = m"
    by (rule that[OF id_take_nth_drop[of m]]) (use assms(2) m in auto)
  have "take n xs = ys @ [y]" "drop n xs = zs" by (simp_all add: m xs n[symmetric])
  moreover have "filter (\<lambda>x. f y < f x) ys = []" using assms(1) unfolding xs by (auto simp: sorted_wrt_append filter_empty_conv not_less intro: less_imp_le)
  moreover have "filter (\<lambda>x. f y < f x) zs = zs" using assms(1) unfolding xs by (auto simp: sorted_wrt_append filter_id_conv)
  ultimately show ?thesis by (simp add: xs)
qed

lemma listed_rows_sorted:
  assumes "distinct (map sm_record_id (semantic_records d))"
  shows "sorted_wrt (<) (map sm_record_id (listed_rows d s c))"
proof -
  have "distinct (map sm_record_id (listed_rows d s c))"
    unfolding listed_rows_def distinct_map using assms by (simp add: distinct_map inj_on_def)
  moreover have "sorted (map sm_record_id (listed_rows d s c))" by (simp add: listed_rows_def)
  ultimately show ?thesis by (simp add: strict_sorted_iff)
qed

lemma listed_rows_after:
  assumes "distinct (map sm_record_id (semantic_records d))" and "c \<le> c'"
  shows "listed_rows d s c' = filter (\<lambda>r. c' < sm_record_id r) (listed_rows d s c)"
proof -
  have "filter (\<lambda>r. c' < sm_record_id r) (listed_rows d s c) =
      sort_key sm_record_id (filter (\<lambda>r. c' < sm_record_id r) (filter (\<lambda>r. sm_space_id r = s \<and> c < sm_record_id r) (semantic_records d)))"
    unfolding listed_rows_def by (rule filter_sort)
  also have "filter (\<lambda>r. c' < sm_record_id r) (filter (\<lambda>r. sm_space_id r = s \<and> c < sm_record_id r) (semantic_records d)) =
      filter (\<lambda>r. sm_space_id r = s \<and> c' < sm_record_id r) (semantic_records d)"
    using assms(2) by (auto simp: intro!: filter_cong)
  finally show ?thesis by (simp add: listed_rows_def)
qed

lemma ListRecords_cursor: "ListRecords r d = Inr page \<Longrightarrow> \<not> lrr_truncated page \<Longrightarrow> lrr_next_cursor page = []"
  unfolding ListRecords_def validate_list_records_def Let_def by (elim run_elims) (auto simp: guard_def split: if_splits)

lemma listed_page:
  assumes "distinct (map sm_record_id (semantic_records d))" and "ListRecords r d = Inr page"
  defines "rows \<equiv> listed_rows d (lr_space_id r) (lr_cursor r)"
  shows "map (\<lambda>x. sr_record_id (sum_record x)) (lrr_records page) = map sm_record_id (take (nat (lr_limit r)) rows)"
    and "lrr_truncated page \<longleftrightarrow> nat (lr_limit r) < length rows"
    and "lrr_truncated page \<Longrightarrow>
       listed_rows d (lr_space_id r) (lrr_next_cursor page) = drop (nat (lr_limit r)) rows \<and>
       lrr_next_cursor page = sm_record_id (last (take (nat (lr_limit r)) rows))"
proof -
  let ?n = "nat (lr_limit r)"
  note dist = assms(1)
  obtain xs where xs: "map scan_record (take (nat (lr_limit r + 1)) rows) = map Inr xs" and n: "1 \<le> lr_limit r"
    and page: "lrr_records page = map (summary_of d) (take ?n xs)" and trunc: "lrr_truncated page \<longleftrightarrow> lr_limit r < int (length xs)"
    and cursor: "lrr_truncated page \<Longrightarrow> lrr_next_cursor page = sr_record_id (sum_record (last (lrr_records page)))"
    using assms(2) unfolding rows_def by (rule ListRecords_InrE) blast
  have len: "length xs = min (length rows) (Suc ?n)" using map_eq_imp_length_eq[OF xs] n by (simp add: nat_add_distrib)
  have kept: "sr_record_id (sum_record (summary_of d x)) = sr_record_id x" for x
    by (simp add: summary_of_def blankForgottenRecordHead_def)
  show ids: "map (\<lambda>x. sr_record_id (sum_record x)) (lrr_records page) = map sm_record_id (take ?n rows)"
    using scanned_ids[OF xs] n unfolding page by (simp add: comp_def kept take_map[symmetric] nat_add_distrib)
  show more: "lrr_truncated page \<longleftrightarrow> ?n < length rows" using trunc n by (auto simp: len nat_less_iff)
  show "listed_rows d (lr_space_id r) (lrr_next_cursor page) = drop ?n rows \<and>
      lrr_next_cursor page = sm_record_id (last (take ?n rows))" if t: "lrr_truncated page"
  proof -
    have long: "?n < length rows" "0 < ?n" using t more n by auto
    then have ne: "take ?n rows \<noteq> []" by auto
    then have "lrr_records page \<noteq> []" using ids by (metis map_is_Nil_conv)
    then have c: "lrr_next_cursor page = sm_record_id (last (take ?n rows))"
      using cursor[OF t] ids ne by (metis last_map)
    have "last (take ?n rows) \<in> set rows" using ne by (meson in_set_takeD last_in_set)
    then have after: "lr_cursor r < lrr_next_cursor page" by (simp add: c rows_def listed_rows_def)
    have "listed_rows d (lr_space_id r) (lrr_next_cursor page) = filter (\<lambda>x. lrr_next_cursor page < sm_record_id x) rows"
      using listed_rows_after[OF dist less_imp_le[OF after]] by (simp add: rows_def)
    also have "\<dots> = drop ?n rows"
      using filter_sorted_split[OF _ long, of sm_record_id] listed_rows_sorted[OF dist] unfolding c rows_def by blast
    finally show ?thesis using c by blast
  qed
qed

text \<open>The specification of a page: the identities of the stored records of one Space that follow a
  cursor. It is a set read off the table and mentions neither the query nor its order.\<close>

definition record_ids_after :: "db \<Rightarrow> string \<Rightarrow> string \<Rightarrow> string set" where
  "record_ids_after d s c = {sm_record_id r | r. r \<in> set (semantic_records d) \<and> sm_space_id r = s \<and> c < sm_record_id r}"

definition page_ids :: "list_records_response \<Rightarrow> string list" where
  "page_ids page = map (\<lambda>x. sr_record_id (sum_record x)) (lrr_records page)"

lemma listed_rows_ids: "set (map sm_record_id (listed_rows d s c)) = record_ids_after d s c"
  by (auto simp: listed_rows_def record_ids_after_def)

lemma page_shows_space:
  assumes "ListRecords r d = Inr page" and "x \<in> set (lrr_records page)"
  shows "sr_space_id (sum_record x) = lr_space_id r"
proof -
  from assms(1) obtain xs where xs: "map scan_record (take (nat (lr_limit r + 1)) (listed_rows d (lr_space_id r) (lr_cursor r))) = map Inr xs"
    and page: "lrr_records page = map (summary_of d) (take (nat (lr_limit r)) xs)" by (rule ListRecords_InrE)
  from assms(2) page obtain y where y: "y \<in> set xs" "x = summary_of d y" by (auto dest: in_set_takeD)
  then have "Inr y \<in> set (map scan_record (take (nat (lr_limit r + 1)) (listed_rows d (lr_space_id r) (lr_cursor r))))"
    unfolding xs by simp
  then obtain row where "row \<in> set (listed_rows d (lr_space_id r) (lr_cursor r))" "scan_record row = Inr y"
    by (auto dest: in_set_takeD)
  then show ?thesis using y by (simp add: summary_of_def blankForgottenRecordHead_def scan_record_fields listed_rows_def)
qed

text \<open>
  Claim C18. Paging through a Space loses, repeats and leaks nothing. A page lists identities in
  strictly increasing order, at most the limit of them, each the identity of a stored record of the
  requested Space after the cursor and shown with that Space. A page not marked truncated lists all
  of them and has no cursor; a truncated page is full, its cursor is its last identity, and the
  identities after that cursor are exactly the ones of the Space the page left out, of which there
  is at least one.
\<close>

theorem list_records_page_exact:
  assumes "system_ok d" and "ListRecords r d = Inr page"
  defines "all \<equiv> record_ids_after d (lr_space_id r) (lr_cursor r)"
  shows "sorted_wrt (<) (page_ids page) \<and> length (page_ids page) \<le> nat (lr_limit r) \<and> set (page_ids page) \<subseteq> all \<and>
    (\<forall>x\<in>set (lrr_records page). sr_space_id (sum_record x) = lr_space_id r) \<and>
    (if lrr_truncated page
     then length (page_ids page) = nat (lr_limit r) \<and> lrr_next_cursor page = last (page_ids page) \<and>
       record_ids_after d (lr_space_id r) (lrr_next_cursor page) = all - set (page_ids page) \<and>
       all - set (page_ids page) \<noteq> {}
     else set (page_ids page) = all \<and> lrr_next_cursor page = [])"
proof -
  let ?n = "nat (lr_limit r)" and ?rows = "listed_rows d (lr_space_id r) (lr_cursor r)"
  have dist: "distinct (map sm_record_id (semantic_records d))" using assms(1) by (simp add: system_ok_def references_ok_def)
  note p = listed_page[OF dist assms(2)]
  define ids where "ids = map sm_record_id ?rows"
  have ids: "page_ids page = take ?n ids" using p(1) by (simp add: page_ids_def ids_def take_map)
  have sorted: "sorted_wrt (<) ids" unfolding ids_def by (rule listed_rows_sorted[OF dist])
  then have "distinct ids" by (simp add: strict_sorted_iff)
  then have rest: "set (drop ?n ids) = set ids - set (take ?n ids)"
    by (metis Diff_disjoint append_take_drop_id distinct_append Un_Diff Diff_cancel Diff_triv Int_commute set_append sup_bot_left)
  have all: "all = set ids" unfolding all_def ids_def by (rule listed_rows_ids[symmetric])
  have n: "0 < ?n" using assms(2) by (rule ListRecords_InrE) simp
  show ?thesis
  proof (cases "lrr_truncated page")
    case True
    then have long: "?n < length ids" using p(2) by (simp add: ids_def)
    then have ne: "take ?n ids \<noteq> []" "take ?n ?rows \<noteq> []" using n by (auto simp: ids_def)
    note c = conjunct1[OF p(3)[OF True]] and l = conjunct2[OF p(3)[OF True]]
    have "record_ids_after d (lr_space_id r) (lrr_next_cursor page) = set (drop ?n ids)"
      unfolding listed_rows_ids[symmetric] c by (simp add: ids_def drop_map)
    moreover have "lrr_next_cursor page = last (take ?n ids)"
      using l ne by (simp add: ids_def take_map last_map)
    moreover have "set ids - set (take ?n ids) \<noteq> {}" unfolding rest[symmetric] using long by simp
    ultimately show ?thesis
      using True sorted page_shows_space[OF assms(2)] long rest set_take_subset[of ?n ids]
      by (simp add: ids all sorted_wrt_take)
  next
    case False
    then have "take ?n ids = ids" using p(2) by (simp add: ids_def)
    then show ?thesis
      using False sorted page_shows_space[OF assms(2)] ListRecords_cursor[OF assms(2) False] p(2)
      by (simp add: ids all ids_def)
  qed
qed

lemma DeleteReceipt_validated:
  assumes "DeleteReceipt s env request d = (res, d')" and "d' \<noteq> d"
  shows "validate_delete_request request = Inr ()"
  using assms unfolding DeleteReceipt_def
  by (cases "validate_delete_request request"; cases "requireMutableGeneration s") auto

lemma delete_numbered:
  assumes "DeleteReceipt s env request d = (res, d')" and "receipt_of (dq_receipt_id request) d = Some receipt" and "d' \<noteq> d"
    and "barriers_numbered d"
  shows "barriers_numbered d'"
  using assms(1-3)
proof (rule delete_effect_cases)
  let ?digest = "digestString (json_encode (json_delete_request request))"
  fix response b d1
  assume new: "delete_new env request ?digest receipt d = Inr (Deleted response b d1)"
    and "d' = d1 \<and> (\<forall>r. res \<noteq> Inr r) \<or>
     (\<exists>u. cleanupForgettingBarrier (ge_cleanup_now env) (ge_cleanup_commit env) b d1 = (u, d') \<and>
        res = Inr (case u of Inl _ \<Rightarrow> response | Inr _ \<Rightarrow> response\<lparr>dr_cleanup := CleanupStateCompleted\<rparr>))"
  then have "cleanup_frame d1 d'" using cleanup_gives_frame by auto
  then have ids: "map barrier_id (forgetting_barriers d') = map barrier_id (forgetting_barriers d1)" by (simp add: cleanup_frame_def)
  obtain version d2 where g: "govern_receipt (ge_now env) (ge_expired env) BarrierReceiptDeleted (rt_space_id receipt)
      (rt_label_set_digest receipt) (dq_receipt_id request) d = Inr (version, d2)"
    and t: "forgetting_barriers d1 = forgetting_barriers d2"
    using new by (rule delete_new_InrE) (auto simp: delete_receipt_rows_def delete_receipt_projection_def)
  obtain b' where "forgetting_barriers d2 = forgetting_barriers d @ [b']" "0 < fb_sequence b'"
    using g by (rule govern_receipt_InrE) (auto simp: new_barrier_def)
  then have "barriers_numbered d1" using assms(4) by (auto simp: t barriers_numbered_def)
  then show ?thesis using map_eq_mem[OF ids] by (fastforce simp: barriers_numbered_def barrier_id_def)
qed

text \<open>
  After a deletion the owner's trace of the receipt shows its tombstone and nothing of its
  text, and the cleanup poll of the receipt reports a cleanup that is pending or completed, never none.
\<close>

theorem deleted_receipt_traces_as_tombstone:
  assumes "DeleteReceipt s env request d = (res, d')" and "receipt_of (dq_receipt_id request) d = Some receipt" and "d' \<noteq> d"
    and "barriers_numbered d"
  shows "\<exists>t c. TraceReceipt d' (dq_receipt_id request) = Inr (TracedTombstone t) \<and> ts_receipt_id t = dq_receipt_id request \<and>
    CleanupStatus d' (dq_receipt_id request) = Inr c \<and> cs_state c \<in> {CleanupStatePending, CleanupStateCompleted}"
proof -
  let ?rc = "dq_receipt_id request"
  have "validate_delete_request request = Inr ()" using assms(1,3) by (rule DeleteReceipt_validated)
  then have id: "?rc \<noteq> []" by (auto simp: validate_delete_request_def elim!: run_elims)
  have spec: "deleted_spec d request receipt d'" by (rule delete_establishes[OF assms(1-3)])
  then have gone: "receipt_of ?rc d' = None"
    by (auto simp: deleted_spec_def Let_def receipt_of_def find_None_iff tbl_delete_def)
  obtain t where t: "t \<in> set (receipt_tombstones d')" "tb_receipt_id t = ?rc" using spec by (auto simp: deleted_spec_def Let_def)
  then obtain u where u: "List.find (\<lambda>t. tb_receipt_id t = ?rc) (receipt_tombstones d') = Some u" "tb_receipt_id u = ?rc"
    by (cases "List.find (\<lambda>t. tb_receipt_id t = ?rc) (receipt_tombstones d')") (auto simp: find_None_iff find_Some_iff)
  obtain b where b: "b \<in> set (receipt_barriers d' ?rc)" "0 < fb_sequence b"
    using spec delete_numbered[OF assms] unfolding deleted_spec_def Let_def forgottenReceipt_def barriers_numbered_def
    by (auto simp: list_ex_iff receipt_barriers_def)
  have "fb_sequence b \<le> barrier_version (receipt_barriers d' ?rc)" using b(1) by (simp add: barrier_version_def fold_max_ge(2))
  then have "cleanup_state_of (receipt_barriers d' ?rc) \<in> {CleanupStatePending, CleanupStateCompleted}"
    using b(2) by (simp add: cleanup_state_of_def)
  with gone u id show ?thesis
    by (simp add: TraceReceipt_def readManagementReceipt_def readTombstone_def CleanupStatus_def Let_def)
qed

section \<open>Witnesses\<close>

text \<open>The demonstration database between the barrier and the cleansing: the text is still stored.\<close>

definition demo_barred :: db where
  "demo_barred = demo_governed\<lparr>
     forgetting_barriers := [new_barrier 7 ''s'' (digestString (encode_label_set [])) BarrierReceiptDeleted ''r1'' 1],
     forgetting_barrier_records := [\<lparr>br_sequence = 1, br_record_id = ''a'', br_space_id = ''s''\<rparr>]\<rparr>"

lemma demo_barred_tables:
  "semantic_records demo_barred = [demo_head]" "semantic_revisions demo_barred = [demo_revision]"
  "forgetting_barriers demo_barred = [new_barrier 7 ''s'' (digestString (encode_label_set [])) BarrierReceiptDeleted ''r1'' 1]"
  "forgetting_barrier_records demo_barred = [\<lparr>br_sequence = 1, br_record_id = ''a'', br_space_id = ''s''\<rparr>]"
  by (simp_all add: demo_barred_def demo_governed_tables)

lemma demo_scan: "\<exists>x. scan_record demo_head = Inr x"
  by (simp add: scan_record_def demo_head_def)

theorem forgotten_content_not_disclosed_witness:
  "\<exists>t. TraceRecord demo_barred ''a'' = Inr t \<and> tr_revisions t \<noteq> [] \<and> (\<forall>v\<in>set (tr_revisions t). sv_text v = [])"
proof -
  obtain x where "scan_record demo_head = Inr x" using demo_scan by blast
  then obtain t where t: "TraceRecord demo_barred ''a'' = Inr t" "tr_revisions t = readGovernedRevisions demo_barred ''a''"
    by (simp add: TraceRecord_def record_of_def demo_barred_tables demo_head_def Let_def)
  have "forgottenRecord demo_barred ''a''" "barriers_numbered demo_barred"
    by (simp_all add: forgottenRecord_def record_barriers_def barriers_numbered_def demo_barred_tables new_barrier_def)
  from forgotten_content_not_disclosed[OF this t(1)] t show ?thesis
    by (auto simp: readGovernedRevisions_def demo_barred_tables demo_revision_def)
qed

definition demo_list :: list_records_request where
  "demo_list = \<lparr>lr_space_id = ''s'', lr_limit = 1, lr_cursor = []\<rparr>"

lemma demo_governed_ok: "system_ok demo_governed"
proof -
  have rows: "fact_rows demo_governed k = []" for k
    by (simp add: fact_rows_def demo_governed_tables demo_revision_def List.map_filter_def)
  have "history_ok demo_governed" "distinct (revision_keys demo_governed)"
    by (auto simp: history_ok_def revision_numbers_def revision_keys_def demo_governed_tables demo_revision_def demo_head_def)
  moreover have "heads_match demo_governed" "unambiguous demo_governed"
    by (simp_all add: heads_match_def unambiguous_def head_fact_def revision_of_def demo_governed_tables demo_revision_def demo_head_def)
  moreover have "lifecycles_ok demo_governed"
    by (simp add: lifecycles_ok_def rows record_lifecycle_def lifecycle_ok_def effective_def chain_ends_def)
  moreover have "references_ok demo_governed" "barriers_ok demo_governed" "barred_ok demo_governed"
    by (simp_all add: references_ok_def barriers_ok_def barred_ok_def demo_governed_tables demo_revision_def demo_head_def)
  ultimately show ?thesis by (simp add: system_ok_def facts_ok_def)
qed

theorem list_records_page_exact_witness:
  "\<exists>page. ListRecords demo_list demo_governed = Inr page \<and> map (\<lambda>x. sr_record_id (sum_record x)) (lrr_records page) = [''a''] \<and>
     \<not> lrr_truncated page"
proof -
  have rows: "listed_rows demo_governed ''s'' [] = [demo_head]" by (simp add: listed_rows_def demo_governed_tables demo_head_def)
  obtain x where "scan_record demo_head = Inr x" using demo_scan by blast
  then obtain page where page: "ListRecords demo_list demo_governed = Inr page"
    by (simp add: ListRecords_def validate_list_records_def demo_list_def maxRecordListLimit_def maxRecordCursorBytes_def
        has_space_def demo_governed_tables demo_spaces rows list_one_def Let_def text_eval)
  have all: "record_ids_after demo_governed ''s'' [] = {''a''}"
    using listed_rows_ids[of demo_governed "''s''" "[]"] by (simp add: rows demo_head_def)
  note exact = list_records_page_exact[OF demo_governed_ok page]
  have sub: "set (page_ids page) \<subseteq> {''a''}" and len: "length (page_ids page) \<le> 1"
    using exact by (simp_all add: demo_list_def all)
  have "\<not> lrr_truncated page"
  proof
    assume "lrr_truncated page"
    with exact have "length (page_ids page) = 1" "{''a''} - set (page_ids page) \<noteq> {}" by (simp_all add: demo_list_def all)
    with sub show False by (cases "page_ids page") auto
  qed
  moreover from this exact have "set (page_ids page) = {''a''}" by (simp add: demo_list_def all)
  with len have "page_ids page = [''a'']" by (cases "page_ids page") auto
  ultimately show ?thesis using page by (simp add: page_ids_def)
qed

theorem deleted_receipt_traces_as_tombstone_witness:
  "\<exists>d' t. snd (DeleteReceipt demo_store demo_genv demo_delete demo_governed) = d' \<and> TraceReceipt d' ''r1'' = Inr (TracedTombstone t)"
proof -
  obtain r d' where run: "DeleteReceipt demo_store demo_genv demo_delete demo_governed = (Inr r, d')" "d' \<noteq> demo_governed"
    by (rule demo_deleted)
  from deleted_receipt_traces_as_tombstone[OF run(1) demo_delete_receipt(1) run(2)] run show ?thesis
    by (auto simp: demo_delete_receipt(2) barriers_numbered_def demo_governed_tables)
qed

end
