(* ===== verification/Maintenance.thy ===== *)
theory Maintenance
  imports Governance_Reads "HOL-Library.Sublist"
begin

text \<open>
  The owner's maintenance operations of \<open>inspect.go\<close> and \<open>export_backup.go\<close>: the diagnostics of
  \<open>Inspect\<close>, the rebuild of the disposable lexical projection from the canonical tables, and the
  export of management-visible evidence. The time of the last rebuild (a row of \<open>metadata\<close>) is
  passed beside the database; the storage diagnostics read file sizes, which are a parameter. The
  lexicon counters are left out with the lexicon.
\<close>

section \<open>Diagnostics\<close>

record projection_diagnostics =
  pd_spaces :: nat
  pd_entries :: nat
  pd_expected :: nat
  pd_drift :: int
  pd_healthy :: bool
  pd_status :: string
  pd_last_rebuilt :: "instant option"

record receipt_diagnostics =
  rd_stored :: nat
  rd_active :: int
  rd_corrected :: nat
  rd_deleted :: nat
  rd_accepted :: nat
  rd_processing :: nat
  rd_organized :: nat
  rd_failed :: nat
  rd_oldest :: "instant option"
  rd_newest :: "instant option"

record capability_diagnostics =
  cd_stored :: nat
  cd_active :: nat
  cd_inactive :: int
  cd_revoked_grants :: nat
  cd_issuers :: nat

record steward_diagnostics =
  sd_profiles :: nat
  sd_bindings :: nat
  sd_pending :: nat
  sd_leased :: nat
  sd_completed :: nat
  sd_failed :: nat
  sd_active_records :: nat
  sd_invalidated_records :: nat
  sd_entries :: nat
  sd_expected :: nat
  sd_drift :: int
  sd_healthy :: bool
  sd_status :: string
  sd_oldest :: "instant option"

record governance_diagnostics =
  gd_barriers :: nat
  gd_pending :: nat
  gd_completed :: nat
  gd_last_version :: nat
  gd_cleared_revisions :: nat

definition count_if :: "('a \<Rightarrow> bool) \<Rightarrow> 'a list \<Rightarrow> nat" where
  "count_if P xs = length (filter P xs)"

text \<open>\<open>MIN\<close> and \<open>MAX\<close> of a time column compare its texts.\<close>

definition earliest :: "instant list \<Rightarrow> instant option" where
  "earliest ts = (case sort_key formatTime ts of [] \<Rightarrow> None | t # _ \<Rightarrow> Some t)"

definition latest :: "instant list \<Rightarrow> instant option" where
  "latest ts = (case rev (sort_key formatTime ts) of [] \<Rightarrow> None | t # _ \<Rightarrow> Some t)"

definition table_entries :: "db \<Rightarrow> string \<Rightarrow> nat" where
  "table_entries d tableName = count_if (\<lambda>f. ft_table f = tableName) (receipt_fts d)"

definition semantic_table_entries :: "db \<Rightarrow> string \<Rightarrow> nat" where
  "semantic_table_entries d tableName = count_if (\<lambda>f. sf_table f = tableName) (semantic_fts d)"

definition inspect_projection :: "instant option \<Rightarrow> db \<Rightarrow> projection_diagnostics" where
  "inspect_projection rebuilt d =
    (let entries = sum_list (map (\<lambda>(_, tableName). table_entries d tableName) (sort_key fst (space_indexes d)));
         expected = length (receipts d);
         drift = int entries - int expected in
     \<lparr>pd_spaces = length (spaces d), pd_entries = entries, pd_expected = expected, pd_drift = drift,
      pd_healthy = (drift = 0), pd_status = (if drift = 0 then ''ok'' else ''drift''), pd_last_rebuilt = rebuilt\<rparr>)"

definition inspectReceiptDiagnostics :: "db \<Rightarrow> receipt_diagnostics" where
  "inspectReceiptDiagnostics d =
    (let stored = length (receipts d);
         corrected = count_if (\<lambda>r. is_corrected d (rt_receipt_id r)) (receipts d);
         in_state = (\<lambda>st. count_if (\<lambda>p. pc_state p = st) (receipt_processing d)) in
     \<lparr>rd_stored = stored, rd_active = int stored - int corrected, rd_corrected = corrected,
      rd_deleted = length (receipt_tombstones d), rd_accepted = in_state ProcessingStateAccepted,
      rd_processing = in_state ProcessingStateProcessing, rd_organized = in_state ProcessingStateOrganized,
      rd_failed = in_state ProcessingStateFailed, rd_oldest = earliest (map rt_received_at (receipts d)),
      rd_newest = latest (map rt_received_at (receipts d))\<rparr>)"

definition inspectCapabilityDiagnostics :: "instant \<Rightarrow> db \<Rightarrow> capability_diagnostics" where
  "inspectCapabilityDiagnostics now d =
    (let joined = concat (map (\<lambda>c. map (\<lambda>g. (c, g)) (filter (\<lambda>g. gr_id g = cp_grant_id c) (grants d))) (capabilities d));
         active = count_if (\<lambda>(c, g). \<not> gr_revoked g \<and> now < cp_expires_at c \<and> now < gr_expires_at g) joined in
     \<lparr>cd_stored = length joined, cd_active = active, cd_inactive = int (length joined) - int active,
      cd_revoked_grants = count_if gr_revoked (grants d), cd_issuers = length (issuer_credentials d)\<rparr>)"

definition inspectStewardDiagnostics :: "db \<Rightarrow> steward_diagnostics" where
  "inspectStewardDiagnostics d =
    (let in_state = (\<lambda>st. count_if (\<lambda>j. jb_state j = st) (steward_jobs d));
         active = count_if (\<lambda>r. sm_status r = RecordStatusActive) (semantic_records d);
         indexes = sort_key fst (semantic_space_indexes d);
         known = filter (\<lambda>(spaceID, tableName). tableName = semanticSpaceIndexTable spaceID) indexes;
         entries = sum_list (map (\<lambda>(_, tableName). semantic_table_entries d tableName) known);
         available = (length known = length indexes);
         drift = int entries - int active in
     \<lparr>sd_profiles = length (steward_profiles d), sd_bindings = length (space_steward_bindings d),
      sd_pending = in_state JobPending, sd_leased = in_state JobLeased, sd_completed = in_state JobCompleted,
      sd_failed = in_state JobFailed, sd_active_records = active,
      sd_invalidated_records = count_if (\<lambda>r. sm_status r = RecordStatusInvalidated) (semantic_records d),
      sd_entries = entries, sd_expected = active, sd_drift = drift, sd_healthy = (available \<and> drift = 0),
      sd_status = (if \<not> available then ''unavailable'' else if drift = 0 then ''ok'' else ''drift''),
      sd_oldest = earliest (map jb_created_at (filter (\<lambda>j. jb_state j \<in> {JobPending, JobLeased}) (steward_jobs d)))\<rparr>)"

definition cleared_revision :: "db \<Rightarrow> revision_row \<Rightarrow> bool" where
  "cleared_revision d v \<longleftrightarrow> rv_text v = [] \<and> rv_fact v = None \<and> rv_kind v = [] \<and>
     list_ex (\<lambda>br. br_record_id br = rv_record_id v \<and>
       list_ex (\<lambda>f. fb_sequence f = br_sequence br \<and> fb_space_id f = rv_space_id v \<and> fb_kind f = BarrierReceiptDeleted \<and>
         fb_status f = BarrierCleaned) (forgetting_barriers d)) (forgetting_barrier_records d)"

definition inspectGovernanceDiagnostics :: "db \<Rightarrow> governance_diagnostics" where
  "inspectGovernanceDiagnostics d =
    \<lparr>gd_barriers = length (forgetting_barriers d),
     gd_pending = count_if (\<lambda>b. fb_status b = BarrierPending) (forgetting_barriers d),
     gd_completed = count_if (\<lambda>b. fb_status b = BarrierCleaned) (forgetting_barriers d),
     gd_last_version = barrier_version (forgetting_barriers d),
     gd_cleared_revisions = count_if (cleared_revision d) (semantic_revisions d)\<rparr>"

record storage_diagnostics =
  sg_database :: nat
  sg_wal :: nat
  sg_shm :: nat
  sg_rollback :: nat
  sg_data :: nat
  sg_filesystem :: nat
  sg_available :: nat

text \<open>The outcome of looking at one file: unsafe or unreadable, absent, or its size.\<close>

datatype file_stat = FileUnsafe | FileAbsent | FileSize nat

definition stat_size :: "file_stat \<Rightarrow> string + nat" where
  "stat_size st = (case st of FileUnsafe \<Rightarrow> Inl ''inspect storage file'' | FileAbsent \<Rightarrow> Inr 0 | FileSize n \<Rightarrow> Inr n)"

definition inspectStorage :: "(string \<Rightarrow> file_stat) \<Rightarrow> (nat \<times> nat) option \<Rightarrow> string + storage_diagnostics" where
  "inspectStorage stat capacity =
    rbind (stat_size (stat ''memory.db'')) (\<lambda>database.
    rbind (stat_size (stat ''memory.db-wal'')) (\<lambda>wal.
    rbind (stat_size (stat ''memory.db-shm'')) (\<lambda>shm.
    rbind (stat_size (stat ''memory.db.rollback'')) (\<lambda>rollback.
    rbind (of_opt ''inspect storage capacity'' capacity) (\<lambda>(filesystem, available).
    Inr \<lparr>sg_database = database, sg_wal = wal, sg_shm = shm, sg_rollback = rollback,
      sg_data = database + wal + shm + rollback, sg_filesystem = filesystem, sg_available = available\<rparr>)))))"

section \<open>Rebuilding the projection\<close>

definition rebuildReceiptProjection :: "analyzer \<Rightarrow> string \<Rightarrow> string \<Rightarrow> db \<Rightarrow> error + db" where
  "rebuildReceiptProjection A spaceID tableName d =
    fold_res (\<lambda>r d. of_opt (Errorf ''rebuild receipt lexical projection'')
        (indexReceiptProjection A tableName (rt_receipt_id r) (rt_text r) [] d))
      (sort_key rt_commit_sequence (filter (\<lambda>r. rt_space_id r = spaceID) (receipts d))) d"

definition projected_heads :: "db \<Rightarrow> string \<Rightarrow> (semantic_row \<times> revision_row) list" where
  "projected_heads d spaceID =
    concat (map (\<lambda>r. map (\<lambda>v. (r, v))
        (filter (\<lambda>v. rv_record_id v = sm_record_id r \<and> rv_revision v = sm_current_revision r) (semantic_revisions d)))
      (sort_key sm_record_id (filter (\<lambda>r. sm_space_id r = spaceID \<and> sm_status r = RecordStatusActive) (semantic_records d))))"

definition rebuildSemanticProjection :: "analyzer \<Rightarrow> string \<Rightarrow> string \<Rightarrow> db \<Rightarrow> error + db" where
  "rebuildSemanticProjection A spaceID tableName d =
    fold_res (\<lambda>(r, v) d. of_opt (Errorf ''rebuild semantic lexical projection'')
        (indexSemanticProjection A tableName (sm_record_id r) (sm_current_revision r) (rv_text v) [] d))
      (projected_heads d spaceID) d"

definition rebuild_receipt_index :: "analyzer \<Rightarrow> string \<times> string \<Rightarrow> db \<Rightarrow> error + db" where
  "rebuild_receipt_index A item d =
    rebuildReceiptProjection A (fst item) (snd item)
      (d\<lparr>receipt_fts := tbl_delete (\<lambda>f. ft_table f = snd item) (receipt_fts d)\<rparr>)"

definition rebuild_semantic_index :: "analyzer \<Rightarrow> string \<times> string \<Rightarrow> db \<Rightarrow> error + db" where
  "rebuild_semantic_index A item d =
    rebuildSemanticProjection A (fst item) (snd item)
      (d\<lparr>semantic_fts := tbl_delete (\<lambda>f. sf_table f = snd item) (semantic_fts d)\<rparr>)"

definition rebuild_tx :: "analyzer \<Rightarrow> db \<Rightarrow> error + db" where
  "rebuild_tx A d =
    rbind (fold_res (rebuild_receipt_index A) (sort_key fst (space_indexes d)) d) (\<lambda>d.
    rbind (guard (list_all (\<lambda>(spaceID, tableName). tableName = semanticSpaceIndexTable spaceID) (semantic_space_indexes d))
      (Errorf ''semantic Space index identity mismatch'')) (\<lambda>_.
    fold_res (rebuild_semantic_index A) (sort_key fst (semantic_space_indexes d)) d))"

text \<open>The answer, the database and the time of the last rebuild.\<close>

definition RebuildFTS :: "analyzer \<Rightarrow> instant \<Rightarrow> commit_outcome \<Rightarrow> instant option \<Rightarrow> db \<Rightarrow> (error + unit) \<times> db \<times> instant option" where
  "RebuildFTS A now out rebuilt d =
    (case rebuild_tx A d of Inl e \<Rightarrow> (Inl e, d, rebuilt)
     | Inr d' \<Rightarrow> (case out of Committed \<Rightarrow> (Inr (), d', Some now)
        | CommitErrorApplied \<Rightarrow> (Inl (Errorf ''commit FTS rebuild''), d', Some now)
        | CommitErrorLost \<Rightarrow> (Inl (Errorf ''commit FTS rebuild''), d, rebuilt)))"

section \<open>Export\<close>










section \<open>A rebuild restores the projection\<close>

definition receipt_entry :: "analyzer \<Rightarrow> string \<Rightarrow> receipt_row \<Rightarrow> receipt_fts_row \<Rightarrow> bool" where
  "receipt_entry A tableName r f \<longleftrightarrow> ft_table f = tableName \<and> ft_receipt_id f = rt_receipt_id r \<and> ft_text f = rt_text r \<and>
     projectLexical A (rt_text r) [] = Some \<lparr>ld_terms = ft_terms f, ld_ngrams = ft_ngrams f\<rparr>"

definition head_entry :: "analyzer \<Rightarrow> string \<Rightarrow> semantic_row \<times> revision_row \<Rightarrow> semantic_fts_row \<Rightarrow> bool" where
  "head_entry A tableName h f \<longleftrightarrow> sf_table f = tableName \<and> sf_record_id f = sm_record_id (fst h) \<and>
     sf_revision f = sm_current_revision (fst h) \<and> sf_text f = rv_text (snd h) \<and>
     projectLexical A (rv_text (snd h)) [] = Some \<lparr>ld_terms = sf_terms f, ld_ngrams = sf_ngrams f\<rparr>"

lemma rebuild_receipts_fold:
  assumes "fold_res (\<lambda>r d. of_opt e (indexReceiptProjection A t (rt_receipt_id r) (rt_text r) [] d)) rs d = Inr d'"
  shows "\<exists>fs. list_all2 (receipt_entry A t) rs fs \<and> d' = d\<lparr>receipt_fts := receipt_fts d @ fs\<rparr>"
  using assms
proof (induction rs arbitrary: d)
  case (Cons r rs)
  obtain p where p: "projectLexical A (rt_text r) [] = Some p"
    using Cons.prems by (auto simp: indexReceiptProjection_def elim!: run_elims)
  let ?f = "\<lparr>ft_table = t, ft_receipt_id = rt_receipt_id r, ft_text = rt_text r, ft_terms = ld_terms p, ft_ngrams = ld_ngrams p\<rparr>"
  have "fold_res (\<lambda>r d. of_opt e (indexReceiptProjection A t (rt_receipt_id r) (rt_text r) [] d)) rs (d\<lparr>receipt_fts := receipt_fts d @ [?f]\<rparr>) = Inr d'"
    using Cons.prems by (simp add: indexReceiptProjection_def p)
  from Cons.IH[OF this] obtain fs where "list_all2 (receipt_entry A t) rs fs" "d' = d\<lparr>receipt_fts := receipt_fts d @ ?f # fs\<rparr>" by auto
  moreover have "receipt_entry A t r ?f" using p by (simp add: receipt_entry_def)
  ultimately show ?case by (intro exI[of _ "?f # fs"]) simp
qed simp

lemma rebuild_heads_fold:
  assumes "fold_res (\<lambda>(r, v) d. of_opt e (indexSemanticProjection A t (sm_record_id r) (sm_current_revision r) (rv_text v) [] d)) hs d = Inr d'"
  shows "\<exists>fs. list_all2 (head_entry A t) hs fs \<and> d' = d\<lparr>semantic_fts := semantic_fts d @ fs\<rparr>"
  using assms
proof (induction hs arbitrary: d)
  case (Cons h hs)
  obtain r v where h: "h = (r, v)" by (cases h)
  obtain p where p: "projectLexical A (rv_text v) [] = Some p"
    using Cons.prems by (auto simp: h indexSemanticProjection_def elim!: run_elims)
  let ?f = "\<lparr>sf_table = t, sf_record_id = sm_record_id r, sf_revision = sm_current_revision r, sf_text = rv_text v,
     sf_terms = ld_terms p, sf_ngrams = ld_ngrams p\<rparr>"
  have "fold_res (\<lambda>(r, v) d. of_opt e (indexSemanticProjection A t (sm_record_id r) (sm_current_revision r) (rv_text v) [] d)) hs
      (d\<lparr>semantic_fts := semantic_fts d @ [?f]\<rparr>) = Inr d'"
    using Cons.prems by (simp add: h indexSemanticProjection_def p)
  from Cons.IH[OF this] obtain fs where "list_all2 (head_entry A t) hs fs" "d' = d\<lparr>semantic_fts := semantic_fts d @ ?f # fs\<rparr>" by auto
  moreover have "head_entry A t h ?f" using p by (simp add: head_entry_def h)
  ultimately show ?case by (intro exI[of _ "?f # fs"]) simp
qed simp

text \<open>The rows of one index table.\<close>

definition receipt_table :: "db \<Rightarrow> string \<Rightarrow> receipt_fts_row list" where
  "receipt_table d t = filter (\<lambda>f. ft_table f = t) (receipt_fts d)"

definition head_table :: "db \<Rightarrow> string \<Rightarrow> semantic_fts_row list" where
  "head_table d t = filter (\<lambda>f. sf_table f = t) (semantic_fts d)"

definition space_receipts :: "db \<Rightarrow> string \<Rightarrow> receipt_row list" where
  "space_receipts d s = sort_key rt_commit_sequence (filter (\<lambda>r. rt_space_id r = s) (receipts d))"

lemma rebuild_receipt_index_spec:
  assumes "rebuild_receipt_index A (s, t) d = Inr d'"
  shows "\<exists>fs. d' = d\<lparr>receipt_fts := fs\<rparr> \<and> list_all2 (receipt_entry A t) (space_receipts d s) (filter (\<lambda>f. ft_table f = t) fs) \<and>
    (\<forall>u. u \<noteq> t \<longrightarrow> filter (\<lambda>f. ft_table f = u) fs = receipt_table d u)"
proof -
  let ?d = "d\<lparr>receipt_fts := tbl_delete (\<lambda>f. ft_table f = t) (receipt_fts d)\<rparr>"
  obtain fs where fs: "list_all2 (receipt_entry A t) (space_receipts d s) fs" "d' = ?d\<lparr>receipt_fts := receipt_fts ?d @ fs\<rparr>"
    using assms rebuild_receipts_fold unfolding rebuild_receipt_index_def rebuildReceiptProjection_def space_receipts_def by fastforce
  have t: "\<forall>f\<in>set fs. ft_table f = t" using fs(1) by (auto simp: list_all2_conv_all_nth in_set_conv_nth receipt_entry_def)
  then have "filter (\<lambda>f. ft_table f = t) (receipt_fts ?d @ fs) = fs" by (auto simp: tbl_delete_def filter_empty_conv filter_id_conv)
  moreover have "filter (\<lambda>f. ft_table f = u) (receipt_fts ?d @ fs) = receipt_table d u" if "u \<noteq> t" for u
  proof -
    have "filter (\<lambda>f. ft_table f = u) fs = []" using t that by (auto simp: filter_empty_conv)
    then show ?thesis using that by (auto simp: tbl_delete_def receipt_table_def intro!: filter_cong)
  qed
  ultimately show ?thesis using fs by (intro exI[of _ "receipt_fts ?d @ fs"]) simp
qed

lemma rebuild_semantic_index_spec:
  assumes "rebuild_semantic_index A (s, t) d = Inr d'"
  shows "\<exists>fs. d' = d\<lparr>semantic_fts := fs\<rparr> \<and> list_all2 (head_entry A t) (projected_heads d s) (filter (\<lambda>f. sf_table f = t) fs) \<and>
    (\<forall>u. u \<noteq> t \<longrightarrow> filter (\<lambda>f. sf_table f = u) fs = head_table d u)"
proof -
  let ?d = "d\<lparr>semantic_fts := tbl_delete (\<lambda>f. sf_table f = t) (semantic_fts d)\<rparr>"
  have heads: "projected_heads ?d s = projected_heads d s" by (simp add: projected_heads_def)
  obtain fs where fs: "list_all2 (head_entry A t) (projected_heads d s) fs" "d' = ?d\<lparr>semantic_fts := semantic_fts ?d @ fs\<rparr>"
    using rebuild_heads_fold[OF assms[unfolded rebuild_semantic_index_def rebuildSemanticProjection_def fst_conv snd_conv heads]] by auto
  have t: "\<forall>f\<in>set fs. sf_table f = t" using fs(1) by (auto simp: list_all2_conv_all_nth in_set_conv_nth head_entry_def)
  then have "filter (\<lambda>f. sf_table f = t) (semantic_fts ?d @ fs) = fs" by (auto simp: tbl_delete_def filter_empty_conv filter_id_conv)
  moreover have "filter (\<lambda>f. sf_table f = u) (semantic_fts ?d @ fs) = head_table d u" if "u \<noteq> t" for u
  proof -
    have "filter (\<lambda>f. sf_table f = u) fs = []" using t that by (auto simp: filter_empty_conv)
    then show ?thesis using that by (auto simp: tbl_delete_def head_table_def intro!: filter_cong)
  qed
  ultimately show ?thesis using fs by (intro exI[of _ "semantic_fts ?d @ fs"]) simp
qed

lemma rebuild_receipt_indexes:
  assumes "fold_res (rebuild_receipt_index A) ixs d = Inr d'" and "distinct (map snd ixs)"
  shows "(\<exists>fs. d' = d\<lparr>receipt_fts := fs\<rparr>) \<and> (\<forall>(s, t)\<in>set ixs. list_all2 (receipt_entry A t) (space_receipts d s) (receipt_table d' t)) \<and>
    (\<forall>u. u \<notin> snd ` set ixs \<longrightarrow> receipt_table d' u = receipt_table d u)"
  using assms
proof (induction ixs arbitrary: d)
  case Nil
  then show ?case by (intro conjI exI[of _ "receipt_fts d"]) simp_all
next
  case (Cons ix ixs)
  obtain s t where ix: "ix = (s, t)" by (cases ix)
  from Cons.prems(1) obtain d1 where d1: "rebuild_receipt_index A (s, t) d = Inr d1" and rest: "fold_res (rebuild_receipt_index A) ixs d1 = Inr d'"
    by (auto simp: ix elim!: run_elims)
  from rebuild_receipt_index_spec[OF d1] obtain fs where fs: "d1 = d\<lparr>receipt_fts := fs\<rparr>"
    "list_all2 (receipt_entry A t) (space_receipts d s) (receipt_table d1 t)" "\<And>u. u \<noteq> t \<Longrightarrow> receipt_table d1 u = receipt_table d u"
    by (auto simp: receipt_table_def)
  have same: "space_receipts d1 = space_receipts d" by (simp add: fs(1) space_receipts_def fun_eq_iff)
  have t: "t \<notin> snd ` set ixs" using Cons.prems(2) by (simp add: ix)
  from Cons.IH[OF rest] Cons.prems(2) have IH: "\<exists>fs. d' = d1\<lparr>receipt_fts := fs\<rparr>"
    "\<forall>(s, t)\<in>set ixs. list_all2 (receipt_entry A t) (space_receipts d s) (receipt_table d' t)"
    "\<forall>u. u \<notin> snd ` set ixs \<longrightarrow> receipt_table d' u = receipt_table d1 u" by (auto simp: ix same)
  show ?case using IH fs t by (auto simp: ix)
qed

lemma rebuild_semantic_indexes:
  assumes "fold_res (rebuild_semantic_index A) ixs d = Inr d'" and "distinct (map snd ixs)"
  shows "(\<exists>fs. d' = d\<lparr>semantic_fts := fs\<rparr>) \<and> (\<forall>(s, t)\<in>set ixs. list_all2 (head_entry A t) (projected_heads d s) (head_table d' t)) \<and>
    (\<forall>u. u \<notin> snd ` set ixs \<longrightarrow> head_table d' u = head_table d u)"
  using assms
proof (induction ixs arbitrary: d)
  case Nil
  then show ?case by (intro conjI exI[of _ "semantic_fts d"]) simp_all
next
  case (Cons ix ixs)
  obtain s t where ix: "ix = (s, t)" by (cases ix)
  from Cons.prems(1) obtain d1 where d1: "rebuild_semantic_index A (s, t) d = Inr d1" and rest: "fold_res (rebuild_semantic_index A) ixs d1 = Inr d'"
    by (auto simp: ix elim!: run_elims)
  from rebuild_semantic_index_spec[OF d1] obtain fs where fs: "d1 = d\<lparr>semantic_fts := fs\<rparr>"
    "list_all2 (head_entry A t) (projected_heads d s) (head_table d1 t)" "\<And>u. u \<noteq> t \<Longrightarrow> head_table d1 u = head_table d u"
    by (auto simp: head_table_def)
  have same: "projected_heads d1 = projected_heads d" by (simp add: fs(1) projected_heads_def fun_eq_iff)
  have t: "t \<notin> snd ` set ixs" using Cons.prems(2) by (simp add: ix)
  from Cons.IH[OF rest] Cons.prems(2) have IH: "\<exists>fs. d' = d1\<lparr>semantic_fts := fs\<rparr>"
    "\<forall>(s, t)\<in>set ixs. list_all2 (head_entry A t) (projected_heads d s) (head_table d' t)"
    "\<forall>u. u \<notin> snd ` set ixs \<longrightarrow> head_table d' u = head_table d1 u" by (auto simp: ix same)
  show ?case using IH fs t by (auto simp: ix)
qed

text \<open>Keys and references of the schema that the projection relies on.\<close>

definition indexes_ok :: "db \<Rightarrow> bool" where
  "indexes_ok d \<longleftrightarrow> distinct (map fst (space_indexes d)) \<and> distinct (map snd (space_indexes d)) \<and>
     (\<forall>r\<in>set (receipts d). rt_space_id r \<in> fst ` set (space_indexes d)) \<and>
     distinct (map fst (semantic_space_indexes d)) \<and> distinct (map snd (semantic_space_indexes d)) \<and>
     (\<forall>r\<in>set (semantic_records d). sm_space_id r \<in> fst ` set (semantic_space_indexes d) \<and> 0 < sm_current_revision r)"

lemma sum_partition:
  assumes "distinct ks" and "\<forall>x\<in>set xs. f x \<in> set ks"
  shows "sum_list (map (\<lambda>k. length (filter (\<lambda>x. f x = k) xs)) ks) = length xs"
  using assms(2)
proof (induction xs)
  case (Cons x xs)
  have "f x \<in> set ks" using Cons.prems by simp
  with assms(1) have one: "sum_list (map (\<lambda>k. if f x = k then 1 else 0 :: nat) ks) = 1"
    by (induction ks) (auto simp: sum_list_0 intro!: sum_list_0)
  have "sum_list (map (\<lambda>k. length (filter (\<lambda>y. f y = k) (x # xs))) ks) =
      sum_list (map (\<lambda>k. (if f x = k then 1 else 0) + length (filter (\<lambda>y. f y = k) xs)) ks)"
    by (intro arg_cong[of _ _ sum_list] map_cong) auto
  also have "\<dots> = 1 + length xs" using one Cons by (simp add: sum_list_addf)
  finally show ?case by simp
qed simp

lemma one_row:
  assumes "distinct (map f xs)" and "a \<in> f ` set xs"
  shows "length (filter (\<lambda>x. f x = a) xs) = 1"
  using assms
proof (induction xs)
  case (Cons x xs)
  then show ?case by (cases "f x = a") (auto simp: filter_empty_conv image_iff)
qed simp

lemma projected_heads_length:
  assumes "system_ok d" and "\<forall>r\<in>set (semantic_records d). 0 < sm_current_revision r"
  shows "length (projected_heads d s) = length (filter (\<lambda>r. sm_space_id r = s \<and> sm_status r = RecordStatusActive) (semantic_records d))"
proof -
  let ?key = "\<lambda>v. (rv_record_id v, rv_revision v)"
  have keys: "distinct (map ?key (semantic_revisions d))" and hist: "history_ok d"
    using assms(1) by (auto simp: system_ok_def facts_ok_def revision_keys_def)
  have one: "length (filter (\<lambda>v. rv_record_id v = sm_record_id r \<and> rv_revision v = sm_current_revision r) (semantic_revisions d)) = 1"
    if r: "r \<in> set (semantic_records d)" for r
  proof -
    have "sm_current_revision r \<in> revision_numbers d (sm_record_id r)" using r hist assms(2) by (auto simp: history_ok_def)
    then have "(sm_record_id r, sm_current_revision r) \<in> ?key ` set (semantic_revisions d)" by (force simp: revision_numbers_def)
    from one_row[OF keys this] show ?thesis by simp
  qed
  let ?rs = "sort_key sm_record_id (filter (\<lambda>r. sm_space_id r = s \<and> sm_status r = RecordStatusActive) (semantic_records d))"
  have "length (projected_heads d s) = sum_list (map (\<lambda>r. 1) ?rs)"
    unfolding projected_heads_def length_concat map_map by (intro arg_cong[of _ _ sum_list] map_cong refl) (auto simp: one)
  then show ?thesis by (simp add: sum_list_triv)
qed

lemma indexes_sum: "sum_list (map (\<lambda>(_, t). g t) (sort_key fst ixs)) = sum_list (map (\<lambda>(_, t). g t) ixs)" for g :: "string \<Rightarrow> nat"
proof -
  have "mset (sort_key fst ixs) = mset ixs" by simp
  then have "mset (map (\<lambda>(_, t). g t) (sort_key fst ixs)) = mset (map (\<lambda>(_, t). g t) ixs)" by (simp only: mset_map)
  then show ?thesis by (metis sum_mset_sum_list)
qed

lemma indexes_total:
  assumes "distinct (map fst ixs)" and "\<forall>x\<in>set xs. f x \<in> fst ` set ixs"
    and "\<And>s t. (s, t) \<in> set ixs \<Longrightarrow> g t = length (filter (\<lambda>x. f x = s) xs)"
  shows "sum_list (map (\<lambda>(_, t). g t) ixs) = length xs"
proof -
  have "sum_list (map (\<lambda>(_, t). g t) ixs) = sum_list (map (\<lambda>k. length (filter (\<lambda>x. f x = k) xs)) (map fst ixs))"
    unfolding map_map by (intro arg_cong[of _ _ sum_list] map_cong) (auto simp: assms(3))
  then show ?thesis using sum_partition[OF assms(1), of xs f] assms(2) by simp
qed

lemma rebuild_tx_spec:
  assumes "rebuild_tx A d = Inr d'" and "indexes_ok d"
  shows "\<exists>rs hs. d' = d\<lparr>receipt_fts := rs, semantic_fts := hs\<rparr>"
    "\<forall>(s, t)\<in>set (space_indexes d). list_all2 (receipt_entry A t) (space_receipts d s) (receipt_table d' t)"
    "\<forall>(s, t)\<in>set (semantic_space_indexes d). t = semanticSpaceIndexTable s \<and> list_all2 (head_entry A t) (projected_heads d s) (head_table d' t)"
proof -
  obtain d1 where r: "fold_res (rebuild_receipt_index A) (sort_key fst (space_indexes d)) d = Inr d1"
    and names: "list_all (\<lambda>(s, t). t = semanticSpaceIndexTable s) (semantic_space_indexes d1)"
    and h: "fold_res (rebuild_semantic_index A) (sort_key fst (semantic_space_indexes d1)) d1 = Inr d'"
    using assms(1) unfolding rebuild_tx_def by (elim run_elims) auto
  have dist: "distinct (map snd (sort_key fst ixs))" if "distinct (map snd ixs)" for ixs :: "(string \<times> string) list"
    using that by (simp add: distinct_map)
  obtain rs where rs: "d1 = d\<lparr>receipt_fts := rs\<rparr>"
    and R: "\<forall>(s, t)\<in>set (space_indexes d). list_all2 (receipt_entry A t) (space_receipts d s) (receipt_table d1 t)"
    using rebuild_receipt_indexes[OF r dist] assms(2) by (auto simp: indexes_ok_def)
  have d1: "semantic_space_indexes d1 = semantic_space_indexes d" "projected_heads d1 = projected_heads d"
    by (simp_all add: rs projected_heads_def fun_eq_iff)
  obtain hs where hs: "d' = d1\<lparr>semantic_fts := hs\<rparr>"
    and H: "\<forall>(s, t)\<in>set (semantic_space_indexes d). list_all2 (head_entry A t) (projected_heads d s) (head_table d' t)"
    using rebuild_semantic_indexes[OF h dist] assms(2) by (auto simp: indexes_ok_def d1)
  have "receipt_table d' = receipt_table d1" by (simp add: hs receipt_table_def fun_eq_iff)
  then show "\<forall>(s, t)\<in>set (space_indexes d). list_all2 (receipt_entry A t) (space_receipts d s) (receipt_table d' t)" using R by simp
  show "\<exists>rs hs. d' = d\<lparr>receipt_fts := rs, semantic_fts := hs\<rparr>" using rs hs by auto
  show "\<forall>(s, t)\<in>set (semantic_space_indexes d). t = semanticSpaceIndexTable s \<and> list_all2 (head_entry A t) (projected_heads d s) (head_table d' t)"
    using H names by (auto simp: list_all_iff d1)
qed

text \<open>
  Claim C24. Rebuilding the disposable projection restores it from the canonical tables alone and
  touches nothing else: whatever the index tables held before, after a successful rebuild the
  table of each Space holds one entry per receipt of the Space in commit order and one per active
  record, each the projection of the stored text, and the diagnostics report both projections
  healthy.
\<close>

theorem rebuild_heals_projection:
  assumes "system_ok d" and "indexes_ok d" and "RebuildFTS A now out rebuilt d = (Inr (), d', rebuilt')"
  shows "(\<exists>rs hs. d' = d\<lparr>receipt_fts := rs, semantic_fts := hs\<rparr>) \<and>
    (\<forall>(s, t)\<in>set (space_indexes d). list_all2 (receipt_entry A t) (space_receipts d s) (receipt_table d' t)) \<and>
    (\<forall>(s, t)\<in>set (semantic_space_indexes d). list_all2 (head_entry A t) (projected_heads d s) (head_table d' t)) \<and>
    pd_healthy (inspect_projection rebuilt' d') \<and> sd_healthy (inspectStewardDiagnostics d') \<and> rebuilt' = Some now"
proof -
  have tx: "rebuild_tx A d = Inr d'" and now: "rebuilt' = Some now"
    using assms(3) by (auto simp: RebuildFTS_def split: sum.splits commit_outcome.splits)
  note spec = rebuild_tx_spec[OF tx assms(2)]
  obtain rs hs where d': "d' = d\<lparr>receipt_fts := rs, semantic_fts := hs\<rparr>" using spec(1) by blast
  have "table_entries d' t = length (filter (\<lambda>r. rt_space_id r = s) (receipts d))" if "(s, t) \<in> set (space_indexes d)" for s t
    using spec(2) that by (auto dest!: list_all2_lengthD simp: table_entries_def count_if_def receipt_table_def space_receipts_def)
  then have "sum_list (map (\<lambda>(_, t). table_entries d' t) (space_indexes d)) = length (receipts d)"
    using assms(2) by (intro indexes_total[where f = rt_space_id]) (auto simp: indexes_ok_def)
  then have R: "pd_healthy (inspect_projection rebuilt' d')"
    by (simp add: inspect_projection_def indexes_sum[where g = "table_entries _"]) (simp add: d' Let_def)
  let ?active = "filter (\<lambda>r. sm_status r = RecordStatusActive) (semantic_records d)"
  have "semantic_table_entries d' t = length (filter (\<lambda>r. sm_space_id r = s) ?active)" if "(s, t) \<in> set (semantic_space_indexes d)" for s t
    using spec(3) that projected_heads_length[OF assms(1), of s] assms(2)
    by (auto dest!: list_all2_lengthD simp: semantic_table_entries_def count_if_def head_table_def indexes_ok_def conj_commute)
  then have "sum_list (map (\<lambda>(_, t). semantic_table_entries d' t) (semantic_space_indexes d)) = length ?active"
    using assms(2) by (intro indexes_total[where f = sm_space_id]) (auto simp: indexes_ok_def)
  moreover have "filter (\<lambda>(s, t). t = semanticSpaceIndexTable s) (sort_key fst (semantic_space_indexes d)) = sort_key fst (semantic_space_indexes d)"
    using spec(3) by (auto simp: filter_id_conv)
  ultimately have "sd_healthy (inspectStewardDiagnostics d')"
    unfolding inspectStewardDiagnostics_def Let_def
    by (simp add: indexes_sum[where g = "semantic_table_entries _"] count_if_def) (simp add: d' indexes_sum[where g = "semantic_table_entries _"])
  then show ?thesis using spec R now by (intro conjI) auto
qed

section \<open>What an export holds\<close>





























section \<open>Witnesses\<close>

lemma demo_indexes_ok: "indexes_ok demo_governed"
  by (simp add: indexes_ok_def demo_governed_tables demo_receipt_fields demo_head_def)

lemma demo_always_projects: "\<exists>p. projectLexical demo_analyzer text [] = Some p"
  by (simp add: projectLexical_def demo_analyzer_def)

lemma demo_rebuild_tx: "\<exists>d'. rebuild_tx demo_analyzer demo_governed = Inr d'"
proof -
  have rows: "filter (\<lambda>r. rt_space_id r = ''s'') [demo_receipt] = [demo_receipt]" by (simp add: demo_receipt_fields)
  obtain p q where "projectLexical demo_analyzer (rt_text demo_receipt) [] = Some p" "projectLexical demo_analyzer ''hi'' [] = Some q"
    using demo_always_projects by metis
  then show ?thesis
    by (simp add: rebuild_tx_def rebuild_receipt_index_def rebuildReceiptProjection_def rebuild_semantic_index_def rebuildSemanticProjection_def
        projected_heads_def demo_governed_tables rows indexReceiptProjection_def indexSemanticProjection_def demo_head_def demo_revision_def)
qed

theorem rebuild_heals_projection_witness:
  "\<exists>d'. RebuildFTS demo_analyzer 9 Committed None demo_governed = (Inr (), d', Some 9) \<and> pd_healthy (inspect_projection (Some 9) d') \<and>
    length (receipt_table d' (spaceIndexTable ''s'')) = 1"
proof -
  obtain d' where "rebuild_tx demo_analyzer demo_governed = Inr d'" using demo_rebuild_tx by blast
  then have run: "RebuildFTS demo_analyzer 9 Committed None demo_governed = (Inr (), d', Some 9)" by (simp add: RebuildFTS_def)
  have one: "length (space_receipts demo_governed ''s'') = 1" by (simp add: space_receipts_def demo_governed_tables demo_receipt_fields)
  from rebuild_heals_projection[OF demo_governed_ok demo_indexes_ok run] run one show ?thesis
    by (auto simp: demo_governed_tables dest!: list_all2_lengthD)
qed



end
