(* ===== verification/Aes_Gcm.thy ===== *)
theory Aes_Gcm
  imports "HOL-Library.Word" Prelude
begin

text \<open>
  AES-256 in Galois/Counter mode with 96-bit nonces (FIPS 197 and NIST SP 800-38D), the AEAD that
  \<open>newAEAD\<close> of \<open>internal/backupfile/format.go\<close> builds from \<open>crypto/aes\<close> and \<open>crypto/cipher\<close>.
  The laws the backup container needs are proved of it: opening inverts sealing, and what opens was
  sealed under the same nonce and associated data. No claim is made about secrecy.
\<close>

unbundle bit_operations_syntax

type_synonym byte = "8 word"

definition bytes_of :: "string \<Rightarrow> byte list" where
  "bytes_of s = map of_char s"

definition text_of :: "byte list \<Rightarrow> string" where
  "text_of bs = map (\<lambda>b. char_of (uint b)) bs"

section \<open>The block cipher\<close>

definition xtime :: "byte \<Rightarrow> byte" where
  "xtime a = push_bit 1 a XOR (if bit a 7 then 0x1b else 0)"

definition gf_mul :: "byte \<Rightarrow> byte \<Rightarrow> byte" where
  "gf_mul a b = fold (\<lambda>i acc. if bit b i then acc XOR (xtime ^^ i) a else acc) [0..<8] 0"

text \<open>The inverse is the power 254.\<close>

definition gf_inv :: "byte \<Rightarrow> byte" where
  "gf_inv a = (let a2 = gf_mul a a; a4 = gf_mul a2 a2; a8 = gf_mul a4 a4; a16 = gf_mul a8 a8; a32 = gf_mul a16 a16;
     a64 = gf_mul a32 a32; a128 = gf_mul a64 a64 in
     gf_mul a2 (gf_mul a4 (gf_mul a8 (gf_mul a16 (gf_mul a32 (gf_mul a64 a128))))))"

definition rotl8 :: "nat \<Rightarrow> byte \<Rightarrow> byte" where
  "rotl8 n a = push_bit n a OR drop_bit (8 - n) a"

definition sbox :: "byte \<Rightarrow> byte" where
  "sbox a = (let b = gf_inv a in b XOR rotl8 1 b XOR rotl8 2 b XOR rotl8 3 b XOR rotl8 4 b XOR 0x63)"

definition rcon :: "nat \<Rightarrow> byte" where
  "rcon i = (xtime ^^ (i - 1)) 1"

text \<open>The key schedule: sixty words of four bytes.\<close>

definition next_word :: "byte list list \<Rightarrow> byte list list" where
  "next_word ws =
    (let i = length ws; prev = last ws;
         t = (if i mod 8 = 0 then
                (case map sbox (rotate1 prev) of [] \<Rightarrow> [] | b # bs \<Rightarrow> (b XOR rcon (i div 8)) # bs)
              else if i mod 8 = 4 then map sbox prev else prev)
     in ws @ [map2 (XOR) (ws ! (i - 8)) t])"

definition key_words :: "byte list \<Rightarrow> byte list list" where
  "key_words key = (next_word ^^ 52) (map (\<lambda>i. take 4 (drop (4 * i) key)) [0..<8])"

definition round_key :: "byte list list \<Rightarrow> nat \<Rightarrow> byte list" where
  "round_key ws r = concat (take 4 (drop (4 * r) ws))"

definition add_round_key :: "byte list \<Rightarrow> byte list \<Rightarrow> byte list" where
  "add_round_key k s = map (\<lambda>i. s ! i XOR k ! i) [0..<16]"

definition shift_rows :: "byte list \<Rightarrow> byte list" where
  "shift_rows s = map (\<lambda>i. s ! ((i + 4 * (i mod 4)) mod 16)) [0..<16]"

definition mix_columns :: "byte list \<Rightarrow> byte list" where
  "mix_columns s = map (\<lambda>i. let c = 4 * (i div 4); r = i mod 4; at_row = (\<lambda>k. s ! (c + (r + k) mod 4)) in
     xtime (at_row 0) XOR (xtime (at_row 1) XOR at_row 1) XOR at_row 2 XOR at_row 3) [0..<16]"

definition aes_round :: "byte list list \<Rightarrow> nat \<Rightarrow> byte list \<Rightarrow> byte list" where
  "aes_round ws r s = add_round_key (round_key ws r) (mix_columns (shift_rows (map sbox s)))"

definition aes_block :: "byte list list \<Rightarrow> byte list \<Rightarrow> byte list" where
  "aes_block ws s =
    add_round_key (round_key ws 14) (shift_rows (map sbox (fold (aes_round ws) [1..<14] (add_round_key (round_key ws 0) s))))"

section \<open>Counter mode and the authentication tag\<close>

definition be_bytes :: "nat \<Rightarrow> 'a::len word \<Rightarrow> byte list" where
  "be_bytes n w = map (\<lambda>i. ucast (drop_bit (8 * i) w)) (rev [0..<n])"

definition counter_block :: "byte list list \<Rightarrow> byte list \<Rightarrow> 32 word \<Rightarrow> byte list" where
  "counter_block ws nonce counter = aes_block ws (nonce @ be_bytes 4 counter)"

fun gctr :: "byte list list \<Rightarrow> byte list \<Rightarrow> 32 word \<Rightarrow> byte list \<Rightarrow> byte list" where
  "gctr ws nonce counter [] = []"
| "gctr ws nonce counter (b # bs) =
     map2 (XOR) (take 16 (b # bs)) (counter_block ws nonce counter) @ gctr ws nonce (counter + 1) (drop 16 (b # bs))"

definition block_word :: "byte list \<Rightarrow> 128 word" where
  "block_word bs = fold (\<lambda>b acc. push_bit 8 acc OR ucast b) bs 0"

text \<open>Multiplication in \<open>GF(2^128)\<close>, bit 127 first.\<close>

definition ghash_mul :: "128 word \<Rightarrow> 128 word \<Rightarrow> 128 word" where
  "ghash_mul x y = fst (fold (\<lambda>i (z, v). (if bit x (127 - i) then z XOR v else z,
       drop_bit 1 v XOR (if bit v 0 then push_bit 120 0xe1 else 0))) [0..<128] (0, y))"

fun blocks16 :: "byte list \<Rightarrow> byte list list" where
  "blocks16 [] = []"
| "blocks16 (b # bs) = take 16 (take 16 (b # bs) @ replicate 16 0) # blocks16 (drop 16 (b # bs))"

definition ghash :: "128 word \<Rightarrow> byte list \<Rightarrow> byte list \<Rightarrow> 128 word" where
  "ghash h aad c = fold (\<lambda>b acc. ghash_mul (acc XOR block_word b) h)
     (blocks16 aad @ blocks16 c @ [be_bytes 8 (of_nat (8 * length aad) :: 64 word) @ be_bytes 8 (of_nat (8 * length c) :: 64 word)]) 0"

definition gcm_tag :: "byte list list \<Rightarrow> byte list \<Rightarrow> byte list \<Rightarrow> byte list \<Rightarrow> byte list" where
  "gcm_tag ws nonce aad c =
    be_bytes 16 (ghash (block_word (aes_block ws (replicate 16 0))) aad c XOR block_word (counter_block ws nonce 1))"

definition gcm_seal :: "string \<Rightarrow> string \<Rightarrow> string \<Rightarrow> string \<Rightarrow> string" where
  "gcm_seal key nonce plaintext aad =
    (let ws = key_words (bytes_of key); n = bytes_of nonce; c = gctr ws n 2 (bytes_of plaintext) in
     text_of (c @ gcm_tag ws n (bytes_of aad) c))"

definition gcm_open :: "string \<Rightarrow> string \<Rightarrow> string \<Rightarrow> string \<Rightarrow> string option" where
  "gcm_open key nonce sealed aad =
    (let ws = key_words (bytes_of key); n = bytes_of nonce; s = bytes_of sealed;
         c = take (length s - 16) s; tag = drop (length s - 16) s in
     if length s < 16 then None
     else if gcm_tag ws n (bytes_of aad) c \<noteq> tag then None
     else Some (text_of (gctr ws n 2 c)))"

section \<open>The laws of the AEAD\<close>

lemma byte_of_char: "of_char (char_of (uint b) :: char) = (b :: byte)"
proof -
  have "uint b < 256" using uint_bounded[of b] by simp
  then have "(of_char (char_of (uint b) :: char) :: int) = uint b" by (simp add: mod_pos_pos_trivial)
  then have "of_int (of_char (char_of (uint b) :: char)) = (of_int (uint b) :: byte)" by (simp only:)
  then show ?thesis by (simp only: of_int_of_char word_of_int_uint)
qed

lemma char_of_byte: "char_of (uint (of_char c :: byte)) = c"
proof -
  have "(of_char c :: byte) = of_int (of_char c)" by (simp only: of_int_of_char)
  then have "uint (of_char c :: byte) = take_bit 8 (of_char c)" by (simp only: uint_word_of_int_eq) simp
  then show ?thesis by (simp add: take_bit_eq_mod)
qed

lemma bytes_of_text_of [simp]: "bytes_of (text_of bs) = bs"
  by (simp add: bytes_of_def text_of_def comp_def byte_of_char)

lemma text_of_bytes_of [simp]: "text_of (bytes_of s) = s"
  by (simp add: bytes_of_def text_of_def comp_def char_of_byte)

lemma length_bytes [simp]: "length (bytes_of s) = length s" "length (text_of bs) = length bs"
  by (simp_all add: bytes_of_def text_of_def)

lemma length_counter_block [simp]: "length (counter_block ws n c) = 16"
  by (simp add: counter_block_def aes_block_def add_round_key_def)

lemma length_gctr [simp]: "length (gctr ws n c bs) = length bs"
  by (induction ws n c bs rule: gctr.induct) auto

text \<open>Counter mode is an involution: the key stream depends only on the position.\<close>

lemma map2_xor_twice: "length xs \<le> length ks \<Longrightarrow> map2 (XOR) (map2 (XOR) xs ks) ks = (xs :: byte list)"
  by (induction xs ks rule: list_induct2') (auto simp: xor.assoc)

lemma gctr_step:
  assumes "bs \<noteq> []"
  shows "gctr ws n c bs = map2 (XOR) (take 16 bs) (counter_block ws n c) @ gctr ws n (c + 1) (drop 16 bs)"
  using assms by (cases bs) simp_all

lemma gctr_twice [simp]: "gctr ws n c (gctr ws n c bs) = bs"
proof (induction ws n c bs rule: gctr.induct)
  case (2 ws n c b bs)
  let ?p = "b # bs" and ?k = "counter_block ws n c"
  let ?head = "map2 (XOR) (take 16 ?p) ?k" and ?rest = "gctr ws n (c + 1) (drop 16 ?p)"
  have len: "length ?head = min 16 (length ?p)" by simp
  have split: "take 16 (?head @ ?rest) = ?head" "drop 16 (?head @ ?rest) = ?rest"
    using len by (auto simp: min_def split: if_splits)
  have "gctr ws n c (gctr ws n c ?p) = gctr ws n c (?head @ ?rest)" by (simp only: gctr.simps)
  also have "\<dots> = map2 (XOR) ?head ?k @ gctr ws n (c + 1) ?rest"
  proof -
    have "length (?head @ ?rest) = length ?p" by simp
    then have "?head @ ?rest \<noteq> []" by (metis length_0_conv list.distinct(1))
    from gctr_step[OF this] show ?thesis unfolding split .
  qed
  also have "\<dots> = take 16 ?p @ drop 16 ?p" using map2_xor_twice[of "take 16 ?p" ?k] 2 by simp
  finally show ?case by simp
qed simp

lemma length_gcm_tag [simp]: "length (gcm_tag ws n a c) = 16"
  by (simp add: gcm_tag_def be_bytes_def)

lemma gcm_seal_length [simp]: "length (gcm_seal key nonce p aad) = length p + 16"
  by (simp add: gcm_seal_def Let_def)

lemma gcm_open_seal [simp]: "gcm_open key nonce (gcm_seal key nonce p aad) aad = Some p"
  by (simp add: gcm_open_def gcm_seal_def Let_def)

lemma gcm_open_sealed:
  assumes "gcm_open key nonce sealed aad = Some p"
  shows "sealed = gcm_seal key nonce p aad"
proof -
  let ?s = "bytes_of sealed"
  let ?c = "take (length ?s - 16) ?s" and ?ws = "key_words (bytes_of key)"
  from assms have "gcm_tag ?ws (bytes_of nonce) (bytes_of aad) ?c = drop (length ?s - 16) ?s" "p = text_of (gctr ?ws (bytes_of nonce) 2 ?c)"
    by (auto simp: gcm_open_def Let_def split: if_splits)
  then have "gcm_seal key nonce p aad = text_of (?c @ drop (length ?s - 16) ?s)" by (simp add: gcm_seal_def Let_def)
  then show ?thesis by simp
qed

end
