(* ===== verification/Backup_File.thy ===== *)
theory Backup_File
  imports Aes_Gcm Sha256
begin

text \<open>
  The encrypted backup container of \<open>internal/backupfile/format.go\<close>: a magic line, an eight byte
  nonce prefix, a sequence of length-prefixed AEAD chunks and a zero length as terminator. Readers
  and writers are Go's \<open>io.Reader\<close> and \<open>io.Writer\<close>: a reader is the bytes it delivers and how it
  ends, a writer the bytes it holds and the room it has left before it fails. The laws are proved
  in the locale \<open>aead_scheme\<close> over an arbitrary \<open>cipher.AEAD\<close> and interpreted on AES-GCM.
\<close>

section \<open>Streams\<close>

record reader =
  rd_bytes :: string
  rd_fault :: bool

datatype read_error = ReadEOF | ReadUnexpectedEOF | ReadFault

text \<open>\<open>io.ReadFull\<close>: the error, what was read, and the rest.\<close>

definition ReadFull :: "nat \<Rightarrow> reader \<Rightarrow> read_error option \<times> string \<times> reader" where
  "ReadFull n r =
    (let got = take n (rd_bytes r); rest = r\<lparr>rd_bytes := drop n (rd_bytes r)\<rparr> in
     (if length got = n then None else if rd_fault r then Some ReadFault
      else if got = [] then Some ReadEOF else Some ReadUnexpectedEOF, got, rest))"

record writer =
  wr_bytes :: string
  wr_room :: "nat option"

text \<open>\<open>Write\<close>: the count, whether an error is returned, and the writer after the call.\<close>

definition Write :: "string \<Rightarrow> writer \<Rightarrow> nat \<times> bool \<times> writer" where
  "Write p w =
    (case wr_room w of
       None \<Rightarrow> (length p, False, w\<lparr>wr_bytes := wr_bytes w @ p\<rparr>)
     | Some k \<Rightarrow> if length p \<le> k then (length p, False, w\<lparr>wr_bytes := wr_bytes w @ p, wr_room := Some (k - length p)\<rparr>)
        else (k, True, w\<lparr>wr_bytes := wr_bytes w @ take k p, wr_room := Some 0\<rparr>))"

type_synonym outcome = "(string + unit) \<times> writer"

definition wbind :: "outcome \<Rightarrow> (writer \<Rightarrow> outcome) \<Rightarrow> outcome" where
  "wbind m f = (case m of (Inl e, w) \<Rightarrow> (Inl e, w) | (Inr _, w) \<Rightarrow> f w)"

function writeAll :: "string \<Rightarrow> writer \<Rightarrow> outcome" where
  "writeAll p w =
    (if p = [] then (Inr (), w)
     else (case Write p w of (count, failed, w') \<Rightarrow>
       if failed then (Inl ''write backup'', w')
       else if count = 0 then (Inl ''short write'', w')
       else writeAll (drop count p) w'))"
  by pat_completeness auto
termination
  by (relation "measure (length \<circ> fst)") auto

declare writeAll.simps [simp del]

definition write_uint32 :: "string \<Rightarrow> u32 \<Rightarrow> writer \<Rightarrow> outcome" where
  "write_uint32 e n w = (case Write (word_bytes n) w of (count, failed, w') \<Rightarrow> (if failed then Inl e else Inr (), w'))"

definition be_uint32 :: "string \<Rightarrow> u32" where
  "be_uint32 s = (case be_words s of [] \<Rightarrow> 0 | w # ws \<Rightarrow> w)"

section \<open>The container\<close>

definition KeySize :: nat where "KeySize = 32"
definition ChunkSize :: nat where "ChunkSize = 2 ^ 20"
definition KeyFormat :: string where "KeyFormat = ''memory.backup.key.v1''"
definition magic :: string where "magic = ''CAELIS-MEMORY-BACKUP-V1'' @ [CHR 0x0A]"
definition maxSequence :: nat where "maxSequence = 2 ^ 32 - 1"

text \<open>\<open>cipher.AEAD\<close>.\<close>

record aead =
  ad_nonce_size :: nat
  ad_overhead :: nat
  ad_seal :: "string \<Rightarrow> string \<Rightarrow> string \<Rightarrow> string"
  ad_open :: "string \<Rightarrow> string \<Rightarrow> string \<Rightarrow> string option"

definition gcm :: "string \<Rightarrow> aead" where
  "gcm key = \<lparr>ad_nonce_size = 12, ad_overhead = 16, ad_seal = gcm_seal key, ad_open = gcm_open key\<rparr>"

definition newAEAD :: "string \<Rightarrow> string + aead" where
  "newAEAD key = rbind (guard (length key = KeySize) ''backup key must be 32 bytes'') (\<lambda>_. Inr (gcm key))"

definition nonceFor :: "string \<Rightarrow> u32 \<Rightarrow> string" where
  "nonceFor prefix sequence = prefix @ word_bytes sequence"

definition associatedData :: "u32 \<Rightarrow> string" where
  "associatedData sequence = magic @ word_bytes sequence"

text \<open>The loop of \<open>Encrypt\<close>.\<close>

function encrypt_chunks :: "aead \<Rightarrow> string \<Rightarrow> nat \<Rightarrow> reader \<Rightarrow> writer \<Rightarrow> outcome" where
  "encrypt_chunks A prefix sequence inp out =
    (if sequence > maxSequence then (Inl ''backup exceeds chunk sequence capacity'', out)
     else (case ReadFull ChunkSize inp of (readErr, chunk, rest) \<Rightarrow>
       if readErr = Some ReadEOF then (Inr (), out)
       else if readErr = Some ReadFault then (Inl ''read backup snapshot'', out)
       else (let sealed = ad_seal A (nonceFor prefix (of_nat sequence)) chunk (associatedData (of_nat sequence)) in
         wbind (write_uint32 ''write backup chunk length'' (of_nat (length sealed)) out) (\<lambda>out.
         wbind (writeAll sealed out) (\<lambda>out.
         if readErr = Some ReadUnexpectedEOF then (Inr (), out)
         else encrypt_chunks A prefix (sequence + 1) rest out)))))"
  by pat_completeness auto
termination
  by (relation "measure (\<lambda>(A, prefix, sequence, inp, out). length (rd_bytes inp))")
     (auto simp: ReadFull_def Let_def ChunkSize_def split: if_splits)

declare encrypt_chunks.simps [simp del]

definition Encrypt :: "reader \<Rightarrow> writer \<Rightarrow> string \<Rightarrow> reader \<Rightarrow> outcome" where
  "Encrypt inp out key random =
    (case newAEAD key of Inl e \<Rightarrow> (Inl e, out) | Inr A \<Rightarrow>
     if ad_nonce_size A \<le> 4 then (Inl ''backup AEAD nonce is too small'', out)
     else (case ReadFull (ad_nonce_size A - 4) random of (err, prefix, _) \<Rightarrow>
       if err \<noteq> None then (Inl ''generate backup nonce'', out)
       else wbind (writeAll magic out) (\<lambda>out. wbind (writeAll prefix out) (\<lambda>out.
         wbind (encrypt_chunks A prefix 0 inp out) (\<lambda>out. write_uint32 ''write backup terminator'' 0 out)))))"

text \<open>The loop of \<open>Decrypt\<close>.\<close>

function decrypt_chunks :: "aead \<Rightarrow> string \<Rightarrow> nat \<Rightarrow> reader \<Rightarrow> writer \<Rightarrow> outcome" where
  "decrypt_chunks A prefix sequence inp out =
    (if sequence > maxSequence then (Inl ''backup exceeds chunk sequence capacity'', out)
     else (case ReadFull 4 inp of (err, lengthBytes, rest) \<Rightarrow>
       if err \<noteq> None then (Inl ''read backup chunk length'', out)
       else (let size = be_uint32 lengthBytes in
         if size = 0 then
           (if rd_bytes rest \<noteq> [] \<or> rd_fault rest then (Inl ''backup contains trailing data'', out) else (Inr (), out))
         else if size < of_nat (ad_overhead A) \<or> size > of_nat (ChunkSize + ad_overhead A) then
           (Inl ''backup chunk length is invalid'', out)
         else (case ReadFull (unat size) rest of (err, sealed, rest') \<Rightarrow>
           if err \<noteq> None then (Inl ''read backup chunk'', out)
           else (case ad_open A (nonceFor prefix (of_nat sequence)) sealed (associatedData (of_nat sequence)) of
               None \<Rightarrow> (Inl ''authenticate backup chunk'', out)
             | Some plaintext \<Rightarrow> wbind (writeAll plaintext out) (\<lambda>out. decrypt_chunks A prefix (sequence + 1) rest' out))))))"
  by pat_completeness auto
termination
  by (relation "measure (\<lambda>(A, prefix, sequence, inp, out). length (rd_bytes inp))")
     (auto simp: ReadFull_def Let_def split: if_splits)

declare decrypt_chunks.simps [simp del]

definition Decrypt :: "reader \<Rightarrow> writer \<Rightarrow> string \<Rightarrow> outcome" where
  "Decrypt inp out key =
    (case newAEAD key of Inl e \<Rightarrow> (Inl e, out) | Inr A \<Rightarrow>
     (case ReadFull (length magic) inp of (err, header, inp) \<Rightarrow>
       if err \<noteq> None then (Inl ''read backup header'', out)
       else if header \<noteq> magic then (Inl ''unsupported backup format'', out)
       else (case ReadFull (ad_nonce_size A - 4) inp of (err, prefix, inp) \<Rightarrow>
         if err \<noteq> None then (Inl ''read backup nonce'', out)
         else decrypt_chunks A prefix 0 inp out)))"

section \<open>Key files\<close>

record key_document =
  kd_format :: string
  kd_key :: string

definition GenerateKey :: "reader \<Rightarrow> string + string" where
  "GenerateKey random = (case ReadFull KeySize random of (err, key, _) \<Rightarrow>
     if err \<noteq> None then Inl ''generate backup key'' else Inr key)"

definition WriteKey :: "string \<Rightarrow> string + key_document" where
  "WriteKey key = rbind (guard (length key = KeySize) ''backup key must be 32 bytes'') (\<lambda>_.
     Inr \<lparr>kd_format = KeyFormat, kd_key = base64url key\<rparr>)"

text \<open>\<open>base64.RawURLEncoding.DecodeString\<close>: line breaks are skipped, the unused low bits of the
  last character are ignored.\<close>

definition base64url_value :: "char \<Rightarrow> nat option" where
  "base64url_value c = (let n = of_char c in
     if 65 \<le> n \<and> n \<le> 90 then Some (n - 65) else if 97 \<le> n \<and> n \<le> 122 then Some (n - 71)
     else if 48 \<le> n \<and> n \<le> 57 then Some (n + 4) else if n = 45 then Some 62 else if n = 95 then Some 63 else None)"

fun base64url_groups :: "nat list \<Rightarrow> string option" where
  "base64url_groups [] = Some []"
| "base64url_groups [a] = None"
| "base64url_groups [a, b] = Some [char_of (a * 4 + b div 16)]"
| "base64url_groups [a, b, c] = Some [char_of (a * 4 + b div 16), char_of (b mod 16 * 16 + c div 4)]"
| "base64url_groups (a # b # c # d # rest) =
     map_option (\<lambda>s. [char_of (a * 4 + b div 16), char_of (b mod 16 * 16 + c div 4), char_of (c mod 4 * 64 + d)] @ s)
       (base64url_groups rest)"

definition base64url_decode :: "string \<Rightarrow> string option" where
  "base64url_decode s =
    (let vs = map base64url_value (filter (\<lambda>c. c \<noteq> CHR 0x0A \<and> c \<noteq> CHR 0x0D) s) in
     if None \<in> set vs then None else base64url_groups (map the vs))"

text \<open>The argument is the outcome of the JSON decoder: the document, and whether anything but the
  end of the input follows it.\<close>

definition ReadKey :: "key_document option \<Rightarrow> bool \<Rightarrow> string + string" where
  "ReadKey decoded trailing =
    rbind (of_opt ''decode backup key'' decoded) (\<lambda>document.
    rbind (guard (\<not> trailing) ''backup key contains trailing JSON'') (\<lambda>_.
    rbind (guard (kd_format document = KeyFormat) ''unsupported backup key format'') (\<lambda>_.
    rbind (of_opt ''backup key material is invalid'' (base64url_decode (kd_key document))) (\<lambda>key.
    rbind (guard (length key = KeySize) ''backup key material is invalid'') (\<lambda>_. Inr key)))))"

section \<open>The key file\<close>

fun base64url_digits :: "string \<Rightarrow> nat list" where
  "base64url_digits [] = []"
| "base64url_digits [a] = [of_char a div 4, of_char a mod 4 * 16]"
| "base64url_digits [a, b] = [of_char a div 4, of_char a mod 4 * 16 + of_char b div 16, of_char b mod 16 * 4]"
| "base64url_digits (a # b # c # rest) =
     [of_char a div 4, of_char a mod 4 * 16 + of_char b div 16, of_char b mod 16 * 4 + of_char c div 64, of_char c mod 64] @ base64url_digits rest"

lemma base64url_digits: "base64url s = map base64url_char (base64url_digits s)"
  by (induction s rule: base64url_digits.induct) simp_all

lemma char_parts: "(of_char x div 4 :: nat) < 64" "(of_char x div 16 :: nat) < 16" "(of_char x div 64 :: nat) < 4"
  using nat_of_char_less_256[of x] less_mult_imp_div_less[of "of_char x :: nat" 64 4] less_mult_imp_div_less[of "of_char x :: nat" 16 16]
    less_mult_imp_div_less[of "of_char x :: nat" 4 64] by simp_all

lemma digit_bounds: "(of_char a mod 4 * 16 + of_char b div 16 :: nat) < 64" "(of_char b mod 16 * 4 + of_char c div 64 :: nat) < 64"
proof -
  have "(of_char a mod 4 :: nat) < 4" "(of_char b mod 16 :: nat) < 16" by simp_all
  then show "(of_char a mod 4 * 16 + of_char b div 16 :: nat) < 64" "(of_char b mod 16 * 4 + of_char c div 64 :: nat) < 64"
    using char_parts[of b] char_parts[of c] by linarith+
qed

lemma base64url_digits_bound: "n \<in> set (base64url_digits s) \<Longrightarrow> n < 64"
proof (induction s rule: base64url_digits.induct)
  case (2 a) then show ?case using char_parts[of a] by auto
next
  case (3 a b) then show ?case using char_parts[of a] digit_bounds by auto
next
  case (4 a b c rest) then show ?case using char_parts[of a] digit_bounds by auto
qed simp

lemma base64url_value_char: "n < 64 \<Longrightarrow> base64url_value (base64url_char n) = Some n"
  by (auto simp: base64url_value_def base64url_char_def Let_def of_char_char_of_small)

lemma base64url_no_break:
  assumes "n < 64"
  shows "base64url_char n \<noteq> CHR 0x0A \<and> base64url_char n \<noteq> CHR 0x0D"
proof -
  have "base64url_value (CHR 0x0A) = None" "base64url_value (CHR 0x0D) = None" by (simp_all add: base64url_value_def)
  then show ?thesis using base64url_value_char[OF assms] by auto
qed

lemma base64url_groups_digits: "base64url_groups (base64url_digits s) = Some s"
proof -
  have join: "char_of (of_char x div 4 * 4 + of_char x mod 4 :: nat) = x" "char_of (of_char x div 16 * 16 + of_char x mod 16 :: nat) = x"
    "char_of (of_char x div 64 * 64 + of_char x mod 64 :: nat) = x" for x by (simp_all only: div_mult_mod_eq char_of_char)
  show ?thesis
    by (induction s rule: base64url_digits.induct)
       (use char_parts join in \<open>simp_all add: add.commute mult.commute\<close>)
qed

lemma base64url_decode_encode: "base64url_decode (base64url s) = Some s"
proof -
  have ds: "filter (\<lambda>c. c \<noteq> CHR 0x0A \<and> c \<noteq> CHR 0x0D) (base64url s) = base64url s"
    "map base64url_value (base64url s) = map Some (base64url_digits s)"
    using base64url_no_break base64url_value_char base64url_digits_bound[of _ s] by (auto simp: base64url_digits filter_id_conv)
  have "None \<notin> set (map Some (base64url_digits s))" "map the (map Some (base64url_digits s)) = base64url_digits s" by (auto simp: comp_def)
  then show ?thesis unfolding base64url_decode_def Let_def ds by (simp only: if_False base64url_groups_digits)
qed

lemma ReadKey_WriteKey: "WriteKey key = Inr doc \<Longrightarrow> ReadKey (Some doc) False = Inr key"
  by (auto simp: WriteKey_def ReadKey_def base64url_decode_encode result_simps)

section \<open>Big-endian words\<close>

lemma length_word_bytes [simp]: "length (word_bytes n) = 4"
  by (simp add: word_bytes_def)

lemma char_bound: "0 \<le> (of_char x :: int)" "(of_char x :: int) < 256"
proof -
  have "(of_char x :: int) = of_char x mod 256" by simp
  then show "0 \<le> (of_char x :: int)" "(of_char x :: int) < 256" by (metis pos_mod_bound pos_mod_sign zero_less_numeral)+
qed

lemma byte_digit: "0 \<le> y \<Longrightarrow> y < 256 \<Longrightarrow> (x * 256 + y) div 256 = (x :: int)" "0 \<le> y \<Longrightarrow> y < 256 \<Longrightarrow> (x * 256 + y) mod 256 = (y :: int)"
  by simp_all

lemma drop_bytes: "drop_bit 8 n = n div 256" "drop_bit 16 n = n div 256 div 256" "drop_bit 24 n = n div 256 div 256 div (256 :: int)"
  by (simp_all add: drop_bit_eq_div zdiv_zmult2_eq[symmetric])

definition four_bytes :: "char \<Rightarrow> char \<Rightarrow> char \<Rightarrow> char \<Rightarrow> int" where
  "four_bytes a b c d = ((of_char a * 256 + of_char b) * 256 + of_char c) * 256 + of_char d"

lemma four_bytes_bound: "0 \<le> four_bytes a b c d" "four_bytes a b c d < 2 ^ 32"
  using char_bound[of a] char_bound[of b] char_bound[of c] char_bound[of d] unfolding four_bytes_def by simp_all

lemma uint_be_uint32: "uint (be_uint32 [a, b, c, d]) = four_bytes a b c d"
proof -
  have "be_uint32 [a, b, c, d] = of_int (four_bytes a b c d)"
    unfolding be_uint32_def four_bytes_def byte_word_def be_words.simps list.case of_int_add of_int_mult of_int_of_char of_int_numeral
    by (simp add: algebra_simps)
  then have "uint (be_uint32 [a, b, c, d]) = four_bytes a b c d mod 2 ^ 32" by (simp only: uint_word_of_int) simp
  then show ?thesis using four_bytes_bound by (simp only: mod_pos_pos_trivial)
qed

lemma char_of_int_eq: "(n :: int) mod 256 = of_char c \<Longrightarrow> char_of n = c"
  by (metis char_of_eq_iff of_char_of char_of_char)

lemma word_bytes_of_uint32:
  assumes "length s = 4"
  shows "word_bytes (be_uint32 s) = s"
proof -
  obtain a b c d where s: "s = [a, b, c, d]" using assms by (auto simp: numeral_eq_Suc length_Suc_conv)
  note r = four_bytes_def byte_digit[OF char_bound]
  have "four_bytes a b c d mod 256 = of_char d" "four_bytes a b c d div 256 mod 256 = of_char c"
    "four_bytes a b c d div 256 div 256 mod 256 = of_char b" "four_bytes a b c d div 256 div 256 div 256 mod 256 = of_char a"
    unfolding r by simp_all
  then show ?thesis unfolding s word_bytes_def uint_be_uint32 by (simp add: drop_bytes char_of_int_eq)
qed

lemma uint32_of_word_bytes [simp]: "be_uint32 (word_bytes w) = w"
proof -
  let ?n = "uint w"
  have "?n div 256 div 256 div 256 = drop_bit 24 ?n" by (simp only: drop_bytes)
  also have "\<dots> < 256" using uint_bounded[of w] by (simp add: drop_bit_eq_div)
  finally have top: "?n div 256 div 256 div 256 mod 256 = ?n div 256 div 256 div 256" by (simp add: mod_pos_pos_trivial pos_imp_zdiv_nonneg_iff)
  have "uint (be_uint32 (word_bytes w)) = ((?n div 256 div 256 div 256 mod 256 * 256 + ?n div 256 div 256 mod 256) * 256 + ?n div 256 mod 256) * 256 + ?n mod 256"
    by (simp add: word_bytes_def uint_be_uint32 four_bytes_def drop_bytes)
  also have "\<dots> = ?n" unfolding top by (simp only: div_mult_mod_eq)
  finally show ?thesis by (simp only: word_uint_eq_iff)
qed

section \<open>What the streams do\<close>

text \<open>A writer without a limit, and a reader that ends cleanly.\<close>

abbreviation sink :: "string \<Rightarrow> writer" where
  "sink s \<equiv> \<lparr>wr_bytes = s, wr_room = None\<rparr>"

abbreviation source :: "string \<Rightarrow> reader" where
  "source s \<equiv> \<lparr>rd_bytes = s, rd_fault = False\<rparr>"

lemma wbind_simps [simp]: "wbind (Inl e, w) f = (Inl e, w)" "wbind (Inr u, w) f = f w"
  by (simp_all add: wbind_def)

lemma wbind_Inr_iff: "wbind m f = (Inr (), w') \<longleftrightarrow> (\<exists>w. m = (Inr (), w) \<and> f w = (Inr (), w'))"
  by (cases m; cases "fst m") auto

lemma writeAll_sink [simp]: "writeAll p (sink s) = (Inr (), sink (s @ p))"
  by (subst writeAll.simps, simp add: Write_def, subst writeAll.simps, simp)

lemma write_uint32_sink [simp]: "write_uint32 e n (sink s) = (Inr (), sink (s @ word_bytes n))"
  by (simp add: write_uint32_def Write_def)

lemma Write_done: "Write p w = (count, False, w') \<Longrightarrow> count = length p \<and> wr_bytes w' = wr_bytes w @ p"
  by (auto simp: Write_def split: option.splits if_splits)

lemma writeAll_done: "writeAll p w = (Inr (), w') \<Longrightarrow> wr_bytes w' = wr_bytes w @ p"
proof (induction p w rule: writeAll.induct)
  case (1 p w)
  show ?case
  proof (cases "p = []")
    case False
    obtain count failed w1 where w1: "Write p w = (count, failed, w1)" by (cases "Write p w")
    with 1(2) False have ok: "\<not> failed" "count \<noteq> 0" "writeAll (drop count p) w1 = (Inr (), w')"
      by (auto simp: writeAll.simps[of p w] split: if_splits)
    then have "count = length p \<and> wr_bytes w1 = wr_bytes w @ p" using Write_done w1 by auto
    with 1(1)[OF False w1[symmetric] refl ok] show ?thesis by simp
  qed (use 1(2) in \<open>simp add: writeAll.simps\<close>)
qed

lemma write_uint32_done: "write_uint32 e n w = (Inr (), w') \<Longrightarrow> wr_bytes w' = wr_bytes w @ word_bytes n"
  by (auto simp: write_uint32_def dest!: Write_done split: prod.splits if_splits)

lemma ReadFull_None: "ReadFull n r = (None, got, rest) \<longleftrightarrow>
    n \<le> length (rd_bytes r) \<and> got = take n (rd_bytes r) \<and> rest = r\<lparr>rd_bytes := drop n (rd_bytes r)\<rparr>"
  by (auto simp: ReadFull_def Let_def min_def split: if_splits)

lemma ReadFull_append [simp]: "length xs = n \<Longrightarrow> ReadFull n \<lparr>rd_bytes = xs @ ys, rd_fault = f\<rparr> = (None, xs, \<lparr>rd_bytes = ys, rd_fault = f\<rparr>)"
  by (simp add: ReadFull_None)

section \<open>The format\<close>

definition sealed_chunk :: "aead \<Rightarrow> string \<Rightarrow> nat \<Rightarrow> string \<Rightarrow> string" where
  "sealed_chunk A prefix k chunk = ad_seal A (nonceFor prefix (of_nat k)) chunk (associatedData (of_nat k))"

fun frames :: "aead \<Rightarrow> string \<Rightarrow> nat \<Rightarrow> string list \<Rightarrow> string" where
  "frames A prefix k [] = []"
| "frames A prefix k (c # cs) =
     word_bytes (of_nat (length (sealed_chunk A prefix k c))) @ sealed_chunk A prefix k c @ frames A prefix (k + 1) cs"

definition container :: "aead \<Rightarrow> string \<Rightarrow> string list \<Rightarrow> string" where
  "container A prefix chunks = magic @ prefix @ frames A prefix 0 chunks @ word_bytes 0"

function chunks_of :: "string \<Rightarrow> string list" where
  "chunks_of p = (if p = [] then [] else take ChunkSize p # chunks_of (drop ChunkSize p))"
  by pat_completeness auto
termination
  by (relation "measure length") (auto simp: ChunkSize_def)

declare chunks_of.simps [simp del]

lemma chunks_of_Nil [simp]: "chunks_of [] = []"
  by (simp add: chunks_of.simps)

lemma concat_chunks_of [simp]: "concat (chunks_of p) = p"
  by (induction p rule: chunks_of.induct) (subst chunks_of.simps, simp)

lemma chunks_of_bounded: "c \<in> set (chunks_of p) \<Longrightarrow> length c \<le> ChunkSize"
proof (induction p rule: chunks_of.induct)
  case (1 p)
  then show ?case by (subst (asm) (2) chunks_of.simps) (auto split: if_splits)
qed

lemma length_chunks_of: "length (chunks_of p) = (length p + ChunkSize - 1) div ChunkSize"
proof (induction p rule: chunks_of.induct)
  case (1 p)
  show ?case
  proof (cases "p = []")
    case False
    have C: "0 < ChunkSize" by (simp add: ChunkSize_def)
    have "length (chunks_of p) = Suc ((length p - ChunkSize + ChunkSize - 1) div ChunkSize)" using 1 False by (subst chunks_of.simps) simp
    also have "\<dots> = (length p + ChunkSize - 1) div ChunkSize"
    proof (cases "length p \<le> ChunkSize")
      case True
      have "1 \<le> length p" using False by (cases p) auto
      then have eq: "length p + ChunkSize - 1 = (length p - 1) + ChunkSize" and "length p - 1 < ChunkSize" using True by linarith+
      then have "(length p + ChunkSize - 1) div ChunkSize = Suc 0" unfolding eq using C by (simp add: div_add_self2)
      moreover have "length p - ChunkSize + ChunkSize - 1 < ChunkSize" using True C by linarith
      ultimately show ?thesis by (simp only: div_less)
    next
      case False
      have "length p + ChunkSize - 1 = (length p - ChunkSize + ChunkSize - 1) + ChunkSize" using False C by simp
      then show ?thesis using C by (simp only: div_add_self2)
    qed
    finally show ?thesis .
  qed (simp add: ChunkSize_def)
qed

text \<open>The loop of \<open>Encrypt\<close> writes the frames of the chunks of its input, whatever its streams do.\<close>

lemma encrypt_chunks_done:
  "encrypt_chunks A prefix k inp out = (Inr (), out') \<Longrightarrow>
     \<not> rd_fault inp \<and> wr_bytes out' = wr_bytes out @ frames A prefix k (chunks_of (rd_bytes inp)) \<and> k + length (rd_bytes inp) div ChunkSize \<le> maxSequence"
proof (induction A prefix k inp out rule: encrypt_chunks.induct)
  case (1 A prefix k inp out)
  let ?p = "rd_bytes inp" and ?c = "take ChunkSize (rd_bytes inp)"
  let ?sealed = "sealed_chunk A prefix k ?c"
  have k: "k \<le> maxSequence" using 1(2) by (auto simp: encrypt_chunks.simps[of A prefix k inp out] split: if_splits)
  have C: "0 < ChunkSize" by (simp add: ChunkSize_def)
  consider (eof) "?p = []" "\<not> rd_fault inp" | (short) "?p \<noteq> []" "length ?p < ChunkSize" "\<not> rd_fault inp"
    | (full) "ChunkSize \<le> length ?p" | (fault) "length ?p < ChunkSize" "rd_fault inp" by fastforce
  then show ?case
  proof cases
    case eof
    then have "out' = out" using 1(2) k C by (auto simp: encrypt_chunks.simps[of A prefix k inp out] ReadFull_def)
    with eof k show ?thesis by simp
  next
    case fault
    then show ?thesis using 1(2) k by (auto simp: encrypt_chunks.simps[of A prefix k inp out] ReadFull_def)
  next
    case short
    then have "wbind (write_uint32 ''write backup chunk length'' (of_nat (length ?sealed)) out) (\<lambda>out.
        wbind (writeAll ?sealed out) (\<lambda>out. (Inr (), out))) = (Inr (), out')"
      using 1(2) k by (simp add: encrypt_chunks.simps[of A prefix k inp out] ReadFull_def sealed_chunk_def Let_def)
    then have "wr_bytes out' = wr_bytes out @ word_bytes (of_nat (length ?sealed)) @ ?sealed"
      by (auto simp: wbind_Inr_iff dest!: writeAll_done write_uint32_done)
    moreover have "chunks_of ?p = [?c]" using short by (subst chunks_of.simps) simp
    ultimately show ?thesis using short k by simp
  next
    case full
    let ?rest = "inp\<lparr>rd_bytes := drop ChunkSize ?p\<rparr>"
    have rf: "ReadFull ChunkSize inp = (None, ?c, ?rest)" using full by (simp add: ReadFull_None)
    have "wbind (write_uint32 ''write backup chunk length'' (of_nat (length ?sealed)) out) (\<lambda>out.
        wbind (writeAll ?sealed out) (\<lambda>out. encrypt_chunks A prefix (k + 1) ?rest out)) = (Inr (), out')"
      using 1(2) k by (simp add: encrypt_chunks.simps[of A prefix k inp out] rf sealed_chunk_def Let_def)
    then obtain o1 o2 where o: "write_uint32 ''write backup chunk length'' (of_nat (length ?sealed)) out = (Inr (), o1)" "writeAll ?sealed o1 = (Inr (), o2)"
      "encrypt_chunks A prefix (k + 1) ?rest o2 = (Inr (), out')" by (auto simp: wbind_Inr_iff)
    have "wr_bytes o2 = wr_bytes out @ word_bytes (of_nat (length ?sealed)) @ ?sealed"
      using o by (auto dest!: writeAll_done write_uint32_done)
    moreover have "\<not> rd_fault ?rest \<and> wr_bytes out' = wr_bytes o2 @ frames A prefix (k + 1) (chunks_of (drop ChunkSize ?p)) \<and>
        k + 1 + length (drop ChunkSize ?p) div ChunkSize \<le> maxSequence"
      using 1(1)[OF _ rf[symmetric] refl _ _ refl _ o(3)] k by simp
    moreover have "chunks_of ?p = ?c # chunks_of (drop ChunkSize ?p)" using full C by (subst chunks_of.simps) auto
    moreover have "length ?p div ChunkSize = Suc (length (drop ChunkSize ?p) div ChunkSize)" using full C by (simp add: le_div_geq)
    ultimately show ?thesis by simp
  qed
qed

lemma encrypt_chunks_sink:
  "k + length p div ChunkSize \<le> maxSequence \<Longrightarrow>
     encrypt_chunks A prefix k (source p) (sink s) = (Inr (), sink (s @ frames A prefix k (chunks_of p)))"
proof (induction p arbitrary: k s rule: chunks_of.induct)
  case (1 p)
  have C: "0 < ChunkSize" by (simp add: ChunkSize_def)
  have k: "\<not> k > maxSequence" using 1(2) by simp
  consider (eof) "p = []" | (short) "p \<noteq> []" "length p < ChunkSize" | (full) "p \<noteq> []" "ChunkSize \<le> length p" by fastforce
  then show ?case
  proof cases
    case eof
    then show ?thesis using k C by (simp add: encrypt_chunks.simps[of A prefix k] ReadFull_def)
  next
    case short
    then have "chunks_of p = [take ChunkSize p]" by (subst chunks_of.simps) simp
    then show ?thesis using short k by (simp add: encrypt_chunks.simps[of A prefix k] ReadFull_def sealed_chunk_def Let_def)
  next
    case full
    have "length p div ChunkSize = Suc (length (drop ChunkSize p) div ChunkSize)" using full C by (simp add: le_div_geq)
    then have "k + 1 + length (drop ChunkSize p) div ChunkSize \<le> maxSequence" using 1(2) by simp
    note IH = 1(1)[OF full(1) this]
    have rf: "ReadFull ChunkSize (source p) = (None, take ChunkSize p, source (drop ChunkSize p))" using full by (simp add: ReadFull_None)
    have "chunks_of p = take ChunkSize p # chunks_of (drop ChunkSize p)" using full by (subst chunks_of.simps) simp
    then show ?thesis using k IH by (simp add: encrypt_chunks.simps[of A prefix k] rf sealed_chunk_def Let_def)
  qed
qed

section \<open>The interface of the cipher\<close>

text \<open>
  What the container needs of \<open>cipher.AEAD\<close>: opening inverts sealing, a chunk opens only if it was
  sealed with the same nonce and associated data, and sealing adds the overhead.
\<close>

locale aead_scheme =
  fixes A :: aead
  assumes open_seal: "ad_open A n (ad_seal A n p a) a = Some p"
    and open_sealed: "ad_open A n c a = Some p \<Longrightarrow> c = ad_seal A n p a"
    and seal_length: "length (ad_seal A n p a) = length p + ad_overhead A"
    and overhead: "0 < ad_overhead A" "ad_overhead A < 2 ^ 16"
begin

lemma sealed_length: "length (sealed_chunk A prefix k c) = length c + ad_overhead A"
  by (simp add: sealed_chunk_def seal_length)

lemma sealed_inject: "sealed_chunk A prefix k c = sealed_chunk A prefix k c' \<Longrightarrow> c = c'"
  unfolding sealed_chunk_def by (metis open_seal option.inject)

lemma small: "n \<le> ChunkSize + ad_overhead A \<Longrightarrow> unat (of_nat n :: u32) = n"
  using overhead(2) by (simp add: unat_of_nat ChunkSize_def)

lemma size_word:
  assumes "length c \<le> ChunkSize"
  shows "unat (of_nat (length (sealed_chunk A prefix k c)) :: u32) = length c + ad_overhead A"
    "(of_nat (length (sealed_chunk A prefix k c)) :: u32) \<noteq> 0"
    "\<not> (of_nat (length (sealed_chunk A prefix k c)) :: u32) < of_nat (ad_overhead A)"
    "\<not> (of_nat (length (sealed_chunk A prefix k c)) :: u32) > of_nat (ChunkSize + ad_overhead A)"
proof -
  show size: "unat (of_nat (length (sealed_chunk A prefix k c)) :: u32) = length c + ad_overhead A"
    using assms by (simp only: sealed_length small)
  then show "(of_nat (length (sealed_chunk A prefix k c)) :: u32) \<noteq> 0" using overhead(1) by (metis add_is_0 less_irrefl unat_0)
  show "\<not> (of_nat (length (sealed_chunk A prefix k c)) :: u32) < of_nat (ad_overhead A)"
    "\<not> (of_nat (length (sealed_chunk A prefix k c)) :: u32) > of_nat (ChunkSize + ad_overhead A)"
    using assms by (simp_all only: word_less_nat_alt size small le_add1 le_add2)
qed

lemma decrypt_frame:
  assumes "k \<le> maxSequence" and "length c \<le> ChunkSize"
  shows "decrypt_chunks A prefix k
      \<lparr>rd_bytes = word_bytes (of_nat (length (sealed_chunk A prefix k c))) @ sealed_chunk A prefix k c @ rest, rd_fault = f\<rparr> out =
    wbind (writeAll c out) (\<lambda>out. decrypt_chunks A prefix (k + 1) \<lparr>rd_bytes = rest, rd_fault = f\<rparr> out)"
  using assms(1) size_word[OF assms(2), of prefix k]
  by (simp add: decrypt_chunks.simps[of A prefix k] Let_def sealed_length) (simp add: sealed_chunk_def open_seal)

lemma decrypt_end: "k \<le> maxSequence \<Longrightarrow> decrypt_chunks A prefix k (source (word_bytes 0)) out = (Inr (), out)"
  using ReadFull_append[of "word_bytes 0" 4 "[]" False] by (simp add: decrypt_chunks.simps[of A prefix k])

lemma decrypt_frames:
  assumes "\<forall>c\<in>set cs. length c \<le> ChunkSize" and "k + length cs \<le> Suc maxSequence"
  shows "decrypt_chunks A prefix k (source (frames A prefix k cs @ word_bytes 0)) (sink s) =
    (if k + length cs \<le> maxSequence then Inr () else Inl ''backup exceeds chunk sequence capacity'', sink (s @ concat cs))"
  using assms
proof (induction cs arbitrary: k s)
  case Nil
  show ?case
  proof (cases "k \<le> maxSequence")
    case False
    then show ?thesis by (simp add: decrypt_chunks.simps[of A prefix k])
  qed (simp add: decrypt_end)
next
  case (Cons c cs)
  then have "k \<le> maxSequence" "length c \<le> ChunkSize" by auto
  from decrypt_frame[OF this] Cons show ?case by simp
qed

text \<open>What a successful decryption says of its input.\<close>

lemma decrypt_chunks_InrE:
  assumes "decrypt_chunks A prefix k inp out = (Inr (), out')"
  obtains (finish) "k \<le> maxSequence" "rd_bytes inp = word_bytes 0" "\<not> rd_fault inp" "out' = out"
  | (chunk) c rest o1 where "k \<le> maxSequence" "length c \<le> ChunkSize"
      "rd_bytes inp = word_bytes (of_nat (length (sealed_chunk A prefix k c))) @ sealed_chunk A prefix k c @ rest"
      "writeAll c out = (Inr (), o1)" "decrypt_chunks A prefix (k + 1) (inp\<lparr>rd_bytes := rest\<rparr>) o1 = (Inr (), out')"
proof -
  let ?b = "rd_bytes inp"
  let ?size = "be_uint32 (take 4 ?b)" and ?r = "drop 4 ?b"
  have k: "k \<le> maxSequence" and four: "4 \<le> length ?b"
    using assms by (auto simp: decrypt_chunks.simps[of A prefix k] ReadFull_def Let_def split: if_splits)
  have len: "word_bytes ?size = take 4 ?b" using four by (simp add: word_bytes_of_uint32)
  have rf: "ReadFull 4 inp = (None, take 4 ?b, inp\<lparr>rd_bytes := ?r\<rparr>)" using four by (simp add: ReadFull_None)
  show thesis
  proof (cases "?size = 0")
    case True
    then have "?r = []" "\<not> rd_fault inp" "out' = out"
      using assms k by (auto simp: decrypt_chunks.simps[of A prefix k] rf Let_def split: if_splits)
    moreover have "?b = word_bytes 0 @ ?r" using len True append_take_drop_id[of 4 ?b] by simp
    ultimately show ?thesis using k finish by simp
  next
    case False
    let ?s = "take (unat ?size) ?r" and ?rest = "drop (unat ?size) ?r"
    from False assms k obtain c where
      size: "\<not> ?size < of_nat (ad_overhead A)" "\<not> ?size > of_nat (ChunkSize + ad_overhead A)" "unat ?size \<le> length ?r"
      and opened: "ad_open A (nonceFor prefix (of_nat k)) ?s (associatedData (of_nat k)) = Some c"
      and tail: "wbind (writeAll c out) (\<lambda>out. decrypt_chunks A prefix (k + 1) (inp\<lparr>rd_bytes := ?rest\<rparr>) out) = (Inr (), out')"
      by (auto simp: decrypt_chunks.simps[of A prefix k] rf ReadFull_def Let_def split: if_splits option.splits)
    have s: "?s = sealed_chunk A prefix k c" using open_sealed[OF opened] by (simp add: sealed_chunk_def)
    then have n: "unat ?size = length (sealed_chunk A prefix k c)" using size(3) by (metis length_take min.absorb2)
    have "length c \<le> ChunkSize" using size(2) n by (simp add: word_less_nat_alt sealed_length small[OF order_refl, simplified])
    moreover have "?size = of_nat (unat ?size)" by simp
    then have "?size = of_nat (length (sealed_chunk A prefix k c))" unfolding n .
    then have "?b = word_bytes (of_nat (length (sealed_chunk A prefix k c))) @ sealed_chunk A prefix k c @ ?rest"
      using len s by (metis append_take_drop_id)
    moreover from tail obtain o1 where "writeAll c out = (Inr (), o1)" "decrypt_chunks A prefix (k + 1) (inp\<lparr>rd_bytes := ?rest\<rparr>) o1 = (Inr (), out')"
      by (auto simp: wbind_Inr_iff)
    ultimately show ?thesis using k chunk by blast
  qed
qed

lemma decrypt_chunks_done:
  assumes "decrypt_chunks A prefix k inp out = (Inr (), out')"
  shows "\<exists>cs. rd_bytes inp = frames A prefix k cs @ word_bytes 0 \<and> \<not> rd_fault inp \<and> (\<forall>c\<in>set cs. length c \<le> ChunkSize) \<and>
    wr_bytes out' = wr_bytes out @ concat cs \<and> k + length cs \<le> maxSequence"
  using assms
proof (induction "length (rd_bytes inp)" arbitrary: k inp out rule: less_induct)
  case less
  from less(2) show ?case
  proof (cases rule: decrypt_chunks_InrE)
    case finish
    then have "rd_bytes inp = frames A prefix k [] @ word_bytes 0 \<and> \<not> rd_fault inp \<and> (\<forall>c\<in>set []. length c \<le> ChunkSize) \<and>
      wr_bytes out' = wr_bytes out @ concat [] \<and> k + length [] \<le> maxSequence" by simp
    then show ?thesis by blast
  next
    case (chunk c rest o1)
    have "length (rd_bytes (inp\<lparr>rd_bytes := rest\<rparr>)) < length (rd_bytes inp)" using chunk(3) by simp
    from less(1)[OF this chunk(5)] obtain cs where
      "rest = frames A prefix (k + 1) cs @ word_bytes 0" "\<not> rd_fault inp" "\<forall>c\<in>set cs. length c \<le> ChunkSize"
      "wr_bytes out' = wr_bytes o1 @ concat cs" "k + 1 + length cs \<le> maxSequence" by auto
    with chunk have "rd_bytes inp = frames A prefix k (c # cs) @ word_bytes 0 \<and> \<not> rd_fault inp \<and> (\<forall>c\<in>set (c # cs). length c \<le> ChunkSize) \<and>
      wr_bytes out' = wr_bytes out @ concat (c # cs) \<and> k + length (c # cs) \<le> maxSequence"
      by (auto dest!: writeAll_done)
    then show ?thesis by blast
  qed
qed

text \<open>No container is a proper prefix of another.\<close>

lemma frames_prefix_free:
  assumes "frames A prefix k cs @ word_bytes 0 @ x = frames A prefix k cs' @ word_bytes 0"
    and "\<forall>c\<in>set cs. length c \<le> ChunkSize" and "\<forall>c\<in>set cs'. length c \<le> ChunkSize"
  shows "cs = cs' \<and> x = []"
  using assms
proof (induction cs arbitrary: cs' k)
  case Nil
  then show ?case
  proof (cases cs')
    case (Cons c' ds)
    then have "word_bytes 0 = word_bytes (of_nat (length (sealed_chunk A prefix k c')))" using Nil(1) by (simp add: append_eq_append_conv)
    then have "of_nat (length (sealed_chunk A prefix k c')) = (0 :: u32)" by (metis uint32_of_word_bytes)
    then show ?thesis using size_word(2)[of c' prefix k] Nil(3) Cons by simp
  qed simp
next
  case (Cons c cs)
  let ?w = "\<lambda>c. word_bytes (of_nat (length (sealed_chunk A prefix k c)))"
  show ?case
  proof (cases cs')
    case Nil
    then have "?w c = word_bytes 0" using Cons(2) append_eq_append_conv[of "?w c" "word_bytes 0" _ "[]"] by simp
    then have "of_nat (length (sealed_chunk A prefix k c)) = (0 :: u32)" by (metis uint32_of_word_bytes)
    then show ?thesis using size_word(2)[of c prefix k] Cons(3) by simp
  next
    case (Cons c' ds)
    note cs' = this
    have eq: "?w c @ sealed_chunk A prefix k c @ frames A prefix (k + 1) cs @ word_bytes 0 @ x =
        ?w c' @ sealed_chunk A prefix k c' @ frames A prefix (k + 1) ds @ word_bytes 0" using Cons.prems(1) cs' by simp
    then have "?w c = ?w c'" and rest: "sealed_chunk A prefix k c @ frames A prefix (k + 1) cs @ word_bytes 0 @ x =
        sealed_chunk A prefix k c' @ frames A prefix (k + 1) ds @ word_bytes 0" by (simp_all add: append_eq_append_conv)
    then have "(of_nat (length (sealed_chunk A prefix k c)) :: u32) = of_nat (length (sealed_chunk A prefix k c'))" by (metis uint32_of_word_bytes)
    then have len: "length (sealed_chunk A prefix k c) = length (sealed_chunk A prefix k c')"
      using size_word(1)[of c prefix k] size_word(1)[of c' prefix k] Cons.prems(2,3) cs' by (simp add: sealed_length)
    with rest have "sealed_chunk A prefix k c = sealed_chunk A prefix k c'"
      and tail: "frames A prefix (k + 1) cs @ word_bytes 0 @ x = frames A prefix (k + 1) ds @ word_bytes 0" by (simp_all add: append_eq_append_conv)
    then show ?thesis using Cons.IH[OF tail] Cons.prems(2,3) cs' sealed_inject by auto
  qed
qed

end

interpretation aes: aead_scheme "gcm key" for key
  by unfold_locales (simp_all add: gcm_def gcm_open_sealed)

section \<open>Encrypt and Decrypt\<close>

lemma newAEAD_gcm [simp]: "length key = KeySize \<Longrightarrow> newAEAD key = Inr (gcm key)"
  by (simp add: newAEAD_def)

lemma gcm_sizes [simp]: "ad_nonce_size (gcm key) = 12" "ad_overhead (gcm key) = 16"
  by (simp_all add: gcm_def)

lemma Encrypt_sink:
  assumes "length key = KeySize" and "8 \<le> length (rd_bytes random)" and "length p div ChunkSize \<le> maxSequence"
  shows "Encrypt (source p) (sink s) key random = (Inr (), sink (s @ container (gcm key) (take 8 (rd_bytes random)) (chunks_of p)))"
proof -
  have "ReadFull 8 random = (None, take 8 (rd_bytes random), random\<lparr>rd_bytes := drop 8 (rd_bytes random)\<rparr>)"
    using assms(2) by (simp add: ReadFull_None)
  then show ?thesis using assms(1,3) by (simp add: Encrypt_def container_def encrypt_chunks_sink)
qed

lemma Decrypt_container:
  assumes "length key = KeySize" and "length prefix = 8"
  shows "Decrypt (source (container (gcm key) prefix cs)) out key =
    decrypt_chunks (gcm key) prefix 0 (source (frames (gcm key) prefix 0 cs @ word_bytes 0)) out"
  using assms by (simp add: Decrypt_def container_def)

lemma Decrypt_InrE:
  assumes "Decrypt inp out key = (Inr (), out')"
  obtains prefix cs where "length key = KeySize" "length prefix = 8" "rd_bytes inp = container (gcm key) prefix cs" "\<not> rd_fault inp"
    "\<forall>c\<in>set cs. length c \<le> ChunkSize" "length cs \<le> maxSequence" "wr_bytes out' = wr_bytes out @ concat cs"
proof -
  let ?b = "rd_bytes inp" and ?m = "length magic"
  let ?prefix = "take 8 (drop ?m ?b)" and ?rest = "drop 8 (drop ?m ?b)"
  have key: "length key = KeySize" using assms by (auto simp: Decrypt_def newAEAD_def guard_def split: if_splits)
  then have head: "?m + 8 \<le> length ?b" "take ?m ?b = magic"
    and run: "decrypt_chunks (gcm key) ?prefix 0 (inp\<lparr>rd_bytes := ?rest\<rparr>) out = (Inr (), out')"
    using assms by (auto simp: Decrypt_def ReadFull_def Let_def split: if_splits)
  from aes.decrypt_chunks_done[OF run] obtain cs where
    cs: "?rest = frames (gcm key) ?prefix 0 cs @ word_bytes 0" "\<not> rd_fault inp" "\<forall>c\<in>set cs. length c \<le> ChunkSize"
      "wr_bytes out' = wr_bytes out @ concat cs" "length cs \<le> maxSequence" by auto
  have "?b = magic @ ?prefix @ ?rest" using head(2) by (metis append_take_drop_id)
  then have "?b = container (gcm key) ?prefix cs" unfolding container_def cs(1) .
  then show thesis using key head cs by (intro that) auto
qed

lemma Encrypt_InrE:
  assumes "Encrypt inp out key random = (Inr (), out')"
  obtains prefix where "length key = KeySize" "length prefix = 8" "\<not> rd_fault inp"
    "wr_bytes out' = wr_bytes out @ container (gcm key) prefix (chunks_of (rd_bytes inp))" "length (rd_bytes inp) div ChunkSize \<le> maxSequence"
proof -
  have key: "length key = KeySize" using assms by (auto simp: Encrypt_def newAEAD_def guard_def split: if_splits)
  let ?prefix = "take 8 (rd_bytes random)"
  from key assms obtain o1 o2 o3 where n: "8 \<le> length (rd_bytes random)"
    and o: "writeAll magic out = (Inr (), o1)" "writeAll ?prefix o1 = (Inr (), o2)"
      "encrypt_chunks (gcm key) ?prefix 0 inp o2 = (Inr (), o3)" "write_uint32 ''write backup terminator'' 0 o3 = (Inr (), out')"
    by (auto simp: Encrypt_def ReadFull_def Let_def wbind_Inr_iff split: if_splits)
  have "wr_bytes out' = wr_bytes out @ container (gcm key) ?prefix (chunks_of (rd_bytes inp))"
    using o by (auto simp: container_def dest!: writeAll_done write_uint32_done encrypt_chunks_done)
  with key n encrypt_chunks_done[OF o(3)] show thesis by (intro that) auto
qed

text \<open>
  Claim C26. A backup can be restored: for a snapshot of at most \<open>2^32 - 1\<close> full chunks and enough
  randomness, \<open>Encrypt\<close> succeeds, and \<open>Decrypt\<close> with the key read back from the key file returns the
  snapshot bytes unchanged.
\<close>

theorem backup_roundtrip:
  assumes "WriteKey key = Inr doc" and "8 \<le> length (rd_bytes random)" and "length p \<le> maxSequence * ChunkSize"
  shows "\<exists>c. Encrypt (source p) (sink []) key random = (Inr (), sink c) \<and>
    (\<exists>key'. ReadKey (Some doc) False = Inr key' \<and> Decrypt (source c) (sink []) key' = (Inr (), sink p))"
proof -
  let ?prefix = "take 8 (rd_bytes random)"
  have key: "length key = KeySize" using assms(1) by (simp add: WriteKey_def result_simps)
  have C: "0 < ChunkSize" by (simp add: ChunkSize_def)
  have "length p div ChunkSize \<le> maxSequence" using div_le_mono[OF assms(3), of ChunkSize] C by simp
  with key assms(2) have enc: "Encrypt (source p) (sink []) key random = (Inr (), sink (container (gcm key) ?prefix (chunks_of p)))"
    by (simp add: Encrypt_sink)
  have "length p + ChunkSize - 1 < Suc maxSequence * ChunkSize" using assms(3) C unfolding mult_Suc by linarith
  then have "length (chunks_of p) < Suc maxSequence" unfolding length_chunks_of by (rule less_mult_imp_div_less)
  then have "length (chunks_of p) \<le> maxSequence" by simp
  then have "Decrypt (source (container (gcm key) ?prefix (chunks_of p))) (sink []) key = (Inr (), sink p)"
    using aes.decrypt_frames[of "chunks_of p" 0 key ?prefix "[]"] chunks_of_bounded[of _ p] key assms(2) by (simp add: Decrypt_container)
  with enc ReadKey_WriteKey[OF assms(1)] show ?thesis by blast
qed

text \<open>
  Claim C27. A backup is tamper evident: \<open>Decrypt\<close> accepts a file only if it is a complete container
  of chunks sealed with the given key in their order, and then it has written exactly the
  plaintext of those chunks. Neither a truncation nor an extension of an accepted file is accepted.
\<close>

theorem backup_tamper_evident:
  assumes "Decrypt inp out key = (Inr (), out')"
  shows "(\<exists>prefix cs. rd_bytes inp = container (gcm key) prefix cs \<and> wr_bytes out' = wr_bytes out @ concat cs \<and> \<not> rd_fault inp) \<and>
    (\<forall>inp2 w w2 x. (rd_bytes inp2 @ x = rd_bytes inp \<or> rd_bytes inp2 = rd_bytes inp @ x) \<and> x \<noteq> [] \<longrightarrow>
       Decrypt inp2 w key \<noteq> (Inr (), w2))"
proof -
  have unique: "x = []" if a: "Decrypt i1 w1 key = (Inr (), w1')" and b: "Decrypt i2 w2 key = (Inr (), w2')" and x: "rd_bytes i1 @ x = rd_bytes i2"
    for i1 i2 w1 w2 w1' w2' x
  proof -
    from a obtain p1 cs1 where 1: "length p1 = 8" "rd_bytes i1 = container (gcm key) p1 cs1" "\<forall>c\<in>set cs1. length c \<le> ChunkSize" by (rule Decrypt_InrE)
    from b obtain p2 cs2 where 2: "length p2 = 8" "rd_bytes i2 = container (gcm key) p2 cs2" "\<forall>c\<in>set cs2. length c \<le> ChunkSize" by (rule Decrypt_InrE)
    have eq: "p1 @ frames (gcm key) p1 0 cs1 @ word_bytes 0 @ x = p2 @ frames (gcm key) p2 0 cs2 @ word_bytes 0"
      using x 1(2) 2(2) by (simp add: container_def)
    then have "p1 = p2" using 1(1) 2(1) by (metis append_eq_append_conv)
    with eq show ?thesis using aes.frames_prefix_free[of key p1 0 cs1 x cs2] 1(3) 2(3) by simp
  qed
  from assms obtain prefix cs where "rd_bytes inp = container (gcm key) prefix cs" "wr_bytes out' = wr_bytes out @ concat cs" "\<not> rd_fault inp"
    by (rule Decrypt_InrE)
  moreover have "Decrypt inp2 w key \<noteq> (Inr (), w2)" if "rd_bytes inp2 @ x = rd_bytes inp \<or> rd_bytes inp2 = rd_bytes inp @ x" "x \<noteq> []" for inp2 w w2 x
    using that unique[OF _ assms, of inp2 w w2 x] unique[OF assms, of inp2 w w2 x] by auto
  ultimately show ?thesis by blast
qed

text \<open>
  \<open>Encrypt\<close> never reports success for an incomplete backup: on any reader and any writer,
  also ones that fail at any byte, success means that the whole input was read to its end and the
  complete container of its chunks was written.
\<close>

theorem encrypt_success_complete:
  assumes "Encrypt inp out key random = (Inr (), out')"
  shows "\<not> rd_fault inp \<and>
    (\<exists>prefix. length prefix = 8 \<and> wr_bytes out' = wr_bytes out @ container (gcm key) prefix (chunks_of (rd_bytes inp)) \<and>
      concat (chunks_of (rd_bytes inp)) = rd_bytes inp)"
  using assms by (rule Encrypt_InrE) auto

text \<open>
  Claim C28. The capacity checks of the two loops disagree by one chunk: \<open>Decrypt\<close> checks the sequence
  number before it reads the terminator, so a snapshot whose last, partial chunk has the greatest
  sequence number is encrypted successfully but can never be decrypted.
\<close>

theorem backup_capacity_mismatch:
  assumes "length key = KeySize" and "8 \<le> length (rd_bytes random)"
    and "maxSequence * ChunkSize < length p" and "length p < (maxSequence + 1) * ChunkSize"
  shows "\<exists>c w. Encrypt (source p) (sink []) key random = (Inr (), sink c) \<and>
    Decrypt (source c) (sink []) key = (Inl ''backup exceeds chunk sequence capacity'', w)"
proof -
  let ?prefix = "take 8 (rd_bytes random)"
  have C: "0 < ChunkSize" by (simp add: ChunkSize_def)
  have "length p div ChunkSize = maxSequence" using assms(3,4) C by (intro div_nat_eqI) (simp_all add: mult.commute)
  then have enc: "Encrypt (source p) (sink []) key random = (Inr (), sink (container (gcm key) ?prefix (chunks_of p)))"
    using assms(1,2) by (simp add: Encrypt_sink)
  have "length (chunks_of p) = Suc maxSequence"
    unfolding length_chunks_of using assms(3,4) C by (intro div_nat_eqI) (simp_all add: mult.commute algebra_simps)
  then have "\<exists>w. Decrypt (source (container (gcm key) ?prefix (chunks_of p))) (sink []) key =
      (Inl ''backup exceeds chunk sequence capacity'', w)"
    using aes.decrypt_frames[of "chunks_of p" 0 key ?prefix "[]"] chunks_of_bounded[of _ p] assms(1,2) by (simp add: Decrypt_container)
  with enc show ?thesis by blast
qed

section \<open>Witnesses\<close>

definition demo_key :: string where
  "demo_key = replicate 32 CHR ''k''"

definition demo_random :: reader where
  "demo_random = source (replicate 8 CHR ''r'')"

lemma demo_key_size: "length demo_key = KeySize" "8 \<le> length (rd_bytes demo_random)"
  by (simp_all add: demo_key_def KeySize_def demo_random_def)

theorem backup_roundtrip_witness:
  "\<exists>c. Encrypt (source ''hello'') (sink []) demo_key demo_random = (Inr (), sink c) \<and>
    Decrypt (source c) (sink []) demo_key = (Inr (), sink ''hello'')"
proof -
  obtain doc where doc: "WriteKey demo_key = Inr doc" by (simp add: WriteKey_def demo_key_size)
  from backup_roundtrip[OF this demo_key_size(2), of "''hello''"] ReadKey_WriteKey[OF doc] show ?thesis
    by (auto simp: maxSequence_def ChunkSize_def)
qed

lemma demo_container: "\<exists>c. Encrypt (source ''hello'') (sink []) demo_key demo_random = (Inr (), sink c)"
  using Encrypt_sink[OF demo_key_size, of "''hello''" "[]"] by (simp add: ChunkSize_def)

theorem encrypt_success_complete_witness:
  "\<exists>c prefix. Encrypt (source ''hello'') (sink []) demo_key demo_random = (Inr (), sink c) \<and>
    c = container (gcm demo_key) prefix (chunks_of ''hello'')"
proof -
  obtain c where "Encrypt (source ''hello'') (sink []) demo_key demo_random = (Inr (), sink c)" using demo_container by blast
  with encrypt_success_complete[OF this] show ?thesis by auto
qed

theorem backup_tamper_evident_witness:
  "\<exists>c. Decrypt (source c) (sink []) demo_key = (Inr (), sink []) \<and>
    Decrypt (source (c @ ''x'')) (sink []) demo_key \<noteq> (Inr (), sink [])"
proof -
  let ?c = "container (gcm demo_key) (replicate 8 CHR ''r'') []"
  have d: "Decrypt (source ?c) (sink []) demo_key = (Inr (), sink [])"
    using aes.decrypt_frames[of "[]" 0 demo_key "replicate 8 CHR ''r''" "[]"] by (simp add: Decrypt_container demo_key_size)
  from backup_tamper_evident[OF this] have "Decrypt (source (?c @ ''x'')) (sink []) demo_key \<noteq> (Inr (), sink [])" by auto
  with d show ?thesis by blast
qed

theorem backup_capacity_mismatch_witness:
  "\<exists>p c w. Encrypt (source p) (sink []) demo_key demo_random = (Inr (), sink c) \<and>
    Decrypt (source c) (sink []) demo_key = (Inl ''backup exceeds chunk sequence capacity'', w)"
proof -
  have "maxSequence * ChunkSize < Suc (maxSequence * ChunkSize) \<and> Suc (maxSequence * ChunkSize) < (maxSequence + 1) * ChunkSize"
    by (simp add: ChunkSize_def)
  then have "maxSequence * ChunkSize < length (replicate (Suc (maxSequence * ChunkSize)) CHR ''a'')"
    "length (replicate (Suc (maxSequence * ChunkSize)) CHR ''a'') < (maxSequence + 1) * ChunkSize" unfolding length_replicate by blast+
  from backup_capacity_mismatch[OF demo_key_size this] show ?thesis by blast
qed

end
