(* ===== verification/Disk.thy ===== *)
theory Disk
  imports Topology
begin

text \<open>
  The data directory of the appliance and the input and output that \<open>store.go\<close>, \<open>restore.go\<close> and
  \<open>management_credential.go\<close> perform on it. Every call of the operating system or of SQLite is one
  step that an oracle may make fail: a file system call that fails has no effect, an SQL statement
  that fails may have become durable or not. The world keeps the directory after every step, so a
  crash at any point is one of these states. A small Hoare logic with an invariant over all states
  carries the crash-safety proofs.
\<close>

section \<open>Files\<close>

text \<open>
  A database file with its write-ahead log: the \<open>metadata\<close> table, the versions in the
  \<open>schema_migrations\<close> ledger, and all other tables. A credential file holds bytes. A path that is not
  a regular file (a directory, a symbolic link) is \<open>NotRegular\<close>.
\<close>

record snapshot =
  sn_metadata :: "(string \<times> string) list"
  sn_migrations :: "nat list"
  sn_data :: db

datatype disk_file = DatabaseFile snapshot | TokenFile string | NotRegular

type_synonym dir = "string \<Rightarrow> disk_file option"

definition DatabaseFilename :: string where "DatabaseFilename = ''memory.db''"
definition RollbackDatabaseFilename :: string where "RollbackDatabaseFilename = ''memory.db.rollback''"
definition ManagementCredentialFile :: string where "ManagementCredentialFile = ''management.token''"
definition StewardWorkerCredentialFile :: string where "StewardWorkerCredentialFile = ''steward-worker.token''"

lemma filenames_distinct [simp]:
  "DatabaseFilename \<noteq> RollbackDatabaseFilename" "DatabaseFilename \<noteq> ManagementCredentialFile"
  "RollbackDatabaseFilename \<noteq> ManagementCredentialFile" "RollbackDatabaseFilename \<noteq> DatabaseFilename"
  "ManagementCredentialFile \<noteq> DatabaseFilename" "ManagementCredentialFile \<noteq> RollbackDatabaseFilename"
  by (simp_all add: DatabaseFilename_def RollbackDatabaseFilename_def ManagementCredentialFile_def)

definition metadata_of :: "string \<Rightarrow> snapshot \<Rightarrow> string option" where
  "metadata_of key s = map_of (sn_metadata s) key"

text \<open>\<open>INSERT \<dots> ON CONFLICT DO UPDATE\<close>, \<open>UPDATE\<close> and \<open>DELETE\<close> of one metadata row.\<close>

definition put_metadata :: "string \<Rightarrow> string \<Rightarrow> snapshot \<Rightarrow> snapshot" where
  "put_metadata key v s = s\<lparr>sn_metadata := (key, v) # filter (\<lambda>p. fst p \<noteq> key) (sn_metadata s)\<rparr>"

definition set_metadata :: "string \<Rightarrow> string \<Rightarrow> snapshot \<Rightarrow> snapshot" where
  "set_metadata key v s = s\<lparr>sn_metadata := map (\<lambda>(k, x). (k, if k = key then v else x)) (sn_metadata s)\<rparr>"

definition delete_metadata :: "string \<Rightarrow> snapshot \<Rightarrow> snapshot" where
  "delete_metadata key s = s\<lparr>sn_metadata := filter (\<lambda>p. fst p \<noteq> key) (sn_metadata s)\<rparr>"

lemma map_of_filter_key: "map_of (filter (\<lambda>p. fst p \<noteq> k) xs) k' = (if k' = k then None else map_of xs k')"
  by (induction xs) auto

lemma map_of_set_key: "map_of (map (\<lambda>(k, x). (k, if k = key then v else x)) xs) k' =
    (if k' = key then map_option (\<lambda>_. v) (map_of xs k') else map_of xs k')"
  by (induction xs) auto

lemma metadata_simps [simp]:
  "metadata_of k (put_metadata k v s) = Some v" "k' \<noteq> k \<Longrightarrow> metadata_of k' (put_metadata k v s) = metadata_of k' s"
  "metadata_of k (set_metadata k v s) = map_option (\<lambda>_. v) (metadata_of k s)" "k' \<noteq> k \<Longrightarrow> metadata_of k' (set_metadata k v s) = metadata_of k' s"
  "metadata_of k (delete_metadata k s) = None" "k' \<noteq> k \<Longrightarrow> metadata_of k' (delete_metadata k s) = metadata_of k' s"
  by (simp_all add: metadata_of_def put_metadata_def set_metadata_def delete_metadata_def map_of_filter_key map_of_set_key)

lemma metadata_data [simp]:
  "sn_migrations (put_metadata k v s) = sn_migrations s" "sn_migrations (set_metadata k v s) = sn_migrations s"
  "sn_migrations (delete_metadata k s) = sn_migrations s"
  "sn_data (put_metadata k v s) = sn_data s" "sn_data (set_metadata k v s) = sn_data s" "sn_data (delete_metadata k s) = sn_data s"
  by (simp_all add: put_metadata_def set_metadata_def delete_metadata_def)

section \<open>The world\<close>

datatype fault = NoFault | FaultLost | FaultApplied

text \<open>
  The running process and its disk: the directory, the number of calls made so far, the directories
  after each of them (the latest first), and the fields of \<open>Store\<close> that the operations of this
  layer set: \<open>managementSum\<close> and \<open>stewardWorkerSum\<close> (in hexadecimal) and \<open>restorePending\<close>.
\<close>

record world =
  wd_dir :: dir
  wd_step :: nat
  wd_trace :: "dir list"
  wd_sum :: string
  wd_worker :: string
  wd_pending :: bool

type_synonym 'a act = "world \<Rightarrow> (string + 'a) \<times> world"

definition visit :: "dir \<Rightarrow> world \<Rightarrow> world" where
  "visit t w = w\<lparr>wd_dir := t, wd_step := wd_step w + 1, wd_trace := t # wd_trace w\<rparr>"

definition file_op :: "(nat \<Rightarrow> fault) \<Rightarrow> string \<Rightarrow> (dir \<Rightarrow> dir) \<Rightarrow> unit act" where
  "file_op F e f w = (if F (wd_step w) = NoFault then (Inr (), visit (f (wd_dir w)) w) else (Inl e, visit (wd_dir w) w))"

definition sql_op :: "(nat \<Rightarrow> fault) \<Rightarrow> string \<Rightarrow> (dir \<Rightarrow> dir) \<Rightarrow> unit act" where
  "sql_op F e f w =
    (case F (wd_step w) of NoFault \<Rightarrow> (Inr (), visit (f (wd_dir w)) w)
     | FaultLost \<Rightarrow> (Inl e, visit (wd_dir w) w)
     | FaultApplied \<Rightarrow> (Inl e, visit (f (wd_dir w)) w))"

definition give :: "'a \<Rightarrow> 'a act" where
  "give x w = (Inr x, w)"

definition ask :: "(dir \<Rightarrow> 'a) \<Rightarrow> 'a act" where
  "ask g w = (Inr (g (wd_dir w)), w)"

definition lift :: "string + 'a \<Rightarrow> 'a act" where
  "lift r w = (r, w)"

definition set_sum :: "string \<Rightarrow> unit act" where
  "set_sum x w = (Inr (), w\<lparr>wd_sum := x\<rparr>)"

definition set_worker :: "string \<Rightarrow> unit act" where
  "set_worker x w = (Inr (), w\<lparr>wd_worker := x\<rparr>)"

definition set_pending :: "bool \<Rightarrow> unit act" where
  "set_pending x w = (Inr (), w\<lparr>wd_pending := x\<rparr>)"

text \<open>A read whose failure the caller inspects: what is there, that nothing is there, or that the call failed.\<close>

datatype 'a lookup = Missing | Failed | Found 'a

fun lookup_of :: "'a option \<Rightarrow> 'a lookup" where
  "lookup_of None = Missing"
| "lookup_of (Some x) = Found x"

definition probe :: "(nat \<Rightarrow> fault) \<Rightarrow> (dir \<Rightarrow> 'a option) \<Rightarrow> 'a lookup act" where
  "probe F g w = (Inr (if F (wd_step w) = NoFault then lookup_of (g (wd_dir w)) else Failed), visit (wd_dir w) w)"

definition andthen :: "'a act \<Rightarrow> ('a \<Rightarrow> 'b act) \<Rightarrow> 'b act" where
  "andthen m f w = (case m w of (Inl e, w') \<Rightarrow> (Inl e, w') | (Inr x, w') \<Rightarrow> f x w')"

text \<open>\<open>on_error m c\<close>: the cleanup \<open>c\<close> runs when \<open>m\<close> fails, and its own failure is ignored.\<close>

definition on_error :: "'a act \<Rightarrow> unit act \<Rightarrow> 'a act" where
  "on_error m c w = (case m w of (Inl e, w') \<Rightarrow> (Inl e, snd (c w')) | (Inr x, w') \<Rightarrow> (Inr x, w'))"

definition attempt :: "unit act \<Rightarrow> unit act" where
  "attempt m w = (Inr (), snd (m w))"

definition requireRegularOrAbsent :: "(nat \<Rightarrow> fault) \<Rightarrow> string \<Rightarrow> string \<Rightarrow> unit act" where
  "requireRegularOrAbsent F e path =
    andthen (file_op F e id) (\<lambda>_.
    andthen (ask (\<lambda>t. t path)) (\<lambda>info.
    lift (guard (info \<noteq> Some NotRegular) e)))"

definition syncDirectory :: "(nat \<Rightarrow> fault) \<Rightarrow> unit act" where
  "syncDirectory F = andthen (file_op F ''open data directory for sync'' id) (\<lambda>_. file_op F ''sync data directory'' id)"

definition token_at :: "dir \<Rightarrow> string option" where
  "token_at t = (case t ManagementCredentialFile of Some (TokenFile c) \<Rightarrow> Some c | _ \<Rightarrow> None)"

definition database_at :: "dir \<Rightarrow> snapshot option" where
  "database_at t = (case t DatabaseFilename of Some (DatabaseFile s) \<Rightarrow> Some s | _ \<Rightarrow> None)"

definition update_database :: "(snapshot \<Rightarrow> snapshot) \<Rightarrow> dir \<Rightarrow> dir" where
  "update_database f t = (case t DatabaseFilename of
     Some (DatabaseFile s) \<Rightarrow> t(DatabaseFilename := Some (DatabaseFile (f s))) | _ \<Rightarrow> t)"

lemma update_database_other [simp]: "p \<noteq> DatabaseFilename \<Longrightarrow> update_database f t p = t p"
  by (simp add: update_database_def split: option.splits disk_file.splits)

lemma update_database_self: "t DatabaseFilename = Some (DatabaseFile s) \<Longrightarrow> update_database f t DatabaseFilename = Some (DatabaseFile (f s))"
  by (simp add: update_database_def)

lemma at_upd [simp]:
  "p \<noteq> DatabaseFilename \<Longrightarrow> database_at (t(p := x)) = database_at t"
  "p \<noteq> ManagementCredentialFile \<Longrightarrow> token_at (t(p := x)) = token_at t"
  "token_at (t(ManagementCredentialFile := Some (TokenFile c))) = Some c"
  "token_at (update_database f t) = token_at t"
  "database_at (update_database f t) = map_option f (database_at t)"
  by (auto simp: database_at_def token_at_def update_database_def split: option.splits disk_file.splits)

section \<open>Crash-safety logic\<close>

text \<open>
  \<open>safe I P m Q E\<close>: started in a state with \<open>P\<close> and \<open>I\<close>, every directory that \<open>m\<close> passes through and
  the one it ends in satisfy \<open>I\<close>; when it succeeds its result and the directory satisfy \<open>Q\<close>, and when
  it fails the directory satisfies \<open>E\<close>.
\<close>

definition safe :: "(dir \<Rightarrow> bool) \<Rightarrow> (dir \<Rightarrow> bool) \<Rightarrow> 'a act \<Rightarrow> ('a \<Rightarrow> dir \<Rightarrow> bool) \<Rightarrow> (dir \<Rightarrow> bool) \<Rightarrow> bool" where
  "safe I P m Q E \<longleftrightarrow> (\<forall>w. P (wd_dir w) \<and> I (wd_dir w) \<and> list_all I (wd_trace w) \<longrightarrow>
     list_all I (wd_trace (snd (m w))) \<and> I (wd_dir (snd (m w))) \<and>
     (case fst (m w) of Inr x \<Rightarrow> Q x (wd_dir (snd (m w))) | Inl _ \<Rightarrow> E (wd_dir (snd (m w)))))"

lemma safeD:
  assumes "safe I P m Q E" and "P (wd_dir w)" and "I (wd_dir w)" and "list_all I (wd_trace w)"
  shows "list_all I (wd_trace (snd (m w)))" and "I (wd_dir (snd (m w)))"
    and "fst (m w) = Inr x \<Longrightarrow> Q x (wd_dir (snd (m w)))" and "fst (m w) = Inl e \<Longrightarrow> E (wd_dir (snd (m w)))"
  using assms unfolding safe_def by (metis, metis, (auto split: sum.splits)[2])

lemma safe_file_op:
  assumes "\<And>t. P t \<Longrightarrow> I t \<Longrightarrow> I (f t) \<and> Q () (f t)" and "\<And>t. P t \<Longrightarrow> I t \<Longrightarrow> E t"
  shows "safe I P (file_op F e f) Q E"
  using assms by (auto simp: safe_def file_op_def visit_def)

lemma safe_sql_op:
  assumes "\<And>t. P t \<Longrightarrow> I t \<Longrightarrow> I (f t) \<and> Q () (f t) \<and> E (f t)" and "\<And>t. P t \<Longrightarrow> I t \<Longrightarrow> E t"
  shows "safe I P (sql_op F e f) Q E"
  using assms by (auto simp: safe_def sql_op_def visit_def split: fault.splits)

text \<open>A step without an effect.\<close>

lemma safe_id: "(\<And>t. P t \<Longrightarrow> I t \<Longrightarrow> Q () t) \<Longrightarrow> (\<And>t. P t \<Longrightarrow> I t \<Longrightarrow> E t) \<Longrightarrow> safe I P (file_op F e id) Q E"
  by (rule safe_file_op) auto

lemma safe_give: "(\<And>t. P t \<Longrightarrow> I t \<Longrightarrow> Q x t) \<Longrightarrow> safe I P (give x) Q E"
  by (auto simp: safe_def give_def)

lemma safe_ask: "(\<And>t. P t \<Longrightarrow> I t \<Longrightarrow> Q (g t) t) \<Longrightarrow> safe I P (ask g) Q E"
  by (auto simp: safe_def ask_def)

lemma safe_lift:
  "(\<And>t x. P t \<Longrightarrow> I t \<Longrightarrow> r = Inr x \<Longrightarrow> Q x t) \<Longrightarrow> (\<And>t. P t \<Longrightarrow> I t \<Longrightarrow> E t) \<Longrightarrow> safe I P (lift r) Q E"
  by (auto simp: safe_def lift_def split: sum.splits)

lemma safe_set_sum: "(\<And>t. P t \<Longrightarrow> I t \<Longrightarrow> Q () t) \<Longrightarrow> safe I P (set_sum x) Q E"
  by (auto simp: safe_def set_sum_def)

lemma safe_set_pending: "(\<And>t. P t \<Longrightarrow> I t \<Longrightarrow> Q () t) \<Longrightarrow> safe I P (set_pending x) Q E"
  by (auto simp: safe_def set_pending_def)

lemma safe_probe:
  "(\<And>t. P t \<Longrightarrow> I t \<Longrightarrow> Q Failed t \<and> Q (lookup_of (g t)) t) \<Longrightarrow> safe I P (probe F g) Q E"
  by (auto simp: safe_def probe_def visit_def)

lemma andthen_run:
  "andthen m f w = (case fst (m w) of Inl e \<Rightarrow> (Inl e, snd (m w)) | Inr x \<Rightarrow> f x (snd (m w)))"
  by (simp add: andthen_def split: prod.splits sum.splits)

lemma on_error_run:
  "on_error m c w = (case fst (m w) of Inl e \<Rightarrow> (Inl e, snd (c (snd (m w)))) | Inr x \<Rightarrow> (Inr x, snd (m w)))"
  by (simp add: on_error_def split: prod.splits sum.splits)

lemma safe_andthen:
  assumes m: "safe I P m R E" and f: "\<And>x. safe I (R x) (f x) Q E"
  shows "safe I P (andthen m f) Q E"
  unfolding safe_def
proof (intro allI impI, elim conjE)
  fix w :: world assume w: "P (wd_dir w)" "I (wd_dir w)" "list_all I (wd_trace w)"
  note one = safeD[OF m w]
  let ?r = "andthen m f w"
  show "list_all I (wd_trace (snd ?r)) \<and> I (wd_dir (snd ?r)) \<and>
      (case fst ?r of Inr x \<Rightarrow> Q x (wd_dir (snd ?r)) | Inl _ \<Rightarrow> E (wd_dir (snd ?r)))"
  proof (cases "fst (m w)")
    case (Inl e)
    then show ?thesis using one(1,2) one(4)[OF Inl] by (simp add: andthen_run)
  next
    case (Inr x)
    have r: "?r = f x (snd (m w))" by (simp add: andthen_run Inr)
    show ?thesis using f[of x] one(1,2) one(3)[OF Inr] unfolding safe_def r by blast
  qed
qed

lemma safe_on_error:
  assumes m: "safe I P m Q E'" and c: "safe I E' c (\<lambda>_. E) E"
  shows "safe I P (on_error m c) Q E"
  unfolding safe_def
proof (intro allI impI, elim conjE)
  fix w :: world assume w: "P (wd_dir w)" "I (wd_dir w)" "list_all I (wd_trace w)"
  note one = safeD[OF m w]
  let ?r = "on_error m c w"
  show "list_all I (wd_trace (snd ?r)) \<and> I (wd_dir (snd ?r)) \<and>
      (case fst ?r of Inr x \<Rightarrow> Q x (wd_dir (snd ?r)) | Inl _ \<Rightarrow> E (wd_dir (snd ?r)))"
  proof (cases "fst (m w)")
    case (Inl e)
    then have "?r = (Inl e, snd (c (snd (m w))))" by (simp add: on_error_run)
    moreover have "E (wd_dir (snd (c (snd (m w)))))"
      using safeD(3,4)[OF c one(4)[OF Inl] one(2,1)] by (cases "fst (c (snd (m w)))") auto
    ultimately show ?thesis using safeD(1,2)[OF c one(4)[OF Inl] one(2,1)] by simp
  next
    case (Inr x)
    then have "?r = (Inr x, snd (m w))" by (simp add: on_error_run)
    then show ?thesis using one(1,2) one(3)[OF Inr] by simp
  qed
qed

lemma safe_attempt:
  assumes m: "safe I P m (\<lambda>_. R) R" and "\<And>t. R t \<Longrightarrow> I t \<Longrightarrow> Q () t"
  shows "safe I P (attempt m) Q E"
  unfolding safe_def attempt_def
proof (intro allI impI, elim conjE)
  fix w :: world assume w: "P (wd_dir w)" "I (wd_dir w)" "list_all I (wd_trace w)"
  have "R (wd_dir (snd (m w)))" using safeD(3,4)[OF m w] by (cases "fst (m w)") auto
  then show "list_all I (wd_trace (snd (Inr (), snd (m w)))) \<and> I (wd_dir (snd (Inr (), snd (m w)))) \<and>
      (case fst (Inr (), snd (m w)) of Inr x \<Rightarrow> Q x (wd_dir (snd (Inr (), snd (m w)))) | Inl _ \<Rightarrow> E (wd_dir (snd (Inr (), snd (m w)))))"
    using safeD(1,2)[OF m w] assms(2) by simp
qed

lemma safe_conseq:
  assumes "safe I P' m Q' E'" and "\<And>t. P t \<Longrightarrow> I t \<Longrightarrow> P' t" and "\<And>x t. Q' x t \<Longrightarrow> I t \<Longrightarrow> Q x t" and "\<And>t. E' t \<Longrightarrow> I t \<Longrightarrow> E t"
  shows "safe I P m Q E"
  unfolding safe_def
proof (intro allI impI, elim conjE)
  fix w :: world assume w: "P (wd_dir w)" "I (wd_dir w)" "list_all I (wd_trace w)"
  note one = safeD[OF assms(1) assms(2)[OF w(1,2)] w(2,3)]
  show "list_all I (wd_trace (snd (m w))) \<and> I (wd_dir (snd (m w))) \<and>
      (case fst (m w) of Inr x \<Rightarrow> Q x (wd_dir (snd (m w))) | Inl _ \<Rightarrow> E (wd_dir (snd (m w))))"
    using one assms(3,4) by (cases "fst (m w)") auto
qed

lemma safe_require:
  assumes "\<And>t. P t \<Longrightarrow> I t \<Longrightarrow> t path \<noteq> Some NotRegular \<Longrightarrow> Q () t" and "\<And>t. P t \<Longrightarrow> I t \<Longrightarrow> E t"
  shows "safe I P (requireRegularOrAbsent F e path) Q E"
  unfolding requireRegularOrAbsent_def
  by (rule safe_andthen[OF safe_id[where Q = "\<lambda>_. P"] safe_andthen[OF safe_ask[where Q = "\<lambda>x t. P t \<and> x = t path"] safe_lift]])
     (use assms in \<open>auto simp: guard_def split: if_splits\<close>)

lemma safe_syncDirectory:
  assumes "\<And>t. P t \<Longrightarrow> I t \<Longrightarrow> Q () t" and "\<And>t. P t \<Longrightarrow> I t \<Longrightarrow> E t"
  shows "safe I P (syncDirectory F) Q E"
  unfolding syncDirectory_def by (rule safe_andthen[OF safe_id[where Q = "\<lambda>_. P"] safe_id]) (use assms in auto)

lemma safe_case_option:
  assumes "v = None \<Longrightarrow> safe I P n Q E" and "\<And>x. v = Some x \<Longrightarrow> safe I P (s x) Q E"
  shows "safe I P (case v of None \<Rightarrow> n | Some x \<Rightarrow> s x) Q E"
  using assms by (cases v) auto

lemma safe_If: "(b \<Longrightarrow> safe I P m Q E) \<Longrightarrow> (\<not> b \<Longrightarrow> safe I P n Q E) \<Longrightarrow> safe I P (if b then m else n) Q E"
  by simp

lemma safe_absurd: "(\<And>t. P t \<Longrightarrow> I t \<Longrightarrow> False) \<Longrightarrow> safe I P m Q E"
  by (auto simp: safe_def)

end
