(* ===== verification/Credentials.thy ===== *)
theory Credentials
  imports Disk
begin

text \<open>
  The management credential of \<open>management_credential.go\<close> and \<open>store.go\<close>: a bearer token in an
  owner-only file whose digest is kept in the metadata table. Rotation replaces the file and records
  the new digest as pending first; opening the store settles an interrupted rotation.
\<close>

definition digestKey :: string where "digestKey = ''management_credential_digest''"
definition pendingKey :: string where "pendingKey = ''management_credential_digest_pending''"

lemma keys_distinct [simp]: "digestKey \<noteq> pendingKey" "pendingKey \<noteq> digestKey"
  by (simp_all add: digestKey_def pendingKey_def)

definition trimCredential :: "string \<Rightarrow> string" where
  "trimCredential v = rev (dropWhile (\<lambda>c. c = CHR 0x0A \<or> c = CHR 0x0D) (rev v))"

definition is_hex_char :: "char \<Rightarrow> bool" where
  "is_hex_char c \<longleftrightarrow> (let n = of_char c :: nat in (48 \<le> n \<and> n \<le> 57) \<or> (65 \<le> n \<and> n \<le> 70) \<or> (97 \<le> n \<and> n \<le> 102))"

text \<open>What \<open>hex.DecodeString\<close> accepts, with the length of a SHA-256 sum.\<close>

definition valid_digest :: "string \<Rightarrow> bool" where
  "valid_digest d \<longleftrightarrow> length d = 64 \<and> list_all is_hex_char d"

section \<open>Rotation\<close>

definition rotation_file :: "string \<Rightarrow> string" where
  "rotation_file sfx = ''.management-rotation-'' @ sfx @ ''.token''"

text \<open>From the write of the temporary file to its installation; the deferred cleanup removes the
  temporary file when one of the steps fails.\<close>

definition rotate_install :: "(nat \<Rightarrow> fault) \<Rightarrow> string \<Rightarrow> string \<Rightarrow> unit act" where
  "rotate_install F temporary credential =
    on_error
      (andthen (file_op F ''write rotated management credential'' (\<lambda>t. t(temporary := Some (TokenFile (credential @ [CHR 0x0A]))))) (\<lambda>_.
       andthen (file_op F ''sync rotated management credential'' id) (\<lambda>_.
       andthen (file_op F ''close rotated management credential'' id) (\<lambda>_.
       andthen (sql_op F ''prepare management credential rotation''
         (update_database (put_metadata pendingKey (digestString credential)))) (\<lambda>_.
       on_error
         (file_op F ''install rotated management credential'' (\<lambda>t. t(ManagementCredentialFile := t temporary, temporary := None)))
         (sql_op F '''' (update_database (delete_metadata pendingKey))))))))
      (file_op F '''' (\<lambda>t. t(temporary := None)))"

definition rotate_finalize :: "(nat \<Rightarrow> fault) \<Rightarrow> string \<Rightarrow> unit act" where
  "rotate_finalize F credential =
    andthen (lift (guard (valid_digest (digestString credential)) ''rotated management credential digest is invalid'')) (\<lambda>_.
    andthen (set_sum (digestString credential)) (\<lambda>_.
    andthen (syncDirectory F) (\<lambda>_.
    sql_op F ''finalize management credential rotation''
      (update_database (\<lambda>s. delete_metadata pendingKey (set_metadata digestKey (digestString credential) s))))))"

definition RotateManagementCredential :: "(nat \<Rightarrow> fault) \<Rightarrow> string \<Rightarrow> unit act" where
  "RotateManagementCredential F rnd =
    andthen (lift (of_opt ''create management credential'' (randomToken 32 rnd))) (\<lambda>(credential, rnd).
    andthen (lift (of_opt ''create management credential staging identity'' (randomHex 8 rnd))) (\<lambda>(sfx, _).
    andthen (requireRegularOrAbsent F ''secure management credential path'' ManagementCredentialFile) (\<lambda>_.
    andthen (ask (\<lambda>t. t (rotation_file sfx))) (\<lambda>existing.
    andthen (lift (guard (existing = None) ''create rotated management credential'')) (\<lambda>_.
    andthen (file_op F ''create rotated management credential'' (\<lambda>t. t(rotation_file sfx := Some (TokenFile [])))) (\<lambda>_.
    andthen (rotate_install F (rotation_file sfx) credential) (\<lambda>_.
    rotate_finalize F credential)))))))"

definition AuthenticateManagement :: "string \<Rightarrow> world \<Rightarrow> bool" where
  "AuthenticateManagement credential w \<longleftrightarrow> credential \<noteq> [] \<and> digestString credential = wd_sum w"

section \<open>Opening\<close>

definition stored_digest :: "dir \<Rightarrow> string option" where
  "stored_digest t = Option.bind (database_at t) (metadata_of digestKey)"

definition pending_digest :: "dir \<Rightarrow> string option" where
  "pending_digest t = Option.bind (database_at t) (metadata_of pendingKey)"

text \<open>Settling an interrupted rotation; the result is the stored digest from then on.\<close>

definition settle_rotation :: "(nat \<Rightarrow> fault) \<Rightarrow> string lookup \<Rightarrow> string lookup \<Rightarrow> string lookup \<Rightarrow> string lookup act" where
  "settle_rotation F token stored pending =
    (case (pending, token) of
       (Found p, Found c) \<Rightarrow>
         let actual = digestString (trimCredential c) in
         if stored = Found actual then
           andthen (sql_op F ''clear abandoned management credential rotation'' (update_database (delete_metadata pendingKey))) (\<lambda>_. give stored)
         else if actual = p then
           andthen (sql_op F ''recover management credential rotation''
             (update_database (\<lambda>s. delete_metadata pendingKey (put_metadata digestKey p s)))) (\<lambda>_. give (Found p))
         else lift (Inl ''management credential does not match current or pending durable state'')
     | _ \<Rightarrow> give stored)"

definition create_credential :: "(nat \<Rightarrow> fault) \<Rightarrow> string \<Rightarrow> (string \<times> string) act" where
  "create_credential F rnd =
    andthen (lift (of_opt ''create management credential'' (randomToken 32 rnd))) (\<lambda>(token, _).
    andthen (file_op F ''create management credential file'' (\<lambda>t. t(ManagementCredentialFile := Some (TokenFile [])))) (\<lambda>_.
    andthen (file_op F ''write management credential'' (\<lambda>t. t(ManagementCredentialFile := Some (TokenFile (token @ [CHR 0x0A]))))) (\<lambda>_.
    andthen (file_op F ''sync management credential'' id) (\<lambda>_.
    andthen (file_op F ''write management credential'' id) (\<lambda>_.
    andthen (sql_op F ''store management credential digest'' (update_database (put_metadata digestKey (digestString token)))) (\<lambda>_.
    give (token, digestString token)))))))"

definition check_credential :: "(nat \<Rightarrow> fault) \<Rightarrow> string \<Rightarrow> string lookup \<Rightarrow> string lookup \<Rightarrow> (string \<times> string) act" where
  "check_credential F rnd token stored =
    (case (token, stored) of
       (Missing, Missing) \<Rightarrow> create_credential F rnd
     | (Found c, Missing) \<Rightarrow>
         andthen (sql_op F ''recover management credential digest'' (update_database (put_metadata digestKey (digestString (trimCredential c))))) (\<lambda>_.
         give (c, digestString (trimCredential c)))
     | (Missing, Found _) \<Rightarrow> lift (Inl ''management credential file is missing'')
     | (Found c, Found digest) \<Rightarrow>
         andthen (lift (guard (digestString (trimCredential c) = digest) ''management credential does not match durable state'')) (\<lambda>_.
         give (c, digest))
     | (Found _, Failed) \<Rightarrow> lift (Inl ''read management credential digest'')
     | _ \<Rightarrow> lift (Inl ''read management credential''))"

definition initializeManagementCredential :: "(nat \<Rightarrow> fault) \<Rightarrow> string \<Rightarrow> unit act" where
  "initializeManagementCredential F rnd =
    andthen (requireRegularOrAbsent F ''secure management credential path'' ManagementCredentialFile) (\<lambda>_.
    andthen (probe F token_at) (\<lambda>token.
    andthen (probe F stored_digest) (\<lambda>stored.
    andthen (probe F pending_digest) (\<lambda>pending.
    andthen (lift (guard (pending \<noteq> Failed) ''read pending management credential digest'')) (\<lambda>_.
    andthen (settle_rotation F token stored pending) (\<lambda>stored.
    andthen (check_credential F rnd token stored) (\<lambda>(credential, digest).
    andthen (lift (guard (trimCredential credential \<noteq> []) ''management credential is empty'')) (\<lambda>_.
    andthen (file_op F ''secure management credential'' id) (\<lambda>_.
    andthen (lift (guard (valid_digest digest) ''management credential digest is invalid'')) (\<lambda>_.
    set_sum digest))))))))))"

definition worker_token_at :: "dir \<Rightarrow> string option" where
  "worker_token_at t = (case t StewardWorkerCredentialFile of Some (TokenFile c) \<Rightarrow> Some c | _ \<Rightarrow> None)"

definition initializeStewardWorkerCredential :: "(nat \<Rightarrow> fault) \<Rightarrow> string \<Rightarrow> unit act" where
  "initializeStewardWorkerCredential F rnd =
    andthen (requireRegularOrAbsent F ''secure Steward Worker credential path'' StewardWorkerCredentialFile) (\<lambda>_.
    andthen (probe F worker_token_at) (\<lambda>found.
    andthen
      (case found of
         Missing \<Rightarrow>
           andthen (lift (of_opt ''create Steward Worker credential'' (randomToken 32 rnd))) (\<lambda>(token, _).
           andthen (file_op F ''create Steward Worker credential file'' (\<lambda>t. t(StewardWorkerCredentialFile := Some (TokenFile [])))) (\<lambda>_.
           andthen (file_op F ''write Steward Worker credential'' (\<lambda>t. t(StewardWorkerCredentialFile := Some (TokenFile (token @ [CHR 0x0A]))))) (\<lambda>_.
           andthen (file_op F ''sync Steward Worker credential'' id) (\<lambda>_.
           andthen (file_op F ''close Steward Worker credential'' id) (\<lambda>_. give token)))))
       | Failed \<Rightarrow> lift (Inl ''read Steward Worker credential'')
       | Found c \<Rightarrow> give c) (\<lambda>credential.
    andthen (lift (guard (trimCredential credential \<noteq> []) ''Steward Worker credential is empty'')) (\<lambda>_.
    andthen (file_op F ''secure Steward Worker credential'' id) (\<lambda>_.
    set_worker (digestString (trimCredential credential)))))))"

definition AuthenticateStewardWorker :: "string \<Rightarrow> world \<Rightarrow> bool" where
  "AuthenticateStewardWorker credential w \<longleftrightarrow> credential \<noteq> [] \<and> digestString credential = wd_worker w"

section \<open>Interrupted rotations are recoverable\<close>

text \<open>The file matches the stored digest, or the pending one.\<close>

definition settled :: "dir \<Rightarrow> bool" where
  "settled t \<longleftrightarrow> (\<exists>s c. database_at t = Some s \<and> token_at t = Some c \<and> trimCredential c \<noteq> [] \<and>
     metadata_of digestKey s = Some (digestString (trimCredential c)))"

definition recoverable :: "dir \<Rightarrow> bool" where
  "recoverable t \<longleftrightarrow> (\<exists>s c d. database_at t = Some s \<and> token_at t = Some c \<and> trimCredential c \<noteq> [] \<and> metadata_of digestKey s = Some d \<and>
     (d = digestString (trimCredential c) \<or> metadata_of pendingKey s = Some (digestString (trimCredential c))))"

lemma settled_recoverable: "settled t \<Longrightarrow> recoverable t"
  by (auto simp: settled_def recoverable_def)

lemma rotation_file_fresh [simp]:
  "rotation_file s \<noteq> DatabaseFilename" "rotation_file s \<noteq> ManagementCredentialFile" "DatabaseFilename \<noteq> rotation_file s" "ManagementCredentialFile \<noteq> rotation_file s"
  by (simp_all add: rotation_file_def DatabaseFilename_def ManagementCredentialFile_def)

lemma base64url_char_plain: "base64url_char n \<noteq> CHR 0x0A \<and> base64url_char n \<noteq> CHR 0x0D"
proof -
  have "(of_char (base64url_char n) :: nat) \<ge> 45"
    by (auto simp: base64url_char_def of_char_char_of_small)
  then show ?thesis by auto
qed

lemma base64url_plain: "c \<in> set (base64url s) \<Longrightarrow> c \<noteq> CHR 0x0A \<and> c \<noteq> CHR 0x0D"
  by (induction s rule: base64url.induct) (auto simp: base64url_char_plain)

lemma trim_token:
  assumes "randomToken 32 rnd = Some (token, rest)"
  shows "trimCredential (token @ [CHR 0x0A]) = token" "token \<noteq> []"
proof -
  obtain raw where raw: "token = base64url raw" "length raw = 32" using assms by (auto simp: randomToken_def read_random_def split: if_splits)
  show ne: "token \<noteq> []" using raw by (cases raw rule: base64url.cases) auto
  then have "last token \<noteq> CHR 0x0A \<and> last token \<noteq> CHR 0x0D" using base64url_plain[of "last token" raw] raw(1) by simp
  with ne show "trimCredential (token @ [CHR 0x0A]) = token" by (cases token rule: rev_cases) (auto simp: trimCredential_def)
qed

lemma hex_digit_hex: "n < 16 \<Longrightarrow> is_hex_char (hex_digit n)"
  by (auto simp: is_hex_char_def hex_digit_def of_char_char_of_small Let_def)

lemma hex_encode_hex: "list_all is_hex_char (hex_encode s)" "length (hex_encode s) = 2 * length s"
proof -
  have d: "(of_char c :: nat) div 16 < 16" "(of_char c :: nat) mod 16 < 16" for c :: char
    using nat_of_char_less_256[of c] by (auto simp: less_mult_imp_div_less)
  show "list_all is_hex_char (hex_encode s)" by (induction s) (auto simp: hex_encode_def hex_digit_hex d)
  show "length (hex_encode s) = 2 * length s" by (induction s) (auto simp: hex_encode_def)
qed

lemma digestString_valid: "valid_digest (digestString x)"
proof -
  have "length (state_bytes q) = 32" for q by (cases q rule: state_bytes.cases) (simp add: word_bytes_def)
  then have "length (digestBytes x) = 32" by (simp add: digestBytes_def sha256_def Let_def)
  then show ?thesis by (simp add: valid_digest_def digestString_def hex_encode_hex)
qed

text \<open>The state between the installation of the new file and the final transaction.\<close>

definition installed :: "string \<Rightarrow> dir \<Rightarrow> bool" where
  "installed credential t \<longleftrightarrow> token_at t = Some (credential @ [CHR 0x0A]) \<and>
     (\<exists>s d. database_at t = Some s \<and> metadata_of digestKey s = Some d \<and> metadata_of pendingKey s = Some (digestString credential))"

lemma settled_simps [simp]:
  "p \<noteq> DatabaseFilename \<Longrightarrow> p \<noteq> ManagementCredentialFile \<Longrightarrow> settled (t(p := x)) = settled t"
  "settled t \<Longrightarrow> settled (update_database (put_metadata pendingKey d) t)"
  "settled t \<Longrightarrow> settled (update_database (delete_metadata pendingKey) t)"
  by (auto simp: settled_def)

lemma rotate_install_safe:
  assumes c: "trimCredential (credential @ [CHR 0x0A]) = credential" "credential \<noteq> []"
    and p: "p \<noteq> DatabaseFilename" "p \<noteq> ManagementCredentialFile"
  shows "safe recoverable settled (rotate_install F p credential) (\<lambda>_. installed credential) settled"
proof -
  let ?W = "\<lambda>t. settled t \<and> t p = Some (TokenFile (credential @ [CHR 0x0A]))"
  let ?R = "\<lambda>t. ?W t \<and> pending_digest t = Some (digestString credential)"
  have ready: "installed credential (t(ManagementCredentialFile := t p, p := None)) \<and> recoverable (t(ManagementCredentialFile := t p, p := None))"
    if "?R t" for t using that c p by (auto simp: installed_def recoverable_def settled_def pending_digest_def)
  have mark: "?R (update_database (put_metadata pendingKey (digestString credential)) t)" if "?W t" for t
    using that p by (auto simp: pending_digest_def settled_def)
  have prepare: "safe recoverable ?W (sql_op F e (update_database (put_metadata pendingKey (digestString credential)))) (\<lambda>_. ?R) settled" for e
    by (rule safe_sql_op) (use mark settled_recoverable in blast)+
  have undo: "safe recoverable settled (sql_op F e (update_database (delete_metadata pendingKey))) (\<lambda>_. settled) settled" for e
    by (rule safe_sql_op) (use settled_recoverable settled_simps(3) in blast)+
  have rename: "safe recoverable ?R (on_error (file_op F e (\<lambda>t. t(ManagementCredentialFile := t p, p := None)))
      (sql_op F e' (update_database (delete_metadata pendingKey)))) (\<lambda>_. installed credential) settled" for e e'
    by (rule safe_on_error[OF safe_file_op undo]) (use ready in blast)+
  have touch: "safe recoverable ?W (file_op F e id) (\<lambda>_. ?W) settled" for e by (rule safe_id) auto
  have create: "safe recoverable settled (file_op F e (\<lambda>t. t(p := Some (TokenFile (credential @ [CHR 0x0A]))))) (\<lambda>_. ?W) settled" for e
    by (rule safe_file_op) (use p settled_recoverable in auto)
  have remove: "safe recoverable settled (file_op F e (\<lambda>t. t(p := None))) (\<lambda>_. settled) settled" for e
    by (rule safe_file_op) (use p settled_recoverable in auto)
  show ?thesis unfolding rotate_install_def
    by (intro safe_on_error[OF _ remove] safe_andthen[OF create] safe_andthen[OF touch] safe_andthen[OF prepare] rename)
qed

lemma rotate_finalize_safe:
  assumes c: "trimCredential (credential @ [CHR 0x0A]) = credential" "credential \<noteq> []"
  shows "safe recoverable (installed credential) (rotate_finalize F credential)
    (\<lambda>_ t. settled t \<and> pending_digest t = None \<and> token_at t = Some (credential @ [CHR 0x0A])) (\<lambda>_. True)"
proof -
  let ?f = "update_database (\<lambda>s. delete_metadata pendingKey (set_metadata digestKey (digestString credential) s))"
  have final: "settled (?f t) \<and> pending_digest (?f t) = None \<and> token_at (?f t) = Some (credential @ [CHR 0x0A])" if "installed credential t" for t
    using that c by (auto simp: installed_def settled_def pending_digest_def)
  have sql: "safe recoverable (installed credential) (sql_op F e ?f)
      (\<lambda>_ t. settled t \<and> pending_digest t = None \<and> token_at t = Some (credential @ [CHR 0x0A])) (\<lambda>_. True)" for e
    by (rule safe_sql_op) (use final settled_recoverable in blast)+
  have sync: "safe recoverable (installed credential) (syncDirectory F) (\<lambda>_. installed credential) (\<lambda>_. True)" by (rule safe_syncDirectory) auto
  have sum: "safe recoverable (installed credential) (set_sum x) (\<lambda>_. installed credential) (\<lambda>_. True)" for x by (rule safe_set_sum)
  have check: "safe recoverable (installed credential) (lift r) (\<lambda>_. installed credential) (\<lambda>_. True)" for r :: "string + unit" by (rule safe_lift) auto
  show ?thesis unfolding rotate_finalize_def by (intro safe_andthen[OF check] safe_andthen[OF sum] safe_andthen[OF sync] sql)
qed

lemma rotation_safe:
  "safe recoverable settled (RotateManagementCredential F rnd) (\<lambda>_ t. settled t \<and> pending_digest t = None) (\<lambda>_. True)"
  unfolding RotateManagementCredential_def
proof (rule safe_andthen[where R = "\<lambda>(credential, _) t. settled t \<and> trimCredential (credential @ [CHR 0x0A]) = credential \<and> credential \<noteq> []"], goal_cases)
  case 1
  show ?case by (rule safe_lift) (auto simp: of_opt_def split: option.splits dest: trim_token)
next
  case (2 x)
  obtain credential rest where x: "x = (credential, rest)" by (cases x)
  let ?P = "\<lambda>t. settled t \<and> trimCredential (credential @ [CHR 0x0A]) = credential \<and> credential \<noteq> []"
  have keep: "safe recoverable ?P (lift r) (\<lambda>_. ?P) (\<lambda>_. True)" for r :: "string + 'a" by (rule safe_lift) auto
  have keep': "safe recoverable ?P (lift r) (\<lambda>_. ?P) (\<lambda>_. True)" for r :: "string + unit" by (rule safe_lift) auto
  have req: "safe recoverable ?P (requireRegularOrAbsent F e p) (\<lambda>_. ?P) (\<lambda>_. True)" for e p by (rule safe_require) auto
  have look: "safe recoverable ?P (ask g) (\<lambda>_. ?P) (\<lambda>_. True)" for g :: "dir \<Rightarrow> disk_file option" by (rule safe_ask)
  have create: "safe recoverable ?P (file_op F e (\<lambda>t. t(rotation_file sfx := Some (TokenFile [])))) (\<lambda>_. ?P) (\<lambda>_. True)" for e sfx
    by (rule safe_file_op) (auto intro: settled_recoverable)
  have rest: "safe recoverable ?P (andthen (rotate_install F (rotation_file sfx) credential) (\<lambda>_. rotate_finalize F credential))
      (\<lambda>_ t. settled t \<and> pending_digest t = None) (\<lambda>_. True)" for sfx
  proof (cases "trimCredential (credential @ [CHR 0x0A]) = credential \<and> credential \<noteq> []")
    case True
    show ?thesis
      by (rule safe_andthen[OF safe_conseq[OF rotate_install_safe] safe_conseq[OF rotate_finalize_safe]]) (use True in auto)
  qed (auto intro: safe_absurd)
  show ?case unfolding x prod.case
    by (rule safe_andthen[where R = "\<lambda>_. ?P"], rule safe_lift, simp, simp, simp only: case_prod_beta)
       (intro safe_andthen[OF req] safe_andthen[OF look] safe_andthen[OF keep'] safe_andthen[OF create] rest)
qed

section \<open>Opening after a crash\<close>

text \<open>A process that starts on the directory \<open>t\<close> and meets no faults.\<close>

definition boot :: "dir \<Rightarrow> world" where
  "boot t = \<lparr>wd_dir = t, wd_step = 0, wd_trace = [], wd_sum = [], wd_worker = [], wd_pending = False\<rparr>"

definition reopen :: "string \<Rightarrow> dir \<Rightarrow> (string + unit) \<times> world" where
  "reopen rnd t = initializeManagementCredential (\<lambda>_. NoFault) rnd (boot t)"

lemma boot_dir: "wd_dir (boot t) = t"
  by (simp add: boot_def)

lemma run_simps:
  "andthen m f w = (case fst (m w) of Inl e \<Rightarrow> (Inl e, snd (m w)) | Inr x \<Rightarrow> f x (snd (m w)))"
  "on_error m c w = (case fst (m w) of Inl e \<Rightarrow> (Inl e, snd (c (snd (m w)))) | Inr x \<Rightarrow> (Inr x, snd (m w)))"
  "file_op F e u w = (if F (wd_step w) = NoFault then (Inr (), visit (u (wd_dir w)) w) else (Inl e, visit (wd_dir w) w))"
  "sql_op F e u w = (case F (wd_step w) of NoFault \<Rightarrow> (Inr (), visit (u (wd_dir w)) w)
     | FaultLost \<Rightarrow> (Inl e, visit (wd_dir w) w) | FaultApplied \<Rightarrow> (Inl e, visit (u (wd_dir w)) w))"
  "give x w = (Inr x, w)" "ask g w = (Inr (g (wd_dir w)), w)" "lift r w = (r, w)" "set_sum d w = (Inr (), w\<lparr>wd_sum := d\<rparr>)"
  "probe F h w = (Inr (if F (wd_step w) = NoFault then lookup_of (h (wd_dir w)) else Failed), visit (wd_dir w) w)"
  by (simp_all add: andthen_run on_error_run file_op_def sql_op_def give_def ask_def lift_def set_sum_def probe_def)

lemma visit_simps [simp]:
  "wd_dir (visit t w) = t" "wd_step (visit t w) = Suc (wd_step w)" "wd_trace (visit t w) = t # wd_trace w" "wd_sum (visit t w) = wd_sum w"
  by (simp_all add: visit_def)

lemma token_regular: "token_at t = Some c \<Longrightarrow> t ManagementCredentialFile \<noteq> Some NotRegular"
  by (auto simp: token_at_def)

lemma reopen_recoverable:
  assumes "recoverable t"
  shows "\<exists>w c. reopen rnd t = (Inr (), w) \<and> settled (wd_dir w) \<and> pending_digest (wd_dir w) = None \<and>
    token_at t = Some c \<and> token_at (wd_dir w) = Some c \<and> AuthenticateManagement (trimCredential c) w"
proof -
  obtain s c d where t: "database_at t = Some s" "token_at t = Some c" "trimCredential c \<noteq> []" "metadata_of digestKey s = Some d"
    and m: "d = digestString (trimCredential c) \<or> metadata_of pendingKey s = Some (digestString (trimCredential c))"
    using assms by (auto simp: recoverable_def)
  note ev = reopen_def boot_def initializeManagementCredential_def requireRegularOrAbsent_def run_simps settle_rotation_def check_credential_def
    guard_def digestString_valid stored_digest_def pending_digest_def settled_def AuthenticateManagement_def Let_def
  note r = token_regular[OF t(2)]
  show ?thesis
  proof (cases "metadata_of pendingKey s")
    case None
    with m have "d = digestString (trimCredential c)" by simp
    with None t r show ?thesis by (simp add: ev)
  next
    case (Some p)
    then show ?thesis using m t r by (cases "d = digestString (trimCredential c)") (auto simp add: ev)
  qed
qed

text \<open>
  Claim C32. An interrupted rotation of the management credential is recoverable: rotate from a
  directory whose credential file matches the stored digest, with any faults; stop the process after
  any call. Opening the store again succeeds, clears the pending digest and authenticates exactly the
  credential that the file then holds. A rotation that succeeds leaves no pending digest.
\<close>

theorem rotation_crash_recoverable:
  assumes "settled t" and "RotateManagementCredential F rnd (boot t) = (r, w)"
  shows "(\<forall>t' \<in> set (wd_dir w # wd_trace w). \<exists>w' c. reopen rnd' t' = (Inr (), w') \<and> settled (wd_dir w') \<and> pending_digest (wd_dir w') = None \<and>
      token_at t' = Some c \<and> token_at (wd_dir w') = Some c \<and> AuthenticateManagement (trimCredential c) w') \<and>
    (r = Inr () \<longrightarrow> settled (wd_dir w) \<and> pending_digest (wd_dir w) = None)"
proof -
  have start: "settled (wd_dir (boot t))" "recoverable (wd_dir (boot t))" "list_all recoverable (wd_trace (boot t))"
    using assms(1) by (auto simp: boot_def settled_recoverable)
  note run = safeD[OF rotation_safe start, of F rnd, unfolded assms(2) fst_conv snd_conv]
  show ?thesis using run reopen_recoverable by (auto simp: list_all_iff)
qed

text \<open>
  A first start that stops between the creation of the credential file and the write of its contents
  leaves an empty file; every later start fails, because the file is there and empty.
\<close>

theorem first_start_interrupted:
  assumes "database_at t = Some s" and "metadata_of digestKey s = None" and "metadata_of pendingKey s = None"
    and "t ManagementCredentialFile = None" and "randomToken 32 rnd = Some (token, r)"
  shows "\<exists>t'. t' \<in> set (wd_trace (snd (reopen rnd t))) \<and> fst (reopen rnd' t') = Inl ''management credential is empty''"
proof -
  let ?t = "t(ManagementCredentialFile := Some (TokenFile []))"
  have "?t \<in> set (wd_trace (snd (reopen rnd t)))"
    using assms by (simp add: reopen_def boot_def initializeManagementCredential_def requireRegularOrAbsent_def run_simps settle_rotation_def
      check_credential_def create_credential_def guard_def stored_digest_def pending_digest_def token_at_def of_opt_def trim_token(2) digestString_valid)
  moreover have "fst (reopen rnd' ?t) = Inl ''management credential is empty''"
    using assms by (simp add: reopen_def boot_def initializeManagementCredential_def requireRegularOrAbsent_def run_simps settle_rotation_def
      check_credential_def guard_def stored_digest_def pending_digest_def trimCredential_def)
  ultimately show ?thesis by blast
qed

text \<open>One call fails: the \<open>k\<close>-th.\<close>

definition fault_at :: "nat \<Rightarrow> nat \<Rightarrow> fault" where
  "fault_at k n = (if n = k then FaultLost else NoFault)"

lemmas rotate_eval = RotateManagementCredential_def rotate_install_def rotate_finalize_def run_simps of_opt_def requireRegularOrAbsent_def
  syncDirectory_def guard_def digestString_valid fault_at_def

lemma rotate_unfinished:
  assumes t: "database_at (wd_dir w) = Some s" "token_at (wd_dir w) = Some c" "wd_dir w (rotation_file sfx) = None"
    and r: "randomToken 32 rnd = Some (credential, r1)" "randomHex 8 r1 = Some (sfx, r2)"
  shows "\<exists>w'. RotateManagementCredential (fault_at (wd_step w + 9)) rnd w = (Inl ''finalize management credential rotation'', w') \<and>
    wd_step w' = wd_step w + 10 \<and> token_at (wd_dir w') = Some (credential @ [CHR 0x0A]) \<and>
    database_at (wd_dir w') = Some (put_metadata pendingKey (digestString credential) s) \<and>
    (\<forall>sfx'. wd_dir w (rotation_file sfx') = None \<longrightarrow> wd_dir w' (rotation_file sfx') = None)"
  using t r token_regular[OF t(2)] by (simp add: rotate_eval)

lemma rotate_uninstalled:
  assumes t: "database_at (wd_dir w) = Some s" "token_at (wd_dir w) = Some c" "wd_dir w (rotation_file sfx) = None"
    and r: "randomToken 32 rnd = Some (credential, r1)" "randomHex 8 r1 = Some (sfx, r2)"
  shows "\<exists>w'. RotateManagementCredential (fault_at (wd_step w + 6)) rnd w = (Inl ''install rotated management credential'', w') \<and>
    token_at (wd_dir w') = Some c \<and>
    database_at (wd_dir w') = Some (delete_metadata pendingKey (put_metadata pendingKey (digestString credential) s))"
  using t r token_regular[OF t(2)] by (simp add: rotate_eval)

text \<open>
  Claim C33. Recovery does not survive a second rotation: when the final transaction of a rotation
  fails after the new file is in place (the tenth call), and the next rotation fails to install its
  own file (its seventh call), the pending digest it withdraws was the only record of the file on
  disk. The file then matches neither digest, and the store no longer opens unless the digests of two
  credentials coincide.
\<close>

theorem rotation_retry_lockout:
  assumes "database_at t = Some s" and "metadata_of digestKey s = Some d" and "token_at t = Some c"
    and "t (rotation_file sfx) = None" and "t (rotation_file sfx') = None"
    and "randomToken 32 rnd = Some (credential, r1)" and "randomHex 8 r1 = Some (sfx, r2)"
    and "randomToken 32 rnd' = Some (credential', r1')" and "randomHex 8 r1' = Some (sfx', r2')"
  shows "\<exists>w w'. RotateManagementCredential (fault_at 9) rnd (boot t) = (Inl ''finalize management credential rotation'', w) \<and>
    RotateManagementCredential (fault_at 16) rnd' w = (Inl ''install rotated management credential'', w') \<and>
    token_at (wd_dir w') = Some (credential @ [CHR 0x0A]) \<and> stored_digest (wd_dir w') = Some d \<and> pending_digest (wd_dir w') = None \<and>
    (fst (reopen rnd'' (wd_dir w')) = Inl ''management credential does not match durable state'' \<or> digestString credential = d)"
proof -
  obtain w where w: "RotateManagementCredential (fault_at 9) rnd (boot t) = (Inl ''finalize management credential rotation'', w)" "wd_step w = 10"
      "token_at (wd_dir w) = Some (credential @ [CHR 0x0A])" "database_at (wd_dir w) = Some (put_metadata pendingKey (digestString credential) s)"
      "wd_dir w (rotation_file sfx') = None"
    using rotate_unfinished[of "boot t" s c sfx rnd credential r1 r2] assms by (auto simp: boot_def)
  obtain w' where w': "RotateManagementCredential (fault_at 16) rnd' w = (Inl ''install rotated management credential'', w')"
      "token_at (wd_dir w') = Some (credential @ [CHR 0x0A])"
      "database_at (wd_dir w') = Some (delete_metadata pendingKey (put_metadata pendingKey (digestString credential') (put_metadata pendingKey (digestString credential) s)))"
    using rotate_uninstalled[OF w(4,3,5) assms(8,9)] by (auto simp: w(2))
  have digests: "stored_digest (wd_dir w') = Some d" "pending_digest (wd_dir w') = None"
    using w'(3) assms(2) by (simp_all add: stored_digest_def pending_digest_def)
  have "fst (reopen rnd'' (wd_dir w')) = Inl ''management credential does not match durable state''" if "digestString credential \<noteq> d"
    using that w'(2) digests token_regular[OF w'(2)] trim_token(1)[OF assms(6)]
    by (simp add: reopen_def boot_def initializeManagementCredential_def requireRegularOrAbsent_def run_simps settle_rotation_def check_credential_def guard_def)
  with w(1) w' digests show ?thesis by blast
qed

text \<open>The premises of the claims hold of a store that was opened once, with the randomness of two rotations.\<close>

definition demo_directory :: dir where
  "demo_directory = (\<lambda>_. None)(
     DatabaseFilename := Some (DatabaseFile \<lparr>sn_metadata = [(digestKey, digestString ''secret'')], sn_migrations = [1, 2], sn_data = empty_db\<rparr>),
     ManagementCredentialFile := Some (TokenFile (''secret'' @ [CHR 0x0A])))"

lemma demo_directory_state:
  "database_at demo_directory = Some \<lparr>sn_metadata = [(digestKey, digestString ''secret'')], sn_migrations = [1, 2], sn_data = empty_db\<rparr>"
  "token_at demo_directory = Some (''secret'' @ [CHR 0x0A])" "demo_directory (rotation_file sfx) = None"
  by (simp_all add: demo_directory_def database_at_def token_at_def)

lemma demo_random:
  "randomToken 32 (replicate 40 c) = Some (base64url (replicate 32 c), replicate 8 c)"
  "randomHex 8 (replicate 8 c) = Some (hex_encode (replicate 8 c), [])"
proof -
  have "read_random 32 (replicate 40 c) = Some (replicate 32 c, replicate 8 c)" "read_random 8 (replicate 8 c) = Some (replicate 8 c, [])"
    by (simp_all add: read_random_def)
  then show "randomToken 32 (replicate 40 c) = Some (base64url (replicate 32 c), replicate 8 c)"
    "randomHex 8 (replicate 8 c) = Some (hex_encode (replicate 8 c), [])"
    by (simp_all only: randomToken_def randomHex_def option.map prod.case)
qed

lemma demo_settled: "settled demo_directory"
  by (simp add: settled_def demo_directory_state metadata_of_def trimCredential_def)

lemma boot_demo:
  "database_at (wd_dir (boot demo_directory)) = Some \<lparr>sn_metadata = [(digestKey, digestString ''secret'')], sn_migrations = [1, 2], sn_data = empty_db\<rparr>"
  "token_at (wd_dir (boot demo_directory)) = Some (''secret'' @ [CHR 0x0A])" "wd_dir (boot demo_directory) (rotation_file sfx) = None"
  by (simp_all only: boot_dir demo_directory_state)

theorem rotation_crash_recoverable_witness:
  "\<exists>w. RotateManagementCredential (fault_at 9) (replicate 40 CHR ''a'') (boot demo_directory) = (Inl ''finalize management credential rotation'', w) \<and>
    (\<exists>w'. reopen [] (wd_dir w) = (Inr (), w') \<and> settled (wd_dir w') \<and> pending_digest (wd_dir w') = None \<and>
      token_at (wd_dir w') = Some (base64url (replicate 32 CHR ''a'') @ [CHR 0x0A]) \<and>
      AuthenticateManagement (base64url (replicate 32 CHR ''a'')) w')"
proof -
  obtain w where w: "RotateManagementCredential (fault_at 9) (replicate 40 CHR ''a'') (boot demo_directory) = (Inl ''finalize management credential rotation'', w)"
      "token_at (wd_dir w) = Some (base64url (replicate 32 CHR ''a'') @ [CHR 0x0A])"
    using rotate_unfinished[OF boot_demo demo_random, of "CHR ''a''"] by (auto simp: boot_def)
  have "wd_dir w \<in> set (wd_dir w # wd_trace w)" by simp
  with rotation_crash_recoverable[OF demo_settled w(1), of "[]"]
  have "\<exists>w' c. reopen [] (wd_dir w) = (Inr (), w') \<and> settled (wd_dir w') \<and> pending_digest (wd_dir w') = None \<and>
      token_at (wd_dir w) = Some c \<and> token_at (wd_dir w') = Some c \<and> AuthenticateManagement (trimCredential c) w'" by blast
  with w trim_token(1)[OF demo_random(1)[of "CHR ''a''"]] show ?thesis by auto
qed

theorem rotation_retry_lockout_witness:
  "\<exists>w w'. RotateManagementCredential (fault_at 9) (replicate 40 CHR ''a'') (boot demo_directory) = (Inl ''finalize management credential rotation'', w) \<and>
    RotateManagementCredential (fault_at 16) (replicate 40 CHR ''b'') w = (Inl ''install rotated management credential'', w') \<and>
    token_at (wd_dir w') = Some (base64url (replicate 32 CHR ''a'') @ [CHR 0x0A]) \<and>
    stored_digest (wd_dir w') = Some (digestString ''secret'') \<and> pending_digest (wd_dir w') = None \<and>
    (fst (reopen [] (wd_dir w')) = Inl ''management credential does not match durable state'' \<or>
     digestString (base64url (replicate 32 CHR ''a'')) = digestString ''secret'')"
proof -
  have "metadata_of digestKey \<lparr>sn_metadata = [(digestKey, digestString ''secret'')], sn_migrations = [1, 2], sn_data = empty_db\<rparr> =
      Some (digestString ''secret'')" by (simp add: metadata_of_def)
  from rotation_retry_lockout[OF demo_directory_state(1) this demo_directory_state(2,3,3) demo_random demo_random, of "CHR ''a''" "CHR ''b''" "[]"]
  show ?thesis .
qed

end
