(* ===== verification/Restoration.thy ===== *)
theory Restoration
  imports Credentials Governance
begin

text \<open>
  Restore, upgrade preparation, rollback and commit (\<open>restore.go\<close>), with the owner lock (\<open>lock.go\<close>)
  and the schema check of \<open>schema_baseline.go\<close>. The live database, its rollback image and the
  credential file are replaced by renames; the claims say what a crash can leave behind. SQLite's
  integrity check and the two schema scripts, which change the shape of the tables, are parameters.
\<close>

section \<open>Database files\<close>

text \<open>
  \<open>sq_sound\<close> is \<open>PRAGMA integrity_check\<close> with \<open>PRAGMA foreign_key_check\<close>; \<open>sq_baseline\<close> and
  \<open>sq_migrate\<close> are the transactions that run \<open>baselineSchema\<close> and \<open>migrateFactsSchema\<close>.
\<close>

record engine =
  sq_sound :: "snapshot \<Rightarrow> bool"
  sq_baseline :: "snapshot \<Rightarrow> string + snapshot"
  sq_migrate :: "snapshot \<Rightarrow> string + snapshot"

definition CurrentSchemaVersion :: nat where "CurrentSchemaVersion = 2"
definition schemaBaselineID :: string where "schemaBaselineID = ''memory-v0.5.0''"
definition preGASchemaBaselineID :: string where "preGASchemaBaselineID = ''memory-development-baseline-1''"
definition factsSchemaBaselineID :: string where "factsSchemaBaselineID = ''memory-v0.6.0''"
definition generationKey :: string where "generationKey = ''storage_generation''"
definition restorePendingKey :: string where "restorePendingKey = ''restore_pending''"
definition baselineKey :: string where "baselineKey = ''schema_baseline''"
definition OwnerLockFilename :: string where "OwnerLockFilename = ''memoryd.lock''"

definition snapshot_at :: "string \<Rightarrow> dir \<Rightarrow> snapshot option" where
  "snapshot_at p t = (case t p of Some (DatabaseFile s) \<Rightarrow> Some s | _ \<Rightarrow> None)"

definition update_file :: "string \<Rightarrow> (snapshot \<Rightarrow> snapshot) \<Rightarrow> dir \<Rightarrow> dir" where
  "update_file p f t = (case t p of Some (DatabaseFile s) \<Rightarrow> t(p := Some (DatabaseFile (f s))) | _ \<Rightarrow> t)"

text \<open>A transaction that may refuse: its result is written at once, or nothing is.\<close>

definition transact :: "(nat \<Rightarrow> fault) \<Rightarrow> string \<Rightarrow> string \<Rightarrow> (snapshot \<Rightarrow> string + snapshot) \<Rightarrow> unit act" where
  "transact F e p g =
    andthen (ask (snapshot_at p)) (\<lambda>found.
    andthen (lift (of_opt e found)) (\<lambda>s.
    andthen (lift (g s)) (\<lambda>s'.
    sql_op F e (\<lambda>t. t(p := Some (DatabaseFile s'))))))"

definition verifySQLiteFile :: "(nat \<Rightarrow> fault) \<Rightarrow> engine \<Rightarrow> string \<Rightarrow> string \<Rightarrow> unit act" where
  "verifySQLiteFile F q e p =
    andthen (file_op F e id) (\<lambda>_.
    andthen (ask (snapshot_at p)) (\<lambda>found.
    lift (guard (case found of Some s \<Rightarrow> sq_sound q s | None \<Rightarrow> False) e)))"

definition initializeSchema :: "(nat \<Rightarrow> fault) \<Rightarrow> engine \<Rightarrow> string \<Rightarrow> unit act" where
  "initializeSchema F q p =
    andthen (file_op F ''create schema ledger'' id) (\<lambda>_.
    andthen (file_op F ''read schema baseline'' id) (\<lambda>_.
    andthen (ask (snapshot_at p)) (\<lambda>found.
    andthen (lift (of_opt ''create schema ledger'' found)) (\<lambda>s.
    let count = length (sn_migrations s); version = fold max (sn_migrations s) 0; minimum = (if count = 0 then 0 else Min (set (sn_migrations s))) in
    if count \<noteq> 0 then
      andthen (probe F (\<lambda>_. metadata_of baselineKey s)) (\<lambda>baseline.
      case baseline of
        Found b \<Rightarrow>
          if minimum \<noteq> 1 \<or> \<not> ((count = 1 \<and> version = 1) \<or> (count = 2 \<and> version = CurrentSchemaVersion)) then
            lift (Inl ''database uses an unsupported schema; migrate from a supported release or rebuild development data'')
          else if b = factsSchemaBaselineID then
            lift (guard (count = 2 \<and> version = CurrentSchemaVersion) ''facts schema ledger is inconsistent'')
          else if b = schemaBaselineID \<or> b = preGASchemaBaselineID then
            andthen (lift (guard (count = 1 \<and> version = 1) ''legacy schema ledger is inconsistent'')) (\<lambda>_.
            transact F ''migrate facts schema'' p (sq_migrate q))
          else lift (Inl ''database uses an unsupported schema; migrate from a supported release or rebuild development data'')
      | _ \<Rightarrow> lift (Inl ''database uses an unsupported schema; migrate from a supported release or rebuild development data''))
    else
      andthen (transact F ''apply schema baseline'' p (sq_baseline q)) (\<lambda>_.
      transact F ''migrate facts schema'' p (sq_migrate q))))))"

text \<open>\<open>randomHexFrom\<close> spells out its own encoding.\<close>

definition randomHexFrom :: "string \<Rightarrow> nat \<Rightarrow> (string \<times> string) option" where
  "randomHexFrom random n =
    (case read_random n random of
       None \<Rightarrow> None
     | Some (v, rest) \<Rightarrow> Some (concat (map (\<lambda>item. [''0123456789abcdef'' ! (of_char item div 16), ''0123456789abcdef'' ! (of_char item mod 16)]) v), rest))"

definition acquireOwnerLock :: "(nat \<Rightarrow> fault) \<Rightarrow> bool \<Rightarrow> string \<Rightarrow> unit act" where
  "acquireOwnerLock F contended pid =
    andthen (requireRegularOrAbsent F ''secure owner lock path'' OwnerLockFilename) (\<lambda>_.
    andthen (file_op F ''open owner lock'' (\<lambda>t. if t OwnerLockFilename = None then t(OwnerLockFilename := Some (TokenFile [])) else t)) (\<lambda>_.
    andthen (file_op F ''secure owner lock'' id) (\<lambda>_.
    andthen (lift (guard (\<not> contended) ''memory data directory is already owned'')) (\<lambda>_.
    andthen (file_op F ''acquire owner lock'' id) (\<lambda>_.
    andthen (file_op F ''truncate owner lock'' (\<lambda>t. t(OwnerLockFilename := Some (TokenFile [])))) (\<lambda>_.
    andthen (file_op F ''write owner lock'' (\<lambda>t. t(OwnerLockFilename := Some (TokenFile (pid @ [CHR 0x0A]))))) (\<lambda>_.
    file_op F ''sync owner lock'' id)))))))"

section \<open>Steps of a restore\<close>

definition prepareRestoredDatabase :: "(nat \<Rightarrow> fault) \<Rightarrow> engine \<Rightarrow> string \<Rightarrow> string \<Rightarrow> string \<Rightarrow> bool \<Rightarrow> (string \<times> string \<times> string) act" where
  "prepareRestoredDatabase F q path credential random restorePending =
    andthen (file_op F ''open restored database'' id) (\<lambda>_.
    andthen (file_op F ''enable restored foreign keys'' id) (\<lambda>_.
    andthen (file_op F ''read restored storage generation'' id) (\<lambda>_.
    andthen (ask (\<lambda>t. Option.bind (snapshot_at path t) (metadata_of generationKey))) (\<lambda>found.
    andthen (lift (of_opt ''read restored storage generation'' found)) (\<lambda>sourceGeneration.
    andthen (initializeSchema F q path) (\<lambda>_.
    andthen (lift (of_opt ''rotate restored storage generation'' (randomHexFrom random 16))) (\<lambda>(newGeneration, random).
    andthen (sql_op F ''commit restored metadata'' (update_file path (\<lambda>s.
      put_metadata restorePendingKey (if restorePending then ''1'' else ''0'')
        (put_metadata digestKey (digestString credential) (set_metadata generationKey newGeneration s))))) (\<lambda>_.
    andthen (file_op F ''checkpoint restored database'' id) (\<lambda>_.
    give (sourceGeneration, newGeneration, random))))))))))"

text \<open>\<open>VACUUM INTO\<close> creates the file and then fills it; a crash in between leaves a torn file.\<close>

definition createRollbackSnapshot :: "(nat \<Rightarrow> fault) \<Rightarrow> engine \<Rightarrow> bool act" where
  "createRollbackSnapshot F q =
    andthen (requireRegularOrAbsent F ''secure current database'' DatabaseFilename) (\<lambda>_.
    andthen (file_op F ''inspect current database'' id) (\<lambda>_.
    andthen (ask (\<lambda>t. t DatabaseFilename)) (\<lambda>current.
    if current = None then give False else
    andthen (file_op F ''open current database for rollback'' id) (\<lambda>_.
    on_error
      (andthen (ask (snapshot_at DatabaseFilename)) (\<lambda>found.
       andthen (lift (of_opt ''create pre-restore rollback snapshot'' found)) (\<lambda>s.
       andthen (file_op F ''create pre-restore rollback snapshot'' (\<lambda>t. t(RollbackDatabaseFilename := Some (TokenFile [])))) (\<lambda>_.
       andthen (file_op F ''create pre-restore rollback snapshot'' (\<lambda>t. t(RollbackDatabaseFilename := Some (DatabaseFile s)))) (\<lambda>_.
       andthen (file_op F ''close pre-restore database'' id) (\<lambda>_.
       andthen (file_op F ''secure rollback snapshot'' id) (\<lambda>_.
       andthen (verifySQLiteFile F q ''verify rollback snapshot'' RollbackDatabaseFilename) (\<lambda>_.
       andthen (file_op F ''open rollback snapshot for sync'' id) (\<lambda>_.
       andthen (file_op F ''sync rollback snapshot'' id) (\<lambda>_.
       andthen (file_op F ''close rollback snapshot'' id) (\<lambda>_.
       give True)))))))))))
      (file_op F [] (\<lambda>t. t(RollbackDatabaseFilename := None)))))))"

definition restore_file :: "string \<Rightarrow> string" where
  "restore_file sfx = ''.management-restore-'' @ sfx @ ''.token''"

definition installManagementCredential :: "(nat \<Rightarrow> fault) \<Rightarrow> string \<Rightarrow> string \<Rightarrow> unit act" where
  "installManagementCredential F credential random =
    andthen (requireRegularOrAbsent F ''secure restored management credential path'' ManagementCredentialFile) (\<lambda>_.
    andthen (probe F token_at) (\<lambda>current.
    case current of
      Found c \<Rightarrow>
        andthen (lift (guard (trim_space c = credential) ''existing management credential does not match restore authority'')) (\<lambda>_.
        file_op F ''secure restored management credential'' id)
    | Failed \<Rightarrow> lift (Inl ''read restored management credential'')
    | Missing \<Rightarrow>
        andthen (lift (of_opt ''create management credential staging identity'' (randomHexFrom random 8))) (\<lambda>(sfx, _).
        andthen (ask (\<lambda>t. t (restore_file sfx))) (\<lambda>existing.
        andthen (lift (guard (existing = None) ''create restored management credential'')) (\<lambda>_.
        andthen (file_op F ''create restored management credential'' (\<lambda>t. t(restore_file sfx := Some (TokenFile [])))) (\<lambda>_.
        on_error
          (andthen (file_op F ''write restored management credential'' (\<lambda>t. t(restore_file sfx := Some (TokenFile (credential @ [CHR 0x0A]))))) (\<lambda>_.
           andthen (file_op F ''sync restored management credential'' id) (\<lambda>_.
           andthen (file_op F ''close restored management credential'' id) (\<lambda>_.
           file_op F ''install restored management credential'' (\<lambda>t. t(ManagementCredentialFile := t (restore_file sfx), restore_file sfx := None))))))
          (file_op F [] (\<lambda>t. t(restore_file sfx := None)))))))))"

definition remove_sidecars :: "(nat \<Rightarrow> fault) \<Rightarrow> unit act" where
  "remove_sidecars F =
    andthen (file_op F ''remove stale SQLite sidecar memory.db-wal'' (\<lambda>t. t(''memory.db-wal'' := None))) (\<lambda>_.
    file_op F ''remove stale SQLite sidecar memory.db-shm'' (\<lambda>t. t(''memory.db-shm'' := None)))"

section \<open>Restore, rollback, upgrade and commit\<close>

record RestoreResult =
  SourceGeneration :: string
  StorageGeneration :: string
  SchemaVersion :: nat
  RollbackAvailable :: bool
  RollbackPath :: string

definition staged_file :: "string \<Rightarrow> string" where
  "staged_file sfx = ''.memory-restore-'' @ sfx @ ''.db''"

text \<open>From the copy of the snapshot to the replacement of the live database; the deferred cleanup
  removes the staged file when one of the steps fails.\<close>

definition restore_staged :: "(nat \<Rightarrow> fault) \<Rightarrow> engine \<Rightarrow> string \<Rightarrow> string \<Rightarrow> disk_file \<Rightarrow> string \<Rightarrow> (string \<times> string \<times> bool) act" where
  "restore_staged F q stagedPath credential content random =
    on_error
      (andthen (file_op F ''read authenticated restore snapshot'' (\<lambda>t. t(stagedPath := Some content))) (\<lambda>_.
       andthen (file_op F ''sync staged restore'' id) (\<lambda>_.
       andthen (file_op F ''close staged restore'' id) (\<lambda>_.
       andthen (verifySQLiteFile F q ''verify restore snapshot'' stagedPath) (\<lambda>_.
       andthen (prepareRestoredDatabase F q stagedPath credential random True) (\<lambda>(sourceGeneration, newGeneration, random).
       andthen (verifySQLiteFile F q ''verify initialized restore snapshot'' stagedPath) (\<lambda>_.
       andthen (createRollbackSnapshot F q) (\<lambda>rollbackAvailable.
       andthen
         (on_error (installManagementCredential F credential random)
           (if rollbackAvailable then file_op F [] (\<lambda>t. t(RollbackDatabaseFilename := None)) else give ())) (\<lambda>_.
       andthen (remove_sidecars F) (\<lambda>_.
       andthen (file_op F ''install restored database'' (\<lambda>t. t(DatabaseFilename := t stagedPath, stagedPath := None))) (\<lambda>_.
       give (sourceGeneration, newGeneration, rollbackAvailable))))))))))))
      (file_op F [] (\<lambda>t. t(stagedPath := None)))"

definition Restore :: "(nat \<Rightarrow> fault) \<Rightarrow> engine \<Rightarrow> bool \<Rightarrow> string \<Rightarrow> disk_file \<Rightarrow> string \<Rightarrow> string \<Rightarrow> RestoreResult act" where
  "Restore F q contended pid content managementCredential random =
    (let credential = trim_space managementCredential in
    andthen (lift (guard (credential \<noteq> []) ''restore management credential is required'')) (\<lambda>_.
    andthen (file_op F ''create restore data directory'' id) (\<lambda>_.
    andthen (file_op F ''secure restore data directory'' id) (\<lambda>_.
    andthen (acquireOwnerLock F contended pid) (\<lambda>_.
    andthen (requireRegularOrAbsent F ''secure rollback path'' RollbackDatabaseFilename) (\<lambda>_.
    andthen (file_op F ''inspect rollback database'' id) (\<lambda>_.
    andthen (ask (\<lambda>t. t RollbackDatabaseFilename)) (\<lambda>rollback.
    andthen (lift (guard (rollback = None) ''rollback database already exists; commit or roll it back before another restore'')) (\<lambda>_.
    andthen (lift (of_opt ''create restore identity'' (randomHexFrom random 16))) (\<lambda>(sfx, random).
    andthen (ask (\<lambda>t. t (staged_file sfx))) (\<lambda>existing.
    andthen (lift (guard (existing = None) ''create staged restore'')) (\<lambda>_.
    andthen (file_op F ''create staged restore'' (\<lambda>t. t(staged_file sfx := Some (TokenFile [])))) (\<lambda>_.
    andthen (restore_staged F q (staged_file sfx) credential content random) (\<lambda>(sourceGeneration, newGeneration, rollbackAvailable).
    andthen (file_op F ''secure restored database'' id) (\<lambda>_.
    andthen (syncDirectory F) (\<lambda>_.
    give \<lparr>SourceGeneration = sourceGeneration, StorageGeneration = newGeneration, SchemaVersion = CurrentSchemaVersion,
      RollbackAvailable = rollbackAvailable, RollbackPath = (if rollbackAvailable then RollbackDatabaseFilename else [])\<rparr>))))))))))))))))"

definition RollbackRestore :: "(nat \<Rightarrow> fault) \<Rightarrow> engine \<Rightarrow> bool \<Rightarrow> string \<Rightarrow> string \<Rightarrow> string \<Rightarrow> RestoreResult act" where
  "RollbackRestore F q contended pid managementCredential random =
    (let credential = trim_space managementCredential in
    andthen (lift (guard (credential \<noteq> []) ''rollback data directory and management credential are required'')) (\<lambda>_.
    andthen (acquireOwnerLock F contended pid) (\<lambda>_.
    andthen (requireRegularOrAbsent F ''secure rollback database'' RollbackDatabaseFilename) (\<lambda>_.
    andthen (file_op F ''rollback database is unavailable'' id) (\<lambda>_.
    andthen (ask (\<lambda>t. t RollbackDatabaseFilename)) (\<lambda>rollback.
    andthen (lift (guard (rollback \<noteq> None) ''rollback database is unavailable'')) (\<lambda>_.
    andthen (verifySQLiteFile F q ''verify rollback database'' RollbackDatabaseFilename) (\<lambda>_.
    andthen (prepareRestoredDatabase F q RollbackDatabaseFilename credential random False) (\<lambda>(sourceGeneration, newGeneration, random).
    andthen (installManagementCredential F credential random) (\<lambda>_.
    andthen (remove_sidecars F) (\<lambda>_.
    andthen (file_op F ''install rollback database''
      (\<lambda>t. t(DatabaseFilename := t RollbackDatabaseFilename, RollbackDatabaseFilename := None))) (\<lambda>_.
    andthen (file_op F ''secure rollback database'' id) (\<lambda>_.
    andthen (syncDirectory F) (\<lambda>_.
    give \<lparr>SourceGeneration = sourceGeneration, StorageGeneration = newGeneration, SchemaVersion = CurrentSchemaVersion,
      RollbackAvailable = False, RollbackPath = []\<rparr>))))))))))))))"

text \<open>The state that \<open>PrepareUpgrade\<close> reads in one query; a missing value is a scan error.\<close>

definition upgrade_state :: "snapshot \<Rightarrow> (string \<times> string \<times> string \<times> nat) option" where
  "upgrade_state s =
    (case (metadata_of generationKey s, metadata_of digestKey s, sn_migrations s) of
       (Some generation, Some storedDigest, v # vs) \<Rightarrow>
         Some (generation, storedDigest, (case metadata_of restorePendingKey s of Some p \<Rightarrow> p | None \<Rightarrow> ''0''), fold max (v # vs) 0)
     | _ \<Rightarrow> None)"

text \<open>The branch for a generation that is pending already.\<close>

definition upgrade_resume :: "(nat \<Rightarrow> fault) \<Rightarrow> engine \<Rightarrow> string \<Rightarrow> nat \<Rightarrow> bool \<Rightarrow> RestoreResult act" where
  "upgrade_resume F q generation schemaVersion rollbackExists =
    andthen (lift (guard rollbackExists ''generation is already pending without a rollback database'')) (\<lambda>_.
    andthen (verifySQLiteFile F q ''verify upgrade rollback database'' RollbackDatabaseFilename) (\<lambda>_.
    andthen (file_op F ''open upgrade rollback database'' id) (\<lambda>_.
    andthen (file_op F ''read upgrade rollback generation'' id) (\<lambda>_.
    andthen (ask (\<lambda>t. Option.bind (snapshot_at RollbackDatabaseFilename t) (metadata_of generationKey))) (\<lambda>found.
    andthen (lift (of_opt ''read upgrade rollback generation'' found)) (\<lambda>rollbackGeneration.
    andthen (file_op F ''close upgrade rollback database'' id) (\<lambda>_.
    andthen (lift (guard (rollbackGeneration = generation) ''existing rollback database belongs to another generation'')) (\<lambda>_.
    give \<lparr>SourceGeneration = generation, StorageGeneration = generation, SchemaVersion = schemaVersion,
      RollbackAvailable = True, RollbackPath = RollbackDatabaseFilename\<rparr>))))))))"

text \<open>The capture of the rollback image and the barrier.\<close>

definition upgrade_capture :: "(nat \<Rightarrow> fault) \<Rightarrow> engine \<Rightarrow> string \<Rightarrow> nat \<Rightarrow> bool \<Rightarrow> RestoreResult act" where
  "upgrade_capture F q generation schemaVersion rollbackExists =
    andthen
      (if rollbackExists then
         andthen (file_op F ''remove abandoned upgrade rollback database'' (\<lambda>t. t(RollbackDatabaseFilename := None))) (\<lambda>_. syncDirectory F)
       else give ()) (\<lambda>_.
    andthen (createRollbackSnapshot F q) (\<lambda>createdRollback.
    andthen (lift (guard createdRollback ''upgrade database is unavailable'')) (\<lambda>_.
    andthen (on_error (syncDirectory F) (file_op F [] (\<lambda>t. t(RollbackDatabaseFilename := None)))) (\<lambda>_.
    andthen (on_error (file_op F ''open upgrade database'' id) (file_op F [] (\<lambda>t. t(RollbackDatabaseFilename := None)))) (\<lambda>_.
    andthen (sql_op F ''mark upgrade pending'' (update_database (put_metadata restorePendingKey ''1''))) (\<lambda>_.
    andthen (file_op F ''checkpoint pending upgrade database'' id) (\<lambda>_.
    andthen (file_op F ''close pending upgrade database'' id) (\<lambda>_.
    andthen (syncDirectory F) (\<lambda>_.
    give \<lparr>SourceGeneration = generation, StorageGeneration = generation, SchemaVersion = schemaVersion,
      RollbackAvailable = True, RollbackPath = RollbackDatabaseFilename\<rparr>)))))))))"

definition PrepareUpgrade :: "(nat \<Rightarrow> fault) \<Rightarrow> engine \<Rightarrow> bool \<Rightarrow> string \<Rightarrow> string \<Rightarrow> RestoreResult act" where
  "PrepareUpgrade F q contended pid managementCredential =
    (let credential = trim_space managementCredential in
    andthen (lift (guard (credential \<noteq> []) ''upgrade data directory and management credential are required'')) (\<lambda>_.
    andthen (acquireOwnerLock F contended pid) (\<lambda>_.
    andthen (requireRegularOrAbsent F ''secure upgrade database memory.db'' DatabaseFilename) (\<lambda>_.
    andthen (requireRegularOrAbsent F ''secure upgrade database memory.db.rollback'' RollbackDatabaseFilename) (\<lambda>_.
    andthen (file_op F ''inspect upgrade database'' id) (\<lambda>_.
    andthen (ask (\<lambda>t. t DatabaseFilename)) (\<lambda>live.
    andthen (lift (guard (live \<noteq> None) ''inspect upgrade database'')) (\<lambda>_.
    andthen (verifySQLiteFile F q ''verify upgrade database'' DatabaseFilename) (\<lambda>_.
    andthen (file_op F ''open upgrade database'' id) (\<lambda>_.
    andthen (file_op F ''read upgrade state'' id) (\<lambda>_.
    andthen (ask (\<lambda>t. Option.bind (database_at t) upgrade_state)) (\<lambda>found.
    andthen (lift (of_opt ''read upgrade state'' found)) (\<lambda>(generation, storedDigest, pending, schemaVersion).
    andthen (file_op F ''close upgrade database'' id) (\<lambda>_.
    andthen (lift (guard (digestString credential = storedDigest) ''management credential does not authorize upgrade preparation'')) (\<lambda>_.
    andthen (file_op F ''inspect upgrade rollback database'' id) (\<lambda>_.
    andthen (ask (\<lambda>t. t RollbackDatabaseFilename \<noteq> None)) (\<lambda>rollbackExists.
    if pending = ''1'' then upgrade_resume F q generation schemaVersion rollbackExists
    else
      andthen (lift (guard (pending = ''0'') ''stored pending state is invalid'')) (\<lambda>_.
      upgrade_capture F q generation schemaVersion rollbackExists))))))))))))))))))"

text \<open>
  \<open>CommitRestore\<close> on an open store. Its governance recovery runs transactions of its own
  (\<^const>\<open>RecoverGovernanceCleanup\<close>); the step here is their combined effect.
\<close>

definition CommitRestore :: "(nat \<Rightarrow> fault) \<Rightarrow> (nat \<Rightarrow> instant) \<Rightarrow> (nat \<Rightarrow> commit_outcome) \<Rightarrow> unit act" where
  "CommitRestore F clock outs =
    andthen (requireRegularOrAbsent F ''secure rollback database'' RollbackDatabaseFilename) (\<lambda>_.
    andthen (file_op F ''commit restore'' (\<lambda>t. t(RollbackDatabaseFilename := None))) (\<lambda>_.
    andthen (sql_op F ''commit restored generation'' (update_database (put_metadata restorePendingKey ''0''))) (\<lambda>_.
    andthen (set_pending False) (\<lambda>_.
    andthen (ask database_at) (\<lambda>live.
    andthen (sql_op F ''recover restored governance cleanup''
      (update_database (\<lambda>s. s\<lparr>sn_data := snd (RecoverGovernanceCleanup clock outs (sn_data s))\<rparr>))) (\<lambda>_.
    andthen (lift (case live of
        Some s \<Rightarrow> (case fst (RecoverGovernanceCleanup clock outs (sn_data s)) of
            Inl _ \<Rightarrow> Inl ''recover restored governance cleanup'' | Inr _ \<Rightarrow> Inr ())
      | None \<Rightarrow> Inr ())) (\<lambda>_.
    syncDirectory F)))))))"

end
