(* ===== verification/Restore_Laws.thy ===== *)
theory Restore_Laws
  imports Restoration
begin

text \<open>
  Crash safety of restore, upgrade preparation and rollback: what the live database, its rollback
  image and the credential file can hold in every state that a failure or a crash can leave behind.
\<close>

section \<open>Names and files\<close>

lemma restore_names [simp]:
  "OwnerLockFilename \<noteq> DatabaseFilename" "OwnerLockFilename \<noteq> RollbackDatabaseFilename" "OwnerLockFilename \<noteq> ManagementCredentialFile"
  "staged_file sfx \<noteq> DatabaseFilename" "staged_file sfx \<noteq> RollbackDatabaseFilename" "staged_file sfx \<noteq> ManagementCredentialFile"
  "restore_file sfx \<noteq> DatabaseFilename" "restore_file sfx \<noteq> RollbackDatabaseFilename" "restore_file sfx \<noteq> ManagementCredentialFile"
  "staged_file sfx \<noteq> restore_file sfx'" "staged_file sfx \<noteq> OwnerLockFilename"
  "DatabaseFilename \<noteq> ''memory.db-wal''" "DatabaseFilename \<noteq> ''memory.db-shm''" "RollbackDatabaseFilename \<noteq> ''memory.db-wal''"
  "RollbackDatabaseFilename \<noteq> ''memory.db-shm''" "ManagementCredentialFile \<noteq> ''memory.db-wal''" "ManagementCredentialFile \<noteq> ''memory.db-shm''"
  "staged_file sfx \<noteq> ''memory.db-wal''" "staged_file sfx \<noteq> ''memory.db-shm''"
  by (simp_all add: OwnerLockFilename_def DatabaseFilename_def RollbackDatabaseFilename_def ManagementCredentialFile_def staged_file_def restore_file_def)

lemmas restore_names_sym [simp] = restore_names[THEN not_sym]

lemma restore_keys [simp]:
  "restorePendingKey \<noteq> digestKey" "digestKey \<noteq> restorePendingKey" "generationKey \<noteq> digestKey" "generationKey \<noteq> restorePendingKey"
  by (simp_all add: restorePendingKey_def digestKey_def generationKey_def)

lemma snapshot_at_upd [simp]:
  "snapshot_at p (t(p := Some (DatabaseFile s))) = Some s" "p' \<noteq> p \<Longrightarrow> snapshot_at p (t(p' := x)) = snapshot_at p t"
  by (simp_all add: snapshot_at_def)

lemma snapshot_at_iff: "snapshot_at p t = Some s \<longleftrightarrow> t p = Some (DatabaseFile s)"
  by (auto simp: snapshot_at_def split: option.splits disk_file.splits)

lemma update_file_snapshot: "snapshot_at p t = Some s \<Longrightarrow> update_file p f t = t(p := Some (DatabaseFile (f s)))"
  by (simp add: update_file_def snapshot_at_iff)

lemma update_file_none: "snapshot_at p t = None \<Longrightarrow> update_file p f t = t"
  by (auto simp: update_file_def snapshot_at_def split: option.splits disk_file.splits)

text \<open>The hand-written encoding is the one of the library.\<close>

lemma randomHexFrom_randomHex: "randomHexFrom random n = randomHex n random"
proof -
  have "map hex_digit [0..<16] = ''0123456789abcdef''" by code_simp
  then have "\<forall>k < 16. ''0123456789abcdef'' ! k = hex_digit k" by (metis (no_types, lifting) add_0 diff_zero length_upt nth_map nth_upt)
  moreover have "(of_char c :: nat) div 16 < 16" "(of_char c :: nat) mod 16 < 16" for c :: char
    using nat_of_char_less_256[of c] by (auto simp: less_mult_imp_div_less)
  ultimately have "[''0123456789abcdef'' ! (of_char c div 16), ''0123456789abcdef'' ! (of_char c mod 16)] =
      [hex_digit (of_char c div 16), hex_digit (of_char c mod 16)]" for c :: char by blast
  then show ?thesis by (simp add: randomHexFrom_def randomHex_def hex_encode_def split: option.splits)
qed

section \<open>The steps\<close>

lemma lock_safe:
  assumes "\<And>t x. P t \<Longrightarrow> I t \<Longrightarrow> P (t(OwnerLockFilename := x)) \<and> I (t(OwnerLockFilename := x))"
  shows "safe I P (acquireOwnerLock F contended pid) (\<lambda>_. P) P"
proof -
  have req: "safe I P (requireRegularOrAbsent F e p) (\<lambda>_. P) P" for e p by (rule safe_require) auto
  have step: "safe I P (file_op F e f) (\<lambda>_. P) P" if "\<And>t. f t = t \<or> (\<exists>x. f t = t(OwnerLockFilename := x))" for e f
    by (rule safe_file_op) (use that assms in metis)+
  have free: "safe I P (lift r) (\<lambda>_. P) P" for r :: "string + unit" by (rule safe_lift) auto
  show ?thesis unfolding acquireOwnerLock_def
    by (intro safe_andthen[OF req] safe_andthen[OF step] safe_andthen[OF free] step) auto
qed

lemma verify_safe:
  "safe I P (verifySQLiteFile F q e p) (\<lambda>_ t. P t \<and> (\<exists>s. snapshot_at p t = Some s \<and> sq_sound q s)) P"
proof -
  have step: "safe I P (file_op F e id) (\<lambda>_. P) P" by (rule safe_id) auto
  have look: "safe I P (ask (snapshot_at p)) (\<lambda>found t. P t \<and> found = snapshot_at p t) P" by (rule safe_ask) auto
  have sound: "safe I (\<lambda>t. P t \<and> found = snapshot_at p t) (lift (guard (case found of Some s \<Rightarrow> sq_sound q s | None \<Rightarrow> False) e))
      (\<lambda>_ t. P t \<and> (\<exists>s. snapshot_at p t = Some s \<and> sq_sound q s)) P" for found
    by (rule safe_lift) (auto simp: guard_def split: if_splits option.splits)
  show ?thesis unfolding verifySQLiteFile_def by (intro safe_andthen[OF step] safe_andthen[OF look] sound)
qed

definition schema_current :: "snapshot \<Rightarrow> bool" where
  "schema_current s \<longleftrightarrow> length (sn_migrations s) = 2 \<and> metadata_of baselineKey s = Some factsSchemaBaselineID"

lemma transact_safe:
  assumes "\<And>t s s'. P t \<Longrightarrow> I t \<Longrightarrow> P (t(p := Some (DatabaseFile s'))) \<and> I (t(p := Some (DatabaseFile s')))"
  shows "safe I P (transact F e p g) (\<lambda>_. P) P"
proof -
  have look: "safe I P (ask (snapshot_at p)) (\<lambda>_. P) P" by (rule safe_ask)
  have keep: "safe I P (lift r) (\<lambda>_. P) P" for r :: "string + snapshot" by (rule safe_lift) auto
  have sql: "safe I P (sql_op F e (\<lambda>t. t(p := Some (DatabaseFile s')))) (\<lambda>_. P) P" for s' by (rule safe_sql_op) (use assms in auto)
  show ?thesis unfolding transact_def by (intro safe_andthen[OF look] safe_andthen[OF keep] sql)
qed

text \<open>The schema of a file at the current baseline is left alone.\<close>

lemma schema_safe:
  assumes P: "\<And>t s s'. P t \<Longrightarrow> I t \<Longrightarrow> snapshot_at p t = Some s \<Longrightarrow> \<not> schema_current s \<Longrightarrow>
      P (t(p := Some (DatabaseFile s'))) \<and> I (t(p := Some (DatabaseFile s')))"
  shows "safe I P (initializeSchema F q p) (\<lambda>_. P) P"
proof -
  let ?C = "\<lambda>t. P t \<and> (\<forall>s'. P (t(p := Some (DatabaseFile s'))) \<and> I (t(p := Some (DatabaseFile s'))))"
  have step: "safe I P (file_op F e id) (\<lambda>_. P) P" for e by (rule safe_id) auto
  have look: "safe I P (ask (snapshot_at p)) (\<lambda>found t. P t \<and> found = snapshot_at p t) P" by (rule safe_ask) auto
  have load: "safe I (\<lambda>t. P t \<and> found = snapshot_at p t) (lift (of_opt e found)) (\<lambda>s t. P t \<and> snapshot_at p t = Some s) P" for e found
    by (rule safe_lift) (auto simp: of_opt_def split: option.splits)
  have run: "safe I ?C (transact F e p g) (\<lambda>_. ?C) P" for e g
    by (rule safe_conseq[OF transact_safe[of ?C]]) auto
  have run': "safe I ?C (transact F e p g) (\<lambda>_. P) P" for e g by (rule safe_conseq[OF run]) auto
  have free: "safe I ?C (lift r) (\<lambda>_. ?C) P" "safe I ?C (lift r) (\<lambda>_. P) P" "safe I P (lift r) (\<lambda>_. P) P"
    "safe I (\<lambda>t. P t \<and> R t) (lift r) (\<lambda>_. P) P" for r :: "string + unit" and R
    by (rule safe_lift; auto)+
  have meta: "safe I ?C (probe F g) (\<lambda>_. ?C) P" for g :: "dir \<Rightarrow> string option" by (rule safe_probe) auto
  have known: "safe I P (probe F (\<lambda>_. v)) (\<lambda>b t. P t \<and> (b = Failed \<or> b = lookup_of v)) P" for v :: "string option" by (rule safe_probe) auto
  have old: "safe I (\<lambda>t. P t \<and> snapshot_at p t = Some s) m (\<lambda>_. P) P" if "safe I ?C m (\<lambda>_. P) P" "\<not> schema_current s" for s and m :: "unit act"
    by (rule safe_conseq[OF that(1)]) (use P that(2) in auto)
  show ?thesis unfolding initializeSchema_def
  proof (intro safe_andthen[OF step] safe_andthen[OF look] safe_andthen[OF load], goal_cases)
    case (1 x xa found s)
    show ?case
    proof (cases "schema_current s")
      case True
      then have s: "length (sn_migrations s) = 2" "metadata_of baselineKey s = Some factsSchemaBaselineID" by (auto simp: schema_current_def)
      show ?thesis unfolding Let_def s
      proof (rule safe_conseq[where P' = P and Q' = "\<lambda>_. P" and E' = P], simp, rule safe_andthen[OF known], goal_cases)
        case (1 b)
        show ?case
        proof (cases b)
          case (Found v)
          then show ?thesis by (cases "v = factsSchemaBaselineID") (auto intro: free(3,4) safe_absurd)
        qed (auto intro: free(3,4) safe_absurd)
      qed auto
    next
      case False
      show ?thesis unfolding Let_def
        by (rule old[OF _ False]) (auto intro!: safe_andthen[OF meta] safe_andthen[OF free(1)] safe_andthen[OF run] run' free(2) split: lookup.splits)
    qed
  qed
qed

text \<open>What \<open>initializeSchema\<close> can make of a file: nothing at the current baseline; an empty ledger gets the
  baseline and then the facts schema, a legacy ledger the facts schema.\<close>

definition brought_up :: "engine \<Rightarrow> snapshot \<Rightarrow> snapshot \<Rightarrow> bool" where
  "brought_up q s x \<longleftrightarrow> x = s \<or> \<not> schema_current s \<and>
     (if sn_migrations s = [] then sq_baseline q s = Inr x \<or> (\<exists>y. sq_baseline q s = Inr y \<and> sq_migrate q y = Inr x)
      else sq_migrate q s = Inr x)"

lemma transact_exact:
  assumes frame: "\<And>t x. R t \<Longrightarrow> R (t(p := x))"
    and I: "\<And>t y. R t \<Longrightarrow> t p = Some (DatabaseFile y) \<Longrightarrow> Y y \<Longrightarrow> I t"
    and g: "\<And>x y. X x \<Longrightarrow> g x = Inr y \<Longrightarrow> Y y"
    and E: "\<And>t x. R t \<Longrightarrow> t p = Some (DatabaseFile x) \<Longrightarrow> X x \<or> Y x \<Longrightarrow> E t"
  shows "safe I (\<lambda>t. R t \<and> (\<exists>x. X x \<and> t p = Some (DatabaseFile x))) (transact F e p g)
    (\<lambda>_ t. R t \<and> (\<exists>y. Y y \<and> t p = Some (DatabaseFile y))) E"
proof -
  let ?A = "\<lambda>x t. R t \<and> X x \<and> t p = Some (DatabaseFile x)"
  have look: "safe I (\<lambda>t. R t \<and> (\<exists>x. X x \<and> t p = Some (DatabaseFile x))) (ask (snapshot_at p)) (\<lambda>found t. \<exists>x. ?A x t \<and> found = Some x) E"
    by (rule safe_ask) (auto simp: snapshot_at_def)
  have load: "safe I (\<lambda>t. \<exists>x. ?A x t \<and> found = Some x) (lift (of_opt e found)) (\<lambda>x t. ?A x t) E" for found
    by (rule safe_lift) (use E in \<open>auto simp: of_opt_def\<close>)
  have calc: "safe I (?A x) (lift (g x)) (\<lambda>y t. ?A x t \<and> Y y) E" for x
    by (rule safe_lift) (use g E in auto)
  have sql: "safe I (\<lambda>t. ?A x t \<and> Y y) (sql_op F e (\<lambda>t. t(p := Some (DatabaseFile y))))
      (\<lambda>_ t. R t \<and> (\<exists>y. Y y \<and> t p = Some (DatabaseFile y))) E" for x y
    by (rule safe_sql_op) (use frame I E in auto)
  show ?thesis unfolding transact_def
    by (rule safe_andthen[OF look], rule safe_andthen[OF load], rule safe_andthen[OF calc], rule sql)
qed

lemma safe_pure: "(c \<Longrightarrow> safe I P m Q E) \<Longrightarrow> safe I (\<lambda>t. P t \<and> c) m Q E"
  by (auto simp: safe_def)

lemma schema_exact:
  assumes frame: "\<And>t x. R t \<Longrightarrow> R (t(p := x))"
    and I: "\<And>t x. R t \<Longrightarrow> t p = Some (DatabaseFile x) \<Longrightarrow> brought_up q s x \<Longrightarrow> I t"
  shows "safe I (\<lambda>t. R t \<and> t p = Some (DatabaseFile s)) (initializeSchema F q p)
    (\<lambda>_ t. R t \<and> (\<exists>x. brought_up q s x \<and> t p = Some (DatabaseFile x))) (\<lambda>t. R t \<and> (\<exists>x. brought_up q s x \<and> t p = Some (DatabaseFile x)))"
proof -
  let ?A = "\<lambda>t. R t \<and> t p = Some (DatabaseFile s)" and ?B = "\<lambda>t. R t \<and> (\<exists>x. brought_up q s x \<and> t p = Some (DatabaseFile x))"
  have s: "brought_up q s s" by (simp add: brought_up_def)
  have step: "safe I ?A (file_op F e id) (\<lambda>_. ?A) ?B" for e by (rule safe_id) (use s in auto)
  have look: "safe I ?A (ask (snapshot_at p)) (\<lambda>found t. ?A t \<and> found = Some s) ?B" by (rule safe_ask) (auto simp: snapshot_at_def)
  have load: "safe I (\<lambda>t. ?A t \<and> found = Some s) (lift (of_opt e found)) (\<lambda>x t. ?A t \<and> x = s) ?B" for e found
    by (rule safe_lift) (use s in \<open>auto simp: of_opt_def\<close>)
  have meta: "safe I ?A (probe F (\<lambda>_. v)) (\<lambda>b t. ?A t \<and> (b = Failed \<or> b = lookup_of v)) ?B" for v :: "string option" by (rule safe_probe) auto
  have free: "safe I ?A (lift r) (\<lambda>_. ?A) ?B" "safe I ?A (lift r) (\<lambda>_. ?B) ?B" for r :: "string + unit"
    by (rule safe_lift; use s in auto)+
  have migrate: "safe I ?A (andthen (lift r) (\<lambda>_. transact F e p (sq_migrate q))) (\<lambda>_. ?B) ?B"
    if "\<not> schema_current s" "sn_migrations s \<noteq> []" for e and r :: "string + unit"
  proof -
    have up: "brought_up q s y" if "sq_migrate q s = Inr y" for y using that \<open>\<not> schema_current s\<close> \<open>sn_migrations s \<noteq> []\<close> by (simp add: brought_up_def)
    have "safe I ?A (transact F e p (sq_migrate q)) (\<lambda>_. ?B) ?B"
      by (rule safe_conseq[OF transact_exact[where X = "\<lambda>x. x = s" and Y = "brought_up q s" and R = R and I = I and E = ?B]]) (use frame I up s in auto)
    then show ?thesis by (rule safe_andthen[OF free(1)])
  qed
  have create: "safe I ?A (andthen (transact F e p (sq_baseline q)) (\<lambda>_. transact F e' p (sq_migrate q))) (\<lambda>_. ?B) ?B"
    if "sn_migrations s = []" for e e'
  proof -
    let ?Y = "\<lambda>y. sq_baseline q s = Inr y"
    have up: "brought_up q s y" if "?Y y \<or> (\<exists>z. ?Y z \<and> sq_migrate q z = Inr y)" for y
      using that \<open>sn_migrations s = []\<close> by (auto simp: brought_up_def schema_current_def)
    have one: "safe I ?A (transact F e p (sq_baseline q)) (\<lambda>_ t. R t \<and> (\<exists>y. ?Y y \<and> t p = Some (DatabaseFile y))) ?B"
      by (rule safe_conseq[OF transact_exact[where X = "\<lambda>x. x = s" and Y = ?Y and R = R and I = I and E = ?B]]) (use frame I up s in auto)
    have two: "safe I (\<lambda>t. R t \<and> (\<exists>y. ?Y y \<and> t p = Some (DatabaseFile y))) (transact F e' p (sq_migrate q)) (\<lambda>_. ?B) ?B"
      by (rule safe_conseq[OF transact_exact[where X = ?Y and Y = "brought_up q s" and R = R and I = I and E = ?B]]) (use frame I up in auto)
    show ?thesis by (rule safe_andthen[OF one two])
  qed
  have stale: "\<not> schema_current s" if "metadata_of baselineKey s \<noteq> Some factsSchemaBaselineID" using that by (simp add: schema_current_def)
  show ?thesis unfolding initializeSchema_def
  proof (intro safe_andthen[OF step] safe_andthen[OF look] safe_andthen[OF load], goal_cases)
    case (1 x xa found s')
    show ?case
    proof (cases "s' = s")
      case True
      show ?thesis unfolding True Let_def
      proof (rule safe_conseq[where P' = ?A and Q' = "\<lambda>_. ?B" and E' = ?B], cases "sn_migrations s = []", goal_cases)
        case 1
        then show ?case using create by simp
      next
        case 2
        have body: "safe I ?A (case b of
            Found b \<Rightarrow> if c then lift r1 else if b = factsSchemaBaselineID then lift r2
              else if b = schemaBaselineID \<or> b = preGASchemaBaselineID then andthen (lift r3) (\<lambda>_. transact F e p (sq_migrate q)) else lift r4
          | _ \<Rightarrow> lift r5) (\<lambda>_. ?B) ?B" if "b = Failed \<or> b = lookup_of (metadata_of baselineKey s)"
          for b c e and r1 r2 r3 r4 r5 :: "string + unit"
        proof (cases b)
          case (Found v)
          then have "metadata_of baselineKey s = Some v" using that by (cases "metadata_of baselineKey s") auto
          then show ?thesis unfolding Found lookup.case
            using 2 stale by (intro safe_If free(2) migrate) auto
        qed (simp_all only: lookup.case free(2))
        show ?case unfolding if_P[OF 2[unfolded length_0_conv[symmetric]]]
          by (rule safe_andthen[OF meta], rule safe_pure, rule body)
      qed auto
    qed (auto intro!: safe_absurd)
  qed
qed

text \<open>What the metadata transaction of a restore leaves.\<close>

definition stamped :: "string \<Rightarrow> string \<Rightarrow> string \<Rightarrow> snapshot \<Rightarrow> snapshot" where
  "stamped credential pending generation s =
    put_metadata restorePendingKey pending (put_metadata digestKey (digestString credential) (set_metadata generationKey generation s))"

lemma stamped_simps [simp]:
  "metadata_of restorePendingKey (stamped c p g s) = Some p" "metadata_of digestKey (stamped c p g s) = Some (digestString c)"
  "metadata_of generationKey (stamped c p g s) = map_option (\<lambda>_. g) (metadata_of generationKey s)"
  "sn_data (stamped c p g s) = sn_data s" "sn_migrations (stamped c p g s) = sn_migrations s"
  by (simp_all add: stamped_def)

lemma prepare_steps:
  assumes init: "safe I P (initializeSchema F q p) (\<lambda>_. U) E"
    and stamp: "\<And>t s g. U t \<Longrightarrow> I t \<Longrightarrow> snapshot_at p t = Some s \<Longrightarrow>
      (let t' = t(p := Some (DatabaseFile (stamped credential (if pending then ''1'' else ''0'') g s))) in I t' \<and> Q g t' \<and> E t')"
    and none: "\<And>t g. U t \<Longrightarrow> I t \<Longrightarrow> snapshot_at p t = None \<Longrightarrow> Q g t" and err: "\<And>t. P t \<Longrightarrow> I t \<Longrightarrow> E t" "\<And>t. U t \<Longrightarrow> I t \<Longrightarrow> E t"
    and good: "\<And>t g. Q g t \<Longrightarrow> I t \<Longrightarrow> E t"
  shows "safe I P (prepareRestoredDatabase F q p credential random pending) (\<lambda>(_, g, _). Q g) E"
proof -
  have step: "safe I P (file_op F e id) (\<lambda>_. P) E" for e by (rule safe_id) (use err in auto)
  have look: "safe I P (ask f) (\<lambda>_. P) E" for f :: "dir \<Rightarrow> string option" by (rule safe_ask)
  have load: "safe I P (lift r) (\<lambda>_. P) E" for r :: "string + string" by (rule safe_lift) (use err in auto)
  have pick: "safe I U (lift r) (\<lambda>_. U) E" for r :: "string + string \<times> string" by (rule safe_lift) (use err in auto)
  have sql: "safe I U (sql_op F e (update_file p (\<lambda>s. put_metadata restorePendingKey (if pending then ''1'' else ''0'')
      (put_metadata digestKey (digestString credential) (set_metadata generationKey g s))))) (\<lambda>_. Q g) E" for e g
  proof (rule safe_sql_op, goal_cases)
    case (1 t)
    then show ?case using stamp[OF 1] none[OF 1] good err
      by (cases "snapshot_at p t") (auto simp: update_file_none update_file_snapshot stamped_def Let_def)
  qed (use err in auto)
  have check: "safe I (Q g) (file_op F e id) (\<lambda>_. Q g) E" for e g by (rule safe_id) (use good in auto)
  have out: "safe I (Q g) (give (s, g, r)) (\<lambda>(_, g, _). Q g) E" for s g r by (rule safe_give) auto
  show ?thesis unfolding prepareRestoredDatabase_def
    by (intro safe_andthen[OF step] safe_andthen[OF look] safe_andthen[OF load] safe_andthen[OF init] safe_andthen[OF pick])
       (simp only: case_prod_beta, intro safe_andthen[OF sql] safe_andthen[OF check] out)
qed

lemma prepare_safe:
  assumes schema: "\<And>t s s'. P t \<Longrightarrow> I t \<Longrightarrow> snapshot_at p t = Some s \<Longrightarrow> \<not> schema_current s \<Longrightarrow>
      P (t(p := Some (DatabaseFile s'))) \<and> I (t(p := Some (DatabaseFile s')))"
    and stamp: "\<And>t s g. P t \<Longrightarrow> I t \<Longrightarrow> snapshot_at p t = Some s \<Longrightarrow>
      (let t' = t(p := Some (DatabaseFile (stamped credential (if pending then ''1'' else ''0'') g s))) in I t' \<and> Q g t' \<and> E t')"
    and none: "\<And>t g. P t \<Longrightarrow> I t \<Longrightarrow> snapshot_at p t = None \<Longrightarrow> Q g t" and err: "\<And>t. P t \<Longrightarrow> I t \<Longrightarrow> E t" and good: "\<And>t g. Q g t \<Longrightarrow> I t \<Longrightarrow> E t"
  shows "safe I P (prepareRestoredDatabase F q p credential random pending) (\<lambda>(_, g, _). Q g) E"
proof (rule prepare_steps[OF _ stamp none err err good])
  show "safe I P (initializeSchema F q p) (\<lambda>_. P) E"
    by (rule safe_conseq[OF schema_safe[of P I p]]) (use schema err in blast)+
qed

lemma rollback_snapshot_safe:
  assumes free: "\<And>t x. P t \<Longrightarrow> I t \<Longrightarrow> P (t(RollbackDatabaseFilename := x)) \<and> I (t(RollbackDatabaseFilename := x))"
    and live: "\<And>t. P t \<Longrightarrow> t DatabaseFilename = live"
  shows "safe I (\<lambda>t. P t \<and> t RollbackDatabaseFilename = None) (createRollbackSnapshot F q)
    (\<lambda>created t. P t \<and> t RollbackDatabaseFilename = live \<and> (created \<longleftrightarrow> live \<noteq> None)) P"
proof -
  let ?N = "\<lambda>t. P t \<and> t RollbackDatabaseFilename = None" and ?C = "\<lambda>t. P t \<and> t RollbackDatabaseFilename = live \<and> live \<noteq> None"
  have req: "safe I ?N (requireRegularOrAbsent F e p) (\<lambda>_. ?N) P" for e p by (rule safe_require) auto
  have step: "safe I ?N (file_op F e id) (\<lambda>_. ?N) P" for e by (rule safe_id) auto
  have look: "safe I ?N (ask (\<lambda>t. t DatabaseFilename)) (\<lambda>c t. ?N t \<and> c = live) P" by (rule safe_ask) (use live in auto)
  have copy: "safe I ?N (ask (snapshot_at DatabaseFilename)) (\<lambda>found t. ?N t \<and> (found \<noteq> None \<longrightarrow> live = Some (DatabaseFile (the found)))) P"
    by (rule safe_ask) (use live in \<open>auto simp: snapshot_at_def split: option.splits disk_file.splits\<close>)
  have load: "safe I (\<lambda>t. ?N t \<and> (found \<noteq> None \<longrightarrow> live = Some (DatabaseFile (the found)))) (lift (of_opt e found))
      (\<lambda>s t. P t \<and> live = Some (DatabaseFile s)) P" for e found
    by (rule safe_lift) (auto simp: of_opt_def split: option.splits)
  have torn: "safe I (\<lambda>t. P t \<and> live = Some (DatabaseFile s)) (file_op F e (\<lambda>t. t(RollbackDatabaseFilename := x))) (\<lambda>_ t. P t \<and> live = Some (DatabaseFile s)) P" for e s x
    by (rule safe_file_op) (use free in auto)
  have full: "safe I (\<lambda>t. P t \<and> live = Some (DatabaseFile s)) (file_op F e (\<lambda>t. t(RollbackDatabaseFilename := Some (DatabaseFile s)))) (\<lambda>_. ?C) P" for e s
    by (rule safe_file_op) (use free in auto)
  have touch: "safe I ?C (file_op F e id) (\<lambda>_. ?C) P" for e by (rule safe_id) auto
  have verify: "safe I ?C (verifySQLiteFile F q e p) (\<lambda>_. ?C) P" for e p by (rule safe_conseq[OF verify_safe[of I ?C]]) auto
  have out: "safe I ?C (give True) (\<lambda>c t. P t \<and> t RollbackDatabaseFilename = live \<and> (c \<longleftrightarrow> live \<noteq> None)) P" by (rule safe_give) auto
  have absent: "safe I (\<lambda>t. ?N t \<and> None = live) (give False) (\<lambda>c t. P t \<and> t RollbackDatabaseFilename = live \<and> (c \<longleftrightarrow> live \<noteq> None)) P"
    by (rule safe_give) auto
  have remove: "safe I P (file_op F e (\<lambda>t. t(RollbackDatabaseFilename := None))) (\<lambda>_. P) P" for e by (rule safe_file_op) (use free in auto)
  have main: "safe I ?N m Q' P \<Longrightarrow> safe I (\<lambda>t. ?N t \<and> c = live) m Q' P" for c and m :: "bool act" and Q' by (rule safe_conseq[where P' = ?N]) auto
  show ?thesis unfolding createRollbackSnapshot_def
  proof (intro safe_andthen[OF req] safe_andthen[OF step] safe_andthen[OF look], goal_cases)
    case (1 x xa c)
    show ?case
    proof (cases "c = None")
      case False
      show ?thesis unfolding if_not_P[OF False]
        by (rule main, rule safe_andthen[OF step], rule safe_on_error[OF _ remove], rule safe_andthen[OF copy], rule safe_andthen[OF load],
            rule safe_andthen[OF torn], rule safe_andthen[OF full], rule safe_andthen[OF touch], rule safe_andthen[OF touch],
            rule safe_andthen[OF verify], rule safe_andthen[OF touch], rule safe_andthen[OF touch], rule safe_andthen[OF touch], rule out)
    qed (use absent in simp)
  qed
qed

text \<open>The credential file holds the given credential.\<close>

definition authorised :: "string \<Rightarrow> dir \<Rightarrow> bool" where
  "authorised credential t \<longleftrightarrow> (\<exists>c. token_at t = Some c \<and> (trim_space c = credential \<or> c = credential @ [CHR 0x0A]))"

lemma install_safe:
  assumes free: "\<And>t x sfx. P t \<Longrightarrow> I t \<Longrightarrow> P (t(restore_file sfx := x)) \<and> I (t(restore_file sfx := x))"
    and token: "\<And>t x. P t \<Longrightarrow> I t \<Longrightarrow> P (t(ManagementCredentialFile := x)) \<and> I (t(ManagementCredentialFile := x))"
  shows "safe I P (installManagementCredential F credential random) (\<lambda>_ t. P t \<and> authorised credential t) P"
proof -
  have req: "safe I P (requireRegularOrAbsent F e p) (\<lambda>_. P) P" for e p by (rule safe_require) auto
  have look: "safe I P (probe F token_at) (\<lambda>c t. P t \<and> (\<forall>v. c = Found v \<longrightarrow> token_at t = Some v)) P"
    by (rule safe_probe) (auto, metis lookup.distinct(3) lookup.inject lookup_of.elims lookup.distinct(1))
  have here: "safe I (\<lambda>t. P t \<and> token_at t = Some c) (lift (guard (trim_space c = credential) e)) (\<lambda>_ t. P t \<and> authorised credential t) P" for c e
    by (rule safe_lift) (auto simp: guard_def authorised_def split: if_splits)
  have touch: "safe I (\<lambda>t. P t \<and> R t) (file_op F e id) (\<lambda>_ t. P t \<and> R t) P" for e R by (rule safe_id) auto
  have pick: "safe I P (lift r) (\<lambda>_. P) P" for r :: "string + string \<times> string" by (rule safe_lift) auto
  have ok: "safe I P (lift r) (\<lambda>_. P) P" for r :: "string + unit" by (rule safe_lift) auto
  have fresh: "safe I P (ask g) (\<lambda>_. P) P" for g :: "dir \<Rightarrow> disk_file option" by (rule safe_ask)
  have create: "safe I P (file_op F e (\<lambda>t. t(restore_file sfx := x))) (\<lambda>_. P) P" for e sfx x by (rule safe_file_op) (use free in auto)
  have fill: "safe I P (file_op F e (\<lambda>t. t(restore_file sfx := x))) (\<lambda>_ t. P t \<and> t (restore_file sfx) = x) P" for e sfx x
    by (rule safe_file_op) (use free in auto)
  have rename: "safe I (\<lambda>t. P t \<and> t (restore_file sfx) = Some (TokenFile (credential @ [CHR 0x0A])))
      (file_op F e (\<lambda>t. t(ManagementCredentialFile := t (restore_file sfx), restore_file sfx := None))) (\<lambda>_ t. P t \<and> authorised credential t) P" for e sfx
    by (rule safe_file_op) (use free token in \<open>auto simp: authorised_def\<close>)
  show ?thesis unfolding installManagementCredential_def
  proof (intro safe_andthen[OF req] safe_andthen[OF look], goal_cases)
    case (1 x c)
    show ?case
    proof (cases c)
      case (Found v)
      show ?thesis unfolding Found lookup.case
        by (rule safe_conseq[OF safe_andthen[OF here touch], where P = "\<lambda>t. P t \<and> _ t"]) auto
    next
      case Failed
      show ?thesis unfolding Failed lookup.case by (rule safe_lift) auto
    next
      case Missing
      show ?thesis unfolding Missing lookup.case
        by (rule safe_conseq[where P' = P], rule safe_andthen[OF pick], simp only: case_prod_beta,
            rule safe_andthen[OF fresh], rule safe_andthen[OF ok], rule safe_andthen[OF create], rule safe_on_error[OF _ create],
            rule safe_andthen[OF fill], rule safe_andthen[OF touch], rule safe_andthen[OF touch], rule rename)
           auto
    qed
  qed
qed

lemma sidecars_safe:
  assumes "\<And>t x. P t \<Longrightarrow> I t \<Longrightarrow> P (t(''memory.db-wal'' := x)) \<and> I (t(''memory.db-wal'' := x))"
    and "\<And>t x. P t \<Longrightarrow> I t \<Longrightarrow> P (t(''memory.db-shm'' := x)) \<and> I (t(''memory.db-shm'' := x))"
  shows "safe I P (remove_sidecars F) (\<lambda>_. P) P"
  unfolding remove_sidecars_def by (rule safe_andthen[where R = "\<lambda>_. P"]; rule safe_file_op) (use assms in blast)+

section \<open>Restore\<close>

text \<open>
  The restored database is live: it is sound and awaits the commit, it is bound to the credential in
  the file, and the rollback image is the database it replaced.
\<close>

definition restored :: "engine \<Rightarrow> string \<Rightarrow> disk_file option \<Rightarrow> dir \<Rightarrow> bool" where
  "restored q credential live t \<longleftrightarrow> (\<exists>s. t DatabaseFilename = Some (DatabaseFile s) \<and> sq_sound q s \<and>
     metadata_of restorePendingKey s = Some ''1'' \<and> metadata_of digestKey s = Some (digestString credential) \<and>
     t RollbackDatabaseFilename = live \<and> authorised credential t)"

lemma restore_staged_safe:
  defines "keep live t \<equiv> t DatabaseFilename = live"
  shows "safe (\<lambda>t. keep live t \<or> restored q credential live t) (\<lambda>t. keep live t \<and> t RollbackDatabaseFilename = None)
    (restore_staged F q (staged_file sfx) credential content random) (\<lambda>(_, _, b) t. restored q credential live t \<and> b = (live \<noteq> None)) (keep live)"
proof -
  let ?p = "staged_file sfx" and ?I = "\<lambda>t. keep live t \<or> restored q credential live t"
  let ?B = "\<lambda>t. keep live t \<and> t RollbackDatabaseFilename = None"
  let ?S = "\<lambda>t. \<exists>s. snapshot_at ?p t = Some s \<and> metadata_of restorePendingKey s = Some ''1'' \<and> metadata_of digestKey s = Some (digestString credential)"
  let ?V = "\<lambda>t. \<exists>s. snapshot_at ?p t = Some s \<and> sq_sound q s \<and> metadata_of restorePendingKey s = Some ''1'' \<and> metadata_of digestKey s = Some (digestString credential)"
  let ?D = "\<lambda>t. keep live t \<and> ?V t"
  let ?G = "\<lambda>b t. ?D t \<and> t RollbackDatabaseFilename = live \<and> b = (live \<noteq> None)"
  have step: "safe ?I ?B (file_op F e (\<lambda>t. t(?p := x))) (\<lambda>_. ?B) (keep live)" "safe ?I ?B (file_op F e id) (\<lambda>_. ?B) (keep live)" for e x
    by (rule safe_file_op; auto simp: keep_def)+
  have verify: "safe ?I ?B (verifySQLiteFile F q e ?p) (\<lambda>_ t. ?B t \<and> snapshot_at ?p t \<noteq> None) (keep live)" for e
    by (rule safe_conseq[OF verify_safe[of ?I ?B]]) auto
  have prepare: "safe ?I (\<lambda>t. ?B t \<and> snapshot_at ?p t \<noteq> None) (prepareRestoredDatabase F q ?p credential random True) (\<lambda>(_, g, _). (\<lambda>t. ?B t \<and> ?S t)) (keep live)"
    by (rule prepare_safe) (auto simp: keep_def)
  have verify': "safe ?I (\<lambda>t. ?B t \<and> ?S t) (verifySQLiteFile F q e ?p) (\<lambda>_ t. ?D t \<and> t RollbackDatabaseFilename = None) (keep live)" for e
    by (rule safe_conseq[OF verify_safe[of ?I "\<lambda>t. ?B t \<and> ?S t"]]) auto
  have capture: "safe ?I (\<lambda>t. ?D t \<and> t RollbackDatabaseFilename = None) (createRollbackSnapshot F q) ?G (keep live)"
    by (rule safe_conseq[OF rollback_snapshot_safe[of ?D ?I live]]) (auto simp: keep_def)
  have token: "safe ?I (?G b) (installManagementCredential F credential r) (\<lambda>_ t. ?G b t \<and> authorised credential t) (keep live)" for r b
    by (rule safe_conseq[OF install_safe[of "?G b" ?I]]) (auto simp: keep_def)
  have undo: "safe ?I (keep live) (if b then file_op F e (\<lambda>t. t(RollbackDatabaseFilename := None)) else give ()) (\<lambda>_. keep live) (keep live)" for b e
    by (auto intro!: safe_file_op safe_give simp: keep_def)
  have sides: "safe ?I (\<lambda>t. ?G b t \<and> authorised credential t) (remove_sidecars F) (\<lambda>_ t. ?G b t \<and> authorised credential t) (keep live)" for b
    by (rule safe_conseq[OF sidecars_safe[of "\<lambda>t. ?G b t \<and> authorised credential t" ?I]]) (auto simp: keep_def authorised_def)
  have rename: "safe ?I (\<lambda>t. ?G b t \<and> authorised credential t) (file_op F e (\<lambda>t. t(DatabaseFilename := t ?p, ?p := None))) (\<lambda>_ t. restored q credential live t \<and> b = (live \<noteq> None)) (keep live)" for e b
    by (rule safe_file_op) (auto simp: restored_def authorised_def snapshot_at_iff)
  have out: "safe ?I (\<lambda>t. restored q credential live t \<and> b = (live \<noteq> None)) (give (x, y, b)) (\<lambda>(_, _, b) t. restored q credential live t \<and> b = (live \<noteq> None)) (keep live)"
    for x y :: string and b by (rule safe_give) auto
  have clean: "safe ?I (keep live) (file_op F e (\<lambda>t. t(?p := None))) (\<lambda>_. keep live) (keep live)" for e by (rule safe_file_op) (auto simp: keep_def)
  show ?thesis unfolding restore_staged_def
    by (rule safe_on_error[OF _ clean], rule safe_andthen[OF step(1)], rule safe_andthen[OF step(2)], rule safe_andthen[OF step(2)],
        rule safe_andthen[OF verify], rule safe_andthen[OF prepare], simp only: case_prod_beta, rule safe_andthen[OF verify'],
        rule safe_andthen[OF capture], rule safe_andthen[OF safe_on_error[OF token undo]], rule safe_andthen[OF sides], rule safe_andthen[OF rename], rule out)
qed

lemma restore_safe:
  "safe (\<lambda>t. t DatabaseFilename = live \<or> restored q (trim_space managementCredential) live t) (\<lambda>t. t DatabaseFilename = live \<and> t RollbackDatabaseFilename = rollback)
    (Restore F q contended pid content managementCredential random)
    (\<lambda>r t. rollback = None \<and> restored q (trim_space managementCredential) live t \<and> RollbackAvailable r = (live \<noteq> None)) (\<lambda>_. True)"
proof -
  let ?c = "trim_space managementCredential" and ?A = "\<lambda>t. t DatabaseFilename = live \<and> t RollbackDatabaseFilename = rollback"
  let ?I = "\<lambda>t. t DatabaseFilename = live \<or> restored q ?c live t" and ?N = "\<lambda>t. t DatabaseFilename = live \<and> t RollbackDatabaseFilename = None \<and> rollback = None"
  let ?R = "\<lambda>b t. rollback = None \<and> restored q ?c live t \<and> b = (live \<noteq> None)"
  have ok: "safe ?I ?A (lift r) (\<lambda>_. ?A) (\<lambda>_. True)" for r :: "string + unit" by (rule safe_lift) auto
  have step: "safe ?I ?A (file_op F e id) (\<lambda>_. ?A) (\<lambda>_. True)" for e by (rule safe_id) auto
  have lock: "safe ?I ?A (acquireOwnerLock F contended pid) (\<lambda>_. ?A) (\<lambda>_. True)" by (rule safe_conseq[OF lock_safe[of ?A]]) auto
  have req: "safe ?I ?A (requireRegularOrAbsent F e p) (\<lambda>_. ?A) (\<lambda>_. True)" for e p by (rule safe_require) auto
  have look: "safe ?I ?A (ask (\<lambda>t. t RollbackDatabaseFilename)) (\<lambda>x t. ?A t \<and> x = rollback) (\<lambda>_. True)" by (rule safe_ask) auto
  have absent: "safe ?I (\<lambda>t. ?A t \<and> x = rollback) (lift (guard (x = None) e)) (\<lambda>_. ?N) (\<lambda>_. True)" for x e
    by (rule safe_lift) (auto simp: guard_def split: if_splits)
  have pick: "safe ?I ?N (lift r) (\<lambda>_. ?N) (\<lambda>_. True)" for r :: "string + string \<times> string" by (rule safe_lift) auto
  have fresh: "safe ?I ?N (ask g) (\<lambda>_. ?N) (\<lambda>_. True)" for g :: "dir \<Rightarrow> disk_file option" by (rule safe_ask)
  have free: "safe ?I ?N (lift r) (\<lambda>_. ?N) (\<lambda>_. True)" for r :: "string + unit" by (rule safe_lift) auto
  have create: "safe ?I ?N (file_op F e (\<lambda>t. t(staged_file sfx := x))) (\<lambda>_. ?N) (\<lambda>_. True)" for e sfx x by (rule safe_file_op) auto
  have staged: "safe ?I ?N (restore_staged F q (staged_file sfx) ?c content r) (\<lambda>(_, _, b). ?R b) (\<lambda>_. True)" for sfx r
  proof (cases "rollback = None")
    case True
    show ?thesis by (rule safe_conseq[OF restore_staged_safe[of live]]) (use True in auto)
  qed (auto intro: safe_absurd)
  have touch: "safe ?I (?R b) (file_op F e id) (\<lambda>_. ?R b) (\<lambda>_. True)" for e b by (rule safe_id) auto
  have sync: "safe ?I (?R b) (syncDirectory F) (\<lambda>_. ?R b) (\<lambda>_. True)" for b by (rule safe_syncDirectory) auto
  have out: "safe ?I (?R b) (give \<lparr>SourceGeneration = x, StorageGeneration = y, SchemaVersion = v, RollbackAvailable = b, RollbackPath = z\<rparr>)
      (\<lambda>r t. rollback = None \<and> restored q ?c live t \<and> RollbackAvailable r = (live \<noteq> None)) (\<lambda>_. True)" for x y v b z by (rule safe_give) auto
  show ?thesis unfolding Restore_def Let_def
    by (rule safe_andthen[OF ok], rule safe_andthen[OF step], rule safe_andthen[OF step], rule safe_andthen[OF lock], rule safe_andthen[OF req],
        rule safe_andthen[OF step], rule safe_andthen[OF look], rule safe_andthen[OF absent], rule safe_andthen[OF pick], simp only: case_prod_beta,
        rule safe_andthen[OF fresh], rule safe_andthen[OF free], rule safe_andthen[OF create], rule safe_andthen[OF staged], simp only: case_prod_beta,
        rule safe_andthen[OF touch], rule safe_andthen[OF sync], rule out)
qed

text \<open>
  Claim C29. Restore replaces the live database atomically: stop it after any call, with any faults,
  and the live database is the file that was there before, or it is a verified restored database that
  refuses mutations until it is committed, bound to the credential in the credential file, beside a
  rollback image equal to the database it replaced. Success means the second, and the result tells
  whether there is a database to roll back to.
\<close>

theorem restore_crash_safe:
  assumes "Restore F q contended pid content managementCredential random (boot t) = (r, w)"
  shows "(\<forall>t' \<in> set (wd_dir w # wd_trace w).
      t' DatabaseFilename = t DatabaseFilename \<or> restored q (trim_space managementCredential) (t DatabaseFilename) t') \<and>
    (\<forall>x. r = Inr x \<longrightarrow> t RollbackDatabaseFilename = None \<and> restored q (trim_space managementCredential) (t DatabaseFilename) (wd_dir w) \<and>
      RollbackAvailable x = (t DatabaseFilename \<noteq> None))"
proof -
  note run = safeD[OF restore_safe[of "t DatabaseFilename" q managementCredential "t RollbackDatabaseFilename" F contended pid content random], of "boot t",
      unfolded assms fst_conv snd_conv]
  show ?thesis using run by (auto simp: boot_def list_all_iff)
qed

section \<open>Upgrade preparation\<close>

text \<open>The barrier is up, and the rollback image is the exact database before it.\<close>

definition awaiting :: "snapshot \<Rightarrow> dir \<Rightarrow> bool" where
  "awaiting s t \<longleftrightarrow> t DatabaseFilename = Some (DatabaseFile (put_metadata restorePendingKey ''1'' s)) \<and>
     t RollbackDatabaseFilename = Some (DatabaseFile s)"

abbreviation unmarked :: "snapshot \<Rightarrow> dir \<Rightarrow> bool" where
  "unmarked s t \<equiv> t DatabaseFilename = Some (DatabaseFile s)"

lemma upgrade_capture_safe:
  "safe (\<lambda>t. unmarked s t \<or> awaiting s t) (\<lambda>t. unmarked s t \<and> (\<not> exists \<longrightarrow> t RollbackDatabaseFilename = None))
    (upgrade_capture F q generation version exists) (\<lambda>_. awaiting s) (\<lambda>_. True)"
proof -
  let ?I = "\<lambda>t. unmarked s t \<or> awaiting s t" and ?A = "\<lambda>t. unmarked s t \<and> (\<not> exists \<longrightarrow> t RollbackDatabaseFilename = None)"
  let ?N = "\<lambda>t. unmarked s t \<and> t RollbackDatabaseFilename = None" and ?C = "\<lambda>t. unmarked s t \<and> t RollbackDatabaseFilename = Some (DatabaseFile s)"
  have remove: "safe ?I ?A (file_op F e (\<lambda>t. t(RollbackDatabaseFilename := None))) (\<lambda>_. ?N) (\<lambda>_. True)" for e by (rule safe_file_op) auto
  have sync: "safe ?I ?N (syncDirectory F) (\<lambda>_. ?N) (\<lambda>_. True)" by (rule safe_syncDirectory) auto
  have clear: "safe ?I ?A (if exists then andthen (file_op F e (\<lambda>t. t(RollbackDatabaseFilename := None))) (\<lambda>_. syncDirectory F) else give ()) (\<lambda>_. ?N) (\<lambda>_. True)" for e
    by (rule safe_If, rule safe_andthen[OF remove], rule sync, rule safe_give) auto
  have capture: "safe ?I ?N (createRollbackSnapshot F q) (\<lambda>_. ?C) (\<lambda>_. True)"
    by (rule safe_conseq[OF rollback_snapshot_safe[of "unmarked s" ?I "Some (DatabaseFile s)"]]) auto
  have ok: "safe ?I ?C (lift r) (\<lambda>_. ?C) (\<lambda>_. True)" for r :: "string + unit" by (rule safe_lift) auto
  have undo: "safe ?I (unmarked s) (file_op F e (\<lambda>t. t(RollbackDatabaseFilename := None))) (\<lambda>_ _. True) (\<lambda>_. True)" for e by (rule safe_file_op) auto
  have durable: "safe ?I ?C (on_error (syncDirectory F) (file_op F e (\<lambda>t. t(RollbackDatabaseFilename := None)))) (\<lambda>_. ?C) (\<lambda>_. True)" for e
    by (rule safe_on_error[OF safe_syncDirectory undo]) auto
  have reopened: "safe ?I ?C (on_error (file_op F e id) (file_op F e' (\<lambda>t. t(RollbackDatabaseFilename := None)))) (\<lambda>_. ?C) (\<lambda>_. True)" for e e'
    by (rule safe_on_error[OF safe_id undo]) auto
  have mark: "safe ?I ?C (sql_op F e (update_database (put_metadata restorePendingKey ''1''))) (\<lambda>_. awaiting s) (\<lambda>_. True)" for e
    by (rule safe_sql_op) (auto simp: awaiting_def update_database_self)
  have touch: "safe ?I (awaiting s) (file_op F e id) (\<lambda>_. awaiting s) (\<lambda>_. True)" for e by (rule safe_id) auto
  have sync': "safe ?I (awaiting s) (syncDirectory F) (\<lambda>_. awaiting s) (\<lambda>_. True)" by (rule safe_syncDirectory) auto
  have out: "safe ?I (awaiting s) (give r) (\<lambda>_. awaiting s) (\<lambda>_. True)" for r :: RestoreResult by (rule safe_give)
  show ?thesis unfolding upgrade_capture_def
    by (rule safe_andthen[OF clear], rule safe_andthen[OF capture], rule safe_andthen[OF ok], rule safe_andthen[OF durable], rule safe_andthen[OF reopened],
        rule safe_andthen[OF mark], rule safe_andthen[OF touch], rule safe_andthen[OF touch], rule safe_andthen[OF sync'], rule out)
qed

text \<open>A generation that is pending already is left alone, and accepted only with its own rollback image.\<close>

definition resumable :: "snapshot \<Rightarrow> disk_file option \<Rightarrow> dir \<Rightarrow> bool" where
  "resumable s rollback t \<longleftrightarrow> unmarked s t \<and> t RollbackDatabaseFilename = rollback \<and>
     (\<exists>s0. rollback = Some (DatabaseFile s0) \<and> metadata_of generationKey s0 = metadata_of generationKey s)"

lemma upgrade_resume_safe:
  assumes "metadata_of generationKey s = Some generation"
  shows "safe (\<lambda>t. unmarked s t \<or> awaiting s t) (\<lambda>t. unmarked s t \<and> t RollbackDatabaseFilename = rollback)
    (upgrade_resume F q generation version exists) (\<lambda>_. resumable s rollback) (\<lambda>_. True)"
proof -
  let ?I = "\<lambda>t. unmarked s t \<or> awaiting s t" and ?A = "\<lambda>t. unmarked s t \<and> t RollbackDatabaseFilename = rollback"
  let ?f = "\<lambda>t. Option.bind (snapshot_at RollbackDatabaseFilename t) (metadata_of generationKey)"
  have ok: "safe ?I ?A (lift r) (\<lambda>_. ?A) (\<lambda>_. True)" for r :: "string + unit" by (rule safe_lift) auto
  have verify: "safe ?I ?A (verifySQLiteFile F q e p) (\<lambda>_. ?A) (\<lambda>_. True)" for e p by (rule safe_conseq[OF verify_safe[of ?I ?A]]) auto
  have step: "safe ?I ?A (file_op F e id) (\<lambda>_. ?A) (\<lambda>_. True)" for e by (rule safe_id) auto
  have look: "safe ?I ?A (ask ?f) (\<lambda>x t. ?A t \<and> x = ?f t) (\<lambda>_. True)" by (rule safe_ask) auto
  have load: "safe ?I (\<lambda>t. ?A t \<and> x = ?f t) (lift (of_opt e x)) (\<lambda>g t. ?A t \<and> ?f t = Some g) (\<lambda>_. True)" for e x
    by (rule safe_lift) (auto simp: of_opt_def split: option.splits)
  have touch: "safe ?I (\<lambda>t. ?A t \<and> ?f t = Some g) (file_op F e id) (\<lambda>_ t. ?A t \<and> ?f t = Some g) (\<lambda>_. True)" for e g by (rule safe_id) auto
  have same: "safe ?I (\<lambda>t. ?A t \<and> ?f t = Some g) (lift (guard (g = generation) e)) (\<lambda>_. resumable s rollback) (\<lambda>_. True)" for e g
    by (rule safe_lift) (use assms in \<open>auto simp: guard_def resumable_def bind_eq_Some_conv snapshot_at_iff split: if_splits\<close>)
  have out: "safe ?I (resumable s rollback) (give r) (\<lambda>_. resumable s rollback) (\<lambda>_. True)" for r :: RestoreResult by (rule safe_give)
  show ?thesis unfolding upgrade_resume_def
    by (rule safe_andthen[OF ok], rule safe_andthen[OF verify], rule safe_andthen[OF step], rule safe_andthen[OF step], rule safe_andthen[OF look],
        rule safe_andthen[OF load], rule safe_andthen[OF touch], rule safe_andthen[OF same], rule out)
qed

lemma upgrade_safe:
  "safe (\<lambda>t. unmarked s t \<or> awaiting s t) (\<lambda>t. unmarked s t \<and> t RollbackDatabaseFilename = rollback)
    (PrepareUpgrade F q contended pid managementCredential)
    (\<lambda>_ t. metadata_of digestKey s = Some (digestString (trim_space managementCredential)) \<and>
      (if metadata_of restorePendingKey s = Some ''1'' then resumable s rollback t else awaiting s t)) (\<lambda>_. True)"
proof -
  let ?I = "\<lambda>t. unmarked s t \<or> awaiting s t" and ?A = "\<lambda>t. unmarked s t \<and> t RollbackDatabaseFilename = rollback"
  let ?c = "digestString (trim_space managementCredential)"
  let ?Q = "\<lambda>t. metadata_of digestKey s = Some ?c \<and> (if metadata_of restorePendingKey s = Some ''1'' then resumable s rollback t else awaiting s t)"
  define S where "S = (\<lambda>(g :: string, d, p, v :: nat) t. ?A t \<and> metadata_of generationKey s = Some g \<and> metadata_of digestKey s = Some d \<and>
    p = (case metadata_of restorePendingKey s of Some p \<Rightarrow> p | None \<Rightarrow> ''0''))"
  have ok: "safe ?I ?A (lift r) (\<lambda>_. ?A) (\<lambda>_. True)" for r :: "string + unit" by (rule safe_lift) auto
  have lock: "safe ?I ?A (acquireOwnerLock F contended pid) (\<lambda>_. ?A) (\<lambda>_. True)" by (rule safe_conseq[OF lock_safe[of ?A]]) (auto simp: awaiting_def)
  have req: "safe ?I ?A (requireRegularOrAbsent F e p) (\<lambda>_. ?A) (\<lambda>_. True)" for e p by (rule safe_require) auto
  have step: "safe ?I ?A (file_op F e id) (\<lambda>_. ?A) (\<lambda>_. True)" for e by (rule safe_id) auto
  have read: "safe ?I ?A (ask (\<lambda>t. t DatabaseFilename)) (\<lambda>_. ?A) (\<lambda>_. True)" by (rule safe_ask)
  have verify: "safe ?I ?A (verifySQLiteFile F q e p) (\<lambda>_. ?A) (\<lambda>_. True)" for e p by (rule safe_conseq[OF verify_safe[of ?I ?A]]) auto
  have look: "safe ?I ?A (ask (\<lambda>t. Option.bind (database_at t) upgrade_state)) (\<lambda>x t. ?A t \<and> x = upgrade_state s) (\<lambda>_. True)"
    by (rule safe_ask) (auto simp: database_at_def)
  have load: "safe ?I (\<lambda>t. ?A t \<and> x = upgrade_state s) (lift (of_opt e x)) S (\<lambda>_. True)" for e x
    by (rule safe_lift) (auto simp: S_def of_opt_def upgrade_state_def split: option.splits list.splits)
  have touch: "safe ?I (S x) (file_op F e id) (\<lambda>_. S x) (\<lambda>_. True)" for e x by (rule safe_id) auto
  have auth: "safe ?I (S (g, d, p, v)) (lift (guard (?c = d) e)) (\<lambda>_. S (g, ?c, p, v)) (\<lambda>_. True)" for g d p v e
    by (rule safe_lift) (auto simp: guard_def S_def split: if_splits)
  have there: "safe ?I (S x) (ask (\<lambda>t. t RollbackDatabaseFilename \<noteq> None)) (\<lambda>b t. S x t \<and> b = (rollback \<noteq> None)) (\<lambda>_. True)" for x by (rule safe_ask) (auto simp: S_def)
  have resume: "safe ?I (\<lambda>t. S (g, ?c, p, v) t \<and> b = (rollback \<noteq> None)) (upgrade_resume F q g v b) (\<lambda>_. ?Q) (\<lambda>_. True)" if "p = ''1''" for g p v b
  proof (cases "metadata_of generationKey s = Some g \<and> metadata_of digestKey s = Some ?c \<and> metadata_of restorePendingKey s = Some ''1''")
    case True
    show ?thesis by (rule safe_conseq[OF upgrade_resume_safe]) (use True in \<open>auto simp: S_def\<close>)
  qed (rule safe_absurd, use that in \<open>auto simp: S_def split: option.splits\<close>)
  have capture: "safe ?I (\<lambda>t. S (g, ?c, p, v) t \<and> b = (rollback \<noteq> None)) (andthen (lift (guard (p = ''0'') e)) (\<lambda>_. upgrade_capture F q g v b)) (\<lambda>_. ?Q) (\<lambda>_. True)"
    if "p \<noteq> ''1''" for g p v b e
  proof (cases "metadata_of digestKey s = Some ?c \<and> metadata_of restorePendingKey s \<noteq> Some ''1''")
    case True
    have "safe ?I (\<lambda>t. ?A t \<and> b = (rollback \<noteq> None)) (lift (guard (p = ''0'') e)) (\<lambda>_ t. ?A t \<and> b = (rollback \<noteq> None)) (\<lambda>_. True)" by (rule safe_lift) auto
    moreover have "safe ?I (\<lambda>t. ?A t \<and> b = (rollback \<noteq> None)) (upgrade_capture F q g v b) (\<lambda>_. ?Q) (\<lambda>_. True)"
      by (rule safe_conseq[OF upgrade_capture_safe]) (use True in auto)
    ultimately show ?thesis by (rule safe_conseq[OF safe_andthen]) (auto simp: S_def)
  qed (rule safe_absurd, use that in \<open>auto simp: S_def split: option.splits\<close>)
  have tail: "safe ?I (S x) (case x of (g, d, p, v) \<Rightarrow> f g d p v) Q' E'" if "\<And>g d p v. safe ?I (S (g, d, p, v)) (f g d p v) Q' E'" for x f and Q' :: "RestoreResult \<Rightarrow> dir \<Rightarrow> bool" and E'
    using that by (cases x) auto
  show ?thesis unfolding PrepareUpgrade_def Let_def
    by (rule safe_andthen[OF ok], rule safe_andthen[OF lock], rule safe_andthen[OF req], rule safe_andthen[OF req], rule safe_andthen[OF step],
        rule safe_andthen[OF read], rule safe_andthen[OF ok], rule safe_andthen[OF verify], rule safe_andthen[OF step], rule safe_andthen[OF step],
        rule safe_andthen[OF look], rule safe_andthen[OF load], rule tail, rule safe_andthen[OF touch],
        rule safe_andthen[OF auth], rule safe_andthen[OF touch], rule safe_andthen[OF there], rule safe_If, erule resume, erule capture)
qed

text \<open>
  Claim C30. Preparing an upgrade never endangers the database: stop it after any call, with any faults,
  and the live database is unchanged, or it differs only in the pending mark and the rollback image is
  the exact database from before. Success means that the caller holds the management credential and
  that the mark is up with that image; a generation that was pending already is left alone and
  accepted only with a rollback image of the same generation.
\<close>

theorem upgrade_crash_safe:
  assumes "t DatabaseFilename = Some (DatabaseFile s)" and "PrepareUpgrade F q contended pid managementCredential (boot t) = (r, w)"
  shows "(\<forall>t' \<in> set (wd_dir w # wd_trace w). t' DatabaseFilename = Some (DatabaseFile s) \<or> awaiting s t') \<and>
    (\<forall>x. r = Inr x \<longrightarrow> metadata_of digestKey s = Some (digestString (trim_space managementCredential)) \<and>
      (if metadata_of restorePendingKey s = Some ''1'' then resumable s (t RollbackDatabaseFilename) (wd_dir w) else awaiting s (wd_dir w)))"
proof -
  note run = safeD[OF upgrade_safe[of s "t RollbackDatabaseFilename" F q contended pid managementCredential], of "boot t", unfolded assms(2) fst_conv snd_conv]
  show ?thesis using run assms(1) by (auto simp: boot_def list_all_iff)
qed

section \<open>Rollback\<close>

text \<open>The data that the rollback image held, as far as its schema was brought up, is still in the image
  (\<open>kept\<close>), or it is live again (\<open>rolled_back\<close>).\<close>

definition same_content :: "snapshot \<Rightarrow> snapshot \<Rightarrow> bool" where
  "same_content s' s \<longleftrightarrow> sn_data s' = sn_data s \<and> sn_migrations s' = sn_migrations s"

definition kept :: "engine \<Rightarrow> snapshot \<Rightarrow> dir \<Rightarrow> bool" where
  "kept q s t \<longleftrightarrow> (\<exists>x s'. brought_up q s x \<and> t RollbackDatabaseFilename = Some (DatabaseFile s') \<and> same_content s' x)"

definition rolled_back :: "engine \<Rightarrow> snapshot \<Rightarrow> string \<Rightarrow> dir \<Rightarrow> bool" where
  "rolled_back q s credential t \<longleftrightarrow> (\<exists>x s'. brought_up q s x \<and> t DatabaseFilename = Some (DatabaseFile s') \<and> same_content s' x \<and>
     metadata_of restorePendingKey s' = Some ''0'' \<and> metadata_of digestKey s' = Some (digestString credential) \<and>
     t RollbackDatabaseFilename = None \<and> authorised credential t)"

lemma rollback_safe:
  "safe (\<lambda>t. t DatabaseFilename = live \<and> kept q s t \<or> rolled_back q s (trim_space managementCredential) t)
    (\<lambda>t. t DatabaseFilename = live \<and> t RollbackDatabaseFilename = Some (DatabaseFile s))
    (RollbackRestore F q contended pid managementCredential random) (\<lambda>_. rolled_back q s (trim_space managementCredential)) (\<lambda>_. True)"
proof -
  let ?c = "trim_space managementCredential" and ?A = "\<lambda>t. t DatabaseFilename = live \<and> t RollbackDatabaseFilename = Some (DatabaseFile s)"
  let ?I = "\<lambda>t. t DatabaseFilename = live \<and> kept q s t \<or> rolled_back q s (trim_space managementCredential) t"
  let ?U = "\<lambda>t. t DatabaseFilename = live \<and> (\<exists>x. brought_up q s x \<and> t RollbackDatabaseFilename = Some (DatabaseFile x))"
  let ?S = "\<lambda>t. \<exists>g x. brought_up q s x \<and> t DatabaseFilename = live \<and> t RollbackDatabaseFilename = Some (DatabaseFile (stamped ?c ''0'' g x))"
  let ?G = "\<lambda>t. ?S t \<and> authorised ?c t"
  have s: "brought_up q s s" by (simp add: brought_up_def)
  have same: "same_content x x" "same_content (stamped ?c ''0'' g x) x" for g x by (simp_all add: same_content_def)
  have kept: "kept q s t" if "?S t \<or> ?A t \<or> ?U t" for t using that s same unfolding kept_def by metis
  have ok: "safe ?I ?A (lift r) (\<lambda>_. ?A) (\<lambda>_. True)" for r :: "string + unit" by (rule safe_lift) auto
  have lock: "safe ?I ?A (acquireOwnerLock F contended pid) (\<lambda>_. ?A) (\<lambda>_. True)"
    by (rule safe_conseq[OF lock_safe[of ?A]]) (use kept in auto)
  have req: "safe ?I ?A (requireRegularOrAbsent F e p) (\<lambda>_. ?A) (\<lambda>_. True)" for e p by (rule safe_require) auto
  have step: "safe ?I ?A (file_op F e id) (\<lambda>_. ?A) (\<lambda>_. True)" for e by (rule safe_id) auto
  have look: "safe ?I ?A (ask g) (\<lambda>_. ?A) (\<lambda>_. True)" for g :: "dir \<Rightarrow> disk_file option" by (rule safe_ask)
  have verify: "safe ?I ?A (verifySQLiteFile F q e p) (\<lambda>_. ?A) (\<lambda>_. True)" for e p by (rule safe_conseq[OF verify_safe[of ?I ?A]]) auto
  have prepare: "safe ?I ?A (prepareRestoredDatabase F q RollbackDatabaseFilename ?c random False) (\<lambda>(_, g, _). ?S) (\<lambda>_. True)"
  proof (rule prepare_steps[where U = ?U])
    show "safe ?I ?A (initializeSchema F q RollbackDatabaseFilename) (\<lambda>_. ?U) (\<lambda>_. True)"
      by (rule safe_conseq[OF schema_exact[where R = "\<lambda>t. t DatabaseFilename = live" and s = s and q = q and I = ?I]]) (use kept in auto)
    show "let t' = t(RollbackDatabaseFilename := Some (DatabaseFile (stamped ?c (if False then ''1'' else ''0'') g s'))) in ?I t' \<and> ?S t' \<and> True"
      if "?U t" "snapshot_at RollbackDatabaseFilename t = Some s'" for t s' g
    proof -
      let ?t = "t(RollbackDatabaseFilename := Some (DatabaseFile (stamped ?c ''0'' g s')))"
      have "?S ?t" using that by (auto simp: snapshot_at_iff)
      with kept[of ?t] that show ?thesis by (simp add: Let_def)
    qed
  qed (auto simp: snapshot_at_def)
  have token: "safe ?I ?S (installManagementCredential F ?c r) (\<lambda>_. ?G) (\<lambda>_. True)" for r
    by (rule safe_conseq[OF install_safe[of ?S ?I]]) (use kept in auto)
  have sides: "safe ?I ?G (remove_sidecars F) (\<lambda>_. ?G) (\<lambda>_. True)"
    by (rule safe_conseq[OF sidecars_safe[of ?G ?I]]) (use kept in \<open>auto simp: authorised_def\<close>)
  have rename: "safe ?I ?G (file_op F e (\<lambda>t. t(DatabaseFilename := t RollbackDatabaseFilename, RollbackDatabaseFilename := None))) (\<lambda>_. rolled_back q s ?c) (\<lambda>_. True)" for e
    by (rule safe_file_op) (use same in \<open>auto simp: rolled_back_def authorised_def\<close>)
  have touch: "safe ?I (rolled_back q s ?c) (file_op F e id) (\<lambda>_. rolled_back q s ?c) (\<lambda>_. True)" for e by (rule safe_id) auto
  have sync: "safe ?I (rolled_back q s ?c) (syncDirectory F) (\<lambda>_. rolled_back q s ?c) (\<lambda>_. True)" by (rule safe_syncDirectory) auto
  have out: "safe ?I (rolled_back q s ?c) (give r) (\<lambda>_. rolled_back q s ?c) (\<lambda>_. True)" for r :: RestoreResult by (rule safe_give)
  show ?thesis unfolding RollbackRestore_def Let_def
    by (rule safe_andthen[OF ok], rule safe_andthen[OF lock], rule safe_andthen[OF req], rule safe_andthen[OF step], rule safe_andthen[OF look],
        rule safe_andthen[OF ok], rule safe_andthen[OF verify], rule safe_andthen[OF prepare], simp only: case_prod_beta, rule safe_andthen[OF token],
        rule safe_andthen[OF sides], rule safe_andthen[OF rename], rule safe_andthen[OF touch], rule safe_andthen[OF sync], rule out)
qed

text \<open>
  Claim C31. An upgrade can be undone. Prepare it from a live database that is not pending already, let
  the new release do whatever it likes to the live database and to every other file but the rollback
  image, then roll back, with any faults. In every state a failure can leave, the data from before the
  upgrade is in the rollback image or live again, and when the rollback succeeds it is live, accepts
  mutations and is bound to the credential. At the current schema baseline this is exactly the data of
  before; a database of a legacy schema is brought up by the same schema transactions that opening it
  would run, and is otherwise the data of before.
\<close>

theorem upgrade_rollback_roundtrip:
  assumes "t DatabaseFilename = Some (DatabaseFile s)" and "metadata_of restorePendingKey s \<noteq> Some ''1''"
    and "PrepareUpgrade F q contended pid managementCredential (boot t) = (Inr x, w)"
    and "t2 RollbackDatabaseFilename = wd_dir w RollbackDatabaseFilename"
    and "RollbackRestore F' q' contended' pid' credential' random (boot t2) = (r, w')"
  shows "(\<forall>t' \<in> set (wd_dir w' # wd_trace w').
      t' DatabaseFilename = t2 DatabaseFilename \<and> kept q' s t' \<or> rolled_back q' s (trim_space credential') t') \<and>
    (\<forall>y. r = Inr y \<longrightarrow> rolled_back q' s (trim_space credential') (wd_dir w') \<and>
      (schema_current s \<longrightarrow> (\<exists>s'. database_at (wd_dir w') = Some s' \<and> sn_data s' = sn_data s \<and> sn_migrations s' = sn_migrations s)))"
proof -
  have "awaiting s (wd_dir w)"
    using safeD(3)[OF upgrade_safe[of s "t RollbackDatabaseFilename" F q contended pid managementCredential], of "boot t"] assms(1-3)
    by (auto simp: boot_def)
  then have t2: "t2 RollbackDatabaseFilename = Some (DatabaseFile s)" using assms(4) by (simp add: awaiting_def)
  note run = safeD[OF rollback_safe[of "t2 DatabaseFilename" q' s credential' F' contended' pid' random], of "boot t2", unfolded assms(5) fst_conv snd_conv]
  have "kept q' s t2" using t2 by (auto simp: kept_def brought_up_def same_content_def)
  moreover have "\<exists>s'. database_at t' = Some s' \<and> sn_data s' = sn_data s \<and> sn_migrations s' = sn_migrations s"
    if "rolled_back q' s c t'" "schema_current s" for c t'
    using that by (auto simp: rolled_back_def brought_up_def same_content_def database_at_def)
  ultimately show ?thesis using run t2 by (auto simp: boot_def list_all_iff)
qed

section \<open>A restore, an upgrade and a rollback\<close>

definition demo_engine :: engine where
  "demo_engine = \<lparr>sq_sound = (\<lambda>_. True), sq_baseline = Inr, sq_migrate = Inr\<rparr>"

definition demo_snapshot :: snapshot where
  "demo_snapshot = \<lparr>sn_metadata = [(digestKey, digestString ''secret''), (generationKey, ''g1''), (baselineKey, factsSchemaBaselineID)],
     sn_migrations = [1, 2], sn_data = empty_db\<rparr>"

definition demo_data :: dir where
  "demo_data = (\<lambda>_. None)(DatabaseFilename := Some (DatabaseFile demo_snapshot), ManagementCredentialFile := Some (TokenFile (''secret'' @ [CHR 0x0A])))"

lemma demo_credential_trim: "trim_space ''secret'' = ''secret''" "trim_space (''secret'' @ [CHR 0x0A]) = ''secret''"
  by code_simp+

lemma demo_draw:
  "randomHexFrom (replicate 40 c) 16 = Some (hex_encode (replicate 16 c), replicate 24 c)"
  "randomHexFrom (replicate 24 c) 16 = Some (hex_encode (replicate 16 c), replicate 8 c)"
proof -
  have "read_random 16 (replicate 40 c) = Some (replicate 16 c, replicate 24 c)" "read_random 16 (replicate 24 c) = Some (replicate 16 c, replicate 8 c)"
    by (simp_all add: read_random_def)
  then show "randomHexFrom (replicate 40 c) 16 = Some (hex_encode (replicate 16 c), replicate 24 c)"
    "randomHexFrom (replicate 24 c) 16 = Some (hex_encode (replicate 16 c), replicate 8 c)"
    by (simp_all only: randomHexFrom_randomHex randomHex_def option.map prod.case)
qed

lemma demo_snapshot_facts:
  "metadata_of digestKey demo_snapshot = Some (digestString ''secret'')" "metadata_of generationKey demo_snapshot = Some ''g1''"
  "metadata_of baselineKey demo_snapshot = Some factsSchemaBaselineID" "metadata_of restorePendingKey demo_snapshot = None"
  "sn_migrations demo_snapshot = [1, 2]" "schema_current demo_snapshot"
  by (simp_all add: demo_snapshot_def metadata_of_def digestKey_def generationKey_def baselineKey_def restorePendingKey_def schema_current_def)

lemma demo_data_files:
  "demo_data DatabaseFilename = Some (DatabaseFile demo_snapshot)" "demo_data ManagementCredentialFile = Some (TokenFile (''secret'' @ [CHR 0x0A]))"
  "demo_data RollbackDatabaseFilename = None" "demo_data OwnerLockFilename = None" "demo_data (staged_file sfx) = None"
  by (simp_all add: demo_data_def)

lemmas restore_eval = run_simps of_opt_def guard_def Let_def requireRegularOrAbsent_def syncDirectory_def acquireOwnerLock_def verifySQLiteFile_def
  snapshot_at_def database_at_def token_at_def update_file_def update_database_def

lemma demo_restore:
  "\<exists>x w. Restore (\<lambda>_. NoFault) demo_engine False ''1'' (DatabaseFile demo_snapshot) ''secret'' (replicate 40 CHR ''a'') (boot demo_data) = (Inr x, w)"
  unfolding Restore_def demo_credential_trim demo_draw
  by (simp add: restore_eval restore_staged_def prepareRestoredDatabase_def initializeSchema_def createRollbackSnapshot_def installManagementCredential_def
     remove_sidecars_def demo_engine_def demo_data_files demo_credential_trim[simplified] demo_draw demo_snapshot_facts boot_def CurrentSchemaVersion_def)

lemma demo_upgrade:
  "\<exists>x w. PrepareUpgrade (\<lambda>_. NoFault) demo_engine False ''1'' ''secret'' (boot demo_data) = (Inr x, w) \<and>
    wd_dir w RollbackDatabaseFilename = Some (DatabaseFile demo_snapshot) \<and> wd_dir w ManagementCredentialFile = Some (TokenFile (''secret'' @ [CHR 0x0A])) \<and>
    wd_dir w OwnerLockFilename \<noteq> Some NotRegular"
  unfolding PrepareUpgrade_def demo_credential_trim
  by (simp add: restore_eval upgrade_capture_def upgrade_state_def createRollbackSnapshot_def demo_engine_def demo_data_files demo_snapshot_facts boot_def)

lemma demo_rollback:
  assumes "t RollbackDatabaseFilename = Some (DatabaseFile demo_snapshot)" and "t ManagementCredentialFile = Some (TokenFile (''secret'' @ [CHR 0x0A]))"
    and "t OwnerLockFilename \<noteq> Some NotRegular"
  shows "\<exists>y w. RollbackRestore (\<lambda>_. NoFault) demo_engine False ''2'' ''secret'' (replicate 24 CHR ''a'') (boot t) = (Inr y, w)"
  using assms unfolding RollbackRestore_def demo_credential_trim
  by (simp add: restore_eval prepareRestoredDatabase_def initializeSchema_def installManagementCredential_def remove_sidecars_def demo_engine_def
     demo_credential_trim[simplified] demo_draw demo_snapshot_facts boot_def CurrentSchemaVersion_def)

theorem restore_crash_safe_witness:
  "\<exists>x w. Restore (\<lambda>_. NoFault) demo_engine False ''1'' (DatabaseFile demo_snapshot) ''secret'' (replicate 40 CHR ''a'') (boot demo_data) = (Inr x, w) \<and>
    restored demo_engine ''secret'' (Some (DatabaseFile demo_snapshot)) (wd_dir w) \<and> RollbackAvailable x"
proof -
  obtain x w where run: "Restore (\<lambda>_. NoFault) demo_engine False ''1'' (DatabaseFile demo_snapshot) ''secret'' (replicate 40 CHR ''a'') (boot demo_data) = (Inr x, w)"
    using demo_restore by blast
  show ?thesis using restore_crash_safe[OF run] run by (auto simp: demo_data_files demo_credential_trim)
qed

theorem upgrade_crash_safe_witness:
  "\<exists>x w. PrepareUpgrade (\<lambda>_. NoFault) demo_engine False ''1'' ''secret'' (boot demo_data) = (Inr x, w) \<and> awaiting demo_snapshot (wd_dir w)"
proof -
  obtain x w where run: "PrepareUpgrade (\<lambda>_. NoFault) demo_engine False ''1'' ''secret'' (boot demo_data) = (Inr x, w)" using demo_upgrade by blast
  show ?thesis using upgrade_crash_safe[OF demo_data_files(1) run] run by (auto simp: demo_snapshot_facts)
qed

theorem upgrade_rollback_roundtrip_witness:
  "\<exists>x w y w'. PrepareUpgrade (\<lambda>_. NoFault) demo_engine False ''1'' ''secret'' (boot demo_data) = (Inr x, w) \<and>
    RollbackRestore (\<lambda>_. NoFault) demo_engine False ''2'' ''secret'' (replicate 24 CHR ''a'') (boot ((wd_dir w)(DatabaseFilename := None))) = (Inr y, w') \<and>
    rolled_back demo_engine demo_snapshot ''secret'' (wd_dir w')"
proof -
  obtain x w where up: "PrepareUpgrade (\<lambda>_. NoFault) demo_engine False ''1'' ''secret'' (boot demo_data) = (Inr x, w)"
      "wd_dir w RollbackDatabaseFilename = Some (DatabaseFile demo_snapshot)" "wd_dir w ManagementCredentialFile = Some (TokenFile (''secret'' @ [CHR 0x0A]))"
      "wd_dir w OwnerLockFilename \<noteq> Some NotRegular"
    using demo_upgrade by blast
  let ?t = "(wd_dir w)(DatabaseFilename := None)"
  obtain y w' where down: "RollbackRestore (\<lambda>_. NoFault) demo_engine False ''2'' ''secret'' (replicate 24 CHR ''a'') (boot ?t) = (Inr y, w')"
    using demo_rollback[of ?t] up by auto
  have "rolled_back demo_engine demo_snapshot ''secret'' (wd_dir w')"
    using upgrade_rollback_roundtrip[OF demo_data_files(1) _ up(1) _ down] by (simp add: demo_snapshot_facts demo_credential_trim)
  with up(1) down show ?thesis by blast
qed

text \<open>Committing ends the restore: the barrier is down and the rollback image is gone.\<close>

theorem commit_restore_done:
  assumes "database_at t = Some s" and "t RollbackDatabaseFilename \<noteq> Some NotRegular"
    and "CommitRestore (\<lambda>_. NoFault) clock outs (boot t) = (Inr (), w)"
  shows "\<exists>s'. database_at (wd_dir w) = Some s' \<and> metadata_of restorePendingKey s' = Some ''0'' \<and>
    sn_data s' = snd (RecoverGovernanceCleanup clock outs (sn_data s)) \<and> wd_dir w RollbackDatabaseFilename = None \<and> \<not> wd_pending w"
  using assms by (auto simp: CommitRestore_def run_simps requireRegularOrAbsent_def syncDirectory_def guard_def boot_def set_pending_def metadata_of_def
    put_metadata_def visit_def split: sum.splits if_splits)

end
