(* ===== verification/Reference.thy ===== *)
theory Reference
  imports Recall
begin

text \<open>
  The in-memory reference service of \<open>internal/reference\<close>: the topology of \<open>config.go\<close> and the data
  plane of \<open>server.go\<close>, against which the conformance suites compare the durable appliance. The state
  of \<open>Server\<close> is a record of maps; a Go map lookup of an absent key is written out. Identifiers are
  counted, credentials and consistency tokens are drawn from the reader \<open>random\<close>, which is part of the
  state. Messages leave out the quoted argument.
\<close>

section \<open>State\<close>

record ref_space =
  rfs_realm :: string
  rfs_identity :: string
  rfs_class :: space_class

record ref_view =
  rfv_id :: string
  rfv_realm :: string
  rfv_read_spaces :: "string list"
  rfv_write_space :: string
  rfv_max_disclosure :: space_class
  rfv_version :: nat

record ref_grant =
  rfg_id :: string
  rfg_principal :: string
  rfg_actor :: string
  rfg_view :: string
  rfg_operations :: "operation list"
  rfg_audiences :: "audience list"
  rfg_expires_at :: instant
  rfg_revoked :: bool
  rfg_version :: nat

record ref_capability =
  rfc_grant :: string
  rfc_principal :: string
  rfc_view_version :: nat
  rfc_actor :: string
  rfc_audience :: audience
  rfc_operations :: "operation list"
  rfc_labels :: "string list"
  rfc_expires_at :: instant

record ref_receipt =
  rfr_id :: string
  rfr_space :: string
  rfr_text :: string
  rfr_source_context :: source_context
  rfr_occurred_at :: "instant option"
  rfr_received_at :: instant
  rfr_idempotency_key :: string
  rfr_request_digest :: string
  rfr_commit_sequence :: nat
  rfr_consistency_token :: string
  rfr_state :: processing_state
  rfr_labels :: "string list"

record ref_cursor =
  rfu_generation :: string
  rfu_space :: string
  rfu_labels :: "string list"
  rfu_sequence :: nat

record server =
  sv_generation :: string
  sv_random :: string
  sv_next_id :: nat
  sv_sequence :: nat
  sv_realms :: "string list"
  sv_identities :: "string \<rightharpoonup> string"
  sv_spaces :: "string \<rightharpoonup> ref_space"
  sv_views :: "string \<rightharpoonup> ref_view"
  sv_grants :: "string \<rightharpoonup> ref_grant"
  sv_capabilities :: "string \<rightharpoonup> ref_capability"
  sv_issuers :: "string \<rightharpoonup> string"
  sv_receipts :: "string \<rightharpoonup> ref_receipt"
  sv_by_space :: "string \<Rightarrow> string list"
  sv_idempotency :: "string \<times> string \<rightharpoonup> string \<times> string"
  sv_tokens :: "string \<rightharpoonup> ref_cursor"
  sv_candidate_reads :: "string \<Rightarrow> nat"
  sv_available :: bool

definition New :: "string \<Rightarrow> string + server" where
  "New random =
    rbind (of_opt ''create storage generation'' (randomHex 16 random)) (\<lambda>(generation, random).
    Inr \<lparr>sv_generation = generation, sv_random = random, sv_next_id = 0, sv_sequence = 0, sv_realms = [], sv_identities = (\<lambda>_. None),
      sv_spaces = (\<lambda>_. None), sv_views = (\<lambda>_. None), sv_grants = (\<lambda>_. None), sv_capabilities = (\<lambda>_. None), sv_issuers = (\<lambda>_. None),
      sv_receipts = (\<lambda>_. None), sv_by_space = (\<lambda>_. []), sv_idempotency = (\<lambda>_. None), sv_tokens = (\<lambda>_. None),
      sv_candidate_reads = (\<lambda>_. 0), sv_available = True\<rparr>)"

section \<open>Topology\<close>

definition CreateRealm :: "string \<Rightarrow> server \<Rightarrow> string + server" where
  "CreateRealm realm s =
    rbind (guard (realm \<noteq> []) ''realm ID is required'') (\<lambda>_.
    rbind (guard (realm \<notin> set (sv_realms s)) ''realm already exists'') (\<lambda>_.
    Inr (s\<lparr>sv_realms := realm # sv_realms s\<rparr>)))"

definition CreateIdentity :: "string \<Rightarrow> string \<Rightarrow> server \<Rightarrow> string + server" where
  "CreateIdentity identity realm s =
    rbind (guard (identity \<noteq> [] \<and> realm \<noteq> []) ''identity and realm IDs are required'') (\<lambda>_.
    rbind (guard (realm \<in> set (sv_realms s)) ''realm does not exist'') (\<lambda>_.
    rbind (guard (sv_identities s identity = None) ''identity already exists'') (\<lambda>_.
    Inr (s\<lparr>sv_identities := (sv_identities s)(identity \<mapsto> realm)\<rparr>))))"

definition CreateSpace :: "string \<Rightarrow> ref_space \<Rightarrow> server \<Rightarrow> string + server" where
  "CreateSpace space x s =
    rbind (guard (space \<noteq> [] \<and> rfs_realm x \<noteq> []) ''space and realm IDs are required'') (\<lambda>_.
    rbind (guard (rfs_realm x \<in> set (sv_realms s)) ''realm does not exist'') (\<lambda>_.
    rbind (case rfs_class x of
        SpaceClassPrivate \<Rightarrow> guard (sv_identities s (rfs_identity x) = Some (rfs_realm x)) ''private Space requires an Identity in the same Realm''
      | SpaceClassShared \<Rightarrow> guard (rfs_identity x = []) ''shared Space cannot be owned by one Identity''
      | SpaceClassOther _ \<Rightarrow> Inl ''unsupported Space class'') (\<lambda>_.
    rbind (guard (sv_spaces s space = None) ''space already exists'') (\<lambda>_.
    Inr (s\<lparr>sv_spaces := (sv_spaces s)(space \<mapsto> x), sv_candidate_reads := (sv_candidate_reads s)(space := 0)\<rparr>)))))"

fun view_reads :: "server \<Rightarrow> string \<Rightarrow> string list \<Rightarrow> string list \<Rightarrow> space_class \<Rightarrow> string + (string list \<times> space_class)" where
  "view_reads s realm [] seen mostRestrictive = Inr (seen, mostRestrictive)"
| "view_reads s realm (spaceID # rest) seen mostRestrictive =
    (case sv_spaces s spaceID of
       Some x \<Rightarrow>
         if rfs_realm x \<noteq> realm then Inl ''read Space is absent or belongs to another Realm''
         else if spaceID \<in> set seen then Inl ''read Space is duplicated''
         else view_reads s realm rest (spaceID # seen) (if rfs_class x = SpaceClassPrivate then SpaceClassPrivate else mostRestrictive)
     | None \<Rightarrow> Inl ''read Space is absent or belongs to another Realm'')"

definition view_write :: "server \<Rightarrow> ref_view \<Rightarrow> string list \<Rightarrow> space_class \<Rightarrow> string + space_class" where
  "view_write s view seen mostRestrictive =
    (if rfv_write_space view = [] then Inr mostRestrictive
     else case sv_spaces s (rfv_write_space view) of
       None \<Rightarrow> Inl ''write Space is absent or belongs to another Realm''
     | Some x \<Rightarrow>
         rbind (guard (rfs_realm x = rfv_realm view) ''write Space is absent or belongs to another Realm'') (\<lambda>_.
         rbind (guard (rfv_write_space view \<in> set seen) ''write Space must also be readable'') (\<lambda>_.
         Inr (if rfs_class x = SpaceClassPrivate then SpaceClassPrivate else mostRestrictive))))"

definition CreateView :: "ref_view \<Rightarrow> server \<Rightarrow> string + server" where
  "CreateView view s =
    rbind (guard (rfv_id view \<noteq> [] \<and> rfv_realm view \<noteq> [] \<and> rfv_version view \<noteq> 0) ''view ID, realm ID, and non-zero version are required'') (\<lambda>_.
    rbind (guard (sv_views s (rfv_id view) = None) ''view already exists'') (\<lambda>_.
    rbind (guard (rfv_read_spaces view \<noteq> []) ''view requires at least one readable Space'') (\<lambda>_.
    rbind (view_reads s (rfv_realm view) (rfv_read_spaces view) [] SpaceClassShared) (\<lambda>(seen, mostRestrictive).
    rbind (view_write s view seen mostRestrictive) (\<lambda>mostRestrictive.
    rbind (guard (rfv_max_disclosure view = mostRestrictive) ''view disclosure class does not match accessible data class'') (\<lambda>_.
    Inr (s\<lparr>sv_views := (sv_views s)(rfv_id view \<mapsto> view)\<rparr>)))))))"

definition grant_audience :: "server \<Rightarrow> ref_grant \<Rightarrow> ref_view \<Rightarrow> audience \<Rightarrow> unit \<Rightarrow> string + unit" where
  "grant_audience s grant view audience u =
    rbind (guard (validAudience audience) ''unsupported audience'') (\<lambda>_.
    rbind (guard (\<not> (audience = AudienceShared \<and> rfv_max_disclosure view = SpaceClassPrivate)) ''private View cannot be granted to shared audience'') (\<lambda>_.
    guard (audience = AudiencePrivate \<and> OperationRemember \<in> set (rfg_operations grant) \<longrightarrow>
        map_option rfs_class (sv_spaces s (rfv_write_space view)) = Some SpaceClassPrivate)
      ''private audience Remember requires a private write Space''))"

definition CreateGrant :: "instant \<Rightarrow> ref_grant \<Rightarrow> server \<Rightarrow> string + server" where
  "CreateGrant now grant s =
    rbind (guard (rfg_id grant \<noteq> [] \<and> rfg_principal grant \<noteq> [] \<and> rfg_actor grant \<noteq> [] \<and> rfg_view grant \<noteq> [] \<and> rfg_version grant \<noteq> 0)
      ''grant identity, principal, actor, View, and version are required'') (\<lambda>_.
    rbind (guard (sv_grants s (rfg_id grant) = None) ''grant already exists'') (\<lambda>_.
    rbind (of_opt ''view does not exist'' (sv_views s (rfg_view grant))) (\<lambda>view.
    rbind (guard (now < rfg_expires_at grant) ''grant expiration must be in the future'') (\<lambda>_.
    rbind (guard (rfg_operations grant \<noteq> [] \<and> rfg_audiences grant \<noteq> []) ''grant requires operations and audiences'') (\<lambda>_.
    rbind (guard (list_all validOperation (rfg_operations grant)) ''unsupported operation'') (\<lambda>_.
    rbind (fold_res (grant_audience s grant view) (rfg_audiences grant) ()) (\<lambda>_.
    Inr (s\<lparr>sv_grants := (sv_grants s)(rfg_id grant \<mapsto> grant)\<rparr>))))))))"

definition CreateIssuerAuthorization :: "string \<Rightarrow> server \<Rightarrow> string + (string \<times> server)" where
  "CreateIssuerAuthorization principalRef s =
    rbind (guard (principalRef \<noteq> []) ''principal is required'') (\<lambda>_.
    rbind (of_opt ''create capability'' (randomToken 32 (sv_random s))) (\<lambda>(credential, random).
    Inr (credential, s\<lparr>sv_random := random, sv_issuers := (sv_issuers s)(principalRef \<mapsto> credential)\<rparr>)))"

record ref_issue =
  rfi_grant :: string
  rfi_actor :: string
  rfi_audience :: audience
  rfi_operations :: "operation list"
  rfi_labels :: "string list"
  rfi_ttl :: int

text \<open>The answer is the token and its expiry.\<close>

definition ref_IssueCapability :: "instant \<Rightarrow> string \<Rightarrow> string \<Rightarrow> ref_issue \<Rightarrow> server \<Rightarrow> string + ((string \<times> instant) \<times> server)" where
  "ref_IssueCapability now principalRef credential request s =
    rbind (of_opt ''grant is absent, revoked, or expired'' (sv_grants s (rfi_grant request))) (\<lambda>grant.
    rbind (guard (\<not> rfg_revoked grant \<and> now < rfg_expires_at grant) ''grant is absent, revoked, or expired'') (\<lambda>_.
    rbind (guard (sv_issuers s principalRef = Some credential \<and> credential \<noteq> [] \<and> principalRef = rfg_principal grant)
      ''issuer principal is not authorized for grant'') (\<lambda>_.
    rbind (guard (rfi_actor request = rfg_actor grant) ''actor does not match grant'') (\<lambda>_.
    rbind (guard (0 < rfi_ttl request) ''capability TTL must be positive'') (\<lambda>_.
    rbind (guard (rfi_audience request \<in> set (rfg_audiences grant)) ''audience is not granted'') (\<lambda>_.
    rbind (guard (rfi_operations request \<noteq> []) ''at least one operation is required'') (\<lambda>_.
    rbind (CanonicalLabelSet (rfi_labels request)) (\<lambda>labels.
    rbind (guard (list_all (\<lambda>p. p \<in> set (rfg_operations grant)) (rfi_operations request)) ''operation is not granted'') (\<lambda>_.
    (let expiresAt = min (rfg_expires_at grant) (now + rfi_ttl request) in
    rbind (of_opt ''create capability'' (randomToken 32 (sv_random s))) (\<lambda>(token, random).
    Inr ((token, expiresAt), s\<lparr>sv_random := random, sv_capabilities := (sv_capabilities s)(token \<mapsto>
      \<lparr>rfc_grant = rfg_id grant, rfc_principal = rfg_principal grant,
       rfc_view_version = (case sv_views s (rfg_view grant) of None \<Rightarrow> 0 | Some v \<Rightarrow> rfv_version v), rfc_actor = rfi_actor request,
       rfc_audience = rfi_audience request, rfc_operations = rfi_operations request, rfc_labels = labels, rfc_expires_at = expiresAt\<rparr>)\<rparr>))))))))))))"

definition ref_RevokeGrant :: "string \<Rightarrow> server \<Rightarrow> string + server" where
  "ref_RevokeGrant grantID s =
    rbind (of_opt ''grant does not exist'' (sv_grants s grantID)) (\<lambda>grant.
    Inr (s\<lparr>sv_grants := (sv_grants s)(grantID \<mapsto> grant\<lparr>rfg_revoked := True\<rparr>)\<rparr>))"

definition authorizeLocked :: "instant \<Rightarrow> server \<Rightarrow> call_authorization \<Rightarrow> operation \<Rightarrow> error + (ref_view \<times> string list)" where
  "authorizeLocked now s auth operation =
    rbind (of_opt (unauthorized ''capability is missing or unknown'') (sv_capabilities s (auth_capability auth))) (\<lambda>state.
    rbind (guard (auth_capability auth \<noteq> []) (unauthorized ''capability is missing or unknown'')) (\<lambda>_.
    rbind (of_opt (unauthorized ''capability is expired or revoked'') (sv_grants s (rfc_grant state))) (\<lambda>grant.
    rbind (guard (\<not> rfg_revoked grant \<and> rfg_principal grant = rfc_principal state \<and> now < rfg_expires_at grant \<and> now < rfc_expires_at state)
      (unauthorized ''capability is expired or revoked'')) (\<lambda>_.
    rbind (guard (auth_actor_ref auth = rfc_actor state \<and> auth_actor_ref auth = rfg_actor grant) (unauthorized ''capability actor mismatch'')) (\<lambda>_.
    rbind (guard (auth_audience auth = rfc_audience state \<and> auth_audience auth \<in> set (rfg_audiences grant))
      (unauthorized ''capability audience mismatch'')) (\<lambda>_.
    rbind (guard (operation \<in> set (rfc_operations state) \<and> operation \<in> set (rfg_operations grant)) (unauthorized ''capability operation mismatch'')) (\<lambda>_.
    rbind (of_opt (unauthorized ''capability View is stale'') (sv_views s (rfg_view grant))) (\<lambda>view.
    rbind (guard (rfv_version view = rfc_view_version state) (unauthorized ''capability View is stale'')) (\<lambda>_.
    rbind (guard (\<not> (auth_audience auth = AudienceShared \<and> rfv_max_disclosure view = SpaceClassPrivate))
      (unauthorized ''private View is incompatible with shared audience'')) (\<lambda>_.
    rbind (guard (operation = OperationRemember \<and> auth_audience auth = AudiencePrivate \<longrightarrow>
        map_option rfs_class (sv_spaces s (rfv_write_space view)) = Some SpaceClassPrivate)
      (unauthorized ''private Runtime cannot write shared memory'')) (\<lambda>_.
    Inr (view, rfc_labels state))))))))))))"

section \<open>Data plane\<close>

definition requestDigest :: "remember_request \<Rightarrow> string list \<Rightarrow> string" where
  "requestDigest request labels =
    (let v = JObj ([(''text'', JStr (rem_text request)), (''source_context'', json_source_context (rem_source_context request))] @
         (case rem_occurred_at request of None \<Rightarrow> [] | Some t \<Rightarrow> omit_str ''occurred_at'' (formatTime t))) in
     digestString (json_encode (if labels = [] then v else JObj [(''request'', v), (''labels'', JArr (map JStr labels))])))"

text \<open>The copy makes a new map and then iterates over that map, so it is empty.\<close>

definition cloneSourceContext :: "source_context \<Rightarrow> source_context" where
  "cloneSourceContext source = source\<lparr>sc_extension_labels := []\<rparr>"

definition nextIdentifier :: "string \<Rightarrow> nat \<Rightarrow> string" where
  "nextIdentifier pre n = pre @ ''-'' @ replicate (8 - length (dec_digits n)) (CHR ''0'') @ dec_digits n"

definition rememberResponse :: "ref_receipt \<Rightarrow> bool \<Rightarrow> remember_response" where
  "rememberResponse stored deduplicated =
    \<lparr>rsp_accepted = True, rsp_receipt_id = rfr_id stored, rsp_consistency_token = rfr_consistency_token stored,
     rsp_deduplicated_retry = deduplicated, rsp_processing_state = rfr_state stored\<rparr>"

definition ref_checks :: "bool \<Rightarrow> server \<Rightarrow> error + unit" where
  "ref_checks contextDone s =
    rbind (guard (\<not> contextDone) (serviceError ErrorCodeDeadline ''request deadline exceeded'' False)) (\<lambda>_.
    guard (sv_available s) (serviceError ErrorCodeUnavailable ''reference service is unavailable'' True))"

text \<open>The new effect. The counters advance even when no token can be drawn.\<close>

definition ref_accept :: "instant \<Rightarrow> ref_view \<Rightarrow> string list \<Rightarrow> remember_request \<Rightarrow> string \<Rightarrow> server \<Rightarrow> (error + remember_response) \<times> server" where
  "ref_accept now view labels request digest s =
    (let s = s\<lparr>sv_sequence := sv_sequence s + 1, sv_next_id := sv_next_id s + 1\<rparr>;
         receiptID = nextIdentifier ''receipt'' (sv_next_id s); space = rfv_write_space view in
     case randomToken 24 (sv_random s) of
       None \<Rightarrow> (Inl (serviceError ErrorCodeInternal ''failed to create consistency cursor'' False), s)
     | Some (token, random) \<Rightarrow>
         let stored = \<lparr>rfr_id = receiptID, rfr_space = space, rfr_text = rem_text request,
               rfr_source_context = cloneSourceContext (rem_source_context request), rfr_occurred_at = rem_occurred_at request,
               rfr_received_at = now, rfr_idempotency_key = rem_idempotency_key request, rfr_request_digest = digest,
               rfr_commit_sequence = sv_sequence s, rfr_consistency_token = token, rfr_state = ProcessingStateAccepted, rfr_labels = labels\<rparr> in
         (Inr (rememberResponse stored False),
          s\<lparr>sv_random := random,
            sv_tokens := (sv_tokens s)(token \<mapsto> \<lparr>rfu_generation = sv_generation s, rfu_space = space, rfu_labels = labels, rfu_sequence = sv_sequence s\<rparr>),
            sv_receipts := (sv_receipts s)(receiptID \<mapsto> stored),
            sv_by_space := (sv_by_space s)(space := sv_by_space s space @ [receiptID]),
            sv_idempotency := (sv_idempotency s)((space, rem_idempotency_key request) \<mapsto> (digest, receiptID))\<rparr>))"

definition ref_zero_receipt :: ref_receipt where
  "ref_zero_receipt = \<lparr>rfr_id = [], rfr_space = [], rfr_text = [], rfr_source_context = no_source, rfr_occurred_at = None, rfr_received_at = 0,
     rfr_idempotency_key = [], rfr_request_digest = [], rfr_commit_sequence = 0, rfr_consistency_token = [],
     rfr_state = ProcessingStateAccepted, rfr_labels = []\<rparr>"

definition ref_Remember :: "instant \<Rightarrow> bool \<Rightarrow> call_authorization \<Rightarrow> remember_request \<Rightarrow> server \<Rightarrow> (error + remember_response) \<times> server" where
  "ref_Remember now contextDone auth request s =
    (case rbind (ref_checks contextDone s) (\<lambda>_.
       rbind (map_err (\<lambda>m. serviceError ErrorCodeInvalidArgument m False) (validate_remember request)) (\<lambda>_.
       rbind (authorizeLocked now s auth OperationRemember) (\<lambda>(view, labels).
       rbind (guard (rfv_write_space view \<noteq> []) (unauthorized ''View has no writable Space'')) (\<lambda>_.
       Inr (view, labels))))) of
       Inl e \<Rightarrow> (Inl e, s)
     | Inr (view, labels) \<Rightarrow>
         let digest = requestDigest request labels in
         case sv_idempotency s (rfv_write_space view, rem_idempotency_key request) of
           Some (previousDigest, receiptID) \<Rightarrow>
             (if previousDigest \<noteq> digest
              then (Inl (serviceError ErrorCodeConflict ''idempotency key conflicts with an existing effect'' False), s)
              else (Inr (rememberResponse (case sv_receipts s receiptID of Some r \<Rightarrow> r | None \<Rightarrow> ref_zero_receipt) True), s))
         | None \<Rightarrow> ref_accept now view labels request digest s)"

definition ref_GetReceiptStatus :: "instant \<Rightarrow> bool \<Rightarrow> call_authorization \<Rightarrow> string \<Rightarrow> server \<Rightarrow> error + receipt_status" where
  "ref_GetReceiptStatus now contextDone auth receiptID s =
    rbind (ref_checks contextDone s) (\<lambda>_.
    rbind (guard (receiptID \<noteq> []) (serviceError ErrorCodeInvalidArgument ''receipt_id is required'' False)) (\<lambda>_.
    rbind (authorizeLocked now s auth OperationReceiptStatus) (\<lambda>(view, labels).
    (case sv_receipts s receiptID of
       Some stored \<Rightarrow>
         rbind (guard (rfr_space stored \<in> set (rfv_read_spaces view) \<and> rfr_labels stored = labels)
           (serviceError ErrorCodeNotFound ''receipt not found'' False)) (\<lambda>_.
         Inr \<lparr>st_receipt_id = rfr_id stored, st_state = rfr_state stored, st_accepted_at = rfr_received_at stored,
           st_last_attempt_at = None, st_terminal_error_code = [], st_semantic_generation = []\<rparr>)
     | None \<Rightarrow> Inl (serviceError ErrorCodeNotFound ''receipt not found'' False)))))"

section \<open>Recall\<close>

text \<open>\<open>expired n\<close> says whether the context has ended when it is looked at for the \<open>n\<close>-th time.\<close>

definition ref_deadline :: error where
  "ref_deadline = serviceError ErrorCodeDeadline ''request deadline exceeded'' True"

definition check_token :: "server \<Rightarrow> ref_view \<Rightarrow> string list \<Rightarrow> string \<Rightarrow> error + unit" where
  "check_token s view labels token =
    (if token = [] then Inr () else
     case sv_tokens s token of
       None \<Rightarrow> Inl (serviceError ErrorCodeStaleConsistencyToken ''consistency token is stale or unknown'' False)
     | Some c \<Rightarrow>
         rbind (guard (rfu_generation c = sv_generation s) (serviceError ErrorCodeStaleConsistencyToken ''consistency token is stale or unknown'' False)) (\<lambda>_.
         guard (rfu_space c \<in> set (rfv_read_spaces view) \<and> labels = rfu_labels c)
           (unauthorized ''consistency token partition is not readable'')))"

fun snapshot_space :: "(nat \<Rightarrow> bool) \<Rightarrow> server \<Rightarrow> string list \<Rightarrow> space_class \<Rightarrow> string list \<Rightarrow> nat \<times> (ref_receipt \<times> space_class) list \<Rightarrow>
    error + (nat \<times> (ref_receipt \<times> space_class) list)" where
  "snapshot_space expired s labels class [] acc = Inr acc"
| "snapshot_space expired s labels class (receiptID # rest) (tick, sources) =
    (if expired tick then Inl ref_deadline
     else let stored = (case sv_receipts s receiptID of Some r \<Rightarrow> r | None \<Rightarrow> ref_zero_receipt) in
          snapshot_space expired s labels class rest (Suc tick, if rfr_labels stored = labels then sources @ [(stored, class)] else sources))"

text \<open>Entering a Space counts, even when the context ends inside it.\<close>

fun snapshot_spaces :: "(nat \<Rightarrow> bool) \<Rightarrow> string list \<Rightarrow> string list \<Rightarrow> nat \<times> (ref_receipt \<times> space_class) list \<Rightarrow> server \<Rightarrow>
    (error + (nat \<times> (ref_receipt \<times> space_class) list)) \<times> server" where
  "snapshot_spaces expired labels [] acc s = (Inr acc, s)"
| "snapshot_spaces expired labels (spaceID # rest) (tick, sources) s =
    (if expired tick then (Inl ref_deadline, s)
     else let s = s\<lparr>sv_candidate_reads := (sv_candidate_reads s)(spaceID := sv_candidate_reads s spaceID + 1)\<rparr>;
              class = (case sv_spaces s spaceID of Some x \<Rightarrow> rfs_class x | None \<Rightarrow> SpaceClassOther []) in
          case snapshot_space expired s labels class (sv_by_space s spaceID) (Suc tick, sources) of
            Inl e \<Rightarrow> (Inl e, s)
          | Inr acc \<Rightarrow> snapshot_spaces expired labels rest acc s)"

definition queryTerms :: "analyzer \<Rightarrow> string \<Rightarrow> string list" where
  "queryTerms A query = (let fields = string_fields (to_lower A query) in if fields = [] then [to_lower A query] else fields)"

definition contains_text :: "string \<Rightarrow> string \<Rightarrow> bool" where
  "contains_text s t \<longleftrightarrow> list_ex (\<lambda>i. take (length t) (drop i s) = t) [0..<Suc (length s)]"

definition lexicalScore :: "analyzer \<Rightarrow> string \<Rightarrow> string list \<Rightarrow> nat" where
  "lexicalScore A text terms = length (filter (contains_text (to_lower A text)) terms)"

fun score_sources :: "analyzer \<Rightarrow> (nat \<Rightarrow> bool) \<Rightarrow> string list \<Rightarrow> (ref_receipt \<times> space_class) list \<Rightarrow> nat \<times> (nat \<times> ref_receipt \<times> space_class) list \<Rightarrow>
    error + (nat \<times> (nat \<times> ref_receipt \<times> space_class) list)" where
  "score_sources A expired terms [] acc = Inr acc"
| "score_sources A expired terms (source # rest) (tick, candidates) =
    (if expired tick then Inl ref_deadline
     else let score = lexicalScore A (rfr_text (fst source)) terms in
          score_sources A expired terms rest (Suc tick, if score = 0 then candidates else candidates @ [(score, source)]))"

text \<open>The comparator of \<open>sort.Slice\<close>: score, newest commit, identity.\<close>

definition sort_scored :: "(nat \<times> ref_receipt \<times> space_class) list \<Rightarrow> (nat \<times> ref_receipt \<times> space_class) list" where
  "sort_scored cs = sort_key (\<lambda>c. - int (fst c)) (sort_key (\<lambda>c. - int (rfr_commit_sequence (fst (snd c)))) (sort_key (\<lambda>c. rfr_id (fst (snd c))) cs))"

definition scored_candidate :: "nat \<times> ref_receipt \<times> space_class \<Rightarrow> recall_candidate" where
  "scored_candidate c = (case c of (score, stored, class) \<Rightarrow>
     \<lparr>cd_fragment_id = ''fragment:'' @ rfr_id stored, cd_text = rfr_text stored, cd_evidence_refs = [rfr_id stored], cd_record_refs = [],
      cd_record_revision = 0, cd_class = class, cd_rank = - of_nat score, cd_commit_sequence = rfr_commit_sequence stored,
      cd_observed_at = rfr_received_at stored, cd_semantic = False\<rparr>)"

definition ref_Recall :: "analyzer \<Rightarrow> instant \<Rightarrow> (nat \<Rightarrow> bool) \<Rightarrow> call_authorization \<Rightarrow> recall_request \<Rightarrow> server \<Rightarrow> (error + recall_response) \<times> server" where
  "ref_Recall A now expired auth request s =
    (case rbind (ref_checks (expired 0) s) (\<lambda>_.
       rbind (map_err (\<lambda>m. serviceError ErrorCodeInvalidArgument m False) (validate_recall request)) (\<lambda>_.
       rbind (authorizeLocked now s auth OperationRecall) (\<lambda>(view, labels).
       rbind (check_token s view labels (rec_min_consistency_token request)) (\<lambda>_. Inr (view, labels))))) of
       Inl e \<Rightarrow> (Inl e, s)
     | Inr (view, labels) \<Rightarrow>
         (case snapshot_spaces expired labels (rfv_read_spaces view) (1, []) s of
            (Inl e, s) \<Rightarrow> (Inl e, s)
          | (Inr (tick, sources), s) \<Rightarrow>
              (rbind (score_sources A expired (queryTerms A (rec_query request)) sources (tick, [])) (\<lambda>(tick, candidates).
               rbind (guard (\<not> expired tick) ref_deadline) (\<lambda>_.
               rbind (recall_fragments expired (Suc tick) (bud_max_fragments (rec_budget request)) (bud_max_bytes (rec_budget request))
                 (map scored_candidate (sort_scored candidates)) [] False) (\<lambda>(fragments, truncated).
               Inr \<lparr>rcl_fragments = fragments, rcl_consistency_token = rec_min_consistency_token request,
                 rcl_degraded = False, rcl_truncated = truncated\<rparr>))), s)))"

definition SetAvailable :: "bool \<Rightarrow> server \<Rightarrow> server" where
  "SetAvailable available s = s\<lparr>sv_available := available\<rparr>"

end
