(* ===== verification/Reference_Laws.thy ===== *)
theory Reference_Laws
  imports Reference
begin

text \<open>
  The durable appliance conforms to the reference service: on states that agree, authorisation gives
  the same answer, and \<open>Remember\<close> gives the same outcome and keeps the states in agreement. Identities
  and tokens are drawn differently and are related through the effect they belong to.
\<close>

section \<open>Identifiers\<close>

definition digits_value :: "string \<Rightarrow> nat" where
  "digits_value s = foldl (\<lambda>a c. 10 * a + (of_char c - 48)) 0 s"

lemma digits_value_dec: "digits_value (dec_digits n) = n"
proof (induction n rule: dec_digits.induct)
  case (1 n)
  have "digits_value (dec_digits n) = (if n < 10 then n else 10 * digits_value (dec_digits (n div 10)) + n mod 10)"
    by (subst dec_digits.simps) (simp add: digits_value_def of_char_char_of_small)
  then show ?case using 1 by (cases "n < 10") auto
qed

lemma digits_value_pad: "digits_value (replicate k (CHR ''0'') @ s) = digits_value s"
  by (induction k) (simp_all add: digits_value_def)

lemma nextIdentifier_inj: "nextIdentifier pre m = nextIdentifier pre n \<Longrightarrow> m = n"
  using arg_cong[where f = digits_value] by (simp add: nextIdentifier_def) (metis digits_value_dec digits_value_pad)

section \<open>Agreement\<close>

definition mirror_capability :: "db \<Rightarrow> capability_row \<Rightarrow> ref_capability" where
  "mirror_capability d c =
    \<lparr>rfc_grant = cp_grant_id c, rfc_principal = cp_principal_ref c, rfc_view_version = cp_view_version c, rfc_actor = cp_actor_ref c,
     rfc_audience = cp_audience c, rfc_operations = map snd (filter (\<lambda>x. fst x = cp_token_digest c) (capability_operations d)),
     rfc_labels = (case decodeStoredLabelSet (cp_label_set c) (cp_label_set_digest c) of Inr l \<Rightarrow> ls_labels l | Inl _ \<Rightarrow> []),
     rfc_expires_at = cp_expires_at c\<rparr>"

definition mirror_grant :: "db \<Rightarrow> grant_row \<Rightarrow> ref_grant" where
  "mirror_grant d g =
    \<lparr>rfg_id = gr_id g, rfg_principal = gr_principal_ref g, rfg_actor = gr_actor_ref g, rfg_view = gr_view_id g,
     rfg_operations = map snd (filter (\<lambda>x. fst x = gr_id g) (grant_operations d)),
     rfg_audiences = map snd (filter (\<lambda>x. fst x = gr_id g) (grant_audiences d)),
     rfg_expires_at = gr_expires_at g, rfg_revoked = gr_revoked g, rfg_version = gr_version g\<rparr>"

definition mirror_view :: "db \<Rightarrow> view_row \<Rightarrow> ref_view" where
  "mirror_view d v =
    \<lparr>rfv_id = vw_id v, rfv_realm = vw_realm_id v, rfv_read_spaces = read_view_spaces (vw_id v) d,
     rfv_write_space = (case vw_write_space_id v of None \<Rightarrow> [] | Some w \<Rightarrow> w),
     rfv_max_disclosure = vw_max_disclosure_class v, rfv_version = vw_version v\<rparr>"

definition mirror_space :: "space_row \<Rightarrow> ref_space" where
  "mirror_space x = \<lparr>rfs_realm = sp_realm_id x, rfs_identity = (case sp_identity_id x of None \<Rightarrow> [] | Some i \<Rightarrow> i), rfs_class = sp_class x\<rparr>"

definition same_topology :: "db \<Rightarrow> server \<Rightarrow> bool" where
  "same_topology d s \<longleftrightarrow>
     sv_capabilities s = (\<lambda>token. map_option (mirror_capability d) (List.find (\<lambda>c. cp_token_digest c = digestBytes token) (capabilities d))) \<and>
     sv_grants s = (\<lambda>i. map_option (mirror_grant d) (grant_of i d)) \<and>
     sv_views s = (\<lambda>i. map_option (mirror_view d) (view_of i d)) \<and>
     sv_spaces s = (\<lambda>i. map_option mirror_space (space_of i d)) \<and>
     (\<forall>c\<in>set (capabilities d). \<exists>l. decodeStoredLabelSet (cp_label_set c) (cp_label_set_digest c) = Inr l)"

lemma found_key: "List.find P xs = Some x \<Longrightarrow> P x \<and> x \<in> set xs"
  by (auto simp: find_Some_iff)

lemma find_over_append: "List.find P (xs @ ys) = (case List.find P xs of None \<Rightarrow> List.find P ys | Some x \<Rightarrow> Some x)"
  by (induction xs) auto

lemma pairs_of: "p \<in> set (map snd (filter (\<lambda>x. fst x = k) xs)) \<longleftrightarrow> (k, p) \<in> set xs"
  by force

lemmas conform_eval = same_topology_def authorize_def authorizeLocked_def guard_def rbind_def of_opt_def map_err_def Let_def

lemma authorize_agrees:
  assumes "same_topology d s"
  shows "authorizeLocked now s auth p =
    (case authorize now d auth p of Inl e \<Rightarrow> Inl e
     | Inr v \<Rightarrow> Inr (mirror_view d (the (view_of (av_id v) d)), av_labels v))"
proof (cases "auth_capability auth = []")
  case True
  then show ?thesis by (simp add: authorize_def authorizeLocked_def guard_def rbind_def of_opt_def split: option.splits)
next
  case False
  show ?thesis
  proof (cases "List.find (\<lambda>c. cp_token_digest c = digestBytes (auth_capability auth)) (capabilities d)")
    case None
    then show ?thesis using False assms by (simp add: same_topology_def authorize_def authorizeLocked_def guard_def rbind_def of_opt_def Let_def)
  next
    case find: (Some c)
    obtain l where l: "decodeStoredLabelSet (cp_label_set c) (cp_label_set_digest c) = Inr l"
      using found_key[OF find] assms by (auto simp: same_topology_def)
    have t: "cp_token_digest c = digestBytes (auth_capability auth)" using found_key[OF find] by simp
    show ?thesis
    proof (cases "grant_of (cp_grant_id c) d")
      case None
      then show ?thesis using False find assms l
        by (simp add: same_topology_def authorize_def authorizeLocked_def guard_def rbind_def of_opt_def map_err_def Let_def mirror_capability_def)
    next
      case grant: (Some g)
      have g: "gr_id g = cp_grant_id c" using found_key grant by (fastforce simp: grant_of_def)
      show ?thesis
      proof (cases "view_of (gr_view_id g) d")
        case None
        then show ?thesis using False find grant g t assms l
          by (simp add: conform_eval mirror_capability_def mirror_grant_def pairs_of[simplified] result_simps)
      next
        case (Some v)
        have v: "vw_id v = gr_view_id g" using found_key Some by (fastforce simp: view_of_def)
        show ?thesis using False find grant Some g t v assms l
          by (cases "vw_write_space_id v") (simp_all add: conform_eval mirror_capability_def mirror_grant_def mirror_view_def mirror_space_def readSpaceScope_def pairs_of[simplified]
            option.map_comp o_def)
      qed
    qed
  qed
qed

lemma view_of_id: "view_of k d = Some w \<Longrightarrow> vw_id w = k"
  using found_key by (fastforce simp: view_of_def)

lemma authorized_view_mirrored:
  assumes "authorize now d auth p = Inr v"
  shows "rfv_write_space (mirror_view d (the (view_of (av_id v) d))) = av_write_space_id v"
    and "rfv_read_spaces (mirror_view d (the (view_of (av_id v) d))) = av_read_space_ids v"
  using assms unfolding authorize_def Let_def by (elim run_elims; simp add: mirror_view_def view_of_id)+

text \<open>A stored receipt and the row of its counterpart, whose identity and token are their own.\<close>

definition same_receipt :: "ref_receipt \<Rightarrow> receipt_row \<Rightarrow> processing_state \<Rightarrow> bool" where
  "same_receipt rc row st \<longleftrightarrow> rfr_space rc = rt_space_id row \<and> rfr_text rc = rt_text row \<and> rfr_idempotency_key rc = rt_idempotency_key row \<and>
     rfr_request_digest rc = rt_request_digest row \<and> rfr_state rc = st"

definition same_effects :: "db \<Rightarrow> server \<Rightarrow> bool" where
  "same_effects d s \<longleftrightarrow>
     (\<forall>e. rel_option (\<lambda>(digest, rid) (row, st). rt_request_digest row = digest \<and> (\<exists>rc. sv_receipts s rid = Some rc \<and> rfr_id rc = rid \<and> same_receipt rc row st))
        (sv_idempotency s e) (lookupIdempotentReceipt d (fst e) (snd e))) \<and>
     (\<forall>n > sv_next_id s. sv_receipts s (nextIdentifier ''receipt'' n) = None)"

definition conforms :: "db \<Rightarrow> server \<Rightarrow> bool" where
  "conforms d s \<longleftrightarrow> same_topology d s \<and> same_effects d s \<and> receipt_tombstones d = [] \<and> sv_available s"

lemma requestDigest_agrees: "requestDigest = rememberRequestDigest"
  by (intro ext) (simp add: requestDigest_def rememberRequestDigest_def json_remember_def Let_def)

lemma same_topology_frame:
  assumes "same_topology d s" and "same_authority d d'"
    and "sv_capabilities s' = sv_capabilities s" "sv_grants s' = sv_grants s" "sv_views s' = sv_views s" "sv_spaces s' = sv_spaces s"
  shows "same_topology d' s'"
  using assms
  by (simp add: same_topology_def same_authority_def mirror_capability_def[abs_def] mirror_grant_def[abs_def] mirror_view_def[abs_def]
    grant_of_def view_of_def space_of_def read_view_spaces_def)

lemma lookup_other:
  assumes new: "new_effect view request response d d'" and e: "(sp, k) \<noteq> (av_write_space_id view, rem_idempotency_key request)"
  shows "lookupIdempotentReceipt d' sp k = lookupIdempotentReceipt d sp k"
proof -
  let ?rid = "rsp_receipt_id response"
  from new obtain row where row: "tbl_insert clash_receipt row (receipts d) = Some (receipts d')" "rt_receipt_id row = ?rid"
      "rt_space_id row = av_write_space_id view" "rt_idempotency_key row = rem_idempotency_key request"
    and proc: "receipt_processing d' = receipt_processing d @ [accepted_processing ?rid]"
    by (auto simp: new_effect_def)
  have rows: "receipts d' = receipts d @ [row]" and fresh: "\<forall>r\<in>set (receipts d). rt_receipt_id r \<noteq> ?rid"
    using row(1,2) by (auto simp: tbl_insert_Some clash_receipt_def)
  have p: "processing_of (rt_receipt_id r) d' = processing_of (rt_receipt_id r) d" if "r \<in> set (receipts d)" for r
    using fresh that by (auto simp: processing_of_def proc accepted_processing_def find_over_append split: option.splits)
  let ?P = "\<lambda>d r. (rt_space_id r, rt_idempotency_key r) = (sp, k) \<and> processing_of (rt_receipt_id r) d \<noteq> None"
  have "List.find (?P d') (receipts d') = List.find (?P d) (receipts d)"
  proof -
    have "List.find (?P d') (receipts d) = List.find (?P d) (receipts d)" by (rule find_cong) (simp_all add: p)
    then show ?thesis using e row(3,4) unfolding rows by (auto simp: find_over_append split: option.splits)
  qed
  moreover have "processing_of (rt_receipt_id r) d' = processing_of (rt_receipt_id r) d" if "List.find (?P d) (receipts d) = Some r" for r
    using p found_key[OF that] by blast
  ultimately show ?thesis unfolding lookupIdempotentReceipt_def
    by (cases "List.find (?P d) (receipts d)") simp_all
qed

section \<open>Conformance\<close>

definition same_answer :: "remember_response \<Rightarrow> remember_response \<Rightarrow> bool" where
  "same_answer r r' \<longleftrightarrow> rsp_accepted r = rsp_accepted r' \<and> rsp_deduplicated_retry r = rsp_deduplicated_retry r' \<and>
     rsp_processing_state r = rsp_processing_state r'"

text \<open>The appliance is up and nothing fails around the commit.\<close>

definition undisturbed :: "store \<Rightarrow> remember_env \<Rightarrow> bool" where
  "undisturbed st env \<longleftrightarrow> \<not> sto_closing st \<and> \<not> sto_restore_pending st \<and> \<not> en_before_commit_fault env \<and> \<not> en_after_commit_fault env \<and>
     en_commit env = Committed"

text \<open>What both services check before they look at effects.\<close>

lemma refusals_agree:
  assumes "conforms d s" and "undisturbed st env"
  shows "(\<exists>e. ref_Remember now (en_context_done env) auth request s = (Inl e, s) \<and> Remember st A now rnd env auth request d = (Inl e, d)) \<or>
    (\<exists>v view. authorize now d auth OperationRemember = Inr v \<and> av_write_space_id v \<noteq> [] \<and> remember_checks st env request = Inr () \<and>
       rfv_write_space view = av_write_space_id v \<and>
       ref_Remember now (en_context_done env) auth request s =
         (let digest = requestDigest request (av_labels v) in
          case sv_idempotency s (av_write_space_id v, rem_idempotency_key request) of
            Some (previousDigest, receiptID) \<Rightarrow>
              (if previousDigest \<noteq> digest
               then (Inl (serviceError ErrorCodeConflict ''idempotency key conflicts with an existing effect'' False), s)
               else (Inr (rememberResponse (case sv_receipts s receiptID of Some r \<Rightarrow> r | None \<Rightarrow> ref_zero_receipt) True), s))
          | None \<Rightarrow> ref_accept now view (av_labels v) request digest s))"
proof -
  have up: "sv_available s" "\<not> sto_closing st" "\<not> sto_restore_pending st" using assms by (auto simp: conforms_def undisturbed_def)
  have ag: "authorizeLocked now s auth OperationRemember =
      (case authorize now d auth OperationRemember of Inl e \<Rightarrow> Inl e | Inr v \<Rightarrow> Inr (mirror_view d (the (view_of (av_id v) d)), av_labels v))"
    using assms(1) by (simp add: conforms_def authorize_agrees)
  show ?thesis
  proof (cases "\<not> en_context_done env \<and> (\<exists>u. validate_remember request = Inr u)")
    case False
    then show ?thesis using up
      by (cases "validate_remember request") (auto simp: ref_Remember_def Remember_def ref_checks_def remember_checks_def guard_def rbind_def map_err_def)
  next
    case valid: True
    show ?thesis
    proof (cases "authorize now d auth OperationRemember")
      case (Inl e)
      then show ?thesis using up valid ag
        by (auto simp: ref_Remember_def Remember_def ref_checks_def remember_checks_def remember_tx_def guard_def rbind_def map_err_def)
    next
      case (Inr v)
      let ?view = "mirror_view d (the (view_of (av_id v) d))"
      have w: "rfv_write_space ?view = av_write_space_id v" using Inr by (rule authorized_view_mirrored(1))
      show ?thesis
      proof (cases "av_write_space_id v = []")
        case True
        then show ?thesis using up valid ag Inr w
          by (auto simp: ref_Remember_def Remember_def ref_checks_def remember_checks_def remember_tx_def guard_def rbind_def map_err_def)
      next
        case False
        then show ?thesis using up valid ag Inr w
          by (intro disjI2 exI[of _ v] exI[of _ ?view])
             (auto simp: ref_Remember_def ref_checks_def remember_checks_def guard_def rbind_def map_err_def)
      qed
    qed
  qed
qed

lemma accept_conforms:
  assumes "conforms d s" and new: "new_effect v request r d d'" and "rfv_write_space view = av_write_space_id v"
    and "ref_accept now view (av_labels v) request (requestDigest request (av_labels v)) s = (Inr r', s')"
  shows "same_answer r r' \<and> conforms d' s'"
proof -
  let ?n = "Suc (sv_next_id s)" let ?rid = "nextIdentifier ''receipt'' ?n" and ?e = "(av_write_space_id v, rem_idempotency_key request)"
  obtain token random where rnd: "randomToken 24 (sv_random s) = Some (token, random)"
    using assms(4) by (auto simp: ref_accept_def Let_def split: option.splits)
  define rc where "rc = \<lparr>rfr_id = ?rid, rfr_space = av_write_space_id v, rfr_text = rem_text request,
      rfr_source_context = cloneSourceContext (rem_source_context request), rfr_occurred_at = rem_occurred_at request,
      rfr_received_at = now, rfr_idempotency_key = rem_idempotency_key request, rfr_request_digest = requestDigest request (av_labels v),
      rfr_commit_sequence = Suc (sv_sequence s), rfr_consistency_token = token, rfr_state = ProcessingStateAccepted, rfr_labels = av_labels v\<rparr>"
  have s': "r' = rememberResponse rc False" "sv_next_id s' = ?n" "sv_available s' = sv_available s" "sv_capabilities s' = sv_capabilities s"
      "sv_grants s' = sv_grants s" "sv_views s' = sv_views s" "sv_spaces s' = sv_spaces s"
      "sv_receipts s' = (sv_receipts s)(?rid \<mapsto> rc)" "sv_idempotency s' = (sv_idempotency s)(?e \<mapsto> (requestDigest request (av_labels v), ?rid))"
    using assms(3,4) by (auto simp: ref_accept_def rnd Let_def rc_def)
  have old: "same_topology d s" "same_effects d s" "receipt_tombstones d = []" "sv_available s" using assms(1) by (auto simp: conforms_def)
  have keep: "same_authority d d'" "receipt_tombstones d' = receipt_tombstones d" and flags: "rsp_accepted r" "\<not> rsp_deduplicated_retry r" "rsp_processing_state r = ProcessingStateAccepted"
    using new by (auto simp: new_effect_def)
  obtain row where row: "lookupIdempotentReceipt d' (av_write_space_id v) (rem_idempotency_key request) = Some (row, ProcessingStateAccepted)"
      "rt_request_digest row = rememberRequestDigest request (av_labels v)" "rt_text row = rem_text request" "rt_space_id row = av_write_space_id v"
    using new by (rule new_effect_lookup)
  have key: "rt_idempotency_key row = rem_idempotency_key request" using row(1) by (auto simp: lookupIdempotentReceipt_def bind_eq_Some_conv find_Some_iff)
  have fresh: "sv_receipts s ?rid = None" "\<forall>n > sv_next_id s. sv_receipts s (nextIdentifier ''receipt'' n) = None" using old(2) by (auto simp: same_effects_def)
  have "rel_option (\<lambda>(digest, rid) (row, st). rt_request_digest row = digest \<and> (\<exists>rc. sv_receipts s' rid = Some rc \<and> rfr_id rc = rid \<and> same_receipt rc row st))
      (sv_idempotency s' e) (lookupIdempotentReceipt d' (fst e) (snd e))" for e
  proof (cases "e = ?e")
    case True
    then show ?thesis using row key by (auto simp: s' rc_def same_receipt_def requestDigest_agrees)
  next
    case False
    then have "lookupIdempotentReceipt d' (fst e) (snd e) = lookupIdempotentReceipt d (fst e) (snd e)" by (intro lookup_other[OF new]) auto
    moreover have "rel_option (\<lambda>(digest, rid) (row, st). rt_request_digest row = digest \<and> (\<exists>rc. sv_receipts s rid = Some rc \<and> rfr_id rc = rid \<and> same_receipt rc row st))
        (sv_idempotency s e) (lookupIdempotentReceipt d (fst e) (snd e))" using old(2) unfolding same_effects_def by blast
    ultimately show ?thesis using False fresh(1)
      by (auto simp: s' elim!: option.rel_cases intro!: option.rel_intros)
  qed
  moreover have "\<forall>n > sv_next_id s'. sv_receipts s' (nextIdentifier ''receipt'' n) = None"
    using fresh(2) nextIdentifier_inj by (auto simp: s')
  ultimately have "same_effects d' s'" by (simp add: same_effects_def)
  moreover have "same_topology d' s'" using old(1) keep(1) s'(4-7) by (rule same_topology_frame)
  ultimately show ?thesis using keep(2) old(3,4) flags by (simp add: conforms_def s' same_answer_def rememberResponse_def rc_def)
qed

text \<open>
  What the appliance needs to store a new effect and the reference service has for free: random bytes
  for a receipt identity and a token that are not in use, the write Space with its index, the steward
  profile that the Space may be bound to, an analyzer that projects the text, and a processing row
  beside every stored receipt.
\<close>

definition unused :: "string \<Rightarrow> string \<Rightarrow> db \<Rightarrow> bool" where
  "unused receiptID token d \<longleftrightarrow>
     (\<forall>r\<in>set (receipts d). rt_receipt_id r \<noteq> receiptID \<and> rt_consistency_token r \<noteq> token) \<and>
     (\<forall>p\<in>set (receipt_processing d). pc_receipt_id p \<noteq> receiptID) \<and> (\<forall>c\<in>set (consistency_cursors d). cu_token c \<noteq> token) \<and>
     (\<forall>j\<in>set (steward_jobs d). jb_receipt_id j \<noteq> receiptID \<and> jb_job_id j \<noteq> ''job-'' @ take 32 (digestString receiptID))"

definition able :: "analyzer \<Rightarrow> string \<Rightarrow> authorized_view \<Rightarrow> remember_request \<Rightarrow> db \<Rightarrow> bool" where
  "able A rnd v request d \<longleftrightarrow>
     (\<exists>suffix rnd1 token rnd2. randomHex 16 rnd = Some (suffix, rnd1) \<and> randomToken 24 rnd1 = Some (token, rnd2) \<and>
        unused (''receipt-'' @ suffix) token d) \<and>
     has_space (av_write_space_id v) d \<and> (\<exists>t. readSpaceIndex d (av_write_space_id v) = Some t) \<and>
     (\<forall>b. List.find (\<lambda>b. bd_space_id b = av_write_space_id v) (space_steward_bindings d) = Some b \<longrightarrow>
        has_profile (bd_profile_id b) (bd_profile_version b) d) \<and>
     (\<exists>x. projectLexical A (rem_text request) [] = Some x) \<and>
     (\<forall>r\<in>set (receipts d). processing_of (rt_receipt_id r) d \<noteq> None)"

lemma remember_writes_total:
  assumes "unused receiptID token d0" and "has_space (av_write_space_id v) d0" and "readSpaceIndex d0 (av_write_space_id v) = Some t"
    and "\<forall>b. List.find (\<lambda>b. bd_space_id b = av_write_space_id v) (space_steward_bindings d0) = Some b \<longrightarrow>
        has_profile (bd_profile_id b) (bd_profile_version b) d0"
    and "projectLexical A (rem_text request) [] = Some x"
    and d: "d = d0\<lparr>receipts := receipts d0 @ [row], receipts_seq := n\<rparr>" "rt_receipt_id row = receiptID"
  shows "\<exists>d'. remember_writes st A now v request receiptID token d = Inr d'"
proof -
  define d1 where "d1 = d\<lparr>receipt_processing := receipt_processing d @ [accepted_processing receiptID]\<rparr>"
  have 1: "insert_processing (accepted_processing receiptID) d = Some d1"
    using assms(1) by (auto simp: insert_processing_def insert_into_def tbl_insert_def list_ex_iff clash_on_def accepted_processing_def d d1_def unused_def)
  have "\<exists>js. enqueueStewardJob now receiptID (av_write_space_id v) (av_labels v) (av_label_set_digest v) d1 = Some (d1\<lparr>steward_jobs := js\<rparr>)"
  proof (cases "List.find (\<lambda>b. bd_space_id b = av_write_space_id v) (space_steward_bindings d0)")
    case None
    then show ?thesis by (intro exI[of _ "steward_jobs d1"]) (simp add: enqueueStewardJob_def d d1_def)
  next
    case (Some b)
    then have "has_profile (bd_profile_id b) (bd_profile_version b) d0" using assms(4) by blast
    then show ?thesis using assms(1,2) Some
      by (auto simp: enqueueStewardJob_def insert_job_def insert_into_def tbl_insert_def list_ex_iff clash_job_def d d1_def unused_def
          has_space_def has_profile_def)
  qed
  then obtain js where 2: "enqueueStewardJob now receiptID (av_write_space_id v) (av_labels v) (av_label_set_digest v) d1 = Some (d1\<lparr>steward_jobs := js\<rparr>)"
    by blast
  have 3: "\<exists>cs. insert_cursor c (d1\<lparr>steward_jobs := js\<rparr>) = Some (d1\<lparr>steward_jobs := js, consistency_cursors := cs\<rparr>)"
    if "cu_token c = token" "cu_space_id c = av_write_space_id v" for c
    using assms(1,2) that by (auto simp: insert_cursor_def insert_into_def tbl_insert_def list_ex_iff clash_on_def d d1_def unused_def has_space_def)
  have 4: "readSpaceIndex (d1\<lparr>steward_jobs := js, consistency_cursors := cs\<rparr>) (av_write_space_id v) = Some t" for cs
    using assms(3) by (simp add: readSpaceIndex_def d d1_def)
  show ?thesis
    using 3[of "\<lparr>cu_token = token, cu_generation = sto_generation st, cu_space_id = av_write_space_id v,
        cu_commit_sequence = receipts_seq (d1\<lparr>steward_jobs := js\<rparr>), cu_label_set_digest = av_label_set_digest v\<rparr>"] 4
    by (auto simp: remember_writes_def 1 2 indexReceiptProjection_def assms(5))
qed

lemma remember_tx_able:
  assumes "authorize now d auth OperationRemember = Inr v" and "av_write_space_id v \<noteq> []" and "receipt_tombstones d = []"
    and look: "lookupIdempotentReceipt d (av_write_space_id v) (rem_idempotency_key request) = None" and able: "able A rnd v request d"
  shows "\<exists>r d'. remember_tx st A now rnd auth request d = Inr (r, Some d')"
proof -
  from able obtain suffix rnd1 token rnd2 t x where rnd: "randomHex 16 rnd = Some (suffix, rnd1)" "randomToken 24 rnd1 = Some (token, rnd2)"
    and new: "unused (''receipt-'' @ suffix) token d" and sp: "has_space (av_write_space_id v) d" "readSpaceIndex d (av_write_space_id v) = Some t"
    and pr: "\<forall>b. List.find (\<lambda>b. bd_space_id b = av_write_space_id v) (space_steward_bindings d) = Some b \<longrightarrow>
        has_profile (bd_profile_id b) (bd_profile_version b) d" "projectLexical A (rem_text request) [] = Some x"
    and proc: "\<forall>r\<in>set (receipts d). processing_of (rt_receipt_id r) d \<noteq> None"
    unfolding able_def by blast
  let ?rid = "''receipt-'' @ suffix"
  let ?row = "(remember_row now v request ?rid token)\<lparr>rt_commit_sequence := receipts_seq d + 1\<rparr>"
  have key: "\<forall>r\<in>set (receipts d). (rt_space_id r, rt_idempotency_key r) \<noteq> (av_write_space_id v, rem_idempotency_key request)"
  proof -
    let ?P = "\<lambda>r. (rt_space_id r, rt_idempotency_key r) = (av_write_space_id v, rem_idempotency_key request) \<and> processing_of (rt_receipt_id r) d \<noteq> None"
    have "List.find ?P (receipts d) = None"
    proof (cases "List.find ?P (receipts d)")
      case (Some r)
      then have "processing_of (rt_receipt_id r) d \<noteq> None" using found_key by fast
      then show ?thesis using look unfolding lookupIdempotentReceipt_def Some by simp
    qed
    then show ?thesis using proc by (auto simp: find_None_iff)
  qed
  have "\<not> list_ex (clash_receipt ?row) (receipts d)"
    using key new by (auto simp: list_ex_iff clash_receipt_def remember_row_def unused_def)
  then have ins: "insert_receipt (remember_row now v request ?rid token) d = Some (d\<lparr>receipts := receipts d @ [?row], receipts_seq := receipts_seq d + 1\<rparr>)"
    using sp(1) by (simp add: insert_receipt_def insert_into_def tbl_insert_def Let_def remember_row_def)
  have "rt_receipt_id ?row = ?rid" by (simp add: remember_row_def)
  from remember_writes_total[OF new sp pr refl this] obtain d' where
    "remember_writes st A now v request ?rid token (d\<lparr>receipts := receipts d @ [?row], receipts_seq := receipts_seq d + 1\<rparr>) = Inr d'"
    by blast
  then show ?thesis using assms(1-3) look rnd ins by (auto simp: remember_tx_def Let_def)
qed

text \<open>Where the reference accepts and the appliance does not, the appliance reports a fault of its own.\<close>

lemma remember_tx_fault:
  assumes "authorize now d auth OperationRemember = Inr v" and "av_write_space_id v \<noteq> []" and "receipt_tombstones d = []"
    and "lookupIdempotentReceipt d (av_write_space_id v) (rem_idempotency_key request) = None"
    and "remember_tx st A now rnd auth request d = Inl e"
  shows "IsCode e ErrorCodeInternal \<or> IsCode e ErrorCodeUnavailable"
  using assms
  by (auto simp: remember_tx_def remember_writes_def resolveRememberInsertFailure_def rbind_def of_opt_def guard_def Let_def
      IsCode_def ErrorCodeOf_def databaseError_def serviceError_def split: option.splits if_splits sum.splits)

lemma conformsD_effect:
  assumes "conforms d s"
  shows "rel_option (\<lambda>(digest, rid) (row, st). rt_request_digest row = digest \<and> (\<exists>rc. sv_receipts s rid = Some rc \<and> rfr_id rc = rid \<and> same_receipt rc row st))
    (sv_idempotency s e) (lookupIdempotentReceipt d (fst e) (snd e))"
  using assms unfolding conforms_def same_effects_def by blast

lemma replay_agrees:
  assumes "conforms d s" and v: "authorize now d auth OperationRemember = Inr v" "av_write_space_id v \<noteq> []" "remember_checks st env request = Inr ()"
    and e: "sv_idempotency s (av_write_space_id v, rem_idempotency_key request) = Some (digest, rid)"
  shows "if digest = rememberRequestDigest request (av_labels v)
    then \<exists>rc r. sv_receipts s rid = Some rc \<and> Remember st A now rnd env auth request d = (Inr r, d) \<and> same_answer r (rememberResponse rc True)
    else Remember st A now rnd env auth request d =
      (Inl (serviceError ErrorCodeConflict ''idempotency key conflicts with an existing effect'' False), d)"
proof -
  let ?e = "(av_write_space_id v, rem_idempotency_key request)" and ?g = "rememberRequestDigest request (av_labels v)"
  from conformsD_effect[OF assms(1), of ?e] obtain row stt rc where p: "lookupIdempotentReceipt d (fst ?e) (snd ?e) = Some (row, stt)" "rt_request_digest row = digest"
      "sv_receipts s rid = Some rc" "same_receipt rc row stt"
    using e by (auto simp: option_rel_Some1)
  have "receipt_tombstones d = []" using assms(1) by (simp add: conforms_def)
  then have tx: "remember_tx st A now rnd auth request d = rbind (resolveIdempotent (row, stt) ?g) (\<lambda>r. Inr (r, None))"
    using v(1,2) p(1) by (simp add: remember_tx_def guard_def rbind_def Let_def)
  show ?thesis
  proof (cases "digest = ?g")
    case True
    have "Remember st A now rnd env auth request d = (Inr \<lparr>rsp_accepted = True, rsp_receipt_id = rt_receipt_id row,
        rsp_consistency_token = rt_consistency_token row, rsp_deduplicated_retry = True, rsp_processing_state = stt\<rparr>, d)"
      by (simp add: Remember_def v(3) tx resolveIdempotent_def guard_def rbind_def p(2) True)
    then show ?thesis using True p(3,4) by (simp add: rememberResponse_def same_answer_def same_receipt_def)
  qed (simp add: Remember_def v(3) tx resolveIdempotent_def guard_def rbind_def p(2))
qed

lemma fresh_agrees:
  assumes "conforms d s" and "undisturbed st env" and "24 \<le> length (sv_random s)"
    and v: "authorize now d auth OperationRemember = Inr v" "av_write_space_id v \<noteq> []" "remember_checks st env request = Inr ()"
      "rfv_write_space view = av_write_space_id v"
    and e: "sv_idempotency s (av_write_space_id v, rem_idempotency_key request) = None"
    and out: "Remember st A now rnd env auth request d = (out, d')"
    and ref: "ref_accept now view (av_labels v) request (requestDigest request (av_labels v)) s = (out', s')"
  shows "\<exists>r'. out' = Inr r' \<and> \<not> rsp_deduplicated_retry r' \<and> (\<forall>r. out = Inr r \<longrightarrow> same_answer r r' \<and> conforms d' s') \<and>
    (able A rnd v request d \<longrightarrow> (\<exists>r. out = Inr r)) \<and>
    (\<forall>e. out = Inl e \<longrightarrow> d' = d \<and> (IsCode e ErrorCodeInternal \<or> IsCode e ErrorCodeUnavailable))"
proof -
  have tomb: "receipt_tombstones d = []" using assms(1) by (simp add: conforms_def)
  have "rel_option (\<lambda>(digest, rid) (row, st). rt_request_digest row = digest \<and> (\<exists>rc. sv_receipts s rid = Some rc \<and> rfr_id rc = rid \<and> same_receipt rc row st))
      None (lookupIdempotentReceipt d (av_write_space_id v) (rem_idempotency_key request))"
    using conformsD_effect[OF assms(1), of "(av_write_space_id v, rem_idempotency_key request)"] e by simp
  then have look: "lookupIdempotentReceipt d (av_write_space_id v) (rem_idempotency_key request) = None" by simp
  obtain r' where r': "out' = Inr r'"
    using ref assms(3) by (auto simp: ref_accept_def Let_def randomToken_def read_random_def)
  have first: "\<not> rsp_deduplicated_retry r'"
    using ref r' by (auto simp: ref_accept_def rememberResponse_def Let_def split: option.splits)
  have tx: "out = Inl e \<Longrightarrow> remember_tx st A now rnd auth request d = Inl e \<and> d' = d"
    "out = Inr r \<Longrightarrow> remember_tx st A now rnd auth request d = Inr (r, None) \<or> remember_tx st A now rnd auth request d = Inr (r, Some d')" for e r
    using assms(2) out v(3)
    by (auto simp: Remember_def undisturbed_def commit_tx_def rbind_def split: sum.splits option.splits if_splits)
  have "same_answer r r' \<and> conforms d' s'" if "out = Inr r" for r
  proof -
    have "remember_tx st A now rnd auth request d \<noteq> Inr (r, None)" using v(1) look by (auto elim: remember_tx_replay)
    with tx(2)[OF that] have "new_effect v request r d d'" using v(1) by (auto elim: remember_tx_new)
    then show ?thesis using accept_conforms[OF assms(1) _ v(4)] ref r' by simp
  qed
  moreover have "\<exists>r. out = Inr r" if "able A rnd v request d"
    using remember_tx_able[OF v(1,2) tomb look that, of st] assms(2) out v(3)
    by (auto simp: Remember_def undisturbed_def commit_tx_def rbind_def)
  moreover have "d' = d \<and> (IsCode e ErrorCodeInternal \<or> IsCode e ErrorCodeUnavailable)" if "out = Inl e" for e
    using tx(1)[OF that] remember_tx_fault[OF v(1,2) tomb look, of st A rnd e] by simp
  ultimately show ?thesis using r' first by (intro exI[of _ r']) simp
qed

text \<open>
  Claim C34. The durable appliance conforms to the reference service. Start both in states that agree
  on topology and effects, with no deletion recorded and the appliance running undisturbed (not
  closing, not pending, no fault around the commit), and send both the same \<open>Remember\<close> at the same
  time with the same context. What the reference refuses, the appliance refuses with the same error,
  and neither changes. What the appliance accepts or replays, the reference accepts or replays with
  the same answer, up to the identity and token each draws, and the states agree again, so the
  agreement lasts for any sequence of calls. What the reference replays, the appliance replays; what
  it newly accepts, the appliance accepts whenever it is able to store it; and when the appliance
  cannot, it reports an internal fault or that it is unavailable and stores nothing.
\<close>

theorem appliance_conforms_to_reference:
  assumes "conforms d s" and "undisturbed st env" and "24 \<le> length (sv_random s)"
    and "Remember st A now rnd env auth request d = (out, d')"
    and "ref_Remember now (en_context_done env) auth request s = (out', s')"
  shows "(\<forall>e. out' = Inl e \<longrightarrow> out = Inl e \<and> d' = d \<and> s' = s) \<and>
    (\<forall>r. out = Inr r \<longrightarrow> (\<exists>r'. out' = Inr r' \<and> same_answer r r' \<and> conforms d' s')) \<and>
    (\<forall>r'. out' = Inr r' \<longrightarrow> (\<exists>v. authorize now d auth OperationRemember = Inr v \<and>
       (rsp_deduplicated_retry r' \<or> able A rnd v request d \<longrightarrow> (\<exists>r. out = Inr r)) \<and>
       (\<forall>e. out = Inl e \<longrightarrow> d' = d \<and> (IsCode e ErrorCodeInternal \<or> IsCode e ErrorCodeUnavailable))))"
  using refusals_agree[OF assms(1,2), of now auth request A rnd]
proof (elim disjE exE conjE, goal_cases)
  case (1 e)
  then show ?case using assms(4,5) by simp
next
  case (2 v view)
  let ?e = "(av_write_space_id v, rem_idempotency_key request)"
  show ?case
  proof (cases "sv_idempotency s ?e")
    case None
    have "ref_accept now view (av_labels v) request (requestDigest request (av_labels v)) s = (out', s')" using 2(5) None assms(5) by simp
    from fresh_agrees[OF assms(1-3) 2(1-4) None assms(4) this] 2(1) show ?thesis by auto
  next
    case (Some p)
    then obtain digest rid where p: "sv_idempotency s ?e = Some (digest, rid)" by (cases p) auto
    note old = replay_agrees[OF assms(1) 2(1-3) p, of A rnd, unfolded assms(4)]
    have ref: "(out', s') = (if digest \<noteq> rememberRequestDigest request (av_labels v)
        then (Inl (serviceError ErrorCodeConflict ''idempotency key conflicts with an existing effect'' False), s)
        else (Inr (rememberResponse (case sv_receipts s rid of Some r \<Rightarrow> r | None \<Rightarrow> ref_zero_receipt) True), s))"
      using assms(5) 2(5) p by (simp add: Let_def requestDigest_agrees)
    show ?thesis using old ref assms(1) 2(1) by (cases "digest = rememberRequestDigest request (av_labels v)") auto
  qed
qed

text \<open>
  Authorisation agrees: on the same topology both services give every call the same error or
  the same readable and writable Spaces and labels.
\<close>

theorem authorization_agrees_with_reference:
  assumes "same_topology d s"
  shows "(\<forall>e. authorize now d auth p = Inl e \<longleftrightarrow> authorizeLocked now s auth p = Inl e) \<and>
    (\<forall>v. authorize now d auth p = Inr v \<longrightarrow> (\<exists>view. authorizeLocked now s auth p = Inr (view, av_labels v) \<and>
       rfv_read_spaces view = av_read_space_ids v \<and> rfv_write_space view = av_write_space_id v))"
  using authorize_agrees[OF assms, of now auth p] authorized_view_mirrored[of now d auth p] by (cases "authorize now d auth p") auto

section \<open>Isolation of the reference recall\<close>

definition readable_source :: "server \<Rightarrow> string list \<Rightarrow> string list \<Rightarrow> ref_receipt \<Rightarrow> bool" where
  "readable_source s labels allowed rc \<longleftrightarrow> rfr_labels rc = labels \<and>
     (\<exists>space\<in>set allowed. \<exists>rid\<in>set (sv_by_space s space). rc = (case sv_receipts s rid of Some r \<Rightarrow> r | None \<Rightarrow> ref_zero_receipt))"

lemma readable_source_reads [simp]: "readable_source (s\<lparr>sv_candidate_reads := f\<rparr>) = readable_source s"
  by (intro ext) (simp add: readable_source_def)

lemma snapshot_space_sources:
  assumes "snapshot_space expired s labels class ids (tick, sources) = Inr (tick', sources')" and "set ids \<subseteq> set (sv_by_space s space)"
    and "space \<in> set allowed" and "\<forall>x\<in>set sources. readable_source s labels allowed (fst x)"
  shows "\<forall>x\<in>set sources'. readable_source s labels allowed (fst x)"
  using assms
proof (induction ids arbitrary: tick sources)
  case (Cons rid ids)
  have "readable_source s labels allowed (case sv_receipts s rid of Some r \<Rightarrow> r | None \<Rightarrow> ref_zero_receipt)"
    if "rfr_labels (case sv_receipts s rid of Some r \<Rightarrow> r | None \<Rightarrow> ref_zero_receipt) = labels"
    using that Cons.prems(2,3) unfolding readable_source_def by auto
  then show ?case using Cons.prems Cons.IH[where tick = "Suc tick"] by (auto simp: Let_def split: if_splits)
qed simp

lemma snapshot_spaces_sources:
  assumes "snapshot_spaces expired labels ids (tick, sources) s = (Inr (tick', sources'), s')" and "set ids \<subseteq> set allowed"
    and "\<forall>x\<in>set sources. readable_source s labels allowed (fst x)"
  shows "\<forall>x\<in>set sources'. readable_source s labels allowed (fst x)"
  using assms
proof (induction ids arbitrary: tick sources s)
  case (Cons space ids)
  let ?s = "s\<lparr>sv_candidate_reads := (sv_candidate_reads s)(space := sv_candidate_reads s space + 1)\<rparr>"
  from Cons.prems(1) obtain cls t1 acc where one: "snapshot_space expired ?s labels cls (sv_by_space ?s space) (Suc tick, sources) = Inr (t1, acc)"
      "snapshot_spaces expired labels ids (t1, acc) ?s = (Inr (tick', sources'), s')"
    by (auto simp: Let_def split: if_splits sum.splits)
  have "\<forall>x\<in>set acc. readable_source ?s labels allowed (fst x)"
    by (rule snapshot_space_sources[OF one(1)]) (use Cons.prems(2,3) in auto)
  with Cons.IH[OF one(2)] Cons.prems(2) show ?case by simp
qed simp

lemma score_sources_subset:
  assumes "score_sources A expired terms sources (tick, cs) = Inr (tick', cs')"
  shows "snd ` set cs' \<subseteq> snd ` set cs \<union> set sources"
  using assms
proof (induction sources arbitrary: tick cs)
  case (Cons a sources)
  let ?n = "lexicalScore A (rfr_text (fst a)) terms"
  have "score_sources A expired terms sources (Suc tick, if ?n = 0 then cs else cs @ [(?n, a)]) = Inr (tick', cs')"
    using Cons.prems by (simp add: Let_def split: if_splits)
  from Cons.IH[OF this] show ?case by (auto split: if_splits)
qed simp

text \<open>Every fragment of the reference cites a receipt of a readable Space with the caller's labels.\<close>

theorem reference_recall_isolated:
  assumes "ref_Recall A now expired auth request s = (Inr response, s')" and "f \<in> set (rcl_fragments response)" and "e \<in> set (frag_evidence_refs f)"
  shows "\<exists>view labels rc. authorizeLocked now s auth OperationRecall = Inr (view, labels) \<and> rfr_id rc = e \<and>
    readable_source s labels (rfv_read_spaces view) rc"
proof -
  from assms(1) obtain view labels tick sources tick2 cs truncated where
    auth: "authorizeLocked now s auth OperationRecall = Inr (view, labels)"
    and snap: "snapshot_spaces expired labels (rfv_read_spaces view) (1, []) s = (Inr (tick, sources), s')"
    and score: "score_sources A expired (queryTerms A (rec_query request)) sources (tick, []) = Inr (tick2, cs)"
    and frags: "recall_fragments expired (Suc tick2) (bud_max_fragments (rec_budget request)) (bud_max_bytes (rec_budget request))
        (map scored_candidate (sort_scored cs)) [] False = Inr (rcl_fragments response, truncated)"
    unfolding ref_Recall_def by (auto split: sum.splits prod.splits elim!: run_elims)
  let ?Q = "\<lambda>e. \<exists>rc. rfr_id rc = e \<and> readable_source s labels (rfv_read_spaces view) rc"
  have src: "\<forall>x\<in>set sources. readable_source s labels (rfv_read_spaces view) (fst x)" by (rule snapshot_spaces_sources[OF snap]) auto
  have "\<forall>c\<in>set (map scored_candidate (sort_scored cs)). candidate_ok (\<lambda>_. True) ?Q c"
    using src score_sources_subset[OF score] by (fastforce simp: sort_scored_def scored_candidate_def candidate_ok_def)
  from recall_fragments_evidence[OF frags this] assms(2,3) auth show ?thesis by auto
qed

text \<open>The reference stores a receipt without the extension labels of its source context, whatever they were.\<close>

theorem reference_loses_extension_labels:
  assumes "ref_Remember now contextDone auth request s = (Inr r, s')" and "\<not> rsp_deduplicated_retry r"
  shows "\<exists>rc. sv_receipts s' (rsp_receipt_id r) = Some rc \<and> rfr_text rc = rem_text request \<and> sc_extension_labels (rfr_source_context rc) = []"
  using assms by (auto simp: ref_Remember_def ref_accept_def rememberResponse_def cloneSourceContext_def Let_def split: sum.splits option.splits if_splits)

section \<open>A conforming pair\<close>

text \<open>An appliance without receipts and the reference service with its topology agree.\<close>

definition mirror :: "string \<Rightarrow> db \<Rightarrow> server" where
  "mirror random d =
    \<lparr>sv_generation = [], sv_random = random, sv_next_id = 0, sv_sequence = 0, sv_realms = map rlm_id (realms d),
     sv_identities = (\<lambda>i. map_option idn_realm_id (List.find (\<lambda>x. idn_id x = i) (identities d))),
     sv_spaces = (\<lambda>i. map_option mirror_space (space_of i d)), sv_views = (\<lambda>i. map_option (mirror_view d) (view_of i d)),
     sv_grants = (\<lambda>i. map_option (mirror_grant d) (grant_of i d)),
     sv_capabilities = (\<lambda>token. map_option (mirror_capability d) (List.find (\<lambda>c. cp_token_digest c = digestBytes token) (capabilities d))),
     sv_issuers = (\<lambda>_. None), sv_receipts = (\<lambda>_. None), sv_by_space = (\<lambda>_. []), sv_idempotency = (\<lambda>_. None), sv_tokens = (\<lambda>_. None),
     sv_candidate_reads = (\<lambda>_. 0), sv_available = True\<rparr>"

lemma mirror_conforms:
  assumes "receipts d = []" and "receipt_tombstones d = []"
    and "\<forall>c\<in>set (capabilities d). \<exists>l. decodeStoredLabelSet (cp_label_set c) (cp_label_set_digest c) = Inr l"
  shows "conforms d (mirror random d)"
  using assms by (simp add: conforms_def same_topology_def same_effects_def mirror_def lookupIdempotentReceipt_def)

lemma demo_conforms: "conforms demo_private (mirror (replicate 24 CHR ''y'') demo_private)"
  by (rule mirror_conforms) (auto simp: demo_db_def empty_db_def)

lemma demo_able: "able demo_analyzer (replicate 40 CHR ''x'') (demo_view SpaceClassPrivate) demo_request demo_private"
proof -
  obtain x where "projectLexical demo_analyzer (rem_text demo_request) [] = Some x" by (simp add: projectLexical_def demo_analyzer_def)
  then show ?thesis
    by (simp add: able_def unused_def randomHex_def randomToken_def read_random_def demo_defs has_space_def readSpaceIndex_def)
qed

theorem appliance_conforms_to_reference_witness:
  "\<exists>r d' r' s'. Remember demo_store demo_analyzer 5 (replicate 40 CHR ''x'') demo_env (demo_auth AudiencePrivate) demo_request demo_private = (Inr r, d') \<and>
    \<not> rsp_deduplicated_retry r \<and>
    ref_Remember 5 False (demo_auth AudiencePrivate) demo_request (mirror (replicate 24 CHR ''y'') demo_private) = (Inr r', s') \<and>
    same_answer r r' \<and> conforms d' s' \<and> able demo_analyzer (replicate 40 CHR ''x'') (demo_view SpaceClassPrivate) demo_request demo_private"
proof -
  obtain r d' where run: "Remember demo_store demo_analyzer 5 (replicate 40 CHR ''x'') demo_env (demo_auth AudiencePrivate) demo_request demo_private = (Inr r, d')"
      "\<not> rsp_deduplicated_retry r"
    by (rule demo_remember_ok)
  obtain out' s' where ref: "ref_Remember 5 (en_context_done demo_env) (demo_auth AudiencePrivate) demo_request (mirror (replicate 24 CHR ''y'') demo_private) = (out', s')"
    by (cases "ref_Remember 5 (en_context_done demo_env) (demo_auth AudiencePrivate) demo_request (mirror (replicate 24 CHR ''y'') demo_private)")
  have "undisturbed demo_store demo_env" by (simp add: undisturbed_def demo_store_def demo_env_def)
  moreover have "24 \<le> length (sv_random (mirror (replicate 24 CHR ''y'') demo_private))" by (simp add: mirror_def)
  ultimately have "\<exists>r'. out' = Inr r' \<and> same_answer r r' \<and> conforms d' s'"
    using appliance_conforms_to_reference[OF demo_conforms _ _ run(1) ref] by blast
  moreover have "en_context_done demo_env = False" by (simp add: demo_env_def)
  ultimately show ?thesis using run ref demo_able by auto
qed

end
