(* ===== verification/Spec2Isabelle.thy ===== *)
theory Spec2Isabelle
  imports Maintenance Backup_File Restore_Laws Reference_Laws
begin

text \<open>
  A verification development of the Memory appliance, a Go package that gives agent hosts a durable
  memory (\<open>internal/appliance\<close> with its contracts in \<open>api/memory\<close> and its backup format in
  \<open>internal/backupfile\<close>). Hosts store evidence with \<open>Remember\<close> and \<open>SubmitEvidence\<close>, read it with
  \<open>Recall\<close> and \<open>ReadFacts\<close>; a Steward Worker leases jobs and proposes semantic records derived from
  the evidence; the owner corrects and deletes evidence, which takes effect on everything derived
  from it; the operator backs up, restores, upgrades and rotates credentials. All state is one SQLite
  database in an owner-only data directory.

  \<^bold>\<open>How the code is modelled.\<close> A transaction is a function from the database (record \<open>db\<close> of theory
  Schema: every table a list of rows, its keys and references checked by the insert) to an error or a
  result with the new database; a failing transaction leaves the database unchanged. What becomes of a
  commit is an input (\<open>commit_outcome\<close>: done, reported as failed but applied, lost), and so are the clock,
  the random bytes, the injected faults of \<open>Options.Faults\<close> and the expiry of the context. A handler
  reads the clock once, except that the cleanup after a deletion has its own reading. Go strings are
  byte strings, times are nanoseconds in UTC and become texts where SQL compares texts, counters that
  the code keeps in 32 bits are \<open>32 word\<close>, JSON columns hold the value they decode to, and JSON
  sizes and digests are computed from the encoding itself. A Go map that is iterated over is an
  association list in insertion order. Where a handler returns an answer together with an error the
  model returns the error. The segmenter and the Unicode tables of the lexical analyzer and the match
  and rank of SQLite's FTS5 are parameters. The appliance is modelled with a nil \<open>LexiconPolicy\<close>, as
  the production composition opens it.

  \<^bold>\<open>Theories and sources\<close> (under \<open>src/\<close>; \<open>A\<close> is \<open>internal/appliance\<close>).
  \<^item> Prelude: results, guards, tables and the locale \<open>keyed_table\<close> of a table with a unique key,
    interpreted in Schema on the constraints of the schema. Go_Text, Go_Time, Sha256: what the code
    uses of \<open>unicode/utf8\<close>, \<open>strings\<close>, \<open>encoding\<close>, \<open>time\<close> and \<open>crypto/sha256\<close>, and the clock texts of
    \<open>A/steward_schedule.go\<close> and \<open>A/store.go\<close>.
  \<^item> Contracts, Worker_Contract, Management_Contract: \<open>api/memory/v1alpha1\<close>, the Steward and facts
    contracts, and the management contract, with their validation and bounds.
  \<^item> Schema: \<open>A/schema_baseline.go\<close>, \<open>A/facts_schema.go\<close>. Topology: \<open>A/config.go\<close> (Spaces, Views,
    Grants, capabilities and \<open>authorize\<close>). Lexical: \<open>A/lexical.go\<close>, \<open>A/lexical_schema.go\<close>.
  \<^item> Profiles: \<open>A/steward_profile.go\<close>. Data_Plane: \<open>Remember\<close> and the receipt status of
    \<open>A/dataplane.go\<close>. Recall: its \<open>Recall\<close> with \<open>A/semantic_recall.go\<close>.
  \<^item> Steward_Queue: \<open>A/steward_jobs.go\<close>, \<open>A/steward_context.go\<close>. Steward_Apply: \<open>A/steward.go\<close>.
  \<^item> Forgetting: the closure of \<open>A/governance_cleanup.go\<close>. Governance: correction, deletion, barriers,
    cleansing and recovery in \<open>A/governance.go\<close>, \<open>A/governance_cleanup.go\<close> and
    \<open>A/governance_processing.go\<close>; Governance_Laws, Deletion and Correction hold what they guarantee.
    Governance_Reads: searching, tracing and listing for the owner.
  \<^item> Facts_Timeline, Facts_Ingest, Facts_Read: \<open>A/facts_lifecycle.go\<close>, \<open>A/facts_ingest.go\<close>,
    \<open>A/facts_read.go\<close>, \<open>A/facts_changes.go\<close>; the laws are in Facts_Laws, Evidence and Fact_Queries.
  \<^item> Knowledge: an abstract specification of what the appliance knows. System: the step relation of all
    handlers that write the canonical tables, the invariant \<open>system_ok\<close> and the simulation.
  \<^item> Maintenance: diagnostics and the rebuild of the projection in \<open>A/inspect.go\<close>, and the export of
    \<open>A/export_backup.go\<close>.
  \<^item> Aes_Gcm, Backup_File: \<open>internal/backupfile/format.go\<close> over an executable AES-256-GCM, through the
    locale \<open>aead_scheme\<close>, which is interpreted on that cipher.
  \<^item> Disk: the data directory as a map from names to files, where every call of the operating system
    or of SQLite is a step that an oracle may fail and after which the process may stop; a Hoare logic
    with an invariant over all these states. Credentials: \<open>A/management_credential.go\<close> and the
    credential part of \<open>A/store.go\<close>. Restoration, Restore_Laws: \<open>A/restore.go\<close>, \<open>A/lock.go\<close>,
    the ledger check of \<open>A/schema_baseline.go\<close>.
  \<^item> Reference, Reference_Laws: the in-memory reference service of \<open>internal/reference\<close>, and the
    simulation between it and the durable data plane.

  \<^bold>\<open>What is shown.\<close>
  \<^item> The whole appliance (this theory): the database invariant is inductive over all handlers and
    faults; the handlers refine the four moves of the abstract specification; what was forgotten never
    returns, and a deletion cannot be undone by a retry or a resubmission.
  \<^item> Authority: only live, unrevoked, matching authority is honoured; shared audiences read no private
    Space; recall and fact reads disclose only what the caller may see, within their budgets.
  \<^item> Evidence and jobs: acceptance is durable, atomic and idempotent; the appliance refuses exactly
    what the reference service refuses and accepts what it accepts whenever it can store it; leases, attempts and read sets
    are respected by the Steward; structured facts are out of its reach.
  \<^item> Forgetting: the closure loop ends and computes the least closed set; deletion leaves nothing live
    and no derived content, correction keeps the evidence, recovery finishes interrupted work, and the
    owner's views do not show what is forgotten.
  \<^item> Facts: no two current truths, ordered lifecycles, one adopted revision at each instant, exact
    change pages.
  \<^item> Operation: rebuilding restores the projection, an export is exact, a backup round-trips and is
    tamper evident, and restore, upgrade, rollback and credential rotation survive a crash after any
    call, except for the two ways into an unusable store that Credentials exhibits. The texts of the
    scheduler columns sort like the times they denote; those of the other columns do not, and Go_Time
    says exactly when.

  \<^bold>\<open>Bounds and termination.\<close> All loops are structural recursions or have a termination proof; the only
  one whose end depends on the environment is the closure of Forgetting, which is a recursion on the
  records and jobs not yet reached and stops early when the oracle \<open>expired\<close> says that the context has
  ended; it is shown to return whenever the context lives. No fuel is used. A backup is limited to
  chunk numbers below \<open>2 ^ 32\<close>, and the round trip holds under the code's own limit.

  \<^bold>\<open>Not modelled.\<close> The private Space lexicon (\<open>A/lexicon.go\<close>), which production leaves off; the schema
  migration scripts, the one-off repairs of old stores and the connection settings of SQLite, whose
  effects are DDL and driver state; \<open>VACUUM INTO\<close> and \<open>integrity_check\<close> beyond copying a database and a
  parameter that judges it; the write-ahead log as a file of its own, because a closed connection has
  checkpointed it; the local transport, the SDK, the command line and the
  evaluation and conformance programs, which pass values between processes or only measure; and concurrency inside one
  process, because every mutating transaction holds SQLite's single writer slot from its first read.
  A file system call that fails has no effect in the model, and one that is durable is durable at once;
  a directory that cannot be synced is always an error, where the code forgives this on Windows
  and on file systems that do not support it.
\<close>

section \<open>The appliance as a whole\<close>

text \<open>
  Claim C1. The invariant of the whole database is inductive: it holds of a fresh database, and every
  call of every handler that writes the canonical tables (the rebuild of the lexical projection leaves
  them alone), with any clock, randomness, injected fault and commit outcome,
  keeps it. It says that no two live confirmed facts contradict each other, that every fact
  lifecycle is ordered, that revisions are numbered without gaps and all references resolve, and
  that no record behind a forgetting barrier is live.
\<close>

theorem system_invariant:
  assumes "system_ok d" and "step\<^sup>*\<^sup>* d d'"
  shows "system_ok d' \<and> system_ok empty_db"
  using assms steps_evolve empty_ok by (simp add: evolves_def)

text \<open>
  Claim C2. The handlers implement the abstract specification of what the appliance knows: each call
  moves the heads, contents and barred records of the database by a sequence of the four abstract
  moves \<open>learn\<close>, \<open>revise\<close>, \<open>forget\<close> and \<open>cleanse\<close>, so nothing else can ever happen to a record.
\<close>

theorem system_refines_knowledge:
  assumes "system_ok d" and "step d d'"
  shows "knows\<^sup>*\<^sup>* (knowledge_of d) (knowledge_of d')"
  using assms step_evolves by (simp add: evolves_def)

text \<open>
  Claim C3. What was forgotten stays forgotten: once a record lies behind a forgetting barrier, no
  sequence of calls makes it live again or adds a revision to it, and each of its revisions holds
  what it held or nothing.
\<close>

theorem forgotten_stays_forgotten:
  assumes "system_ok d" and "step\<^sup>*\<^sup>* d d'" and "b \<in> set (forgetting_barrier_records d)"
  shows "\<exists>r r'. record_of (br_record_id b) d = Some r \<and> record_of (br_record_id b) d' = Some r' \<and>
    sm_status r' \<noteq> RecordStatusActive \<and> sm_current_revision r' = sm_current_revision r \<and>
    (\<forall>n v'. revision_of (br_record_id b) n d' = Some v' \<longrightarrow> (\<exists>v. revision_of (br_record_id b) n d = Some v \<and>
       (content_of v' = content_of v \<or> content_of v' = ([], [], None))))"
proof -
  let ?k = "br_record_id b" and ?s = "knowledge_of d" and ?s' = "knowledge_of d'"
  have barred: "?k \<in> kn_barred ?s" using assms(3) by (simp add: knowledge_of_def)
  have "knows\<^sup>*\<^sup>* ?s ?s'" using assms(1,2) steps_evolve by (simp add: evolves_def)
  then have keeps: "keeps ?s ?s'" using knowledge_persists system_knowledge_ok[OF assms(1)] by blast
  obtain r where r: "record_of ?k d = Some r" "\<not> live_row r" using assms(1,3) by (rule barred_record)
  have "kn_heads ?s' ?k = kn_heads ?s ?k" using keeps barred by (simp add: keeps_def)
  then obtain r' where r': "record_of ?k d' = Some r'" "head_of r' = head_of r" using r by (auto simp: knowledge_of_def)
  have "\<exists>v. revision_of ?k n d = Some v \<and> (content_of v' = content_of v \<or> content_of v' = ([], [], None))"
    if "revision_of ?k n d' = Some v'" for n v'
  proof -
    have v': "kn_content ?s' (?k, n) = Some (content_of v')" using that by (simp add: knowledge_of_def)
    then obtain c where c: "kn_content ?s (?k, n) = Some c" using keeps barred unfolding keeps_def by (metis option.distinct(1) not_Some_eq)
    then have "content_of v' = c \<or> content_of v' = ([], [], None)" using keeps v' unfolding keeps_def by (metis option.inject)
    with c show ?thesis by (auto simp: knowledge_of_def)
  qed
  with r r' show ?thesis by (auto simp: head_of_def)
qed

lemma delete_suppresses:
  assumes "DeleteReceipt s env request d = (res, d')" and "d' \<noteq> d" and "receipt_of (dq_receipt_id request) d = Some receipt"
    and "source_of_key d view key = Some e" and "es_receipt_id e = dq_receipt_id request"
  shows "source_suppressed d' view key"
  using assms(1,3,2)
proof (rule delete_effect_cases)
  fix response b d1
  assume new: "delete_new env request (digestString (json_encode (json_delete_request request))) receipt d = Inr (Deleted response b d1)"
    and rest: "d' = d1 \<and> (\<forall>r. res \<noteq> Inr r) \<or> (\<exists>u. cleanupForgettingBarrier (ge_cleanup_now env) (ge_cleanup_commit env) b d1 = (u, d') \<and>
        res = Inr (case u of Inl _ \<Rightarrow> response | Inr _ \<Rightarrow> response\<lparr>dr_cleanup := CleanupStateCompleted\<rparr>))"
  obtain version d2 where
    g: "govern_receipt (ge_now env) (ge_expired env) BarrierReceiptDeleted (rt_space_id receipt) (rt_label_set_digest receipt) (dq_receipt_id request) d = Inr (version, d2)"
    and d1: "evidence_sources d1 = evidence_sources d2"
    using new by (rule delete_new_InrE) (simp add: delete_receipt_rows_def delete_receipt_projection_def)
  have "source_suppressed d1 view key"
    by (rule suppressing(2)[OF _ assms(4,5)]) (simp add: d1 govern_receipt_sources[OF g])
  with rest show "source_suppressed d' view key" using cleanup_kept by (auto simp: deletions_kept_def)
qed

lemma suppressed_submission:
  assumes "source_suppressed d view (sourceKey (sub_source sub))" and "authorize now d auth OperationRemember = Inr view"
  shows "\<exists>answer. SubmitEvidence s A now rnd out auth sub d = (answer, d) \<and> (\<forall>r. answer = Inr r \<longrightarrow> \<not> sbr_accepted r)"
proof -
  have key: "sourceKey (sub_source (canonical_submit sub)) = sourceKey (sub_source sub)" by (simp add: canonical_submit_def)
  obtain prior where prior: "source_of_key d view (sourceKey (sub_source sub)) = Some prior" "es_suppressed prior"
    using assms(1) by (auto simp: source_suppressed_def split: option.splits)
  have "\<exists>r. submit_tx s A now rnd auth sub d = Inr (r, None) \<and> \<not> sbr_accepted r" if "submit_tx s A now rnd auth sub d = Inr st" for st
    using that assms(2) prior key unfolding submit_tx_def Let_def
    by (auto simp: submit_refused_def split: option.splits elim!: run_elims)
  then show ?thesis
    by (cases "rbind (requireMutableGeneration s) (\<lambda>_. submit_tx s A now rnd auth sub d)")
       (auto simp: SubmitEvidence_def elim!: run_elims)
qed

text \<open>
  Claim C4. A deletion is final: whatever calls follow, a retry of the deleted \<open>Remember\<close> with its
  idempotency key stores nothing, and submitting the deleted evidence again from the same source is
  never accepted and stores nothing.
\<close>

theorem deletion_is_final:
  assumes "DeleteReceipt s env request d = (res, d1)" and "d1 \<noteq> d" and "receipt_of (dq_receipt_id request) d = Some receipt"
    and "step\<^sup>*\<^sup>* d1 d2" and "authorize now d2 auth OperationRemember = Inr view"
  shows "(av_write_space_id view = rt_space_id receipt \<and> rem_idempotency_key rem = rt_idempotency_key receipt \<longrightarrow>
      snd (Remember s' A now rnd renv auth rem d2) = d2) \<and>
    (source_of_key d view (sourceKey (sub_source sub)) = Some e \<and> es_receipt_id e = dq_receipt_id request \<longrightarrow>
      (\<exists>answer. SubmitEvidence s' A now rnd out auth sub d2 = (answer, d2) \<and> (\<forall>r. answer = Inr r \<longrightarrow> \<not> sbr_accepted r)))"
proof (rule conjI)
  have kept: "deletions_kept d1 d2" using assms(4) by (rule steps_keep)
  show "av_write_space_id view = rt_space_id receipt \<and> rem_idempotency_key rem = rt_idempotency_key receipt \<longrightarrow>
      snd (Remember s' A now rnd renv auth rem d2) = d2"
  proof
    assume v: "av_write_space_id view = rt_space_id receipt \<and> rem_idempotency_key rem = rt_idempotency_key receipt"
    obtain t where "t \<in> set (receipt_tombstones d1)" "tb_space_id t = rt_space_id receipt" "tb_idempotency_key t = rt_idempotency_key receipt"
      using delete_establishes[OF assms(1,3,2)] by (auto simp: deleted_spec_def Let_def)
    then have "list_ex (\<lambda>t. (tb_space_id t, tb_idempotency_key t) = (av_write_space_id view, rem_idempotency_key rem)) (receipt_tombstones d2)"
      using kept v by (auto simp: deletions_kept_def list_ex_iff)
    then have "\<exists>e. remember_tx s' A now rnd auth rem d2 = Inl e"
      using assms(5) by (auto simp: remember_tx_def Let_def guard_def rbind_def split: sum.splits)
    then show "snd (Remember s' A now rnd renv auth rem d2) = d2"
      by (auto simp: Remember_def rbind_def split: sum.splits)
  qed
  show "source_of_key d view (sourceKey (sub_source sub)) = Some e \<and> es_receipt_id e = dq_receipt_id request \<longrightarrow>
      (\<exists>answer. SubmitEvidence s' A now rnd out auth sub d2 = (answer, d2) \<and> (\<forall>r. answer = Inr r \<longrightarrow> \<not> sbr_accepted r))"
    using delete_suppresses[OF assms(1-3)] kept suppressed_submission[OF _ assms(5)] by (auto simp: deletions_kept_def)
qed

section \<open>Witnesses\<close>

lemma same_authority_erased:
  assumes "erase_cleansed d' = erase_cleansed d"
  shows "same_authority d d'"
proof -
  have sel: "f (erase_cleansed d') = f (erase_cleansed d)" for f :: "db \<Rightarrow> 'x" using assms by simp
  show ?thesis
    using sel[of capabilities] sel[of capability_operations] sel[of grants] sel[of grant_operations] sel[of grant_audiences]
      sel[of views] sel[of view_read_spaces] sel[of spaces]
    by (simp add: same_authority_def erase_cleansed_def erase_governed_def)
qed

lemma delete_authority:
  assumes "DeleteReceipt s env request d = (res, d')" and "d' \<noteq> d" and "receipt_of (dq_receipt_id request) d = Some receipt"
  shows "same_authority d d'"
  using assms(1,3,2)
proof (rule delete_effect_cases)
  fix response b d1
  assume new: "delete_new env request (digestString (json_encode (json_delete_request request))) receipt d = Inr (Deleted response b d1)"
    and rest: "d' = d1 \<and> (\<forall>r. res \<noteq> Inr r) \<or> (\<exists>u. cleanupForgettingBarrier (ge_cleanup_now env) (ge_cleanup_commit env) b d1 = (u, d') \<and>
        res = Inr (case u of Inl _ \<Rightarrow> response | Inr _ \<Rightarrow> response\<lparr>dr_cleanup := CleanupStateCompleted\<rparr>))"
  obtain version d2 where
    g: "govern_receipt (ge_now env) (ge_expired env) BarrierReceiptDeleted (rt_space_id receipt) (rt_label_set_digest receipt) (dq_receipt_id request) d = Inr (version, d2)"
    and d1: "same_authority d2 d1"
    using new by (rule delete_new_InrE) (simp add: delete_receipt_rows_def delete_receipt_projection_def same_authority_def)
  have "governed_frame d d2" using g by (rule govern_receipt_InrE)
  then have "same_authority d d2" by (intro same_authority_erased) (simp add: governed_frame_def erase_cleansed_def)
  moreover have "same_authority d1 d'"
    using rest cleanup_gives_frame by (auto simp: same_authority_def[of d1 d1] cleanup_frame_def intro: same_authority_erased)
  ultimately show ?thesis using d1 same_authority_trans by blast
qed

text \<open>The concrete deletion as a step of the appliance.\<close>

lemma demo_deletion_step:
  obtains r d' where "DeleteReceipt demo_store demo_genv demo_delete demo_governed = (Inr r, d')" "d' \<noteq> demo_governed"
    "step demo_governed d'" "\<exists>b\<in>set (forgetting_barrier_records d'). br_record_id b = ''a''"
    "authorize 5 d' (demo_auth AudiencePrivate) OperationRemember = Inr (demo_view SpaceClassPrivate)"
proof -
  obtain r d' where run: "DeleteReceipt demo_store demo_genv demo_delete demo_governed = (Inr r, d')" "d' \<noteq> demo_governed"
    by (rule demo_deleted)
  have "deleted_spec demo_governed demo_delete demo_receipt d'" by (rule delete_establishes[OF run(1) demo_delete_receipt(1) run(2)])
  then have "forgottenRecord d' ''a''" using demo_attributed by (simp add: deleted_spec_def Let_def demo_receipt_fields demo_delete_receipt)
  then have "\<exists>b\<in>set (forgetting_barrier_records d'). br_record_id b = ''a''"
    by (auto simp: forgottenRecord_def record_barriers_def filter_empty_conv)
  moreover have "authorize 5 d' (demo_auth AudiencePrivate) OperationRemember = Inr (demo_view SpaceClassPrivate)"
    using authorize_frame[OF delete_authority[OF run demo_delete_receipt(1)]] authorize_frame[of demo_private demo_governed]
      demo_authorize[of SpaceClassPrivate AudiencePrivate OperationRemember]
    by (simp add: same_authority_def demo_governed_def demo_indexed_def)
  ultimately show thesis using run step.delete[OF run(1)] by (intro that)
qed

theorem system_invariant_witness:
  "\<exists>d'. step demo_governed d' \<and> d' \<noteq> demo_governed \<and> system_ok d'"
proof -
  obtain r d' where "step demo_governed d'" "d' \<noteq> demo_governed" by (rule demo_deletion_step)
  with system_invariant[OF demo_governed_ok, of d'] show ?thesis by auto
qed

theorem system_refines_knowledge_witness:
  "\<exists>d'. step demo_governed d' \<and> d' \<noteq> demo_governed \<and> knows\<^sup>*\<^sup>* (knowledge_of demo_governed) (knowledge_of d')"
proof -
  obtain r d' where "step demo_governed d'" "d' \<noteq> demo_governed" by (rule demo_deletion_step)
  with system_refines_knowledge[OF demo_governed_ok, of d'] show ?thesis by auto
qed

theorem forgotten_stays_forgotten_witness:
  "\<exists>d1 d2. step demo_governed d1 \<and> step d1 d2 \<and> (\<exists>r. record_of ''a'' d2 = Some r \<and> sm_status r \<noteq> RecordStatusActive)"
proof -
  obtain r d1 b where run: "step demo_governed d1" and b: "b \<in> set (forgetting_barrier_records d1)" "br_record_id b = ''a''"
    by (rule demo_deletion_step) blast
  obtain u d2 where rec: "RecoverGovernanceCleanup (\<lambda>_. 9) (\<lambda>_. Committed) d1 = (u, d2)" by fastforce
  have "system_ok d1" using run step_evolves demo_governed_ok by (simp add: evolves_def)
  from forgotten_stays_forgotten[OF this r_into_rtranclp[of step, OF step.recover[OF rec]] b(1)] b(2) run step.recover[OF rec]
  show ?thesis by auto
qed

theorem deletion_is_final_witness:
  "\<exists>d1. step demo_governed d1 \<and> d1 \<noteq> demo_governed \<and>
     snd (Remember demo_store demo_analyzer 5 [] demo_env (demo_auth AudiencePrivate) demo_request d1) = d1"
proof -
  obtain r d1 where run: "DeleteReceipt demo_store demo_genv demo_delete demo_governed = (Inr r, d1)" "d1 \<noteq> demo_governed"
    "step demo_governed d1" "authorize 5 d1 (demo_auth AudiencePrivate) OperationRemember = Inr (demo_view SpaceClassPrivate)"
    by (rule demo_deletion_step)
  from deletion_is_final[OF run(1,2) demo_delete_receipt(1) rtranclp.rtrancl_refl run(4)] run
  show ?thesis by (auto simp: demo_view_def demo_receipt_def demo_request_def)
qed

end
